(* ===== verification/Prelude.thy ===== *)
theory Prelude
  imports Main "HOL-Library.Word"
begin

text \<open>
  Shared vocabulary of the development: the machine integer types of the Rust sources as
  words, byte-addressed memory with little-endian loads and stores, the text functions of
  the Rust standard library the sources use (UTF-8 decoding, string prefixes), and the
  generic interfaces (locales) that several components provide: a machine driven by
  operations that keep an invariant, a table with lookup/insert/remove laws, and a family
  of FIFO queues.

  Arithmetic of the sources is read with the release profile of Rust (no overflow checks),
  so \<open>+\<close>, \<open>-\<close> and \<open>*\<close> on machine integers wrap around exactly as on words.
\<close>

unbundle bit_operations_syntax

section \<open>Machine integers\<close>

type_synonym u8 = "8 word"
type_synonym u16 = "16 word"
type_synonym u32 = "32 word"
type_synonym u64 = "64 word"
type_synonym i32 = "32 word"
type_synonym i64 = "64 word"
type_synonym ptr = "64 word"

named_theorems bytes_simps \<open>lengths and conversions of little-endian byte lists\<close>
named_theorems inv_intros \<open>operations that keep the invariant of their component\<close>

lemma take_bit_below: "unat w < 2 ^ k \<Longrightarrow> take_bit k w = (w :: 'a::len word)"
  by (simp add: word_eq_iff_unsigned [where ?'a = nat] unsigned_take_bit_eq take_bit_nat_eq_self)

lemma unat_ucast_32_64 [simp]: "unat (ucast (w :: u32) :: u64) = unat w"
proof -
  have "unat w < 2 ^ 64" using unsigned_less [of w, where ?'a = nat] by simp
  then show ?thesis by (simp add: unsigned_ucast_eq take_bit_nat_eq_self)
qed

lemma unat_of_nat_u32: "i < 2 ^ 32 \<Longrightarrow> unat (of_nat i :: u32) = i"
  by (simp add: unsigned_of_nat take_bit_nat_eq_self)

lemma ucast_of_nat_64_32 [simp]: "(ucast (of_nat n :: u64) :: u32) = of_nat n"
  by (rule bit_word_eqI) (auto simp: bit_simps)

text \<open>\<open>w & !0xFFF\<close>: the page (4096 bytes) an address lies in.\<close>

definition page_of :: "u64 \<Rightarrow> u64" where
  "page_of a = a AND NOT 0xFFF"

lemma unat_mask12: "unat (a AND 0xFFF :: u64) = unat a mod 4096"
proof -
  have "(0xFFF :: u64) = mask 12" by (simp add: mask_eq_exp_minus_1)
  then have "a AND 0xFFF = take_bit 12 a" by (simp only: take_bit_eq_mask)
  then have "unat (a AND 0xFFF) = take_bit 12 (unat a)" by (simp only: unsigned_take_bit_eq)
  then show ?thesis by (simp add: take_bit_eq_mod)
qed

lemma page_of_split: "page_of a = a - (a AND 0xFFF)"
proof -
  have disj: "(a AND NOT 0xFFF) AND (a AND 0xFFF) = 0"
    by (rule bit_word_eqI) (auto simp: bit_simps)
  have union: "(a AND NOT 0xFFF) OR (a AND 0xFFF) = a"
    by (rule bit_word_eqI) (auto simp: bit_simps)
  have "(a AND NOT 0xFFF) + (a AND 0xFFF) = (a AND NOT 0xFFF) OR (a AND 0xFFF)"
    by (rule disjunctive_add_eq_or) (rule disj)
  with union show ?thesis
    by (simp add: page_of_def algebra_simps)
qed

lemma unat_page_of: "unat (page_of a) = unat a - unat a mod 4096"
proof -
  have "a AND 0xFFF \<le> a" by (rule word_and_le2)
  then have "unat (a - (a AND 0xFFF)) = unat a - unat (a AND 0xFFF)"
    by (simp add: unat_sub)
  then show ?thesis by (simp add: page_of_split unat_mask12)
qed

lemma page_of_le: "unat (page_of a) \<le> unat a"
  by (simp add: unat_page_of)

lemma page_of_near: "unat a < unat (page_of a) + 4096"
proof -
  have "unat a mod 4096 < 4096" by simp
  then show ?thesis unfolding unat_page_of by linarith
qed

section \<open>Little-endian bytes\<close>

definition le_bytes32 :: "u32 \<Rightarrow> u8 list" where
  "le_bytes32 w = map (\<lambda>i. ucast (drop_bit (8 * i) w)) [0..<4]"

definition le_bytes64 :: "u64 \<Rightarrow> u8 list" where
  "le_bytes64 w = map (\<lambda>i. ucast (drop_bit (8 * i) w)) [0..<8]"

fun or_bytes :: "u8 list \<Rightarrow> 'a::len word" where
  "or_bytes [] = 0"
| "or_bytes (b # bs) = ucast b OR push_bit 8 (or_bytes bs)"

definition u32_from_le :: "u8 list \<Rightarrow> u32" where
  "u32_from_le bs = or_bytes (take 4 bs)"

definition u64_from_le :: "u8 list \<Rightarrow> u64" where
  "u64_from_le bs = or_bytes (take 8 bs)"

lemma length_le_bytes32 [bytes_simps, simp]: "length (le_bytes32 w) = 4"
  by (simp add: le_bytes32_def)

lemma length_le_bytes64 [bytes_simps, simp]: "length (le_bytes64 w) = 8"
  by (simp add: le_bytes64_def)

lemma bit_or_bytes:
  "bit (or_bytes bs :: 'a::len word) n \<longleftrightarrow>
     n < LENGTH('a) \<and> n div 8 < length bs \<and> bit (bs ! (n div 8)) (n mod 8)"
proof (induction bs arbitrary: n)
  case Nil
  then show ?case by simp
next
  case (Cons b bs)
  show ?case
  proof (cases "n < 8")
    case True
    then show ?thesis by (auto simp: bit_simps)
  next
    case False
    then obtain m where n: "n = m + 8" by (metis add.commute le_Suc_ex not_less)
    have nb: "\<not> bit (ucast b :: 'a word) n"
      using False by (auto simp: bit_simps dest: bit_imp_le_length)
    have q: "(m + 8) div 8 = Suc (m div 8)" by simp
    show ?thesis
      using nb Cons.IH [of m] unfolding n q
      by (auto simp: bit_simps)
  qed
qed

lemma u64_le_roundtrip [simp]: "u64_from_le (le_bytes64 w) = w"
proof (rule bit_word_eqI)
  fix n assume n: "n < LENGTH(64)"
  then have "n div 8 < 8" by simp
  then show "bit (u64_from_le (le_bytes64 w)) n = bit w n"
    using n by (simp add: u64_from_le_def bit_or_bytes le_bytes64_def bit_simps)
qed

lemma u32_le_roundtrip [simp]: "u32_from_le (le_bytes32 w) = w"
proof (rule bit_word_eqI)
  fix n assume n: "n < LENGTH(32)"
  then have "n div 8 < 4" by simp
  then show "bit (u32_from_le (le_bytes32 w)) n = bit w n"
    using n by (simp add: u32_from_le_def bit_or_bytes le_bytes32_def bit_simps)
qed

section \<open>Byte-addressed memory\<close>

text \<open>
  Process memory as the sources see it through raw pointers: a byte for every 64-bit
  address. Page protections and unmapped addresses are not part of this view.
\<close>

type_synonym mem = "u64 \<Rightarrow> u8"

definition store_bytes :: "mem \<Rightarrow> u64 \<Rightarrow> u8 list \<Rightarrow> mem" where
  "store_bytes m a bs = (\<lambda>x. if unat (x - a) < length bs then bs ! unat (x - a) else m x)"

definition load_bytes :: "mem \<Rightarrow> u64 \<Rightarrow> nat \<Rightarrow> u8 list" where
  "load_bytes m a n = map (\<lambda>i. m (a + of_nat i)) [0..<n]"

definition load64 :: "mem \<Rightarrow> u64 \<Rightarrow> u64" where
  "load64 m a = u64_from_le (load_bytes m a 8)"

definition store64 :: "mem \<Rightarrow> u64 \<Rightarrow> u64 \<Rightarrow> mem" where
  "store64 m a v = store_bytes m a (le_bytes64 v)"

definition load32 :: "mem \<Rightarrow> u64 \<Rightarrow> u32" where
  "load32 m a = u32_from_le (load_bytes m a 4)"

definition load16 :: "mem \<Rightarrow> u64 \<Rightarrow> u16" where
  "load16 m a = or_bytes (load_bytes m a 2)"

lemma length_load_bytes [bytes_simps, simp]: "length (load_bytes m a n) = n"
  by (simp add: load_bytes_def)

lemma plus_one_nonzero: "(c :: u32) \<noteq> 0xFFFFFFFF \<Longrightarrow> c + 1 \<noteq> 0"
proof
  assume "c \<noteq> 0xFFFFFFFF" "c + 1 = 0"
  then have "c = -1" by (simp add: eq_neg_iff_add_eq_0)
  with \<open>c \<noteq> 0xFFFFFFFF\<close> show False by simp
qed

lemma load_bytes_unfold:
  "load_bytes m a 2 = [m a, m (a + 1)]"
  "load_bytes m a 4 = [m a, m (a + 1), m (a + 2), m (a + 3)]"
  "load_bytes m a 8 = [m a, m (a + 1), m (a + 2), m (a + 3), m (a + 4), m (a + 5), m (a + 6), m (a + 7)]"
  by (simp_all add: load_bytes_def numeral_eq_Suc)

lemma unat_u64_lt: "unat (w :: u64) < 2 ^ 64"
  using unsigned_less [of w] by simp

lemma unat_of_nat_u64: "i < 2 ^ 64 \<Longrightarrow> unat (of_nat i :: u64) = i"
  by (simp add: unsigned_of_nat take_bit_nat_eq_self)

lemma load_store_same:
  assumes "length bs = n" and "n < 2 ^ 64"
  shows "load_bytes (store_bytes m a bs) a n = bs"
  using assms
  by (intro nth_equalityI) (auto simp: load_bytes_def store_bytes_def unat_of_nat_u64)

text \<open>Two ranges of addresses that do not meet, without wrap-around.\<close>

definition apart :: "u64 \<Rightarrow> nat \<Rightarrow> u64 \<Rightarrow> nat \<Rightarrow> bool" where
  "apart a n b k \<longleftrightarrow> (\<forall>i < n. \<forall>j < k. a + of_nat i \<noteq> b + of_nat j)"

lemma load_store_apart:
  assumes "apart a n b (length bs)" and "length bs < 2 ^ 64"
  shows "load_bytes (store_bytes m b bs) a n = load_bytes m a n"
proof -
  have "store_bytes m b bs (a + of_nat i) = m (a + of_nat i)" if "i < n" for i
  proof -
    let ?x = "a + of_nat i"
    have "\<not> unat (?x - b) < length bs"
    proof
      assume lt: "unat (?x - b) < length bs"
      have "?x = b + of_nat (unat (?x - b))" by simp
      with lt that assms(1) show False unfolding apart_def by blast
    qed
    then show ?thesis by (simp add: store_bytes_def)
  qed
  then show ?thesis by (simp add: load_bytes_def)
qed

lemma apartI_below:
  assumes "unat a + n \<le> unat b" and "unat b + k \<le> 2 ^ 64"
  shows "apart a n b k" and "apart b k a n"
proof -
  have ne: "a + of_nat i \<noteq> b + of_nat j" if "i < n" "j < k" for i j
  proof
    assume eq: "a + of_nat i = b + of_nat j"
    have bound: "unat b < 2 ^ 64" using unsigned_less [of b] by simp
    have bj: "unat b + j < 2 ^ 64" using that assms by simp
    have ai: "unat a + i < 2 ^ 64" using that assms bound by simp
    have "unat (a + of_nat i) = unat a + i"
      using ai by (simp add: unat_word_ariths unat_of_nat_u64)
    moreover have "unat (b + of_nat j) = unat b + j"
      using bj by (simp add: unat_word_ariths unat_of_nat_u64)
    ultimately show False using eq that assms by simp
  qed
  then show "apart a n b k" by (simp add: apart_def)
  from ne show "apart b k a n" by (metis apart_def)
qed

lemma apart_sub:
  assumes "apart a n p k" and "d + l \<le> n"
  shows "apart (a + of_nat d) l p k"
  unfolding apart_def
proof (intro allI impI)
  fix i j assume "i < l" "j < k"
  then have "a + of_nat (d + i) \<noteq> p + of_nat j"
    using assms unfolding apart_def by (meson add_less_cancel_left less_le_trans)
  then show "a + of_nat d + of_nat i \<noteq> p + of_nat j" by (simp add: add.assoc)
qed

lemma apart_sym: "apart a n p k \<Longrightarrow> apart p k a n"
  unfolding apart_def by metis

lemma apart_sub2: "apart a n p k \<Longrightarrow> d + l \<le> n \<Longrightarrow> e + f \<le> k \<Longrightarrow> apart (a + of_nat d) l (p + of_nat e) f"
  by (meson apart_sub apart_sym)

text \<open>Two fields of one object.\<close>

lemma apart_fields:
  assumes "d + l \<le> e \<or> e + f \<le> d" and "d + l \<le> 2 ^ 64" and "e + f \<le> 2 ^ 64"
  shows "apart (p + of_nat d) l (p + of_nat e) f"
  unfolding apart_def
proof (intro allI impI notI)
  fix i j assume ij: "i < l" "j < f" and "p + of_nat d + of_nat i = p + of_nat e + of_nat j"
  then have "(of_nat (d + i) :: u64) = of_nat (e + j)" by (simp add: add.assoc)
  then have "unat (of_nat (d + i) :: u64) = unat (of_nat (e + j) :: u64)" by (rule arg_cong)
  moreover have "unat (of_nat (d + i) :: u64) = d + i" "unat (of_nat (e + j) :: u64) = e + j"
    using ij assms(2,3) by (intro unat_of_nat_u64, simp)+
  ultimately have "d + i = e + j" by (simp only:)
  with ij assms(1) show False by linarith
qed

lemma load64_store64_same [simp]: "load64 (store64 m a v) a = v"
  by (simp add: load64_def store64_def load_store_same)

lemma load64_store64_apart:
  "apart a 8 b 8 \<Longrightarrow> load64 (store64 m b v) a = load64 m a"
  by (simp add: load64_def store64_def load_store_apart)

section \<open>Text\<close>

text \<open>
  A Rust \<open>&str\<close> or \<open>String\<close> is a list of characters here; its bytes, where the code
  looks at bytes, are a \<open>u8 list\<close>. \<open>utf8_decode\<close> is \<open>std::str::from_utf8\<close>: the
  scalar values of a well-formed byte list, \<open>None\<close> where the standard library reports an
  error (overlong forms, surrogates and values above 10FFFF are errors).
\<close>

definition cont_byte :: "u8 \<Rightarrow> bool" where
  "cont_byte b \<longleftrightarrow> 0x80 \<le> b \<and> b < 0xC0"

fun utf8_decode :: "u8 list \<Rightarrow> nat list option" where
  "utf8_decode [] = Some []"
| "utf8_decode (a # r) =
    (if a < 0x80 then map_option ((#) (unat a)) (utf8_decode r)
     else if 0xC2 \<le> a \<and> a < 0xE0 then
       (case r of b # r1 \<Rightarrow>
          if cont_byte b
          then map_option ((#) ((unat a - 0xC0) * 64 + (unat b - 0x80))) (utf8_decode r1)
          else None
        | _ \<Rightarrow> None)
     else if 0xE0 \<le> a \<and> a < 0xF0 then
       (case r of b # c # r2 \<Rightarrow>
          if cont_byte b \<and> cont_byte c \<and> (a = 0xE0 \<longrightarrow> 0xA0 \<le> b) \<and> (a = 0xED \<longrightarrow> b < 0xA0)
          then map_option ((#) ((unat a - 0xE0) * 4096 + (unat b - 0x80) * 64 + (unat c - 0x80)))
                 (utf8_decode r2)
          else None
        | _ \<Rightarrow> None)
     else if 0xF0 \<le> a \<and> a < 0xF5 then
       (case r of b # c # d # r3 \<Rightarrow>
          if cont_byte b \<and> cont_byte c \<and> cont_byte d \<and> (a = 0xF0 \<longrightarrow> 0x90 \<le> b) \<and> (a = 0xF4 \<longrightarrow> b < 0x90)
          then map_option ((#) ((unat a - 0xF0) * 262144 + (unat b - 0x80) * 4096
                                 + (unat c - 0x80) * 64 + (unat d - 0x80)))
                 (utf8_decode r3)
          else None
        | _ \<Rightarrow> None)
     else None)"

text \<open>
  \<open>String::from_utf8_lossy\<close>: every maximal prefix of a sequence that cannot be completed
  becomes the replacement character (three bytes).
\<close>

definition replacement :: "u8 list" where
  "replacement = [0xEF, 0xBF, 0xBD]"

definition second_ok :: "u8 \<Rightarrow> u8 \<Rightarrow> bool" where
  "second_ok a b \<longleftrightarrow> cont_byte b \<and> (a = 0xE0 \<longrightarrow> 0xA0 \<le> b) \<and> (a = 0xED \<longrightarrow> b < 0xA0)
     \<and> (a = 0xF0 \<longrightarrow> 0x90 \<le> b) \<and> (a = 0xF4 \<longrightarrow> b < 0x90)"

definition seq_len :: "u8 \<Rightarrow> nat" where
  "seq_len a =
    (if a < 0x80 then 1 else if 0xC2 \<le> a \<and> a < 0xE0 then 2 else if 0xE0 \<le> a \<and> a < 0xF0 then 3
     else if 0xF0 \<le> a \<and> a < 0xF5 then 4 else 0)"

text \<open>How many of the bytes after the lead byte continue the sequence.\<close>

definition cont_count :: "u8 \<Rightarrow> u8 list \<Rightarrow> nat" where
  "cont_count a r =
    (if seq_len a < 2 \<or> r = [] \<or> \<not> second_ok a (hd r) then 0
     else if seq_len a < 3 \<or> length r < 2 \<or> \<not> cont_byte (r ! 1) then 1
     else if seq_len a < 4 \<or> length r < 3 \<or> \<not> cont_byte (r ! 2) then 2
     else 3)"

function utf8_lossy :: "u8 list \<Rightarrow> u8 list" where
  "utf8_lossy [] = []"
| "utf8_lossy (a # r) =
    (let k = cont_count a r
     in (if seq_len a = k + 1 then a # take k r else replacement) @ utf8_lossy (drop k r))"
  by pat_completeness auto
termination by (relation "measure length") auto

definition ascii_bytes :: "u8 list \<Rightarrow> bool" where
  "ascii_bytes bs \<longleftrightarrow> (\<forall>b \<in> set bs. b < 0x80)"

lemma utf8_lossy_ascii: "ascii_bytes bs \<Longrightarrow> utf8_lossy bs = bs"
  by (induction bs) (auto simp: ascii_bytes_def seq_len_def cont_count_def)

lemma set_utf8_lossy: "set (utf8_lossy bs) \<subseteq> set bs \<union> set replacement"
proof (induction bs rule: utf8_lossy.induct)
  case 1
  then show ?case by simp
next
  case (2 a r)
  then show ?case using set_take_subset [of "cont_count a r" r] set_drop_subset [of "cont_count a r" r]
    by (auto simp: Let_def)
qed

declare utf8_lossy.simps(2) [simp del]

section \<open>C strings\<close>

text \<open>
  \<open>CStr::from_ptr\<close>: the bytes up to the first NUL. The search may not end: then the call does
  not return, and the result is \<open>None\<close>.
\<close>

partial_function (option) cstr_from :: "mem \<Rightarrow> u64 \<Rightarrow> u8 list option" where
  "cstr_from m a =
    (if m a = 0 then Some []
     else Option.bind (cstr_from m (a + 1)) (\<lambda>bs. Some (m a # bs)))"

text \<open>A \<open>str\<close> as a list of characters: its UTF-8 bytes, one character each.\<close>

definition text_of_bytes :: "u8 list \<Rightarrow> string" where
  "text_of_bytes bs = map (\<lambda>b. char_of (unat b)) bs"

definition bytes_of_text :: "string \<Rightarrow> u8 list" where
  "bytes_of_text s = map (\<lambda>c. of_nat (of_char c)) s"

lemma bind_SomeE: "Option.bind x f = Some z \<Longrightarrow> (\<And>y. x = Some y \<Longrightarrow> f y = Some z \<Longrightarrow> P) \<Longrightarrow> P"
  by (cases x) simp_all

lemma length_bytes_of_text [simp]: "length (bytes_of_text s) = length s"
  by (simp add: bytes_of_text_def)

lemma bytes_of_text_of_bytes [simp]: "bytes_of_text (text_of_bytes bs) = bs"
proof (induction bs)
  case Nil
  then show ?case by (simp add: text_of_bytes_def bytes_of_text_def)
next
  case (Cons b bs)
  have "unat b < 256" using unsigned_less [of b] by simp
  then have "(of_nat (of_char (char_of (unat b) :: char)) :: u8) = b" by simp
  with Cons show ?case by (simp add: text_of_bytes_def bytes_of_text_def)
qed

lemma bytes_of_text_nul: "0 \<in> set (bytes_of_text s) \<Longrightarrow> CHR 0x00 \<in> set s"
proof -
  assume "0 \<in> set (bytes_of_text s)"
  then obtain c where c: "c \<in> set s" "(of_nat (of_char c) :: u8) = 0" by (auto simp: bytes_of_text_def)
  have "(of_char c :: nat) < 256" by simp
  then have "of_char c = (0 :: nat)"
    using arg_cong [OF c(2), of unat] by (simp add: unsigned_of_nat take_bit_nat_eq_self)
  then have "c = char_of (0 :: nat)" by (metis char_of_char)
  then have "c = CHR 0x00" by (simp add: char_of_def)
  with c(1) show ?thesis by simp
qed

lemma text_of_bytes_inj: "text_of_bytes a = text_of_bytes b \<Longrightarrow> a = b"
  by (metis bytes_of_text_of_bytes)

text \<open>Where a NUL-terminated string lies, reading it back returns it.\<close>

lemma cstr_from_stored:
  assumes "\<forall>i < length bs. m (a + of_nat i) = bs ! i" and "m (a + of_nat (length bs)) = 0"
    and "0 \<notin> set bs"
  shows "cstr_from m a = Some bs"
  using assms
proof (induction bs arbitrary: a)
  case Nil
  then show ?case by (simp add: cstr_from.simps)
next
  case (Cons b bs)
  have "m (a + 1 + of_nat i) = bs ! i" if "i < length bs" for i
    using Cons.prems(1) [rule_format, of "Suc i"] that by (simp add: algebra_simps)
  moreover have "m (a + 1 + of_nat (length bs)) = 0" using Cons.prems(2) by (simp add: algebra_simps)
  ultimately have "cstr_from m (a + 1) = Some bs" using Cons.IH [of "a + 1"] Cons.prems(3) by simp
  moreover have "m a = b" "b \<noteq> 0" using Cons.prems(1) [rule_format, of 0] Cons.prems(3) by auto
  ultimately show ?case by (simp add: cstr_from.simps [of m a])
qed

text \<open>\<open>encode_utf16\<close>: one unit below 10000, a surrogate pair above.\<close>

fun utf16_units :: "nat \<Rightarrow> u16 list" where
  "utf16_units c =
     (if c < 0x10000 then [of_nat c]
      else [of_nat (0xD800 + (c - 0x10000) div 1024), of_nat (0xDC00 + (c - 0x10000) mod 1024)])"

definition utf16_encode :: "nat list \<Rightarrow> u16 list" where
  "utf16_encode cs = concat (map utf16_units cs)"

lemma utf8_decode_ascii: "ascii_bytes bs \<Longrightarrow> utf8_decode bs = Some (map unat bs)"
  by (induction bs) (auto simp: ascii_bytes_def)

lemma length_utf16_ascii: "ascii_bytes bs \<Longrightarrow> length (utf16_encode (map unat bs)) = length bs"
proof (induction bs)
  case Nil
  then show ?case by (simp add: utf16_encode_def)
next
  case (Cons b bs)
  then have "b < 0x80" by (simp add: ascii_bytes_def)
  then have "unat b < 0x80" by (simp add: word_less_nat_alt)
  with Cons show ?case by (simp add: utf16_encode_def ascii_bytes_def)
qed

text \<open>\<open>str::strip_prefix\<close>.\<close>

fun strip_prefix :: "'a list \<Rightarrow> 'a list \<Rightarrow> 'a list option" where
  "strip_prefix [] s = Some s"
| "strip_prefix (p # ps) [] = None"
| "strip_prefix (p # ps) (c # cs) = (if p = c then strip_prefix ps cs else None)"

lemma strip_prefix_iff: "strip_prefix p s = Some r \<longleftrightarrow> s = p @ r"
  by (induction p s rule: strip_prefix.induct) auto

definition starts_with :: "'a list \<Rightarrow> 'a list \<Rightarrow> bool" where
  "starts_with s p \<longleftrightarrow> strip_prefix p s \<noteq> None"

definition ends_with :: "'a list \<Rightarrow> 'a list \<Rightarrow> bool" where
  "ends_with s p \<longleftrightarrow> strip_prefix (rev p) (rev s) \<noteq> None"

lemma ends_with_iff: "ends_with s p \<longleftrightarrow> (\<exists>r. s = r @ p)"
proof -
  have "ends_with s p \<longleftrightarrow> (\<exists>r. rev s = rev p @ r)"
    by (simp add: ends_with_def strip_prefix_iff)
  also have "\<dots> \<longleftrightarrow> (\<exists>r. s = r @ p)"
    by (metis rev_append rev_rev_ident)
  finally show ?thesis .
qed

section \<open>Tables in iteration order\<close>

text \<open>
  A \<open>HashMap\<close> whose iteration order the code can observe is an association list: the
  list order is the (unspecified) iteration order, and every property is proved for all
  orders. \<open>alist_insert\<close> replaces the value in place or adds the key.
\<close>

fun alist_insert :: "'k \<Rightarrow> 'v \<Rightarrow> ('k \<times> 'v) list \<Rightarrow> ('k \<times> 'v) list" where
  "alist_insert k v [] = [(k, v)]"
| "alist_insert k v ((k', v') # r) =
     (if k = k' then (k, v) # r else (k', v') # alist_insert k v r)"

definition alist_remove :: "'k \<Rightarrow> ('k \<times> 'v) list \<Rightarrow> ('k \<times> 'v) list" where
  "alist_remove k xs = filter (\<lambda>(k', _). k' \<noteq> k) xs"

lemma map_of_alist_insert [simp]: "map_of (alist_insert k v xs) = (map_of xs)(k \<mapsto> v)"
  by (induction xs) (auto simp: fun_eq_iff)

lemma map_of_alist_remove [simp]: "map_of (alist_remove k xs) = (map_of xs)(k := None)"
  by (induction xs) (auto simp: alist_remove_def fun_eq_iff)

lemma keys_alist_insert: "fst ` set (alist_insert k v xs) = insert k (fst ` set xs)"
  by (induction xs) force+

lemma distinct_alist_insert [simp]:
  "distinct (map fst xs) \<Longrightarrow> distinct (map fst (alist_insert k v xs))"
proof (induction xs)
  case Nil
  then show ?case by simp
next
  case (Cons x xs)
  then show ?case
    by (cases x) (auto simp: keys_alist_insert)
qed

section \<open>Interfaces\<close>

text \<open>
  A machine whose operations keep an invariant, whatever sequence of them a client issues;
  \<open>ok\<close> is what an operation needs of the state it runs in.
\<close>

fun run_ops :: "('op \<Rightarrow> 's \<Rightarrow> 's) \<Rightarrow> 'op list \<Rightarrow> 's \<Rightarrow> 's" where
  "run_ops step [] s = s"
| "run_ops step (x # xs) s = run_ops step xs (step x s)"

fun run_ok :: "('op \<Rightarrow> 's \<Rightarrow> 's) \<Rightarrow> ('op \<Rightarrow> 's \<Rightarrow> bool) \<Rightarrow> 'op list \<Rightarrow> 's \<Rightarrow> bool" where
  "run_ok step ok [] s = True"
| "run_ok step ok (x # xs) s = (ok x s \<and> run_ok step ok xs (step x s))"

lemma run_ops_append: "run_ops step (xs @ ys) s = run_ops step ys (run_ops step xs s)"
  by (induction xs arbitrary: s) auto

locale op_machine =
  fixes step :: "'op \<Rightarrow> 's \<Rightarrow> 's"
    and inv :: "'s \<Rightarrow> bool"
    and ok :: "'op \<Rightarrow> 's \<Rightarrow> bool"
  assumes step_inv: "inv s \<Longrightarrow> ok x s \<Longrightarrow> inv (step x s)"
begin

lemma run_inv: "inv s \<Longrightarrow> run_ok step ok xs s \<Longrightarrow> inv (run_ops step xs s)"
  by (induction xs arbitrary: s) (auto intro: step_inv)

end

text \<open>A table of the client's keys: what a lookup returns after an insertion or removal.\<close>

locale keyed_store =
  fixes lookup :: "'s \<Rightarrow> 'k \<Rightarrow> 'v option"
    and insert_at :: "'k \<Rightarrow> 'v \<Rightarrow> 's \<Rightarrow> 's"
    and remove_at :: "'k \<Rightarrow> 's \<Rightarrow> 's"
  assumes lookup_insert: "lookup (insert_at k v s) k' = (if k' = k then Some v else lookup s k')"
    and lookup_remove: "lookup (remove_at k s) k' = (if k' = k then None else lookup s k')"
begin

lemma lookup_insert_same: "lookup (insert_at k v s) k = Some v"
  by (simp add: lookup_insert)

lemma lookup_insert_other: "k' \<noteq> k \<Longrightarrow> lookup (insert_at k v s) k' = lookup s k'"
  by (simp add: lookup_insert)

lemma remove_insert: "lookup (remove_at k (insert_at k v s)) k' = (if k' = k then None else lookup s k')"
  by (simp add: lookup_insert lookup_remove)

lemma insert_commute:
  "k \<noteq> j \<Longrightarrow> lookup (insert_at k v (insert_at j w s)) = lookup (insert_at j w (insert_at k v s))"
  by (auto simp: lookup_insert fun_eq_iff)

end

text \<open>
  A family of FIFO queues, one per key; \<open>live\<close> says which keys accept messages. The laws
  speak of the abstract contents only.
\<close>

fun enq_all :: "('m \<Rightarrow> 's \<Rightarrow> 's) \<Rightarrow> 'm list \<Rightarrow> 's \<Rightarrow> 's" where
  "enq_all f [] s = s"
| "enq_all f (m # ms) s = enq_all f ms (f m s)"

fun deq_n :: "('s \<Rightarrow> 'm option \<times> 's) \<Rightarrow> nat \<Rightarrow> 's \<Rightarrow> 'm option list \<times> 's" where
  "deq_n f 0 s = ([], s)"
| "deq_n f (Suc n) s = (case f s of (r, s1) \<Rightarrow> case deq_n f n s1 of (rs, s2) \<Rightarrow> (r # rs, s2))"

locale fifo_family =
  fixes enq :: "'k \<Rightarrow> 'm \<Rightarrow> 's \<Rightarrow> 's"
    and deq :: "'k \<Rightarrow> 's \<Rightarrow> 'm option \<times> 's"
    and contents :: "'s \<Rightarrow> 'k \<Rightarrow> 'm list"
    and live :: "'s \<Rightarrow> 'k \<Rightarrow> bool"
  assumes contents_enq: "live s k \<Longrightarrow> contents (enq k m s) = (contents s)(k := contents s k @ [m])"
    and live_enq: "live s k \<Longrightarrow> live (enq k m s) k"
    and deq_result: "fst (deq k s) = (case contents s k of [] \<Rightarrow> None | m # _ \<Rightarrow> Some m)"
    and contents_deq: "contents (snd (deq k s)) = (contents s)(k := tl (contents s k))"
begin

lemma contents_enq_all:
  "live s k \<Longrightarrow> contents (enq_all (enq k) ms s) = (contents s)(k := contents s k @ ms)"
proof (induction ms arbitrary: s)
  case Nil
  then show ?case by simp
next
  case (Cons m ms)
  then show ?case by (simp add: contents_enq live_enq fun_eq_iff)
qed

lemma deq_n_contents:
  assumes "contents s k = ms @ rest"
  shows "fst (deq_n (deq k) (length ms) s) = map Some ms
       \<and> contents (snd (deq_n (deq k) (length ms) s)) = (contents s)(k := rest)"
  using assms
proof (induction ms arbitrary: s)
  case Nil
  then show ?case by auto
next
  case (Cons m ms)
  obtain r s1 where d: "deq k s = (r, s1)" by (cases "deq k s")
  have r: "r = Some m" using deq_result [of k s] Cons.prems d by simp
  have c1: "contents s1 = (contents s)(k := ms @ rest)"
    using contents_deq [of k s] Cons.prems d by simp
  then have "contents s1 k = ms @ rest" by simp
  from Cons.IH [OF this] c1 r d show ?case by (simp add: case_prod_beta fun_eq_iff)
qed

lemma fifo_order:
  assumes "live s k" and "contents s k = []"
  shows "fst (deq_n (deq k) (length ms) (enq_all (enq k) ms s)) = map Some ms"
  using deq_n_contents [of "enq_all (enq k) ms s" k ms "[]"] contents_enq_all [OF assms(1), of ms] assms(2)
  by simp

end

end
