(* ===== verification/Float64.thy ===== *)
theory Float64
  imports Prelude "HOL-Library.Code_Target_Nat"
begin

text \<open>
  The type \<open>f64\<close> of Rust: IEEE 754 binary64 values by their bits. Every finite value is an
  integer multiple of \<open>2 ^ -1074\<close>, so \<open>f64_val\<close> reads a finite value exactly as an integer in
  that unit and the operations are exact integer arithmetic followed by one rounding to the
  nearest value, ties to even, as the standard prescribes. All NaN results are the canonical
  quiet NaN (Rust leaves their payload open). The lemmas show that comparing values is
  comparing their integers, that rounding is exact on representable values and monotone, and
  that adding a non-negative amount never makes a value smaller.
\<close>

type_synonym f64 = "64 word"

named_theorems f64_simps \<open>unfolding the operations on binary64 values\<close>

section \<open>Bits\<close>

definition f64_neg :: "f64 \<Rightarrow> bool" where
  "f64_neg b = bit b 63"

definition f64_abs :: "f64 \<Rightarrow> nat" where
  "f64_abs b = unat b mod 2 ^ 63"

definition f64_inf :: nat where
  "f64_inf = 2047 * 2 ^ 52"

definition is_nan :: "f64 \<Rightarrow> bool" where
  "is_nan b = (f64_inf < f64_abs b)"

definition is_finite :: "f64 \<Rightarrow> bool" where
  "is_finite b = (f64_abs b < f64_inf)"

definition f64_of :: "bool \<Rightarrow> nat \<Rightarrow> f64" where
  "f64_of neg a = of_nat ((if neg then 2 ^ 63 else 0) + a)"

definition nan :: f64 where
  "nan = 0x7FF8000000000000"

definition INFINITY :: f64 where
  "INFINITY = 0x7FF0000000000000"

definition f64_MAX :: f64 where
  "f64_MAX = 0x7FEFFFFFFFFFFFFF"

lemma f64_abs_lt: "f64_abs b < 2 ^ 63"
  by (simp add: f64_abs_def)

lemma unat_f64_of: "a < 2 ^ 63 \<Longrightarrow> unat (f64_of neg a) = (if neg then 2 ^ 63 else 0) + a"
  unfolding f64_of_def by (rule unat_of_nat_u64) auto

lemma f64_abs_of [simp]: "a < 2 ^ 63 \<Longrightarrow> f64_abs (f64_of neg a) = a"
  by (simp add: f64_abs_def unat_f64_of)

lemma bit_63: "bit (b :: 64 word) 63 = (2 ^ 63 \<le> unat b)"
proof -
  have "unat b < 2 ^ 64" by (rule unat_u64_lt)
  then have two: "unat b div 2 ^ 63 < 2" by (simp add: less_mult_imp_div_less)
  have "bit b 63 = bit (unat b) 63" by (simp add: bit_unsigned_iff)
  also have "\<dots> = odd (unat b div 2 ^ 63)" by (rule bit_iff_odd)
  also have "\<dots> = (unat b div 2 ^ 63 \<noteq> 0)"
    using two by (cases "unat b div 2 ^ 63" rule: nat.exhaust) (auto simp: less_Suc_eq)
  also have "\<dots> = (2 ^ 63 \<le> unat b)" by (simp add: div_eq_0_iff not_less)
  finally show ?thesis .
qed

lemma f64_neg_of [simp]: "a < 2 ^ 63 \<Longrightarrow> f64_neg (f64_of neg a) = neg"
  by (simp add: f64_neg_def bit_63 unat_f64_of)

lemma f64_of_bits [simp]: "f64_of (f64_neg b) (f64_abs b) = b"
proof -
  have lt: "unat b < 2 ^ 64" by (rule unat_u64_lt)
  have "(if f64_neg b then 2 ^ 63 else 0) + f64_abs b = unat b"
  proof (cases "2 ^ 63 \<le> unat b")
    case True
    with lt have "unat b mod 2 ^ 63 = unat b - 2 ^ 63" by (simp add: le_mod_geq)
    with True show ?thesis by (simp add: f64_neg_def bit_63 f64_abs_def)
  qed (simp add: f64_neg_def bit_63 f64_abs_def)
  then show ?thesis by (simp add: f64_of_def)
qed

section \<open>The value of a finite number, in units of \<open>2 ^ -1074\<close>\<close>

definition f64_mag :: "nat \<Rightarrow> nat" where
  "f64_mag a = (if a < 2 ^ 52 then a else (2 ^ 52 + a mod 2 ^ 52) * 2 ^ (a div 2 ^ 52 - 1))"

definition f64_val :: "f64 \<Rightarrow> int" where
  "f64_val b = (if f64_neg b then - int (f64_mag (f64_abs b)) else int (f64_mag (f64_abs b)))"

lemma f64_mag_small: "a < 2 ^ 53 \<Longrightarrow> f64_mag a = a"
proof (cases "a < 2 ^ 52")
  case False
  moreover assume "a < 2 ^ 53"
  ultimately have d: "a div 2 ^ 52 = 1" by (simp add: div_nat_eqI)
  have "a = a div 2 ^ 52 * 2 ^ 52 + a mod 2 ^ 52" by (rule div_mult_mod_eq [symmetric])
  with d False show ?thesis by (simp add: f64_mag_def)
qed (simp add: f64_mag_def)

lemma f64_mag_split: "f64_mag (Suc e * 2 ^ 52 + f) = (2 ^ 52 + f) * 2 ^ e" if "f < 2 ^ 52"
proof -
  have d: "(Suc e * 2 ^ 52 + f) div 2 ^ 52 = Suc e" using that by (intro div_nat_eqI) simp_all
  have m: "(Suc e * 2 ^ 52 + f) mod 2 ^ 52 = f"
    using that by (simp only: mod_mult_self3 mod_less)
  have "\<not> Suc e * 2 ^ 52 + f < 2 ^ 52" by simp
  then show ?thesis by (simp only: f64_mag_def d m if_False diff_Suc_1)
qed

section \<open>Rounding\<close>

fun bit_len :: "nat \<Rightarrow> nat" where
  "bit_len n = (if n = 0 then 0 else Suc (bit_len (n div 2)))"

declare bit_len.simps [simp del]

lemma bit_len_zero [simp]: "bit_len 0 = 0"
  by (simp add: bit_len.simps)

lemma bit_len_bound: "n < 2 ^ bit_len n"
proof (induction n rule: bit_len.induct)
  case (1 n)
  show ?case
  proof (cases "n = 0")
    case False
    with 1 have "n div 2 < 2 ^ bit_len (n div 2)" by simp
    then have "n < 2 ^ Suc (bit_len (n div 2))" by simp
    with False show ?thesis by (simp only: bit_len.simps [of n] if_False)
  qed simp
qed

lemma bit_len_least: "n < 2 ^ k \<Longrightarrow> bit_len n \<le> k"
proof (induction n arbitrary: k rule: bit_len.induct)
  case (1 n)
  show ?case
  proof (cases "n = 0")
    case False
    with "1.prems" have "k \<noteq> 0" by (cases k) simp_all
    then obtain j where k: "k = Suc j" by (cases k) simp_all
    with "1.prems" have "n div 2 < 2 ^ j" by simp
    with "1.IH" [OF False] have "bit_len (n div 2) \<le> j" .
    with False k show ?thesis by (simp add: bit_len.simps [of n])
  qed simp
qed

lemma bit_len_mono: "m \<le> n \<Longrightarrow> bit_len m \<le> bit_len n"
  by (rule bit_len_least) (rule le_less_trans [OF _ bit_len_bound])

lemma bit_len_ge: "0 < n \<Longrightarrow> 2 ^ (bit_len n - 1) \<le> n"
  by (rule ccontr) (use bit_len_least [of n "bit_len n - 1"] bit_len.simps [of n] in simp)

definition half_even :: "nat \<Rightarrow> nat \<Rightarrow> nat" where
  "half_even n d =
     (let q = n div d; r = n mod d in
      if d < 2 * r \<or> (2 * r = d \<and> odd q) then q + 1 else q)"

definition round_bits :: "nat \<Rightarrow> nat \<Rightarrow> nat" where
  "round_bits n d =
     (let k = bit_len (n div d) - 53 in min (k * 2 ^ 52 + half_even n (d * 2 ^ k)) f64_inf)"

lemma half_even_exact [simp]: "0 < d \<Longrightarrow> half_even (q * d) d = q"
  by (simp add: half_even_def)

lemma half_even_ge: "n div d \<le> half_even n d"
  by (simp add: half_even_def Let_def)

lemma half_even_le: "half_even n d \<le> Suc (n div d)"
  by (simp add: half_even_def Let_def)

lemma half_even_mono: "n \<le> m \<Longrightarrow> half_even n d \<le> half_even m d"
proof (cases "n div d = m div d")
  case True
  moreover assume "n \<le> m"
  ultimately have "n mod d \<le> m mod d"
    by (metis div_mult_mod_eq nat_add_left_cancel_le)
  with True show ?thesis by (auto simp: half_even_def Let_def)
next
  case False
  moreover assume "n \<le> m"
  ultimately have "Suc (n div d) \<le> m div d" using div_le_mono [of n m d] by simp
  with half_even_le [of n d] half_even_ge [of m d] show ?thesis by simp
qed

lemma bit_len_eq: "2 ^ k \<le> n \<Longrightarrow> n < 2 ^ Suc k \<Longrightarrow> bit_len n = Suc k"
proof (rule antisym)
  assume le: "2 ^ k \<le> n" and lt: "n < 2 ^ Suc k"
  show "bit_len n \<le> Suc k" by (rule bit_len_least [OF lt])
  show "Suc k \<le> bit_len n"
  proof (rule ccontr)
    assume "\<not> Suc k \<le> bit_len n"
    then have "(2 :: nat) ^ bit_len n \<le> 2 ^ k" by (intro power_increasing) simp_all
    with le bit_len_bound [of n] show False by simp
  qed
qed

lemma round_bits_mag: "a \<le> f64_inf \<Longrightarrow> round_bits (f64_mag a) 1 = a"
proof (cases "a < 2 ^ 53")
  case True
  assume "a \<le> f64_inf"
  have "bit_len a \<le> 53" using True by (rule bit_len_least)
  with True \<open>a \<le> f64_inf\<close> half_even_exact [of 1 a] show ?thesis
    by (simp only: round_bits_def f64_mag_small Let_def) simp
next
  case False
  assume le: "a \<le> f64_inf"
  define e where "e = a div 2 ^ 52 - 1"
  define f where "f = a mod 2 ^ 52"
  have "1 \<le> a div 2 ^ 52" using False by (simp add: Suc_le_eq div_greater_zero_iff)
  then have a: "a = Suc e * 2 ^ 52 + f"
    using div_mult_mod_eq [of a "2 ^ 52"] by (simp only: e_def f_def Suc_diff_le) simp
  have f: "f < 2 ^ 52" by (simp add: f_def)
  have m: "f64_mag a = (2 ^ 52 + f) * 2 ^ e" unfolding a using f by (rule f64_mag_split)
  have len: "bit_len ((2 ^ 52 + f) * 2 ^ e) = Suc (52 + e)"
  proof (rule bit_len_eq)
    show "2 ^ (52 + e) \<le> (2 ^ 52 + f) * 2 ^ e" by (simp only: power_add) (simp add: add_mult_distrib)
    have "(2 ^ 52 + f) * 2 ^ e < (2 ^ 53) * 2 ^ e" using f by simp
    then show "(2 ^ 52 + f) * 2 ^ e < 2 ^ Suc (52 + e)" by (simp add: power_add)
  qed
  have "round_bits (f64_mag a) 1 = min (e * 2 ^ 52 + (2 ^ 52 + f)) f64_inf"
    unfolding round_bits_def m Let_def div_by_1 len by simp
  also have "e * 2 ^ 52 + (2 ^ 52 + f) = a" using a by simp
  finally show ?thesis using le by simp
qed

lemma half_even_bits: "bit_len n - 53 = k \<Longrightarrow> half_even n (2 ^ k) \<le> 2 ^ 53"
proof -
  assume k: "bit_len n - 53 = k"
  have "n < 2 ^ (53 + k)"
    by (rule less_le_trans [OF bit_len_bound]) (use k in \<open>intro power_increasing, simp_all\<close>)
  then have "n div 2 ^ k < 2 ^ 53" by (simp add: less_mult_imp_div_less power_add)
  with half_even_le [of n "2 ^ k"] show ?thesis by simp
qed

lemma round_bits_mono: "n \<le> m \<Longrightarrow> round_bits n 1 \<le> round_bits m 1"
proof -
  assume le: "n \<le> m"
  define k where "k = bit_len n - 53"
  define j where "j = bit_len m - 53"
  have "k \<le> j" using bit_len_mono [OF le] by (simp add: k_def j_def)
  have "k * 2 ^ 52 + half_even n (2 ^ k) \<le> j * 2 ^ 52 + half_even m (2 ^ j)"
  proof (cases "k = j")
    case True
    with half_even_mono [OF le, of "2 ^ k"] show ?thesis by simp
  next
    case False
    with \<open>k \<le> j\<close> have kj: "Suc k \<le> j" by simp
    then have "bit_len m = 53 + j" by (simp add: j_def)
    then have "2 ^ (52 + j) \<le> m" using bit_len_ge [of m] by (cases "m = 0") simp_all
    then have "2 ^ 52 \<le> m div 2 ^ j"
      by (simp only: power_add) (simp add: less_eq_div_iff_mult_less_eq)
    with half_even_ge [of m "2 ^ j"] have "2 ^ 52 \<le> half_even m (2 ^ j)" by (rule order_trans [rotated])
    moreover have "half_even n (2 ^ k) \<le> 2 ^ 53" by (rule half_even_bits) (simp add: k_def)
    moreover have "Suc k * 2 ^ 52 \<le> j * 2 ^ 52" using kj by simp
    ultimately show ?thesis by simp
  qed
  then show ?thesis by (simp add: round_bits_def Let_def k_def j_def min_def)
qed

lemma round_bits_le: "round_bits n d \<le> f64_inf"
  by (simp add: round_bits_def Let_def)

section \<open>Comparison\<close>

definition f64_key :: "f64 \<Rightarrow> int" where
  "f64_key b = (if f64_neg b then - int (f64_abs b) else int (f64_abs b))"

definition f64_lt :: "f64 \<Rightarrow> f64 \<Rightarrow> bool" where
  "f64_lt x y = (\<not> is_nan x \<and> \<not> is_nan y \<and> f64_key x < f64_key y)"

definition f64_le :: "f64 \<Rightarrow> f64 \<Rightarrow> bool" where
  "f64_le x y = (\<not> is_nan x \<and> \<not> is_nan y \<and> f64_key x \<le> f64_key y)"

definition f64_eq :: "f64 \<Rightarrow> f64 \<Rightarrow> bool" where
  "f64_eq x y = (\<not> is_nan x \<and> \<not> is_nan y \<and> f64_key x = f64_key y)"

text \<open>\<open>f64::max\<close> and \<open>f64::min\<close>: a NaN argument is ignored.\<close>

definition f64_max :: "f64 \<Rightarrow> f64 \<Rightarrow> f64" where
  "f64_max x y = (if is_nan x then y else if is_nan y then x else if f64_lt x y then y else x)"

definition f64_min :: "f64 \<Rightarrow> f64 \<Rightarrow> f64" where
  "f64_min x y = (if is_nan x then y else if is_nan y then x else if f64_lt y x then y else x)"

section \<open>Arithmetic\<close>

definition f64_round :: "bool \<Rightarrow> nat \<Rightarrow> nat \<Rightarrow> f64" where
  "f64_round neg n d = f64_of neg (round_bits n d)"

definition f64_minus :: "f64 \<Rightarrow> f64" where
  "f64_minus x = f64_of (\<not> f64_neg x) (f64_abs x)"

definition f64_add :: "f64 \<Rightarrow> f64 \<Rightarrow> f64" where
  "f64_add x y =
     (if is_nan x \<or> is_nan y then nan
      else if \<not> is_finite x then (if \<not> is_finite y \<and> f64_neg x \<noteq> f64_neg y then nan else x)
      else if \<not> is_finite y then y
      else let v = f64_val x + f64_val y in
        if v = 0 then f64_of (f64_neg x \<and> f64_neg y) 0
        else f64_round (v < 0) (nat \<bar>v\<bar>) 1)"

definition f64_sub :: "f64 \<Rightarrow> f64 \<Rightarrow> f64" where
  "f64_sub x y = f64_add x (f64_minus y)"

definition f64_mul :: "f64 \<Rightarrow> f64 \<Rightarrow> f64" where
  "f64_mul x y =
     (let neg = (f64_neg x \<noteq> f64_neg y) in
      if is_nan x \<or> is_nan y then nan
      else if \<not> is_finite x \<or> \<not> is_finite y
        then (if f64_abs x = 0 \<or> f64_abs y = 0 then nan else f64_of neg f64_inf)
      else f64_round neg (f64_mag (f64_abs x) * f64_mag (f64_abs y)) (2 ^ 1074))"

definition f64_div :: "f64 \<Rightarrow> f64 \<Rightarrow> f64" where
  "f64_div x y =
     (let neg = (f64_neg x \<noteq> f64_neg y) in
      if is_nan x \<or> is_nan y then nan
      else if \<not> is_finite x then (if \<not> is_finite y then nan else f64_of neg f64_inf)
      else if \<not> is_finite y then f64_of neg 0
      else if f64_abs y = 0 then (if f64_abs x = 0 then nan else f64_of neg f64_inf)
      else f64_round neg (f64_mag (f64_abs x) * 2 ^ 1074) (f64_mag (f64_abs y)))"

definition f64_of_int :: "int \<Rightarrow> f64" where
  "f64_of_int v = f64_round (v < 0) (nat \<bar>v\<bar> * 2 ^ 1074) 1"

text \<open>\<open>x as i32\<close>: truncation towards zero, saturating, with NaN as 0.\<close>

definition f64_trunc :: "f64 \<Rightarrow> int" where
  "f64_trunc x =
     (let m = int (f64_mag (f64_abs x) div 2 ^ 1074) in if f64_neg x then - m else m)"

definition f64_to_i32 :: "f64 \<Rightarrow> i32" where
  "f64_to_i32 x = (if is_nan x then 0 else of_int (max (- (2 ^ 31)) (min (2 ^ 31 - 1) (f64_trunc x))))"

definition f64_to_u8 :: "f64 \<Rightarrow> u8" where
  "f64_to_u8 x = (if is_nan x then 0 else of_int (max 0 (min 255 (f64_trunc x))))"

section \<open>Laws\<close>

lemma f64_mag_less: "a < b \<Longrightarrow> b \<le> f64_inf \<Longrightarrow> f64_mag a < f64_mag b"
  using round_bits_mono [of "f64_mag b" "f64_mag a"] round_bits_mag [of a] round_bits_mag [of b]
  by (rule_tac ccontr) simp

lemma f64_mag_le: "a \<le> b \<Longrightarrow> b \<le> f64_inf \<Longrightarrow> f64_mag a \<le> f64_mag b"
  using f64_mag_less [of a b] by (cases "a = b") simp_all

lemma f64_mag_le_iff: "a \<le> f64_inf \<Longrightarrow> b \<le> f64_inf \<Longrightarrow> f64_mag a \<le> f64_mag b \<longleftrightarrow> a \<le> b"
  using f64_mag_less [of b a] f64_mag_le [of a b] by (auto simp: not_le [symmetric])

lemma f64_mag_zero [simp]: "f64_mag 0 = 0"
  by (simp add: f64_mag_def)

lemma f64_mag_pos: "0 < a \<Longrightarrow> a \<le> f64_inf \<Longrightarrow> 0 < f64_mag a"
  using f64_mag_less [of 0 a] by simp

lemma finite_not_nan: "is_finite x \<Longrightarrow> \<not> is_nan x"
  by (simp add: is_finite_def is_nan_def)

lemma finite_zero: "is_finite 0"
  by (simp add: is_finite_def f64_abs_def f64_inf_def)

lemma f64_inf_lt: "f64_inf < 2 ^ 63"
  by (simp add: f64_inf_def)

text \<open>Comparing finite values compares the integers they stand for.\<close>

lemma f64_le_val: "is_finite x \<Longrightarrow> is_finite y \<Longrightarrow> f64_le x y \<longleftrightarrow> f64_val x \<le> f64_val y"
  using f64_mag_le_iff [of "f64_abs x" "f64_abs y"] f64_mag_le_iff [of "f64_abs y" "f64_abs x"]
    f64_mag_pos [of "f64_abs x"] f64_mag_pos [of "f64_abs y"]
  by (cases "f64_abs x = 0"; cases "f64_abs y = 0")
    (auto simp: f64_le_def f64_val_def f64_key_def finite_not_nan is_finite_def)

lemma f64_lt_not_le: "\<not> is_nan x \<Longrightarrow> \<not> is_nan y \<Longrightarrow> f64_lt x y \<longleftrightarrow> \<not> f64_le y x"
  by (auto simp: f64_lt_def f64_le_def)

lemma f64_le_refl: "\<not> is_nan x \<Longrightarrow> f64_le x x"
  by (simp add: f64_le_def)

lemma f64_le_trans [trans]: "f64_le x y \<Longrightarrow> f64_le y z \<Longrightarrow> f64_le x z"
  by (auto simp: f64_le_def)

lemma f64_le_total: "\<not> is_nan x \<Longrightarrow> \<not> is_nan y \<Longrightarrow> f64_le x y \<or> f64_le y x"
  by (auto simp: f64_le_def)

lemma f64_lt_le_trans: "f64_lt x y \<Longrightarrow> f64_le y z \<Longrightarrow> f64_lt x z"
  by (auto simp: f64_lt_def f64_le_def)

lemma f64_le_lt_trans: "f64_le x y \<Longrightarrow> f64_lt y z \<Longrightarrow> f64_lt x z"
  by (auto simp: f64_lt_def f64_le_def)

lemma f64_round_fields [simp]:
  "f64_neg (f64_round neg n d) = neg" "f64_abs (f64_round neg n d) = round_bits n d"
  using le_less_trans [OF round_bits_le f64_inf_lt] by (simp_all add: f64_round_def)

lemma f64_round_not_nan: "\<not> is_nan (f64_round neg n d)"
  using round_bits_le [of n d] f64_inf_lt by (simp add: f64_round_def is_nan_def)

lemma f64_round_key: "f64_key (f64_round neg n d) = (if neg then - 1 else 1) * int (round_bits n d)"
  using round_bits_le [of n d] f64_inf_lt by (simp add: f64_round_def f64_key_def)

lemma f64_add_finite:
  "is_finite x \<Longrightarrow> is_finite y \<Longrightarrow>
    f64_key (f64_add x y) =
      (if f64_val x + f64_val y < 0 then - 1 else 1) * int (round_bits (nat \<bar>f64_val x + f64_val y\<bar>) 1)
    \<and> \<not> is_nan (f64_add x y)"
  using round_bits_mag [of 0]
  by (auto simp: f64_add_def finite_not_nan Let_def f64_round_key f64_round_not_nan)
    (auto simp: f64_key_def is_nan_def)

lemma f64_key_val:
  "is_finite x \<Longrightarrow>
    f64_key x = (if f64_val x < 0 then - 1 else 1) * int (round_bits (nat \<bar>f64_val x\<bar>) 1)"
  using round_bits_mag [of "f64_abs x"] f64_mag_pos [of "f64_abs x"]
  by (cases "f64_abs x = 0") (auto simp: f64_key_def f64_val_def is_finite_def)

text \<open>Rounded addition is monotone: adding a larger value gives a result that is not smaller.\<close>

lemma signed_round_mono:
  assumes "v \<le> w"
  shows "(if v < 0 then - 1 else 1) * int (round_bits (nat \<bar>v\<bar>) 1)
    \<le> (if w < 0 then - 1 else 1) * int (round_bits (nat \<bar>w\<bar>) 1)"
  using assms round_bits_mono [of "nat \<bar>v\<bar>" "nat \<bar>w\<bar>"] round_bits_mono [of "nat \<bar>w\<bar>" "nat \<bar>v\<bar>"]
  by auto

lemma f64_add_mono:
  "is_finite x \<Longrightarrow> is_finite y \<Longrightarrow> is_finite z \<Longrightarrow> f64_le y z \<Longrightarrow> f64_le (f64_add x y) (f64_add x z)"
  using signed_round_mono [of "f64_val x + f64_val y" "f64_val x + f64_val z"]
  by (simp add: f64_le_val f64_add_finite f64_le_def [of "f64_add x y"])

declare finite_zero [simp]

lemma f64_val_zero [simp]: "f64_val 0 = 0"
  by (simp add: f64_val_def f64_abs_def)

lemma f64_add_nonneg:
  "is_finite x \<Longrightarrow> is_finite y \<Longrightarrow> f64_le 0 y \<Longrightarrow> f64_le x (f64_add x y)"
  using signed_round_mono [of "f64_val x" "f64_val x + f64_val y"] f64_le_val [of 0 y]
  by (simp add: f64_add_finite f64_le_def [of x] finite_not_nan f64_key_val [of x]
      del: One_nat_def)

lemma f64_add_commute: "is_finite x \<Longrightarrow> is_finite y \<Longrightarrow> f64_add x y = f64_add y x"
  by (simp add: f64_add_def finite_not_nan Let_def add.commute conj_commute)

lemma f64_minus_finite [simp]: "is_finite (f64_minus x) = is_finite x"
  using f64_abs_lt [of x] by (simp add: f64_minus_def is_finite_def)

lemma f64_val_minus [simp]: "f64_val (f64_minus x) = - f64_val x"
  using f64_abs_lt [of x] by (simp add: f64_minus_def f64_val_def)

lemma f64_sub_nonneg:
  "is_finite x \<Longrightarrow> is_finite y \<Longrightarrow> f64_le y x \<Longrightarrow> f64_le 0 (f64_sub x y)"
  using signed_round_mono [of 0 "f64_val x - f64_val y"] round_bits_mag [of 0]
  by (simp add: f64_sub_def f64_add_finite f64_le_val f64_le_def [of 0] f64_key_def [of 0]
      is_nan_def [of 0] f64_abs_def [of 0])

text \<open>Sums and differences of values on a grid of width \<open>2 ^ k\<close> are exact.\<close>

definition on_grid :: "nat \<Rightarrow> nat \<Rightarrow> f64 \<Rightarrow> bool" where
  "on_grid k n x = (is_finite x \<and> (\<exists>q. f64_val x = q * 2 ^ k \<and> \<bar>q\<bar> \<le> int n))"

lemma mag_onto_small:
  "q < 2 ^ 53 \<Longrightarrow> k \<le> 2045 \<Longrightarrow> \<exists>a. a < f64_inf \<and> f64_mag a = q * 2 ^ k"
proof (induction k arbitrary: q)
  case 0
  then have "q < f64_inf" by (simp add: f64_inf_def)
  with 0 show ?case by (intro exI [of _ q]) (simp add: f64_mag_small)
next
  case (Suc k)
  show ?case
  proof (cases "q < 2 ^ 52")
    case True
    then have "2 * q < 2 ^ 53" by simp
    with Suc.IH [of "2 * q"] Suc.prems show ?thesis by (simp add: mult.assoc mult.left_commute)
  next
    case False
    define f where "f = q - 2 ^ 52"
    have f: "f < 2 ^ 52" "q = 2 ^ 52 + f" using False Suc.prems by (simp_all add: f_def)
    have "Suc (Suc k) * 2 ^ 52 + f < f64_inf"
    proof -
      have "Suc (Suc k) * 2 ^ 52 \<le> 2046 * 2 ^ 52" using Suc.prems by (intro mult_le_mono1) simp
      with f show ?thesis by (simp add: f64_inf_def)
    qed
    with f show ?thesis by (intro exI [of _ "Suc (Suc k) * 2 ^ 52 + f"]) (simp only: f64_mag_split simp_thms)
  qed
qed

lemma mag_round_grid:
  "q < 2 ^ 53 \<Longrightarrow> k \<le> 2045 \<Longrightarrow>
    f64_mag (round_bits (q * 2 ^ k) 1) = q * 2 ^ k \<and> round_bits (q * 2 ^ k) 1 < f64_inf"
proof -
  assume "q < 2 ^ 53" "k \<le> 2045"
  then obtain a where a: "a < f64_inf" "f64_mag a = q * 2 ^ k" using mag_onto_small by blast
  with round_bits_mag [of a] have "round_bits (q * 2 ^ k) 1 = a" by simp
  with a show ?thesis by simp
qed

lemma val_round_grid:
  assumes "\<bar>q\<bar> < 2 ^ 53" "k \<le> 2045"
  shows "is_finite (f64_round (q * 2 ^ k < 0) (nat \<bar>q * 2 ^ k\<bar>) 1)
    \<and> f64_val (f64_round (q * 2 ^ k < 0) (nat \<bar>q * 2 ^ k\<bar>) 1) = q * 2 ^ k"
proof -
  have n: "nat \<bar>q * 2 ^ k\<bar> = nat \<bar>q\<bar> * 2 ^ k"
    by (simp add: abs_mult nat_mult_distrib nat_power_eq)
  have "nat \<bar>q\<bar> < 2 ^ 53" using assms by simp
  with mag_round_grid [of "nat \<bar>q\<bar>" k] assms f64_inf_lt show ?thesis
    unfolding n by (auto simp: is_finite_def f64_round_def f64_val_def abs_mult mult_less_0_iff
        zero_less_mult_iff simp del: One_nat_def)
qed

lemma f64_of_zero [simp]: "is_finite (f64_of b 0)" "f64_val (f64_of b 0) = 0"
  by (simp_all add: is_finite_def f64_val_def f64_inf_def)

lemma f64_add_exact:
  "is_finite x \<Longrightarrow> is_finite y \<Longrightarrow> f64_add x y =
    (if f64_val x + f64_val y = 0 then f64_of (f64_neg x \<and> f64_neg y) 0
     else f64_round (f64_val x + f64_val y < 0) (nat \<bar>f64_val x + f64_val y\<bar>) 1)"
  by (simp add: f64_add_def finite_not_nan Let_def)

lemma on_grid_add:
  assumes "on_grid k n x" "on_grid k m y" "n + m < 2 ^ 53" "k \<le> 2045"
  shows "on_grid k (n + m) (f64_add x y) \<and> f64_val (f64_add x y) = f64_val x + f64_val y"
proof -
  obtain p q where x: "is_finite x" "f64_val x = p * 2 ^ k" "\<bar>p\<bar> \<le> int n"
    and y: "is_finite y" "f64_val y = q * 2 ^ k" "\<bar>q\<bar> \<le> int m"
    using assms by (auto simp: on_grid_def)
  have s: "f64_val x + f64_val y = (p + q) * 2 ^ k" by (simp add: x y distrib_right)
  have le: "\<bar>p + q\<bar> \<le> int (n + m)" using x y by simp
  moreover have "int (n + m) < int (2 ^ 53)" using assms(3) by (simp only: of_nat_less_iff)
  ultimately have b: "\<bar>p + q\<bar> < 2 ^ 53" by simp
  have "is_finite (f64_add x y) \<and> f64_val (f64_add x y) = (p + q) * 2 ^ k"
  proof (cases "(p + q) * 2 ^ k = 0")
    case True
    with f64_add_exact [OF x(1) y(1)] s show ?thesis by simp
  next
    case False
    with f64_add_exact [OF x(1) y(1)] s
    have "f64_add x y = f64_round ((p + q) * 2 ^ k < 0) (nat \<bar>(p + q) * 2 ^ k\<bar>) 1" by simp
    with val_round_grid [OF b assms(4)] show ?thesis by (simp only: simp_thms)
  qed
  with le s show ?thesis by (auto simp: on_grid_def)
qed

lemma on_grid_minus: "on_grid k n x \<Longrightarrow> on_grid k n (f64_minus x)"
proof -
  assume "on_grid k n x"
  then obtain q where "is_finite x" "f64_val x = q * 2 ^ k" "\<bar>q\<bar> \<le> int n" by (auto simp: on_grid_def)
  then show ?thesis by (auto simp: on_grid_def intro!: exI [of _ "- q"])
qed

lemma on_grid_sub:
  "on_grid k n x \<Longrightarrow> on_grid k m y \<Longrightarrow> n + m < 2 ^ 53 \<Longrightarrow> k \<le> 2045 \<Longrightarrow>
    on_grid k (n + m) (f64_sub x y) \<and> f64_val (f64_sub x y) = f64_val x - f64_val y"
  unfolding f64_sub_def using on_grid_add [OF _ on_grid_minus, of k n x m y] by simp

lemma on_grid_finite: "on_grid k n x \<Longrightarrow> is_finite x"
  by (simp add: on_grid_def)

end
