(* ===== verification/Syscall.thy ===== *)
theory Syscall
  imports Prelude
begin

text \<open>
  \<open>grafted-kernel/src/syscall.rs\<close>: classification of a raw Darwin system call number (the
  value of \<open>rax\<close>) and the table that maps BSD numbers to Linux x86-64 numbers.
\<close>

definition DARWIN_SYSCALL_CLASS_MASK :: u64 where
  "DARWIN_SYSCALL_CLASS_MASK = 0xFF000000"
definition DARWIN_SYSCALL_CLASS_UNIX :: u64 where
  "DARWIN_SYSCALL_CLASS_UNIX = 0x02000000"
definition DARWIN_SYSCALL_CLASS_MACH :: u64 where
  "DARWIN_SYSCALL_CLASS_MACH = 0x01000000"
definition DARWIN_SYSCALL_NUMBER_MASK :: u64 where
  "DARWIN_SYSCALL_NUMBER_MASK = 0x00FFFFFF"

lemmas syscall_consts = DARWIN_SYSCALL_CLASS_MASK_def DARWIN_SYSCALL_CLASS_UNIX_def
  DARWIN_SYSCALL_CLASS_MACH_def DARWIN_SYSCALL_NUMBER_MASK_def

datatype darwin_syscall =
    Unix (darwin_nr: u32) (linux_nr: i64)
  | MachTrap (trap_nr: u32)
  | Unknown (raw_nr: u64)

definition darwin_unix_to_linux :: "u32 \<Rightarrow> i64" where
  "darwin_unix_to_linux nr =
    (if nr = 1 then 60 else if nr = 2 then 57 else if nr = 7 then 61 else if nr = 20 then 39
     else if nr = 3 then 0 else if nr = 4 then 1 else if nr = 5 then 2 else if nr = 6 then 3
     else if nr = 10 then 87 else if nr = 15 then 90 else if nr = 16 then 93
     else if nr = 197 then 9 else if nr = 73 then 11 else if nr = 74 then 10
     else if nr = 46 then 13 else if nr = 48 then 62 else if nr = 13 then 13
     else if nr = 59 then 84 else if nr = 338 then 59
     else if nr = 116 then 96
     else if nr = 24 then 102 else if nr = 25 then 104 else if nr = 43 then 103
     else if nr = 47 then 107
     else if nr = 54 then 16
     else -1)"

definition translate :: "u64 \<Rightarrow> darwin_syscall" where
  "translate raw_syscall =
    (let class = raw_syscall AND DARWIN_SYSCALL_CLASS_MASK;
         nr = ucast (raw_syscall AND DARWIN_SYSCALL_NUMBER_MASK)
     in if class = DARWIN_SYSCALL_CLASS_UNIX then Unix nr (darwin_unix_to_linux nr)
        else if class = DARWIN_SYSCALL_CLASS_MACH then MachTrap nr
        else Unknown raw_syscall)"

definition class_of :: "u64 \<Rightarrow> u64" where
  "class_of raw = raw AND DARWIN_SYSCALL_CLASS_MASK"

lemma number_mask: "DARWIN_SYSCALL_NUMBER_MASK = mask 24"
  by (simp add: DARWIN_SYSCALL_NUMBER_MASK_def mask_eq_exp_minus_1)

lemma class_mask: "DARWIN_SYSCALL_CLASS_MASK = push_bit 24 (mask 8)"
  by (simp add: DARWIN_SYSCALL_CLASS_MASK_def mask_eq_exp_minus_1)

lemma number_of_tagged:
  fixes n :: u32
  assumes "n < 0x1000000" and "c AND 0x00FFFFFF = 0"
  shows "(ucast ((c OR ucast n) AND DARWIN_SYSCALL_NUMBER_MASK) :: u32) = n"
proof -
  have n: "take_bit 24 n = n"
    using assms(1) by (intro take_bit_below) (simp add: word_less_nat_alt)
  have "(c OR ucast n) AND mask 24 = ucast n AND (mask 24 :: u64)"
    using assms(2) number_mask
    by (simp add: bit.conj_disj_distrib2 DARWIN_SYSCALL_NUMBER_MASK_def)
  moreover have "(ucast (ucast n AND (mask 24 :: u64)) :: u32) = take_bit 24 n"
    by (rule bit_word_eqI) (auto simp: bit_simps)
  ultimately show ?thesis by (simp add: number_mask n)
qed

lemma class_of_tagged:
  fixes n :: u32
  assumes "n < 0x1000000" and "c AND DARWIN_SYSCALL_CLASS_MASK = c"
  shows "(c OR ucast n) AND DARWIN_SYSCALL_CLASS_MASK = c"
proof -
  have n: "take_bit 24 n = n"
    using assms(1) by (intro take_bit_below) (simp add: word_less_nat_alt)
  have "(ucast n :: u64) AND DARWIN_SYSCALL_CLASS_MASK
          = ucast (take_bit 24 n) AND DARWIN_SYSCALL_CLASS_MASK"
    by (simp add: n)
  also have "\<dots> = 0"
    unfolding class_mask by (rule bit_word_eqI) (auto simp: bit_simps)
  finally show ?thesis using assms(2) by (simp add: bit.conj_disj_distrib2)
qed

lemma translate_low_half:
  "translate raw = (case translate (raw AND 0xFFFFFFFF) of Unknown _ \<Rightarrow> Unknown raw | t \<Rightarrow> t)"
proof -
  have "(raw AND 0xFFFFFFFF) AND DARWIN_SYSCALL_CLASS_MASK = raw AND DARWIN_SYSCALL_CLASS_MASK"
    and "(raw AND 0xFFFFFFFF) AND DARWIN_SYSCALL_NUMBER_MASK = raw AND DARWIN_SYSCALL_NUMBER_MASK"
    by (simp_all add: syscall_consts and.assoc)
  then show ?thesis by (simp add: translate_def Let_def)
qed

lemma translate_trap_bound: "translate raw = MachTrap n \<Longrightarrow> n < 0x1000000"
proof -
  assume "translate raw = MachTrap n"
  then have "n = ucast (raw AND mask 24)"
    by (auto simp: translate_def Let_def number_mask split: if_splits)
  then have "n = take_bit 24 n"
    by (auto intro!: bit_word_eqI simp: bit_simps)
  then have "unat n < 2 ^ 24"
    by (metis take_bit_nat_less_exp unsigned_take_bit_eq)
  then show ?thesis by (simp add: word_less_nat_alt)
qed

text \<open>
  A Darwin system call number round-trips through the classifier: for every 24-bit number
  the tagged value \<open>0x2000000 | nr\<close> is classified as the BSD call \<open>nr\<close> with its table
  entry, \<open>0x1000000 | nr\<close> as the Mach trap \<open>nr\<close>, and every other class byte (whatever the
  number and the upper half of the register) as unknown, carrying the raw value unchanged.
\<close>

theorem translate_roundtrip:
  fixes nr :: u32 and raw :: u64
  assumes "nr < 0x1000000"
    and "raw AND DARWIN_SYSCALL_CLASS_MASK \<notin> {DARWIN_SYSCALL_CLASS_UNIX, DARWIN_SYSCALL_CLASS_MACH}"
  shows "translate (DARWIN_SYSCALL_CLASS_UNIX OR ucast nr) = Unix nr (darwin_unix_to_linux nr)
       \<and> translate (DARWIN_SYSCALL_CLASS_MACH OR ucast nr) = MachTrap nr
       \<and> translate raw = Unknown raw"
proof -
  have cu: "(DARWIN_SYSCALL_CLASS_UNIX OR ucast nr) AND DARWIN_SYSCALL_CLASS_MASK
              = DARWIN_SYSCALL_CLASS_UNIX"
    by (rule class_of_tagged [OF assms(1)]) (simp add: syscall_consts)
  have nu: "(ucast ((DARWIN_SYSCALL_CLASS_UNIX OR ucast nr) AND DARWIN_SYSCALL_NUMBER_MASK) :: u32) = nr"
    by (rule number_of_tagged [OF assms(1)]) (simp add: syscall_consts)
  have cm: "(DARWIN_SYSCALL_CLASS_MACH OR ucast nr) AND DARWIN_SYSCALL_CLASS_MASK
              = DARWIN_SYSCALL_CLASS_MACH"
    by (rule class_of_tagged [OF assms(1)]) (simp add: syscall_consts)
  have nm: "(ucast ((DARWIN_SYSCALL_CLASS_MACH OR ucast nr) AND DARWIN_SYSCALL_NUMBER_MASK) :: u32) = nr"
    by (rule number_of_tagged [OF assms(1)]) (simp add: syscall_consts)
  have ne: "DARWIN_SYSCALL_CLASS_MACH \<noteq> DARWIN_SYSCALL_CLASS_UNIX"
    by (simp add: syscall_consts)
  show ?thesis
    using assms(2) unfolding translate_def Let_def cu nu cm nm by (simp add: ne)
qed

theorem translate_roundtrip_witness:
  "translate (DARWIN_SYSCALL_CLASS_UNIX OR ucast (4 :: u32)) = Unix 4 1
   \<and> translate 0x05000001 = Unknown 0x05000001"
proof -
  have "(4 :: u32) < 0x1000000" by simp
  moreover have "(0x05000001 :: u64) AND DARWIN_SYSCALL_CLASS_MASK
      \<notin> {DARWIN_SYSCALL_CLASS_UNIX, DARWIN_SYSCALL_CLASS_MACH}"
    by (simp add: syscall_consts)
  ultimately show ?thesis
    using translate_roundtrip [of 4 "0x05000001"] by (simp add: darwin_unix_to_linux_def)
qed

end
