(* ===== verification/MachIpc.thy ===== *)
theory MachIpc
  imports Prelude
begin

text \<open>
  \<open>grafted-dyld/src/mach_ipc.rs\<close>: the in-process Mach port name space. The global
  \<open>PORT_SPACE\<close> mutex is the explicit state \<open>port_space\<close>; each public function locks it for
  its whole duration, so one call is one step on the state. \<open>mach_msg\<close> works on the
  caller's message buffer: the 24-byte header and the bytes after it.
\<close>

section \<open>Constants\<close>

definition MACH_PORT_NULL :: u32 where "MACH_PORT_NULL = 0"
definition MACH_PORT_DEAD :: u32 where "MACH_PORT_DEAD = 0xFFFFFFFF"

definition MACH_PORT_RIGHT_SEND :: u32 where "MACH_PORT_RIGHT_SEND = 0"
definition MACH_PORT_RIGHT_RECEIVE :: u32 where "MACH_PORT_RIGHT_RECEIVE = 1"
definition MACH_PORT_RIGHT_SEND_ONCE :: u32 where "MACH_PORT_RIGHT_SEND_ONCE = 2"
definition MACH_PORT_RIGHT_PORT_SET :: u32 where "MACH_PORT_RIGHT_PORT_SET = 3"
definition MACH_PORT_RIGHT_DEAD_NAME :: u32 where "MACH_PORT_RIGHT_DEAD_NAME = 4"

definition KERN_SUCCESS :: i32 where "KERN_SUCCESS = 0"
definition KERN_INVALID_ARGUMENT :: i32 where "KERN_INVALID_ARGUMENT = 4"
definition KERN_NO_SPACE :: i32 where "KERN_NO_SPACE = 3"
definition KERN_INVALID_NAME :: i32 where "KERN_INVALID_NAME = 15"

definition MACH_SEND_MSG :: i32 where "MACH_SEND_MSG = 1"
definition MACH_RCV_MSG :: i32 where "MACH_RCV_MSG = 2"
definition MACH_RCV_TIMEOUT :: i32 where "MACH_RCV_TIMEOUT = 0x100"

definition MACH_MSG_TYPE_MOVE_RECEIVE :: u32 where "MACH_MSG_TYPE_MOVE_RECEIVE = 16"
definition MACH_MSG_TYPE_MOVE_SEND :: u32 where "MACH_MSG_TYPE_MOVE_SEND = 17"
definition MACH_MSG_TYPE_MOVE_SEND_ONCE :: u32 where "MACH_MSG_TYPE_MOVE_SEND_ONCE = 18"
definition MACH_MSG_TYPE_COPY_SEND :: u32 where "MACH_MSG_TYPE_COPY_SEND = 19"
definition MACH_MSG_TYPE_MAKE_SEND :: u32 where "MACH_MSG_TYPE_MAKE_SEND = 20"
definition MACH_MSG_TYPE_MAKE_SEND_ONCE :: u32 where "MACH_MSG_TYPE_MAKE_SEND_ONCE = 21"

definition MACH_MSG_SUCCESS :: i32 where "MACH_MSG_SUCCESS = 0"
definition MACH_SEND_INVALID_DEST :: i32 where "MACH_SEND_INVALID_DEST = 0x10000002"
definition MACH_RCV_TIMED_OUT :: i32 where "MACH_RCV_TIMED_OUT = 0x10000003"

definition SPECIAL_PORT_TASK_SELF :: u32 where "SPECIAL_PORT_TASK_SELF = 0x103"
definition SPECIAL_PORT_THREAD_SELF :: u32 where "SPECIAL_PORT_THREAD_SELF = 0x203"
definition SPECIAL_PORT_HOST_SELF :: u32 where "SPECIAL_PORT_HOST_SELF = 0x303"
definition SPECIAL_PORT_REPLY :: u32 where "SPECIAL_PORT_REPLY = 0x307"
definition SPECIAL_PORT_BOOTSTRAP :: u32 where "SPECIAL_PORT_BOOTSTRAP = 0x40b"

lemmas mach_consts = MACH_PORT_NULL_def MACH_PORT_DEAD_def MACH_PORT_RIGHT_SEND_def
  MACH_PORT_RIGHT_RECEIVE_def MACH_PORT_RIGHT_SEND_ONCE_def MACH_PORT_RIGHT_PORT_SET_def
  MACH_PORT_RIGHT_DEAD_NAME_def KERN_SUCCESS_def KERN_INVALID_ARGUMENT_def KERN_NO_SPACE_def
  KERN_INVALID_NAME_def MACH_SEND_MSG_def MACH_RCV_MSG_def MACH_RCV_TIMEOUT_def
  MACH_MSG_TYPE_MOVE_RECEIVE_def MACH_MSG_TYPE_MOVE_SEND_def MACH_MSG_TYPE_MOVE_SEND_ONCE_def
  MACH_MSG_TYPE_COPY_SEND_def MACH_MSG_TYPE_MAKE_SEND_def MACH_MSG_TYPE_MAKE_SEND_ONCE_def
  MACH_MSG_SUCCESS_def MACH_SEND_INVALID_DEST_def MACH_RCV_TIMED_OUT_def
  SPECIAL_PORT_TASK_SELF_def SPECIAL_PORT_THREAD_SELF_def SPECIAL_PORT_HOST_SELF_def
  SPECIAL_PORT_REPLY_def SPECIAL_PORT_BOOTSTRAP_def

section \<open>Messages and ports\<close>

record mach_msg_header =
  msgh_bits :: u32
  msgh_size :: u32
  msgh_remote_port :: u32
  msgh_local_port :: u32
  msgh_voucher_port :: u32
  msgh_id :: i32

record mach_message =
  mm_header :: mach_msg_header
  mm_body :: "u8 list"

record port =
  send_count :: u32
  has_receive :: bool
  is_dead :: bool
  queue :: "mach_message list"

definition new_with_receive :: port where
  "new_with_receive = \<lparr>send_count = 0, has_receive = True, is_dead = False, queue = []\<rparr>"

definition new_send_only :: port where
  "new_send_only = \<lparr>send_count = 1, has_receive = False, is_dead = False, queue = []\<rparr>"

definition new_with_send_receive :: port where
  "new_with_send_receive = \<lparr>send_count = 1, has_receive = True, is_dead = False, queue = []\<rparr>"

lemmas port_new_defs = new_with_receive_def new_send_only_def new_with_send_receive_def

record port_space =
  ports :: "u32 \<Rightarrow> port option"
  next_name :: u32

definition port_space_new :: port_space where
  "port_space_new =
    \<lparr>ports = Map.empty
       (SPECIAL_PORT_TASK_SELF \<mapsto> new_with_send_receive,
        SPECIAL_PORT_THREAD_SELF \<mapsto> new_with_send_receive,
        SPECIAL_PORT_HOST_SELF \<mapsto> new_with_send_receive,
        SPECIAL_PORT_REPLY \<mapsto> new_with_send_receive,
        SPECIAL_PORT_BOOTSTRAP \<mapsto> new_with_send_receive),
     next_name = 0x1000\<rparr>"

section \<open>Operations of the port space\<close>

text \<open>The name counter advances before the range check and before the right is looked at.\<close>

definition allocate :: "u32 \<Rightarrow> port_space \<Rightarrow> (i32 + u32) \<times> port_space" where
  "allocate right ps =
    (let name = next_name ps;
         ps = ps\<lparr>next_name := next_name ps + 1\<rparr>
     in if next_name ps > 0xFFFFFFFE then (Inl KERN_NO_SPACE, ps)
        else
          let port =
            (if right = MACH_PORT_RIGHT_RECEIVE then Some new_with_receive
             else if right = MACH_PORT_RIGHT_SEND then Some new_send_only
             else if right = MACH_PORT_RIGHT_PORT_SET then Some new_with_receive
             else if right = MACH_PORT_RIGHT_DEAD_NAME then Some (new_send_only\<lparr>is_dead := True\<rparr>)
             else None)
          in case port of
               None \<Rightarrow> (Inl KERN_INVALID_ARGUMENT, ps)
             | Some p \<Rightarrow> (Inr name, ps\<lparr>ports := (ports ps)(name \<mapsto> p)\<rparr>))"

definition deallocate :: "u32 \<Rightarrow> port_space \<Rightarrow> i32 \<times> port_space" where
  "deallocate name ps =
    (case ports ps name of
       Some p \<Rightarrow>
         let p = (if send_count p > 0 then p\<lparr>send_count := send_count p - 1\<rparr> else p)
         in if send_count p = 0 \<and> \<not> has_receive p
            then (KERN_SUCCESS, ps\<lparr>ports := (ports ps)(name := None)\<rparr>)
            else (KERN_SUCCESS, ps\<lparr>ports := (ports ps)(name \<mapsto> p)\<rparr>)
     | None \<Rightarrow> (KERN_INVALID_NAME, ps))"

definition insert_right :: "u32 \<Rightarrow> u32 \<Rightarrow> u32 \<Rightarrow> port_space \<Rightarrow> i32 \<times> port_space" where
  "insert_right name poly poly_type ps =
    (case ports ps name of
       None \<Rightarrow>
         if poly_type = MACH_MSG_TYPE_MAKE_SEND \<or> poly_type = MACH_MSG_TYPE_COPY_SEND
            \<or> poly_type = MACH_MSG_TYPE_MOVE_SEND
         then (KERN_SUCCESS, ps\<lparr>ports := (ports ps)(name \<mapsto> new_send_only)\<rparr>)
         else if poly_type = MACH_MSG_TYPE_MOVE_RECEIVE
         then (KERN_SUCCESS, ps\<lparr>ports := (ports ps)(name \<mapsto> new_with_receive)\<rparr>)
         else (KERN_INVALID_ARGUMENT, ps)
     | Some p \<Rightarrow>
         if poly_type = MACH_MSG_TYPE_MAKE_SEND \<or> poly_type = MACH_MSG_TYPE_COPY_SEND
         then (KERN_SUCCESS, ps\<lparr>ports := (ports ps)(name \<mapsto> p\<lparr>send_count := send_count p + 1\<rparr>)\<rparr>)
         else if poly_type = MACH_MSG_TYPE_MOVE_SEND
         then (KERN_SUCCESS, ps\<lparr>ports := (ports ps)(name \<mapsto> p\<lparr>send_count := send_count p + 1\<rparr>)\<rparr>)
         else if poly_type = MACH_MSG_TYPE_MOVE_RECEIVE
         then (KERN_SUCCESS, ps\<lparr>ports := (ports ps)(name \<mapsto> p\<lparr>has_receive := True\<rparr>)\<rparr>)
         else if poly_type = MACH_MSG_TYPE_MAKE_SEND_ONCE \<or> poly_type = MACH_MSG_TYPE_MOVE_SEND_ONCE
         then (KERN_SUCCESS, ps)
         else (KERN_INVALID_ARGUMENT, ps))"

definition mod_refs :: "u32 \<Rightarrow> u32 \<Rightarrow> i32 \<Rightarrow> port_space \<Rightarrow> i32 \<times> port_space" where
  "mod_refs name right delta ps =
    (case ports ps name of
       Some p \<Rightarrow>
         let p =
           (if right = MACH_PORT_RIGHT_SEND
            then let new_count = send_count p + delta
                 in if sint new_count < 0 then p\<lparr>send_count := 0\<rparr> else p\<lparr>send_count := new_count\<rparr>
            else if right = MACH_PORT_RIGHT_RECEIVE
            then if sint delta < 0 then p\<lparr>has_receive := False\<rparr> else p
            else p)
         in if send_count p = 0 \<and> \<not> has_receive p
            then (KERN_SUCCESS, ps\<lparr>ports := (ports ps)(name := None)\<rparr>)
            else (KERN_SUCCESS, ps\<lparr>ports := (ports ps)(name \<mapsto> p)\<rparr>)
     | None \<Rightarrow> (KERN_INVALID_NAME, ps))"

definition send_msg :: "u32 \<Rightarrow> mach_message \<Rightarrow> port_space \<Rightarrow> i32 \<times> port_space" where
  "send_msg dest msg ps =
    (case ports ps dest of
       Some p \<Rightarrow>
         if \<not> is_dead p
         then (MACH_MSG_SUCCESS, ps\<lparr>ports := (ports ps)(dest \<mapsto> p\<lparr>queue := queue p @ [msg]\<rparr>)\<rparr>)
         else (MACH_SEND_INVALID_DEST, ps)
     | None \<Rightarrow> (MACH_SEND_INVALID_DEST, ps))"

definition recv_msg :: "u32 \<Rightarrow> port_space \<Rightarrow> mach_message option \<times> port_space" where
  "recv_msg name ps =
    (case ports ps name of
       None \<Rightarrow> (None, ps)
     | Some p \<Rightarrow>
         (case queue p of
            [] \<Rightarrow> (None, ps)
          | m # q \<Rightarrow> (Some m, ps\<lparr>ports := (ports ps)(name \<mapsto> p\<lparr>queue := q\<rparr>)\<rparr>)))"

definition ps_port_type :: "u32 \<Rightarrow> port_space \<Rightarrow> u32" where
  "ps_port_type name ps =
    (case ports ps name of
       Some p \<Rightarrow>
         (if has_receive p then push_bit 17 1 else 0)
         OR (if send_count p > 0 then push_bit 16 1 else 0)
         OR (if is_dead p then push_bit 20 1 else 0)
     | None \<Rightarrow> 0)"

definition port_type :: "u32 \<Rightarrow> port_space \<Rightarrow> i32 \<times> u32" where
  "port_type name ps =
    (let ptype = ps_port_type name ps
     in if ptype = 0 then (KERN_INVALID_NAME, 0) else (KERN_SUCCESS, ptype))"

section \<open>mach\_msg\<close>

text \<open>The caller's buffer: the header struct and the bytes that follow it in memory.\<close>

record msg_area =
  area_header :: mach_msg_header
  area_body :: "nat \<Rightarrow> u8"

definition HEADER_SIZE :: u64 where "HEADER_SIZE = 24"

text \<open>\<open>usize::saturating_sub\<close>.\<close>

definition saturating_sub :: "'a::len word \<Rightarrow> 'a word \<Rightarrow> 'a word" where
  "saturating_sub a b = (if a < b then 0 else a - b)"

definition sent_message :: "msg_area \<Rightarrow> u32 \<Rightarrow> mach_message" where
  "sent_message area send_size =
    (let body_size = saturating_sub (ucast send_size) HEADER_SIZE
     in \<lparr>mm_header = area_header area, mm_body = map (area_body area) [0..<unat body_size]\<rparr>)"

definition copy_len :: "mach_message \<Rightarrow> u32 \<Rightarrow> nat" where
  "copy_len m rcv_size =
    (let max_body = ucast rcv_size - HEADER_SIZE :: u64
     in min (length (mm_body m)) (unat max_body))"

definition received_area :: "mach_message \<Rightarrow> u32 \<Rightarrow> msg_area \<Rightarrow> msg_area" where
  "received_area m rcv_size area =
    (let n = copy_len m rcv_size
     in \<lparr>area_header = (mm_header m)\<lparr>msgh_size := ucast (HEADER_SIZE + of_nat n)\<rparr>,
         area_body = (\<lambda>i. if i < n then mm_body m ! i else area_body area i)\<rparr>)"

definition send_phase :: "msg_area \<Rightarrow> i32 \<Rightarrow> u32 \<Rightarrow> port_space \<Rightarrow> i32 \<times> port_space" where
  "send_phase area opt send_size ps =
    (if opt AND MACH_SEND_MSG \<noteq> 0
     then send_msg (msgh_remote_port (area_header area)) (sent_message area send_size) ps
     else (MACH_MSG_SUCCESS, ps))"

definition recv_phase ::
  "msg_area \<Rightarrow> i32 \<Rightarrow> u32 \<Rightarrow> u32 \<Rightarrow> port_space \<Rightarrow> i32 \<times> msg_area \<times> port_space" where
  "recv_phase area opt rcv_size rcv_name ps =
    (if opt AND MACH_RCV_MSG \<noteq> 0
     then let name = (if opt AND MACH_SEND_MSG \<noteq> 0 then msgh_local_port (area_header area)
                      else rcv_name)
          in (case recv_msg name ps of
                (Some m, ps) \<Rightarrow> (MACH_MSG_SUCCESS, received_area m rcv_size area, ps)
              | (None, ps) \<Rightarrow> (MACH_RCV_TIMED_OUT, area, ps))
     else (MACH_MSG_SUCCESS, area, ps))"

definition mach_msg ::
  "msg_area option \<Rightarrow> i32 \<Rightarrow> u32 \<Rightarrow> u32 \<Rightarrow> u32 \<Rightarrow> port_space
    \<Rightarrow> i32 \<times> msg_area option \<times> port_space" where
  "mach_msg msg opt send_size rcv_size rcv_name ps =
    (case msg of
       None \<Rightarrow> (KERN_INVALID_ARGUMENT, None, ps)
     | Some area \<Rightarrow>
         (case send_phase area opt send_size ps of (ret, ps) \<Rightarrow>
            if ret \<noteq> MACH_MSG_SUCCESS then (ret, Some area, ps)
            else (case recv_phase area opt rcv_size rcv_name ps of
                    (ret, area, ps) \<Rightarrow> (ret, Some area, ps))))"

section \<open>The name space as a machine\<close>

datatype mach_op =
    OpAllocate u32
  | OpDeallocate u32
  | OpInsertRight u32 u32 u32
  | OpModRefs u32 u32 i32
  | OpMachMsg "msg_area option" i32 u32 u32 u32

definition mach_step :: "mach_op \<Rightarrow> port_space \<Rightarrow> port_space" where
  "mach_step op ps =
    (case op of
       OpAllocate r \<Rightarrow> snd (allocate r ps)
     | OpDeallocate n \<Rightarrow> snd (deallocate n ps)
     | OpInsertRight n poly t \<Rightarrow> snd (insert_right n poly t ps)
     | OpModRefs n r d \<Rightarrow> snd (mod_refs n r d ps)
     | OpMachMsg msg opt ss rs rn \<Rightarrow> snd (snd (mach_msg msg opt ss rs rn ps)))"

text \<open>Every name that is in the table carries a right.\<close>

definition ports_live :: "port_space \<Rightarrow> bool" where
  "ports_live ps \<longleftrightarrow> (\<forall>n p. ports ps n = Some p \<longrightarrow> send_count p \<noteq> 0 \<or> has_receive p)"

text \<open>
  The one operation that can break it: adding a send right to a send-only port that already
  has 2^32 - 1 of them (the count wraps to 0).
\<close>

definition adds_send :: "u32 \<Rightarrow> bool" where
  "adds_send t \<longleftrightarrow> t \<in> {MACH_MSG_TYPE_MAKE_SEND, MACH_MSG_TYPE_COPY_SEND, MACH_MSG_TYPE_MOVE_SEND}"

definition count_room :: "mach_op \<Rightarrow> port_space \<Rightarrow> bool" where
  "count_room op ps =
    (case op of
       OpInsertRight n poly t \<Rightarrow>
         (case ports ps n of
            Some p \<Rightarrow> adds_send t \<longrightarrow> has_receive p \<or> send_count p \<noteq> 0xFFFFFFFF
          | None \<Rightarrow> True)
     | _ \<Rightarrow> True)"

lemma ports_live_new: "ports_live port_space_new"
  by (auto simp: ports_live_def port_space_new_def port_new_defs split: if_splits)

lemma ports_live_upd:
  "ports_live ps \<Longrightarrow> send_count p \<noteq> 0 \<or> has_receive p \<Longrightarrow>
     ports_live (ps\<lparr>ports := (ports ps)(n \<mapsto> p)\<rparr>)"
  by (auto simp: ports_live_def)

lemma ports_live_del: "ports_live ps \<Longrightarrow> ports_live (ps\<lparr>ports := (ports ps)(n := None)\<rparr>)"
  by (auto simp: ports_live_def)

lemma ports_live_next [simp]: "ports_live (ps\<lparr>next_name := x\<rparr>) = ports_live ps"
  by (simp add: ports_live_def)

lemma ports_liveD: "ports_live ps \<Longrightarrow> ports ps n = Some p \<Longrightarrow> send_count p \<noteq> 0 \<or> has_receive p"
  by (auto simp: ports_live_def)

lemma allocate_live [inv_intros]: "ports_live ps \<Longrightarrow> ports_live (snd (allocate r ps))"
  using ports_live_upd [of "ps\<lparr>next_name := next_name ps + 1\<rparr>"]
  by (auto simp: allocate_def Let_def port_new_defs split: option.splits)

lemma deallocate_live [inv_intros]:
  assumes "ports_live ps"
  shows "ports_live (snd (deallocate n ps))"
proof (cases "ports ps n")
  case None
  with assms show ?thesis by (simp add: deallocate_def)
next
  case (Some p)
  with assms show ?thesis
    by (cases "send_count p > 0"; cases "send_count p - 1 = 0"; cases "has_receive p")
       (simp_all add: deallocate_def Let_def ports_live_upd ports_live_del)
qed

lemma insert_right_live [inv_intros]:
  assumes "ports_live ps" and "count_room (OpInsertRight n poly t) ps"
  shows "ports_live (snd (insert_right n poly t ps))"
proof (cases "ports ps n")
  case None
  with assms show ?thesis
    by (simp add: insert_right_def ports_live_upd port_new_defs)
next
  case (Some p)
  have "send_count p + 1 \<noteq> 0 \<or> has_receive p" if "adds_send t"
    using assms(2) Some that by (auto simp: count_room_def dest: plus_one_nonzero)
  then have up: "ports_live (ps\<lparr>ports := (ports ps)(n \<mapsto> p\<lparr>send_count := send_count p + 1\<rparr>)\<rparr>)"
    if "adds_send t"
    using that assms(1) by (simp add: ports_live_upd)
  have rc: "ports_live (ps\<lparr>ports := (ports ps)(n \<mapsto> p\<lparr>has_receive := True\<rparr>)\<rparr>)"
    using assms(1) by (simp add: ports_live_upd)
  show ?thesis
    using Some up rc assms(1) by (simp add: insert_right_def adds_send_def)
qed

lemma mod_refs_live [inv_intros]: "ports_live ps \<Longrightarrow> ports_live (snd (mod_refs n r d ps))"
  by (auto simp: mod_refs_def Let_def split: option.splits intro!: ports_live_upd ports_live_del)

lemma send_msg_live [inv_intros]: "ports_live ps \<Longrightarrow> ports_live (snd (send_msg n m ps))"
  by (auto simp: send_msg_def split: option.splits intro!: ports_live_upd dest: ports_liveD)

lemma recv_msg_live [inv_intros]: "ports_live ps \<Longrightarrow> ports_live (snd (recv_msg n ps))"
  by (auto simp: recv_msg_def split: option.splits list.splits intro!: ports_live_upd dest: ports_liveD)

lemma send_phase_live [inv_intros]: "ports_live ps \<Longrightarrow> ports_live (snd (send_phase a opt ss ps))"
  by (simp add: send_phase_def send_msg_live)

lemma recv_phase_state:
  "snd (snd (recv_phase a opt rs rn ps)) = ps \<or> (\<exists>q. snd (snd (recv_phase a opt rs rn ps)) = snd (recv_msg q ps))"
  by (auto simp: recv_phase_def Let_def split: prod.splits option.splits) (metis snd_conv)+

lemma mach_msg_state:
  "\<exists>s. snd (snd (mach_msg msg opt ss rs rn ps)) = s \<and>
     (s = ps \<or> (\<exists>a. msg = Some a \<and> (s = snd (send_phase a opt ss ps)
        \<or> s = snd (snd (recv_phase a opt rs rn (snd (send_phase a opt ss ps)))))))"
  by (cases msg) (auto simp: mach_msg_def case_prod_beta)

lemma mach_msg_live [inv_intros]:
  assumes "ports_live ps"
  shows "ports_live (snd (snd (mach_msg msg opt ss rs rn ps)))"
proof -
  have "ports_live (snd (snd (recv_phase a opt rs rn (snd (send_phase a opt ss ps)))))" for a
    using recv_phase_state [of a opt rs rn "snd (send_phase a opt ss ps)"] assms
    by (metis recv_msg_live send_phase_live)
  then show ?thesis
    using mach_msg_state [of msg opt ss rs rn ps] assms by (metis send_phase_live)
qed

interpretation pm: op_machine mach_step ports_live count_room
proof
  fix s x assume "ports_live s" "count_room x s"
  then show "ports_live (mach_step x s)"
    by (cases x) (auto simp: mach_step_def intro: inv_intros)
qed

lemma port_type_live:
  "ports_live ps \<Longrightarrow> ps_port_type n ps = 0 \<longleftrightarrow> ports ps n = None"
  by (auto simp: ps_port_type_def or_eq_0_iff word_gt_0 split: option.splits dest: ports_liveD)

text \<open>
  Name-space invariant: after any sequence of allocations, deallocations, right
  insertions, reference changes and messages from the initial name space (no send-right
  counter running past 2^32 - 1), \<open>mach_port_type\<close> succeeds exactly for the names in the
  table: a port that lost its last right is gone, and a name in the table always has a right
  to report.
\<close>

theorem port_type_exact:
  assumes "run_ok mach_step count_room ops port_space_new"
  shows "fst (port_type n (run_ops mach_step ops port_space_new)) = KERN_SUCCESS
           \<longleftrightarrow> ports (run_ops mach_step ops port_space_new) n \<noteq> None"
proof -
  have "ports_live (run_ops mach_step ops port_space_new)"
    by (rule pm.run_inv [OF ports_live_new assms])
  from port_type_live [OF this, of n] show ?thesis
    by (simp add: port_type_def Let_def mach_consts)
qed

theorem port_type_exact_witness:
  "fst (port_type 0x1000 (run_ops mach_step
     [OpAllocate MACH_PORT_RIGHT_RECEIVE, OpModRefs 0x1000 MACH_PORT_RIGHT_RECEIVE (-1)]
     port_space_new)) = KERN_INVALID_NAME"
proof -
  let ?ops = "[OpAllocate MACH_PORT_RIGHT_RECEIVE, OpModRefs 0x1000 MACH_PORT_RIGHT_RECEIVE (-1)]"
  have ok: "run_ok mach_step count_room ?ops port_space_new"
    by (simp add: count_room_def)
  have "ports (run_ops mach_step ?ops port_space_new) 0x1000 = None"
    by (simp add: mach_step_def allocate_def mod_refs_def port_space_new_def mach_consts
        port_new_defs Let_def)
  with port_type_exact [OF ok, of "0x1000"] show ?thesis
    by (auto simp: port_type_def Let_def mach_consts split: if_splits)
qed

section \<open>Names\<close>

fun issued :: "mach_op list \<Rightarrow> port_space \<Rightarrow> u32 list" where
  "issued [] ps = []"
| "issued (x # xs) ps =
    (case x of
       OpAllocate r \<Rightarrow>
         (case fst (allocate r ps) of
            Inr n \<Rightarrow> n # issued xs (mach_step x ps)
          | Inl _ \<Rightarrow> issued xs (mach_step x ps))
     | _ \<Rightarrow> issued xs (mach_step x ps))"

fun is_allocate :: "mach_op \<Rightarrow> bool" where
  "is_allocate (OpAllocate _) = True"
| "is_allocate _ = False"

lemma send_msg_next [simp]: "next_name (snd (send_msg d m s)) = next_name s"
  by (simp add: send_msg_def split: option.splits)

lemma recv_msg_next [simp]: "next_name (snd (recv_msg d s)) = next_name s"
  by (simp add: recv_msg_def split: option.splits list.splits)

lemma mach_msg_next [simp]: "next_name (snd (snd (mach_msg msg opt ss rs rn ps))) = next_name ps"
proof -
  have s: "next_name (snd (send_phase a opt ss q)) = next_name q" for a q
    by (simp add: send_phase_def)
  have r: "next_name (snd (snd (recv_phase a opt rs rn q))) = next_name q" for a q
    using recv_phase_state [of a opt rs rn q] by (metis recv_msg_next)
  show ?thesis using mach_msg_state [of msg opt ss rs rn ps] by (metis s r)
qed

lemma next_name_step:
  "next_name (mach_step x ps) = (if is_allocate x then next_name ps + 1 else next_name ps)"
  by (cases x) (auto simp: mach_step_def allocate_def deallocate_def insert_right_def mod_refs_def
      Let_def split: option.splits)

lemma allocate_name: "fst (allocate r ps) = Inr n \<Longrightarrow> n = next_name ps"
  by (auto simp: allocate_def Let_def split: if_splits option.splits)

lemma issued_above:
  assumes "unat (next_name ps) + length (filter is_allocate ops) < 2 ^ 32"
  shows "sorted_wrt (<) (map unat (issued ops ps)) \<and> (\<forall>n \<in> set (issued ops ps). next_name ps \<le> n)"
  using assms
proof (induction ops arbitrary: ps)
  case Nil
  then show ?case by simp
next
  case (Cons x xs)
  show ?case
  proof (cases "is_allocate x")
    case False
    then have i: "issued (x # xs) ps = issued xs (mach_step x ps)" by (cases x) auto
    have n: "next_name (mach_step x ps) = next_name ps" using False by (simp add: next_name_step)
    show ?thesis
      unfolding i using Cons.IH [of "mach_step x ps"] Cons.prems False by (simp only: n) simp
  next
    case True
    then obtain r where x: "x = OpAllocate r" by (cases x) auto
    have suc: "unat (next_name ps + 1) = unat (next_name ps) + 1"
      using Cons.prems True by (simp add: unat_word_ariths)
    with Cons.prems True x have IH:
      "sorted_wrt (<) (map unat (issued xs (mach_step x ps)))"
      "\<forall>n \<in> set (issued xs (mach_step x ps)). next_name ps + 1 \<le> n"
      using Cons.IH [of "mach_step x ps"] by (auto simp: next_name_step)
    have above: "unat (next_name ps) < unat n" if "n \<in> set (issued xs (mach_step x ps))" for n
    proof -
      have "unat (next_name ps + 1) \<le> unat n"
        using IH(2) that by (simp add: word_le_nat_alt)
      with suc show ?thesis by simp
    qed
    then have le: "next_name ps \<le> n" if "n \<in> set (issued xs (mach_step x ps))" for n
      using that by (simp add: word_le_nat_alt order_less_imp_le)
    show ?thesis
      using IH(1) above le x allocate_name [of r ps]
      by (cases "fst (allocate r ps)") auto
  qed
qed

text \<open>
  Port names are never issued twice: along any run from the initial name space with
  fewer than 2^32 - 0x1000 allocations (whatever else happens in between), the names that
  \<open>mach_port_allocate\<close> hands out are pairwise distinct, issued in increasing order, and lie
  above the reserved range, so none is a special port.
\<close>

theorem allocate_names_fresh:
  assumes "0x1000 + length (filter is_allocate ops) < 2 ^ 32"
  shows "sorted_wrt (<) (map unat (issued ops port_space_new))
       \<and> distinct (issued ops port_space_new)
       \<and> (\<forall>n \<in> set (issued ops port_space_new). 0x1000 \<le> n)"
proof -
  have room: "unat (next_name port_space_new) + length (filter is_allocate ops) < 2 ^ 32"
    using assms by (simp add: port_space_new_def)
  note above = issued_above [OF room]
  then have "distinct (map unat (issued ops port_space_new))"
    by (simp add: strict_sorted_iff)
  then have "distinct (issued ops port_space_new)" by (simp add: distinct_map)
  with above show ?thesis by (simp add: port_space_new_def)
qed

theorem allocate_names_fresh_witness:
  "issued [OpAllocate 1, OpAllocate 9, OpDeallocate 0x1000, OpAllocate 0] port_space_new = [0x1000, 0x1002]
   \<and> distinct (issued [OpAllocate 1, OpAllocate 9, OpDeallocate 0x1000, OpAllocate 0] port_space_new)"
proof -
  have h: "0x1000 + length (filter is_allocate
      [OpAllocate 1, OpAllocate 9, OpDeallocate 0x1000, OpAllocate 0]) < 2 ^ 32" by simp
  have e: "issued [OpAllocate 1, OpAllocate 9, OpDeallocate 0x1000, OpAllocate 0] port_space_new
      = [0x1000, 0x1002]"
    by (simp add: mach_step_def allocate_def deallocate_def port_space_new_def mach_consts
        port_new_defs Let_def)
  show ?thesis using allocate_names_fresh [OF h] e by simp
qed

text \<open>
  Exhaustion of the name space is reported once only: with the counter at its last value
  \<open>allocate\<close> answers \<open>KERN_NO_SPACE\<close>, but it has advanced the counter, so the next call
  succeeds and hands out \<open>MACH_PORT_DEAD\<close>, and the one after that hands out
  \<open>MACH_PORT_NULL\<close> (release arithmetic).
\<close>

theorem allocate_after_exhaustion:
  assumes "next_name ps = 0xFFFFFFFE"
  shows "fst (allocate MACH_PORT_RIGHT_RECEIVE ps) = Inl KERN_NO_SPACE
       \<and> fst (allocate MACH_PORT_RIGHT_RECEIVE (snd (allocate MACH_PORT_RIGHT_RECEIVE ps)))
           = Inr MACH_PORT_DEAD
       \<and> fst (allocate MACH_PORT_RIGHT_RECEIVE (snd (allocate MACH_PORT_RIGHT_RECEIVE
           (snd (allocate MACH_PORT_RIGHT_RECEIVE ps))))) = Inr MACH_PORT_NULL"
  using assms by (simp add: allocate_def Let_def mach_consts)

theorem allocate_after_exhaustion_witness:
  "fst (allocate MACH_PORT_RIGHT_RECEIVE (snd (allocate MACH_PORT_RIGHT_RECEIVE
     (port_space_new\<lparr>next_name := 0xFFFFFFFE\<rparr>)))) = Inr MACH_PORT_DEAD"
proof -
  have "next_name (port_space_new\<lparr>next_name := 0xFFFFFFFE\<rparr>) = 0xFFFFFFFE" by simp
  from allocate_after_exhaustion [OF this] show ?thesis by simp
qed

section \<open>Send rights are counted\<close>

fun repeat_op :: "nat \<Rightarrow> ('s \<Rightarrow> 's) \<Rightarrow> 's \<Rightarrow> 's" where
  "repeat_op 0 f s = s"
| "repeat_op (Suc n) f s = repeat_op n f (f s)"

lemma repeat_op_Suc_right: "repeat_op (Suc n) f s = f (repeat_op n f s)"
  by (induction n arbitrary: s) auto

lemma insert_send_some:
  "ports ps n = Some p \<Longrightarrow>
     snd (insert_right n poly MACH_MSG_TYPE_MAKE_SEND ps)
       = ps\<lparr>ports := (ports ps)(n \<mapsto> p\<lparr>send_count := send_count p + 1\<rparr>)\<rparr>"
  by (simp add: insert_right_def)

lemma repeat_insert:
  "ports ps n = Some p \<Longrightarrow>
     repeat_op k (\<lambda>s. snd (insert_right n poly MACH_MSG_TYPE_MAKE_SEND s)) ps
       = ps\<lparr>ports := (ports ps)(n \<mapsto> p\<lparr>send_count := send_count p + of_nat k\<rparr>)\<rparr>"
proof (induction k arbitrary: ps p)
  case 0
  then show ?case by (simp add: fun_upd_idem)
next
  case (Suc k)
  let ?q = "p\<lparr>send_count := send_count p + 1\<rparr>"
  let ?s = "ps\<lparr>ports := (ports ps)(n \<mapsto> ?q)\<rparr>"
  have "ports ?s n = Some ?q" by simp
  note IH = Suc.IH [OF this]
  show ?case
    unfolding repeat_op.simps insert_send_some [OF Suc.prems] IH
    by (simp add: add.assoc add.commute [of 1] fun_upd_def cong: if_cong)
qed

lemma repeat_dealloc:
  "ports ps n = Some (p\<lparr>send_count := c + of_nat k\<rparr>) \<Longrightarrow> c \<noteq> 0 \<or> has_receive p \<Longrightarrow>
   unat c + k < 2 ^ 32 \<Longrightarrow>
     repeat_op k (\<lambda>s. snd (deallocate n s)) ps
       = ps\<lparr>ports := (ports ps)(n \<mapsto> p\<lparr>send_count := c\<rparr>)\<rparr>"
proof (induction k arbitrary: ps)
  case 0
  then show ?case by (simp add: fun_upd_idem)
next
  case (Suc k)
  have k: "unat (of_nat (Suc k) :: u32) = Suc k" "unat (of_nat k :: u32) = k"
    using Suc.prems(3) by (simp_all only: unat_of_nat_u32)
  have u: "unat (c + of_nat (Suc k)) = unat c + Suc k"
    using Suc.prems(3) k by (simp add: unat_word_ariths del: of_nat_Suc)
  then have pos: "0 < c + of_nat (Suc k)" by (simp add: word_less_nat_alt del: of_nat_Suc)
  have dec: "c + of_nat (Suc k) - 1 = c + of_nat k" by simp
  have "unat (c + of_nat k) = unat c + k"
    using Suc.prems(3) k by (simp add: unat_word_ariths)
  then have nz: "c + of_nat k \<noteq> 0 \<or> has_receive p"
    using Suc.prems(2) by (metis add_eq_0_iff_both_eq_0 unat_0 unat_eq_zero)
  let ?s = "ps\<lparr>ports := (ports ps)(n \<mapsto> p\<lparr>send_count := c + of_nat k\<rparr>)\<rparr>"
  have lower: "(p\<lparr>send_count := c + of_nat (Suc k)\<rparr>)\<lparr>send_count := send_count (p\<lparr>send_count := c + of_nat (Suc k)\<rparr>) - 1\<rparr>
      = p\<lparr>send_count := c + of_nat k\<rparr>"
    by simp
  have step: "snd (deallocate n ps) = ?s"
    unfolding deallocate_def Suc.prems(1) Let_def option.case(2)
    using pos nz by (cases "c + of_nat k = 0") (simp_all del: of_nat_Suc add: lower dec)
  show ?case
    using Suc.IH [of ?s] Suc.prems(2,3) by (simp add: step fun_upd_def cong: if_cong)
qed

text \<open>
  Send rights are counted faithfully: inserting \<open>k\<close> send rights into an existing port
  and then deallocating \<open>k\<close> times gives back exactly the name space one started with (the
  port, its queue and its receive right included), as long as the count stays below 2^32.
\<close>

theorem send_rights_roundtrip:
  assumes "ports_live ps" and "ports ps n = Some p" and "unat (send_count p) + k < 2 ^ 32"
  shows "repeat_op k (\<lambda>s. snd (deallocate n s))
           (repeat_op k (\<lambda>s. snd (insert_right n poly MACH_MSG_TYPE_MAKE_SEND s)) ps) = ps"
proof -
  let ?s = "ps\<lparr>ports := (ports ps)(n \<mapsto> p\<lparr>send_count := send_count p + of_nat k\<rparr>)\<rparr>"
  have "repeat_op k (\<lambda>s. snd (deallocate n s)) ?s
          = ?s\<lparr>ports := (ports ?s)(n \<mapsto> p\<lparr>send_count := send_count p\<rparr>)\<rparr>"
    by (rule repeat_dealloc) (use assms in \<open>auto dest: ports_liveD\<close>)
  also have "\<dots> = ps"
    using assms(2) by (simp add: fun_upd_idem)
  finally show ?thesis by (simp add: repeat_insert [OF assms(2)])
qed

theorem send_rights_roundtrip_witness:
  "repeat_op 3 (\<lambda>s. snd (deallocate SPECIAL_PORT_REPLY s))
     (repeat_op 3 (\<lambda>s. snd (insert_right SPECIAL_PORT_REPLY 0 MACH_MSG_TYPE_MAKE_SEND s))
       port_space_new) = port_space_new"
proof -
  have p: "ports port_space_new SPECIAL_PORT_REPLY = Some new_with_send_receive"
    by (simp add: port_space_new_def mach_consts)
  have "unat (send_count new_with_send_receive) + 3 < 2 ^ 32"
    by (simp add: new_with_send_receive_def)
  from send_rights_roundtrip [OF ports_live_new p this] show ?thesis .
qed

section \<open>Message queues\<close>

definition port_contents :: "port_space \<Rightarrow> u32 \<Rightarrow> mach_message list" where
  "port_contents ps n = (case ports ps n of Some p \<Rightarrow> queue p | None \<Rightarrow> [])"

definition accepts :: "port_space \<Rightarrow> u32 \<Rightarrow> bool" where
  "accepts ps n \<longleftrightarrow> (\<exists>p. ports ps n = Some p \<and> \<not> is_dead p)"

interpretation mq: fifo_family "\<lambda>n m s. snd (send_msg n m s)" recv_msg port_contents accepts
proof
  fix s k m
  assume "accepts s k"
  then show "port_contents (snd (send_msg k m s)) = (port_contents s)(k := port_contents s k @ [m])"
    and "accepts (snd (send_msg k m s)) k"
    by (auto simp: accepts_def send_msg_def port_contents_def fun_eq_iff)
next
  fix s k
  show "fst (recv_msg k s) = (case port_contents s k of [] \<Rightarrow> None | m # _ \<Rightarrow> Some m)"
    by (auto simp: recv_msg_def port_contents_def split: option.splits list.splits)
  show "port_contents (snd (recv_msg k s)) = (port_contents s)(k := tl (port_contents s k))"
    by (auto simp: recv_msg_def port_contents_def fun_eq_iff split: option.splits list.splits)
qed

text \<open>
  Ports deliver in order, without loss or duplication: messages sent to a live port with
  an empty queue are received in exactly the order they were sent, and sending or receiving
  on a port leaves every other port's queue as it was.
\<close>

theorem port_fifo:
  assumes "accepts ps n" and "port_contents ps n = []"
  shows "fst (deq_n (recv_msg n) (length ms) (enq_all (\<lambda>m s. snd (send_msg n m s)) ms ps)) = map Some ms
       \<and> (\<forall>k. k \<noteq> n \<longrightarrow> port_contents (enq_all (\<lambda>m s. snd (send_msg n m s)) ms ps) k = port_contents ps k)"
  using mq.fifo_order [OF assms, of ms] mq.contents_enq_all [OF assms(1), of ms] by simp

definition demo_header :: mach_msg_header where
  "demo_header = \<lparr>msgh_bits = 0, msgh_size = 28, msgh_remote_port = SPECIAL_PORT_REPLY,
     msgh_local_port = SPECIAL_PORT_REPLY, msgh_voucher_port = 0, msgh_id = 7\<rparr>"

theorem port_fifo_witness:
  "fst (deq_n (recv_msg SPECIAL_PORT_REPLY) 2
     (enq_all (\<lambda>m s. snd (send_msg SPECIAL_PORT_REPLY m s))
       [\<lparr>mm_header = demo_header, mm_body = [1]\<rparr>, \<lparr>mm_header = demo_header, mm_body = [2]\<rparr>]
       port_space_new))
   = [Some \<lparr>mm_header = demo_header, mm_body = [1]\<rparr>, Some \<lparr>mm_header = demo_header, mm_body = [2]\<rparr>]"
proof -
  have "accepts port_space_new SPECIAL_PORT_REPLY"
    and "port_contents port_space_new SPECIAL_PORT_REPLY = []"
    by (simp_all add: accepts_def port_contents_def port_space_new_def new_with_send_receive_def mach_consts)
  from port_fifo [OF this, of "[\<lparr>mm_header = demo_header, mm_body = [1]\<rparr>, \<lparr>mm_header = demo_header, mm_body = [2]\<rparr>]"]
  show ?thesis by (simp add: numeral_2_eq_2)
qed

section \<open>A message exchange\<close>

lemma header_room: "24 \<le> rcv_size \<Longrightarrow> unat (ucast (rcv_size :: u32) - HEADER_SIZE :: u64) = unat rcv_size - 24"
proof -
  assume le: "24 \<le> rcv_size"
  have u: "unat (ucast rcv_size :: u64) = unat rcv_size" by simp
  have "HEADER_SIZE \<le> (ucast rcv_size :: u64)"
    using le u by (simp add: word_le_nat_alt HEADER_SIZE_def)
  then show ?thesis by (simp add: unat_sub u) (simp add: HEADER_SIZE_def)
qed

lemma sent_body_length: "length (mm_body (sent_message a ss)) = unat ss - 24"
proof (cases "24 \<le> ss")
  case True
  have u: "unat (ucast ss :: u64) = unat ss" by simp
  then have "\<not> (ucast ss :: u64) < HEADER_SIZE"
    using True by (simp add: word_less_nat_alt word_le_nat_alt HEADER_SIZE_def not_less)
  then show ?thesis
    using header_room [OF True] by (simp add: sent_message_def saturating_sub_def Let_def)
next
  case False
  have u: "unat (ucast ss :: u64) = unat ss" by simp
  then have "(ucast ss :: u64) < HEADER_SIZE"
    using False by (simp add: word_less_nat_alt word_le_nat_alt HEADER_SIZE_def not_less)
  with False show ?thesis
    by (simp add: sent_message_def saturating_sub_def Let_def word_le_nat_alt)
qed


definition demo_area :: msg_area where
  "demo_area = \<lparr>area_header = demo_header, area_body = (\<lambda>i. of_nat i)\<rparr>"


text \<open>
  A receive into a buffer smaller than the 24-byte header is not bounded by the buffer:
  \<open>rcv_size - size_of::<MachMsgHeader>()\<close> wraps around (release arithmetic), so the whole
  body of the received message is copied behind the header, whatever its length (bodies of
  fewer than 2^63 bytes).
\<close>

theorem small_receive_unbounded:
  assumes "rcv_size < 24" and "length (mm_body m) < 2 ^ 63"
  shows "copy_len m rcv_size = length (mm_body m)
       \<and> (\<forall>i < length (mm_body m). area_body (received_area m rcv_size a) i = mm_body m ! i)"
proof -
  have lt: "unat rcv_size < 24" using assms(1) by (simp add: word_less_nat_alt)
  have "HEADER_SIZE + (ucast rcv_size - HEADER_SIZE) = (ucast rcv_size :: u64)" by simp
  then have e: "(24 + unat (ucast rcv_size - HEADER_SIZE :: u64)) mod 2 ^ 64 = unat rcv_size"
    using unat_word_ariths(1) [of HEADER_SIZE "ucast rcv_size - HEADER_SIZE :: u64"]
    by (simp add: HEADER_SIZE_def)
  have "2 ^ 63 \<le> unat (ucast rcv_size - HEADER_SIZE :: u64)"
  proof (rule ccontr)
    assume "\<not> ?thesis"
    then have "24 + unat (ucast rcv_size - HEADER_SIZE :: u64) < 2 ^ 64" by simp
    with e lt show False by simp
  qed
  with assms(2) have "copy_len m rcv_size = length (mm_body m)"
    by (simp add: copy_len_def Let_def)
  then show ?thesis by (simp add: received_area_def Let_def)
qed

theorem small_receive_unbounded_witness:
  "copy_len \<lparr>mm_header = demo_header, mm_body = replicate 100 1\<rparr> 0 = 100"
proof -
  have "(0 :: u32) < 24" and "length (mm_body \<lparr>mm_header = demo_header, mm_body = replicate 100 1\<rparr>) < 2 ^ 63"
    by simp_all
  from small_receive_unbounded [OF this] show ?thesis by simp
qed

end
