(* ===== verification/MachO.thy ===== *)
theory MachO
  imports Prelude
begin

text \<open>
  \<open>grafted-loader/src/error.rs\<close>, \<open>macho.rs\<close> and \<open>mapper.rs\<close>: the loader's view of a Mach-O
  file and the mapping of its segments. The Mach-O parser is the goblin crate: its results
  (\<open>goblin_macho\<close>, \<open>goblin_fat\<close>) are data here, and its two entry points are parameters of
  the definitions that call them. The kernel's \<open>mmap\<close> and \<open>mprotect\<close> are parameters of
  the mapper.
\<close>

section \<open>Errors\<close>

datatype loader_error =
    Io string
  | NotMachO
  | UnsupportedFileType u32
  | UnsupportedCpuType u32
  | NoTextSegment
  | NoEntryPoint
  | Parse string
  | Mmap string
  | NoArchSlice string

text \<open>Outcome of a call: the value, the error of its \<open>Result\<close>, or a panic.\<close>

datatype ('e, 'a) outcome = Ok 'a | Err 'e | Panic

fun is_Ok :: "('e, 'a) outcome \<Rightarrow> bool" where
  "is_Ok (Ok _) = True"
| "is_Ok _ = False"

section \<open>What goblin hands over\<close>

record segment =
  seg_name :: string
  vmaddr :: u64
  vmsize :: u64
  fileoff :: u64
  filesize :: u64
  initprot :: u32
  maxprot :: u32

record goblin_section =
  sectname :: string
  sect_addr :: u64
  sect_size :: u64
  sect_flags :: u32

record goblin_thread =
  flavor :: u32
  thread_count :: u32
  thread_state :: "u32 list"

text \<open>
  The commands the loader looks at: \<open>Symtab\<close> carries \<open>symoff\<close>, \<open>nsyms\<close> and \<open>stroff\<close>,
  \<open>Dysymtab\<close> carries \<open>indirectsymoff\<close> and \<open>nindirectsyms\<close>, \<open>Routines64\<close> the init address.
\<close>

datatype load_command =
    Segment64 segment
  | LcMain u64
  | Unixthread goblin_thread
  | DyldChainedFixups u32 u32
  | DyldExportsTrie u32 u32
  | Symtab u32 u32 u32
  | Dysymtab u32 u32
  | Routines64 u64
  | OtherCommand

record goblin_import =
  im_dylib :: string
  im_name :: string
  im_address :: u64
  im_is_weak :: bool

record goblin_export =
  ex_name :: string
  ex_offset :: u64

text \<open>
  \<open>gm_symbols\<close> lists name and \<open>n_value\<close> of every symbol table entry goblin can read;
  \<open>gm_imports\<close> and \<open>gm_exports\<close> are the results of the calls of the same names.
\<close>

record goblin_macho =
  gm_filetype :: u32
  gm_cputype :: u32
  gm_commands :: "load_command list"
  gm_name :: "string option"
  gm_libs :: "string list"
  gm_rpaths :: "string list"
  gm_segments :: "goblin_section option list list"
  gm_imports :: "string + goblin_import list"
  gm_exports :: "string + goblin_export list"
  gm_symbols :: "(string \<times> u64) option list"

record goblin_arch =
  arch_cputype :: u32
  arch_offset :: u32
  arch_size :: u32

datatype goblin_mach =
    GFat "string + goblin_arch list"
  | GBinary goblin_macho

section \<open>The loaded binary\<close>

record dylib_dep =
  dep_name :: string
  current_version :: u32
  compat_version :: u32

record parsed_info =
  file_type :: u32
  cpu_type :: u32
  entry_point :: u64
  entry_is_offset :: bool
  segments :: "segment list"
  dylib_deps :: "dylib_dep list"
  rpaths :: "string list"
  chained_fixups :: "(u32 \<times> u32) option"
  exports_trie :: "(u32 \<times> u32) option"

text \<open>\<open>MachOBinary\<close>: the parsed information with the path, the file bytes and the slide.\<close>

record macho_binary = parsed_info +
  bin_path :: string
  bin_data :: "u8 list"
  slide :: u64

definition CPU_TYPE_X86_64 :: u32 where "CPU_TYPE_X86_64 = 0x01000007"

section \<open>Parsing\<close>

definition no_info :: "goblin_macho \<Rightarrow> parsed_info" where
  "no_info macho =
    \<lparr>file_type = gm_filetype macho, cpu_type = gm_cputype macho, entry_point = 0,
     entry_is_offset = False, segments = [], dylib_deps = [], rpaths = [],
     chained_fixups = None, exports_trie = None\<rparr>"

text \<open>One iteration of the loop over the load commands.\<close>

definition scan_command :: "load_command \<Rightarrow> parsed_info \<Rightarrow> parsed_info" where
  "scan_command lc info =
    (case lc of
       Segment64 seg \<Rightarrow> info\<lparr>segments := segments info @ [seg]\<rparr>
     | LcMain entryoff \<Rightarrow> info\<lparr>entry_point := entryoff, entry_is_offset := True\<rparr>
     | Unixthread th \<Rightarrow>
         if flavor th = 4 \<and> thread_count th \<ge> 42
         then info\<lparr>entry_point := push_bit 32 (ucast (thread_state th ! 33)) OR ucast (thread_state th ! 32),
                   entry_is_offset := False\<rparr>
         else info
     | DyldChainedFixups off sz \<Rightarrow> info\<lparr>chained_fixups := Some (off, sz)\<rparr>
     | DyldExportsTrie off sz \<Rightarrow> info\<lparr>exports_trie := Some (off, sz)\<rparr>
     | _ \<Rightarrow> info)"

definition keep_lib :: "goblin_macho \<Rightarrow> string \<Rightarrow> bool" where
  "keep_lib macho lib \<longleftrightarrow>
     lib \<noteq> [] \<and> lib \<noteq> (case gm_name macho of Some n \<Rightarrow> n | None \<Rightarrow> []) \<and> lib \<noteq> ''self''"

definition extract_info ::
  "(u8 list \<Rightarrow> string + goblin_macho) \<Rightarrow> u8 list \<Rightarrow> (loader_error, parsed_info) outcome" where
  "extract_info goblin_parse data =
    (case goblin_parse data of
       Inl e \<Rightarrow> Err (Parse e)
     | Inr macho \<Rightarrow>
         if gm_cputype macho \<noteq> CPU_TYPE_X86_64 then Err (UnsupportedCpuType (gm_cputype macho))
         else Ok ((fold scan_command (gm_commands macho) (no_info macho))
                  \<lparr>dylib_deps := map (\<lambda>lib. \<lparr>dep_name = lib, current_version = 0, compat_version = 0\<rparr>)
                                   (filter (keep_lib macho) (gm_libs macho)),
                   rpaths := gm_rpaths macho\<rparr>))"

definition binary_of :: "string \<Rightarrow> parsed_info \<Rightarrow> u8 list \<Rightarrow> macho_binary" where
  "binary_of path info data =
    \<lparr>file_type = file_type info, cpu_type = cpu_type info, entry_point = entry_point info,
     entry_is_offset = entry_is_offset info, segments = segments info,
     dylib_deps = dylib_deps info, rpaths = rpaths info, chained_fixups = chained_fixups info,
     exports_trie = exports_trie info, bin_path = path, bin_data = data, slide = 0\<rparr>"

definition parse_single ::
  "(u8 list \<Rightarrow> string + goblin_macho) \<Rightarrow> string \<Rightarrow> u8 list \<Rightarrow> (loader_error, macho_binary) outcome" where
  "parse_single goblin_parse path data =
    (case extract_info goblin_parse data of
       Ok info \<Rightarrow> Ok (binary_of path info data)
     | Err e \<Rightarrow> Err e
     | Panic \<Rightarrow> Panic)"

text \<open>\<open>data[offset..offset + size]\<close> panics when the range leaves the file.\<close>

definition data_slice :: "u8 list \<Rightarrow> u32 \<Rightarrow> u32 \<Rightarrow> u8 list option" where
  "data_slice data off sz =
    (if unat off + unat sz \<le> length data then Some (take (unat sz) (drop (unat off) data)) else None)"

fun first_x86 :: "goblin_arch list \<Rightarrow> goblin_arch option" where
  "first_x86 [] = None"
| "first_x86 (a # as) = (if arch_cputype a = CPU_TYPE_X86_64 then Some a else first_x86 as)"

definition parse_fat ::
  "(u8 list \<Rightarrow> string + goblin_macho) \<Rightarrow> (u8 list \<Rightarrow> string + goblin_mach) \<Rightarrow> string \<Rightarrow> u8 list
     \<Rightarrow> (loader_error, macho_binary) outcome" where
  "parse_fat goblin_parse goblin_mach_parse path data =
    (case goblin_mach_parse data of
       Inl e \<Rightarrow> Err (Parse e)
     | Inr (GFat (Inl e)) \<Rightarrow> Err (Parse e)
     | Inr (GFat (Inr arches)) \<Rightarrow>
         (case first_x86 arches of
            Some a \<Rightarrow>
              (case data_slice data (arch_offset a) (arch_size a) of
                 Some s \<Rightarrow> parse_single goblin_parse path s
               | None \<Rightarrow> Panic)
          | None \<Rightarrow> Err (UnsupportedCpuType 0))
     | Inr (GBinary macho) \<Rightarrow>
         if gm_cputype macho = CPU_TYPE_X86_64 then parse_single goblin_parse path data
         else Err (UnsupportedCpuType (gm_cputype macho)))"

definition is_fat :: "u8 list \<Rightarrow> bool" where
  "is_fat data \<longleftrightarrow> length data \<ge> 4 \<and>
     (let magic = u32_from_le (rev (take 4 data)) in magic = 0xcafebabe \<or> magic = 0xcafebabf)"

definition parse ::
  "(u8 list \<Rightarrow> string + goblin_macho) \<Rightarrow> (u8 list \<Rightarrow> string + goblin_mach) \<Rightarrow> string \<Rightarrow> u8 list
     \<Rightarrow> (loader_error, macho_binary) outcome" where
  "parse goblin_parse goblin_mach_parse path data =
    (if is_fat data then parse_fat goblin_parse goblin_mach_parse path data
     else parse_single goblin_parse path data)"

text \<open>The thread-local image: address and size of \<open>__thread_data\<close>, and the total with \<open>__thread_bss\<close>.\<close>

definition tlv_section :: "goblin_section option \<Rightarrow> u64 \<times> u64 \<times> u64 \<Rightarrow> u64 \<times> u64 \<times> u64" where
  "tlv_section r acc =
    (case acc of (data_addr, data_size, bss_size) \<Rightarrow>
       case r of
         None \<Rightarrow> acc
       | Some s \<Rightarrow>
           if sectname s = ''__thread_data'' then (sect_addr s, sect_size s, bss_size)
           else if sectname s = ''__thread_bss'' then (data_addr, data_size, sect_size s)
           else acc)"

definition tlv_init_image ::
  "(u8 list \<Rightarrow> string + goblin_macho) \<Rightarrow> macho_binary \<Rightarrow> (u64 \<times> u64 \<times> u64) option" where
  "tlv_init_image goblin_parse b =
    (case goblin_parse (bin_data b) of
       Inl _ \<Rightarrow> None
     | Inr macho \<Rightarrow>
         (case fold tlv_section (concat (gm_segments macho)) (0, 0, 0) of
            (data_addr, data_size, bss_size) \<Rightarrow>
              if data_size > 0 \<or> bss_size > 0 then Some (data_addr, data_size, data_size + bss_size)
              else None))"

text \<open>The last load command that sets the entry point decides it.\<close>

fun entry_of :: "load_command \<Rightarrow> (u64 \<times> bool) option" where
  "entry_of (LcMain off) = Some (off, True)"
| "entry_of (Unixthread th) =
     (if flavor th = 4 \<and> thread_count th \<ge> 42
      then Some (push_bit 32 (ucast (thread_state th ! 33)) OR ucast (thread_state th ! 32), False)
      else None)"
| "entry_of _ = None"

fun segment_of :: "load_command \<Rightarrow> segment option" where
  "segment_of (Segment64 s) = Some s"
| "segment_of _ = None"

fun last_entry :: "load_command list \<Rightarrow> u64 \<times> bool \<Rightarrow> u64 \<times> bool" where
  "last_entry [] e = e"
| "last_entry (c # cs) e = last_entry cs (case entry_of c of Some e' \<Rightarrow> e' | None \<Rightarrow> e)"

lemma fold_scan_segments:
  "segments (fold scan_command cs info) = segments info @ List.map_filter segment_of cs"
  by (induction cs arbitrary: info)
     (auto simp: scan_command_def List.map_filter_simps split: load_command.splits)

lemma fold_scan_entry:
  "(entry_point (fold scan_command cs info), entry_is_offset (fold scan_command cs info))
     = last_entry cs (entry_point info, entry_is_offset info)"
proof (induction cs arbitrary: info)
  case Nil
  then show ?case by simp
next
  case (Cons c cs)
  have "(entry_point (scan_command c info), entry_is_offset (scan_command c info))
      = (case entry_of c of Some e' \<Rightarrow> e' | None \<Rightarrow> (entry_point info, entry_is_offset info))"
    by (cases c) (auto simp: scan_command_def)
  with Cons show ?case by simp
qed

lemma fold_scan_cpu [simp]: "cpu_type (fold scan_command cs info) = cpu_type info"
  by (induction cs arbitrary: info) (auto simp: scan_command_def split: load_command.splits)

text \<open>
  What a successful parse of one image promises: an x86-64 binary over exactly the given
  bytes, not slid yet, with the segments in file order, the entry point of the last entry
  command, and no dependency on itself.
\<close>

definition parsed_as :: "goblin_macho \<Rightarrow> string \<Rightarrow> u8 list \<Rightarrow> macho_binary \<Rightarrow> bool" where
  "parsed_as macho path data b \<longleftrightarrow>
     cpu_type b = CPU_TYPE_X86_64 \<and> bin_data b = data \<and> bin_path b = path \<and> slide b = 0
   \<and> segments b = List.map_filter segment_of (gm_commands macho)
   \<and> (entry_point b, entry_is_offset b) = last_entry (gm_commands macho) (0, False)
   \<and> map dep_name (dylib_deps b) = filter (keep_lib macho) (gm_libs macho)"

lemma parse_single_spec:
  assumes "parse_single gp path data = Ok b"
  shows "\<exists>macho. gp data = Inr macho \<and> parsed_as macho path data b"
proof -
  from assms obtain macho where g: "gp data = Inr macho" and cpu: "gm_cputype macho = CPU_TYPE_X86_64"
    and b: "b = binary_of path ((fold scan_command (gm_commands macho) (no_info macho))
                  \<lparr>dylib_deps := map (\<lambda>lib. \<lparr>dep_name = lib, current_version = 0, compat_version = 0\<rparr>)
                                   (filter (keep_lib macho) (gm_libs macho)),
                   rpaths := gm_rpaths macho\<rparr>) data"
    by (auto simp: parse_single_def extract_info_def split: outcome.splits sum.splits if_splits)
  have e: "(entry_point (fold scan_command (gm_commands macho) (no_info macho)),
            entry_is_offset (fold scan_command (gm_commands macho) (no_info macho)))
          = last_entry (gm_commands macho) (0, False)"
    unfolding fold_scan_entry by (simp add: no_info_def)
  have s: "segments (no_info macho) = []" and c: "cpu_type (no_info macho) = gm_cputype macho"
    by (simp_all add: no_info_def)
  show ?thesis
    using g cpu e
    by (simp add: b parsed_as_def binary_of_def fold_scan_segments s c comp_def)
qed

text \<open>
  Loading narrows to the x86-64 image: whenever \<open>MachOBinary::parse\<close> succeeds, the
  result is an unslid x86-64 binary that describes a contiguous slice of the file (the whole
  file unless it starts with a fat magic), with segments in command order, the entry point
  of the last entry command, and self references removed from the dependencies.
\<close>

theorem parse_narrows:
  assumes "parse gp gmp path data = Ok b"
  shows "\<exists>macho off. gp (bin_data b) = Inr macho \<and> parsed_as macho path (bin_data b) b
           \<and> bin_data b = take (length (bin_data b)) (drop off data)
           \<and> (\<not> is_fat data \<longrightarrow> bin_data b = data)"
proof (cases "is_fat data")
  case False
  with assms have "parse_single gp path data = Ok b" by (simp add: parse_def)
  from parse_single_spec [OF this] obtain macho where
    "gp data = Inr macho" "parsed_as macho path data b" by blast
  then show ?thesis
    by (intro exI [of _ macho] exI [of _ 0]) (auto simp: parsed_as_def)
next
  case True
  with assms have "parse_fat gp gmp path data = Ok b" by (simp add: parse_def)
  then obtain s off where s: "parse_single gp path s = Ok b"
    and sl: "s = take (length s) (drop off data)"
  proof (cases "gmp data")
    case (Inl e)
    with \<open>parse_fat gp gmp path data = Ok b\<close> show ?thesis by (simp add: parse_fat_def)
  next
    case (Inr g)
    show ?thesis
    proof (cases g)
      case (GBinary m)
      with Inr \<open>parse_fat gp gmp path data = Ok b\<close> that [of data 0] show ?thesis
        by (simp add: parse_fat_def split: if_splits)
    next
      case (GFat x)
      have pf: "parse_fat gp gmp path data = Ok b" by fact
      obtain as where x: "x = Inr as"
        using pf Inr GFat by (cases x) (simp_all add: parse_fat_def)
      obtain a0 where a0: "first_x86 as = Some a0"
        using pf Inr GFat x by (cases "first_x86 as") (simp_all add: parse_fat_def)
      have a: "parse_single gp path (take (unat (arch_size a0)) (drop (unat (arch_offset a0)) data)) = Ok b"
              "unat (arch_offset a0) + unat (arch_size a0) \<le> length data"
        using pf Inr GFat x a0 by (simp_all add: parse_fat_def data_slice_def split: if_splits)
      show ?thesis
        by (rule that [OF a(1), of "unat (arch_offset a0)"]) (use a(2) in simp)
    qed
  qed
  from parse_single_spec [OF s] obtain macho where
    m: "gp s = Inr macho" "parsed_as macho path s b" by blast
  then have "bin_data b = s" by (simp add: parsed_as_def)
  with m sl True show ?thesis by blast
qed

definition demo_seg :: "string \<Rightarrow> u64 \<Rightarrow> u64 \<Rightarrow> u64 \<Rightarrow> u64 \<Rightarrow> segment" where
  "demo_seg n a sz off fsz =
    \<lparr>seg_name = n, vmaddr = a, vmsize = sz, fileoff = off, filesize = fsz, initprot = 5, maxprot = 7\<rparr>"

definition demo_macho :: goblin_macho where
  "demo_macho = \<lparr>gm_filetype = 2, gm_cputype = CPU_TYPE_X86_64,
     gm_commands = [Segment64 (demo_seg ''__TEXT'' 0x100000000 0x1000 0 4), LcMain 2],
     gm_name = None, gm_libs = [''self'', ''/usr/lib/libSystem.B.dylib''], gm_rpaths = [],
     gm_segments = [], gm_imports = Inr [], gm_exports = Inr [], gm_symbols = []\<rparr>"

theorem parse_narrows_witness:
  "\<exists>b macho off. parse (\<lambda>_. Inr demo_macho) (\<lambda>_. Inl ''not fat'') ''a.out'' [1, 2, 3, 4] = Ok b
     \<and> bin_data b = take (length (bin_data b)) (drop off [1, 2, 3, 4])
     \<and> parsed_as macho ''a.out'' (bin_data b) b \<and> dylib_deps b \<noteq> []"
proof -
  let ?b = "binary_of ''a.out'' (fold scan_command (gm_commands demo_macho) (no_info demo_macho)
      \<lparr>dylib_deps := [\<lparr>dep_name = ''/usr/lib/libSystem.B.dylib'', current_version = 0, compat_version = 0\<rparr>],
       rpaths := []\<rparr>) [1, 2, 3, 4]"
  have p: "parse (\<lambda>_. Inr demo_macho) (\<lambda>_. Inl ''not fat'') ''a.out'' [1, 2, 3, 4] = Ok ?b"
    by (simp add: parse_def is_fat_def parse_single_def extract_info_def demo_macho_def keep_lib_def
        u32_from_le_def Let_def)
  from parse_narrows [OF p] obtain macho off where
    "parsed_as macho ''a.out'' (bin_data ?b) ?b"
    "bin_data ?b = take (length (bin_data ?b)) (drop off [1, 2, 3, 4])" by blast
  moreover have "dylib_deps ?b \<noteq> []" by (simp add: binary_of_def)
  ultimately show ?thesis using p by blast
qed

end
