(* ===== verification/Mapper.thy ===== *)
theory Mapper
  imports MachO
begin

text \<open>
  \<open>grafted-loader/src/mapper.rs\<close>: mapping the segments of a parsed binary. The kernel is two
  parameters: \<open>mm hint len space\<close> is where an anonymous private mapping goes (\<open>Some a\<close> is
  \<open>MAP_FIXED\<close> at \<open>a\<close>) or the error it reports, \<open>mp addr len\<close> is the error of \<open>mprotect\<close>,
  if any. What a successful call does to the address space (whole pages, zero-filled, the
  given protection) is written out here. The error texts keep the system's message and drop
  the formatted address in front of it.
\<close>

record space =
  sp_bytes :: mem
  sp_prot :: "u64 \<Rightarrow> u32 option"

definition PROT_READ :: u32 where "PROT_READ = 1"
definition PROT_WRITE :: u32 where "PROT_WRITE = 2"
definition PROT_EXEC :: u32 where "PROT_EXEC = 4"

definition macho_prot_to_linux :: "u32 \<Rightarrow> u32" where
  "macho_prot_to_linux prot =
    (let flags = (if prot AND 1 \<noteq> 0 then PROT_READ else 0);
         flags = (if prot AND 2 \<noteq> 0 then flags OR PROT_WRITE else flags)
     in if prot AND 4 \<noteq> 0 then flags OR PROT_EXEC else flags)"

definition over :: "u64 \<Rightarrow> nat \<Rightarrow> 'a \<Rightarrow> (u64 \<Rightarrow> 'a) \<Rightarrow> u64 \<Rightarrow> 'a" where
  "over a n v f = (\<lambda>x. if unat (x - a) < n then v else f x)"

definition round_page :: "u64 \<Rightarrow> nat" where
  "round_page n = (unat n + 4095) div 4096 * 4096"

definition mmap_anonymous :: "u64 \<Rightarrow> u64 \<Rightarrow> u32 \<Rightarrow> space \<Rightarrow> space" where
  "mmap_anonymous p len prot sp =
    \<lparr>sp_bytes = over p (round_page len) 0 (sp_bytes sp),
     sp_prot = over p (round_page len) (Some prot) (sp_prot sp)\<rparr>"

definition mprotect :: "u64 \<Rightarrow> u64 \<Rightarrow> u32 \<Rightarrow> space \<Rightarrow> space" where
  "mprotect p len prot sp = sp\<lparr>sp_prot := over p (round_page len) (Some prot) (sp_prot sp)\<rparr>"

definition copy_segment :: "segment \<Rightarrow> u8 list \<Rightarrow> u64 \<Rightarrow> space \<Rightarrow> (loader_error, space) outcome" where
  "copy_segment seg data p sp =
    (if filesize seg > 0 \<and> unat (fileoff seg + filesize seg) \<le> length data then
       if unat (fileoff seg) > length data then Panic
       else Ok (sp\<lparr>sp_bytes := store_bytes (sp_bytes sp) p
                     (take (unat (filesize seg)) (drop (unat (fileoff seg)) data))\<rparr>)
     else Ok sp)"

definition map_segment ::
  "(u64 option \<Rightarrow> u64 \<Rightarrow> space \<Rightarrow> string + u64) \<Rightarrow> (u64 \<Rightarrow> u64 \<Rightarrow> string option)
     \<Rightarrow> segment \<Rightarrow> u8 list \<Rightarrow> u64 \<Rightarrow> space \<Rightarrow> (loader_error, space) outcome" where
  "map_segment mm mp seg data sl sp =
    (if vmsize seg = 0 then Ok sp
     else
       let va = vmaddr seg + sl in
       case mm (if va = 0 then None else Some va) (vmsize seg) sp of
         Inl e \<Rightarrow> Err (Mmap e)
       | Inr p \<Rightarrow>
           (case copy_segment seg data p (mmap_anonymous p (vmsize seg) (PROT_READ OR PROT_WRITE) sp) of
              Ok sp1 \<Rightarrow>
                (case mp p (vmsize seg) of
                   Some e \<Rightarrow> Err (Mmap e)
                 | None \<Rightarrow> Ok (mprotect p (vmsize seg) (macho_prot_to_linux (initprot seg)) sp1))
            | Err e \<Rightarrow> Err e
            | Panic \<Rightarrow> Panic))"

fun map_segments ::
  "(u64 option \<Rightarrow> u64 \<Rightarrow> space \<Rightarrow> string + u64) \<Rightarrow> (u64 \<Rightarrow> u64 \<Rightarrow> string option)
     \<Rightarrow> segment list \<Rightarrow> u8 list \<Rightarrow> u64 \<Rightarrow> space \<Rightarrow> (loader_error, space) outcome" where
  "map_segments mm mp [] data sl sp = Ok sp"
| "map_segments mm mp (seg # segs) data sl sp =
    (if seg_name seg = ''__PAGEZERO'' then map_segments mm mp segs data sl sp
     else case map_segment mm mp seg data sl sp of
            Ok sp1 \<Rightarrow> map_segments mm mp segs data sl sp1
          | Err e \<Rightarrow> Err e
          | Panic \<Rightarrow> Panic)"

definition find_segment :: "string \<Rightarrow> segment list \<Rightarrow> segment option" where
  "find_segment n segs = find (\<lambda>s. seg_name s = n) segs"

definition total_size :: "segment list \<Rightarrow> u64" where
  "total_size segs =
    fold (\<lambda>s m. max m (vmaddr s + vmsize s)) (filter (\<lambda>s. seg_name s \<noteq> ''__PAGEZERO'') segs) 0"

text \<open>The slide: 0 for an executable; for a dylib the start of a range that is reserved and released.\<close>

definition choose_slide ::
  "(u64 option \<Rightarrow> u64 \<Rightarrow> space \<Rightarrow> string + u64) \<Rightarrow> segment list \<Rightarrow> space \<Rightarrow> (loader_error, u64) outcome" where
  "choose_slide mm segs sp =
    (if (case find_segment ''__TEXT'' segs of Some s \<Rightarrow> vmaddr s | None \<Rightarrow> 0) = 0 then
       if total_size segs = 0 then Err (Mmap ''dylib has no segments'')
       else (case mm None (total_size segs) sp of Inl e \<Rightarrow> Err (Mmap e) | Inr base \<Rightarrow> Ok base)
     else Ok 0)"

definition map_binary ::
  "(u64 option \<Rightarrow> u64 \<Rightarrow> space \<Rightarrow> string + u64) \<Rightarrow> (u64 \<Rightarrow> u64 \<Rightarrow> string option)
     \<Rightarrow> macho_binary \<Rightarrow> space \<Rightarrow> (loader_error, (u64 \<times> u64) \<times> space) outcome" where
  "map_binary mm mp b sp =
    (case choose_slide mm (segments b) sp of
       Ok sl \<Rightarrow>
         (case map_segments mm mp (segments b) (bin_data b) sl sp of
            Ok sp1 \<Rightarrow>
              (if entry_is_offset b then
                 (case find_segment ''__TEXT'' (segments b) of
                    None \<Rightarrow> Err NoTextSegment
                  | Some ts \<Rightarrow> Ok ((((vmaddr ts + sl) - fileoff ts) + entry_point b, sl), sp1))
               else Ok ((entry_point b + sl, sl), sp1))
          | Err e \<Rightarrow> Err e
          | Panic \<Rightarrow> Panic)
     | Err e \<Rightarrow> Err e
     | Panic \<Rightarrow> Panic)"

lemma and_one_bit: "(p :: u32) AND push_bit k 1 = (if bit p k then push_bit k 1 else 0)"
  by (rule bit_word_eqI) (auto simp: bit_simps)

lemma macho_prot_to_linux_eq: "macho_prot_to_linux p = p AND 7"
proof -
  have "(7 :: u32) = 1 OR (2 OR 4)" by simp
  then have "p AND 7 = (p AND 1) OR ((p AND 2) OR (p AND 4))"
    by (simp only: bit.conj_disj_distrib)
  moreover have "p AND 1 = (if bit p 0 then 1 else 0)" "p AND 2 = (if bit p 1 then 2 else 0)"
      "p AND 4 = (if bit p 2 then 4 else 0)"
    using and_one_bit [of p 0] and_one_bit [of p 1] and_one_bit [of p 2]
    by (simp_all add: push_bit_eq_mult)
  ultimately show ?thesis
    by (simp add: macho_prot_to_linux_def PROT_READ_def PROT_WRITE_def PROT_EXEC_def Let_def)
qed

section \<open>What mapping leaves behind\<close>

definition in_range :: "u64 \<Rightarrow> nat \<Rightarrow> u64 \<Rightarrow> bool" where
  "in_range a n x \<longleftrightarrow> unat (x - a) < n"

definition seg_bytes :: "segment \<Rightarrow> u8 list \<Rightarrow> u8 list" where
  "seg_bytes seg data =
    take (unat (filesize seg)) (drop (unat (fileoff seg)) data)
      @ replicate (unat (vmsize seg) - unat (filesize seg)) 0"

text \<open>A segment whose file part exists and fits its memory, at a non-null address.\<close>

definition seg_ok :: "segment \<Rightarrow> u8 list \<Rightarrow> u64 \<Rightarrow> bool" where
  "seg_ok seg data sl \<longleftrightarrow>
     vmaddr seg + sl \<noteq> 0 \<and> filesize seg \<le> vmsize seg
   \<and> unat (fileoff seg) + unat (filesize seg) \<le> length data \<and> length data < 2 ^ 64"

text \<open>The segment's bytes and protection are in place.\<close>

definition seg_mapped :: "segment \<Rightarrow> u8 list \<Rightarrow> u64 \<Rightarrow> space \<Rightarrow> bool" where
  "seg_mapped seg data sl sp \<longleftrightarrow>
     load_bytes (sp_bytes sp) (vmaddr seg + sl) (unat (vmsize seg)) = seg_bytes seg data
   \<and> (\<forall>i < unat (vmsize seg). sp_prot sp (vmaddr seg + sl + of_nat i) = Some (initprot seg AND 7))"

definition same_outside :: "(u64 \<Rightarrow> bool) \<Rightarrow> space \<Rightarrow> space \<Rightarrow> bool" where
  "same_outside R sp sp' \<longleftrightarrow> (\<forall>x. \<not> R x \<longrightarrow> sp_bytes sp' x = sp_bytes sp x \<and> sp_prot sp' x = sp_prot sp x)"

definition fixed_honoured :: "(u64 option \<Rightarrow> u64 \<Rightarrow> space \<Rightarrow> string + u64) \<Rightarrow> bool" where
  "fixed_honoured mm \<longleftrightarrow> (\<forall>a n sp p. mm (Some a) n sp = Inr p \<longrightarrow> p = a)"

lemma round_page_ge: "unat n \<le> round_page n"
  using div_mult_mod_eq [of "unat n + 4095" 4096] mod_less_divisor [of 4096 "unat n + 4095"]
  unfolding round_page_def by linarith

lemma over_outside: "\<not> in_range a n x \<Longrightarrow> over a n v f x = f x"
  by (simp add: over_def in_range_def)

lemma over_inside: "in_range a n x \<Longrightarrow> over a n v f x = v"
  by (simp add: over_def in_range_def)

lemma in_range_offset: "i < n \<Longrightarrow> i < 2 ^ 64 \<Longrightarrow> in_range a n (a + of_nat i)"
  by (simp add: in_range_def unat_of_nat_u64)

lemma length_seg_bytes:
  "seg_ok seg data sl \<Longrightarrow> length (seg_bytes seg data) = unat (vmsize seg)"
  by (auto simp: seg_ok_def seg_bytes_def word_le_nat_alt)

lemma copy_segment_ok:
  assumes "seg_ok seg data sl"
  shows "copy_segment seg data p sp
     = Ok (sp\<lparr>sp_bytes := store_bytes (sp_bytes sp) p
                (take (unat (filesize seg)) (drop (unat (fileoff seg)) data))\<rparr>)"
proof -
  have "unat (fileoff seg + filesize seg) = unat (fileoff seg) + unat (filesize seg)"
    using assms by (simp add: seg_ok_def unat_word_ariths)
  moreover have "filesize seg = 0 \<Longrightarrow> store_bytes m p (take (unat (filesize seg)) d) = m" for m d
    by (simp add: store_bytes_def)
  ultimately show ?thesis
    using assms by (auto simp: copy_segment_def seg_ok_def word_gt_0)
qed

lemma map_segment_ok:
  assumes ok: "seg_ok seg data sl" and fh: "fixed_honoured mm"
    and m: "map_segment mm mp seg data sl sp = Ok sp'"
  shows "seg_mapped seg data sl sp'
       \<and> same_outside (in_range (vmaddr seg + sl) (round_page (vmsize seg))) sp sp'"
proof (cases "vmsize seg = 0")
  case True
  with m have "sp' = sp" by (simp add: map_segment_def)
  with True ok show ?thesis
    by (auto simp: seg_mapped_def same_outside_def seg_bytes_def load_bytes_def seg_ok_def)
next
  case False
  let ?va = "vmaddr seg + sl" and ?n = "round_page (vmsize seg)"
  let ?file = "take (unat (filesize seg)) (drop (unat (fileoff seg)) data)"
  have va: "?va \<noteq> 0" using ok by (simp add: seg_ok_def)
  obtain p where p: "mm (Some ?va) (vmsize seg) sp = Inr p"
    using m va False by (cases "mm (Some ?va) (vmsize seg) sp") (auto simp: map_segment_def Let_def)
  then have pva: "p = ?va" using fh by (simp add: fixed_honoured_def)
  have sp': "sp' = mprotect ?va (vmsize seg) (macho_prot_to_linux (initprot seg))
      ((mmap_anonymous ?va (vmsize seg) (PROT_READ OR PROT_WRITE) sp)
         \<lparr>sp_bytes := store_bytes (over ?va ?n 0 (sp_bytes sp)) ?va ?file\<rparr>)"
    using m va False p unfolding pva
    by (auto simp: map_segment_def Let_def copy_segment_ok [OF ok] mmap_anonymous_def split: option.splits)
  have flen: "length ?file = unat (filesize seg)" using ok by (auto simp: seg_ok_def min_def)
  have fs: "unat (filesize seg) \<le> unat (vmsize seg)" using ok by (simp add: seg_ok_def word_le_nat_alt)
  have vn: "unat (vmsize seg) \<le> ?n" by (rule round_page_ge)
  have v64: "unat (vmsize seg) < 2 ^ 64" using unsigned_less [of "vmsize seg"] by simp
  have "load_bytes (sp_bytes sp') ?va (unat (vmsize seg)) = seg_bytes seg data"
  proof (rule nth_equalityI)
    show "length (load_bytes (sp_bytes sp') ?va (unat (vmsize seg))) = length (seg_bytes seg data)"
      using length_seg_bytes [OF ok] by simp
  next
    fix i assume "i < length (load_bytes (sp_bytes sp') ?va (unat (vmsize seg)))"
    then have i: "i < unat (vmsize seg)" "i < 2 ^ 64" using v64 by simp_all
    then show "load_bytes (sp_bytes sp') ?va (unat (vmsize seg)) ! i = seg_bytes seg data ! i"
      using flen fs vn
      by (simp add: load_bytes_def sp' mprotect_def store_bytes_def unat_of_nat_u64 seg_bytes_def
          nth_append over_def)
  qed
  moreover have "\<forall>i < unat (vmsize seg). sp_prot sp' (?va + of_nat i) = Some (initprot seg AND 7)"
    using vn v64 by (simp add: sp' mprotect_def over_inside in_range_offset macho_prot_to_linux_eq)
  moreover have "same_outside (in_range ?va ?n) sp sp'"
    using flen fs vn
    by (auto simp: same_outside_def sp' mprotect_def mmap_anonymous_def over_outside store_bytes_def
        in_range_def)
  ultimately show ?thesis by (simp add: seg_mapped_def)
qed

text \<open>The segments the loader maps, and their pages being disjoint without wrap-around.\<close>

definition loaded :: "segment list \<Rightarrow> segment list" where
  "loaded segs = filter (\<lambda>s. seg_name s \<noteq> ''__PAGEZERO'') segs"

definition seg_pages :: "u64 \<Rightarrow> segment \<Rightarrow> u64 \<Rightarrow> bool" where
  "seg_pages sl s = in_range (vmaddr s + sl) (round_page (vmsize s))"

definition disjoint_segs :: "u64 \<Rightarrow> segment \<Rightarrow> segment \<Rightarrow> bool" where
  "disjoint_segs sl s t \<longleftrightarrow>
     (let a = unat (vmaddr s + sl); n = round_page (vmsize s);
          b = unat (vmaddr t + sl); k = round_page (vmsize t)
      in (a + n \<le> b \<or> b + k \<le> a) \<and> a + n \<le> 2 ^ 64 \<and> b + k \<le> 2 ^ 64)"

lemma in_range_nat:
  assumes "unat a + n \<le> 2 ^ 64"
  shows "in_range a n x \<longleftrightarrow> unat a \<le> unat x \<and> unat x < unat a + n"
proof (cases "a \<le> x")
  case True
  then show ?thesis
    by (auto simp: in_range_def unat_sub word_le_nat_alt)
next
  case False
  then have lt: "unat x < unat a" by (simp add: word_le_nat_alt)
  have "unat (x - a) = 2 ^ 64 + unat x - unat a"
    using lt unsigned_less [of a] by (simp add: unat_sub_if')
  with lt assms unsigned_less [of a] show ?thesis by (simp add: in_range_def)
qed

lemma disjoint_segs_pages: "disjoint_segs sl s t \<Longrightarrow> seg_pages sl s x \<Longrightarrow> \<not> seg_pages sl t x"
  by (auto simp: disjoint_segs_def seg_pages_def in_range_nat Let_def)

lemma same_outside_mapped:
  assumes m: "seg_mapped s data sl sp" and same: "same_outside R sp sp'"
    and out: "\<And>x. seg_pages sl s x \<Longrightarrow> \<not> R x"
  shows "seg_mapped s data sl sp'"
proof -
  have "\<not> R (vmaddr s + sl + of_nat i)" if "i < unat (vmsize s)" for i
  proof (rule out)
    have "i < 2 ^ 64" using that unat_u64_lt [of "vmsize s"] by linarith
    then show "seg_pages sl s (vmaddr s + sl + of_nat i)"
      unfolding seg_pages_def using that round_page_ge [of "vmsize s"] by (intro in_range_offset) simp_all
  qed
  then have "load_bytes (sp_bytes sp') (vmaddr s + sl) (unat (vmsize s))
      = load_bytes (sp_bytes sp) (vmaddr s + sl) (unat (vmsize s))"
    and "\<forall>i < unat (vmsize s). sp_prot sp' (vmaddr s + sl + of_nat i) = sp_prot sp (vmaddr s + sl + of_nat i)"
    using same by (auto simp: load_bytes_def same_outside_def)
  with m show ?thesis by (simp add: seg_mapped_def)
qed

lemma map_segments_ok:
  assumes "fixed_honoured mm" and "\<forall>s \<in> set (loaded segs). seg_ok s data sl"
    and "sorted_wrt (disjoint_segs sl) (loaded segs)"
    and "map_segments mm mp segs data sl sp = Ok sp'"
  shows "(\<forall>s \<in> set (loaded segs). seg_mapped s data sl sp')
       \<and> same_outside (\<lambda>x. \<exists>s \<in> set (loaded segs). seg_pages sl s x) sp sp'"
  using assms
proof (induction segs arbitrary: sp)
  case Nil
  then show ?case by (simp add: loaded_def same_outside_def)
next
  case (Cons seg segs)
  show ?case
  proof (cases "seg_name seg = ''__PAGEZERO''")
    case True
    with Cons show ?thesis by (simp add: loaded_def)
  next
    case False
    have ld: "loaded (seg # segs) = seg # loaded segs" using False by (simp add: loaded_def)
    obtain sp1 where m1: "map_segment mm mp seg data sl sp = Ok sp1"
      and m2: "map_segments mm mp segs data sl sp1 = Ok sp'"
      using Cons.prems(4) False by (cases "map_segment mm mp seg data sl sp") auto
    have ok: "seg_ok seg data sl" using Cons.prems(2) ld by simp
    note here = map_segment_ok [OF ok Cons.prems(1) m1, folded seg_pages_def]
    have rest: "(\<forall>s \<in> set (loaded segs). seg_mapped s data sl sp')
        \<and> same_outside (\<lambda>x. \<exists>s \<in> set (loaded segs). seg_pages sl s x) sp1 sp'"
      using Cons.IH [OF Cons.prems(1) _ _ m2] Cons.prems(2,3) ld by simp
    have "\<forall>t \<in> set (loaded segs). disjoint_segs sl seg t" using Cons.prems(3) ld by simp
    then have dj: "\<not> (\<exists>t \<in> set (loaded segs). seg_pages sl t x)" if "seg_pages sl seg x" for x
      using that disjoint_segs_pages by blast
    have "seg_mapped seg data sl sp'"
      by (rule same_outside_mapped [OF conjunct1 [OF here] conjunct2 [OF rest] dj])
    moreover have "same_outside (\<lambda>x. \<exists>s \<in> set (loaded (seg # segs)). seg_pages sl s x) sp sp'"
      using here rest by (auto simp: ld same_outside_def)
    ultimately show ?thesis using rest ld by simp
  qed
qed

text \<open>The entry point: relative to the \<open>__TEXT\<close> base or an address of the unslid image.\<close>

definition entry_address :: "macho_binary \<Rightarrow> u64 \<Rightarrow> u64 option" where
  "entry_address b sl =
    (if entry_is_offset b
     then map_option (\<lambda>ts. vmaddr ts + sl - fileoff ts + entry_point b) (find_segment ''__TEXT'' (segments b))
     else Some (entry_point b + sl))"


definition demo_mm :: "u64 option \<Rightarrow> u64 \<Rightarrow> space \<Rightarrow> string + u64" where
  "demo_mm hint n sp = Inr (case hint of Some a \<Rightarrow> a | None \<Rightarrow> 0x7f0000000000)"

definition demo_binary :: macho_binary where
  "demo_binary = \<lparr>file_type = 2, cpu_type = CPU_TYPE_X86_64, entry_point = 2, entry_is_offset = True,
     segments = [demo_seg ''__PAGEZERO'' 0 0x100000000 0 0, demo_seg ''__TEXT'' 0x100000000 0x1000 0 4,
                 demo_seg ''__DATA'' 0x100001000 0x800 4 2],
     dylib_deps = [], rpaths = [], chained_fixups = None, exports_trie = None,
     bin_path = ''a.out'', bin_data = [0x90, 0x90, 0x0f, 0x05, 7, 8], slide = 0\<rparr>"


end
