(* ===== verification/ChainedFixups.thy ===== *)
theory ChainedFixups
  imports Mapper
begin

text \<open>
  \<open>grafted-loader/src/chained_fixups.rs\<close>: \<open>LC_DYLD_CHAINED_FIXUPS\<close>. The tables are read
  through raw pointers into the file buffer (at address \<open>dptr\<close>) and the chains live in the
  mapped segments, so both are read from one process memory. The symbol resolver is a
  closure of the caller: a parameter with a state of its own. A chain or a name may run for
  ever; \<open>None\<close> is the result of a call that does not return.
\<close>

section \<open>Imports\<close>

definition dep_of_ordinal :: "macho_binary \<Rightarrow> nat \<Rightarrow> string" where
  "dep_of_ordinal b lib_ordinal =
    (if lib_ordinal > 0 \<and> lib_ordinal < 0xFD \<and> lib_ordinal \<le> length (dylib_deps b)
     then dep_name (dylib_deps b ! (lib_ordinal - 1)) else ''self'')"

fun resolve_imports ::
  "(string \<Rightarrow> string \<Rightarrow> 's \<Rightarrow> u64 \<times> 's) \<Rightarrow> macho_binary \<Rightarrow> mem \<Rightarrow> u64 \<Rightarrow> u32 \<Rightarrow> u32
     \<Rightarrow> nat list \<Rightarrow> 's \<Rightarrow> (loader_error, u64 list \<times> 's) outcome option" where
  "resolve_imports resolve b m fd imports_offset symbols_offset [] s = Some (Ok ([], s))"
| "resolve_imports resolve b m fd imports_offset symbols_offset (i # is) s =
    (let import_raw = load32 m (fd + ucast imports_offset + of_nat i * 4);
         lib_ordinal = unat (import_raw AND 0xFF);
         name_offset = symbols_offset + drop_bit 9 import_raw
     in case cstr_from m (fd + ucast name_offset) of
          None \<Rightarrow> None
        | Some name \<Rightarrow>
            if utf8_decode name = None then Some Panic
            else
              (case resolve (dep_of_ordinal b lib_ordinal) (text_of_bytes name) s of
                 (addr, s1) \<Rightarrow>
                   (case resolve_imports resolve b m fd imports_offset symbols_offset is s1 of
                      None \<Rightarrow> None
                    | Some (Ok (as, s2)) \<Rightarrow> Some (Ok (addr # as, s2))
                    | Some (Err e) \<Rightarrow> Some (Err e)
                    | Some Panic \<Rightarrow> Some Panic)))"

section \<open>One pointer\<close>

definition nth_or_zero :: "u64 list \<Rightarrow> u64 \<Rightarrow> u64" where
  "nth_or_zero xs i = (if unat i < length xs then xs ! unat i else 0)"

text \<open>The three results of the format match: is it a bind, the next link, the value to store.\<close>

definition decode_slot :: "u16 \<Rightarrow> u64 list \<Rightarrow> u64 \<Rightarrow> u64 \<Rightarrow> (bool \<times> u64 \<times> u64) option" where
  "decode_slot ptr_format imports load_addr encoded =
    (let bind = drop_bit 63 encoded \<noteq> 0; nxt = drop_bit 51 encoded AND 0xFFF in
     if ptr_format = 1 then
       Some (bind, nxt,
         if bind then nth_or_zero imports (encoded AND 0xFFFFFF)
         else let target = encoded AND 0xFFFFFFFFF;
                  high8 = drop_bit 36 encoded AND 0xFF;
                  unpacked = push_bit 56 high8 OR target
              in if unpacked = 0 then 0 else load_addr + unpacked)
     else if ptr_format = 6 then
       Some (bind, nxt,
         if bind then
           let addend = scast (ucast (drop_bit 24 encoded AND 0xFF) :: 8 word) :: u64;
               base = nth_or_zero imports (encoded AND 0xFFFFFF)
           in if base = 0 then 0 else base + addend
         else let target = encoded AND 0xFFFFFFFFF
              in if target = 0 then 0 else load_addr + target)
     else None)"

section \<open>Chains and pages\<close>

text \<open>The slot's page is made writable (and loses the execute right), then the slot is stored.\<close>

definition patch_slot :: "u64 \<Rightarrow> u64 \<Rightarrow> space \<Rightarrow> space" where
  "patch_slot p v sp =
    (let sp1 = mprotect (p AND NOT 0xFFF) 4096 (PROT_READ OR PROT_WRITE) sp
     in sp1\<lparr>sp_bytes := store64 (sp_bytes sp1) p v\<rparr>)"

partial_function (option) walk_chain ::
  "u16 \<Rightarrow> u64 list \<Rightarrow> u64 \<Rightarrow> u64 \<Rightarrow> space \<Rightarrow> space option" where
  "walk_chain ptr_format imports load_addr p sp =
    (case decode_slot ptr_format imports load_addr (load64 (sp_bytes sp) p) of
       None \<Rightarrow> Some sp
     | Some (is_bind, nxt, addr) \<Rightarrow>
         let sp1 = patch_slot p addr sp
         in if nxt = 0 then Some sp1
            else walk_chain ptr_format imports load_addr (p + nxt * 4) sp1)"

definition page_start :: "mem \<Rightarrow> u64 \<Rightarrow> nat \<Rightarrow> u16" where
  "page_start m pages_ptr j = load16 m (pages_ptr + of_nat j * 2)"

definition chain_head :: "u64 \<Rightarrow> u16 \<Rightarrow> nat \<Rightarrow> u16 \<Rightarrow> u64" where
  "chain_head seg_addr page_size j start = seg_addr + of_nat j * ucast page_size + ucast start"

fun fix_pages ::
  "u16 \<Rightarrow> u64 list \<Rightarrow> u64 \<Rightarrow> u64 \<Rightarrow> u16 \<Rightarrow> u64 \<Rightarrow> nat list \<Rightarrow> space \<Rightarrow> space option" where
  "fix_pages ptr_format imports load_addr seg_addr page_size pages_ptr [] sp = Some sp"
| "fix_pages ptr_format imports load_addr seg_addr page_size pages_ptr (j # js) sp =
    (let start = page_start (sp_bytes sp) pages_ptr j in
     if start = 0xFFFF then fix_pages ptr_format imports load_addr seg_addr page_size pages_ptr js sp
     else (case walk_chain ptr_format imports load_addr (chain_head seg_addr page_size j start) sp of
             None \<Rightarrow> None
           | Some sp1 \<Rightarrow> fix_pages ptr_format imports load_addr seg_addr page_size pages_ptr js sp1))"

fun fix_segments ::
  "macho_binary \<Rightarrow> u64 list \<Rightarrow> u64 \<Rightarrow> u64 \<Rightarrow> nat list \<Rightarrow> space \<Rightarrow> space option" where
  "fix_segments b imports load_addr starts_ptr [] sp = Some sp"
| "fix_segments b imports load_addr starts_ptr (i # is) sp =
    (let m = sp_bytes sp; seg_info_offset = load32 m (starts_ptr + 4 + of_nat i * 4) in
     if seg_info_offset = 0 then fix_segments b imports load_addr starts_ptr is sp
     else
       let seg_starts = starts_ptr + ucast seg_info_offset in
       if i \<ge> length (segments b) then fix_segments b imports load_addr starts_ptr is sp
       else
         let seg = segments b ! i in
         if seg_name seg = ''__PAGEZERO'' then fix_segments b imports load_addr starts_ptr is sp
         else
           (case fix_pages (load16 m (seg_starts + 6)) imports load_addr (vmaddr seg + slide b)
                   (load16 m (seg_starts + 4)) (seg_starts + 22)
                   [0..<unat (load16 m (seg_starts + 20))] sp of
              None \<Rightarrow> None
            | Some sp1 \<Rightarrow> fix_segments b imports load_addr starts_ptr is sp1))"

definition apply_fixups ::
  "(string \<Rightarrow> string \<Rightarrow> 's \<Rightarrow> u64 \<times> 's) \<Rightarrow> macho_binary \<Rightarrow> u64 \<Rightarrow> space \<Rightarrow> 's
     \<Rightarrow> (loader_error, 's \<times> space) outcome option" where
  "apply_fixups resolve b dptr sp s =
    (case chained_fixups b of
       None \<Rightarrow> Some (Ok (s, sp))
     | Some (off, sz) \<Rightarrow>
         if unat off > unat (off + sz) \<or> unat (off + sz) > length (bin_data b) then Some Panic
         else
           let m = sp_bytes sp; fd = dptr + ucast off;
               preferred = (case find_segment ''__TEXT'' (segments b) of Some t \<Rightarrow> vmaddr t | None \<Rightarrow> 0)
           in case resolve_imports resolve b m fd (load32 m (fd + 8)) (load32 m (fd + 12))
                     [0..<unat (load32 m (fd + 16))] s of
                None \<Rightarrow> None
              | Some (Err e) \<Rightarrow> Some (Err e)
              | Some Panic \<Rightarrow> Some Panic
              | Some (Ok (imports, s1)) \<Rightarrow>
                  (let starts_ptr = fd + ucast (load32 m (fd + 4))
                   in case fix_segments b imports (preferred + slide b) starts_ptr
                             [0..<unat (load32 m starts_ptr)] sp of
                        None \<Rightarrow> None
                      | Some sp1 \<Rightarrow> Some (Ok (s1, sp1))))"

section \<open>What a chain is\<close>

definition slots_apart :: "u64 \<Rightarrow> u64 \<Rightarrow> bool" where
  "slots_apart p q \<longleftrightarrow> apart p 8 q 8 \<and> apart q 8 p 8"

text \<open>\<open>chain_at fmt m p ps\<close>: the chain that starts at \<open>p\<close> visits the slots \<open>ps\<close> and ends.\<close>

fun chain_at :: "u16 \<Rightarrow> mem \<Rightarrow> u64 \<Rightarrow> u64 list \<Rightarrow> bool" where
  "chain_at fmt m p [] = False"
| "chain_at fmt m p (q # qs) =
    (p = q \<and> (let nxt = drop_bit 51 (load64 m p) AND 0xFFF
              in if nxt = 0 then qs = [] else chain_at fmt m (p + nxt * 4) qs))"

definition slot_value :: "u16 \<Rightarrow> u64 list \<Rightarrow> u64 \<Rightarrow> u64 \<Rightarrow> u64" where
  "slot_value fmt imports load_addr encoded =
    (case decode_slot fmt imports load_addr encoded of Some (_, _, v) \<Rightarrow> v | None \<Rightarrow> encoded)"

definition slot_pages_rw :: "u64 list \<Rightarrow> space \<Rightarrow> space \<Rightarrow> bool" where
  "slot_pages_rw ps sp sp' \<longleftrightarrow>
     (\<forall>x. (\<exists>p \<in> set ps. in_range (p AND NOT 0xFFF) 4096 x) \<longrightarrow> sp_prot sp' x = Some 3)
   \<and> (\<forall>x. \<not> (\<exists>p \<in> set ps. in_range (p AND NOT 0xFFF) 4096 x) \<longrightarrow> sp_prot sp' x = sp_prot sp x)"

text \<open>Every slot decoded, every other byte as before, exactly the slots' pages opened for writing.\<close>

definition rewritten :: "u16 \<Rightarrow> u64 list \<Rightarrow> u64 \<Rightarrow> u64 list \<Rightarrow> space \<Rightarrow> space \<Rightarrow> bool" where
  "rewritten fmt imports load_addr ps sp sp' \<longleftrightarrow>
     (\<forall>p \<in> set ps. load64 (sp_bytes sp') p = slot_value fmt imports load_addr (load64 (sp_bytes sp) p))
   \<and> (\<forall>x. \<not> (\<exists>p \<in> set ps. in_range p 8 x) \<longrightarrow> sp_bytes sp' x = sp_bytes sp x)
   \<and> slot_pages_rw ps sp sp'"

lemma decode_next:
  "fmt = 1 \<or> fmt = 6 \<Longrightarrow> \<exists>bind. decode_slot fmt imports la e
     = Some (bind, drop_bit 51 e AND 0xFFF, slot_value fmt imports la e)"
  by (auto simp: decode_slot_def slot_value_def Let_def)

lemma patch_slot_bytes: "sp_bytes (patch_slot p v sp) = store64 (sp_bytes sp) p v"
  by (simp add: patch_slot_def mprotect_def)

lemma patch_slot_prot:
  "sp_prot (patch_slot p v sp) x
     = (if in_range (p AND NOT 0xFFF) 4096 x then Some 3 else sp_prot sp x)"
  by (simp add: patch_slot_def mprotect_def over_def in_range_def round_page_def PROT_READ_def PROT_WRITE_def)

lemma store64_outside: "\<not> in_range p 8 x \<Longrightarrow> store64 m p v x = m x"
  by (simp add: store64_def store_bytes_def in_range_def le_bytes64_def)

lemma rewritten_Nil: "rewritten fmt imports la [] sp sp"
  by (simp add: rewritten_def slot_pages_rw_def)

lemma rewritten_one: "rewritten fmt imports la [p] sp
    (patch_slot p (slot_value fmt imports la (load64 (sp_bytes sp) p)) sp)"
  by (simp add: rewritten_def slot_pages_rw_def patch_slot_bytes patch_slot_prot store64_outside)

lemma in_range_ex: "in_range p 8 x \<Longrightarrow> \<exists>i < 8. x = p + of_nat i"
  by (intro exI [of _ "unat (x - p)"]) (simp add: in_range_def)

lemma slots_apart_range: "slots_apart p q \<Longrightarrow> in_range p 8 x \<Longrightarrow> \<not> in_range q 8 x"
  by (metis apart_def in_range_ex slots_apart_def)

lemma load64_cong: "(\<And>x. in_range p 8 x \<Longrightarrow> m' x = m x) \<Longrightarrow> load64 m' p = load64 m p"
  unfolding load64_def load_bytes_def
  by (intro arg_cong [where f = u64_from_le] map_cong refl) (simp add: in_range_offset)

lemma rewritten_load_other:
  assumes "rewritten fmt imports la ps sp sp'" and "\<forall>p \<in> set ps. slots_apart p q"
  shows "load64 (sp_bytes sp') q = load64 (sp_bytes sp) q"
proof (rule load64_cong)
  fix x assume "in_range q 8 x"
  then have "\<not> (\<exists>p \<in> set ps. in_range p 8 x)" using assms(2) slots_apart_range by blast
  then show "sp_bytes sp' x = sp_bytes sp x" using assms(1) by (simp add: rewritten_def)
qed

lemma rewritten_append:
  assumes a: "rewritten fmt imports la ps sp sp1" and b: "rewritten fmt imports la qs sp1 sp2"
    and d: "\<forall>p \<in> set ps. \<forall>q \<in> set qs. slots_apart p q"
  shows "rewritten fmt imports la (ps @ qs) sp sp2"
proof -
  have "load64 (sp_bytes sp2) p = slot_value fmt imports la (load64 (sp_bytes sp) p)" if p: "p \<in> set ps" for p
  proof -
    have "\<forall>q \<in> set qs. slots_apart q p" using d p by (auto simp: slots_apart_def)
    then have "load64 (sp_bytes sp2) p = load64 (sp_bytes sp1) p" by (rule rewritten_load_other [OF b])
    with a p show ?thesis by (simp add: rewritten_def)
  qed
  moreover have "load64 (sp_bytes sp2) q = slot_value fmt imports la (load64 (sp_bytes sp) q)"
    if q: "q \<in> set qs" for q
  proof -
    have "\<forall>p \<in> set ps. slots_apart p q" using d q by blast
    then have "load64 (sp_bytes sp1) q = load64 (sp_bytes sp) q" by (rule rewritten_load_other [OF a])
    with b q show ?thesis by (simp add: rewritten_def)
  qed
  moreover have "slot_pages_rw (ps @ qs) sp sp2"
    using a b unfolding rewritten_def slot_pages_rw_def set_append by (metis Un_iff)
  moreover have "\<forall>x. \<not> (\<exists>p \<in> set (ps @ qs). in_range p 8 x) \<longrightarrow> sp_bytes sp2 x = sp_bytes sp x"
    using a b by (simp add: rewritten_def)
  ultimately show ?thesis by (auto simp: rewritten_def)
qed

lemma chain_at_cong:
  "(\<And>q. q \<in> set ps \<Longrightarrow> load64 m' q = load64 m q) \<Longrightarrow> chain_at fmt m' p ps = chain_at fmt m p ps"
  by (induction ps arbitrary: p) (auto simp: Let_def)

lemma walk_chain_rewrites:
  assumes "fmt = 1 \<or> fmt = 6" and "chain_at fmt (sp_bytes sp) p ps" and "sorted_wrt slots_apart ps"
  shows "\<exists>sp'. walk_chain fmt imports la p sp = Some sp' \<and> rewritten fmt imports la ps sp sp'"
  using assms(2,3)
proof (induction ps arbitrary: p sp)
  case Nil
  then show ?case by simp
next
  case (Cons q qs)
  let ?e = "load64 (sp_bytes sp) p" and ?n = "drop_bit 51 (load64 (sp_bytes sp) p) AND 0xFFF"
  let ?sp1 = "patch_slot p (slot_value fmt imports la ?e) sp"
  from Cons.prems have q: "q = p" by (simp add: Let_def)
  obtain bind where d: "decode_slot fmt imports la ?e = Some (bind, ?n, slot_value fmt imports la ?e)"
    using decode_next [OF assms(1)] by blast
  have one: "rewritten fmt imports la [p] sp ?sp1" by (rule rewritten_one)
  show ?case
  proof (cases "?n = 0")
    case True
    with Cons.prems have "qs = []" by (simp add: Let_def)
    with True d one show ?thesis by (subst walk_chain.simps) (simp add: q Let_def)
  next
    case False
    with Cons.prems have c: "chain_at fmt (sp_bytes sp) (p + ?n * 4) qs" by (simp add: Let_def q)
    have far: "\<forall>r \<in> set qs. slots_apart p r" using Cons.prems(2) q by simp
    have "chain_at fmt (sp_bytes ?sp1) (p + ?n * 4) qs"
      using c chain_at_cong [of qs "sp_bytes ?sp1" "sp_bytes sp" fmt "p + ?n * 4"]
        rewritten_load_other [OF one] far by auto
    from Cons.IH [OF this] Cons.prems(2) obtain sp' where
      w: "walk_chain fmt imports la (p + ?n * 4) ?sp1 = Some sp'" "rewritten fmt imports la qs ?sp1 sp'"
      by auto
    have "walk_chain fmt imports la p sp = Some sp'"
      using d w(1) False by (subst walk_chain.simps) (simp add: Let_def)
    moreover have "rewritten fmt imports la ([p] @ qs) sp sp'"
      using rewritten_append [OF one w(2)] far by simp
    ultimately show ?thesis by (simp add: q)
  qed
qed

text \<open>The chain of page \<open>j\<close>: none where the table says \<open>0xFFFF\<close>.\<close>

definition page_chain :: "u16 \<Rightarrow> mem \<Rightarrow> u64 \<Rightarrow> u16 \<Rightarrow> u64 \<Rightarrow> nat \<Rightarrow> u64 list \<Rightarrow> bool" where
  "page_chain fmt m seg_addr page_size pages_ptr j ps \<longleftrightarrow>
    (let start = page_start m pages_ptr j in
     if start = 0xFFFF then ps = [] else chain_at fmt m (chain_head seg_addr page_size j start) ps)"

text \<open>No slot lies over the two bytes of a page-table entry.\<close>

definition table_safe :: "u64 \<Rightarrow> nat list \<Rightarrow> u64 list \<Rightarrow> bool" where
  "table_safe pages_ptr js ps \<longleftrightarrow> (\<forall>j \<in> set js. \<forall>p \<in> set ps. apart (pages_ptr + of_nat j * 2) 2 p 8)"

lemma apart_in_range: "apart a n p 8 \<Longrightarrow> i < n \<Longrightarrow> \<not> in_range p 8 (a + of_nat i)"
  by (metis apart_def in_range_ex)

lemma rewritten_page_start:
  assumes "rewritten fmt imports la ps sp sp'" and "\<forall>p \<in> set ps. apart (pages_ptr + of_nat j * 2) 2 p 8"
  shows "page_start (sp_bytes sp') pages_ptr j = page_start (sp_bytes sp) pages_ptr j"
proof -
  have "sp_bytes sp' (pages_ptr + of_nat j * 2 + of_nat i) = sp_bytes sp (pages_ptr + of_nat j * 2 + of_nat i)"
    if "i < 2" for i
    using assms that apart_in_range unfolding rewritten_def by blast
  then show ?thesis
    unfolding page_start_def load16_def load_bytes_def
    by (intro arg_cong [where f = or_bytes] map_cong refl) simp
qed

lemma fix_pages_induct:
  assumes fmt: "fmt = 1 \<or> fmt = 6"
  shows "list_all2 (page_chain fmt (sp_bytes sp) sa psz pp) js css \<Longrightarrow> sorted_wrt slots_apart (concat css)
     \<Longrightarrow> table_safe pp js (concat css)
     \<Longrightarrow> \<exists>sp'. fix_pages fmt imports la sa psz pp js sp = Some sp'
               \<and> rewritten fmt imports la (concat css) sp sp'"
proof (induction js arbitrary: css sp)
  case Nil
  then show ?case by (simp add: rewritten_Nil)
next
  case (Cons j js)
  then obtain ps css' where css: "css = ps # css'" and pc: "page_chain fmt (sp_bytes sp) sa psz pp j ps"
    and rest: "list_all2 (page_chain fmt (sp_bytes sp) sa psz pp) js css'"
    by (auto simp: list_all2_Cons1)
  have srt: "sorted_wrt slots_apart ps" "sorted_wrt slots_apart (concat css')"
    "\<forall>p \<in> set ps. \<forall>q \<in> set (concat css'). slots_apart p q"
    using Cons.prems(2) by (simp_all add: css sorted_wrt_append)
  have safe: "table_safe pp js (concat css')" "table_safe pp (j # js) ps"
    using Cons.prems(3) by (auto simp: css table_safe_def)
  let ?st = "page_start (sp_bytes sp) pp j"
  show ?case
  proof (cases "?st = 0xFFFF")
    case True
    with pc have "ps = []" by (simp add: page_chain_def)
    with True Cons.IH [OF rest srt(2) safe(1)] show ?thesis by (simp add: css Let_def)
  next
    case False
    with pc have "chain_at fmt (sp_bytes sp) (chain_head sa psz j ?st) ps" by (simp add: page_chain_def Let_def)
    from walk_chain_rewrites [OF fmt this srt(1)] obtain sp1 where
      w: "walk_chain fmt imports la (chain_head sa psz j ?st) sp = Some sp1" and
      r: "rewritten fmt imports la ps sp sp1" by blast
    have keep: "page_chain fmt (sp_bytes sp1) sa psz pp i qs"
      if "i \<in> set js" "qs \<in> set css'" "page_chain fmt (sp_bytes sp) sa psz pp i qs" for i qs
    proof -
      have "page_start (sp_bytes sp1) pp i = page_start (sp_bytes sp) pp i"
        using rewritten_page_start [OF r] safe(2) that(1) by (simp add: table_safe_def)
      moreover have "load64 (sp_bytes sp1) q = load64 (sp_bytes sp) q" if "q \<in> set qs" for q
        using rewritten_load_other [OF r] srt(3) \<open>qs \<in> set css'\<close> that by auto
      ultimately show ?thesis
        using that(3) chain_at_cong [of qs "sp_bytes sp1" "sp_bytes sp" fmt] by (simp add: page_chain_def Let_def)
    qed
    have "list_all2 (page_chain fmt (sp_bytes sp1) sa psz pp) js css'"
      using rest keep by (auto simp: list_all2_conv_all_nth)
    from Cons.IH [OF this srt(2) safe(1)] obtain sp' where
      f: "fix_pages fmt imports la sa psz pp js sp1 = Some sp'" "rewritten fmt imports la (concat css') sp1 sp'"
      by blast
    from rewritten_append [OF r f(2) srt(3)] f(1) w False show ?thesis by (simp add: css Let_def)
  qed
qed

section \<open>The whole image\<close>

definition seg_table :: "mem \<Rightarrow> u64 \<Rightarrow> nat \<Rightarrow> u64" where
  "seg_table m starts_ptr i = starts_ptr + ucast (load32 m (starts_ptr + 4 + of_nat i * 4))"

definition seg_skipped :: "macho_binary \<Rightarrow> mem \<Rightarrow> u64 \<Rightarrow> nat \<Rightarrow> bool" where
  "seg_skipped b m starts_ptr i \<longleftrightarrow>
     load32 m (starts_ptr + 4 + of_nat i * 4) = 0 \<or> i \<ge> length (segments b)
   \<or> seg_name (segments b ! i) = ''__PAGEZERO''"

text \<open>The chains of entry \<open>i\<close> of the starts table, page by page.\<close>

definition seg_chains :: "u16 \<Rightarrow> macho_binary \<Rightarrow> mem \<Rightarrow> u64 \<Rightarrow> nat \<Rightarrow> u64 list list \<Rightarrow> bool" where
  "seg_chains fmt b m starts_ptr i css \<longleftrightarrow>
     (if seg_skipped b m starts_ptr i then css = []
      else let ss = seg_table m starts_ptr i in
        load16 m (ss + 6) = fmt
      \<and> list_all2 (page_chain fmt m (vmaddr (segments b ! i) + slide b) (load16 m (ss + 4)) (ss + 22))
          [0..<unat (load16 m (ss + 20))] css)"

text \<open>No slot lies over the starts table.\<close>

definition starts_safe :: "mem \<Rightarrow> u64 \<Rightarrow> nat list \<Rightarrow> u64 list \<Rightarrow> bool" where
  "starts_safe m starts_ptr is ps \<longleftrightarrow> (\<forall>p \<in> set ps. \<forall>i \<in> set is.
     apart (starts_ptr + 4 + of_nat i * 4) 4 p 8
   \<and> apart (seg_table m starts_ptr i) (22 + 2 * unat (load16 m (seg_table m starts_ptr i + 20))) p 8)"

lemma rewritten_load_bytes:
  assumes "rewritten fmt imports la ps sp sp'" and "\<forall>p \<in> set ps. apart a n p 8"
  shows "load_bytes (sp_bytes sp') a n = load_bytes (sp_bytes sp) a n"
proof -
  have "sp_bytes sp' (a + of_nat i) = sp_bytes sp (a + of_nat i)" if "i < n" for i
    using assms that apart_in_range unfolding rewritten_def by blast
  then show ?thesis by (simp add: load_bytes_def)
qed

lemma starts_safe_sub:
  assumes "starts_safe m starts_ptr is ps" and "i \<in> set is" and "p \<in> set ps"
    and "d + l \<le> 22 + 2 * unat (load16 m (seg_table m starts_ptr i + 20))"
  shows "apart (seg_table m starts_ptr i + of_nat d) l p 8"
  using assms by (intro apart_sub) (auto simp: starts_safe_def)

lemma seg_table_keep:
  assumes r: "rewritten fmt imports la ps sp sp'" and safe: "starts_safe (sp_bytes sp) st ns ps"
    and i: "i \<in> set ns"
  shows "load32 (sp_bytes sp') (st + 4 + of_nat i * 4) = load32 (sp_bytes sp) (st + 4 + of_nat i * 4)"
    and "seg_table (sp_bytes sp') st i = seg_table (sp_bytes sp) st i"
    and "d + 2 \<le> 22 + 2 * unat (load16 (sp_bytes sp) (seg_table (sp_bytes sp) st i + 20))
       \<Longrightarrow> load16 (sp_bytes sp') (seg_table (sp_bytes sp) st i + of_nat d)
         = load16 (sp_bytes sp) (seg_table (sp_bytes sp) st i + of_nat d)"
proof -
  let ?m = "sp_bytes sp" and ?m' = "sp_bytes sp'"
  show l32: "load32 ?m' (st + 4 + of_nat i * 4) = load32 ?m (st + 4 + of_nat i * 4)"
    unfolding load32_def using rewritten_load_bytes [OF r] safe i by (simp add: starts_safe_def)
  then show "seg_table ?m' st i = seg_table ?m st i" by (simp add: seg_table_def)
  assume d: "d + 2 \<le> 22 + 2 * unat (load16 ?m (seg_table ?m st i + 20))"
  have "\<forall>p \<in> set ps. apart (seg_table ?m st i + of_nat d) 2 p 8"
    using starts_safe_sub [OF safe i _ d] by simp
  from rewritten_load_bytes [OF r this]
  show "load16 ?m' (seg_table ?m st i + of_nat d) = load16 ?m (seg_table ?m st i + of_nat d)"
    by (simp add: load16_def)
qed

lemma starts_safe_keep:
  assumes "rewritten fmt imports la ps sp sp'" and "starts_safe (sp_bytes sp) st ns ps"
    and "starts_safe (sp_bytes sp) st ns qs"
  shows "starts_safe (sp_bytes sp') st ns qs"
  using assms(3) seg_table_keep(2) [OF assms(1,2)] seg_table_keep(3) [OF assms(1,2), of _ 20]
  by (simp add: starts_safe_def)

lemma page_chain_cong:
  assumes "page_start m' pp j = page_start m pp j" and "\<And>q. q \<in> set qs \<Longrightarrow> load64 m' q = load64 m q"
  shows "page_chain fmt m' sa psz pp j qs = page_chain fmt m sa psz pp j qs"
  using chain_at_cong [of qs m' m] assms by (simp add: page_chain_def)

lemma list_all2_weaken:
  assumes "list_all2 P xs ys" and "\<And>x y. x \<in> set xs \<Longrightarrow> y \<in> set ys \<Longrightarrow> P x y \<Longrightarrow> Q x y"
  shows "list_all2 Q xs ys"
  using assms by (simp add: list_all2_conv_all_nth)

lemma seg_chains_keep:
  assumes r: "rewritten fmt imports la ps sp sp'" and safe: "starts_safe (sp_bytes sp) st ns ps"
    and i: "i \<in> set ns" and far: "\<forall>p \<in> set ps. \<forall>q \<in> set (concat css). slots_apart p q"
    and c: "seg_chains fmt b (sp_bytes sp) st i css"
  shows "seg_chains fmt b (sp_bytes sp') st i css"
proof -
  let ?m = "sp_bytes sp" and ?m' = "sp_bytes sp'" and ?ss = "seg_table (sp_bytes sp) st i"
  note keep = seg_table_keep [OF r safe i]
  have hd: "load16 ?m' (?ss + 4) = load16 ?m (?ss + 4)" "load16 ?m' (?ss + 6) = load16 ?m (?ss + 6)"
      "load16 ?m' (?ss + 20) = load16 ?m (?ss + 20)"
    using keep(3) [of 4] keep(3) [of 6] keep(3) [of 20] by simp_all
  have pg: "page_start ?m' (?ss + 22) j = page_start ?m (?ss + 22) j"
    if "j < unat (load16 ?m (?ss + 20))" for j
  proof -
    have "(of_nat (22 + 2 * j) :: u64) = 22 + of_nat j * 2" by simp
    then show ?thesis using keep(3) [of "22 + 2 * j"] that unfolding page_start_def by (simp add: add.assoc mult.commute)
  qed
  have ld: "load64 ?m' q = load64 ?m q" if "q \<in> set (concat css)" for q
    using rewritten_load_other [OF r] far that by blast
  have sk: "seg_skipped b ?m' st i = seg_skipped b ?m st i" by (simp add: seg_skipped_def keep(1))
  show ?thesis
  proof (cases "seg_skipped b ?m st i")
    case True
    with c show ?thesis by (simp add: seg_chains_def sk)
  next
    case False
    with c have f: "load16 ?m (?ss + 6) = fmt" and l: "list_all2 (page_chain fmt ?m (vmaddr (segments b ! i)
        + slide b) (load16 ?m (?ss + 4)) (?ss + 22)) [0..<unat (load16 ?m (?ss + 20))] css"
      by (simp_all add: seg_chains_def Let_def)
    have "list_all2 (page_chain fmt ?m' (vmaddr (segments b ! i) + slide b) (load16 ?m (?ss + 4)) (?ss + 22))
        [0..<unat (load16 ?m (?ss + 20))] css"
    proof (rule list_all2_weaken [OF l])
      fix j qs assume j: "j \<in> set [0..<unat (load16 ?m (?ss + 20))]" and qs: "qs \<in> set css"
        and p: "page_chain fmt ?m (vmaddr (segments b ! i) + slide b) (load16 ?m (?ss + 4)) (?ss + 22) j qs"
      have "load64 ?m' q = load64 ?m q" if "q \<in> set qs" for q using ld qs that by auto
      from page_chain_cong [OF pg this] j p
      show "page_chain fmt ?m' (vmaddr (segments b ! i) + slide b) (load16 ?m (?ss + 4)) (?ss + 22) j qs" by simp
    qed
    with f False show ?thesis by (simp add: seg_chains_def sk Let_def keep(2) hd)
  qed
qed

lemma fix_segments_rewrites:
  assumes fmt: "fmt = 1 \<or> fmt = 6"
  shows "list_all2 (seg_chains fmt b (sp_bytes sp) st) ns csss
     \<Longrightarrow> sorted_wrt slots_apart (concat (concat csss))
     \<Longrightarrow> starts_safe (sp_bytes sp) st ns (concat (concat csss))
     \<Longrightarrow> \<exists>sp'. fix_segments b imports la st ns sp = Some sp'
               \<and> rewritten fmt imports la (concat (concat csss)) sp sp'"
proof (induction ns arbitrary: csss sp)
  case Nil
  then show ?case by (simp add: rewritten_Nil)
next
  case (Cons i ns)
  let ?m = "sp_bytes sp"
  obtain css csss' where e: "csss = css # csss'" and c: "seg_chains fmt b ?m st i css"
    and rest: "list_all2 (seg_chains fmt b ?m st) ns csss'"
    using Cons.prems(1) by (auto simp: list_all2_Cons1)
  have srt: "sorted_wrt slots_apart (concat css)" "sorted_wrt slots_apart (concat (concat csss'))"
      "\<forall>p \<in> set (concat css). \<forall>q \<in> set (concat (concat csss')). slots_apart p q"
    using Cons.prems(2) by (simp_all add: e sorted_wrt_append)
  have safe: "starts_safe ?m st (i # ns) (concat css)" "starts_safe ?m st ns (concat css)"
      "starts_safe ?m st ns (concat (concat csss'))"
    using Cons.prems(3) by (auto simp: starts_safe_def e)
  show ?case
  proof (cases "seg_skipped b ?m st i")
    case True
    with c have "css = []" by (simp add: seg_chains_def)
    moreover have "fix_segments b imports la st (i # ns) sp = fix_segments b imports la st ns sp"
      using True by (auto simp: seg_skipped_def Let_def)
    ultimately show ?thesis using Cons.IH [OF rest srt(2) safe(3)] by (simp add: e)
  next
    case False
    let ?ss = "seg_table ?m st i"
    have pgs: "list_all2 (page_chain fmt ?m (vmaddr (segments b ! i) + slide b) (load16 ?m (?ss + 4)) (?ss + 22))
          [0..<unat (load16 ?m (?ss + 20))] css" and f: "load16 ?m (?ss + 6) = fmt"
      using c False by (simp_all add: seg_chains_def Let_def)
    have "apart (?ss + 22 + of_nat j * 2) 2 p 8"
      if "j < unat (load16 ?m (?ss + 20))" "p \<in> set (concat css)" for j p
      using starts_safe_sub [OF safe(1) _ that(2), of i "22 + 2 * j" 2] that(1) by (simp add: add.assoc mult.commute)
    then have ts: "table_safe (?ss + 22) [0..<unat (load16 ?m (?ss + 20))] (concat css)"
      by (simp add: table_safe_def)
    from fix_pages_induct [OF fmt pgs srt(1) ts] obtain sp1 where
      w: "fix_pages fmt imports la (vmaddr (segments b ! i) + slide b) (load16 ?m (?ss + 4)) (?ss + 22)
            [0..<unat (load16 ?m (?ss + 20))] sp = Some sp1"
      and r: "rewritten fmt imports la (concat css) sp sp1" by blast
    have l: "list_all2 (seg_chains fmt b (sp_bytes sp1) st) ns csss'"
    proof (rule list_all2_weaken [OF rest])
      fix k ks assume k: "k \<in> set ns" and ks: "ks \<in> set csss'" and p: "seg_chains fmt b ?m st k ks"
      have "\<forall>p \<in> set (concat css). \<forall>q \<in> set (concat ks). slots_apart p q"
        using srt(3) ks by auto
      from seg_chains_keep [OF r safe(2) k this p] show "seg_chains fmt b (sp_bytes sp1) st k ks" .
    qed
    from Cons.IH [OF l srt(2) starts_safe_keep [OF r safe(2,3)]] obtain sp' where
      g: "fix_segments b imports la st ns sp1 = Some sp'" "rewritten fmt imports la (concat (concat csss')) sp1 sp'"
      by blast
    have "fix_segments b imports la st (i # ns) sp = Some sp'"
      using False w f g(1) by (simp add: seg_skipped_def Let_def seg_table_def)
    with rewritten_append [OF r g(2) srt(3)] show ?thesis by (simp add: e)
  qed
qed

text \<open>
  C27. Applying the chained fixups of an image: when the imports resolve and the starts table
  describes chains of format 1 or 6 whose slots do not overlap each other or the table, the
  call returns, stores in every slot the address its encoding stands for (the resolved
  import, the rebased target, null for null), changes no other byte, and opens exactly the
  slots' pages for writing.
\<close>

theorem apply_fixups_rewrites:
  fixes b :: macho_binary and sp :: space and dptr :: u64
  defines "m \<equiv> sp_bytes sp"
  assumes fx: "chained_fixups b = Some (off, sz)"
    and rng: "unat off \<le> unat (off + sz)" "unat (off + sz) \<le> length (bin_data b)"
    and fmt: "fmt = 1 \<or> fmt = 6"
    and imp: "resolve_imports resolve b m (dptr + ucast off) (load32 m (dptr + ucast off + 8))
        (load32 m (dptr + ucast off + 12)) [0..<unat (load32 m (dptr + ucast off + 16))] s
      = Some (Ok (imports, s1))"
    and st: "st = dptr + ucast off + ucast (load32 m (dptr + ucast off + 4))"
    and ch: "list_all2 (seg_chains fmt b m st) [0..<unat (load32 m st)] csss"
    and ap: "sorted_wrt slots_apart (concat (concat csss))"
    and sf: "starts_safe m st [0..<unat (load32 m st)] (concat (concat csss))"
    and la: "la = (case find_segment ''__TEXT'' (segments b) of Some t \<Rightarrow> vmaddr t | None \<Rightarrow> 0) + slide b"
  shows "\<exists>sp'. apply_fixups resolve b dptr sp s = Some (Ok (s1, sp'))
             \<and> rewritten fmt imports la (concat (concat csss)) sp sp'"
proof -
  from fix_segments_rewrites [OF fmt ch [unfolded m_def] ap sf [unfolded m_def]] obtain sp' where
    "fix_segments b imports la st [0..<unat (load32 m st)] sp = Some sp'"
    "rewritten fmt imports la (concat (concat csss)) sp sp'"
    unfolding m_def by blast
  then show ?thesis
    using fx rng imp by (simp add: apply_fixups_def Let_def m_def st la)
qed

definition demo_fixup_data :: "u8 list" where
  "demo_fixup_data = [0, 0, 0, 0, 28, 0, 0, 0, 60, 0, 0, 0, 64, 0, 0, 0, 1, 0, 0, 0, 1, 0, 0, 0, 0, 0, 0, 0,
     1, 0, 0, 0, 8, 0, 0, 0,
     24, 0, 0, 0, 0, 16, 6, 0, 0, 0, 0, 0, 0, 0, 0, 0, 0, 0, 0, 0, 1, 0, 0, 0,
     1, 0, 0, 0, 95, 102, 0]"

text \<open>A rebase to offset 10 linked to a bind of import 0.\<close>

definition demo_fixup_space :: space where
  "demo_fixup_space =
    \<lparr>sp_bytes = store_bytes (store64 (store64 (\<lambda>_. 0) 0x4000 0x0010000000000010) 0x4008 0x8000000000000000)
                  0x1000 demo_fixup_data,
     sp_prot = (\<lambda>_. Some 5)\<rparr>"

definition demo_fixup_binary :: macho_binary where
  "demo_fixup_binary = demo_binary\<lparr>segments := [demo_seg ''__DATA'' 0x3000 0x1000 0 0],
     chained_fixups := Some (0, 67), bin_data := demo_fixup_data, slide := 0x1000,
     dylib_deps := [\<lparr>dep_name = ''libSystem'', current_version = 0, compat_version = 0\<rparr>]\<rparr>"

lemma demo_data_length: "length demo_fixup_data = 67"
  by (simp add: demo_fixup_data_def)

lemma demo_word_lookup:
  assumes "0x1000 \<le> a" and "a < 0x1043"
  shows "sp_bytes demo_fixup_space a = demo_fixup_data ! unat (a - 0x1000)"
proof -
  have "unat (a - 0x1000) < 67"
    using assms by (simp add: word_le_nat_alt word_less_nat_alt unat_sub)
  then show ?thesis by (simp add: demo_fixup_space_def store_bytes_def demo_data_length)
qed

lemma demo_words:
  "load32 (sp_bytes demo_fixup_space) 0x1004 = 28" "load32 (sp_bytes demo_fixup_space) 0x1008 = 60"
  "load32 (sp_bytes demo_fixup_space) 0x100c = 64" "load32 (sp_bytes demo_fixup_space) 0x1010 = 1"
  "load32 (sp_bytes demo_fixup_space) 0x101c = 1" "load32 (sp_bytes demo_fixup_space) 0x1020 = 8"
  "load32 (sp_bytes demo_fixup_space) 0x103c = 1"
  "load16 (sp_bytes demo_fixup_space) 0x1028 = 0x1000" "load16 (sp_bytes demo_fixup_space) 0x102a = 6"
  "load16 (sp_bytes demo_fixup_space) 0x1038 = 1" "load16 (sp_bytes demo_fixup_space) 0x103a = 0"
  by (simp_all add: load32_def load16_def load_bytes_unfold demo_word_lookup demo_fixup_data_def
      u32_from_le_def)

lemma demo_slots:
  "load64 (sp_bytes demo_fixup_space) 0x4000 = 0x0010000000000010"
  "load64 (sp_bytes demo_fixup_space) 0x4008 = 0x8000000000000000"
proof -
  show "load64 (sp_bytes demo_fixup_space) 0x4008 = 0x8000000000000000"
    unfolding load64_def demo_fixup_space_def space.simps store64_def
    by (subst load_store_apart, rule apartI_below) (simp_all add: demo_data_length load_store_same)
  have "load64 (sp_bytes demo_fixup_space) 0x4000
      = load64 (store64 (store64 (\<lambda>_. 0) 0x4000 0x0010000000000010) 0x4008 0x8000000000000000) 0x4000"
    unfolding load64_def demo_fixup_space_def space.simps
    by (subst load_store_apart, rule apartI_below(2)) (simp_all add: demo_data_length)
  also have "\<dots> = load64 (store64 (\<lambda>_. 0) 0x4000 0x0010000000000010) 0x4000"
    by (rule load64_store64_apart, rule apartI_below(1)) simp_all
  finally show "load64 (sp_bytes demo_fixup_space) 0x4000 = 0x0010000000000010" by simp
qed

lemma demo_name: "cstr_from (sp_bytes demo_fixup_space) 0x1040 = Some [95, 102]"
  by (simp add: cstr_from.simps demo_word_lookup demo_fixup_data_def)

theorem apply_fixups_rewrites_witness:
  "\<exists>sp'. apply_fixups (\<lambda>_ _ s. (0x7000, s)) demo_fixup_binary 0x1000 demo_fixup_space ()
           = Some (Ok ((), sp'))
     \<and> load64 (sp_bytes sp') 0x4000 = 0x1010 \<and> load64 (sp_bytes sp') 0x4008 = 0x7000"
proof -
  let ?m = "sp_bytes demo_fixup_space"
  have imp: "resolve_imports (\<lambda>_ _ s. (0x7000, s)) demo_fixup_binary ?m 0x1000 60 64 [0..<1] ()
      = Some (Ok ([0x7000], ()))"
    by (simp add: demo_words demo_name cont_byte_def)
  have seg: "seg_table ?m 0x101c 0 = 0x1024" by (simp add: seg_table_def demo_words)
  have ch: "list_all2 (seg_chains 6 demo_fixup_binary ?m 0x101c) [0..<1] [[[0x4000, 0x4008]]]"
    by (simp add: seg_chains_def seg_skipped_def seg demo_words demo_fixup_binary_def demo_binary_def
        demo_seg_def page_chain_def page_start_def chain_head_def demo_slots)
  have ap: "sorted_wrt slots_apart [0x4000, 0x4008]"
    by (simp add: slots_apart_def apartI_below)
  have sf: "starts_safe ?m 0x101c [0..<1] [0x4000, 0x4008]"
    by (simp add: starts_safe_def seg demo_words apartI_below)
  have "\<exists>sp'. apply_fixups (\<lambda>_ _ s. (0x7000, s)) demo_fixup_binary 0x1000 demo_fixup_space ()
      = Some (Ok ((), sp')) \<and> rewritten 6 [0x7000] 0x1000 (concat (concat [[[0x4000, 0x4008]]])) demo_fixup_space sp'"
    by (rule apply_fixups_rewrites [where off = 0 and sz = 67 and st = "0x101c"])
       (use imp ch ap sf in \<open>simp_all add: demo_words demo_fixup_binary_def demo_binary_def demo_data_length
          find_segment_def demo_seg_def\<close>)
  then show ?thesis
    by (auto simp: rewritten_def demo_slots slot_value_def decode_slot_def nth_or_zero_def)
qed

end
