(* ===== verification/Resolver.thy ===== *)
theory Resolver
  imports Prelude
begin

text \<open>
  \<open>grafted-dyld/src/resolver.rs\<close>: from the install name in a load command to a file of the
  host. A \<open>Path\<close> is compared by its components in Rust, so a path is its root flag and its
  component list here; whether a file exists is the parameter \<open>exists\<close>.
\<close>

section \<open>Paths\<close>

record path =
  rooted :: bool
  comps :: "string list"

fun split_slash :: "string \<Rightarrow> string list" where
  "split_slash [] = [[]]"
| "split_slash (c # cs) =
    (if c = CHR ''/'' then [] # split_slash cs
     else (case split_slash cs of [] \<Rightarrow> [[c]] | w # ws \<Rightarrow> (c # w) # ws))"

text \<open>Empty components vanish, and a single dot except at the start of a relative path.\<close>

definition parse_path :: "string \<Rightarrow> path" where
  "parse_path s =
    (let r = (s \<noteq> [] \<and> hd s = CHR ''/'');
         ws = filter (\<lambda>w. w \<noteq> []) (split_slash s)
     in \<lparr>rooted = r,
         comps = (case ws of
                    [] \<Rightarrow> []
                  | w # rest \<Rightarrow> (if w = ''.'' \<and> r then [] else [w]) @ filter (\<lambda>w. w \<noteq> ''.'') rest)\<rparr>)"

definition join :: "path \<Rightarrow> path \<Rightarrow> path" where
  "join p q =
    (if rooted q then q
     else if comps p = [] \<and> \<not> rooted p then q
     else p\<lparr>comps := comps p @ (case comps q of [] \<Rightarrow> [] | w # rest \<Rightarrow> (if w = ''.'' then rest else w # rest))\<rparr>)"

definition parent :: "path \<Rightarrow> path option" where
  "parent p = (if comps p = [] then None else Some (p\<lparr>comps := butlast (comps p)\<rparr>))"

definition file_name :: "path \<Rightarrow> string option" where
  "file_name p =
    (if comps p = [] \<or> last (comps p) = ''..'' \<or> last (comps p) = ''.'' then None
     else Some (last (comps p)))"

section \<open>The resolver\<close>

record dylib_resolver =
  overrides :: "string \<Rightarrow> path option"
  shim_dirs :: "path list"

definition resolver_new :: dylib_resolver where
  "resolver_new = \<lparr>overrides = Map.empty, shim_dirs = []\<rparr>"

definition add_shim_dir :: "path \<Rightarrow> dylib_resolver \<Rightarrow> dylib_resolver" where
  "add_shim_dir dir r = r\<lparr>shim_dirs := shim_dirs r @ [dir]\<rparr>"

definition add_override :: "string \<Rightarrow> path \<Rightarrow> dylib_resolver \<Rightarrow> dylib_resolver" where
  "add_override darwin_path linux_path r = r\<lparr>overrides := (overrides r)(darwin_path \<mapsto> linux_path)\<rparr>"

definition resolve_rpath :: "string \<Rightarrow> path option \<Rightarrow> path option \<Rightarrow> path option" where
  "resolve_rpath rpath executable_path loader_path =
    (case strip_prefix ''@executable_path/'' rpath of
       Some rest \<Rightarrow> map_option (\<lambda>d. join d (parse_path rest)) (Option.bind executable_path parent)
     | None \<Rightarrow>
         if rpath = ''@executable_path'' then Option.bind executable_path parent
         else
           (case strip_prefix ''@loader_path/'' rpath of
              Some rest \<Rightarrow> map_option (\<lambda>d. join d (parse_path rest)) (Option.bind loader_path parent)
            | None \<Rightarrow>
                if rpath = ''@loader_path'' then Option.bind loader_path parent
                else Some (parse_path rpath)))"

text \<open>
  The loop over the rpaths: \<open>Inr\<close> is an early return of the whole call (a file, or nothing
  because of the question mark on an unresolvable rpath), \<open>Inl\<close> falls through.
\<close>

fun try_rpaths ::
  "(path \<Rightarrow> bool) \<Rightarrow> path option \<Rightarrow> path option \<Rightarrow> path \<Rightarrow> string list \<Rightarrow> unit + path option" where
  "try_rpaths exists ep lp rest [] = Inl ()"
| "try_rpaths exists ep lp rest (rpath # rps) =
    (case resolve_rpath rpath ep lp of
       None \<Rightarrow> Inr None
     | Some d \<Rightarrow>
         let candidate = join d rest
         in if exists candidate then Inr (Some candidate) else try_rpaths exists ep lp rest rps)"

definition try_relative ::
  "(path \<Rightarrow> bool) \<Rightarrow> path option \<Rightarrow> string \<Rightarrow> unit + path option" where
  "try_relative exists from rest =
    (case Option.bind from parent of
       Some d \<Rightarrow> if exists (join d (parse_path rest)) then Inr (Some (join d (parse_path rest))) else Inl ()
     | None \<Rightarrow> Inl ())"

fun try_dirs :: "(path \<Rightarrow> bool) \<Rightarrow> string \<Rightarrow> path list \<Rightarrow> path option" where
  "try_dirs exists filename [] = None"
| "try_dirs exists filename (dir # dirs) =
    (let candidate = join dir \<lparr>rooted = False, comps = [filename]\<rparr>
     in if exists candidate then Some candidate else try_dirs exists filename dirs)"

definition resolve ::
  "(path \<Rightarrow> bool) \<Rightarrow> dylib_resolver \<Rightarrow> string \<Rightarrow> path option \<Rightarrow> path option \<Rightarrow> string list \<Rightarrow> path option" where
  "resolve exists r darwin_path executable_path loader_path rpaths =
    (case overrides r darwin_path of
       Some p \<Rightarrow> Some p
     | None \<Rightarrow>
         let early =
           (case strip_prefix ''@executable_path/'' darwin_path of
              Some rest \<Rightarrow> try_relative exists executable_path rest
            | None \<Rightarrow>
                (case strip_prefix ''@loader_path/'' darwin_path of
                   Some rest \<Rightarrow> try_relative exists loader_path rest
                 | None \<Rightarrow>
                     (case strip_prefix ''@rpath/'' darwin_path of
                        Some rest \<Rightarrow> try_rpaths exists executable_path loader_path (parse_path rest) rpaths
                      | None \<Rightarrow> Inl ())))
         in case early of
              Inr result \<Rightarrow> result
            | Inl _ \<Rightarrow>
                (case file_name (parse_path darwin_path) of
                   None \<Rightarrow> None
                 | Some filename \<Rightarrow>
                     (case try_dirs exists filename (shim_dirs r) of
                        Some p \<Rightarrow> Some p
                      | None \<Rightarrow>
                          if exists (parse_path darwin_path) then Some (parse_path darwin_path) else None)))"

section \<open>The search order\<close>

definition relative_candidates :: "path option \<Rightarrow> string \<Rightarrow> path list" where
  "relative_candidates from rest =
    (case Option.bind from parent of Some d \<Rightarrow> [join d (parse_path rest)] | None \<Rightarrow> [])"

text \<open>The files a lookup considers, in order: the token's candidates, the shim directories, the path itself.\<close>

definition search_order ::
  "dylib_resolver \<Rightarrow> string \<Rightarrow> path option \<Rightarrow> path option \<Rightarrow> string list \<Rightarrow> path list" where
  "search_order r darwin_path ep lp rpaths =
    (case strip_prefix ''@executable_path/'' darwin_path of
       Some rest \<Rightarrow> relative_candidates ep rest
     | None \<Rightarrow>
         (case strip_prefix ''@loader_path/'' darwin_path of
            Some rest \<Rightarrow> relative_candidates lp rest
          | None \<Rightarrow>
              (case strip_prefix ''@rpath/'' darwin_path of
                 Some rest \<Rightarrow> map (\<lambda>rp. join (the (resolve_rpath rp ep lp)) (parse_path rest)) rpaths
               | None \<Rightarrow> [])))
    @ (case file_name (parse_path darwin_path) of
         Some f \<Rightarrow> map (\<lambda>d. join d \<lparr>rooted = False, comps = [f]\<rparr>) (shim_dirs r) @ [parse_path darwin_path]
       | None \<Rightarrow> [])"

lemma try_dirs_find:
  "try_dirs exists f dirs = find exists (map (\<lambda>d. join d \<lparr>rooted = False, comps = [f]\<rparr>) dirs)"
  by (induction dirs) (auto simp: Let_def)

lemma find_append: "find P (xs @ ys) = (case find P xs of Some x \<Rightarrow> Some x | None \<Rightarrow> find P ys)"
  by (induction xs) auto

text \<open>An early phase that looks for the first existing file of \<open>xs\<close> and falls through otherwise.\<close>

definition first_of :: "(path \<Rightarrow> bool) \<Rightarrow> path list \<Rightarrow> unit + path option" where
  "first_of exists xs = (case find exists xs of Some p \<Rightarrow> Inr (Some p) | None \<Rightarrow> Inl ())"

lemma try_rpaths_find:
  "\<forall>rp \<in> set rpaths. resolve_rpath rp ep lp \<noteq> None
    \<Longrightarrow> try_rpaths exists ep lp rest rpaths
        = first_of exists (map (\<lambda>rp. join (the (resolve_rpath rp ep lp)) rest) rpaths)"
  by (induction rpaths) (auto simp: Let_def first_of_def)

lemma try_relative_find: "try_relative exists from rest = first_of exists (relative_candidates from rest)"
  by (auto simp: try_relative_def relative_candidates_def first_of_def split: option.splits)

text \<open>
  C37. The search order of \<open>DylibResolver::resolve\<close>: an override wins without looking at the
  disk; otherwise, when every rpath that the lookup consults can be resolved, the answer is
  the first existing file among the candidates of the name's token, then the file name in
  each shim directory in the order they were added, then the path itself.
\<close>

theorem resolve_order:
  assumes "starts_with darwin_path ''@rpath/'' \<longrightarrow> (\<forall>rp \<in> set rpaths. resolve_rpath rp ep lp \<noteq> None)"
  shows "resolve exists r darwin_path ep lp rpaths =
    (case overrides r darwin_path of
       Some p \<Rightarrow> Some p
     | None \<Rightarrow> find exists (search_order r darwin_path ep lp rpaths))"
proof (cases "overrides r darwin_path")
  case (Some p)
  then show ?thesis by (simp add: resolve_def)
next
  case None
  define rest_of where "rest_of =
    (case file_name (parse_path darwin_path) of
       Some f \<Rightarrow> map (\<lambda>d. join d \<lparr>rooted = False, comps = [f]\<rparr>) (shim_dirs r) @ [parse_path darwin_path]
     | None \<Rightarrow> [])"
  have late: "(case file_name (parse_path darwin_path) of
                 None \<Rightarrow> None
               | Some filename \<Rightarrow>
                   (case try_dirs exists filename (shim_dirs r) of
                      Some p \<Rightarrow> Some p
                    | None \<Rightarrow>
                        if exists (parse_path darwin_path) then Some (parse_path darwin_path) else None))
            = find exists rest_of"
    by (auto simp: rest_of_def try_dirs_find find_append split: option.splits)
  have glue: "(case first_of exists xs of Inr result \<Rightarrow> result | Inl _ \<Rightarrow> find exists rest_of)
            = find exists (xs @ rest_of)" for xs
    by (simp add: first_of_def find_append split: option.splits)
  have nil: "first_of exists [] = Inl ()" by (simp add: first_of_def)
  show ?thesis
  proof (cases "strip_prefix ''@executable_path/'' darwin_path")
    case e: (Some rest)
    show ?thesis
      unfolding resolve_def search_order_def None e option.case late Let_def try_relative_find
      by (simp only: rest_of_def [symmetric] glue)
  next
    case e: None
    show ?thesis
    proof (cases "strip_prefix ''@loader_path/'' darwin_path")
      case l: (Some rest)
      show ?thesis
        unfolding resolve_def search_order_def None e l option.case late Let_def try_relative_find
        by (simp only: rest_of_def [symmetric] glue)
    next
      case l: None
      show ?thesis
      proof (cases "strip_prefix ''@rpath/'' darwin_path")
        case (Some rest)
        with assms have "\<forall>rp \<in> set rpaths. resolve_rpath rp ep lp \<noteq> None" by (simp add: starts_with_def)
        note tr = try_rpaths_find [OF this]
        show ?thesis
          unfolding resolve_def search_order_def None e l Some option.case late Let_def tr
          by (simp only: rest_of_def [symmetric] glue)
      next
        case n: None
        show ?thesis
          unfolding resolve_def search_order_def None e l n option.case late Let_def
          using glue [of "[]"] by (simp add: rest_of_def [symmetric])
      qed
    qed
  qed
qed

theorem resolve_order_witness:
  "resolve (\<lambda>p. comps p = [''opt'', ''shims'', ''libz.dylib''])
     (add_shim_dir (parse_path ''/opt/shims'') (add_shim_dir (parse_path ''/opt/none'') resolver_new))
     ''@rpath/libz.dylib'' (Some (parse_path ''/app/bin/tool'')) None [''@executable_path/../lib'', ''/usr/local/lib'']
   = Some (parse_path ''/opt/shims/libz.dylib'')"
  by (subst resolve_order)
     (simp_all add: resolver_new_def add_shim_dir_def search_order_def resolve_rpath_def parse_path_def
        join_def parent_def file_name_def)

text \<open>
  One unresolvable rpath hides every later candidate: a relative rpath that mentions
  \<open>@loader_path\<close> without a known loader makes the whole lookup fail, whatever the remaining
  rpaths and the shim directories hold.
\<close>

theorem unresolvable_rpath_aborts:
  assumes "overrides r (''@rpath/'' @ name) = None" and "resolve_rpath rp ep lp = None"
    and "\<forall>q \<in> set before. \<exists>d. resolve_rpath q ep lp = Some d \<and> \<not> exists (join d (parse_path name))"
  shows "resolve exists r (''@rpath/'' @ name) ep lp (before @ rp # after) = None"
proof -
  have "try_rpaths exists ep lp (parse_path name) (before @ rp # after) = Inr None"
    using assms(2,3) by (induction before) (auto simp: Let_def)
  then show ?thesis using assms(1) by (simp add: resolve_def)
qed

theorem unresolvable_rpath_aborts_witness:
  "resolve (\<lambda>_. True) (add_shim_dir (parse_path ''/opt/shims'') resolver_new)
     (''@rpath/'' @ ''libz.dylib'') None None ([] @ ''@loader_path/../lib'' # [''/usr/lib'']) = None"
  by (rule unresolvable_rpath_aborts) (simp_all add: resolver_new_def add_shim_dir_def resolve_rpath_def)

end
