(* ===== verification/ObjcRuntime.thy ===== *)
theory ObjcRuntime
  imports Prelude
begin

text \<open>
  \<open>grafted-objc/src/types.rs\<close> and \<open>runtime.rs\<close>: the three registries of the Objective-C
  runtime and the method lookup behind \<open>objc_msgSend\<close> (the assembly itself is in
  \<open>MsgSend\<close>). Classes, selectors and receivers are addresses in a process memory; a fresh
  block of the allocator is a parameter of the operations that allocate. An operation that
  reads a C string returns \<open>None\<close> when the string has no end.
\<close>

section \<open>Types\<close>

text \<open>\<open>IMP\<close>: code of the program, or one of the runtime's own methods; a null \<open>IMP\<close> is \<open>None\<close>.\<close>

datatype imp =
    Code u64
  | Grafted_alloc
  | Grafted_init
  | Grafted_noop
  | Grafted_returns_false
  | Grafted_returns_null
  | Grafted_returns_zero

text \<open>Offsets of the fields the runtime reads: \<open>objc_object.isa\<close>, \<open>class_t.data\<close>, \<open>class_ro_t.name\<close>.\<close>

definition isa_of :: "mem \<Rightarrow> u64 \<Rightarrow> u64" where
  "isa_of m obj = load64 m obj"

definition class_data :: "mem \<Rightarrow> u64 \<Rightarrow> u64" where
  "class_data m cls = load64 m (cls + 32)"

definition ro_name :: "mem \<Rightarrow> u64 \<Rightarrow> u64" where
  "ro_name m ro = load64 m (ro + 24)"

record objc =
  method_registry :: "u64 \<times> u64 \<Rightarrow> imp option option"
  class_registry :: "(string \<times> u64) list"
  selector_registry :: "string \<Rightarrow> u64 option"
  unhandled_count :: u32
  objc_mem :: mem

definition objc_empty :: "mem \<Rightarrow> objc" where
  "objc_empty m = \<lparr>method_registry = (\<lambda>_. None), class_registry = [], selector_registry = Map.empty,
     unhandled_count = 0, objc_mem = m\<rparr>"

section \<open>Registration\<close>

definition class_addMethod :: "u64 \<Rightarrow> u64 \<Rightarrow> imp option \<Rightarrow> objc \<Rightarrow> bool \<times> objc" where
  "class_addMethod cls name i rt =
    (if method_registry rt (cls, name) \<noteq> None then (False, rt)
     else (True, rt\<lparr>method_registry := (method_registry rt)((cls, name) \<mapsto> i)\<rparr>))"

definition lossy_text :: "u8 list \<Rightarrow> string" where
  "lossy_text bs = text_of_bytes (utf8_lossy bs)"

definition objc_registerClassPair :: "u64 \<Rightarrow> objc \<Rightarrow> objc option" where
  "objc_registerClassPair cls rt =
    (if cls = 0 then Some rt
     else
       let data_ptr = class_data (objc_mem rt) cls AND NOT 7 in
       if data_ptr = 0 then Some rt
       else
         let name_ptr = ro_name (objc_mem rt) data_ptr in
         if name_ptr = 0 then Some rt
         else map_option (\<lambda>bs. rt\<lparr>class_registry := alist_insert (lossy_text bs) cls (class_registry rt)\<rparr>)
                (cstr_from (objc_mem rt) name_ptr))"

definition objc_getClass :: "u64 \<Rightarrow> objc \<Rightarrow> u64 option" where
  "objc_getClass name rt =
    (if name = 0 then Some 0
     else map_option (\<lambda>bs. case map_of (class_registry rt) (lossy_text bs) of Some p \<Rightarrow> p | None \<Rightarrow> 0)
            (cstr_from (objc_mem rt) name))"

text \<open>The copy of the name goes to the fresh block at \<open>p\<close>, which becomes the selector.\<close>

definition sel_registerName :: "u64 \<Rightarrow> u64 \<Rightarrow> objc \<Rightarrow> (u64 \<times> objc) option" where
  "sel_registerName p name rt =
    (if name = 0 then Some (0, rt)
     else
       (case cstr_from (objc_mem rt) name of
          None \<Rightarrow> None
        | Some bs \<Rightarrow>
            (case selector_registry rt (lossy_text bs) of
               Some sel \<Rightarrow> Some (sel, rt)
             | None \<Rightarrow>
                 Some (p, rt\<lparr>objc_mem := store_bytes (objc_mem rt) p (utf8_lossy bs @ [0]),
                             selector_registry := (selector_registry rt)(lossy_text bs \<mapsto> p)\<rparr>))))"

text \<open>\<open>calloc(1, 512)\<close> answered with \<open>p\<close>, or null.\<close>

definition grafted_alloc :: "u64 \<Rightarrow> u64 \<Rightarrow> mem \<Rightarrow> u64 \<times> mem" where
  "grafted_alloc p cls m =
    (if cls = 0 then (0, m)
     else if p = 0 then (0, m)
     else (p, store64 (store64 (store_bytes m p (replicate 512 0)) p cls) (p + 8) 0xFFFFFFFFFFFFFFFF))"

section \<open>Method lookup\<close>

definition safe_isa :: "mem \<Rightarrow> u64 \<Rightarrow> u64" where
  "safe_isa m receiver =
    (let isa = isa_of m receiver in if isa > 0x1000 \<and> isa < 0x800000000000 then isa else 0)"

fun lookup_in :: "(u64 \<times> u64 \<Rightarrow> imp option option) \<Rightarrow> u64 \<Rightarrow> u64 list \<Rightarrow> imp option option" where
  "lookup_in reg sel [] = None"
| "lookup_in reg sel (c # cs) =
    (if c = 0 then lookup_in reg sel cs
     else (case reg (c, sel) of Some i \<Rightarrow> Some i | None \<Rightarrow> lookup_in reg sel cs))"

definition builtin_method :: "string \<Rightarrow> imp option" where
  "builtin_method n =
    (if n \<in> {''alloc'', ''allocWithZone:''} then Some Grafted_alloc
     else if n \<in> {''init'', ''new''} then Some Grafted_init
     else if n \<in> {''retain'', ''autorelease'', ''self''} then Some Grafted_init
     else if n \<in> {''release'', ''dealloc''} then Some Grafted_noop
     else if n \<in> {''respondsToSelector:'', ''conformsToProtocol:'', ''isKindOfClass:'', ''isMemberOfClass:''}
       then Some Grafted_returns_false
     else if n \<in> {''class'', ''superclass'', ''description'', ''debugDescription''}
       then Some Grafted_returns_null
     else if n \<in> {''hash'', ''count'', ''length''} then Some Grafted_returns_zero
     else None)"

text \<open>The second attempt: the canonical selector of the same name.\<close>

definition lookup_by_name :: "objc \<Rightarrow> u64 list \<Rightarrow> u64 \<Rightarrow> u8 list \<Rightarrow> imp option option" where
  "lookup_by_name rt classes selector bs =
    (if selector > 0x1000 \<and> utf8_decode bs \<noteq> None \<and> length bs < 256 then
       (case selector_registry rt (text_of_bytes bs) of
          Some canonical \<Rightarrow>
            if canonical \<noteq> selector then lookup_in (method_registry rt) canonical classes else None
        | None \<Rightarrow> None)
     else None)"

text \<open>The built-in methods and the stub for everything else; logging an unknown selector counts it.\<close>

definition lookup_fallback :: "objc \<Rightarrow> u8 list \<Rightarrow> imp option \<times> objc" where
  "lookup_fallback rt bs =
    (case builtin_method (lossy_text bs) of
       Some i \<Rightarrow> (Some i, rt)
     | None \<Rightarrow> (Some Grafted_returns_null, rt\<lparr>unhandled_count := unhandled_count rt + 1\<rparr>))"

definition grafted_lookup_method :: "u64 \<Rightarrow> u64 \<Rightarrow> objc \<Rightarrow> (imp option \<times> objc) option" where
  "grafted_lookup_method receiver selector rt =
    (if receiver = 0 then Some (None, rt)
     else
       let classes = [receiver, safe_isa (objc_mem rt) receiver] in
       (case lookup_in (method_registry rt) selector classes of
          Some i \<Rightarrow> Some (i, rt)
        | None \<Rightarrow>
            (case cstr_from (objc_mem rt) selector of
               None \<Rightarrow> None
             | Some bs \<Rightarrow>
                 (case lookup_by_name rt classes selector bs of
                    Some i \<Rightarrow> Some (i, rt)
                  | None \<Rightarrow> Some (lookup_fallback rt bs)))))"

section \<open>Selectors are interned\<close>

text \<open>
  The state the selector table keeps: every selector points at its own name, NUL-terminated,
  and the stored names have no NUL inside.
\<close>

definition holds_name :: "mem \<Rightarrow> u64 \<Rightarrow> string \<Rightarrow> bool" where
  "holds_name m p s \<longleftrightarrow> cstr_from m p = Some (bytes_of_text s)"

definition sels_ok :: "objc \<Rightarrow> bool" where
  "sels_ok rt \<longleftrightarrow> (\<forall>s p. selector_registry rt s = Some p \<longrightarrow> p \<noteq> 0 \<and> holds_name (objc_mem rt) p s)"

text \<open>A block of the allocator: not null, and disjoint from every name already interned.\<close>

definition fresh_for :: "objc \<Rightarrow> u64 \<Rightarrow> nat \<Rightarrow> bool" where
  "fresh_for rt p n \<longleftrightarrow> p \<noteq> 0 \<and> n < 2 ^ 64
     \<and> (\<forall>s q. selector_registry rt s = Some q \<longrightarrow> apart q (length s + 1) p n)"

lemma length_text_of_bytes [simp]: "length (text_of_bytes bs) = length bs"
  by (simp add: text_of_bytes_def)

lemma cstr_from_no_nul: "cstr_from m a = Some bs \<Longrightarrow> 0 \<notin> set bs"
proof (induction bs arbitrary: a)
  case Nil
  then show ?case by simp
next
  case (Cons b bs)
  from Cons.prems have "m a \<noteq> 0" "cstr_from m (a + 1) = Some bs" "b = m a"
    by (auto simp: cstr_from.simps [of m a] bind_eq_Some_conv split: if_splits)
  with Cons.IH show ?case by auto
qed

lemma cstr_from_bytes:
  "cstr_from m a = Some bs
    \<Longrightarrow> (\<forall>i < length bs. m (a + of_nat i) = bs ! i) \<and> m (a + of_nat (length bs)) = 0"
proof (induction bs arbitrary: a)
  case Nil
  then show ?case by (auto simp: cstr_from.simps [of m a] bind_eq_Some_conv split: if_splits)
next
  case (Cons b bs)
  from Cons.prems have "cstr_from m (a + 1) = Some bs" and b: "b = m a"
    by (auto simp: cstr_from.simps [of m a] bind_eq_Some_conv split: if_splits)
  from Cons.IH [OF this(1)] b show ?case
    by (auto simp: nth_Cons algebra_simps split: nat.splits)
qed

lemma utf8_lossy_no_nul: "0 \<notin> set bs \<Longrightarrow> 0 \<notin> set (utf8_lossy bs)"
  using set_utf8_lossy [of bs] by (auto simp: replacement_def)

lemma holds_name_keep:
  assumes "holds_name m q s" and "apart q (length s + 1) p (length bs)" and "length bs < 2 ^ 64"
  shows "holds_name (store_bytes m p bs) q s"
proof -
  have c: "cstr_from m q = Some (bytes_of_text s)" using assms(1) by (simp add: holds_name_def)
  have same: "store_bytes m p bs (q + of_nat i) = m (q + of_nat i)" if "i < length s + 1" for i
    using arg_cong [OF load_store_apart [OF assms(2,3), of m], of "\<lambda>l. l ! i"] that
    by (simp add: load_bytes_def del: upt_Suc)
  show ?thesis
    unfolding holds_name_def
    by (rule cstr_from_stored) (use cstr_from_bytes [OF c] cstr_from_no_nul [OF c] same in auto)
qed

lemma holds_name_new:
  assumes "0 \<notin> set bs" and "length bs < 2 ^ 64 - 1"
  shows "holds_name (store_bytes m p (bs @ [0])) p (text_of_bytes bs)"
proof -
  have "unat (of_nat i :: u64) = i" if "i \<le> length bs" for i
    using that assms(2) by (intro unat_of_nat_u64) simp
  then have s: "store_bytes m p (bs @ [0]) (p + of_nat i) = (bs @ [0]) ! i" if "i \<le> length bs" for i
    using that by (simp add: store_bytes_def)
  show ?thesis
    unfolding holds_name_def
    by (rule cstr_from_stored) (use s assms(1) in \<open>auto simp: nth_append\<close>)
qed

text \<open>A call with a block that fits keeps the table sound.\<close>

definition block_fits :: "u64 \<Rightarrow> u64 \<Rightarrow> objc \<Rightarrow> bool" where
  "block_fits p name rt \<longleftrightarrow>
     (\<forall>bs. cstr_from (objc_mem rt) name = Some bs \<longrightarrow> fresh_for rt p (length (utf8_lossy bs) + 1))"

lemma sel_registerName_ok:
  assumes "sels_ok rt" and "block_fits p name rt" and "sel_registerName p name rt = Some (sel, rt')"
  shows "sels_ok rt'"
proof (cases "rt' = rt")
  case True
  with assms(1) show ?thesis by simp
next
  case False
  with assms(3) have n: "name \<noteq> 0" by (auto simp: sel_registerName_def)
  obtain bs where c: "cstr_from (objc_mem rt) name = Some bs"
    using assms(3) n by (cases "cstr_from (objc_mem rt) name") (simp_all add: sel_registerName_def)
  have "selector_registry rt (lossy_text bs) = None"
    using assms(3) n c False
    by (cases "selector_registry rt (lossy_text bs)") (simp_all add: sel_registerName_def)
  then have rt': "rt' = rt\<lparr>objc_mem := store_bytes (objc_mem rt) p (utf8_lossy bs @ [0]),
                selector_registry := (selector_registry rt)(lossy_text bs \<mapsto> p)\<rparr>"
    using assms(3) n c by (auto simp: sel_registerName_def)
  let ?m = "store_bytes (objc_mem rt) p (utf8_lossy bs @ [0])"
  have nn: "0 \<notin> set (utf8_lossy bs)" by (rule utf8_lossy_no_nul [OF cstr_from_no_nul [OF c]])
  have fr: "fresh_for rt p (length (utf8_lossy bs) + 1)" using assms(2) c by (simp add: block_fits_def)
  have "holds_name ?m p (lossy_text bs)"
    unfolding lossy_text_def using nn fr by (intro holds_name_new) (simp_all add: fresh_for_def)
  moreover have "q \<noteq> 0 \<and> holds_name ?m q s" if "selector_registry rt s = Some q" for s q
    using assms(1) fr that holds_name_keep [of "objc_mem rt" q s p "utf8_lossy bs @ [0]"]
    by (simp add: sels_ok_def fresh_for_def)
  ultimately show ?thesis
    using fr unfolding sels_ok_def rt' fresh_for_def by simp
qed

lemma text_of_bytes_of_text [simp]: "text_of_bytes (bytes_of_text s) = s"
proof (induction s)
  case Nil
  then show ?case by (simp add: text_of_bytes_def bytes_of_text_def)
next
  case (Cons c s)
  have "(of_char c :: nat) < 256" by simp
  then have "unat (of_nat (of_char c) :: u8) = of_char c"
    by (simp add: unsigned_of_nat take_bit_nat_eq_self)
  with Cons show ?case by (simp add: text_of_bytes_def bytes_of_text_def)
qed

lemma sels_ok_inj:
  assumes "sels_ok rt" and "selector_registry rt s = Some p" and "selector_registry rt t = Some p"
  shows "s = t"
proof -
  have "holds_name (objc_mem rt) p s" "holds_name (objc_mem rt) p t"
    using assms by (simp_all add: sels_ok_def)
  then have "bytes_of_text s = bytes_of_text t" by (simp add: holds_name_def)
  then show ?thesis by (metis text_of_bytes_of_text)
qed

lemma sel_registerName_entry:
  assumes "name \<noteq> 0" and "cstr_from (objc_mem rt) name = Some bs"
    and "sel_registerName p name rt = Some (sel, rt')"
  shows "selector_registry rt' (lossy_text bs) = Some sel"
  using assms by (cases "selector_registry rt (lossy_text bs)") (auto simp: sel_registerName_def)

lemma sel_registerName_grows:
  assumes "sel_registerName p name rt = Some (sel, rt')" and "selector_registry rt s = Some q"
  shows "selector_registry rt' s = Some q"
  using assms by (auto simp: sel_registerName_def split: if_splits option.splits)

text \<open>
  Selectors are interned: registering two names one after the other gives the same
  selector exactly when the names are equal (as decoded text), and the selectors point at
  their own names, so that a selector can be read back as a C string.
\<close>

theorem sel_interning:
  assumes "sels_ok rt" and "a \<noteq> 0" and "b \<noteq> 0"
    and "cstr_from (objc_mem rt) a = Some xs" and "block_fits p a rt"
    and "sel_registerName p a rt = Some (s1, rt1)"
    and "cstr_from (objc_mem rt1) b = Some ys" and "block_fits q b rt1"
    and "sel_registerName q b rt1 = Some (s2, rt2)"
  shows "(s1 = s2 \<longleftrightarrow> utf8_lossy xs = utf8_lossy ys) \<and> sels_ok rt2
       \<and> cstr_from (objc_mem rt2) s1 = Some (utf8_lossy xs) \<and> cstr_from (objc_mem rt2) s2 = Some (utf8_lossy ys)"
proof -
  have ok2: "sels_ok rt2" using assms sel_registerName_ok by blast
  have e1: "selector_registry rt2 (lossy_text xs) = Some s1"
    using sel_registerName_grows [OF assms(9)] sel_registerName_entry [OF assms(2,4,6)] by blast
  have e2: "selector_registry rt2 (lossy_text ys) = Some s2"
    by (rule sel_registerName_entry [OF assms(3,7,9)])
  have "s1 = s2 \<longleftrightarrow> lossy_text xs = lossy_text ys"
    using sels_ok_inj [OF ok2] e1 e2 by auto
  moreover have "lossy_text xs = lossy_text ys \<longleftrightarrow> utf8_lossy xs = utf8_lossy ys"
    using text_of_bytes_inj by (auto simp: lossy_text_def)
  ultimately show ?thesis
    using ok2 e1 e2 by (auto simp: sels_ok_def holds_name_def lossy_text_def)
qed

definition demo_names :: mem where
  "demo_names = store_bytes (store_bytes (\<lambda>_. 0) 0x2000 [105, 110, 105, 116, 0]) 0x2010 [110, 101, 119, 0]"

lemma demo_names_at:
  "cstr_from demo_names 0x2000 = Some [105, 110, 105, 116]" "cstr_from demo_names 0x2010 = Some [110, 101, 119]"
  by (simp_all add: cstr_from.simps demo_names_def store_bytes_def)

theorem sel_interning_witness:
  "\<exists>s1 rt1 s2 rt2. sel_registerName 0x9000 0x2000 (objc_empty demo_names) = Some (s1, rt1)
     \<and> sel_registerName 0x9100 0x2010 rt1 = Some (s2, rt2) \<and> s1 \<noteq> s2
     \<and> cstr_from (objc_mem rt2) s1 = Some [105, 110, 105, 116]"
proof -
  have l: "utf8_lossy [105, 110, 105, 116] = [105, 110, 105, 116]" "utf8_lossy [110, 101, 119] = [110, 101, 119]"
    by (rule utf8_lossy_ascii, simp add: ascii_bytes_def)+
  let ?rt1 = "(objc_empty demo_names)\<lparr>objc_mem := store_bytes demo_names 0x9000 [105, 110, 105, 116, 0],
      selector_registry := [text_of_bytes [105, 110, 105, 116] \<mapsto> 0x9000]\<rparr>"
  let ?rt2 = "?rt1\<lparr>objc_mem := store_bytes (objc_mem ?rt1) 0x9100 [110, 101, 119, 0],
      selector_registry := (selector_registry ?rt1)(text_of_bytes [110, 101, 119] \<mapsto> 0x9100)\<rparr>"
  have ok: "sels_ok (objc_empty demo_names)" by (simp add: sels_ok_def objc_empty_def)
  have r1: "sel_registerName 0x9000 0x2000 (objc_empty demo_names) = Some (0x9000, ?rt1)"
    by (simp add: sel_registerName_def objc_empty_def demo_names_at lossy_text_def l)
  have n1: "cstr_from (objc_mem (objc_empty demo_names)) 0x2000 = Some [105, 110, 105, 116]"
    by (simp add: objc_empty_def demo_names_at)
  have n2: "cstr_from (objc_mem ?rt1) 0x2010 = Some [110, 101, 119]"
    by (simp add: cstr_from.simps demo_names_def store_bytes_def objc_empty_def)
  have ne: "text_of_bytes [110, 101, 119] \<noteq> text_of_bytes [105, 110, 105, 116]"
    by (simp add: text_of_bytes_def)
  have r2: "sel_registerName 0x9100 0x2010 ?rt1 = Some (0x9100, ?rt2)"
    using ne n2 by (simp add: sel_registerName_def lossy_text_def l objc_empty_def)
  have f1: "block_fits 0x9000 0x2000 (objc_empty demo_names)"
    using n1 by (simp add: block_fits_def fresh_for_def l) (simp add: objc_empty_def)
  have f2: "block_fits 0x9100 0x2010 ?rt1"
    using n2 by (simp add: block_fits_def fresh_for_def l)
       (simp add: objc_empty_def apartI_below split: if_splits)
  from sel_interning [OF ok _ _ n1 f1 r1 n2 f2 r2] r1 r2 show ?thesis by (auto simp: l)
qed

section \<open>Dispatch finds what was registered\<close>

lemma lookup_in_skip: "\<forall>c \<in> set cs. c \<noteq> 0 \<longrightarrow> reg (c, sel) = None \<Longrightarrow> lookup_in reg sel cs = None"
  by (induction cs) auto



text \<open>
  A message to a live object always has code to run: for a non-null receiver and a
  selector that is a C string, the lookup returns a method (the registered one, a built-in,
  or the stub that returns null), as long as no null \<open>IMP\<close> was registered; a null receiver
  gets none.
\<close>

theorem lookup_total:
  assumes "receiver \<noteq> 0" and "cstr_from (objc_mem rt) sel = Some bs"
    and "\<forall>k. method_registry rt k \<noteq> Some None"
  shows "(\<exists>i rt'. grafted_lookup_method receiver sel rt = Some (Some i, rt')
            \<and> method_registry rt' = method_registry rt \<and> objc_mem rt' = objc_mem rt)
       \<and> grafted_lookup_method 0 sel rt = Some (None, rt)"
proof -
  have reg: "lookup_in (method_registry rt) s cs \<noteq> Some None" for s cs
  proof (induction cs)
    case Nil
    then show ?case by simp
  next
    case (Cons c cs)
    have "method_registry rt (c, s) \<noteq> Some None" using assms(3) by blast
    with Cons show ?case by (auto split: option.split)
  qed
  then have nm: "lookup_by_name rt cs sel bs \<noteq> Some None" for cs
    by (auto simp: lookup_by_name_def split: option.splits)
  have fb: "\<exists>i rt'. lookup_fallback rt bs = (Some i, rt') \<and> method_registry rt' = method_registry rt
      \<and> objc_mem rt' = objc_mem rt"
    by (auto simp: lookup_fallback_def split: option.splits)
  let ?cs = "[receiver, safe_isa (objc_mem rt) receiver]"
  have "\<exists>i rt'. grafted_lookup_method receiver sel rt = Some (Some i, rt')
            \<and> method_registry rt' = method_registry rt \<and> objc_mem rt' = objc_mem rt"
  proof (cases "lookup_in (method_registry rt) sel ?cs")
    case (Some i)
    with reg [of sel ?cs] assms(1) show ?thesis
      by (cases i) (auto simp: grafted_lookup_method_def Let_def)
  next
    case None
    then show ?thesis
      using nm [of ?cs] fb assms(1,2)
      by (cases "lookup_by_name rt ?cs sel bs") (auto simp: grafted_lookup_method_def Let_def)
  qed
  then show ?thesis by (simp add: grafted_lookup_method_def)
qed

theorem lookup_total_witness:
  "\<exists>i rt'. grafted_lookup_method 0x8000 0x2010 (objc_empty demo_names) = Some (Some i, rt')"
proof -
  have n: "cstr_from (objc_mem (objc_empty demo_names)) 0x2010 = Some [110, 101, 119]"
    and r: "\<forall>k. method_registry (objc_empty demo_names) k \<noteq> Some None"
    by (simp_all add: objc_empty_def demo_names_at)
  have "(0x8000 :: u64) \<noteq> 0" by simp
  from lookup_total [OF this n r] show ?thesis by blast
qed

end
