(* ===== verification/MsgSend.thy ===== *)
theory MsgSend
  imports ObjcRuntime
begin

text \<open>
  The assembly of \<open>objc_msgSend\<close> in \<open>grafted-objc/src/runtime.rs\<close>, instruction by
  instruction, on a machine with the registers it names and a byte memory. The called
  function \<open>grafted_lookup_method\<close> is the parameter \<open>callee\<close>; what the code relies on is the
  System V calling convention (\<open>abi_ok\<close>): the callee gives back \<open>rsp\<close>, \<open>rbp\<close> and the
  caller's stack, and may change everything else.
\<close>

datatype reg = RAX | RDX | RCX | RDI | RSI | R8 | R9 | RBP | RSP

record machine =
  regs :: "reg \<Rightarrow> u64"
  xmm :: "nat \<Rightarrow> u64 \<times> u64"
  mmem :: mem
  zf :: bool

datatype instr =
    Test reg
  | Jz nat
  | Push reg
  | Pop reg
  | Mov reg reg
  | SubRsp u64
  | AddRsp u64
  | Spill u64 nat
  | Reload nat u64
  | CallLookup
  | JmpRax
  | XorSelf reg
  | Ret

datatype exit = Jumped u64 machine | Returned u64 machine

text \<open>Low and high half of an \<open>xmm\<close> register are stored next to each other.\<close>

definition spill :: "u64 \<Rightarrow> nat \<Rightarrow> machine \<Rightarrow> machine" where
  "spill off n m =
    (let a = regs m RSP + off
     in m\<lparr>mmem := store64 (store64 (mmem m) a (fst (xmm m n))) (a + 8) (snd (xmm m n))\<rparr>)"

definition reload :: "nat \<Rightarrow> u64 \<Rightarrow> machine \<Rightarrow> machine" where
  "reload n off m =
    (let a = regs m RSP + off
     in m\<lparr>xmm := (xmm m)(n := (load64 (mmem m) a, load64 (mmem m) (a + 8)))\<rparr>)"

definition set_reg :: "reg \<Rightarrow> u64 \<Rightarrow> machine \<Rightarrow> machine" where
  "set_reg r v m = m\<lparr>regs := (regs m)(r := v)\<rparr>"

definition mov :: "reg \<Rightarrow> reg \<Rightarrow> machine \<Rightarrow> machine" where
  "mov d s m = set_reg d (regs m s) m"

definition sub_rsp :: "u64 \<Rightarrow> machine \<Rightarrow> machine" where
  "sub_rsp k m = set_reg RSP (regs m RSP - k) m"

definition add_rsp :: "u64 \<Rightarrow> machine \<Rightarrow> machine" where
  "add_rsp k m = set_reg RSP (regs m RSP + k) m"

definition test :: "reg \<Rightarrow> machine \<Rightarrow> machine" where
  "test r m = m\<lparr>zf := (regs m r = 0)\<rparr>"

definition push :: "reg \<Rightarrow> machine \<Rightarrow> machine" where
  "push r m =
    (let sp = regs m RSP - 8
     in (set_reg RSP sp m)\<lparr>mmem := store64 (mmem m) sp (regs m r)\<rparr>)"

definition pop :: "reg \<Rightarrow> machine \<Rightarrow> machine" where
  "pop r m =
    (let sp = regs m RSP in set_reg r (load64 (mmem m) sp) (set_reg RSP (sp + 8) m))"

fun run :: "(machine \<Rightarrow> machine) \<Rightarrow> instr list \<Rightarrow> nat \<Rightarrow> nat \<Rightarrow> machine \<Rightarrow> exit option" where
  "run callee prog 0 pc m = None"
| "run callee prog (Suc fuel) pc m =
    (if pc \<ge> length prog then None
     else
       (case prog ! pc of
          Test r \<Rightarrow> run callee prog fuel (pc + 1) (test r m)
        | Jz l \<Rightarrow> run callee prog fuel (if zf m then l else pc + 1) m
        | Push r \<Rightarrow> run callee prog fuel (pc + 1) (push r m)
        | Pop r \<Rightarrow> run callee prog fuel (pc + 1) (pop r m)
        | Mov d s \<Rightarrow> run callee prog fuel (pc + 1) (mov d s m)
        | SubRsp k \<Rightarrow> run callee prog fuel (pc + 1) (sub_rsp k m)
        | AddRsp k \<Rightarrow> run callee prog fuel (pc + 1) (add_rsp k m)
        | Spill off n \<Rightarrow> run callee prog fuel (pc + 1) (spill off n m)
        | Reload n off \<Rightarrow> run callee prog fuel (pc + 1) (reload n off m)
        | CallLookup \<Rightarrow> run callee prog fuel (pc + 1) (callee m)
        | JmpRax \<Rightarrow> Some (Jumped (regs m RAX) m)
        | XorSelf r \<Rightarrow> run callee prog fuel (pc + 1) (set_reg r 0 m)
        | Ret \<Rightarrow> Some (Returned (load64 (mmem m) (regs m RSP)) (set_reg RSP (regs m RSP + 8) m))))"

text \<open>Label \<open>.Lnil_receiver\<close> is instruction 39.\<close>

definition objc_msgSend :: "instr list" where
  "objc_msgSend =
    [Test RDI, Jz 39,
     Push RBP, Mov RBP RSP, Push RDI, Push RSI, Push RDX, Push RCX, Push R8, Push R9,
     SubRsp 128, Spill 0 0, Spill 0x10 1, Spill 0x20 2, Spill 0x30 3, Spill 0x40 4, Spill 0x50 5,
     Spill 0x60 6, Spill 0x70 7,
     CallLookup, Test RAX, Jz 39,
     Reload 0 0, Reload 1 0x10, Reload 2 0x20, Reload 3 0x30, Reload 4 0x40, Reload 5 0x50,
     Reload 6 0x60, Reload 7 0x70, AddRsp 128,
     Pop R9, Pop R8, Pop RCX, Pop RDX, Pop RSI, Pop RDI, Pop RBP,
     JmpRax,
     XorSelf RAX, XorSelf RDX, Ret]"

definition in_frame :: "u64 \<Rightarrow> u64 \<Rightarrow> bool" where
  "in_frame sp x \<longleftrightarrow> unat (x - sp) < 192"

text \<open>What the called function owes its caller, for the caller's frame of 192 bytes.\<close>

definition abi_ok :: "(machine \<Rightarrow> machine) \<Rightarrow> bool" where
  "abi_ok callee \<longleftrightarrow> (\<forall>m. regs (callee m) RSP = regs m RSP \<and> regs (callee m) RBP = regs m RBP
     \<and> (\<forall>x. in_frame (regs m RSP) x \<longrightarrow> mmem (callee m) x = mmem m x))"

lemma load64_below:
  assumes "8 \<le> b - a" and "b - a \<le> - 8"
  shows "load64 (store64 m (s - a) v) (s - b) = load64 m (s - b)"
proof (rule load64_store64_apart)
  have lo: "8 \<le> unat (b - a)" using assms(1) by (simp add: word_le_nat_alt)
  have hi: "unat (b - a) \<le> 2 ^ 64 - 8" using assms(2) by (simp add: word_le_nat_alt)
  show "apart (s - b) 8 (s - a) 8"
    unfolding apart_def
  proof (intro allI impI notI)
    fix i j :: nat assume ij: "i < 8" "j < 8" and e: "s - b + of_nat i = s - a + of_nat j"
    then have "of_nat i = (b - a) + of_nat j" by (simp add: algebra_simps)
    then have "unat (of_nat i :: u64) = unat ((b - a) + of_nat j)" by simp
    moreover have "unat ((b - a) + of_nat j :: u64) = (unat (b - a) + j) mod 2 ^ 64"
      using ij by (simp add: unat_word_ariths unat_of_nat_u64)
    moreover have "unat (of_nat i :: u64) = i" using ij by (simp add: unat_of_nat_u64)
    ultimately have m: "(unat (b - a) + j) mod 2 ^ 64 = i" by simp
    show False
    proof (cases "unat (b - a) + j < 2 ^ 64")
      case True
      with m lo ij show False by simp
    next
      case False
      with hi ij show False by simp
    qed
  qed
qed

lemma load64_at_top:
  assumes "8 \<le> - a" and "- a \<le> - 8"
  shows "load64 (store64 m (s - a) v) s = load64 m s"
proof -
  have "load64 (store64 m (s - a) v) (s - 0) = load64 m (s - 0)"
    by (rule load64_below) (use assms in simp_all)
  then show ?thesis by simp
qed

text \<open>Reading the frame after the call gives what was there before it.\<close>

lemma callee_load:
  assumes "abi_ok callee" and "unat (a - regs m RSP) \<le> 184"
  shows "load64 (mmem (callee m)) a = load64 (mmem m) a"
proof -
  have "mmem (callee m) (a + of_nat i) = mmem m (a + of_nat i)" if "i < 8" for i
  proof -
    have "unat (a + of_nat i - regs m RSP) = unat (a - regs m RSP) + i"
    proof -
      have "a + of_nat i - regs m RSP = (a - regs m RSP) + of_nat i" by (simp add: algebra_simps)
      moreover have "unat ((a - regs m RSP) + of_nat i :: u64) = unat (a - regs m RSP) + i"
        using assms(2) that by (simp add: unat_word_ariths unat_of_nat_u64)
      ultimately show ?thesis by (simp only:)
    qed
    then have "in_frame (regs m RSP) (a + of_nat i)" using assms(2) that by (simp add: in_frame_def)
    with assms(1) show ?thesis by (simp add: abi_ok_def)
  qed
  then show ?thesis
    unfolding load64_def load_bytes_def by (intro arg_cong [where f = u64_from_le] map_cong refl) simp
qed

text \<open>The machine at the call: the frame below the return address is filled.\<close>

definition at_call :: "machine \<Rightarrow> machine" where
  "at_call m =
    spill 0x70 7 (spill 0x60 6 (spill 0x50 5 (spill 0x40 4 (spill 0x30 3 (spill 0x20 2
      (spill 0x10 1 (spill 0 0 (sub_rsp 128
        (push R9 (push R8 (push RCX (push RDX (push RSI (push RDI (mov RBP RSP (push RBP
          (test RDI m)))))))))))))))))"

lemmas machine_defs = push_def pop_def spill_def reload_def set_reg_def mov_def sub_rsp_def add_rsp_def
  test_def Let_def

lemma at_call_regs:
  "regs (at_call m) = (regs m)(RBP := regs m RSP - 8, RSP := regs m RSP - 184)"
  by (simp add: at_call_def machine_defs fun_eq_iff)

lemma at_call_frame:
  "load64 (mmem (at_call m)) (regs m RSP - 8) = regs m RBP"
  "load64 (mmem (at_call m)) (regs m RSP - 16) = regs m RDI"
  "load64 (mmem (at_call m)) (regs m RSP - 24) = regs m RSI"
  "load64 (mmem (at_call m)) (regs m RSP - 32) = regs m RDX"
  "load64 (mmem (at_call m)) (regs m RSP - 40) = regs m RCX"
  "load64 (mmem (at_call m)) (regs m RSP - 48) = regs m R8"
  "load64 (mmem (at_call m)) (regs m RSP - 56) = regs m R9"
  by (simp_all add: at_call_def machine_defs load64_below load64_at_top)

lemma at_call_xmm:
  "load64 (mmem (at_call m)) (regs m RSP - 184) = fst (xmm m 0)"
  "load64 (mmem (at_call m)) (regs m RSP - 176) = snd (xmm m 0)"
  "load64 (mmem (at_call m)) (regs m RSP - 168) = fst (xmm m 1)"
  "load64 (mmem (at_call m)) (regs m RSP - 160) = snd (xmm m 1)"
  "load64 (mmem (at_call m)) (regs m RSP - 152) = fst (xmm m 2)"
  "load64 (mmem (at_call m)) (regs m RSP - 144) = snd (xmm m 2)"
  "load64 (mmem (at_call m)) (regs m RSP - 136) = fst (xmm m 3)"
  "load64 (mmem (at_call m)) (regs m RSP - 128) = snd (xmm m 3)"
  "load64 (mmem (at_call m)) (regs m RSP - 120) = fst (xmm m 4)"
  "load64 (mmem (at_call m)) (regs m RSP - 112) = snd (xmm m 4)"
  "load64 (mmem (at_call m)) (regs m RSP - 104) = fst (xmm m 5)"
  "load64 (mmem (at_call m)) (regs m RSP - 96) = snd (xmm m 5)"
  "load64 (mmem (at_call m)) (regs m RSP - 88) = fst (xmm m 6)"
  "load64 (mmem (at_call m)) (regs m RSP - 80) = snd (xmm m 6)"
  "load64 (mmem (at_call m)) (regs m RSP - 72) = fst (xmm m 7)"
  "load64 (mmem (at_call m)) (regs m RSP - 64) = snd (xmm m 7)"
  "load64 (mmem (at_call m)) (regs m RSP) = load64 (mmem m) (regs m RSP)"
  by (simp_all add: at_call_def machine_defs load64_below load64_at_top)

lemma callee_slot:
  assumes "abi_ok callee" and "k \<le> 184"
  shows "load64 (mmem (callee (at_call m))) (regs m RSP - k) = load64 (mmem (at_call m)) (regs m RSP - k)"
  by (rule callee_load [OF assms(1)]) (use assms(2) in \<open>simp add: at_call_regs word_le_nat_alt unat_sub\<close>)

lemma callee_slot_top:
  "abi_ok callee \<Longrightarrow> load64 (mmem (callee (at_call m))) (regs m RSP) = load64 (mmem m) (regs m RSP)"
  using callee_slot [of callee 0 m] by (simp add: at_call_xmm)

text \<open>The machine at the jump, from the machine the lookup gave back.\<close>

definition at_jump :: "machine \<Rightarrow> machine" where
  "at_jump c =
    pop RBP (pop RDI (pop RSI (pop RDX (pop RCX (pop R8 (pop R9 (add_rsp 128
      (reload 7 0x70 (reload 6 0x60 (reload 5 0x50 (reload 4 0x40 (reload 3 0x30 (reload 2 0x20
        (reload 1 0x10 (reload 0 0 (test RAX c))))))))))))))))"

section \<open>Running the code\<close>

lemma fetch:
  "objc_msgSend ! 0 = Test RDI" "objc_msgSend ! 1 = Jz 39" "objc_msgSend ! 2 = Push RBP"
  "objc_msgSend ! 3 = Mov RBP RSP" "objc_msgSend ! 4 = Push RDI" "objc_msgSend ! 5 = Push RSI"
  "objc_msgSend ! 6 = Push RDX" "objc_msgSend ! 7 = Push RCX" "objc_msgSend ! 8 = Push R8"
  "objc_msgSend ! 9 = Push R9" "objc_msgSend ! 10 = SubRsp 128" "objc_msgSend ! 11 = Spill 0 0"
  "objc_msgSend ! 12 = Spill 0x10 1" "objc_msgSend ! 13 = Spill 0x20 2" "objc_msgSend ! 14 = Spill 0x30 3"
  "objc_msgSend ! 15 = Spill 0x40 4" "objc_msgSend ! 16 = Spill 0x50 5" "objc_msgSend ! 17 = Spill 0x60 6"
  "objc_msgSend ! 18 = Spill 0x70 7" "objc_msgSend ! 19 = CallLookup" "objc_msgSend ! 20 = Test RAX"
  "objc_msgSend ! 21 = Jz 39" "objc_msgSend ! 22 = Reload 0 0" "objc_msgSend ! 23 = Reload 1 0x10"
  "objc_msgSend ! 24 = Reload 2 0x20" "objc_msgSend ! 25 = Reload 3 0x30" "objc_msgSend ! 26 = Reload 4 0x40"
  "objc_msgSend ! 27 = Reload 5 0x50" "objc_msgSend ! 28 = Reload 6 0x60" "objc_msgSend ! 29 = Reload 7 0x70"
  "objc_msgSend ! 30 = AddRsp 128" "objc_msgSend ! 31 = Pop R9" "objc_msgSend ! 32 = Pop R8"
  "objc_msgSend ! 33 = Pop RCX" "objc_msgSend ! 34 = Pop RDX" "objc_msgSend ! 35 = Pop RSI"
  "objc_msgSend ! 36 = Pop RDI" "objc_msgSend ! 37 = Pop RBP" "objc_msgSend ! 38 = JmpRax"
  "objc_msgSend ! 39 = XorSelf RAX" "objc_msgSend ! 40 = XorSelf RDX" "objc_msgSend ! 41 = Ret"
  "length objc_msgSend = 42"
  by (simp_all add: objc_msgSend_def)

lemmas run_num = run.simps(2) [of callee prog "pred_numeral k" for callee prog k, folded numeral_eq_Suc]

lemma zf_kept [simp]:
  "zf (push r m) = zf m" "zf (pop r m) = zf m" "zf (spill k n m) = zf m" "zf (reload n k m) = zf m"
  "zf (mov d s m) = zf m" "zf (sub_rsp k m) = zf m" "zf (add_rsp k m) = zf m" "zf (test r m) = (regs m r = 0)"
  by (simp_all add: machine_defs)

lemma run_to_call:
  "regs m RDI \<noteq> 0 \<Longrightarrow> run callee objc_msgSend 60 0 m = run callee objc_msgSend 41 19 (at_call m)"
  by (simp add: run_num fetch at_call_def del: One_nat_def)

lemma run_nil:
  "regs m RDI = 0 \<Longrightarrow> run callee objc_msgSend 60 0 m
     = Some (Returned (load64 (mmem m) (regs m RSP)) (add_rsp 8 (set_reg RDX 0 (set_reg RAX 0 (test RDI m)))))"
  by (simp add: run_num fetch del: One_nat_def) (simp add: machine_defs)

lemma run_from_call:
  "regs (callee (at_call m)) RAX \<noteq> 0 \<Longrightarrow> run callee objc_msgSend 41 19 (at_call m)
     = Some (Jumped (regs (at_jump (callee (at_call m))) RAX) (at_jump (callee (at_call m))))"
  by (simp add: run_num fetch at_jump_def del: One_nat_def)

lemma run_null_imp:
  "regs (callee (at_call m)) RAX = 0 \<Longrightarrow> run callee objc_msgSend 41 19 (at_call m)
     = (let c = set_reg RDX 0 (set_reg RAX 0 (test RAX (callee (at_call m))))
        in Some (Returned (load64 (mmem c) (regs c RSP)) (add_rsp 8 c)))"
  by (simp add: run_num fetch del: One_nat_def) (simp add: machine_defs)

section \<open>What the caller sees\<close>

text \<open>Every register the target may read is as the caller left it, and the return address is on top.\<close>

definition after_dispatch :: "machine \<Rightarrow> machine \<Rightarrow> bool" where
  "after_dispatch m m' \<longleftrightarrow>
     (\<forall>r \<in> {RDI, RSI, RDX, RCX, R8, R9, RBP, RSP}. regs m' r = regs m r)
   \<and> (\<forall>n < 8. xmm m' n = xmm m n)
   \<and> load64 (mmem m') (regs m' RSP) = load64 (mmem m) (regs m RSP)"

lemma all_below_8:
  "(\<forall>n < 8. P n) \<longleftrightarrow> P 0 \<and> P 1 \<and> P 2 \<and> P 3 \<and> P 4 \<and> P 5 \<and> P 6 \<and> P (7::nat)"
proof -
  have "n < 8 \<longleftrightarrow> n \<in> {0, 1, 2, 3, 4, 5, 6, 7}" for n :: nat by auto
  then show ?thesis by (simp add: all_conj_distrib)
qed

lemma reload_fields:
  "regs (reload n k m) = regs m" "mmem (reload n k m) = mmem m"
  "xmm (reload n k m) = (xmm m)(n := (load64 (mmem m) (regs m RSP + k), load64 (mmem m) (regs m RSP + k + 8)))"
  "regs (test r m) = regs m" "mmem (test r m) = mmem m" "xmm (pop r m) = xmm m" "xmm (add_rsp k m) = xmm m"
  by (simp_all add: machine_defs add.assoc)

lemma at_jump_regs:
  assumes "regs c RSP = s - 184"
  shows "regs (at_jump c) = (regs c)(R9 := load64 (mmem c) (s - 56), R8 := load64 (mmem c) (s - 48),
      RCX := load64 (mmem c) (s - 40), RDX := load64 (mmem c) (s - 32), RSI := load64 (mmem c) (s - 24),
      RDI := load64 (mmem c) (s - 16), RBP := load64 (mmem c) (s - 8), RSP := s)"
  using assms by (simp add: at_jump_def reload_fields pop_def add_rsp_def set_reg_def Let_def fun_eq_iff)

lemma at_jump_xmm:
  assumes "regs c RSP = s - 184"
  shows "xmm (at_jump c) 0 = (load64 (mmem c) (s - 184), load64 (mmem c) (s - 176))"
    "xmm (at_jump c) 1 = (load64 (mmem c) (s - 168), load64 (mmem c) (s - 160))"
    "xmm (at_jump c) 2 = (load64 (mmem c) (s - 152), load64 (mmem c) (s - 144))"
    "xmm (at_jump c) 3 = (load64 (mmem c) (s - 136), load64 (mmem c) (s - 128))"
    "xmm (at_jump c) 4 = (load64 (mmem c) (s - 120), load64 (mmem c) (s - 112))"
    "xmm (at_jump c) 5 = (load64 (mmem c) (s - 104), load64 (mmem c) (s - 96))"
    "xmm (at_jump c) 6 = (load64 (mmem c) (s - 88), load64 (mmem c) (s - 80))"
    "xmm (at_jump c) 7 = (load64 (mmem c) (s - 72), load64 (mmem c) (s - 64))"
  using assms by (simp_all add: at_jump_def reload_fields)

lemma at_jump_mem: "mmem (at_jump c) = mmem c"
  by (simp add: at_jump_def machine_defs)

lemma dispatch_state:
  assumes abi: "abi_ok callee"
  shows "after_dispatch m (at_jump (callee (at_call m)))
       \<and> regs (at_jump (callee (at_call m))) RAX = regs (callee (at_call m)) RAX"
proof -
  have sp: "regs (callee (at_call m)) RSP = regs m RSP - 184"
    using abi by (simp add: abi_ok_def at_call_regs)
  show ?thesis
    by (simp add: after_dispatch_def all_below_8 at_jump_regs [OF sp] at_jump_xmm [OF sp] at_jump_mem
        callee_slot [OF abi] callee_slot_top [OF abi] at_call_frame at_call_xmm del: One_nat_def)
qed

text \<open>
  C28. \<open>objc_msgSend\<close> is transparent: for a non-null receiver whose lookup gives a method, the
  code calls the lookup with the receiver and the selector on a stack that keeps the
  caller's alignment, and then jumps to the method with every argument register (integer
  and floating point), the frame pointer, the stack pointer and the return address as the
  caller left them; for a null receiver it returns zero to the caller.
\<close>

theorem msgSend_transparent:
  assumes "abi_ok callee"
  shows "(regs m RDI \<noteq> 0 \<and> regs (callee (at_call m)) RAX \<noteq> 0 \<longrightarrow>
            regs (at_call m) RDI = regs m RDI \<and> regs (at_call m) RSI = regs m RSI
          \<and> regs (at_call m) RSP = regs m RSP - 184
          \<and> (\<exists>m'. run callee objc_msgSend 60 0 m = Some (Jumped (regs (callee (at_call m)) RAX) m')
               \<and> after_dispatch m m'))
       \<and> (regs m RDI = 0 \<longrightarrow>
            (\<exists>m'. run callee objc_msgSend 60 0 m = Some (Returned (load64 (mmem m) (regs m RSP)) m')
               \<and> regs m' RAX = 0 \<and> regs m' RDX = 0 \<and> regs m' RSP = regs m RSP + 8 \<and> mmem m' = mmem m))"
proof (intro conjI impI; (elim conjE)?)
  assume "regs m RDI \<noteq> 0" and "regs (callee (at_call m)) RAX \<noteq> 0"
  with dispatch_state [OF assms, of m]
  show "\<exists>m'. run callee objc_msgSend 60 0 m = Some (Jumped (regs (callee (at_call m)) RAX) m')
          \<and> after_dispatch m m'"
    by (simp add: run_to_call run_from_call)
next
  assume "regs m RDI = 0"
  then show "\<exists>m'. run callee objc_msgSend 60 0 m = Some (Returned (load64 (mmem m) (regs m RSP)) m')
        \<and> regs m' RAX = 0 \<and> regs m' RDX = 0 \<and> regs m' RSP = regs m RSP + 8 \<and> mmem m' = mmem m"
    by (simp add: run_nil) (simp add: machine_defs)
qed (simp_all add: at_call_regs)

definition demo_callee :: "u64 \<Rightarrow> machine \<Rightarrow> machine" where
  "demo_callee v m = m\<lparr>regs := (\<lambda>r. if r = RSP \<or> r = RBP then regs m r else 0xdead)(RAX := v),
     xmm := (\<lambda>_. (0xdead, 0xdead))\<rparr>"

definition demo_machine :: "u64 \<Rightarrow> machine" where
  "demo_machine receiver = \<lparr>regs = (\<lambda>_. 7)(RDI := receiver, RSP := 0x7ff8), xmm = (\<lambda>n. (of_nat n + 0x1234, 0)),
     mmem = store64 (\<lambda>_. 0) 0x7ff8 0x401000, zf = False\<rparr>"

lemma demo_callee_abi: "abi_ok (demo_callee v)"
  by (simp add: abi_ok_def demo_callee_def)

theorem msgSend_transparent_witness:
  "(\<exists>m'. run (demo_callee 0x5000) objc_msgSend 60 0 (demo_machine 0x9000) = Some (Jumped 0x5000 m')
      \<and> regs m' RSI = 7 \<and> xmm m' 3 = (0x1237, 0))
   \<and> (\<exists>m'. run (demo_callee 0x5000) objc_msgSend 60 0 (demo_machine 0) = Some (Returned 0x401000 m'))"
  using msgSend_transparent [OF demo_callee_abi, of "demo_machine 0x9000" "0x5000"]
    msgSend_transparent [OF demo_callee_abi, of "demo_machine 0" "0x5000"]
  by (auto simp: demo_machine_def demo_callee_def after_dispatch_def)

text \<open>
  A null \<open>IMP\<close> breaks the stack: when the lookup of a non-null receiver gives no method,
  the code takes the null-receiver exit with its frame still pushed, so it returns to the
  address held in the low half of \<open>xmm0\<close> instead of the caller's return address.
\<close>

theorem msgSend_null_imp:
  assumes "abi_ok callee" and "regs m RDI \<noteq> 0" and "regs (callee (at_call m)) RAX = 0"
  shows "\<exists>m'. run callee objc_msgSend 60 0 m = Some (Returned (fst (xmm m 0)) m')
            \<and> regs m' RSP = regs m RSP - 176"
proof -
  have sp: "regs (callee (at_call m)) RSP = regs m RSP - 184"
    using assms(1) by (simp add: abi_ok_def at_call_regs)
  show ?thesis
    using assms(2,3) callee_slot [OF assms(1), of 184 m]
    by (simp add: run_to_call run_null_imp Let_def) (simp add: machine_defs sp at_call_xmm)
qed

theorem msgSend_null_imp_witness:
  "\<exists>m'. run (demo_callee 0) objc_msgSend 60 0 (demo_machine 0x9000) = Some (Returned 0x1234 m')"
  using msgSend_null_imp [OF demo_callee_abi, of "demo_machine 0x9000" 0]
  by (auto simp: demo_machine_def demo_callee_def)

end
