(* ===== verification/Linker.thy ===== *)
theory Linker
  imports Resolver ObjcRuntime Mapper
begin

text \<open>
  \<open>grafted-dyld/src/linker.rs\<close>, symbol resolution and binding: the registry of shim symbols,
  the loaded libraries, the order in which a symbol is looked for, the stub Objective-C
  classes made on demand, and the patching of import slots. Parameters: goblin's parser
  (\<open>gp\<close>), \<open>dlsym\<close>, the addresses of the trap and the soft stub, and the blocks the
  allocator hands out (\<open>fresh n\<close> is the n-th). A \<open>HashMap\<close> the code iterates over is an
  association list in its iteration order.
\<close>

datatype link_error =
    LinkParse string
  | Unresolved string string
  | LinkLoader loader_error
  | LibraryNotFound string

record linker =
  registry :: "(string \<times> (string \<times> u64) list) list"
  lk_resolver :: dylib_resolver
  loaded_libraries :: "(string \<times> macho_binary) list"

text \<open>What the operations change: the runtime with the process memory, page rights, the class cache.\<close>

record link_env =
  rt :: objc
  prot_map :: "u64 \<Rightarrow> u32 option"
  class_cache :: "string \<Rightarrow> u64 option"
  n_allocs :: nat

section \<open>Stub classes\<close>

definition zeroed :: "mem \<Rightarrow> u64 \<Rightarrow> nat \<Rightarrow> mem" where
  "zeroed m p n = store_bytes m p (replicate n 0)"

text \<open>\<open>CString::new(name).unwrap_or_default()\<close>: empty when the name has a NUL inside.\<close>

definition c_bytes :: "string \<Rightarrow> u8 list" where
  "c_bytes name = (if CHR 0x00 \<in> set name then [] else bytes_of_text name)"

text \<open>The stub: a zeroed class whose \<open>class_ro_t\<close> has the name and an instance size of 256.\<close>

definition build_stub_class :: "u64 \<Rightarrow> u64 \<Rightarrow> u64 \<Rightarrow> mem \<Rightarrow> mem" where
  "build_stub_class cls ro leaked_name m =
    (let m = zeroed m cls 256;
         m = zeroed m ro 256;
         m = store64 m (ro + 24) leaked_name;
         m = store_bytes m (ro + 8) (le_bytes32 256)
     in store64 m (cls + 32) ro)"

definition auto_create_objc_class ::
  "(nat \<Rightarrow> u64) \<Rightarrow> string \<Rightarrow> link_env \<Rightarrow> (u64 \<times> link_env) option" where
  "auto_create_objc_class fresh name env =
    (case class_cache env name of
       Some cls \<Rightarrow> Some (cls, env)
     | None \<Rightarrow>
         let c_name = fresh (n_allocs env);
             rt1 = (rt env)\<lparr>objc_mem := store_bytes (objc_mem (rt env)) c_name (c_bytes name @ [0])\<rparr>
         in case objc_getClass c_name rt1 of
              None \<Rightarrow> None
            | Some existing \<Rightarrow>
                if existing \<noteq> 0 then
                  Some (existing, env\<lparr>rt := rt1, n_allocs := n_allocs env + 1,
                                      class_cache := (class_cache env)(name \<mapsto> existing)\<rparr>)
                else
                  let cls = fresh (n_allocs env + 1); ro = fresh (n_allocs env + 2)
                  in map_option (\<lambda>rt2. (cls, env\<lparr>rt := rt2, n_allocs := n_allocs env + 3,
                                               class_cache := (class_cache env)(name \<mapsto> cls)\<rparr>))
                       (objc_registerClassPair cls (rt1\<lparr>objc_mem := build_stub_class cls ro c_name (objc_mem rt1)\<rparr>)))"

section \<open>Symbols of a loaded library\<close>

definition find_export :: "string \<Rightarrow> goblin_export list \<Rightarrow> goblin_export option" where
  "find_export symbol exports = find (\<lambda>e. ex_name e = symbol) exports"

fun find_symbol :: "string \<Rightarrow> (string \<times> u64) option list \<Rightarrow> u64 option" where
  "find_symbol symbol [] = None"
| "find_symbol symbol (None # syms) = find_symbol symbol syms"
| "find_symbol symbol (Some (name, n_value) # syms) =
    (if (name = symbol \<or> strip_prefix ''_'' name = Some symbol) \<and> n_value \<noteq> 0 then Some n_value
     else find_symbol symbol syms)"

definition find_symbol_in_binary ::
  "(u8 list \<Rightarrow> string + goblin_macho) \<Rightarrow> macho_binary \<Rightarrow> string \<Rightarrow> u64 option" where
  "find_symbol_in_binary gp b symbol =
    (case gp (bin_data b) of
       Inl _ \<Rightarrow> None
     | Inr macho \<Rightarrow>
         (case find_segment ''__TEXT'' (segments b) of
            None \<Rightarrow> None
          | Some text \<Rightarrow>
              (case (case gm_exports macho of Inl _ \<Rightarrow> None | Inr es \<Rightarrow> find_export symbol es) of
                 Some e \<Rightarrow> Some (vmaddr text + ex_offset e)
               | None \<Rightarrow> find_symbol symbol (gm_symbols macho))))"

section \<open>Resolution\<close>

text \<open>\<open>rsplit('/').next()\<close>: what follows the last slash.\<close>

definition short_name :: "string \<Rightarrow> string" where
  "short_name dylib = last (split_slash dylib)"

fun by_short_name :: "string \<Rightarrow> string \<Rightarrow> (string \<times> (string \<times> u64) list) list \<Rightarrow> u64 option" where
  "by_short_name short symbol [] = None"
| "by_short_name short symbol ((reg_name, symbols) # r) =
    (if ends_with reg_name short
     then (case map_of symbols symbol of Some a \<Rightarrow> Some a | None \<Rightarrow> by_short_name short symbol r)
     else by_short_name short symbol r)"

fun in_libraries ::
  "(u8 list \<Rightarrow> string + goblin_macho) \<Rightarrow> string \<Rightarrow> (string \<times> macho_binary) list \<Rightarrow> u64 option" where
  "in_libraries gp symbol [] = None"
| "in_libraries gp symbol ((_, lib) # r) =
    (case find_symbol_in_binary gp lib symbol of Some a \<Rightarrow> Some a | None \<Rightarrow> in_libraries gp symbol r)"

text \<open>The part of the search that reads tables only.\<close>

definition table_lookup ::
  "(u8 list \<Rightarrow> string + goblin_macho) \<Rightarrow> linker \<Rightarrow> string \<Rightarrow> string \<Rightarrow> u64 option" where
  "table_lookup gp lk dylib symbol =
    (case Option.bind (map_of (registry lk) dylib) (\<lambda>symbols. map_of symbols symbol) of
       Some a \<Rightarrow> Some a
     | None \<Rightarrow>
         (case by_short_name (short_name dylib) symbol (registry lk) of
            Some a \<Rightarrow> Some a
          | None \<Rightarrow>
              (case Option.bind (map_of (loaded_libraries lk) dylib)
                      (\<lambda>lib. find_symbol_in_binary gp lib symbol) of
                 Some a \<Rightarrow> Some a
               | None \<Rightarrow> in_libraries gp symbol (loaded_libraries lk))))"

text \<open>A stub class for a class symbol: null (fall through) when the symbol is not one.\<close>

definition stub_for :: "(nat \<Rightarrow> u64) \<Rightarrow> string \<Rightarrow> string \<Rightarrow> link_env \<Rightarrow> (u64 \<times> link_env) option" where
  "stub_for fresh prefix symbol env =
    (case strip_prefix prefix symbol of
       Some class_name \<Rightarrow> auto_create_objc_class fresh class_name env
     | None \<Rightarrow> Some (0, env))"

definition is_swift_symbol :: "string \<Rightarrow> bool" where
  "is_swift_symbol symbol \<longleftrightarrow>
     starts_with symbol ''_$s'' \<or> starts_with symbol ''$s'' \<or> starts_with symbol ''_swift_''"

definition dlsym_name :: "string \<Rightarrow> string" where
  "dlsym_name symbol = (case strip_prefix ''_'' symbol of Some r \<Rightarrow> r | None \<Rightarrow> symbol)"

definition resolve_tail :: "(string \<Rightarrow> u64) \<Rightarrow> string \<Rightarrow> string \<Rightarrow> bool \<Rightarrow> (link_error, u64) outcome" where
  "resolve_tail dlsym dylib symbol is_weak =
    (if is_swift_symbol symbol \<and> CHR 0x00 \<in> set (dlsym_name symbol) then Panic
     else if is_swift_symbol symbol \<and> dlsym (dlsym_name symbol) \<noteq> 0 then Ok (dlsym (dlsym_name symbol))
     else if is_weak then Ok 0
     else Err (Unresolved symbol dylib))"

definition resolve_symbol ::
  "(u8 list \<Rightarrow> string + goblin_macho) \<Rightarrow> (string \<Rightarrow> u64) \<Rightarrow> (nat \<Rightarrow> u64) \<Rightarrow> linker
     \<Rightarrow> string \<Rightarrow> string \<Rightarrow> bool \<Rightarrow> link_env \<Rightarrow> ((link_error, u64) outcome \<times> link_env) option" where
  "resolve_symbol gp dlsym fresh lk dylib symbol is_weak env =
    (case table_lookup gp lk dylib symbol of
       Some a \<Rightarrow> Some (Ok a, env)
     | None \<Rightarrow>
         (case stub_for fresh ''_OBJC_CLASS_$_'' symbol env of
            None \<Rightarrow> None
          | Some (cls, env1) \<Rightarrow>
              if cls \<noteq> 0 then Some (Ok cls, env1)
              else
                (case stub_for fresh ''_OBJC_METACLASS_$_'' symbol env1 of
                   None \<Rightarrow> None
                 | Some (meta, env2) \<Rightarrow>
                     if meta \<noteq> 0 then Some (Ok meta, env2)
                     else Some (resolve_tail dlsym dylib symbol is_weak, env2))))"

text \<open>Both branches of the error case answer with the soft stub; only the log differs.\<close>

definition resolve_external ::
  "(u8 list \<Rightarrow> string + goblin_macho) \<Rightarrow> (string \<Rightarrow> u64) \<Rightarrow> (nat \<Rightarrow> u64) \<Rightarrow> u64 \<Rightarrow> linker
     \<Rightarrow> string \<Rightarrow> string \<Rightarrow> link_env \<Rightarrow> ((link_error, u64) outcome \<times> link_env) option" where
  "resolve_external gp dlsym fresh soft_stub lk dylib symbol env =
    (case resolve_symbol gp dlsym fresh lk dylib symbol False env of
       None \<Rightarrow> None
     | Some (Ok a, env1) \<Rightarrow> Some (Ok a, env1)
     | Some (Err _, env1) \<Rightarrow> Some (Ok soft_stub, env1)
     | Some (Panic, env1) \<Rightarrow> Some (Panic, env1))"

section \<open>Binding\<close>

definition write_slot :: "u64 \<Rightarrow> u64 \<Rightarrow> link_env \<Rightarrow> link_env" where
  "write_slot target addr env =
    env\<lparr>prot_map := over (target AND NOT 0xFFF) 4096 (Some (PROT_READ OR PROT_WRITE)) (prot_map env),
        rt := (rt env)\<lparr>objc_mem := store64 (objc_mem (rt env)) target addr\<rparr>\<rparr>"

text \<open>The address a slot gets: the symbol, or the trap.\<close>

definition or_trap :: "u64 \<Rightarrow> (link_error, u64) outcome \<Rightarrow> (link_error, u64) outcome" where
  "or_trap trap r = (case r of Ok a \<Rightarrow> Ok a | Err _ \<Rightarrow> Ok trap | Panic \<Rightarrow> Panic)"

fun bind_imports ::
  "(u8 list \<Rightarrow> string + goblin_macho) \<Rightarrow> (string \<Rightarrow> u64) \<Rightarrow> (nat \<Rightarrow> u64) \<Rightarrow> u64 \<Rightarrow> linker
     \<Rightarrow> goblin_import list \<Rightarrow> nat \<Rightarrow> link_env \<Rightarrow> ((link_error, nat) outcome \<times> link_env) option" where
  "bind_imports gp dlsym fresh trap lk [] bound env = Some (Ok bound, env)"
| "bind_imports gp dlsym fresh trap lk (im # ims) bound env =
    (case resolve_symbol gp dlsym fresh lk (im_dylib im) (im_name im) (im_is_weak im) env of
       None \<Rightarrow> None
     | Some (r, env1) \<Rightarrow>
         (case or_trap trap r of
            Ok addr \<Rightarrow> bind_imports gp dlsym fresh trap lk ims (bound + 1) (write_slot (im_address im) addr env1)
          | Err e \<Rightarrow> Some (Err e, env1)
          | Panic \<Rightarrow> Some (Panic, env1)))"

definition bind ::
  "(u8 list \<Rightarrow> string + goblin_macho) \<Rightarrow> (string \<Rightarrow> u64) \<Rightarrow> (nat \<Rightarrow> u64) \<Rightarrow> u64 \<Rightarrow> linker
     \<Rightarrow> u8 list \<Rightarrow> link_env \<Rightarrow> ((link_error, nat) outcome \<times> link_env) option" where
  "bind gp dlsym fresh trap lk data env =
    (case gp data of
       Inl e \<Rightarrow> Some (Err (LinkParse e), env)
     | Inr macho \<Rightarrow>
         (case gm_imports macho of
            Inl e \<Rightarrow> Some (Err (LinkParse e), env)
          | Inr imports \<Rightarrow> bind_imports gp dlsym fresh trap lk imports 0 env))"

section \<open>Non-lazy symbol pointers\<close>

text \<open>Address and entry count of the last section of type \<open>S_NON_LAZY_SYMBOL_POINTERS\<close>.\<close>

definition nl_section :: "goblin_section option \<Rightarrow> u64 \<times> u64 \<Rightarrow> u64 \<times> u64" where
  "nl_section r acc =
    (case r of
       None \<Rightarrow> acc
     | Some sec \<Rightarrow> if sect_flags sec AND 0xFF = 0x6 then (sect_addr sec, sect_size sec div 8) else acc)"

definition nl_symtab :: "load_command \<Rightarrow> u32 \<times> u32 \<times> u32 \<times> u32 \<Rightarrow> u32 \<times> u32 \<times> u32 \<times> u32" where
  "nl_symtab lc acc =
    (case acc of (symtab_off, nsyms, indirect_off, nindirect) \<Rightarrow>
       case lc of
         Symtab symoff n stroff \<Rightarrow> (symoff, n, indirect_off, nindirect)
       | Dysymtab off n \<Rightarrow> (symtab_off, nsyms, off, n)
       | _ \<Rightarrow> acc)"

definition indirect_data_off :: "load_command list \<Rightarrow> nat" where
  "indirect_data_off lcs =
    (case fold nl_symtab lcs (0, 0, 0, 0) of (symtab_off, nsyms, indirect_off, nindirect) \<Rightarrow>
       if indirect_off > 0 \<and> nindirect > 0 then unat indirect_off
       else unat symtab_off + unat nsyms * 16)"

definition libSystem :: string where
  "libSystem = ''/usr/lib/libSystem.B.dylib''"

fun bind_nl_entries ::
  "(u8 list \<Rightarrow> string + goblin_macho) \<Rightarrow> (string \<Rightarrow> u64) \<Rightarrow> (nat \<Rightarrow> u64) \<Rightarrow> u64 \<Rightarrow> linker
     \<Rightarrow> u8 list \<Rightarrow> nat \<Rightarrow> (string \<times> u64) option list \<Rightarrow> u64 \<Rightarrow> nat list \<Rightarrow> nat \<Rightarrow> link_env
     \<Rightarrow> ((link_error, nat) outcome \<times> link_env) option" where
  "bind_nl_entries gp dlsym fresh trap lk data ind symbols nl_addr [] bound env = Some (Ok bound, env)"
| "bind_nl_entries gp dlsym fresh trap lk data ind symbols nl_addr (k # ks) bound env =
    (if ind + k * 4 + 4 > length data then Some (Ok bound, env)
     else
       let sym_idx = unat (u32_from_le (drop (ind + k * 4) data)) in
       if sym_idx \<ge> length symbols then
         bind_nl_entries gp dlsym fresh trap lk data ind symbols nl_addr ks bound env
       else
         (case symbols ! sym_idx of
            None \<Rightarrow> bind_nl_entries gp dlsym fresh trap lk data ind symbols nl_addr ks bound env
          | Some (name, _) \<Rightarrow>
              (case resolve_symbol gp dlsym fresh lk libSystem name False env of
                 None \<Rightarrow> None
               | Some (r, env1) \<Rightarrow>
                   (case or_trap trap r of
                      Ok addr \<Rightarrow>
                        bind_nl_entries gp dlsym fresh trap lk data ind symbols nl_addr ks (bound + 1)
                          (write_slot (nl_addr + of_nat k * 8) addr env1)
                    | Err e \<Rightarrow> Some (Err e, env1)
                    | Panic \<Rightarrow> Some (Panic, env1)))))"

definition bind_nl_symbol_ptrs ::
  "(u8 list \<Rightarrow> string + goblin_macho) \<Rightarrow> (string \<Rightarrow> u64) \<Rightarrow> (nat \<Rightarrow> u64) \<Rightarrow> u64 \<Rightarrow> linker
     \<Rightarrow> macho_binary \<Rightarrow> link_env \<Rightarrow> ((link_error, nat) outcome \<times> link_env) option" where
  "bind_nl_symbol_ptrs gp dlsym fresh trap lk b env =
    (case gp (bin_data b) of
       Inl e \<Rightarrow> Some (Err (LinkParse e), env)
     | Inr macho \<Rightarrow>
         (case fold nl_section (concat (gm_segments macho)) (0, 0) of (nl_addr, nl_count) \<Rightarrow>
            if nl_count = 0 then Some (Ok 0, env)
            else bind_nl_entries gp dlsym fresh trap lk (bin_data b) (indirect_data_off (gm_commands macho))
                   (gm_symbols macho) nl_addr [0..<unat nl_count] 0 env))"

section \<open>What resolution finds\<close>

text \<open>The registry tables a library name selects: its own, and those whose path ends with its file name.\<close>

definition selected :: "string \<Rightarrow> string \<times> 'v \<Rightarrow> bool" where
  "selected dylib e \<longleftrightarrow> ends_with (fst e) (short_name dylib)"

text \<open>The symbol is in no table the search reads.\<close>

definition nowhere :: "(u8 list \<Rightarrow> string + goblin_macho) \<Rightarrow> linker \<Rightarrow> string \<Rightarrow> string \<Rightarrow> bool" where
  "nowhere gp lk dylib symbol \<longleftrightarrow>
     (\<forall>e \<in> set (registry lk). selected dylib e \<longrightarrow> symbol \<notin> fst ` set (snd e))
   \<and> (\<forall>l \<in> set (loaded_libraries lk). find_symbol_in_binary gp (snd l) symbol = None)"

text \<open>A symbol that is neither an Objective-C class nor one of Swift's.\<close>

definition plain_symbol :: "string \<Rightarrow> bool" where
  "plain_symbol symbol \<longleftrightarrow>
     strip_prefix ''_OBJC_CLASS_$_'' symbol = None \<and> strip_prefix ''_OBJC_METACLASS_$_'' symbol = None
   \<and> \<not> is_swift_symbol symbol"

lemma split_slash_ne: "split_slash s \<noteq> []"
  by (induction s) (auto split: list.splits)

lemma split_slash_single: "split_slash s = [w] \<Longrightarrow> w = s"
  by (induction s arbitrary: w) (auto split: if_splits list.splits simp: split_slash_ne)

lemma split_slash_suffix: "\<exists>r. s = r @ last (split_slash s)"
proof (induction s)
  case Nil
  then show ?case by simp
next
  case (Cons c cs)
  then obtain r where r: "cs = r @ last (split_slash cs)" by blast
  obtain w ws where w: "split_slash cs = w # ws" using split_slash_ne [of cs] by (cases "split_slash cs") auto
  show ?case
  proof (cases "c \<noteq> CHR ''/'' \<and> ws = []")
    case True
    with w split_slash_single [of cs w] show ?thesis by (intro exI [of _ "[]"]) simp
  next
    case False
    with w r have "c # cs = (c # r) @ last (split_slash (c # cs))" by auto
    then show ?thesis by blast
  qed
qed

lemma ends_with_short: "ends_with dylib (short_name dylib)"
  using split_slash_suffix [of dylib] by (simp add: ends_with_iff short_name_def)

lemma map_of_none: "map_of xs k = None \<longleftrightarrow> k \<notin> fst ` set xs"
  by (induction xs) auto

lemma by_short_none:
  "by_short_name short symbol reg = None
     \<longleftrightarrow> (\<forall>e \<in> set reg. ends_with (fst e) short \<longrightarrow> symbol \<notin> fst ` set (snd e))"
proof (induction reg)
  case Nil
  then show ?case by simp
next
  case (Cons e reg)
  obtain n syms where e: "e = (n, syms)" by (cases e)
  show ?case
    by (cases "map_of syms symbol")
       (use Cons map_of_none [of syms symbol] in \<open>auto simp: e dest: map_of_SomeD\<close>)
qed

lemma in_libraries_none:
  "in_libraries gp symbol libs = None \<longleftrightarrow> (\<forall>l \<in> set libs. find_symbol_in_binary gp (snd l) symbol = None)"
  by (induction libs) (auto split: option.splits)

lemma table_lookup_none: "table_lookup gp lk dylib symbol = None \<longleftrightarrow> nowhere gp lk dylib symbol"
proof -
  have "Option.bind (map_of (registry lk) dylib) (\<lambda>symbols. map_of symbols symbol) = None"
    if "by_short_name (short_name dylib) symbol (registry lk) = None"
  proof (cases "map_of (registry lk) dylib")
    case None
    then show ?thesis by simp
  next
    case (Some syms)
    then have "(dylib, syms) \<in> set (registry lk)" by (rule map_of_SomeD)
    then have "ends_with (fst (dylib, syms)) (short_name dylib) \<longrightarrow> symbol \<notin> fst ` set (snd (dylib, syms))"
      using that unfolding by_short_none by blast
    with ends_with_short [of dylib] have "symbol \<notin> fst ` set syms" by simp
    with Some show ?thesis by (simp add: map_of_none)
  qed
  moreover have "Option.bind (map_of (loaded_libraries lk) dylib) (\<lambda>lib. find_symbol_in_binary gp lib symbol) = None"
    if "in_libraries gp symbol (loaded_libraries lk) = None"
  proof (cases "map_of (loaded_libraries lk) dylib")
    case None
    then show ?thesis by simp
  next
    case (Some lib)
    then have "(dylib, lib) \<in> set (loaded_libraries lk)" by (rule map_of_SomeD)
    then have "find_symbol_in_binary gp (snd (dylib, lib)) symbol = None"
      using that unfolding in_libraries_none by blast
    with Some show ?thesis by simp
  qed
  ultimately have "table_lookup gp lk dylib symbol = None \<longleftrightarrow>
      by_short_name (short_name dylib) symbol (registry lk) = None
    \<and> in_libraries gp symbol (loaded_libraries lk) = None"
    unfolding table_lookup_def
    by (cases "Option.bind (map_of (registry lk) dylib) (\<lambda>symbols. map_of symbols symbol)";
        cases "by_short_name (short_name dylib) symbol (registry lk)";
        cases "Option.bind (map_of (loaded_libraries lk) dylib) (\<lambda>lib. find_symbol_in_binary gp lib symbol)";
        cases "in_libraries gp symbol (loaded_libraries lk)")
       (simp_all only: option.case option.distinct refl simp_thms option.inject)
  then show ?thesis
    by (simp add: by_short_none in_libraries_none nowhere_def selected_def)
qed

lemma resolve_plain:
  "plain_symbol symbol \<Longrightarrow> resolve_symbol gp dlsym fresh lk dylib symbol is_weak env =
    Some ((case table_lookup gp lk dylib symbol of
             Some a \<Rightarrow> Ok a
           | None \<Rightarrow> if is_weak then Ok 0 else Err (Unresolved symbol dylib)), env)"
  by (simp add: resolve_symbol_def plain_symbol_def stub_for_def resolve_tail_def split: option.split)

text \<open>
  What the linker can resolve: for an ordinary symbol the search changes nothing and
  fails exactly when no table it reads has the symbol (the registry entries whose path is
  the library's or ends with its file name, and the symbols of every loaded library); a
  weak symbol then binds to 0 and a strong one is an error; an entry of the library's own
  registry table is always the answer.
\<close>

theorem resolve_complete:
  assumes "plain_symbol symbol"
  shows "\<exists>r. resolve_symbol gp dlsym fresh lk dylib symbol is_weak env = Some (r, env)
       \<and> (nowhere gp lk dylib symbol \<longleftrightarrow> r = (if is_weak then Ok 0 else Err (Unresolved symbol dylib))
            \<and> table_lookup gp lk dylib symbol = None)
       \<and> (\<forall>syms a. map_of (registry lk) dylib = Some syms \<and> map_of syms symbol = Some a \<longrightarrow> r = Ok a)"
  using resolve_plain [OF assms, of gp dlsym fresh lk dylib is_weak env]
    table_lookup_none [of gp lk dylib symbol]
  by (auto simp: table_lookup_def split: option.splits)

definition demo_linker :: linker where
  "demo_linker = \<lparr>registry = [(''/usr/lib/libz.1.dylib'', [(''_inflate'', 0x7100)]),
                              (''/usr/lib/libSystem.B.dylib'', [(''_write'', 0x7000), (''_exit'', 0x7008)])],
     lk_resolver = resolver_new, loaded_libraries = []\<rparr>"

definition demo_env :: link_env where
  "demo_env = \<lparr>rt = objc_empty (\<lambda>_. 0), prot_map = (\<lambda>_. None), class_cache = (\<lambda>_. None), n_allocs = 0\<rparr>"

theorem resolve_complete_witness:
  "\<exists>r. resolve_symbol (\<lambda>_. Inl ''no file'') (\<lambda>_. 0) (\<lambda>_. 0) demo_linker ''libSystem.B.dylib'' ''_nothing'' False demo_env
       = Some (r, demo_env) \<and> r = Err (Unresolved ''_nothing'' ''libSystem.B.dylib'')"
proof -
  have "plain_symbol ''_nothing''" by (simp add: plain_symbol_def is_swift_symbol_def starts_with_def)
  moreover have "nowhere (\<lambda>_. Inl ''no file'') demo_linker ''libSystem.B.dylib'' ''_nothing''"
    by (simp add: nowhere_def demo_linker_def)
  ultimately show ?thesis
    using resolve_complete [of "''_nothing''" "\<lambda>_. Inl ''no file''" "\<lambda>_. 0" "\<lambda>_. 0" demo_linker
        "''libSystem.B.dylib''" False demo_env] by auto
qed

section \<open>Binding writes the right slots\<close>

definition slot_of :: "(u8 list \<Rightarrow> string + goblin_macho) \<Rightarrow> linker \<Rightarrow> u64 \<Rightarrow> goblin_import \<Rightarrow> u64" where
  "slot_of gp lk trap im =
    (case table_lookup gp lk (im_dylib im) (im_name im) of
       Some a \<Rightarrow> a
     | None \<Rightarrow> if im_is_weak im then 0 else trap)"

definition imports_apart :: "goblin_import \<Rightarrow> goblin_import \<Rightarrow> bool" where
  "imports_apart i j \<longleftrightarrow> apart (im_address i) 8 (im_address j) 8"

definition over_slot :: "goblin_import \<Rightarrow> u64 \<Rightarrow> bool" where
  "over_slot im x \<longleftrightarrow> unat (x - im_address im) < 8"

lemma bind_step:
  "plain_symbol (im_name im) \<Longrightarrow>
   bind_imports gp dlsym fresh trap lk (im # ims) n env
     = bind_imports gp dlsym fresh trap lk ims (n + 1) (write_slot (im_address im) (slot_of gp lk trap im) env)"
  by (simp add: resolve_plain or_trap_def slot_of_def split: option.split)

lemma write_slot_mem: "objc_mem (rt (write_slot p v env)) = store64 (objc_mem (rt env)) p v"
  by (simp add: write_slot_def)

lemma bind_imports_writes:
  assumes "\<forall>im \<in> set ims. plain_symbol (im_name im)" and "sorted_wrt imports_apart ims"
  shows "\<exists>env'. bind_imports gp dlsym fresh trap lk ims n env = Some (Ok (n + length ims), env')
      \<and> (\<forall>im \<in> set ims. load64 (objc_mem (rt env')) (im_address im) = slot_of gp lk trap im)
      \<and> (\<forall>x. \<not> (\<exists>im \<in> set ims. over_slot im x) \<longrightarrow> objc_mem (rt env') x = objc_mem (rt env) x)
      \<and> (\<forall>p. (\<forall>im \<in> set ims. apart p 8 (im_address im) 8)
            \<longrightarrow> load64 (objc_mem (rt env')) p = load64 (objc_mem (rt env)) p)"
  using assms
proof (induction ims arbitrary: n env)
  case Nil
  then show ?case by simp
next
  case (Cons im ims)
  let ?env1 = "write_slot (im_address im) (slot_of gp lk trap im) env"
  have pl: "\<forall>i \<in> set ims. plain_symbol (im_name i)" and so: "sorted_wrt imports_apart ims"
    using Cons.prems by simp_all
  from Cons.IH [OF pl so, of "n + 1" ?env1] obtain env' where r: "bind_imports gp dlsym fresh trap lk ims (n + 1) ?env1
        = Some (Ok (n + 1 + length ims), env')"
    and new: "\<forall>i \<in> set ims. load64 (objc_mem (rt env')) (im_address i) = slot_of gp lk trap i"
    and rest: "\<forall>x. \<not> (\<exists>i \<in> set ims. over_slot i x) \<longrightarrow> objc_mem (rt env') x = objc_mem (rt ?env1) x"
    and keep: "\<forall>p. (\<forall>i \<in> set ims. apart p 8 (im_address i) 8)
        \<longrightarrow> load64 (objc_mem (rt env')) p = load64 (objc_mem (rt ?env1)) p"
    by (elim exE conjE) (rule that)
  have "bind_imports gp dlsym fresh trap lk (im # ims) n env = Some (Ok (n + length (im # ims)), env')"
    using r bind_step [of im] Cons.prems(1) by simp
  moreover have "load64 (objc_mem (rt env')) (im_address im) = slot_of gp lk trap im"
    using keep Cons.prems(2) by (simp add: imports_apart_def write_slot_mem)
  moreover have "objc_mem (rt env') x = objc_mem (rt env) x"
    if "\<not> over_slot im x" "\<not> (\<exists>i \<in> set ims. over_slot i x)" for x
    using rest that by (simp add: write_slot_mem store64_def store_bytes_def over_slot_def le_bytes64_def)
  moreover have "load64 (objc_mem (rt env')) p = load64 (objc_mem (rt env)) p"
    if "apart p 8 (im_address im) 8" "\<forall>i \<in> set ims. apart p 8 (im_address i) 8" for p
    using keep that by (simp add: write_slot_mem load64_store64_apart)
  ultimately show ?case using new by (intro exI [of _ env']) simp
qed

text \<open>
  C34. Binding a binary: when its imports are ordinary symbols with disjoint slots, \<open>bind\<close>
  returns their number and leaves in every slot the address the tables give (0 for a weak
  symbol and the trap for a strong one that is in no table), changing no byte outside the slots.
\<close>

theorem bind_patches:
  assumes "gp data = Inr macho" and "gm_imports macho = Inr ims"
    and "\<forall>im \<in> set ims. plain_symbol (im_name im)" and "sorted_wrt imports_apart ims"
  shows "\<exists>env'. bind gp dlsym fresh trap lk data env = Some (Ok (length ims), env')
      \<and> (\<forall>im \<in> set ims. load64 (objc_mem (rt env')) (im_address im) = slot_of gp lk trap im)
      \<and> (\<forall>x. \<not> (\<exists>im \<in> set ims. over_slot im x) \<longrightarrow> objc_mem (rt env') x = objc_mem (rt env) x)"
  using bind_imports_writes [OF assms(3,4), of gp dlsym fresh trap lk 0 env] assms(1,2)
  by (auto simp: bind_def)

definition demo_imports :: "goblin_import list" where
  "demo_imports =
    [\<lparr>im_dylib = ''/usr/lib/libSystem.B.dylib'', im_name = ''_exit'', im_address = 0x8000, im_is_weak = False\<rparr>,
     \<lparr>im_dylib = ''/usr/lib/libSystem.B.dylib'', im_name = ''_gone'', im_address = 0x8010, im_is_weak = True\<rparr>]"

theorem bind_patches_witness:
  "\<exists>env'. bind (\<lambda>_. Inr (demo_macho\<lparr>gm_imports := Inr demo_imports\<rparr>)) (\<lambda>_. 0) (\<lambda>_. 0) 0xdead demo_linker [] demo_env
        = Some (Ok 2, env')
     \<and> load64 (objc_mem (rt env')) 0x8000 = 0x7008 \<and> load64 (objc_mem (rt env')) 0x8010 = 0"
proof -
  let ?gp = "\<lambda>_. Inr (demo_macho\<lparr>gm_imports := Inr demo_imports\<rparr>)"
  have p: "\<forall>im \<in> set demo_imports. plain_symbol (im_name im)"
    by (simp add: demo_imports_def plain_symbol_def is_swift_symbol_def starts_with_def)
  have a: "sorted_wrt imports_apart demo_imports"
    by (simp add: demo_imports_def imports_apart_def apartI_below)
  have v: "slot_of ?gp demo_linker 0xdead (demo_imports ! 0) = 0x7008"
    "slot_of ?gp demo_linker 0xdead (demo_imports ! 1) = 0"
    by (simp_all add: demo_imports_def slot_of_def table_lookup_def demo_linker_def short_name_def
        ends_with_def)
  have "\<exists>env'. bind ?gp (\<lambda>_. 0) (\<lambda>_. 0) 0xdead demo_linker [] demo_env = Some (Ok (length demo_imports), env')
      \<and> (\<forall>im \<in> set demo_imports. load64 (objc_mem (rt env')) (im_address im) = slot_of ?gp demo_linker 0xdead im)
      \<and> (\<forall>x. \<not> (\<exists>im \<in> set demo_imports. over_slot im x) \<longrightarrow> objc_mem (rt env') x = objc_mem (rt demo_env) x)"
    by (rule bind_patches [OF _ _ p a, where macho = "demo_macho\<lparr>gm_imports := Inr demo_imports\<rparr>"]) simp_all
  then obtain env' where b: "bind ?gp (\<lambda>_. 0) (\<lambda>_. 0) 0xdead demo_linker [] demo_env
        = Some (Ok (length demo_imports), env')"
    and s: "\<forall>im \<in> set demo_imports. load64 (objc_mem (rt env')) (im_address im) = slot_of ?gp demo_linker 0xdead im"
    by blast
  have i: "demo_imports ! 0 \<in> set demo_imports" "demo_imports ! 1 \<in> set demo_imports"
      "im_address (demo_imports ! 0) = 0x8000" "im_address (demo_imports ! 1) = 0x8010" "length demo_imports = 2"
    by (simp_all add: demo_imports_def)
  have "load64 (objc_mem (rt env')) 0x8000 = 0x7008" "load64 (objc_mem (rt env')) 0x8010 = 0"
    using s [rule_format, OF i(1)] s [rule_format, OF i(2)] by (simp_all only: i(3,4) v)
  with b i(5) show ?thesis by (intro exI [of _ env'] conjI) simp_all
qed

text \<open>
  Symbols of a slid library are not slid: the address \<open>find_symbol_in_binary\<close> gives for an
  exported symbol of a library mapped with a non-zero slide is the address in the file,
  not the address the symbol was mapped at.
\<close>

theorem exported_symbol_unslid:
  assumes "gp (bin_data b) = Inr macho" and "find_segment ''__TEXT'' (segments b) = Some text"
    and "gm_exports macho = Inr es" and "find_export symbol es = Some e" and "slide b \<noteq> 0"
  shows "find_symbol_in_binary gp b symbol = Some (vmaddr text + ex_offset e)
       \<and> find_symbol_in_binary gp b symbol \<noteq> Some (vmaddr text + slide b + ex_offset e)"
  using assms by (simp add: find_symbol_in_binary_def)

theorem exported_symbol_unslid_witness:
  "find_symbol_in_binary (\<lambda>_. Inr (demo_macho\<lparr>gm_exports := Inr [\<lparr>ex_name = ''_f'', ex_offset = 0x40\<rparr>]\<rparr>))
     (demo_binary\<lparr>segments := [demo_seg ''__TEXT'' 0 0x1000 0 4], slide := 0x7f0000000000\<rparr>) ''_f'' = Some 0x40"
proof -
  let ?m = "demo_macho\<lparr>gm_exports := Inr [\<lparr>ex_name = ''_f'', ex_offset = 0x40\<rparr>]\<rparr>"
  let ?b = "demo_binary\<lparr>segments := [demo_seg ''__TEXT'' 0 0x1000 0 4], slide := 0x7f0000000000\<rparr>"
  have "find_symbol_in_binary (\<lambda>_. Inr ?m) ?b ''_f''
      = Some (vmaddr (demo_seg ''__TEXT'' 0 0x1000 0 4) + ex_offset \<lparr>ex_name = ''_f'', ex_offset = 0x40\<rparr>)"
    by (rule conjunct1, rule exported_symbol_unslid [where macho = ?m and es = "[\<lparr>ex_name = ''_f'', ex_offset = 0x40\<rparr>]"])
       (simp_all add: find_segment_def find_export_def demo_seg_def)
  then show ?thesis by (simp add: demo_seg_def)
qed

section \<open>Stub classes are made once\<close>

text \<open>The three blocks a stub needs: not null, the \<open>class_ro_t\<close> aligned, and pairwise disjoint.\<close>

definition stub_blocks :: "u64 \<Rightarrow> u64 \<Rightarrow> u64 \<Rightarrow> nat \<Rightarrow> bool" where
  "stub_blocks c cls ro n \<longleftrightarrow> c \<noteq> 0 \<and> cls \<noteq> 0 \<and> ro \<noteq> 0 \<and> ro AND NOT 7 = ro \<and> n < 2 ^ 32
     \<and> apart c n cls 256 \<and> apart c n ro 256 \<and> apart cls 256 ro 256"

lemma load64_store_bytes_apart:
  "apart a 8 b (length bs) \<Longrightarrow> length bs < 2 ^ 64 \<Longrightarrow> load64 (store_bytes m b bs) a = load64 m a"
  by (simp add: load64_def load_store_apart)

lemma stub_fields:
  assumes "apart cls 256 ro 256"
  shows "class_data (build_stub_class cls ro nm m) cls = ro"
    and "ro_name (build_stub_class cls ro nm m) ro = nm"
proof -
  show "class_data (build_stub_class cls ro nm m) cls = ro"
    by (simp add: class_data_def build_stub_class_def Let_def)
  have 1: "apart (ro + 24) 8 (cls + 32) 8"
    using apart_sub2 [OF apart_sym [OF assms], of 24 8 32 8] by simp
  have 2: "apart (ro + 24) 8 (ro + 8) (length (le_bytes32 256))"
    using apart_fields [of 24 8 8 4 ro] by (simp add: le_bytes32_def)
  have len: "length (le_bytes32 256) = 4" by (simp add: le_bytes32_def)
  show "ro_name (build_stub_class cls ro nm m) ro = nm"
    unfolding ro_name_def build_stub_class_def Let_def
    by (simp only: load64_store64_apart [OF 1] load64_store_bytes_apart [OF 2]) (simp add: len load64_store_bytes_apart [OF 2])
qed

lemma stub_keeps_name:
  assumes n: "holds_name m c s" and a: "apart c (length s + 1) cls 256" "apart c (length s + 1) ro 256"
  shows "holds_name (build_stub_class cls ro nm m) c s"
proof -
  have st: "holds_name (store64 m' q v) c s" if "holds_name m' c s" "apart c (length s + 1) q 8" for m' q v
    unfolding store64_def by (rule holds_name_keep [OF that(1)]) (use that(2) in \<open>simp_all add: le_bytes64_def\<close>)
  have z: "holds_name (zeroed m' q 256) c s" if "holds_name m' c s" "apart c (length s + 1) q 256" for m' q
    unfolding zeroed_def by (rule holds_name_keep [OF that(1)]) (use that(2) in simp_all)
  have b: "holds_name (store_bytes m' q (le_bytes32 v)) c s"
    if "holds_name m' c s" "apart c (length s + 1) q 4" for m' q v
    by (rule holds_name_keep [OF that(1)]) (use that(2) in \<open>simp_all add: le_bytes32_def\<close>)
  have sub: "apart c (length s + 1) (ro + 24) 8" "apart c (length s + 1) (ro + 8) 4"
      "apart c (length s + 1) (cls + 32) 8"
    using apart_sub2 [OF a(2), of 0 "length s + 1" 24 8] apart_sub2 [OF a(2), of 0 "length s + 1" 8 4]
      apart_sub2 [OF a(1), of 0 "length s + 1" 32 8] by simp_all
  show ?thesis
    unfolding build_stub_class_def Let_def
    by (intro st b z n sub a)
qed

text \<open>
  Stub classes are made once per name: for a class name that is neither cached nor
  registered (plain text without a NUL), \<open>auto_create_objc_class\<close> returns a fresh class,
  registers it with the runtime under that name, and a second call for the same name
  returns the same class and changes nothing.
\<close>

theorem stub_class_once:
  fixes env :: link_env and name :: string
  defines "n \<equiv> n_allocs env"
  assumes nm: "ascii_bytes (bytes_of_text name)" "CHR 0x00 \<notin> set name"
    and new: "class_cache env name = None" "map_of (class_registry (rt env)) name = None"
    and bl: "stub_blocks (fresh n) (fresh (n + 1)) (fresh (n + 2)) (length name + 1)"
  shows "\<exists>env'. auto_create_objc_class fresh name env = Some (fresh (n + 1), env')
       \<and> map_of (class_registry (rt env')) name = Some (fresh (n + 1))
       \<and> auto_create_objc_class fresh name env' = Some (fresh (n + 1), env')"
proof -
  let ?c = "fresh n" and ?cls = "fresh (n + 1)" and ?ro = "fresh (n + 2)"
  let ?m1 = "store_bytes (objc_mem (rt env)) ?c (c_bytes name @ [0])"
  let ?rt1 = "(rt env)\<lparr>objc_mem := ?m1\<rparr>"
  have cb: "c_bytes name = bytes_of_text name" using nm(2) by (simp add: c_bytes_def)
  have "(0 :: u8) \<notin> set (bytes_of_text name)" using bytes_of_text_nul nm(2) by blast
  then have hold1: "holds_name ?m1 ?c name"
    using holds_name_new [of "bytes_of_text name" "objc_mem (rt env)" ?c] bl
    by (simp add: cb stub_blocks_def)
  then have c1: "cstr_from ?m1 ?c = Some (bytes_of_text name)" by (simp add: holds_name_def)
  have lt: "lossy_text (bytes_of_text name) = name" using nm(1) by (simp add: lossy_text_def utf8_lossy_ascii)
  have get: "objc_getClass ?c ?rt1 = Some 0"
    using bl c1 lt new(2) by (simp add: objc_getClass_def stub_blocks_def)
  let ?m2 = "build_stub_class ?cls ?ro ?c ?m1"
  have "holds_name ?m2 ?c name" by (rule stub_keeps_name [OF hold1]) (use bl in \<open>simp_all add: stub_blocks_def\<close>)
  then have c2: "cstr_from ?m2 ?c = Some (bytes_of_text name)" by (simp add: holds_name_def)
  have reg: "objc_registerClassPair ?cls (?rt1\<lparr>objc_mem := ?m2\<rparr>)
      = Some ((?rt1\<lparr>objc_mem := ?m2\<rparr>)\<lparr>class_registry := alist_insert name ?cls (class_registry (rt env))\<rparr>)"
    using bl c2 lt by (simp add: objc_registerClassPair_def stub_blocks_def stub_fields Let_def)
  show ?thesis
    using get reg new(1) by (simp add: auto_create_objc_class_def Let_def n_def [symmetric])
qed

theorem stub_class_once_witness:
  "\<exists>env'. auto_create_objc_class (\<lambda>n. 0x10000 + of_nat n * 0x1000) ''NSView'' demo_env = Some (0x11000, env')
     \<and> map_of (class_registry (rt env')) ''NSView'' = Some 0x11000"
proof -
  let ?f = "\<lambda>n :: nat. 0x10000 + of_nat n * 0x1000 :: u64"
  have bl: "stub_blocks (?f (n_allocs demo_env)) (?f (n_allocs demo_env + 1)) (?f (n_allocs demo_env + 2))
      (length ''NSView'' + 1)"
    by (simp add: stub_blocks_def demo_env_def apartI_below)
  have "ascii_bytes (bytes_of_text ''NSView'')" "CHR 0x00 \<notin> set ''NSView''"
    by (simp_all add: ascii_bytes_def bytes_of_text_def)
  from stub_class_once [OF this _ _ bl] show ?thesis by (simp add: demo_env_def objc_empty_def) blast
qed

end
