(* ===== verification/LinkDeps.thy ===== *)
theory LinkDeps
  imports Linker
begin

text \<open>
  \<open>grafted-dyld/src/linker.rs\<close>, the dependency loop. The stack \<open>to_load\<close> is a list whose
  head is the element that \<open>pop\<close> takes. Reading a file and the kernel's mapping calls are
  parameters; the loop takes fuel, and a bound on the library names that can turn up gives
  enough of it.
\<close>

section \<open>Loading\<close>

fun intercalate :: "string \<Rightarrow> string list \<Rightarrow> string" where
  "intercalate sep [] = []"
| "intercalate sep [w] = w"
| "intercalate sep (w # ws) = w @ sep @ intercalate sep ws"

definition path_text :: "path \<Rightarrow> string" where
  "path_text p = (if rooted p then ''/'' else []) @ intercalate ''/'' (comps p)"

definition from_path ::
  "(path \<Rightarrow> string + u8 list) \<Rightarrow> (u8 list \<Rightarrow> string + goblin_macho) \<Rightarrow> (u8 list \<Rightarrow> string + goblin_mach)
     \<Rightarrow> path \<Rightarrow> (loader_error, macho_binary) outcome" where
  "from_path read_file gp gmp p =
    (case read_file p of
       Inl e \<Rightarrow> Err (Io e)
     | Inr data \<Rightarrow> parse gp gmp (path_text p) data)"

type_synonym load_item = "string \<times> path \<times> string list"

definition items_of :: "path \<Rightarrow> macho_binary \<Rightarrow> load_item list" where
  "items_of loader b = map (\<lambda>d. (dep_name d, loader, rpaths b)) (dylib_deps b)"

fun load_loop ::
  "(path \<Rightarrow> bool) \<Rightarrow> (path \<Rightarrow> (loader_error, macho_binary) outcome)
     \<Rightarrow> (macho_binary \<Rightarrow> space \<Rightarrow> (loader_error, (u64 \<times> u64) \<times> space) outcome) \<Rightarrow> path
     \<Rightarrow> nat \<Rightarrow> load_item list \<Rightarrow> string set \<Rightarrow> linker \<Rightarrow> space
     \<Rightarrow> (link_error, linker \<times> space) outcome option" where
  "load_loop exists open_lib map_lib exe 0 st seen lk sp = None"
| "load_loop exists open_lib map_lib exe (Suc fuel) [] seen lk sp = Some (Ok (lk, sp))"
| "load_loop exists open_lib map_lib exe (Suc fuel) ((dylib_path, loader_path, rps) # st) seen lk sp =
    (if dylib_path \<in> seen \<or> dylib_path \<in> fst ` set (registry lk)
     then load_loop exists open_lib map_lib exe fuel st seen lk sp
     else
       (case resolve exists (lk_resolver lk) dylib_path (Some exe) (Some loader_path) rps of
          None \<Rightarrow> load_loop exists open_lib map_lib exe fuel st (insert dylib_path seen) lk sp
        | Some linux_path \<Rightarrow>
            (case open_lib linux_path of
               Err e \<Rightarrow> load_loop exists open_lib map_lib exe fuel st (insert dylib_path seen) lk sp
             | Panic \<Rightarrow> Some Panic
             | Ok b \<Rightarrow>
                 (case map_lib b sp of
                    Err e \<Rightarrow> Some (Err (LinkLoader e))
                  | Panic \<Rightarrow> Some Panic
                  | Ok ((entry, sl), sp1) \<Rightarrow>
                      load_loop exists open_lib map_lib exe fuel (rev (items_of linux_path b) @ st)
                        (insert dylib_path seen)
                        (lk\<lparr>loaded_libraries := alist_insert dylib_path (b\<lparr>slide := sl\<rparr>) (loaded_libraries lk)\<rparr>)
                        sp1))))"

definition load_dependencies ::
  "(path \<Rightarrow> bool) \<Rightarrow> (path \<Rightarrow> (loader_error, macho_binary) outcome)
     \<Rightarrow> (macho_binary \<Rightarrow> space \<Rightarrow> (loader_error, (u64 \<times> u64) \<times> space) outcome)
     \<Rightarrow> nat \<Rightarrow> macho_binary \<Rightarrow> linker \<Rightarrow> space \<Rightarrow> (link_error, linker \<times> space) outcome option" where
  "load_dependencies exists open_lib map_lib fuel b lk sp =
    (let exe = parse_path (bin_path b)
     in load_loop exists open_lib map_lib exe fuel (rev (items_of exe b)) {} lk sp)"

section \<open>The loop ends\<close>

text \<open>
  A finite set \<open>U\<close> of library names and a number \<open>d\<close> that bound what the files mention: the
  universe of the recursion.
\<close>

definition bounded_deps ::
  "(path \<Rightarrow> (loader_error, macho_binary) outcome) \<Rightarrow> string set \<Rightarrow> nat \<Rightarrow> bool" where
  "bounded_deps open_lib U d \<longleftrightarrow> finite U
     \<and> (\<forall>p b. open_lib p = Ok b \<longrightarrow> dep_name ` set (dylib_deps b) \<subseteq> U \<and> length (dylib_deps b) \<le> d)"

lemma length_items [simp]: "length (items_of p b) = length (dylib_deps b)"
  by (simp add: items_of_def)

lemma names_items [simp]: "fst ` set (items_of p b) = dep_name ` set (dylib_deps b)"
  by (force simp: items_of_def)

lemma card_shrinks:
  "finite U \<Longrightarrow> x \<in> U \<Longrightarrow> x \<notin> L \<Longrightarrow> Suc (card (U - insert x L)) = card (U - L)"
  by (metis Diff_insert DiffI card_Suc_Diff1 finite_Diff)

lemma load_loop_ends:
  assumes bd: "bounded_deps open_lib U d"
  shows "fst ` set st \<subseteq> U \<Longrightarrow> length st + d * card (U - seen) < fuel
    \<Longrightarrow> load_loop exists open_lib map_lib exe fuel st seen lk sp \<noteq> None"
proof (induction fuel arbitrary: st seen lk sp)
  case 0
  then show ?case by simp
next
  case (Suc fuel)
  show ?case
  proof (cases st)
    case Nil
    then show ?thesis by simp
  next
    case (Cons x rest)
    obtain n lp rps where x: "x = (n, lp, rps)" by (cases x)
    have nU: "n \<in> U" and rU: "fst ` set rest \<subseteq> U" using Suc.prems(1) by (auto simp: Cons x)
    have fin: "finite U" using bd by (simp add: bounded_deps_def)
    have skip: "load_loop exists open_lib map_lib exe fuel rest seen lk sp \<noteq> None"
      using Suc.prems(2) rU by (intro Suc.IH) (simp_all add: Cons)
    have mono: "card (U - insert n seen) \<le> card (U - seen)"
      by (intro card_mono) (use fin in auto)
    have less: "d * card (U - insert n seen) \<le> d * card (U - seen)" by (rule mult_le_mono2 [OF mono])
    have mark: "load_loop exists open_lib map_lib exe fuel rest (insert n seen) lk sp \<noteq> None"
    proof (rule Suc.IH [OF rU])
      have "Suc (length rest) + d * card (U - seen) < Suc fuel" using Suc.prems(2) by (simp add: Cons)
      then show "length rest + d * card (U - insert n seen) < fuel" using less by linarith
    qed
    have load: "load_loop exists open_lib map_lib exe fuel (rev (items_of p b) @ rest) (insert n seen) lk' sp' \<noteq> None"
      if "open_lib p = Ok b" "n \<notin> seen" for p b lk' sp'
    proof (rule Suc.IH)
      have b: "dep_name ` set (dylib_deps b) \<subseteq> U" "length (dylib_deps b) \<le> d"
        using bd that(1) unfolding bounded_deps_def by blast+
      then show "fst ` set (rev (items_of p b) @ rest) \<subseteq> U" using rU by (simp add: image_Un)
      have "d * card (U - seen) = d + d * card (U - insert n seen)"
        using card_shrinks [OF fin nU that(2)] by (metis mult_Suc_right)
      then show "length (rev (items_of p b) @ rest) + d * card (U - insert n seen) < fuel"
        using Suc.prems(2) b(2) by (simp add: Cons)
    qed
    show ?thesis
      using skip mark load
      by (auto simp: Cons x split: option.split outcome.split)
  qed
qed

section \<open>Everything needed is there\<close>

text \<open>
  A name is dealt with when the shims provide it, when it was loaded, or when the loader gave
  it up: it could not be found, or its file could not be parsed.
\<close>

definition given_up ::
  "(path \<Rightarrow> bool) \<Rightarrow> (path \<Rightarrow> (loader_error, macho_binary) outcome) \<Rightarrow> path \<Rightarrow> linker \<Rightarrow> string \<Rightarrow> bool" where
  "given_up exists open_lib exe lk n \<longleftrightarrow>
     (\<exists>lp rps. case resolve exists (lk_resolver lk) n (Some exe) (Some lp) rps of
        None \<Rightarrow> True
      | Some p \<Rightarrow> (\<exists>e. open_lib p = Err e))"

definition dealt_with ::
  "(path \<Rightarrow> bool) \<Rightarrow> (path \<Rightarrow> (loader_error, macho_binary) outcome) \<Rightarrow> path \<Rightarrow> linker \<Rightarrow> string \<Rightarrow> bool" where
  "dealt_with exists open_lib exe lk n \<longleftrightarrow>
     n \<in> fst ` set (registry lk) \<or> n \<in> fst ` set (loaded_libraries lk) \<or> given_up exists open_lib exe lk n"

text \<open>Every dependency of a loaded library is dealt with, or still among the names \<open>S\<close>.\<close>

definition deps_closed ::
  "(path \<Rightarrow> bool) \<Rightarrow> (path \<Rightarrow> (loader_error, macho_binary) outcome) \<Rightarrow> path \<Rightarrow> string set \<Rightarrow> linker \<Rightarrow> bool" where
  "deps_closed exists open_lib exe S lk \<longleftrightarrow>
     (\<forall>(m, b) \<in> set (loaded_libraries lk). \<forall>n \<in> dep_name ` set (dylib_deps b).
        dealt_with exists open_lib exe lk n \<or> n \<in> S)"

lemma set_alist_insert: "set (alist_insert k v xs) \<subseteq> insert (k, v) (set xs)"
  by (induction xs) (auto split: if_splits)

lemma dealt_with_grow:
  "dealt_with exists open_lib exe lk n
    \<Longrightarrow> dealt_with exists open_lib exe (lk\<lparr>loaded_libraries := alist_insert k b (loaded_libraries lk)\<rparr>) n"
  by (auto simp: dealt_with_def given_up_def keys_alist_insert)

lemma load_loop_closed:
  assumes "load_loop exists open_lib map_lib exe fuel st seen lk sp = Some (Ok (lk', sp'))"
    and "\<forall>n \<in> seen. dealt_with exists open_lib exe lk n"
    and "deps_closed exists open_lib exe (fst ` set st) lk"
  shows "deps_closed exists open_lib exe {} lk'
       \<and> (\<forall>n. dealt_with exists open_lib exe lk n \<or> n \<in> fst ` set st \<longrightarrow> dealt_with exists open_lib exe lk' n)"
  using assms
proof (induction fuel arbitrary: st seen lk sp)
  case 0
  then show ?case by simp
next
  case (Suc fuel)
  show ?case
  proof (cases st)
    case Nil
    with Suc.prems show ?thesis by simp
  next
    case (Cons x rest)
    obtain n lp rps where x: "x = (n, lp, rps)" by (cases x)
    let ?D = "dealt_with exists open_lib exe"
    let ?skip = "n \<in> seen \<or> n \<in> fst ` set (registry lk)"
    have cl: "deps_closed exists open_lib exe (insert n (fst ` set rest)) lk"
      using Suc.prems(3) by (simp add: Cons x)
    have drop_n: "deps_closed exists open_lib exe (fst ` set rest) lk" if "?D lk n"
      using cl that by (auto simp: deps_closed_def)
    have stop: ?thesis
      if "load_loop exists open_lib map_lib exe fuel rest L lk sp = Some (Ok (lk', sp'))"
        "\<forall>k \<in> L. ?D lk k" "?D lk n" for L
      using Suc.IH [OF that(1,2) drop_n [OF that(3)]] that(3) by (auto simp: Cons x)
    show ?thesis
    proof (cases ?skip)
      case True
      then have "?D lk n" using Suc.prems(2) by (auto simp: dealt_with_def)
      with True Suc.prems(1,2) show ?thesis by (intro stop) (auto simp: Cons x)
    next
      case False
      show ?thesis
      proof (cases "resolve exists (lk_resolver lk) n (Some exe) (Some lp) rps")
        case None
        then have "given_up exists open_lib exe lk n"
          unfolding given_up_def by (intro exI [of _ lp] exI [of _ rps]) simp
        then have "?D lk n" by (simp add: dealt_with_def)
        with None False Suc.prems(1,2) show ?thesis by (intro stop [of "insert n seen"]) (auto simp: Cons x)
      next
        case (Some p)
        show ?thesis
        proof (cases "open_lib p")
          case (Err e)
          with Some have "given_up exists open_lib exe lk n"
            unfolding given_up_def by (intro exI [of _ lp] exI [of _ rps]) simp
          then have "?D lk n" by (simp add: dealt_with_def)
          with Some Err False Suc.prems(1,2) show ?thesis by (intro stop [of "insert n seen"]) (auto simp: Cons x)
        next
          case Panic
          with Some False Suc.prems(1) show ?thesis by (simp add: Cons x)
        next
          case (Ok b)
          obtain entry sl sp1 where mp: "map_lib b sp = Ok ((entry, sl), sp1)"
            using Some Ok False Suc.prems(1) by (cases "map_lib b sp") (auto simp: Cons x)
          let ?lk1 = "lk\<lparr>loaded_libraries := alist_insert n (b\<lparr>slide := sl\<rparr>) (loaded_libraries lk)\<rparr>"
          let ?st1 = "rev (items_of p b) @ rest"
          have run: "load_loop exists open_lib map_lib exe fuel ?st1 (insert n seen) ?lk1 sp1 = Some (Ok (lk', sp'))"
            using Some Ok False mp Suc.prems(1) by (simp add: Cons x)
          have n1: "?D ?lk1 n" by (simp add: dealt_with_def keys_alist_insert)
          have grow: "?D ?lk1 k" if "?D lk k" for k by (rule dealt_with_grow [OF that])
          have "deps_closed exists open_lib exe (fst ` set ?st1) ?lk1"
            unfolding deps_closed_def
          proof (intro ballI, clarify)
            fix m c dd assume mem: "(m, c) \<in> set (loaded_libraries ?lk1)" and dd: "dd \<in> set (dylib_deps c)"
              and out: "dep_name dd \<notin> fst ` set ?st1"
            from mem set_alist_insert have "(m, c) = (n, b\<lparr>slide := sl\<rparr>) \<or> (m, c) \<in> set (loaded_libraries lk)"
              by fastforce
            then show "?D ?lk1 (dep_name dd)"
            proof
              assume "(m, c) = (n, b\<lparr>slide := sl\<rparr>)"
              with dd have "dep_name dd \<in> fst ` set ?st1" by (simp add: image_Un)
              with out show ?thesis by contradiction
            next
              assume "(m, c) \<in> set (loaded_libraries lk)"
              with cl dd have "?D lk (dep_name dd) \<or> dep_name dd \<in> insert n (fst ` set rest)"
                unfolding deps_closed_def by fastforce
              with out n1 grow show ?thesis by (auto simp: image_Un)
            qed
          qed
          with Suc.IH [OF run] Suc.prems(2) n1 grow show ?thesis
            by (auto simp: Cons x image_Un)
        qed
      qed
    qed
  qed
qed


definition demo_lib :: "string list \<Rightarrow> macho_binary" where
  "demo_lib deps = demo_binary\<lparr>bin_path := ''/app/tool'',
     dylib_deps := map (\<lambda>n. \<lparr>dep_name = n, current_version = 0, compat_version = 0\<rparr>) deps\<rparr>"

text \<open>Two libraries that need each other, and one that does not exist.\<close>

definition demo_open :: "path \<Rightarrow> (loader_error, macho_binary) outcome" where
  "demo_open p =
    (if p = parse_path ''/lib/a'' then Ok (demo_lib [''/lib/b'', ''/lib/gone''])
     else if p = parse_path ''/lib/b'' then Ok (demo_lib [''/lib/a''])
     else Err NotMachO)"


section \<open>Initializers\<close>

text \<open>
  Calling a function of the program is the parameter \<open>call\<close> (its effect on memory); the
  trace of called addresses is what the code decides.
\<close>

type_synonym trace = "mem \<times> u64 list"

definition call_at :: "(u64 \<Rightarrow> mem \<Rightarrow> mem) \<Rightarrow> u64 \<Rightarrow> trace \<Rightarrow> trace" where
  "call_at call a t = (call a (fst t), snd t @ [a])"

definition run_routine :: "(u64 \<Rightarrow> mem \<Rightarrow> mem) \<Rightarrow> load_command \<Rightarrow> trace \<Rightarrow> trace" where
  "run_routine call lc t = (case lc of Routines64 a \<Rightarrow> call_at call a t | _ \<Rightarrow> t)"

definition run_mod_init :: "(u64 \<Rightarrow> mem \<Rightarrow> mem) \<Rightarrow> goblin_section option \<Rightarrow> trace \<Rightarrow> trace" where
  "run_mod_init call r t =
    (case r of
       None \<Rightarrow> t
     | Some sec \<Rightarrow>
         if sectname sec = ''__mod_init_func''
         then fold (\<lambda>i t. call_at call (load64 (fst t) (sect_addr sec + of_nat i * 8)) t)
                [0..<unat (sect_size sec div 8)] t
         else t)"

definition run_initializers ::
  "(u8 list \<Rightarrow> string + goblin_macho) \<Rightarrow> (u64 \<Rightarrow> mem \<Rightarrow> mem) \<Rightarrow> macho_binary \<Rightarrow> trace \<Rightarrow> (link_error, trace) outcome" where
  "run_initializers gp call b t =
    (case gp (bin_data b) of
       Inl e \<Rightarrow> Err (LinkParse e)
     | Inr macho \<Rightarrow>
         Ok (fold (run_mod_init call) (concat (gm_segments macho)) (fold (run_routine call) (gm_commands macho) t)))"

definition text_vmaddr :: "macho_binary \<Rightarrow> u64" where
  "text_vmaddr b = (case find_segment ''__TEXT'' (segments b) of Some s \<Rightarrow> vmaddr s | None \<Rightarrow> 0)"

text \<open>The second half of \<open>run_all_initializers\<close>: libraries at a fixed address, then the program.\<close>

fun run_library_initializers ::
  "(u8 list \<Rightarrow> string + goblin_macho) \<Rightarrow> (u64 \<Rightarrow> mem \<Rightarrow> mem) \<Rightarrow> macho_binary list \<Rightarrow> trace
     \<Rightarrow> (link_error, trace) outcome" where
  "run_library_initializers gp call [] t = Ok t"
| "run_library_initializers gp call (lib # libs) t =
    (if text_vmaddr lib > 0
     then (case run_initializers gp call lib t of
             Ok t1 \<Rightarrow> run_library_initializers gp call libs t1
           | Err e \<Rightarrow> Err e
           | Panic \<Rightarrow> Panic)
     else run_library_initializers gp call libs t)"

definition run_init_phase ::
  "(u8 list \<Rightarrow> string + goblin_macho) \<Rightarrow> (u64 \<Rightarrow> mem \<Rightarrow> mem) \<Rightarrow> linker \<Rightarrow> macho_binary \<Rightarrow> trace
     \<Rightarrow> (link_error, trace) outcome" where
  "run_init_phase gp call lk main_binary t =
    (case run_library_initializers gp call (map snd (loaded_libraries lk)) t of
       Ok t1 \<Rightarrow> run_initializers gp call main_binary t1
     | Err e \<Rightarrow> Err e
     | Panic \<Rightarrow> Panic)"

text \<open>The initializers of one image, read from memory \<open>m\<close>.\<close>

definition routine_of :: "load_command \<Rightarrow> u64 option" where
  "routine_of lc = (case lc of Routines64 a \<Rightarrow> Some a | _ \<Rightarrow> None)"

definition mod_init_of :: "mem \<Rightarrow> goblin_section option \<Rightarrow> u64 list" where
  "mod_init_of m r =
    (case r of
       None \<Rightarrow> []
     | Some sec \<Rightarrow>
         if sectname sec = ''__mod_init_func''
         then map (\<lambda>i. load64 m (sect_addr sec + of_nat i * 8)) [0..<unat (sect_size sec div 8)] else [])"

definition init_calls :: "goblin_macho \<Rightarrow> mem \<Rightarrow> u64 list" where
  "init_calls macho m =
    List.map_filter routine_of (gm_commands macho) @ concat (map (mod_init_of m) (concat (gm_segments macho)))"

text \<open>No initializer overwrites a table of initializers.\<close>

definition tables_stable :: "(u64 \<Rightarrow> mem \<Rightarrow> mem) \<Rightarrow> (u64 \<Rightarrow> bool) \<Rightarrow> bool" where
  "tables_stable call T \<longleftrightarrow> (\<forall>a m p. T p \<longrightarrow> load64 (call a m) p = load64 m p)"

definition in_tables :: "goblin_macho \<Rightarrow> u64 \<Rightarrow> bool" where
  "in_tables macho p \<longleftrightarrow> (\<exists>sec i. Some sec \<in> set (concat (gm_segments macho))
     \<and> sectname sec = ''__mod_init_func'' \<and> i < unat (sect_size sec div 8) \<and> p = sect_addr sec + of_nat i * 8)"

definition agree_on :: "(u64 \<Rightarrow> bool) \<Rightarrow> mem \<Rightarrow> mem \<Rightarrow> bool" where
  "agree_on T m m' \<longleftrightarrow> (\<forall>p. T p \<longrightarrow> load64 m' p = load64 m p)"

lemma agree_trans: "agree_on T a b \<Longrightarrow> agree_on T b c \<Longrightarrow> agree_on T a c"
  by (simp add: agree_on_def)

lemma agree_call: "tables_stable call T \<Longrightarrow> agree_on T m (fst t) \<Longrightarrow> agree_on T m (fst (call_at call a t))"
  by (simp add: agree_on_def tables_stable_def call_at_def)

lemma routines_trace:
  assumes "tables_stable call T" and "agree_on T m (fst t)"
  shows "snd (fold (run_routine call) lcs t) = snd t @ List.map_filter routine_of lcs
       \<and> agree_on T m (fst (fold (run_routine call) lcs t))"
  using assms(2)
proof (induction lcs arbitrary: t)
  case Nil
  then show ?case by (simp add: List.map_filter_simps)
next
  case (Cons lc lcs)
  have "agree_on T m (fst (run_routine call lc t))"
    using Cons.prems agree_call [OF assms(1)] by (simp add: run_routine_def split: load_command.split)
  from Cons.IH [OF this] show ?case
    by (simp add: run_routine_def routine_of_def List.map_filter_simps call_at_def split: load_command.split)
qed

lemma ptrs_trace:
  assumes st: "tables_stable call T" and ag: "agree_on T m (fst t)"
    and tb: "\<forall>i \<in> set is'. T (base + of_nat i * 8)"
  shows "snd (fold (\<lambda>i t. call_at call (load64 (fst t) (base + of_nat i * 8)) t) is' t)
         = snd t @ map (\<lambda>i. load64 m (base + of_nat i * 8)) is'
       \<and> agree_on T m (fst (fold (\<lambda>i t. call_at call (load64 (fst t) (base + of_nat i * 8)) t) is' t))"
  using ag tb
proof (induction is' arbitrary: t)
  case Nil
  then show ?case by simp
next
  case (Cons i is')
  let ?a = "load64 (fst t) (base + of_nat i * 8)"
  have a: "?a = load64 m (base + of_nat i * 8)" using Cons.prems by (simp add: agree_on_def)
  have "agree_on T m (fst (call_at call ?a t))" by (rule agree_call [OF st Cons.prems(1)])
  from Cons.IH [OF this] Cons.prems(2) a show ?case by (simp add: call_at_def)
qed

lemma mod_init_trace:
  assumes st: "tables_stable call T" and ag: "agree_on T m (fst t)"
    and tb: "\<forall>r \<in> set secs. \<forall>sec. r = Some sec \<and> sectname sec = ''__mod_init_func''
        \<longrightarrow> (\<forall>i < unat (sect_size sec div 8). T (sect_addr sec + of_nat i * 8))"
  shows "snd (fold (run_mod_init call) secs t) = snd t @ concat (map (mod_init_of m) secs)
       \<and> agree_on T m (fst (fold (run_mod_init call) secs t))"
  using ag tb
proof (induction secs arbitrary: t)
  case Nil
  then show ?case by simp
next
  case (Cons r secs)
  have one: "snd (run_mod_init call r t) = snd t @ mod_init_of m r \<and> agree_on T m (fst (run_mod_init call r t))"
  proof (cases "\<exists>sec. r = Some sec \<and> sectname sec = ''__mod_init_func''")
    case True
    then obtain sec where s: "r = Some sec" "sectname sec = ''__mod_init_func''" by blast
    have "\<forall>i \<in> set [0..<unat (sect_size sec div 8)]. T (sect_addr sec + of_nat i * 8)"
      using Cons.prems(2) s by simp
    from ptrs_trace [OF st Cons.prems(1) this] s show ?thesis by (simp add: run_mod_init_def mod_init_of_def)
  next
    case False
    then have "run_mod_init call r t = t" "mod_init_of m r = []"
      by (auto simp: run_mod_init_def mod_init_of_def split: option.split)
    with Cons.prems(1) show ?thesis by simp
  qed
  have tb': "\<forall>r \<in> set secs. \<forall>sec. r = Some sec \<and> sectname sec = ''__mod_init_func''
        \<longrightarrow> (\<forall>i < unat (sect_size sec div 8). T (sect_addr sec + of_nat i * 8))"
    using Cons.prems(2) by simp
  from Cons.IH [OF conjunct2 [OF one] tb'] one show ?case by simp
qed

lemma run_initializers_trace:
  assumes st: "tables_stable call T" and ag: "agree_on T m (fst t)"
    and gp: "gp (bin_data b) = Inr macho" and tb: "\<forall>p. in_tables macho p \<longrightarrow> T p"
  shows "\<exists>t'. run_initializers gp call b t = Ok t' \<and> snd t' = snd t @ init_calls macho m \<and> agree_on T m (fst t')"
proof -
  have "\<forall>r \<in> set (concat (gm_segments macho)). \<forall>sec. r = Some sec \<and> sectname sec = ''__mod_init_func''
        \<longrightarrow> (\<forall>i < unat (sect_size sec div 8). T (sect_addr sec + of_nat i * 8))"
    using tb unfolding in_tables_def by blast
  note mi = mod_init_trace [OF st conjunct2 [OF routines_trace [OF st ag]] this]
  show ?thesis
    using mi routines_trace [OF st ag, of "gm_commands macho"] gp
    by (simp add: run_initializers_def init_calls_def)
qed

text \<open>The images whose initializers run: the libraries at a fixed address, then the program.\<close>

definition init_images :: "linker \<Rightarrow> macho_binary \<Rightarrow> macho_binary list" where
  "init_images lk main_binary = filter (\<lambda>l. text_vmaddr l > 0) (map snd (loaded_libraries lk)) @ [main_binary]"

text \<open>
  C36. Initializers run once, in order, the program's last: when every image parses and no
  initializer overwrites an initializer table, the calls are, image by image in the order
  the libraries are iterated (a library at a slid address is skipped), the \<open>LC_ROUTINES_64\<close>
  addresses in command order followed by the pointers of each \<open>__mod_init_func\<close> section in
  file order.
\<close>

theorem initializer_order:
  assumes st: "tables_stable call T"
    and gp: "\<forall>b \<in> set (init_images lk main_binary). \<exists>macho. gp (bin_data b) = Inr macho \<and> (\<forall>p. in_tables macho p \<longrightarrow> T p)"
  shows "\<exists>m'. run_init_phase gp call lk main_binary (m, [])
      = Ok (m', concat (map (\<lambda>b. init_calls (projr (gp (bin_data b))) m) (init_images lk main_binary)))"
proof -
  let ?calls = "\<lambda>b. init_calls (projr (gp (bin_data b))) m"
  have libs: "\<exists>t'. run_library_initializers gp call ls t = Ok t' \<and> agree_on T m (fst t')
      \<and> snd t' = snd t @ concat (map ?calls (filter (\<lambda>l. text_vmaddr l > 0) ls))"
    if "\<forall>b \<in> set (filter (\<lambda>l. text_vmaddr l > 0) ls). \<exists>macho. gp (bin_data b) = Inr macho \<and> (\<forall>p. in_tables macho p \<longrightarrow> T p)"
      "agree_on T m (fst t)" for ls t
    using that
  proof (induction ls arbitrary: t)
    case Nil
    then show ?case by simp
  next
    case (Cons l ls)
    show ?case
    proof (cases "text_vmaddr l > 0")
      case False
      with Cons show ?thesis by simp
    next
      case True
      with Cons.prems(1) obtain macho where g: "gp (bin_data l) = Inr macho" "\<forall>p. in_tables macho p \<longrightarrow> T p" by auto
      from run_initializers_trace [where gp = gp and b = l, OF st Cons.prems(2) g] obtain t1 where
        t1: "run_initializers gp call l t = Ok t1" "snd t1 = snd t @ init_calls macho m" "agree_on T m (fst t1)"
        by blast
      have "\<forall>b \<in> set (filter (\<lambda>l. text_vmaddr l > 0) ls). \<exists>macho. gp (bin_data b) = Inr macho \<and> (\<forall>p. in_tables macho p \<longrightarrow> T p)"
        using Cons.prems(1) by simp
      from Cons.IH [OF this t1(3)] t1 g True show ?thesis by auto
    qed
  qed
  have "agree_on T m (fst (m, []))" by (simp add: agree_on_def)
  from libs [of "map snd (loaded_libraries lk)", OF _ this] gp obtain t1 where
    t1: "run_library_initializers gp call (map snd (loaded_libraries lk)) (m, []) = Ok t1" "agree_on T m (fst t1)"
      "snd t1 = concat (map ?calls (filter (\<lambda>l. text_vmaddr l > 0) (map snd (loaded_libraries lk))))"
    by (auto simp: init_images_def)
  from gp obtain macho where g: "gp (bin_data main_binary) = Inr macho" "\<forall>p. in_tables macho p \<longrightarrow> T p"
    by (auto simp: init_images_def)
  from run_initializers_trace [where gp = gp and b = main_binary, OF st t1(2) g] obtain t2 where
    t2: "run_initializers gp call main_binary t1 = Ok t2" "snd t2 = snd t1 @ init_calls macho m" by blast
  with t1 g show ?thesis
    by (intro exI [of _ "fst t2"]) (simp add: run_init_phase_def init_images_def prod_eq_iff)
qed

definition demo_init_macho :: "u64 \<Rightarrow> u64 \<Rightarrow> goblin_macho" where
  "demo_init_macho tab r = demo_macho\<lparr>gm_commands := [Routines64 r],
     gm_segments := [[Some \<lparr>sectname = ''__mod_init_func'', sect_addr = tab, sect_size = 8, sect_flags = 9\<rparr>]]\<rparr>"

definition demo_init_gp :: "u8 list \<Rightarrow> string + goblin_macho" where
  "demo_init_gp data = Inr (if data = [1] then demo_init_macho 0x8000 0x100 else demo_init_macho 0x9000 0x200)"

theorem initializer_order_witness:
  "\<exists>m'. run_init_phase demo_init_gp (\<lambda>_ m. m)
        (demo_linker\<lparr>loaded_libraries := [(''liba'', demo_binary\<lparr>bin_data := [1]\<rparr>)]\<rparr>)
        (demo_binary\<lparr>bin_data := [2]\<rparr>) (store64 (store64 (\<lambda>_. 0) 0x8000 0x108) 0x9000 0x208, [])
      = Ok (m', [0x100, 0x108, 0x200, 0x208])"
proof -
  let ?lk = "demo_linker\<lparr>loaded_libraries := [(''liba'', demo_binary\<lparr>bin_data := [1]\<rparr>)]\<rparr>"
  let ?m = "store64 (store64 (\<lambda>_. 0) 0x8000 0x108) 0x9000 0x208"
  have im: "init_images ?lk (demo_binary\<lparr>bin_data := [2]\<rparr>)
      = [demo_binary\<lparr>bin_data := [1]\<rparr>, demo_binary\<lparr>bin_data := [2]\<rparr>]"
    by (simp add: init_images_def text_vmaddr_def demo_binary_def find_segment_def demo_seg_def)
  have st: "tables_stable (\<lambda>_ m. m) (\<lambda>_. True)" by (simp add: tables_stable_def)
  have gp: "\<forall>b \<in> set (init_images ?lk (demo_binary\<lparr>bin_data := [2]\<rparr>)).
      \<exists>macho. demo_init_gp (bin_data b) = Inr macho \<and> (\<forall>p. in_tables macho p \<longrightarrow> True)"
    by (simp add: demo_init_gp_def)
  have l: "load64 ?m 0x8000 = 0x108" "load64 ?m 0x9000 = 0x208"
    by (subst load64_store64_apart, rule apartI_below) simp_all
  have g: "demo_init_gp [1] = Inr (demo_init_macho 0x8000 0x100)" "demo_init_gp [2] = Inr (demo_init_macho 0x9000 0x200)"
    by (simp_all add: demo_init_gp_def)
  from initializer_order [OF st gp, of ?m] show ?thesis
    unfolding im by (simp add: g init_calls_def demo_init_macho_def mod_init_of_def routine_of_def
        List.map_filter_simps l)
qed

end
