(* ===== verification/ObjcImages.thy ===== *)
theory ObjcImages
  imports LinkDeps
begin

text \<open>
  \<open>grafted-dyld/src/linker.rs\<close>, the Objective-C metadata of loaded images:
  \<open>register_objc_metadata\<close> (libraries) and \<open>register_objc_class_names\<close> (the program) walk the
  \<open>__objc_classlist\<close> sections, register every class and add the methods of its base method
  list, absolute or relative. Everything is read from the process memory of the runtime
  state; \<open>None\<close> is a C string that does not end.
\<close>

text \<open>\<open>read_unaligned\<close> of an \<open>i32\<close> used as an offset.\<close>

definition load_offset :: "mem \<Rightarrow> u64 \<Rightarrow> u64" where
  "load_offset m a = scast (load32 m a)"

text \<open>Name and implementation pointer of a method entry, relative or absolute.\<close>

definition method_entry :: "bool \<Rightarrow> mem \<Rightarrow> u64 \<Rightarrow> u64 \<times> u64" where
  "method_entry is_relative m base =
    (if is_relative then (base + load_offset m base, base + 8 + load_offset m (base + 8))
     else (load64 m base, load64 m (base + 16)))"

text \<open>A null pointer as \<open>Some(transmute(p))\<close> is the null \<open>IMP\<close>.\<close>

definition imp_of_ptr :: "u64 \<Rightarrow> imp option" where
  "imp_of_ptr p = (if p = 0 then None else Some (Code p))"

definition register_selector :: "(nat \<Rightarrow> u64) \<Rightarrow> u64 \<Rightarrow> link_env \<Rightarrow> (u64 \<times> link_env) option" where
  "register_selector fresh name_ptr env =
    map_option (\<lambda>(sel, rt1). (sel, env\<lparr>rt := rt1, n_allocs := n_allocs env + 1\<rparr>))
      (sel_registerName (fresh (n_allocs env)) name_ptr (rt env))"

definition add_method :: "(nat \<Rightarrow> u64) \<Rightarrow> bool \<Rightarrow> u64 \<Rightarrow> u64 \<Rightarrow> link_env \<Rightarrow> link_env option" where
  "add_method fresh is_relative cls base env =
    (case method_entry is_relative (objc_mem (rt env)) base of (name_ptr, imp_ptr) \<Rightarrow>
       (case register_selector fresh name_ptr env of
          None \<Rightarrow> None
        | Some (sel, env1) \<Rightarrow>
            Some (env1\<lparr>rt := snd (class_addMethod cls sel (imp_of_ptr imp_ptr) (rt env1))\<rparr>)))"

fun add_methods :: "(nat \<Rightarrow> u64) \<Rightarrow> bool \<Rightarrow> u64 \<Rightarrow> u64 \<Rightarrow> u32 \<Rightarrow> nat list \<Rightarrow> link_env \<Rightarrow> link_env option" where
  "add_methods fresh is_relative cls first entsize [] env = Some env"
| "add_methods fresh is_relative cls first entsize (k # ks) env =
    (case add_method fresh is_relative cls (first + ucast (of_nat k * entsize)) env of
       None \<Rightarrow> None
     | Some env1 \<Rightarrow> add_methods fresh is_relative cls first entsize ks env1)"

definition register_class :: "u64 \<Rightarrow> link_env \<Rightarrow> link_env option" where
  "register_class cls env = map_option (\<lambda>rt1. env\<lparr>rt := rt1\<rparr>) (objc_registerClassPair cls (rt env))"

definition list_flags :: "mem \<Rightarrow> u64 \<Rightarrow> u32" where "list_flags m p = load32 m p"
definition list_count :: "mem \<Rightarrow> u64 \<Rightarrow> u32" where "list_count m p = load32 m (p + 4)"
definition list_entsize :: "mem \<Rightarrow> u64 \<Rightarrow> u32" where "list_entsize m p = list_flags m p AND 0xFFFF"
definition list_relative :: "mem \<Rightarrow> u64 \<Rightarrow> bool" where
  "list_relative m p \<longleftrightarrow> list_flags m p AND 0x80000000 \<noteq> 0"

definition base_methods :: "mem \<Rightarrow> u64 \<Rightarrow> u64" where
  "base_methods m ro = load64 m (ro + 32) AND NOT 3"

section \<open>Libraries\<close>

text \<open>The body of the class loop: methods first, then the class; too long a list is skipped.\<close>

definition process_class :: "(nat \<Rightarrow> u64) \<Rightarrow> u64 \<Rightarrow> link_env \<Rightarrow> link_env option" where
  "process_class fresh cls env =
    (let m = objc_mem (rt env); ro = load64 m (cls + 32) AND NOT 7 in
     if cls = 0 \<or> ro = 0 then Some env
     else if ro_name m ro \<noteq> 0 \<and> cstr_from m (ro_name m ro) = None then None
     else
       let ml = base_methods m ro in
       if ml = 0 then register_class cls env
       else if list_count m ml > 500 \<or> list_entsize m ml = 0 \<or> list_entsize m ml > 64
         then register_class cls env
       else
         Option.bind
           (add_methods fresh (list_relative m ml) cls (ml + 8) (list_entsize m ml) [0..<unat (list_count m ml)] env)
           (register_class cls))"

fun each_class ::
  "(u64 \<Rightarrow> link_env \<Rightarrow> link_env option) \<Rightarrow> u64 \<Rightarrow> nat list \<Rightarrow> link_env \<Rightarrow> link_env option" where
  "each_class f ptrs [] env = Some env"
| "each_class f ptrs (i # is') env =
    Option.bind (f (load64 (objc_mem (rt env)) (ptrs + of_nat i * 8)) env) (each_class f ptrs is')"

fun each_classlist ::
  "(u64 \<Rightarrow> link_env \<Rightarrow> link_env option) \<Rightarrow> u64 \<Rightarrow> goblin_section option list \<Rightarrow> link_env \<Rightarrow> link_env option" where
  "each_classlist f sl [] env = Some env"
| "each_classlist f sl (None # secs) env = each_classlist f sl secs env"
| "each_classlist f sl (Some sec # secs) env =
    (if sectname sec = ''__objc_classlist''
     then Option.bind (each_class f (sect_addr sec + sl) [0..<unat (sect_size sec div 8)] env)
            (each_classlist f sl secs)
     else each_classlist f sl secs env)"

definition register_objc_metadata ::
  "(u8 list \<Rightarrow> string + goblin_macho) \<Rightarrow> (nat \<Rightarrow> u64) \<Rightarrow> macho_binary \<Rightarrow> link_env
     \<Rightarrow> (link_error, link_env) outcome option" where
  "register_objc_metadata gp fresh b env =
    (case gp (bin_data b) of
       Inl e \<Rightarrow> Some (Err (LinkParse e))
     | Inr macho \<Rightarrow>
         map_option Ok (each_classlist (process_class fresh) (slide b) (concat (gm_segments macho)) env))"

section \<open>The program\<close>

text \<open>The class is registered before its methods, and only a list above 10000h is trusted.\<close>

definition process_main_class :: "(nat \<Rightarrow> u64) \<Rightarrow> u64 \<Rightarrow> link_env \<Rightarrow> link_env option" where
  "process_main_class fresh cls env =
    (let m = objc_mem (rt env); ro = load64 m (cls + 32) AND NOT 7 in
     if cls = 0 \<or> ro = 0 \<or> ro_name m ro = 0 then Some env
     else
       (case register_class cls env of
          None \<Rightarrow> None
        | Some env1 \<Rightarrow>
            let ml = base_methods m ro in
            if ml > 0x10000 \<and> list_count m ml \<le> 200 \<and> list_entsize m ml > 0 \<and> list_entsize m ml \<le> 64
            then add_methods fresh (list_relative m ml) cls (ml + 8) (list_entsize m ml)
                   [0..<unat (list_count m ml)] env1
            else Some env1))"

definition register_objc_class_names ::
  "(u8 list \<Rightarrow> string + goblin_macho) \<Rightarrow> (nat \<Rightarrow> u64) \<Rightarrow> macho_binary \<Rightarrow> link_env
     \<Rightarrow> (link_error, link_env) outcome option" where
  "register_objc_class_names gp fresh b env =
    (case gp (bin_data b) of
       Inl e \<Rightarrow> Some (Err (LinkParse e))
     | Inr macho \<Rightarrow>
         map_option Ok (each_classlist (process_main_class fresh) (slide b) (concat (gm_segments macho)) env))"

text \<open>The first half of \<open>run_all_initializers\<close>: an image that does not parse is skipped.\<close>

definition skip_errors :: "link_env \<Rightarrow> (link_error, link_env) outcome option \<Rightarrow> link_env option" where
  "skip_errors env r =
    (case r of None \<Rightarrow> None | Some (Ok env1) \<Rightarrow> Some env1 | Some (Err _) \<Rightarrow> Some env | Some Panic \<Rightarrow> None)"

fun register_libraries ::
  "(u8 list \<Rightarrow> string + goblin_macho) \<Rightarrow> (nat \<Rightarrow> u64) \<Rightarrow> macho_binary list \<Rightarrow> link_env \<Rightarrow> link_env option" where
  "register_libraries gp fresh [] env = Some env"
| "register_libraries gp fresh (lib # libs) env =
    (if text_vmaddr lib > 0
     then Option.bind (skip_errors env (register_objc_metadata gp fresh lib env)) (register_libraries gp fresh libs)
     else register_libraries gp fresh libs env)"

text \<open>
  \<open>run_all_initializers\<close>: registration of the libraries and the program, then the
  initializers over the same memory.
\<close>

definition run_all_initializers ::
  "(u8 list \<Rightarrow> string + goblin_macho) \<Rightarrow> (nat \<Rightarrow> u64) \<Rightarrow> (u64 \<Rightarrow> mem \<Rightarrow> mem) \<Rightarrow> linker \<Rightarrow> macho_binary
     \<Rightarrow> link_env \<Rightarrow> (link_error, link_env \<times> u64 list) outcome option" where
  "run_all_initializers gp fresh call lk main_binary env =
    (case register_libraries gp fresh (map snd (loaded_libraries lk)) env of
       None \<Rightarrow> None
     | Some env1 \<Rightarrow>
         (case skip_errors env1 (register_objc_class_names gp fresh main_binary env1) of
            None \<Rightarrow> None
          | Some env2 \<Rightarrow>
              (case run_init_phase gp call lk main_binary (objc_mem (rt env2), []) of
                 Ok (m, tr) \<Rightarrow> Some (Ok (env2\<lparr>rt := (rt env2)\<lparr>objc_mem := m\<rparr>\<rparr>, tr))
               | Err e \<Rightarrow> Some (Err e)
               | Panic \<Rightarrow> Some Panic)))"

section \<open>What registration leaves in the runtime\<close>

text \<open>Methods are only added: whatever a class responded to, it still does.\<close>

definition methods_kept :: "link_env \<Rightarrow> link_env \<Rightarrow> bool" where
  "methods_kept env env' \<longleftrightarrow>
     (\<forall>k i. method_registry (rt env) k = Some i \<longrightarrow> method_registry (rt env') k = Some i)
   \<and> (\<forall>s p. selector_registry (rt env) s = Some p \<longrightarrow> selector_registry (rt env') s = Some p)"

lemma methods_kept_refl [simp]: "methods_kept env env"
  by (simp add: methods_kept_def)

lemma methods_kept_trans: "methods_kept a b \<Longrightarrow> methods_kept b c \<Longrightarrow> methods_kept a c"
  by (simp add: methods_kept_def)

lemma register_selector_kept:
  assumes "register_selector fresh p env = Some (sel, env1)"
  shows "methods_kept env env1"
proof -
  obtain rt1 where s: "sel_registerName (fresh (n_allocs env)) p (rt env) = Some (sel, rt1)"
    and e: "env1 = env\<lparr>rt := rt1, n_allocs := n_allocs env + 1\<rparr>"
    using assms by (auto simp: register_selector_def)
  have "method_registry rt1 = method_registry (rt env)"
    using s by (auto simp: sel_registerName_def split: if_splits option.splits)
  with sel_registerName_grows [OF s] e show ?thesis by (simp add: methods_kept_def)
qed

lemma add_method_kept:
  assumes "add_method fresh rel cls base env = Some env'"
  shows "methods_kept env env'"
proof -
  obtain np ip where me: "method_entry rel (objc_mem (rt env)) base = (np, ip)" by fastforce
  obtain sel env1 where r: "register_selector fresh np env = Some (sel, env1)"
    and e: "env' = env1\<lparr>rt := snd (class_addMethod cls sel (imp_of_ptr ip) (rt env1))\<rparr>"
    using assms me by (auto simp: add_method_def split: option.splits)
  have "methods_kept env1 env'"
    unfolding e by (auto simp: methods_kept_def class_addMethod_def)
  with register_selector_kept [OF r] methods_kept_trans show ?thesis by blast
qed

lemma add_methods_kept:
  "add_methods fresh rel cls first ents ks env = Some env' \<Longrightarrow> methods_kept env env'"
proof (induction ks arbitrary: env)
  case Nil
  then show ?case by simp
next
  case (Cons k ks)
  then obtain env1 where "add_method fresh rel cls (first + ucast (of_nat k * ents)) env = Some env1"
    "add_methods fresh rel cls first ents ks env1 = Some env'"
    by (auto split: option.splits)
  with Cons.IH add_method_kept methods_kept_trans show ?case by blast
qed

lemma register_class_kept: "register_class cls env = Some env' \<Longrightarrow> methods_kept env env'"
  by (auto simp: register_class_def objc_registerClassPair_def methods_kept_def Let_def split: if_splits)

lemma process_class_kept: "process_class fresh cls env = Some env' \<Longrightarrow> methods_kept env env'"
  by (auto simp: process_class_def Let_def bind_eq_Some_conv split: if_splits
      dest: register_class_kept add_methods_kept intro: methods_kept_trans)

lemma process_main_class_kept: "process_main_class fresh cls env = Some env' \<Longrightarrow> methods_kept env env'"
  by (auto simp: process_main_class_def Let_def split: if_splits option.splits
      dest: register_class_kept add_methods_kept intro: methods_kept_trans)

lemma each_class_kept:
  assumes "\<And>cls env env'. f cls env = Some env' \<Longrightarrow> methods_kept env env'"
  shows "each_class f ptrs ks env = Some env' \<Longrightarrow> methods_kept env env'"
proof (induction ks arbitrary: env)
  case Nil
  then show ?case by simp
next
  case (Cons k ks)
  then obtain env1 where "f (load64 (objc_mem (rt env)) (ptrs + of_nat k * 8)) env = Some env1"
    "each_class f ptrs ks env1 = Some env'"
    by (auto simp: bind_eq_Some_conv)
  with Cons.IH assms methods_kept_trans show ?case by blast
qed

lemma each_classlist_kept:
  assumes "\<And>cls env env'. f cls env = Some env' \<Longrightarrow> methods_kept env env'"
  shows "each_classlist f sl secs env = Some env' \<Longrightarrow> methods_kept env env'"
proof (induction secs arbitrary: env)
  case Nil
  then show ?case by simp
next
  case (Cons r secs)
  show ?case
  proof (cases "\<exists>sec. r = Some sec \<and> sectname sec = ''__objc_classlist''")
    case False
    with Cons show ?thesis by (cases r) auto
  next
    case True
    then obtain sec where s: "r = Some sec" "sectname sec = ''__objc_classlist''" by blast
    with Cons.prems obtain env1 where
      a: "each_class f (sect_addr sec + sl) [0..<unat (sect_size sec div 8)] env = Some env1" and
      b: "each_classlist f sl secs env1 = Some env'"
      by (auto simp: bind_eq_Some_conv)
    have "methods_kept env env1" by (rule each_class_kept [OF assms a])
    with Cons.IH [OF b] methods_kept_trans show ?thesis by blast
  qed
qed

lemma register_metadata_kept:
  "register_objc_metadata gp fresh b env = Some (Ok env') \<Longrightarrow> methods_kept env env'"
  by (auto simp: register_objc_metadata_def split: sum.splits dest: each_classlist_kept [rotated] process_class_kept)

lemma register_names_kept:
  "register_objc_class_names gp fresh b env = Some (Ok env') \<Longrightarrow> methods_kept env env'"
  by (auto simp: register_objc_class_names_def split: sum.splits
      dest: each_classlist_kept [rotated] process_main_class_kept)

lemma skip_errors_kept:
  "skip_errors env r = Some env' \<Longrightarrow> (\<And>e. r = Some (Ok e) \<Longrightarrow> methods_kept env e) \<Longrightarrow> methods_kept env env'"
  by (auto simp: skip_errors_def split: option.splits outcome.splits)

lemma register_libraries_kept:
  "register_libraries gp fresh libs env = Some env' \<Longrightarrow> methods_kept env env'"
proof (induction libs arbitrary: env)
  case Nil
  then show ?case by simp
next
  case (Cons lib libs)
  show ?case
  proof (cases "text_vmaddr lib > 0")
    case False
    with Cons show ?thesis by simp
  next
    case True
    with Cons.prems obtain env1 where
      a: "skip_errors env (register_objc_metadata gp fresh lib env) = Some env1" and
      b: "register_libraries gp fresh libs env1 = Some env'"
      by (auto simp: bind_eq_Some_conv)
    have "methods_kept env env1" by (rule skip_errors_kept [OF a register_metadata_kept])
    with Cons.IH [OF b] methods_kept_trans show ?thesis by blast
  qed
qed

text \<open>
  The first registration wins: whatever method a class had for a selector, and whatever
  selector a name had, before \<open>run_all_initializers\<close> walks the Objective-C metadata of the
  loaded libraries and the program, it has afterwards; so metadata never overrides a method
  the framework shims registered, and a later image never overrides an earlier one.
\<close>

theorem first_registration_wins:
  assumes "run_all_initializers gp fresh call lk main_binary env = Some (Ok (env', tr))"
  shows "(\<forall>k i. method_registry (rt env) k = Some i \<longrightarrow> method_registry (rt env') k = Some i)
       \<and> (\<forall>s p. selector_registry (rt env) s = Some p \<longrightarrow> selector_registry (rt env') s = Some p)"
proof -
  from assms obtain env1 env2 m where
    a: "register_libraries gp fresh (map snd (loaded_libraries lk)) env = Some env1" and
    b: "skip_errors env1 (register_objc_class_names gp fresh main_binary env1) = Some env2" and
    c: "env' = env2\<lparr>rt := (rt env2)\<lparr>objc_mem := m\<rparr>\<rparr>"
    by (auto simp: run_all_initializers_def split: option.splits outcome.splits)
  have "methods_kept env1 env2" by (rule skip_errors_kept [OF b register_names_kept])
  with register_libraries_kept [OF a] have "methods_kept env env2" by (rule methods_kept_trans)
  then show ?thesis by (simp add: methods_kept_def c)
qed

definition demo_class_env :: link_env where
  "demo_class_env = demo_env\<lparr>rt := (objc_empty (store64 (\<lambda>_. 0) 0x8000 0))
     \<lparr>method_registry := [(0x5000, 0x2000) \<mapsto> Some (Code 0x4242)]\<rparr>\<rparr>"

theorem first_registration_wins_witness:
  "\<exists>env' tr. run_all_initializers (\<lambda>_. Inr (demo_macho\<lparr>gm_segments := [[Some \<lparr>sectname = ''__objc_classlist'',
        sect_addr = 0x8000, sect_size = 8, sect_flags = 0\<rparr>]]\<rparr>)) (\<lambda>_. 0) (\<lambda>_ m. m) demo_linker demo_binary
        demo_class_env = Some (Ok (env', tr))
     \<and> method_registry (rt env') (0x5000, 0x2000) = Some (Some (Code 0x4242))"
proof -
  let ?gp = "\<lambda>_. Inr (demo_macho\<lparr>gm_segments := [[Some \<lparr>sectname = ''__objc_classlist'',
        sect_addr = 0x8000, sect_size = 8, sect_flags = 0\<rparr>]]\<rparr>)"
  have "\<exists>env' tr. run_all_initializers ?gp (\<lambda>_. 0) (\<lambda>_ m. m) demo_linker demo_binary demo_class_env = Some (Ok (env', tr))"
    by (simp add: run_all_initializers_def demo_linker_def register_objc_class_names_def demo_class_env_def
        process_main_class_def objc_empty_def demo_binary_def skip_errors_def run_init_phase_def
        run_initializers_def demo_macho_def run_routine_def run_mod_init_def)
  then obtain env' tr where
    r: "run_all_initializers ?gp (\<lambda>_. 0) (\<lambda>_ m. m) demo_linker demo_binary demo_class_env = Some (Ok (env', tr))"
    by blast
  have k: "method_registry (rt demo_class_env) (0x5000, 0x2000) = Some (Some (Code 0x4242))"
    by (simp add: demo_class_env_def)
  from first_registration_wins [OF r] k r show ?thesis by blast
qed

end
