(* ===== verification/CFTypes.thy ===== *)
theory CFTypes
  imports Prelude
begin

text \<open>
  \<open>grafted-frameworks/src/cf/types.rs\<close>, \<open>array.rs\<close>, \<open>data.rs\<close> and \<open>dictionary.rs\<close>: Core
  Foundation objects with their reference counts. The heap maps the address of a live
  object to it; the address of a new object is a parameter of the operation that makes it.
  An operation that touches a freed object has no result (\<open>None\<close>). A \<open>HashMap\<close> of a
  dictionary is an association list.
\<close>

section \<open>Objects\<close>

definition CF_STRING_TYPE_ID :: u64 where "CF_STRING_TYPE_ID = 7"
definition CF_DICTIONARY_TYPE_ID :: u64 where "CF_DICTIONARY_TYPE_ID = 18"
definition CF_ARRAY_TYPE_ID :: u64 where "CF_ARRAY_TYPE_ID = 19"
definition CF_DATA_TYPE_ID :: u64 where "CF_DATA_TYPE_ID = 20"

lemmas cf_type_ids = CF_STRING_TYPE_ID_def CF_DICTIONARY_TYPE_ID_def CF_ARRAY_TYPE_ID_def CF_DATA_TYPE_ID_def

text \<open>What follows the header: the fields of the object's own struct.\<close>

datatype cf_payload =
    CFString (cf_bytes: "u8 list")
  | CFDictionary (cf_entries: "(u64 \<times> u64) list")
  | CFArray (cf_values: "u64 list")
  | CFData (cf_data: "u8 list")
  | CFBare

record cf_obj =
  info :: u64
  refcount :: u32
  payload :: cf_payload

type_synonym cf_heap = "u64 \<Rightarrow> cf_obj option"

definition cf_new :: "u64 \<Rightarrow> cf_payload \<Rightarrow> cf_obj" where
  "cf_new type_id pl = \<lparr>info = type_id AND 0xFFFF, refcount = 1, payload = pl\<rparr>"

definition type_id :: "cf_obj \<Rightarrow> u64" where
  "type_id obj = info obj AND 0xFFFF"

definition CFGetTypeID :: "u64 \<Rightarrow> cf_heap \<Rightarrow> u64 option" where
  "CFGetTypeID cf h = (if cf = 0 then Some 0 else map_option type_id (h cf))"

definition CFRetain :: "u64 \<Rightarrow> cf_heap \<Rightarrow> cf_heap option" where
  "CFRetain cf h =
    (if cf = 0 then Some h
     else (case h cf of
             None \<Rightarrow> None
           | Some obj \<Rightarrow> Some (h(cf \<mapsto> obj\<lparr>refcount := refcount obj + 1\<rparr>))))"

text \<open>
  The last release frees the object whatever its type: the match only selects the struct
  that is dropped, and dropping it frees its own fields, not the objects they point to.
\<close>

definition CFRelease :: "u64 \<Rightarrow> cf_heap \<Rightarrow> cf_heap option" where
  "CFRelease cf h =
    (if cf = 0 then Some h
     else (case h cf of
             None \<Rightarrow> None
           | Some obj \<Rightarrow>
               if refcount obj = 1 then Some (h(cf := None))
               else Some (h(cf \<mapsto> obj\<lparr>refcount := refcount obj - 1\<rparr>))))"

definition CFEqual :: "u64 \<Rightarrow> u64 \<Rightarrow> cf_heap \<Rightarrow> bool option" where
  "CFEqual cf1 cf2 h =
    (if cf1 = cf2 then Some True
     else if cf1 = 0 \<or> cf2 = 0 then Some False
     else
       (case (h cf1, h cf2) of
          (Some o1, Some o2) \<Rightarrow>
            Some (type_id o1 = type_id o2 \<and> type_id o1 = CF_STRING_TYPE_ID
                  \<and> cf_bytes (payload o1) = cf_bytes (payload o2))
        | _ \<Rightarrow> None))"

definition CFHash :: "u64 \<Rightarrow> u64" where
  "CFHash cf = cf"

section \<open>Arrays\<close>

text \<open>\<open>values.add(i)\<close> of the caller's C array; a null pointer is \<open>None\<close>.\<close>

type_synonym c_array = "(nat \<Rightarrow> u64) option"

fun retain_all :: "u64 list \<Rightarrow> cf_heap \<Rightarrow> cf_heap option" where
  "retain_all [] h = Some h"
| "retain_all (v # vs) h = Option.bind (CFRetain v h) (retain_all vs)"

definition c_values :: "c_array \<Rightarrow> i64 \<Rightarrow> u64 list" where
  "c_values values num =
    (case values of
       Some f \<Rightarrow> if sint num > 0 then map f [0..<nat (sint num)] else []
     | None \<Rightarrow> [])"

definition CFArrayCreate :: "u64 \<Rightarrow> c_array \<Rightarrow> i64 \<Rightarrow> cf_heap \<Rightarrow> (u64 \<times> cf_heap) option" where
  "CFArrayCreate p values num h =
    map_option (\<lambda>h1. (p, h1(p \<mapsto> cf_new CF_ARRAY_TYPE_ID (CFArray (c_values values num)))))
      (retain_all (c_values values num) h)"

definition CFArrayCreateMutable :: "u64 \<Rightarrow> cf_heap \<Rightarrow> u64 \<times> cf_heap" where
  "CFArrayCreateMutable p h = (p, h(p \<mapsto> cf_new CF_ARRAY_TYPE_ID (CFArray [])))"

definition array_of :: "u64 \<Rightarrow> cf_heap \<Rightarrow> u64 list option" where
  "array_of a h = (case h a of Some obj \<Rightarrow> (case payload obj of CFArray vs \<Rightarrow> Some vs | _ \<Rightarrow> None) | None \<Rightarrow> None)"

definition CFArrayGetCount :: "u64 \<Rightarrow> cf_heap \<Rightarrow> i64 option" where
  "CFArrayGetCount arr h = (if arr = 0 then Some 0 else map_option (\<lambda>vs. of_nat (length vs)) (array_of arr h))"

definition CFArrayGetValueAtIndex :: "u64 \<Rightarrow> i64 \<Rightarrow> cf_heap \<Rightarrow> u64 option" where
  "CFArrayGetValueAtIndex arr idx h =
    (if arr = 0 then Some 0
     else map_option (\<lambda>vs. if unat idx < length vs then vs ! unat idx else 0) (array_of arr h))"

definition CFArrayAppendValue :: "u64 \<Rightarrow> u64 \<Rightarrow> cf_heap \<Rightarrow> cf_heap option" where
  "CFArrayAppendValue arr value h =
    (if arr = 0 then Some h
     else
       (case CFRetain value h of
          None \<Rightarrow> None
        | Some h1 \<Rightarrow>
            (case h1 arr of
               Some obj \<Rightarrow>
                 (case payload obj of
                    CFArray vs \<Rightarrow> Some (h1(arr \<mapsto> obj\<lparr>payload := CFArray (vs @ [value])\<rparr>))
                  | _ \<Rightarrow> None)
             | None \<Rightarrow> None)))"

fun position :: "u64 \<Rightarrow> u64 list \<Rightarrow> nat option" where
  "position v [] = None"
| "position v (x # xs) = (if x = v then Some 0 else map_option Suc (position v xs))"

definition CFArrayGetFirstIndexOfValue :: "u64 \<Rightarrow> u64 \<Rightarrow> cf_heap \<Rightarrow> i64 option" where
  "CFArrayGetFirstIndexOfValue arr value h =
    (if arr = 0 then Some (- 1)
     else map_option (\<lambda>vs. case position value vs of Some i \<Rightarrow> of_nat i | None \<Rightarrow> - 1) (array_of arr h))"

section \<open>Data\<close>

definition CFDataCreate :: "u64 \<Rightarrow> (nat \<Rightarrow> u8) option \<Rightarrow> i64 \<Rightarrow> cf_heap \<Rightarrow> u64 \<times> cf_heap" where
  "CFDataCreate p bytes len h =
    (let data = (case bytes of
                   None \<Rightarrow> []
                 | Some f \<Rightarrow> if sint len \<le> 0 then [] else map f [0..<nat (sint len)])
     in (p, h(p \<mapsto> cf_new CF_DATA_TYPE_ID (CFData data))))"

definition CFDataGetLength :: "u64 \<Rightarrow> cf_heap \<Rightarrow> i64 option" where
  "CFDataGetLength data h =
    (if data = 0 then Some 0
     else (case h data of
             Some obj \<Rightarrow> (case payload obj of CFData bs \<Rightarrow> Some (of_nat (length bs)) | _ \<Rightarrow> None)
           | None \<Rightarrow> None))"

section \<open>Dictionaries\<close>

text \<open>The loop of \<open>CFDictionaryCreate\<close>: retain the value, then insert (a later key replaces).\<close>

fun dict_fill :: "(u64 \<times> u64) list \<Rightarrow> (u64 \<times> u64) list \<Rightarrow> cf_heap \<Rightarrow> ((u64 \<times> u64) list \<times> cf_heap) option" where
  "dict_fill entries [] h = Some (entries, h)"
| "dict_fill entries ((k, v) # kvs) h =
    Option.bind (CFRetain v h) (\<lambda>h1. dict_fill (alist_insert k v entries) kvs h1)"

definition CFDictionaryCreate :: "u64 \<Rightarrow> c_array \<Rightarrow> c_array \<Rightarrow> i64 \<Rightarrow> cf_heap \<Rightarrow> (u64 \<times> cf_heap) option" where
  "CFDictionaryCreate p keys values num h =
    (let kvs = (case (keys, values) of
                  (Some f, Some g) \<Rightarrow> if sint num > 0 then map (\<lambda>i. (f i, g i)) [0..<nat (sint num)] else []
                | _ \<Rightarrow> [])
     in map_option (\<lambda>(entries, h1). (p, h1(p \<mapsto> cf_new CF_DICTIONARY_TYPE_ID (CFDictionary entries))))
          (dict_fill [] kvs h))"

definition CFDictionaryCreateMutable :: "u64 \<Rightarrow> cf_heap \<Rightarrow> u64 \<times> cf_heap" where
  "CFDictionaryCreateMutable p h = (p, h(p \<mapsto> cf_new CF_DICTIONARY_TYPE_ID (CFDictionary [])))"

definition dict_of :: "u64 \<Rightarrow> cf_heap \<Rightarrow> (u64 \<times> u64) list option" where
  "dict_of d h = (case h d of Some obj \<Rightarrow> (case payload obj of CFDictionary es \<Rightarrow> Some es | _ \<Rightarrow> None) | None \<Rightarrow> None)"

definition CFDictionaryGetCount :: "u64 \<Rightarrow> cf_heap \<Rightarrow> i64 option" where
  "CFDictionaryGetCount d h = (if d = 0 then Some 0 else map_option (\<lambda>es. of_nat (length es)) (dict_of d h))"

definition CFDictionaryGetValue :: "u64 \<Rightarrow> u64 \<Rightarrow> cf_heap \<Rightarrow> u64 option" where
  "CFDictionaryGetValue d key h =
    (if d = 0 then Some 0
     else map_option (\<lambda>es. case map_of es key of Some v \<Rightarrow> v | None \<Rightarrow> 0) (dict_of d h))"

definition CFDictionaryContainsKey :: "u64 \<Rightarrow> u64 \<Rightarrow> cf_heap \<Rightarrow> bool option" where
  "CFDictionaryContainsKey d key h =
    (if d = 0 then Some False else map_option (\<lambda>es. map_of es key \<noteq> None) (dict_of d h))"

definition set_entries :: "u64 \<Rightarrow> (u64 \<times> u64) list \<Rightarrow> cf_heap \<Rightarrow> cf_heap" where
  "set_entries d es h =
    (case h d of Some obj \<Rightarrow> h(d \<mapsto> obj\<lparr>payload := CFDictionary es\<rparr>) | None \<Rightarrow> h)"

text \<open>Releasing what the map gave back, if anything (a null value is skipped by \<open>CFRelease\<close> too).\<close>

definition release_old :: "u64 option \<Rightarrow> cf_heap \<Rightarrow> cf_heap option" where
  "release_old old h = (case old of None \<Rightarrow> Some h | Some v \<Rightarrow> CFRelease v h)"

definition CFDictionarySetValue :: "u64 \<Rightarrow> u64 \<Rightarrow> u64 \<Rightarrow> cf_heap \<Rightarrow> cf_heap option" where
  "CFDictionarySetValue d key value h =
    (if d = 0 then Some h
     else
       (case CFRetain value h of
          None \<Rightarrow> None
        | Some h1 \<Rightarrow>
            (case dict_of d h1 of
               None \<Rightarrow> None
             | Some es \<Rightarrow>
                 release_old (map_of es key) (set_entries d (alist_insert key value es) h1))))"

definition CFDictionaryRemoveValue :: "u64 \<Rightarrow> u64 \<Rightarrow> cf_heap \<Rightarrow> cf_heap option" where
  "CFDictionaryRemoveValue d key h =
    (if d = 0 then Some h
     else
       (case dict_of d h of
          None \<Rightarrow> None
        | Some es \<Rightarrow> release_old (map_of es key) (set_entries d (alist_remove key es) h)))"

section \<open>References held by containers\<close>

fun slots :: "cf_payload \<Rightarrow> u64 list" where
  "slots (CFDictionary es) = map snd es"
| "slots (CFArray vs) = vs"
| "slots _ = []"

definition held_by :: "cf_obj option \<Rightarrow> u64 \<Rightarrow> nat" where
  "held_by r p = (case r of None \<Rightarrow> 0 | Some obj \<Rightarrow> count_list (slots (payload obj)) p)"

text \<open>How many slots of live containers point to \<open>p\<close>.\<close>

definition held :: "cf_heap \<Rightarrow> u64 \<Rightarrow> nat" where
  "held h p = (\<Sum>a \<in> UNIV. held_by (h a) p)"

text \<open>
  The heap is sound: no object at null, every slot of a live container holds null or a live
  object, and a live object has a reference for each slot that holds it. Dictionaries have
  one entry for a key.
\<close>

definition cf_ok :: "cf_heap \<Rightarrow> bool" where
  "cf_ok h \<longleftrightarrow> h 0 = None
     \<and> (\<forall>p. p \<noteq> 0 \<and> held h p > 0 \<longrightarrow> h p \<noteq> None)
     \<and> (\<forall>p obj. h p = Some obj \<longrightarrow> held h p \<le> unat (refcount obj) \<and> refcount obj \<noteq> 0)
     \<and> (\<forall>p obj es. h p = Some obj \<and> payload obj = CFDictionary es \<longrightarrow> distinct (map fst es))"

lemma held_upd: "held (h(a := x)) p + held_by (h a) p = held h p + held_by x p"
proof -
  have f: "finite (UNIV :: u64 set)" by simp
  have "(\<Sum>b \<in> UNIV - {a}. held_by ((h(a := x)) b) p) = (\<Sum>b \<in> UNIV - {a}. held_by (h b) p)"
    by (rule sum.cong) auto
  then show ?thesis
    unfolding held_def
    using sum.remove [OF f UNIV_I, of "\<lambda>b. held_by ((h(a := x)) b) p" a]
      sum.remove [OF f UNIV_I, of "\<lambda>b. held_by (h b) p" a] by simp
qed

lemma held_refcount: "h a = Some obj \<Longrightarrow> held (h(a \<mapsto> obj\<lparr>refcount := c\<rparr>)) p = held h p"
  using held_upd [of h a "Some (obj\<lparr>refcount := c\<rparr>)" p] by (simp add: held_by_def)

lemma held_free: "h a = Some obj \<Longrightarrow> held (h(a := None)) p + count_list (slots (payload obj)) p = held h p"
  using held_upd [of h a None p] by (simp add: held_by_def)

lemma held_empty: "held (\<lambda>_. None) p = 0"
  by (simp add: held_def held_by_def)

section \<open>Operations keep the heap sound\<close>

lemma cf_okD:
  assumes "cf_ok h"
  shows "h 0 = None" and "p \<noteq> 0 \<Longrightarrow> held h p > 0 \<Longrightarrow> \<exists>obj. h p = Some obj"
    and "h p = Some obj \<Longrightarrow> held h p \<le> unat (refcount obj) \<and> refcount obj \<noteq> 0"
    and "h p = Some obj \<Longrightarrow> payload obj = CFDictionary es \<Longrightarrow> distinct (map fst es)"
  using assms unfolding cf_ok_def by blast+

lemma unat_suc: "(c :: u32) \<noteq> 0xFFFFFFFF \<Longrightarrow> unat (c + 1) = Suc (unat c)"
proof -
  assume "c \<noteq> 0xFFFFFFFF"
  then have "c + 1 \<noteq> 0" by (rule plus_one_nonzero)
  then show ?thesis by (simp add: unatSuc add.commute)
qed

lemma unat_pred: "(c :: u32) \<noteq> 0 \<Longrightarrow> unat (c - 1) = unat c - 1"
  by (simp add: unat_minus_one)

text \<open>A count of references that leaves room for one more.\<close>

definition room :: "cf_heap \<Rightarrow> u64 \<Rightarrow> bool" where
  "room h p \<longleftrightarrow> p = 0 \<or> (\<exists>obj. h p = Some obj \<and> refcount obj \<noteq> 0xFFFFFFFF)"

text \<open>The client owns a reference to \<open>p\<close>: there are more references than slots that hold it.\<close>

definition owns :: "cf_heap \<Rightarrow> u64 \<Rightarrow> bool" where
  "owns h p \<longleftrightarrow> p = 0 \<or> (\<exists>obj. h p = Some obj \<and> held h p < unat (refcount obj))"

lemma cf_ok_refcount:
  assumes ok: "cf_ok h" and o: "h a = Some obj" and c: "held h a \<le> unat c" "c \<noteq> 0"
  shows "cf_ok (h(a \<mapsto> obj\<lparr>refcount := c\<rparr>))"
proof -
  have he: "held (h(a \<mapsto> obj\<lparr>refcount := c\<rparr>)) = held h" using held_refcount [where h = h and a = a, OF o] by (simp add: fun_eq_iff)
  show ?thesis
    unfolding cf_ok_def he using ok o c cf_okD [OF ok] by (auto split: if_splits)
qed

lemma CFRetain_ok:
  assumes "cf_ok h" and "room h p"
  shows "\<exists>h'. CFRetain p h = Some h' \<and> cf_ok h' \<and> held h' = held h
     \<and> (p \<noteq> 0 \<longrightarrow> owns h' p) \<and> (\<forall>a. map_option payload (h' a) = map_option payload (h a))"
proof (cases "p = 0")
  case True
  with assms show ?thesis by (simp add: CFRetain_def)
next
  case False
  with assms(2) obtain obj where o: "h p = Some obj" "refcount obj \<noteq> 0xFFFFFFFF" by (auto simp: room_def)
  let ?h' = "h(p \<mapsto> obj\<lparr>refcount := refcount obj + 1\<rparr>)"
  have le: "held h p \<le> unat (refcount obj)" using cf_okD(3) [OF assms(1) o(1)] by simp
  have s: "unat (refcount obj + 1) = Suc (unat (refcount obj))" by (rule unat_suc [OF o(2)])
  then have nz: "refcount obj + 1 \<noteq> 0" by (metis unat_0 nat.simps(3))
  have "cf_ok ?h'" by (rule cf_ok_refcount [OF assms(1) o(1)]) (use le s nz in simp_all)
  moreover have "held ?h' = held h" using held_refcount [where h = h and a = p, OF o(1)] by (simp add: fun_eq_iff)
  ultimately show ?thesis
    using False o le s by (auto simp: CFRetain_def owns_def)
qed

lemma CFRelease_ok:
  assumes ok: "cf_ok h" and ow: "owns h p"
  shows "\<exists>h'. CFRelease p h = Some h' \<and> cf_ok h'"
proof (cases "p = 0")
  case True
  with ok show ?thesis by (simp add: CFRelease_def)
next
  case False
  with ow obtain obj where o: "h p = Some obj" "held h p < unat (refcount obj)" by (auto simp: owns_def)
  show ?thesis
  proof (cases "refcount obj = 1")
    case True
    have z: "held h p = 0" using o(2) True by simp
    have le: "held (h(p := None)) q \<le> held h q" for q using held_free [where h = h and a = p, OF o(1), of q] by simp
    have "held (h(p := None)) p = 0" using le [of p] z by simp
    then have "cf_ok (h(p := None))"
      unfolding cf_ok_def using ok cf_okD [OF ok] le
      by (auto split: if_splits) (metis le_zero_eq not_gr_zero le_less_trans order_trans)+
    with True o False show ?thesis by (simp add: CFRelease_def)
  next
    case f: False
    have nz: "refcount obj \<noteq> 0" using o(2) by (metis not_less_zero unat_0)
    have "refcount obj - 1 \<noteq> 0" using f by simp
    moreover have "held h p \<le> unat (refcount obj - 1)" using o(2) unat_pred [OF nz] by simp
    ultimately have "cf_ok (h(p \<mapsto> obj\<lparr>refcount := refcount obj - 1\<rparr>))"
      by (intro cf_ok_refcount [OF ok o(1)])
    with f o False show ?thesis by (simp add: CFRelease_def)
  qed
qed

lemma CFRetain_live: "CFRetain p h = Some h' \<Longrightarrow> p \<noteq> 0 \<Longrightarrow> \<exists>obj. h p = Some obj"
  by (auto simp: CFRetain_def split: option.splits)

text \<open>\<open>n\<close> references to \<open>q\<close> beyond those of the slots.\<close>

definition spare :: "cf_heap \<Rightarrow> u64 \<Rightarrow> nat \<Rightarrow> bool" where
  "spare h q n \<longleftrightarrow> q = 0 \<or> n = 0 \<or> (\<exists>obj. h q = Some obj \<and> held h q + n \<le> unat (refcount obj))"

lemma spare_le: "spare h q n \<Longrightarrow> k \<le> n \<Longrightarrow> spare h q k"
  by (auto simp: spare_def)

lemma CFRetain_spare:
  assumes ok: "cf_ok h" and rm: "room h p" and sp: "\<forall>q. spare h q (f q)"
    and r: "CFRetain p h = Some h'"
  shows "\<forall>q. spare h' q (f q + (if q = p then 1 else 0))"
proof
  fix q
  show "spare h' q (f q + (if q = p then 1 else 0))"
  proof (cases "p = 0")
    case True
    with r sp show ?thesis by (auto simp: CFRetain_def spare_def)
  next
    case False
    with rm obtain obj where o: "h p = Some obj" "refcount obj \<noteq> 0xFFFFFFFF" by (auto simp: room_def)
    have h': "h' = h(p \<mapsto> obj\<lparr>refcount := refcount obj + 1\<rparr>)" using r False o by (simp add: CFRetain_def)
    have he: "held h' = held h"
      unfolding h' using held_refcount [where h = h and a = p, OF o(1)] by (simp add: fun_eq_iff)
    have "held h p + f p \<le> unat (refcount obj)"
      using sp [rule_format, of p] cf_okD(3) [OF ok o(1)] o(1) False by (auto simp: spare_def)
    then show ?thesis
      using sp [rule_format, of q] False o unat_suc [OF o(2)] unfolding spare_def he by (auto simp: h')
  qed
qed

fun rooms :: "u64 list \<Rightarrow> cf_heap \<Rightarrow> bool" where
  "rooms [] h = True"
| "rooms (v # vs) h = (room h v \<and> (case CFRetain v h of Some h1 \<Rightarrow> rooms vs h1 | None \<Rightarrow> False))"

definition same_payloads :: "cf_heap \<Rightarrow> cf_heap \<Rightarrow> bool" where
  "same_payloads h h' \<longleftrightarrow> (\<forall>a. map_option payload (h' a) = map_option payload (h a))"

lemma retain_all_ok:
  assumes "cf_ok h" and "rooms vs h" and "\<forall>q. spare h q (f q)"
  shows "\<exists>h'. retain_all vs h = Some h' \<and> cf_ok h' \<and> same_payloads h h'
      \<and> (\<forall>q. spare h' q (f q + count_list vs q))"
  using assms
proof (induction vs arbitrary: h f)
  case Nil
  then show ?case by (simp add: same_payloads_def)
next
  case (Cons v vs)
  then have rm: "room h v" by simp
  from CFRetain_ok [OF Cons.prems(1) rm] obtain h1 where r: "CFRetain v h = Some h1" "cf_ok h1"
    "same_payloads h h1" by (auto simp: same_payloads_def)
  have rs: "rooms vs h1" using Cons.prems(2) r(1) by simp
  from Cons.IH [OF r(2) rs CFRetain_spare [OF Cons.prems(1) rm Cons.prems(3) r(1)]] obtain h' where
    "retain_all vs h1 = Some h'" "cf_ok h'" "same_payloads h1 h'"
    "\<forall>q. spare h' q (f q + (if q = v then 1 else 0) + count_list vs q)" by blast
  with r show ?case by (auto simp: same_payloads_def add.assoc split: if_splits)
qed

lemma same_payloads_none: "same_payloads h h' \<Longrightarrow> h' a = None \<longleftrightarrow> h a = None"
  unfolding same_payloads_def by (metis map_option_is_None)

text \<open>A new object whose slots are paid for.\<close>

lemma cf_ok_create:
  assumes ok: "cf_ok h" and fr: "h p = None" "p \<noteq> 0"
    and sp: "\<forall>q. spare h q (count_list (slots pl) q)"
    and ds: "\<forall>es. pl = CFDictionary es \<longrightarrow> distinct (map fst es)"
  shows "cf_ok (h(p \<mapsto> cf_new t pl))"
proof -
  let ?h = "h(p \<mapsto> cf_new t pl)"
  have hp: "held h p = 0" using cf_okD(2) [OF ok, of p] fr by auto
  have cp: "count_list (slots pl) p = 0" using sp [rule_format, of p] fr by (auto simp: spare_def)
  have he: "held ?h q = held h q + count_list (slots pl) q" for q
    using held_upd [of h p "Some (cf_new t pl)" q] fr by (simp add: held_by_def cf_new_def)
  have "held ?h q \<le> unat (refcount obj) \<and> refcount obj \<noteq> 0" if "?h q = Some obj" for q obj
  proof (cases "q = p")
    case True
    with that he hp cp show ?thesis by (auto simp: cf_new_def)
  next
    case False
    with that have hq: "h q = Some obj" by simp
    moreover have "q \<noteq> 0" using hq cf_okD(1) [OF ok] by auto
    ultimately show ?thesis
      using sp [rule_format, of q] cf_okD(3) [OF ok hq] by (auto simp: spare_def he)
  qed
  moreover have "?h q \<noteq> None" if "q \<noteq> 0" "held ?h q > 0" for q
    using that sp [rule_format, of q] cf_okD(2) [OF ok, of q] by (auto simp: he spare_def)
  moreover have "distinct (map fst es)" if "?h q = Some obj" "payload obj = CFDictionary es" for q obj es
    using that ds cf_okD(4) [OF ok] by (auto simp: cf_new_def split: if_splits)
  moreover have "?h 0 = None" using fr cf_okD(1) [OF ok] by simp
  ultimately show ?thesis unfolding cf_ok_def by blast
qed

text \<open>Changing the slots of a container, one reference paid for, one given back.\<close>

lemma cf_ok_payload:
  assumes ok: "cf_ok h" and o: "h a = Some obj"
    and sp: "spare h v 1"
    and ct: "\<forall>q. count_list (slots pl) q + (if old = Some q then 1 else 0)
                 = count_list (slots (payload obj)) q + (if add \<and> q = v then 1 else 0)"
    and ds: "\<forall>es. pl = CFDictionary es \<longrightarrow> distinct (map fst es)"
  shows "cf_ok (h(a \<mapsto> obj\<lparr>payload := pl\<rparr>))
       \<and> (\<forall>q. old = Some q \<longrightarrow> owns (h(a \<mapsto> obj\<lparr>payload := pl\<rparr>)) q)"
proof -
  let ?h = "h(a \<mapsto> obj\<lparr>payload := pl\<rparr>)"
  have "held ?h q + count_list (slots (payload obj)) q = held h q + count_list (slots pl) q" for q
    using held_upd [of h a "Some (obj\<lparr>payload := pl\<rparr>)" q] o by (simp add: held_by_def)
  then have he: "held ?h q + (if old = Some q then 1 else 0) = held h q + (if add \<and> q = v then 1 else 0)" for q
    using ct [rule_format, of q] by (smt (verit) add.assoc add.commute add_left_cancel)
  have a0: "a \<noteq> 0" using o cf_okD(1) [OF ok] by auto
  have bound: "held h q + (if add \<and> q = v then 1 else 0) \<le> unat (refcount ob) \<and> refcount ob \<noteq> 0"
    if "h q = Some ob" for q ob
  proof -
    have "q \<noteq> 0" using that cf_okD(1) [OF ok] by auto
    with that sp cf_okD(3) [OF ok that] show ?thesis by (auto simp: spare_def)
  qed
  have live: "\<exists>ob. ?h q = Some ob \<and> refcount ob = refcount ob' \<and> (q \<noteq> a \<longrightarrow> ob = ob')" if "h q = Some ob'" for q ob'
    using that o by auto
  have origin: "\<exists>ob'. h q = Some ob' \<and> refcount ob = refcount ob'" if "?h q = Some ob" for q ob
    using that o by (auto split: if_splits)
  have "held ?h q \<le> unat (refcount ob) \<and> refcount ob \<noteq> 0" if "?h q = Some ob" for q ob
    using origin [OF that] bound he [of q] by (metis add_leD1)
  moreover have "?h q \<noteq> None" if "q \<noteq> 0" "held ?h q > 0" for q
  proof -
    have "held h q > 0 \<or> (add \<and> q = v)" using he [of q] that(2) by (auto split: if_splits)
    then have "h q \<noteq> None" using cf_okD(2) [OF ok that(1)] sp that(1) by (auto simp: spare_def)
    then show ?thesis using live by (metis not_None_eq)
  qed
  moreover have "distinct (map fst es)" if "?h q = Some ob" "payload ob = CFDictionary es" for q ob es
    using that ds cf_okD(4) [OF ok] by (auto split: if_splits)
  moreover have "?h 0 = None" using a0 cf_okD(1) [OF ok] by simp
  ultimately have "cf_ok ?h" unfolding cf_ok_def by blast
  moreover have "owns ?h q" if q: "old = Some q" "q \<noteq> 0" for q
  proof -
    have "held ?h q + 1 = held h q + (if add \<and> q = v then 1 else 0)" using he [of q] q by simp
    then have "held h q > 0 \<or> (add \<and> q = v)" by (auto split: if_splits)
    then obtain ob where ob: "h q = Some ob" using cf_okD(2) [OF ok q(2)] sp q(2) by (auto simp: spare_def)
    from live [OF ob] obtain ob2 where "?h q = Some ob2" "refcount ob2 = refcount ob" by blast
    moreover have "held ?h q < unat (refcount ob)" using bound [OF ob] he [of q] q by simp
    ultimately show ?thesis by (auto simp: owns_def)
  qed
  moreover have "owns ?h 0" by (simp add: owns_def)
  ultimately show ?thesis by metis
qed

section \<open>The client's operations\<close>

lemma count_alist_insert:
  "distinct (map fst es) \<Longrightarrow>
   count_list (map snd (alist_insert k v es)) q + (if map_of es k = Some q then 1 else 0)
     = count_list (map snd es) q + (if q = v then 1 else (0::nat))"
proof (induction es)
  case Nil
  then show ?case by simp
next
  case (Cons e es)
  obtain k' v' where e: "e = (k', v')" by (cases e)
  show ?case
  proof (cases "k = k'")
    case True
    with Cons.prems e show ?thesis by simp
  next
    case False
    with Cons e show ?thesis by auto
  qed
qed

lemma count_alist_remove:
  "distinct (map fst es) \<Longrightarrow>
   count_list (map snd (alist_remove k es)) q + (if map_of es k = Some q then 1 else 0)
     = count_list (map snd es) q"
proof (induction es)
  case Nil
  then show ?case by (simp add: alist_remove_def)
next
  case (Cons e es)
  obtain k' v' where e: "e = (k', v')" by (cases e)
  show ?case
  proof (cases "k = k'")
    case True
    have "alist_remove k es = es"
      using Cons.prems e True by (force simp: alist_remove_def filter_id_conv)
    with True e show ?thesis by (simp add: alist_remove_def)
  next
    case False
    with Cons e show ?thesis by (auto simp: alist_remove_def)
  qed
qed

lemma distinct_alist_remove: "distinct (map fst es) \<Longrightarrow> distinct (map fst (alist_remove k es))"
  by (simp add: alist_remove_def distinct_map_filter)

datatype cf_op =
    OpRetain u64
  | OpRelease u64
  | OpStringCreate u64 "u8 list"
  | OpArrayCreate u64 c_array i64
  | OpArrayCreateMutable u64
  | OpArrayAppend u64 u64
  | OpDataCreate u64 "(nat \<Rightarrow> u8) option" i64
  | OpDictionaryCreateMutable u64
  | OpDictionarySet u64 u64 u64
  | OpDictionaryRemove u64 u64

definition cf_exec :: "cf_op \<Rightarrow> cf_heap \<Rightarrow> cf_heap option" where
  "cf_exec op h =
    (case op of
       OpRetain p \<Rightarrow> CFRetain p h
     | OpRelease p \<Rightarrow> CFRelease p h
     | OpStringCreate p bs \<Rightarrow> Some (h(p \<mapsto> cf_new CF_STRING_TYPE_ID (CFString bs)))
     | OpArrayCreate p values num \<Rightarrow> map_option snd (CFArrayCreate p values num h)
     | OpArrayCreateMutable p \<Rightarrow> Some (snd (CFArrayCreateMutable p h))
     | OpArrayAppend a v \<Rightarrow> CFArrayAppendValue a v h
     | OpDataCreate p bytes len \<Rightarrow> Some (snd (CFDataCreate p bytes len h))
     | OpDictionaryCreateMutable p \<Rightarrow> Some (snd (CFDictionaryCreateMutable p h))
     | OpDictionarySet d k v \<Rightarrow> CFDictionarySetValue d k v h
     | OpDictionaryRemove d k \<Rightarrow> CFDictionaryRemoveValue d k h)"

text \<open>
  What the client owes: a new block is not in use, a released object is owned, a container
  argument is a live container of that type (or null), and no count reaches 2^32.
\<close>

definition unused :: "u64 \<Rightarrow> cf_heap \<Rightarrow> bool" where
  "unused p h \<longleftrightarrow> p \<noteq> 0 \<and> h p = None"

definition cf_allowed :: "cf_op \<Rightarrow> cf_heap \<Rightarrow> bool" where
  "cf_allowed op h =
    (case op of
       OpRetain p \<Rightarrow> room h p
     | OpRelease p \<Rightarrow> owns h p
     | OpStringCreate p bs \<Rightarrow> unused p h
     | OpArrayCreate p values num \<Rightarrow> unused p h \<and> rooms (c_values values num) h
     | OpArrayCreateMutable p \<Rightarrow> unused p h
     | OpArrayAppend a v \<Rightarrow> a = 0 \<or> array_of a h \<noteq> None \<and> room h v
     | OpDataCreate p bytes len \<Rightarrow> unused p h
     | OpDictionaryCreateMutable p \<Rightarrow> unused p h
     | OpDictionarySet d k v \<Rightarrow> d = 0 \<or> dict_of d h \<noteq> None \<and> room h v
     | OpDictionaryRemove d k \<Rightarrow> d = 0 \<or> dict_of d h \<noteq> None)"

lemma same_payloads_at: "same_payloads h h' \<Longrightarrow> map_option payload (h' a) = map_option payload (h a)"
  by (simp add: same_payloads_def)

lemma same_payloads_array: "same_payloads h h' \<Longrightarrow> array_of a h' = array_of a h"
  using same_payloads_at [of h h' a] by (cases "h a"; cases "h' a") (simp_all add: array_of_def)

lemma same_payloads_dict: "same_payloads h h' \<Longrightarrow> dict_of a h' = dict_of a h"
  using same_payloads_at [of h h' a] by (cases "h a"; cases "h' a") (simp_all add: dict_of_def)

lemma array_ofD: "array_of a h = Some vs \<Longrightarrow> \<exists>obj. h a = Some obj \<and> payload obj = CFArray vs"
  by (auto simp: array_of_def split: option.splits cf_payload.splits)

lemma dict_ofD: "dict_of a h = Some es \<Longrightarrow> \<exists>obj. h a = Some obj \<and> payload obj = CFDictionary es"
  by (auto simp: dict_of_def split: option.splits cf_payload.splits)

lemma spare_zero: "spare h q 0"
  by (simp add: spare_def)

lemma retained:
  assumes "cf_ok h" and "room h v"
  shows "\<exists>h1. CFRetain v h = Some h1 \<and> cf_ok h1 \<and> same_payloads h h1 \<and> spare h1 v 1"
proof -
  from CFRetain_ok [OF assms] obtain h1 where h1: "CFRetain v h = Some h1" "cf_ok h1" "same_payloads h h1"
    by (auto simp: same_payloads_def)
  have "\<forall>q. spare h 0 0 \<and> spare h q ((\<lambda>_. 0) q)" by (simp add: spare_zero)
  then have "\<forall>q. spare h1 q (0 + (if q = v then 1 else 0))"
    using CFRetain_spare [OF assms, of "\<lambda>_. 0" h1] h1(1) by blast
  then have "spare h1 v 1" by (metis add_0)
  with h1 show ?thesis by blast
qed

lemma append_ok:
  assumes ok: "cf_ok h" and al: "array_of a h \<noteq> None" "room h v"
  shows "\<exists>h'. CFArrayAppendValue a v h = Some h' \<and> cf_ok h'"
proof (cases "a = 0")
  case True
  with ok show ?thesis by (simp add: CFArrayAppendValue_def)
next
  case False
  from retained [OF ok al(2)] obtain h1 where h1: "CFRetain v h = Some h1" "cf_ok h1" "same_payloads h h1" "spare h1 v 1"
    by blast
  from al(1) same_payloads_array [OF h1(3)] obtain vs where "array_of a h1 = Some vs" by auto
  then obtain obj where o: "h1 a = Some obj" "payload obj = CFArray vs" using array_ofD by blast
  have "cf_ok (h1(a \<mapsto> obj\<lparr>payload := CFArray (vs @ [v])\<rparr>))"
    using cf_ok_payload [OF h1(2) o(1) h1(4), of "CFArray (vs @ [v])" None True] o(2) by simp
  with False h1(1) o show ?thesis by (simp add: CFArrayAppendValue_def)
qed

lemma dict_set_ok:
  assumes ok: "cf_ok h" and al: "dict_of d h \<noteq> None" "room h v"
  shows "\<exists>h'. CFDictionarySetValue d k v h = Some h' \<and> cf_ok h'"
proof (cases "d = 0")
  case True
  with ok show ?thesis by (simp add: CFDictionarySetValue_def)
next
  case False
  from retained [OF ok al(2)] obtain h1 where h1: "CFRetain v h = Some h1" "cf_ok h1" "same_payloads h h1" "spare h1 v 1"
    by blast
  from al(1) same_payloads_dict [OF h1(3)] obtain es where es: "dict_of d h1 = Some es" by auto
  then obtain obj where o: "h1 d = Some obj" "payload obj = CFDictionary es" using dict_ofD by blast
  let ?h2 = "h1(d \<mapsto> obj\<lparr>payload := CFDictionary (alist_insert k v es)\<rparr>)"
  have ds: "distinct (map fst es)" using cf_okD(4) [OF h1(2) o] .
  have "cf_ok ?h2 \<and> (\<forall>q. map_of es k = Some q \<longrightarrow> owns ?h2 q)"
    by (rule cf_ok_payload [OF h1(2) o(1) h1(4), where add = True])
       (use count_alist_insert [OF ds] ds in \<open>simp_all add: o(2)\<close>)
  then have "\<exists>h'. release_old (map_of es k) ?h2 = Some h' \<and> cf_ok h'"
    using CFRelease_ok [of ?h2] by (auto simp: release_old_def split: option.split)
  with False h1(1) es o show ?thesis by (simp add: CFDictionarySetValue_def set_entries_def)
qed

lemma dict_remove_ok:
  assumes ok: "cf_ok h" and al: "dict_of d h \<noteq> None"
  shows "\<exists>h'. CFDictionaryRemoveValue d k h = Some h' \<and> cf_ok h'"
proof (cases "d = 0")
  case True
  with ok show ?thesis by (simp add: CFDictionaryRemoveValue_def)
next
  case False
  from al obtain es where es: "dict_of d h = Some es" by auto
  then obtain obj where o: "h d = Some obj" "payload obj = CFDictionary es" using dict_ofD by blast
  let ?h2 = "h(d \<mapsto> obj\<lparr>payload := CFDictionary (alist_remove k es)\<rparr>)"
  have ds: "distinct (map fst es)" using cf_okD(4) [OF ok o] .
  have sp: "spare h 0 1" by (simp add: spare_def)
  have "cf_ok ?h2 \<and> (\<forall>q. map_of es k = Some q \<longrightarrow> owns ?h2 q)"
    by (rule cf_ok_payload [OF ok o(1) sp, where add = False])
       (use count_alist_remove [OF ds] distinct_alist_remove [OF ds] in \<open>simp_all add: o(2)\<close>)
  then have "\<exists>h'. release_old (map_of es k) ?h2 = Some h' \<and> cf_ok h'"
    using CFRelease_ok [of ?h2] by (auto simp: release_old_def split: option.split)
  with False es o show ?thesis by (simp add: CFDictionaryRemoveValue_def set_entries_def)
qed

lemma create_simple_ok:
  "cf_ok h \<Longrightarrow> unused p h \<Longrightarrow> slots pl = [] \<Longrightarrow> \<forall>es. pl = CFDictionary es \<longrightarrow> es = []
    \<Longrightarrow> cf_ok (h(p \<mapsto> cf_new t pl))"
  by (rule cf_ok_create) (auto simp: unused_def spare_zero)

lemma array_create_ok:
  assumes "cf_ok h" and "unused p h" and "rooms (c_values values num) h"
  shows "\<exists>h'. CFArrayCreate p values num h = Some (p, h') \<and> cf_ok h'"
proof -
  from retain_all_ok [OF assms(1,3), of "\<lambda>_. 0"] obtain h1 where
    h1: "retain_all (c_values values num) h = Some h1" "cf_ok h1" "same_payloads h h1"
      "\<forall>q. spare h1 q (count_list (c_values values num) q)"
    by (auto simp: spare_zero)
  have "cf_ok (h1(p \<mapsto> cf_new CF_ARRAY_TYPE_ID (CFArray (c_values values num))))"
    by (rule cf_ok_create [OF h1(2)]) (use h1(3,4) assms(2) same_payloads_none in \<open>auto simp: unused_def\<close>)
  with h1(1) show ?thesis by (simp add: CFArrayCreate_def)
qed

lemma cf_exec_ok:
  assumes "cf_ok h" and "cf_allowed op h"
  shows "\<exists>h'. cf_exec op h = Some h' \<and> cf_ok h'"
proof (cases op)
  case (OpRetain p)
  with assms CFRetain_ok [of h p] show ?thesis by (auto simp: cf_exec_def cf_allowed_def)
next
  case (OpRelease p)
  with assms CFRelease_ok show ?thesis by (simp add: cf_exec_def cf_allowed_def)
next
  case (OpStringCreate p bs)
  with assms show ?thesis by (simp add: cf_exec_def cf_allowed_def create_simple_ok)
next
  case (OpArrayCreate p f num)
  with assms array_create_ok [of h p f num] show ?thesis by (auto simp: cf_exec_def cf_allowed_def)
next
  case (OpArrayCreateMutable p)
  with assms show ?thesis by (simp add: cf_exec_def cf_allowed_def CFArrayCreateMutable_def create_simple_ok)
next
  case (OpArrayAppend a v)
  with assms append_ok [of h a v] show ?thesis
    by (cases "a = 0") (auto simp: cf_exec_def cf_allowed_def CFArrayAppendValue_def)
next
  case (OpDataCreate p bytes len)
  with assms show ?thesis by (simp add: cf_exec_def cf_allowed_def CFDataCreate_def Let_def create_simple_ok)
next
  case (OpDictionaryCreateMutable p)
  with assms show ?thesis by (simp add: cf_exec_def cf_allowed_def CFDictionaryCreateMutable_def create_simple_ok)
next
  case (OpDictionarySet d k v)
  with assms dict_set_ok [of h d v k] show ?thesis
    by (cases "d = 0") (auto simp: cf_exec_def cf_allowed_def CFDictionarySetValue_def)
next
  case (OpDictionaryRemove d k)
  with assms dict_remove_ok [of h d k] show ?thesis
    by (cases "d = 0") (auto simp: cf_exec_def cf_allowed_def CFDictionaryRemoveValue_def)
qed

section \<open>The heap as a machine\<close>

text \<open>A run of client operations; once an operation touches a freed object there is no state.\<close>

definition cf_step :: "cf_op \<Rightarrow> cf_heap option \<Rightarrow> cf_heap option" where
  "cf_step op s = Option.bind s (cf_exec op)"

definition cf_sound :: "cf_heap option \<Rightarrow> bool" where
  "cf_sound s \<longleftrightarrow> (case s of Some h \<Rightarrow> cf_ok h | None \<Rightarrow> False)"

definition cf_permitted :: "cf_op \<Rightarrow> cf_heap option \<Rightarrow> bool" where
  "cf_permitted op s = (case s of Some h \<Rightarrow> cf_allowed op h | None \<Rightarrow> True)"

interpretation cfm: op_machine cf_step cf_sound cf_permitted
proof (unfold_locales)
  fix s x assume "cf_sound s" "cf_permitted x s"
  then obtain h where "s = Some h" "cf_ok h" "cf_allowed x h"
    by (auto simp: cf_sound_def cf_permitted_def split: option.splits)
  with cf_exec_ok [of h x] show "cf_sound (cf_step x s)"
    by (auto simp: cf_sound_def cf_step_def)
qed

interpretation entries: keyed_store "map_of :: (u64 \<times> u64) list \<Rightarrow> u64 \<Rightarrow> u64 option" alist_insert alist_remove
  by unfold_locales simp_all

lemma cf_ok_empty: "cf_ok (\<lambda>_. None)"
  by (simp add: cf_ok_def held_empty)


lemma held_upd_eval: "held (h(a := x)) p = held h p + held_by x p - held_by (h a) p"
  using held_upd [of h a x p] by simp

definition demo_cf_ops :: "cf_op list" where
  "demo_cf_ops = [OpStringCreate 16 [104], OpDictionaryCreateMutable 32, OpDictionarySet 32 1 16,
                  OpRelease 16, OpDictionaryRemove 32 1]"


lemma release_other:
  "CFRelease q h = Some h' \<Longrightarrow> q \<noteq> d \<Longrightarrow> h' d = h d"
  by (auto simp: CFRelease_def split: if_splits option.splits)

text \<open>
  A dictionary returns what was set: after \<open>CFDictionarySetValue\<close> the key has the new
  value, every other key answers as before, and the count grows by one exactly when the key
  was new (the value replaced must not be the dictionary itself, whose last reference it
  could be).
\<close>

theorem dictionary_get_set:
  assumes "cf_ok h" and "d \<noteq> 0" and "dict_of d h = Some es" and "map_of es k \<noteq> Some d"
    and "CFDictionarySetValue d k v h = Some h'"
  shows "CFDictionaryGetValue d k' h' = (if k' = k then Some v else CFDictionaryGetValue d k' h)
       \<and> CFDictionaryContainsKey d k h' = Some True
       \<and> CFDictionaryGetCount d h' = Some (of_nat (length es + (if map_of es k = None then 1 else 0)))"
proof -
  obtain h1 where h1: "CFRetain v h = Some h1"
    using assms(2,5) by (auto simp: CFDictionarySetValue_def split: option.splits)
  have "same_payloads h h1"
    using h1 by (auto simp: CFRetain_def same_payloads_def split: if_splits option.splits)
  then have es1: "dict_of d h1 = Some es" using assms(3) by (simp add: same_payloads_dict)
  then obtain obj where o: "h1 d = Some obj" "payload obj = CFDictionary es" using dict_ofD by blast
  let ?h2 = "h1(d \<mapsto> obj\<lparr>payload := CFDictionary (alist_insert k v es)\<rparr>)"
  have "release_old (map_of es k) ?h2 = Some h'"
    using assms(2,5) h1 es1 o by (simp add: CFDictionarySetValue_def set_entries_def)
  then have "h' d = ?h2 d"
  proof (cases "map_of es k")
    case (Some q)
    with \<open>release_old (map_of es k) ?h2 = Some h'\<close> have "CFRelease q ?h2 = Some h'" by (simp add: release_old_def)
    then show ?thesis by (rule release_other) (use assms(4) Some in simp)
  qed (simp add: release_old_def)
  then have d': "dict_of d h' = Some (alist_insert k v es)" by (simp add: dict_of_def)
  have len: "length (alist_insert k v es) = length es + (if map_of es k = None then 1 else 0)"
    by (induction es) auto
  show ?thesis
    using assms(2,3) d' len entries.lookup_insert
    by (simp add: CFDictionaryGetValue_def CFDictionaryContainsKey_def CFDictionaryGetCount_def)
qed

theorem dictionary_get_set_witness:
  "\<exists>h'. CFDictionarySetValue 32 7 16 ((\<lambda>_. None)(16 \<mapsto> cf_new 7 (CFString [104]), 32 \<mapsto> cf_new 18 (CFDictionary [])))
        = Some h'
     \<and> CFDictionaryGetValue 32 7 h' = Some 16 \<and> CFDictionaryGetCount 32 h' = Some 1"
proof -
  let ?h = "(\<lambda>_. None)(16 \<mapsto> cf_new 7 (CFString [104]), 32 \<mapsto> cf_new 18 (CFDictionary []))"
  have ok: "cf_ok ?h"
    by (simp add: cf_ok_def held_upd_eval held_empty held_by_def cf_new_def)
  have d: "dict_of 32 ?h = Some []" by (simp add: dict_of_def cf_new_def)
  obtain h' where s: "CFDictionarySetValue 32 7 16 ?h = Some h'"
    by (simp add: CFDictionarySetValue_def CFRetain_def dict_of_def cf_new_def set_entries_def release_old_def)
  from dictionary_get_set [OF ok _ d _ s] s show ?thesis by simp
qed

text \<open>
  Destroying a dictionary keeps its values alive: when the last reference to a dictionary
  goes, its values are not released, so the references the dictionary took are never given
  back.
\<close>

theorem dictionary_destructor_leaks:
  assumes "dict_of d h = Some es" and "h d = Some obj" and "refcount obj = 1" and "d \<noteq> 0"
    and "map_of es k = Some v" and "v \<noteq> d"
  shows "\<exists>h'. CFRelease d h = Some h' \<and> h' d = None \<and> h' v = h v \<and> held h' v < held h v"
proof -
  have p: "payload obj = CFDictionary es" using dict_ofD [OF assms(1)] assms(2) by auto
  have "v \<in> set (slots (payload obj))" using map_of_SomeD [OF assms(5)] p by force
  then have "count_list (slots (payload obj)) v > 0" by (simp add: count_list_0_iff zero_less_iff_neq_zero)
  then have "held (h(d := None)) v < held h v"
    using held_free [where h = h and a = d, OF assms(2), of v] by simp
  then show ?thesis using assms by (simp add: CFRelease_def)
qed

theorem dictionary_destructor_leaks_witness:
  "\<exists>h'. CFRelease 32 ((\<lambda>_. None)(16 \<mapsto> cf_new 7 (CFString [104]), 32 \<mapsto> cf_new 18 (CFDictionary [(1, 16)]))) = Some h'
     \<and> h' 32 = None \<and> h' 16 = Some (cf_new 7 (CFString [104]))"
proof -
  let ?h = "(\<lambda>_. None)(16 \<mapsto> cf_new 7 (CFString [104]), 32 \<mapsto> cf_new 18 (CFDictionary [(1, 16)])) :: cf_heap"
  have "\<exists>h'. CFRelease 32 ?h = Some h' \<and> h' 32 = None \<and> h' 16 = ?h 16 \<and> held h' 16 < held ?h 16"
    by (rule dictionary_destructor_leaks [where es = "[(1, 16)]" and k = 1
          and obj = "cf_new 18 (CFDictionary [(1, 16)])"])
       (simp_all add: dict_of_def cf_new_def)
  then show ?thesis by auto
qed

end
