(* ===== verification/CFStrings.thy ===== *)
theory CFStrings
  imports CFTypes "HOL-Library.List_Lexorder"
begin

text \<open>
  \<open>grafted-frameworks/src/cf/string.rs\<close>: \<open>CFString\<close> over the heap of \<open>CFTypes\<close>. A string
  object stores UTF-8 bytes; lengths and characters are UTF-16 units of the decoded text,
  and a buffer of the caller is described by the bytes or units the call writes to it.
\<close>

definition string_of :: "u64 \<Rightarrow> cf_heap \<Rightarrow> u8 list option" where
  "string_of s h = (case h s of Some obj \<Rightarrow> (case payload obj of CFString bs \<Rightarrow> Some bs | _ \<Rightarrow> None) | None \<Rightarrow> None)"

text \<open>\<open>CFStringInner::as_str\<close>: the scalar values of the bytes, and the bytes, empty when not UTF-8.\<close>

definition as_scalars :: "u8 list \<Rightarrow> nat list" where
  "as_scalars bs = (case utf8_decode bs of Some cs \<Rightarrow> cs | None \<Rightarrow> [])"

definition as_str :: "u8 list \<Rightarrow> u8 list" where
  "as_str bs = (if utf8_decode bs = None then [] else bs)"

definition CFStringInner_new :: "u64 \<Rightarrow> u8 list \<Rightarrow> cf_heap \<Rightarrow> u64 \<times> cf_heap" where
  "CFStringInner_new p bs h = (p, h(p \<mapsto> cf_new CF_STRING_TYPE_ID (CFString bs)))"

text \<open>The C string is given by its bytes up to the NUL; a null pointer is \<open>None\<close>.\<close>

definition CFStringCreateWithCString :: "u64 \<Rightarrow> u8 list option \<Rightarrow> cf_heap \<Rightarrow> u64 \<times> cf_heap" where
  "CFStringCreateWithCString p cstr h =
    (case cstr of None \<Rightarrow> (0, h) | Some bs \<Rightarrow> CFStringInner_new p (as_str bs) h)"

definition CFStringCreateWithBytes :: "u64 \<Rightarrow> (nat \<Rightarrow> u8) option \<Rightarrow> i64 \<Rightarrow> cf_heap \<Rightarrow> u64 \<times> cf_heap" where
  "CFStringCreateWithBytes p bytes num h =
    (case bytes of
       None \<Rightarrow> (0, h)
     | Some f \<Rightarrow>
         if sint num \<le> 0 then (0, h) else CFStringInner_new p (utf8_lossy (map f [0..<nat (sint num)])) h)"

definition CFStringCreateWithFormat :: "u64 \<Rightarrow> u64 \<Rightarrow> cf_heap \<Rightarrow> (u64 \<times> cf_heap) option" where
  "CFStringCreateWithFormat p format h =
    (if format = 0 then Some (0, h)
     else map_option (\<lambda>bs. CFStringInner_new p (as_str bs) h) (string_of format h))"

definition CFStringGetLength :: "u64 \<Rightarrow> cf_heap \<Rightarrow> i64 option" where
  "CFStringGetLength s h =
    (if s = 0 then Some 0
     else map_option (\<lambda>bs. of_nat (length (utf16_encode (as_scalars bs)))) (string_of s h))"

text \<open>
  \<open>CFStringGetCStringPtr\<close>: whether a pointer is returned, and the bytes it points to. There is
  no NUL after them in the object.
\<close>

definition CFStringGetCStringPtr :: "u64 \<Rightarrow> cf_heap \<Rightarrow> u8 list option option" where
  "CFStringGetCStringPtr s h =
    (if s = 0 then Some None
     else map_option (\<lambda>bs. if 0 \<in> set bs then None else Some bs) (string_of s h))"

text \<open>The result and the bytes written from the start of the buffer (none when it is null).\<close>

definition CFStringGetCString :: "u64 \<Rightarrow> bool \<Rightarrow> i64 \<Rightarrow> cf_heap \<Rightarrow> (bool \<times> u8 list) option" where
  "CFStringGetCString s buffer_null buffer_size h =
    (if s = 0 \<or> buffer_null \<or> sint buffer_size \<le> 0 then Some (False, [])
     else
       map_option (\<lambda>bs. let max_copy = min (unat buffer_size - 1) (length bs)
                        in (True, take max_copy bs @ [0])) (string_of s h))"

definition CFStringGetCharacters :: "u64 \<Rightarrow> i64 \<Rightarrow> i64 \<Rightarrow> bool \<Rightarrow> cf_heap \<Rightarrow> u16 list option" where
  "CFStringGetCharacters s range_loc range_len buffer_null h =
    (if s = 0 \<or> buffer_null then Some []
     else
       map_option (\<lambda>bs. let units = utf16_encode (as_scalars bs);
                            start = unat range_loc;
                            stop = min (unat (range_loc + range_len)) (length units)
                        in if start < stop then take (stop - start) (drop start units) else [])
         (string_of s h))"

definition str_or_empty :: "u64 \<Rightarrow> cf_heap \<Rightarrow> u8 list option" where
  "str_or_empty s h = (if s = 0 then Some [] else map_option as_str (string_of s h))"

text \<open>\<open>str::cmp\<close> is the lexicographic order of the bytes.\<close>

definition str_cmp :: "u8 list \<Rightarrow> u8 list \<Rightarrow> i32" where
  "str_cmp a b = (if a < b then - 1 else if a = b then 0 else 1)"

definition CFStringCompare :: "u64 \<Rightarrow> u64 \<Rightarrow> cf_heap \<Rightarrow> i32 option" where
  "CFStringCompare s1 s2 h =
    (case (str_or_empty s1 h, str_or_empty s2 h) of
       (Some a, Some b) \<Rightarrow> Some (str_cmp a b)
     | _ \<Rightarrow> None)"

lemma string_of_new [simp]: "string_of p (snd (CFStringInner_new p bs h)) = Some bs"
  by (simp add: string_of_def CFStringInner_new_def cf_new_def)

text \<open>
  A C string survives the round trip: a string made from valid UTF-8 text gives back the
  same bytes and a NUL when the buffer has room for both; a shorter buffer gets the bytes
  that fit and a NUL, and the call reports success all the same.
\<close>

theorem cstring_roundtrip:
  assumes "p \<noteq> 0" and "utf8_decode bs = Some cs" and "0 < sint n"
    and "CFStringCreateWithCString p (Some bs) h = (s, h')"
  shows "CFStringGetCString s False n h' = Some (True, take (unat n - 1) bs @ [0])
       \<and> (length bs < unat n \<longrightarrow> CFStringGetCString s False n h' = Some (True, bs @ [0]))
       \<and> CFStringGetLength s h' = Some (of_nat (length (utf16_encode cs)))"
proof -
  have s: "s = p" "h' = snd (CFStringInner_new p bs h)"
    using assms(2,4) by (auto simp: CFStringCreateWithCString_def as_str_def CFStringInner_new_def)
  have "take (min k (length bs)) bs = take k bs" for k by (simp add: min_def)
  then show ?thesis
    using assms(1-3) by (auto simp: s CFStringGetCString_def CFStringGetLength_def as_scalars_def Let_def)
qed

theorem cstring_roundtrip_witness:
  "\<exists>s h'. CFStringCreateWithCString 16 (Some [104, 0xC3, 0xA9]) (\<lambda>_. None) = (s, h')
     \<and> CFStringGetCString s False 4 h' = Some (True, [104, 0xC3, 0xA9, 0])
     \<and> CFStringGetCString s False 2 h' = Some (True, [104, 0])
     \<and> CFStringGetLength s h' = Some 2"
proof -
  let ?bs = "[104, 0xC3, 0xA9] :: u8 list"
  obtain s h' where c: "CFStringCreateWithCString 16 (Some ?bs) (\<lambda>_. None) = (s, h')" by fastforce
  have d: "utf8_decode ?bs = Some [104, 233]" by (simp add: cont_byte_def)
  have n: "(0 :: int) < sint (4 :: i64)" "(0 :: int) < sint (2 :: i64)" by simp_all
  have "utf16_encode [104, 233] = [104, 233]" by (simp add: utf16_encode_def)
  with cstring_roundtrip [OF _ d n(1) c] cstring_roundtrip [OF _ d n(2) c] c show ?thesis by simp
qed

text \<open>
  \<open>CFStringCompare\<close> is a total order on the strings it can read: 0 exactly for equal text,
  opposite signs when the arguments swap, and transitive.
\<close>

theorem compare_total_order:
  assumes "str_or_empty a h = Some x" and "str_or_empty b h = Some y" and "str_or_empty c h = Some z"
  shows "(CFStringCompare a b h = Some 0 \<longleftrightarrow> x = y)
       \<and> (\<exists>r. CFStringCompare a b h = Some r \<and> CFStringCompare b a h = Some (- r) \<and> r \<in> {- 1, 0, 1})
       \<and> (CFStringCompare a b h = Some (- 1) \<and> CFStringCompare b c h = Some (- 1)
            \<longrightarrow> CFStringCompare a c h = Some (- 1))"
  using assms by (auto simp: CFStringCompare_def str_cmp_def)

theorem compare_total_order_witness:
  "CFStringCompare 16 32 ((\<lambda>_. None)(16 \<mapsto> cf_new 7 (CFString [97]), 32 \<mapsto> cf_new 7 (CFString [97, 98]))) = Some (- 1)
   \<and> CFStringCompare 32 16 ((\<lambda>_. None)(16 \<mapsto> cf_new 7 (CFString [97]), 32 \<mapsto> cf_new 7 (CFString [97, 98]))) = Some 1"
proof -
  let ?h = "(\<lambda>_. None)(16 \<mapsto> cf_new 7 (CFString [97]), 32 \<mapsto> cf_new 7 (CFString [97, 98])) :: cf_heap"
  have s: "str_or_empty 16 ?h = Some [97]" "str_or_empty 32 ?h = Some [97, 98]"
    by (simp_all add: str_or_empty_def string_of_def cf_new_def as_str_def)
  have ab: "CFStringCompare 16 32 ?h = Some (- 1)"
    by (simp add: CFStringCompare_def s str_cmp_def)
  from compare_total_order [OF s(1) s(2) s(1)] ab show ?thesis by auto
qed

text \<open>
  Reading characters in pieces: copying a string's units in two adjacent ranges gives the
  same units as copying the range at once, and the whole range is the UTF-16 encoding.
\<close>

theorem characters_in_pieces:
  assumes "s \<noteq> 0" and "string_of s h = Some bs"
    and "unat i + unat j < 2 ^ 64"
  shows "\<exists>u v. CFStringGetCharacters s 0 i False h = Some u \<and> CFStringGetCharacters s i j False h = Some v
       \<and> CFStringGetCharacters s 0 (i + j) False h = Some (u @ v)
       \<and> u @ v = take (unat i + unat j) (utf16_encode (as_scalars bs))"
proof -
  have ij: "unat (i + j) = unat i + unat j" using assms(3) by (simp add: unat_word_ariths)
  define w where "w = utf16_encode (as_scalars bs)"
  have p: "take (min b (length w) - a) (drop a w) = take (b - a) (drop a w)" if "a < min b (length w)" for a b
    using that by (cases "b \<le> length w") (auto simp: min_def)
  have e: "CFStringGetCharacters s a l False h = Some (take (unat (a + l) - unat a) (drop (unat a) w))" for a l
    using assms(1,2) p [of "unat a" "unat (a + l)"]
    by (auto simp: CFStringGetCharacters_def Let_def w_def [symmetric])
  have "take (unat i) w @ take (unat j) (drop (unat i) w) = take (unat i + unat j) w"
    by (simp add: take_add)
  then show ?thesis by (simp add: e ij w_def [symmetric])
qed

theorem characters_in_pieces_witness:
  "\<exists>u v. CFStringGetCharacters 16 0 1 False ((\<lambda>_. None)(16 \<mapsto> cf_new 7 (CFString [104, 105]))) = Some u
     \<and> CFStringGetCharacters 16 1 1 False ((\<lambda>_. None)(16 \<mapsto> cf_new 7 (CFString [104, 105]))) = Some v
     \<and> u @ v = [104, 105]"
proof -
  let ?h = "(\<lambda>_. None)(16 \<mapsto> cf_new 7 (CFString [104, 105])) :: cf_heap"
  have s: "string_of 16 ?h = Some [104, 105]" by (simp add: string_of_def cf_new_def)
  have "utf16_encode (as_scalars [104, 105]) = [104, 105]" by (simp add: as_scalars_def utf16_encode_def)
  with characters_in_pieces [OF _ s, of 1 1] show ?thesis by auto
qed

end
