(* ===== verification/CFRunLoop.thy ===== *)
theory CFRunLoop
  imports Float64
begin

text \<open>
  \<open>crates/grafted-frameworks/src/cf/runloop.rs\<close>: the run loop of the thread with its
  per-mode registries of sources, timers and observers. A world holds the run loop objects
  by address and, as \<open>app\<close>, whatever the guest program keeps; a call of a guest callback is a
  parameter that may change all of the world, run loops included (a callback may re-enter
  the loop). Following a pointer to an object that is not there has no result (\<open>None\<close>).
  Function pointers are addresses with 0 for the absent one. A \<open>HashMap\<close> of modes is a
  map and the \<open>HashSet\<close> of common modes a list, whose order no operation depends on.
\<close>

section \<open>Types\<close>

definition CF_RUNLOOP_TYPE_ID :: u64 where "CF_RUNLOOP_TYPE_ID = 23"
definition CF_RUNLOOP_SOURCE_TYPE_ID :: u64 where "CF_RUNLOOP_SOURCE_TYPE_ID = 24"
definition CF_RUNLOOP_TIMER_TYPE_ID :: u64 where "CF_RUNLOOP_TIMER_TYPE_ID = 25"

definition kCFRunLoopDefaultMode :: string where
  "kCFRunLoopDefaultMode = ''kCFRunLoopDefaultMode''"
definition kCFRunLoopCommonModes :: string where
  "kCFRunLoopCommonModes = ''kCFRunLoopCommonModes''"
definition NSEventTrackingRunLoopMode :: string where
  "NSEventTrackingRunLoopMode = ''NSEventTrackingRunLoopMode''"
definition NSModalPanelRunLoopMode :: string where
  "NSModalPanelRunLoopMode = ''NSModalPanelRunLoopMode''"
definition UITrackingRunLoopMode :: string where
  "UITrackingRunLoopMode = ''UITrackingRunLoopMode''"

lemmas mode_names = kCFRunLoopDefaultMode_def kCFRunLoopCommonModes_def
  NSEventTrackingRunLoopMode_def NSModalPanelRunLoopMode_def UITrackingRunLoopMode_def

definition K_CF_RUNLOOP_ENTRY :: u64 where "K_CF_RUNLOOP_ENTRY = push_bit 0 1"
definition K_CF_RUNLOOP_BEFORE_TIMERS :: u64 where "K_CF_RUNLOOP_BEFORE_TIMERS = push_bit 1 1"
definition K_CF_RUNLOOP_BEFORE_SOURCES :: u64 where "K_CF_RUNLOOP_BEFORE_SOURCES = push_bit 2 1"
definition K_CF_RUNLOOP_BEFORE_WAITING :: u64 where "K_CF_RUNLOOP_BEFORE_WAITING = push_bit 5 1"
definition K_CF_RUNLOOP_AFTER_WAITING :: u64 where "K_CF_RUNLOOP_AFTER_WAITING = push_bit 6 1"
definition K_CF_RUNLOOP_EXIT :: u64 where "K_CF_RUNLOOP_EXIT = push_bit 7 1"

definition K_CF_RUNLOOP_RUN_FINISHED :: i32 where "K_CF_RUNLOOP_RUN_FINISHED = 1"
definition K_CF_RUNLOOP_RUN_STOPPED :: i32 where "K_CF_RUNLOOP_RUN_STOPPED = 2"
definition K_CF_RUNLOOP_RUN_TIMED_OUT :: i32 where "K_CF_RUNLOOP_RUN_TIMED_OUT = 3"
definition K_CF_RUNLOOP_RUN_HANDLED_SOURCE :: i32 where "K_CF_RUNLOOP_RUN_HANDLED_SOURCE = 4"

lemmas run_results = K_CF_RUNLOOP_RUN_FINISHED_def K_CF_RUNLOOP_RUN_STOPPED_def
  K_CF_RUNLOOP_RUN_TIMED_OUT_def K_CF_RUNLOOP_RUN_HANDLED_SOURCE_def

record source_context =
  sc_version :: i64
  sc_info :: ptr
  sc_retain :: ptr
  sc_release :: ptr
  sc_copy_description :: ptr
  sc_equal :: ptr
  sc_hash :: ptr
  sc_schedule :: ptr
  sc_cancel :: ptr
  sc_perform :: ptr

record rl_source =
  src_type :: u64
  src_context :: source_context
  signaled :: bool

record rl_timer =
  tmr_type :: u64
  fire_date :: f64
  interval :: f64
  tmr_callback :: ptr
  tmr_info :: ptr

record rl_observer =
  obs_type :: u64
  activities :: u64
  repeats :: bool
  obs_order :: i64
  obs_callback :: ptr
  obs_info :: ptr

record mode_inner =
  m_sources :: "ptr list"
  m_timers :: "ptr list"
  m_observers :: "ptr list"

definition mode_new :: mode_inner where
  "mode_new = \<lparr>m_sources = [], m_timers = [], m_observers = []\<rparr>"

record runloop =
  rl_type :: u64
  modes :: "string \<Rightarrow> mode_inner option"
  common_modes :: "string list"
  mode_stack :: "string list"
  stopped :: bool
  epoll_fd :: i32

record 'app world =
  app :: 'app
  memory :: mem
  current :: ptr
  loops :: "ptr \<Rightarrow> runloop option"
  srcs :: "ptr \<Rightarrow> rl_source option"
  tmrs :: "ptr \<Rightarrow> rl_timer option"
  obss :: "ptr \<Rightarrow> rl_observer option"

text \<open>The calls of guest code, with their arguments.\<close>

datatype guest_call =
    PerformSource ptr ptr
  | TimerCall ptr ptr ptr
  | ObserverCall ptr ptr u64 ptr

text \<open>
  What the loop relies on: guest code, the allocator, the clock, epoll, and where the
  statics with the mode names are.
\<close>

record 'app rl_env =
  guest :: "guest_call \<Rightarrow> 'app world \<Rightarrow> 'app world"
  box_new :: "'app world \<Rightarrow> ptr"
  clock_gettime :: "'app world \<Rightarrow> int \<times> int"
  epoll_create1 :: "'app world \<Rightarrow> i32"
  epoll_wait :: "i32 \<Rightarrow> i32 \<Rightarrow> 'app world \<Rightarrow> 'app world"
  static_ptr :: "string \<Rightarrow> ptr"

section \<open>Mode names\<close>

definition printable :: "u8 \<Rightarrow> bool" where
  "printable b = ((0x21 \<le> b \<and> b \<le> 0x7E) \<or> b = 0x20)"

fun read_name :: "mem \<Rightarrow> ptr \<Rightarrow> nat \<Rightarrow> u8 list option" where
  "read_name m p 0 = Some []"
| "read_name m p (Suc k) =
    (if m p = 0 then Some []
     else if \<not> printable (m p) then None
     else map_option ((#) (m p)) (read_name m (p + 1) k))"

definition mode_name_from_ptr :: "mem \<Rightarrow> ptr \<Rightarrow> string" where
  "mode_name_from_ptr m mode =
     (if mode = 0 then kCFRunLoopDefaultMode
      else (case read_name m mode 64 of
              None \<Rightarrow> kCFRunLoopDefaultMode
            | Some bs \<Rightarrow> if bs \<noteq> [] then text_of_bytes bs else kCFRunLoopDefaultMode))"

section \<open>The run loop of the thread\<close>

definition new_runloop :: "i32 \<Rightarrow> runloop" where
  "new_runloop epfd =
     \<lparr>rl_type = CF_RUNLOOP_TYPE_ID,
      modes = [kCFRunLoopDefaultMode \<mapsto> mode_new, NSEventTrackingRunLoopMode \<mapsto> mode_new,
               NSModalPanelRunLoopMode \<mapsto> mode_new],
      common_modes = [kCFRunLoopDefaultMode, NSEventTrackingRunLoopMode],
      mode_stack = [], stopped = False, epoll_fd = epfd\<rparr>"

definition get_or_create_runloop :: "'app rl_env \<Rightarrow> 'app world \<Rightarrow> ptr \<times> 'app world" where
  "get_or_create_runloop E w =
     (if current w \<noteq> 0 then (current w, w)
      else let p = box_new E w in
        (p, w\<lparr>loops := (loops w)(p \<mapsto> new_runloop (epoll_create1 E w)), current := p\<rparr>))"

definition CFRunLoopGetCurrent :: "'app rl_env \<Rightarrow> 'app world \<Rightarrow> ptr \<times> 'app world" where
  "CFRunLoopGetCurrent E w = get_or_create_runloop E w"

definition CFRunLoopGetMain :: "'app rl_env \<Rightarrow> 'app world \<Rightarrow> ptr \<times> 'app world" where
  "CFRunLoopGetMain E w = get_or_create_runloop E w"

definition CFRunLoopCopyCurrentMode :: "'app rl_env \<Rightarrow> ptr \<Rightarrow> 'app world \<Rightarrow> ptr option" where
  "CFRunLoopCopyCurrentMode E rl w =
     (if rl = 0 then Some 0
      else map_option (\<lambda>l.
        static_ptr E
          (if mode_stack l \<noteq> [] \<and> last (mode_stack l)
                \<in> {NSEventTrackingRunLoopMode, NSModalPanelRunLoopMode, UITrackingRunLoopMode}
           then last (mode_stack l) else kCFRunLoopDefaultMode)) (loops w rl))"

definition update_loop :: "ptr \<Rightarrow> (runloop \<Rightarrow> runloop) \<Rightarrow> 'app world \<Rightarrow> 'app world option" where
  "update_loop rl f w = map_option (\<lambda>l. w\<lparr>loops := (loops w)(rl \<mapsto> f l)\<rparr>) (loops w rl)"

text \<open>\<open>entry(name).or_insert_with(new)\<close> and \<open>get_mut(name)\<close>.\<close>

definition with_entry ::
    "string \<Rightarrow> (mode_inner \<Rightarrow> mode_inner) \<Rightarrow> runloop \<Rightarrow> runloop" where
  "with_entry name f l =
     l\<lparr>modes := (modes l)(name \<mapsto> f (case modes l name of Some m \<Rightarrow> m | None \<Rightarrow> mode_new))\<rparr>"

definition with_existing ::
    "string \<Rightarrow> (mode_inner \<Rightarrow> mode_inner) \<Rightarrow> runloop \<Rightarrow> runloop" where
  "with_existing name f l =
     (case modes l name of Some m \<Rightarrow> l\<lparr>modes := (modes l)(name \<mapsto> f m)\<rparr> | None \<Rightarrow> l)"

definition mode_of :: "runloop \<Rightarrow> string \<Rightarrow> mode_inner" where
  "mode_of l name = (case modes l name of Some m \<Rightarrow> m | None \<Rightarrow> mode_new)"

section \<open>Running\<close>

definition current_absolute_time :: "'app rl_env \<Rightarrow> 'app world \<Rightarrow> f64" where
  "current_absolute_time E w =
     f64_sub (f64_add (f64_of_int (fst (clock_gettime E w)))
               (f64_div (f64_of_int (snd (clock_gettime E w))) 0x41CDCD6500000000))
             0x41CD27E440000000"

definition CFAbsoluteTimeGetCurrent :: "'app rl_env \<Rightarrow> 'app world \<Rightarrow> f64" where
  "CFAbsoluteTimeGetCurrent E w = current_absolute_time E w"

fun fire_each :: "'app rl_env \<Rightarrow> u64 \<Rightarrow> ptr list \<Rightarrow> 'app world \<Rightarrow> 'app world option" where
  "fire_each E act [] w = Some w"
| "fire_each E act (p # ps) w =
    (case obss w p of
       None \<Rightarrow> None
     | Some ob \<Rightarrow>
         fire_each E act ps
           (if activities ob AND act \<noteq> 0 \<and> obs_callback ob \<noteq> 0
            then guest E (ObserverCall (obs_callback ob) p act (obs_info ob)) w else w))"

definition fire_observers :: "'app rl_env \<Rightarrow> ptr \<Rightarrow> string \<Rightarrow> u64 \<Rightarrow> 'app world \<Rightarrow> 'app world option" where
  "fire_observers E rl mode act w =
     (case loops w rl of
        None \<Rightarrow> None
      | Some l \<Rightarrow> fire_each E act (m_observers (mode_of l mode)) w)"

text \<open>Leaving the mode: the exit observers, then \<open>mode_stack.pop()\<close>.\<close>

definition leave_mode :: "'app rl_env \<Rightarrow> ptr \<Rightarrow> string \<Rightarrow> 'app world \<Rightarrow> 'app world option" where
  "leave_mode E rl mode w =
     Option.bind (fire_observers E rl mode K_CF_RUNLOOP_EXIT w)
       (update_loop rl (\<lambda>l. l\<lparr>mode_stack := butlast (mode_stack l)\<rparr>))"

text \<open>The source and timer passes; \<open>True\<close> when the pass ends the run early.\<close>

fun source_pass :: "'app rl_env \<Rightarrow> bool \<Rightarrow> ptr list \<Rightarrow> 'app world \<Rightarrow> (bool \<times> 'app world) option" where
  "source_pass E early [] w = Some (False, w)"
| "source_pass E early (p # ps) w =
    (case srcs w p of
       None \<Rightarrow> None
     | Some s \<Rightarrow>
         if signaled s then
           let w1 = w\<lparr>srcs := (srcs w)(p \<mapsto> s\<lparr>signaled := False\<rparr>)\<rparr>;
               w2 = (if sc_perform (src_context s) \<noteq> 0
                     then guest E (PerformSource (sc_perform (src_context s)) (sc_info (src_context s))) w1
                     else w1)
           in if early then Some (True, w2) else source_pass E early ps w2
         else source_pass E early ps w)"

fun timer_pass :: "'app rl_env \<Rightarrow> f64 \<Rightarrow> bool \<Rightarrow> ptr list \<Rightarrow> 'app world \<Rightarrow> (bool \<times> 'app world) option" where
  "timer_pass E now early [] w = Some (False, w)"
| "timer_pass E now early (p # ps) w =
    (case tmrs w p of
       None \<Rightarrow> None
     | Some t \<Rightarrow>
         if f64_le (fire_date t) now then
           let w1 = (if tmr_callback t \<noteq> 0 then guest E (TimerCall (tmr_callback t) p (tmr_info t)) w else w)
           in (case tmrs w1 p of
                 None \<Rightarrow> None
               | Some t1 \<Rightarrow>
                   let w2 = w1\<lparr>tmrs := (tmrs w1)(p \<mapsto> t1\<lparr>fire_date :=
                              (if f64_lt 0 (interval t1) then f64_add now (interval t1) else f64_MAX)\<rparr>)\<rparr>
                   in if early then Some (True, w2) else timer_pass E now early ps w2)
         else timer_pass E now early ps w)"

definition timeout_ms :: "f64 \<Rightarrow> i32" where
  "timeout_ms seconds =
     (if f64_lt 0x41CDCD6500000000 seconds then - 1
      else f64_to_i32 (f64_mul seconds 0x408F400000000000))"

definition min_i32 :: "i32 \<Rightarrow> i32 \<Rightarrow> i32" where
  "min_i32 a b = (if sint a \<le> sint b then a else b)"

text \<open>The wait and what follows it: the result of a run that was not cut short.\<close>

definition wait_phase ::
    "'app rl_env \<Rightarrow> ptr \<Rightarrow> string \<Rightarrow> f64 \<Rightarrow> 'app world \<Rightarrow> (i32 \<times> 'app world) option" where
  "wait_phase E rl mode seconds w =
     Option.bind (fire_observers E rl mode K_CF_RUNLOOP_BEFORE_WAITING w) (\<lambda>w1.
     Option.bind (loops w1 rl) (\<lambda>l1.
     Option.bind (fire_observers E rl mode K_CF_RUNLOOP_AFTER_WAITING
                    (epoll_wait E (epoll_fd l1) (min_i32 (timeout_ms seconds) 100) w1)) (\<lambda>w2.
     Option.bind (loops w2 rl) (\<lambda>l2.
     Option.bind (update_loop rl (\<lambda>l. l\<lparr>stopped := False\<rparr>) w2) (\<lambda>w3.
     Option.bind (leave_mode E rl mode w3) (\<lambda>w4.
       Some (if stopped l2 then K_CF_RUNLOOP_RUN_STOPPED else K_CF_RUNLOOP_RUN_TIMED_OUT, w4)))))))"

definition timer_phase ::
    "'app rl_env \<Rightarrow> ptr \<Rightarrow> string \<Rightarrow> f64 \<Rightarrow> bool \<Rightarrow> 'app world \<Rightarrow> (i32 \<times> 'app world) option" where
  "timer_phase E rl mode seconds early w =
     (let now = current_absolute_time E w in
      Option.bind (loops w rl) (\<lambda>l.
      Option.bind (fire_observers E rl mode K_CF_RUNLOOP_BEFORE_TIMERS w) (\<lambda>w1.
      Option.bind (timer_pass E now early (m_timers (mode_of l mode)) w1) (\<lambda>(handled, w2).
        if handled
        then map_option (Pair K_CF_RUNLOOP_RUN_HANDLED_SOURCE) (leave_mode E rl mode w2)
        else wait_phase E rl mode seconds w2))))"

definition source_phase ::
    "'app rl_env \<Rightarrow> ptr \<Rightarrow> string \<Rightarrow> f64 \<Rightarrow> bool \<Rightarrow> 'app world \<Rightarrow> (i32 \<times> 'app world) option" where
  "source_phase E rl mode seconds early w =
     Option.bind (loops w rl) (\<lambda>l.
     Option.bind (fire_observers E rl mode K_CF_RUNLOOP_BEFORE_SOURCES w) (\<lambda>w1.
     Option.bind (source_pass E early (m_sources (mode_of l mode)) w1) (\<lambda>(handled, w2).
       if handled
       then map_option (Pair K_CF_RUNLOOP_RUN_HANDLED_SOURCE) (leave_mode E rl mode w2)
       else timer_phase E rl mode seconds early w2)))"

definition CFRunLoopRunInMode ::
    "'app rl_env \<Rightarrow> ptr \<Rightarrow> f64 \<Rightarrow> u8 \<Rightarrow> 'app world \<Rightarrow> (i32 \<times> 'app world) option" where
  "CFRunLoopRunInMode E mode seconds return_after_source w =
     (let (rl, w1) = get_or_create_runloop E w;
          name = mode_name_from_ptr (memory w1) mode in
      Option.bind (update_loop rl (with_entry name id) w1) (\<lambda>w2.
      Option.bind (loops w2 rl) (\<lambda>l.
        if stopped l
        then map_option (Pair K_CF_RUNLOOP_RUN_STOPPED) (update_loop rl (\<lambda>l. l\<lparr>stopped := False\<rparr>) w2)
        else
          Option.bind (update_loop rl (\<lambda>l. l\<lparr>mode_stack := mode_stack l @ [name]\<rparr>) w2) (\<lambda>w3.
          Option.bind (fire_observers E rl name K_CF_RUNLOOP_ENTRY w3)
            (source_phase E rl name seconds (return_after_source \<noteq> 0))))))"

text \<open>The loop of CFRunLoopRun: it may run for ever, which is no result. 1e10 is its time limit.\<close>

partial_function (option) CFRunLoopRun :: "'app rl_env \<Rightarrow> 'app world \<Rightarrow> 'app world option" where
  "CFRunLoopRun E w =
     Option.bind (CFRunLoopRunInMode E (static_ptr E kCFRunLoopDefaultMode) 0x4202A05F20000000 0 w) (\<lambda>(r, w1).
       if r = K_CF_RUNLOOP_RUN_STOPPED \<or> r = K_CF_RUNLOOP_RUN_FINISHED then Some w1
       else CFRunLoopRun E w1)"

definition CFRunLoopStop :: "ptr \<Rightarrow> 'app world \<Rightarrow> 'app world option" where
  "CFRunLoopStop rl w = (if rl = 0 then Some w else update_loop rl (\<lambda>l. l\<lparr>stopped := True\<rparr>) w)"

definition CFRunLoopWakeUp :: "ptr \<Rightarrow> 'app world \<Rightarrow> 'app world" where
  "CFRunLoopWakeUp rl w = w"

section \<open>Registries\<close>

definition push_new :: "ptr \<Rightarrow> ptr list \<Rightarrow> ptr list" where
  "push_new p ps = (if p \<in> set ps then ps else ps @ [p])"

definition retain_other :: "ptr \<Rightarrow> ptr list \<Rightarrow> ptr list" where
  "retain_other p ps = filter (\<lambda>q. q \<noteq> p) ps"

text \<open>An addition or removal in the common modes is one in each mode that is common then.\<close>

definition add_in :: "(mode_inner \<Rightarrow> mode_inner) \<Rightarrow> string \<Rightarrow> runloop \<Rightarrow> runloop" where
  "add_in f name l =
     (if name = kCFRunLoopCommonModes then fold (\<lambda>m. with_entry m f) (common_modes l) l
      else with_entry name f l)"

definition remove_in :: "(mode_inner \<Rightarrow> mode_inner) \<Rightarrow> string \<Rightarrow> runloop \<Rightarrow> runloop" where
  "remove_in f name l =
     (if name = kCFRunLoopCommonModes then fold (\<lambda>m. with_existing m f) (common_modes l) l
      else with_existing name f l)"

definition add_source :: "ptr \<Rightarrow> string \<Rightarrow> runloop \<Rightarrow> runloop" where
  "add_source p = add_in (\<lambda>m. m\<lparr>m_sources := push_new p (m_sources m)\<rparr>)"

definition remove_source :: "ptr \<Rightarrow> string \<Rightarrow> runloop \<Rightarrow> runloop" where
  "remove_source p = remove_in (\<lambda>m. m\<lparr>m_sources := retain_other p (m_sources m)\<rparr>)"

definition add_timer :: "ptr \<Rightarrow> string \<Rightarrow> runloop \<Rightarrow> runloop" where
  "add_timer p = add_in (\<lambda>m. m\<lparr>m_timers := push_new p (m_timers m)\<rparr>)"

definition remove_timer :: "ptr \<Rightarrow> string \<Rightarrow> runloop \<Rightarrow> runloop" where
  "remove_timer p = remove_in (\<lambda>m. m\<lparr>m_timers := retain_other p (m_timers m)\<rparr>)"

definition add_observer :: "ptr \<Rightarrow> string \<Rightarrow> runloop \<Rightarrow> runloop" where
  "add_observer p = add_in (\<lambda>m. m\<lparr>m_observers := push_new p (m_observers m)\<rparr>)"

definition remove_observer :: "ptr \<Rightarrow> string \<Rightarrow> runloop \<Rightarrow> runloop" where
  "remove_observer p = remove_in (\<lambda>m. m\<lparr>m_observers := retain_other p (m_observers m)\<rparr>)"

text \<open>The guard every exported registration function has.\<close>

definition register_with ::
    "(ptr \<Rightarrow> string \<Rightarrow> runloop \<Rightarrow> runloop) \<Rightarrow> ptr \<Rightarrow> ptr \<Rightarrow> ptr \<Rightarrow> 'app world \<Rightarrow> 'app world option" where
  "register_with f rl p mode w =
     (if rl = 0 \<or> p = 0 then Some w
      else update_loop rl (f p (mode_name_from_ptr (memory w) mode)) w)"

definition CFRunLoopAddSource :: "ptr \<Rightarrow> ptr \<Rightarrow> ptr \<Rightarrow> 'app world \<Rightarrow> 'app world option" where
  "CFRunLoopAddSource = register_with add_source"

definition CFRunLoopRemoveSource :: "ptr \<Rightarrow> ptr \<Rightarrow> ptr \<Rightarrow> 'app world \<Rightarrow> 'app world option" where
  "CFRunLoopRemoveSource = register_with remove_source"

definition CFRunLoopAddTimer :: "ptr \<Rightarrow> ptr \<Rightarrow> ptr \<Rightarrow> 'app world \<Rightarrow> 'app world option" where
  "CFRunLoopAddTimer = register_with add_timer"

definition CFRunLoopRemoveTimer :: "ptr \<Rightarrow> ptr \<Rightarrow> ptr \<Rightarrow> 'app world \<Rightarrow> 'app world option" where
  "CFRunLoopRemoveTimer = register_with remove_timer"

definition CFRunLoopAddObserver :: "ptr \<Rightarrow> ptr \<Rightarrow> ptr \<Rightarrow> 'app world \<Rightarrow> 'app world option" where
  "CFRunLoopAddObserver = register_with add_observer"

definition CFRunLoopRemoveObserver :: "ptr \<Rightarrow> ptr \<Rightarrow> ptr \<Rightarrow> 'app world \<Rightarrow> 'app world option" where
  "CFRunLoopRemoveObserver = register_with remove_observer"

definition contains_source :: "ptr \<Rightarrow> string \<Rightarrow> runloop \<Rightarrow> bool" where
  "contains_source p name l =
     (if name = kCFRunLoopCommonModes
      then list_ex (\<lambda>m. p \<in> set (m_sources (mode_of l m))) (common_modes l)
      else p \<in> set (m_sources (mode_of l name)))"

definition CFRunLoopContainsSource :: "ptr \<Rightarrow> ptr \<Rightarrow> ptr \<Rightarrow> 'app world \<Rightarrow> bool option" where
  "CFRunLoopContainsSource rl p mode w =
     (if rl = 0 \<or> p = 0 then Some False
      else map_option (contains_source p (mode_name_from_ptr (memory w) mode)) (loops w rl))"

definition CFRunLoopAddCommonMode :: "ptr \<Rightarrow> ptr \<Rightarrow> 'app world \<Rightarrow> 'app world option" where
  "CFRunLoopAddCommonMode rl mode w =
     (if rl = 0 then Some w
      else let name = mode_name_from_ptr (memory w) mode in
        update_loop rl (\<lambda>l. with_entry name id
          (l\<lparr>common_modes := (if name \<in> set (common_modes l) then common_modes l
                               else common_modes l @ [name])\<rparr>)) w)"

section \<open>Creation\<close>

definition zeroed_context :: source_context where
  "zeroed_context =
     \<lparr>sc_version = 0, sc_info = 0, sc_retain = 0, sc_release = 0, sc_copy_description = 0,
      sc_equal = 0, sc_hash = 0, sc_schedule = 0, sc_cancel = 0, sc_perform = 0\<rparr>"

definition CFRunLoopSourceCreate ::
    "'app rl_env \<Rightarrow> source_context option \<Rightarrow> 'app world \<Rightarrow> ptr \<times> 'app world" where
  "CFRunLoopSourceCreate E context w =
     (let p = box_new E w in
      (p, w\<lparr>srcs := (srcs w)(p \<mapsto> \<lparr>src_type = CF_RUNLOOP_SOURCE_TYPE_ID,
             src_context = (case context of None \<Rightarrow> zeroed_context | Some c \<Rightarrow> c), signaled = False\<rparr>)\<rparr>))"

definition CFRunLoopSourceSignal :: "ptr \<Rightarrow> 'app world \<Rightarrow> 'app world option" where
  "CFRunLoopSourceSignal p w =
     (if p = 0 then Some w
      else map_option (\<lambda>s. w\<lparr>srcs := (srcs w)(p \<mapsto> s\<lparr>signaled := True\<rparr>)\<rparr>) (srcs w p))"

definition CFRunLoopTimerCreate ::
    "'app rl_env \<Rightarrow> f64 \<Rightarrow> f64 \<Rightarrow> ptr \<Rightarrow> 'app world \<Rightarrow> ptr \<times> 'app world" where
  "CFRunLoopTimerCreate E date intv callback w =
     (let p = box_new E w in
      (p, w\<lparr>tmrs := (tmrs w)(p \<mapsto> \<lparr>tmr_type = CF_RUNLOOP_TIMER_TYPE_ID, fire_date = date,
             interval = intv, tmr_callback = callback, tmr_info = 0\<rparr>)\<rparr>))"

text \<open>The observer's context is given by its \<open>info\<close> field.\<close>

definition CFRunLoopObserverCreate ::
    "'app rl_env \<Rightarrow> u64 \<Rightarrow> u8 \<Rightarrow> i64 \<Rightarrow> ptr \<Rightarrow> ptr option \<Rightarrow> 'app world \<Rightarrow> ptr \<times> 'app world" where
  "CFRunLoopObserverCreate E acts reps ord callback context w =
     (let p = box_new E w in
      (p, w\<lparr>obss := (obss w)(p \<mapsto> \<lparr>obs_type = CF_RUNLOOP_TYPE_ID, activities = acts,
             repeats = (reps \<noteq> 0), obs_order = ord, obs_callback = callback,
             obs_info = (case context of None \<Rightarrow> 0 | Some info \<Rightarrow> info)\<rparr>)\<rparr>))"

section \<open>The contract of a registry\<close>

text \<open>
  A registry keeps, per mode, the list of registered objects. Registering under a name
  reaches the modes the name stands for, once each; removing takes the object out of them.
\<close>

definition targets :: "string \<Rightarrow> runloop \<Rightarrow> string set" where
  "targets name l = (if name = kCFRunLoopCommonModes then set (common_modes l) else {name})"

locale mode_registry =
  fixes members :: "runloop \<Rightarrow> string \<Rightarrow> ptr list"
    and add_to :: "ptr \<Rightarrow> string \<Rightarrow> runloop \<Rightarrow> runloop"
    and remove_from :: "ptr \<Rightarrow> string \<Rightarrow> runloop \<Rightarrow> runloop"
  assumes members_add: "members (add_to p name l) m =
      (if m \<in> targets name l then push_new p (members l m) else members l m)"
    and members_remove: "members (remove_from p name l) m =
      (if m \<in> targets name l then retain_other p (members l m) else members l m)"
    and targets_add: "targets name' (add_to p name l) = targets name' l"
begin

lemma add_registers: "m \<in> targets name l \<Longrightarrow> p \<in> set (members (add_to p name l) m)"
  by (simp add: members_add push_new_def)

lemma add_idem: "members (add_to p name (add_to p name l)) = members (add_to p name l)"
  by (rule ext) (simp add: members_add targets_add push_new_def)

lemma add_distinct: "distinct (members l m) \<Longrightarrow> distinct (members (add_to p name l) m)"
  by (simp add: members_add push_new_def)

lemma remove_clears: "m \<in> targets name l \<Longrightarrow> p \<notin> set (members (remove_from p name l) m)"
  by (simp add: members_remove retain_other_def)

lemma other_modes:
  "m \<notin> targets name l \<Longrightarrow>
    members (add_to p name l) m = members l m \<and> members (remove_from p name l) m = members l m"
  by (simp add: members_add members_remove)

lemma remove_add:
  "p \<notin> set (members l m) \<Longrightarrow> members (remove_from p name (add_to p name l)) m = members l m"
  by (auto simp: members_add members_remove targets_add push_new_def retain_other_def filter_id_conv)

end

text \<open>The code's operations provide it for sources, timers and observers.\<close>

lemma mode_of_with_entry:
  "mode_of (with_entry n f l) m = (if m = n then f (mode_of l m) else mode_of l m)"
  by (simp add: mode_of_def with_entry_def)

lemma mode_of_with_existing:
  "f mode_new = mode_new \<Longrightarrow>
    mode_of (with_existing n f l) m = (if m = n then f (mode_of l m) else mode_of l m)"
  by (auto simp: mode_of_def with_existing_def split: option.splits)

lemma common_modes_with_entry [simp]: "common_modes (with_entry n f l) = common_modes l"
  by (simp add: with_entry_def)

lemma common_modes_with_existing [simp]: "common_modes (with_existing n f l) = common_modes l"
  by (simp add: with_existing_def split: option.splits)

lemma fold_common_modes:
  assumes "\<And>n l. common_modes (g n l) = common_modes l"
  shows "common_modes (fold g ns l) = common_modes l"
  using assms by (induction ns arbitrary: l) simp_all

lemma fold_mode_of:
  assumes "\<And>n l m. mode_of (g n l) m = (if m = n then f (mode_of l m) else mode_of l m)"
    and idem: "\<And>x. f (f x) = f x"
  shows "mode_of (fold g ns l) m = (if m \<in> set ns then f (mode_of l m) else mode_of l m)"
proof (induction ns arbitrary: l)
  case (Cons n ns)
  have "mode_of (fold g (n # ns) l) m = (if m \<in> set ns then f (mode_of (g n l) m) else mode_of (g n l) m)"
    using Cons.IH by simp
  then show ?case by (simp add: assms(1) idem)
qed simp

lemma mode_of_add_in:
  assumes "\<And>x. f (f x) = f x"
  shows "mode_of (add_in f name l) m = (if m \<in> targets name l then f (mode_of l m) else mode_of l m)"
  using fold_mode_of [of "\<lambda>m. with_entry m f" f "common_modes l" l m] assms
  by (simp add: add_in_def targets_def mode_of_with_entry)

lemma mode_of_remove_in:
  assumes "\<And>x. f (f x) = f x" "f mode_new = mode_new"
  shows "mode_of (remove_in f name l) m = (if m \<in> targets name l then f (mode_of l m) else mode_of l m)"
  using fold_mode_of [of "\<lambda>m. with_existing m f" f "common_modes l" l m] assms
  by (simp add: remove_in_def targets_def mode_of_with_existing)

lemma targets_add_in [simp]: "targets n (add_in f name l) = targets n l"
  by (simp add: targets_def add_in_def fold_common_modes)

lemma push_new_idem [simp]: "push_new p (push_new p ps) = push_new p ps"
  by (simp add: push_new_def)

lemma retain_other_idem [simp]: "retain_other p (retain_other p ps) = retain_other p ps" "retain_other p [] = []"
  by (simp_all add: retain_other_def)

lemmas registry_simps = mode_of_add_in mode_of_remove_in add_source_def remove_source_def
  add_timer_def remove_timer_def add_observer_def remove_observer_def

interpretation source_reg: mode_registry "\<lambda>l m. m_sources (mode_of l m)" add_source remove_source
  by unfold_locales (simp_all add: registry_simps mode_new_def)

interpretation timer_reg: mode_registry "\<lambda>l m. m_timers (mode_of l m)" add_timer remove_timer
  by unfold_locales (simp_all add: registry_simps mode_new_def)

interpretation observer_reg: mode_registry "\<lambda>l m. m_observers (mode_of l m)" add_observer remove_observer
  by unfold_locales (simp_all add: registry_simps mode_new_def)

section \<open>Registration\<close>

lemma targets_nonempty: "m \<in> targets name l \<Longrightarrow> name \<noteq> kCFRunLoopCommonModes \<Longrightarrow> m = name"
  by (simp add: targets_def)

lemma contains_source_iff:
  "contains_source p name l = (\<exists>m \<in> targets name l. p \<in> set (m_sources (mode_of l m)))"
  by (simp add: contains_source_def targets_def list_ex_iff)

lemma targets_remove_in [simp]: "targets n (remove_in f name l) = targets n l"
  by (simp add: targets_def remove_in_def fold_common_modes)

lemma targets_remove_source [simp]: "targets n (remove_source p name l) = targets n l"
  by (simp add: remove_source_def)

text \<open>
  Adding a live source to a mode registers it once in every mode the name stands for (the
  mode itself, or every common mode for kCFRunLoopCommonModes) and nowhere else, so that
  CFRunLoopContainsSource finds it there; removing it under the same name takes it out of
  them again, and where it was not registered before leaves every registry as it was.
\<close>

theorem source_registration:
  fixes w :: "'app world"
  assumes "rl \<noteq> 0" "p \<noteq> 0" "loops w rl = Some l"
    and name: "name = mode_name_from_ptr (memory w) mode" and ne: "targets name l \<noteq> {}"
  shows "\<exists>w1 w2 l1 l2.
    CFRunLoopAddSource rl p mode w = Some w1 \<and> loops w1 rl = Some l1
    \<and> CFRunLoopContainsSource rl p mode w1 = Some True
    \<and> (\<forall>m. m_sources (mode_of l1 m)
            = (if m \<in> targets name l then push_new p (m_sources (mode_of l m)) else m_sources (mode_of l m)))
    \<and> CFRunLoopRemoveSource rl p mode w1 = Some w2 \<and> loops w2 rl = Some l2
    \<and> CFRunLoopContainsSource rl p mode w2 = Some False
    \<and> (\<forall>m. p \<notin> set (m_sources (mode_of l m)) \<longrightarrow> m_sources (mode_of l2 m) = m_sources (mode_of l m))"
proof -
  define l1 where "l1 = add_source p name l"
  define l2 where "l2 = remove_source p name l1"
  define w1 where "w1 = w\<lparr>loops := (loops w)(rl \<mapsto> l1)\<rparr>"
  define w2 where "w2 = w1\<lparr>loops := (loops w1)(rl \<mapsto> l2)\<rparr>"
  have t: "targets name l1 = targets name l" unfolding l1_def by (rule source_reg.targets_add)
  then have t2: "targets name l2 = targets name l" by (simp add: l2_def)
  have add: "CFRunLoopAddSource rl p mode w = Some w1" and at1: "loops w1 rl = Some l1"
    using assms by (simp_all add: CFRunLoopAddSource_def register_with_def update_loop_def w1_def l1_def)
  have rem: "CFRunLoopRemoveSource rl p mode w1 = Some w2" and at2: "loops w2 rl = Some l2"
    using assms by (simp_all add: CFRunLoopRemoveSource_def register_with_def update_loop_def w1_def w2_def l2_def)
  have c1: "contains_source p name l1"
    using ne source_reg.add_registers t unfolding contains_source_iff l1_def by auto
  have c2: "\<not> contains_source p name l2"
    using source_reg.remove_clears t t2 unfolding contains_source_iff l2_def by auto
  show ?thesis
    using assms(1,2) add at1 rem at2 c1 c2 name
    by (intro exI [of _ w1] exI [of _ w2] exI [of _ l1] exI [of _ l2] conjI)
      (simp_all add: CFRunLoopContainsSource_def w1_def w2_def l1_def l2_def source_reg.members_add
        source_reg.remove_add)
qed

section \<open>Callbacks that keep the mode stacks\<close>

definition same_stacks :: "'app world \<Rightarrow> 'app world \<Rightarrow> bool" where
  "same_stacks w w' =
     (current w' = current w \<and> memory w' = memory w
      \<and> (\<forall>rl. map_option mode_stack (loops w' rl) = map_option mode_stack (loops w rl)))"

definition balanced_guest :: "'app rl_env \<Rightarrow> bool" where
  "balanced_guest E =
     ((\<forall>c w. same_stacks w (guest E c w)) \<and> (\<forall>fd t w. same_stacks w (epoll_wait E fd t w)))"

lemma same_stacks_refl [simp]: "same_stacks w w"
  by (simp add: same_stacks_def)

lemma same_stacks_trans [trans]: "same_stacks w w' \<Longrightarrow> same_stacks w' w'' \<Longrightarrow> same_stacks w w''"
  by (simp add: same_stacks_def)

lemma same_stacks_objects [simp]:
  "same_stacks w (w'\<lparr>srcs := f\<rparr>) = same_stacks w w'" "same_stacks w (w'\<lparr>tmrs := g\<rparr>) = same_stacks w w'"
  "same_stacks (w\<lparr>srcs := f\<rparr>) w' = same_stacks w w'" "same_stacks (w\<lparr>tmrs := g\<rparr>) w' = same_stacks w w'"
  by (simp_all add: same_stacks_def)

lemma guest_same [simp]:
  "balanced_guest E \<Longrightarrow> same_stacks w (guest E c w)" "balanced_guest E \<Longrightarrow> same_stacks w (epoll_wait E fd t w)"
  by (simp_all add: balanced_guest_def)

lemma fire_each_same:
  "balanced_guest E \<Longrightarrow> fire_each E act ps w = Some w' \<Longrightarrow> same_stacks w w'"
proof (induction ps arbitrary: w)
  case (Cons p ps)
  have g: "fire_each E act ps (guest E c w) = Some w' \<Longrightarrow> same_stacks w w'" for c
    by (rule same_stacks_trans [OF guest_same(1) [OF Cons.prems(1)] Cons.IH [OF Cons.prems(1)]])
  show ?case using Cons g by (auto split: option.splits if_splits)
qed simp

lemma fire_same:
  "balanced_guest E \<Longrightarrow> fire_observers E rl mode act w = Some w' \<Longrightarrow> same_stacks w w'"
  by (auto simp: fire_observers_def split: option.splits intro: fire_each_same)

lemma source_pass_same:
  "balanced_guest E \<Longrightarrow> source_pass E early ps w = Some (b, w') \<Longrightarrow> same_stacks w w'"
proof (induction ps arbitrary: w)
  case (Cons p ps)
  have g: "same_stacks w (guest E c (w\<lparr>srcs := f\<rparr>))" for c f
    using guest_same(1) [OF Cons.prems(1), of "w\<lparr>srcs := f\<rparr>" c] by simp
  have n: "source_pass E early ps (w\<lparr>srcs := f\<rparr>) = Some (b, w') \<Longrightarrow> same_stacks w w'" for f
    using Cons.IH [OF Cons.prems(1), of "w\<lparr>srcs := f\<rparr>"] by simp
  have gn: "source_pass E early ps (guest E c (w\<lparr>srcs := f\<rparr>)) = Some (b, w') \<Longrightarrow> same_stacks w w'" for c f
    by (rule same_stacks_trans [OF g Cons.IH [OF Cons.prems(1)]])
  show ?case
    using Cons.prems g n gn Cons.IH by (auto simp: Let_def split: option.splits if_splits)
qed simp

lemma timer_pass_same:
  "balanced_guest E \<Longrightarrow> timer_pass E now early ps w = Some (b, w') \<Longrightarrow> same_stacks w w'"
proof (induction ps arbitrary: w)
  case (Cons p ps)
  have n: "timer_pass E now early ps (v\<lparr>tmrs := f\<rparr>) = Some (b, w') \<Longrightarrow> same_stacks v w'" for f v
    using Cons.IH [OF Cons.prems(1), of "v\<lparr>tmrs := f\<rparr>"] by simp
  show ?case
    using Cons.prems n Cons.IH
    by (auto simp: Let_def split: option.splits if_splits intro: same_stacks_trans [OF guest_same(1)] dest!: n)
qed simp

text \<open>Inside a run: the stacks are those at its start with the mode pushed; leaving pops it.\<close>

definition entered :: "ptr \<Rightarrow> string \<Rightarrow> 'app world \<Rightarrow> 'app world \<Rightarrow> bool" where
  "entered rl name w w' =
     (current w' = current w \<and> memory w' = memory w
      \<and> (\<forall>q. map_option mode_stack (loops w' q) =
              (if q = rl then map_option (\<lambda>l. mode_stack l @ [name]) (loops w q)
               else map_option mode_stack (loops w q))))"

lemma entered_trans: "entered rl name w w' \<Longrightarrow> same_stacks w' w'' \<Longrightarrow> entered rl name w w''"
  by (simp add: entered_def same_stacks_def)

lemma push_entered:
  assumes "same_stacks w a" "update_loop rl (\<lambda>l. l\<lparr>mode_stack := mode_stack l @ [name]\<rparr>) a = Some b"
  shows "entered rl name w b"
proof -
  obtain z where z: "loops a rl = Some z"
    and b: "b = a\<lparr>loops := (loops a)(rl \<mapsto> z\<lparr>mode_stack := mode_stack z @ [name]\<rparr>)\<rparr>"
    using assms(2) by (auto simp: update_loop_def)
  have "Some (mode_stack z) = map_option mode_stack (loops w rl)"
    using assms(1) z by (auto simp: same_stacks_def dest: spec [where x = rl])
  then obtain l where "loops w rl = Some l" "mode_stack z = mode_stack l" by (cases "loops w rl") auto
  with assms(1) show ?thesis by (simp add: entered_def same_stacks_def b)
qed

lemma update_loop_same:
  "update_loop rl f w = Some w' \<Longrightarrow> (\<And>l. mode_stack (f l) = mode_stack l) \<Longrightarrow> same_stacks w w'"
  by (auto simp: update_loop_def same_stacks_def)

lemma pop_same:
  assumes "entered rl name w w'" "update_loop rl (\<lambda>l. l\<lparr>mode_stack := butlast (mode_stack l)\<rparr>) w' = Some w2"
  shows "same_stacks w w2"
proof -
  obtain z where z: "loops w' rl = Some z"
    and w2: "w2 = w'\<lparr>loops := (loops w')(rl \<mapsto> z\<lparr>mode_stack := butlast (mode_stack z)\<rparr>)\<rparr>"
    using assms(2) by (auto simp: update_loop_def)
  have at_rl: "Some (mode_stack z) = map_option (\<lambda>l. mode_stack l @ [name]) (loops w rl)"
    and elsewhere: "q \<noteq> rl \<Longrightarrow> map_option mode_stack (loops w' q) = map_option mode_stack (loops w q)" for q
    using assms(1) z by (auto simp: entered_def dest: spec [where x = rl])
  from at_rl obtain l where "loops w rl = Some l" "mode_stack z = mode_stack l @ [name]"
    by (cases "loops w rl") auto
  with elsewhere assms(1) show ?thesis by (simp add: same_stacks_def w2 entered_def)
qed

lemma leave_mode_same:
  assumes "balanced_guest E" "entered rl name w w1" "leave_mode E rl mode w1 = Some w2"
  shows "same_stacks w w2"
proof -
  obtain w' where w': "fire_observers E rl mode K_CF_RUNLOOP_EXIT w1 = Some w'"
    and pop: "update_loop rl (\<lambda>l. l\<lparr>mode_stack := butlast (mode_stack l)\<rparr>) w' = Some w2"
    using assms(3) by (auto simp: leave_mode_def bind_eq_Some_conv)
  have "entered rl name w w'" by (rule entered_trans [OF assms(2) fire_same [OF assms(1) w']])
  from pop_same [OF this pop] show ?thesis .
qed

lemma wait_phase_same:
  assumes "balanced_guest E" "entered rl name w w1" "wait_phase E rl mode seconds w1 = Some (r, w2)"
  shows "same_stacks w w2 \<and> r \<in> {K_CF_RUNLOOP_RUN_STOPPED, K_CF_RUNLOOP_RUN_TIMED_OUT}"
proof -
  obtain a l b l2 c d where a: "fire_observers E rl mode K_CF_RUNLOOP_BEFORE_WAITING w1 = Some a"
    and "loops a rl = Some l"
    and b: "fire_observers E rl mode K_CF_RUNLOOP_AFTER_WAITING
        (epoll_wait E (epoll_fd l) (min_i32 (timeout_ms seconds) 100) a) = Some b"
    and "loops b rl = Some l2"
    and c: "update_loop rl (\<lambda>l. l\<lparr>stopped := False\<rparr>) b = Some c"
    and d: "leave_mode E rl mode c = Some d"
    and r: "Some (if stopped l2 then K_CF_RUNLOOP_RUN_STOPPED else K_CF_RUNLOOP_RUN_TIMED_OUT, d) = Some (r, w2)"
    using assms(3) unfolding wait_phase_def by (elim bind_SomeE) (rule that)
  have "same_stacks w1 a" by (rule fire_same [OF assms(1) a])
  also have "same_stacks a (epoll_wait E (epoll_fd l) (min_i32 (timeout_ms seconds) 100) a)"
    using assms(1) by simp
  also have "same_stacks \<dots> b" by (rule fire_same [OF assms(1) b])
  also have "same_stacks b c" by (rule update_loop_same [OF c]) simp
  finally have "entered rl name w c" by (rule entered_trans [OF assms(2)])
  then have "same_stacks w d" by (rule leave_mode_same [OF assms(1) _ d])
  with r show ?thesis by auto
qed

definition run_codes :: "i32 set" where
  "run_codes = {K_CF_RUNLOOP_RUN_STOPPED, K_CF_RUNLOOP_RUN_TIMED_OUT, K_CF_RUNLOOP_RUN_HANDLED_SOURCE}"

lemma timer_phase_same:
  assumes "balanced_guest E" "entered rl name w w1" "timer_phase E rl mode seconds early w1 = Some (r, w2)"
  shows "same_stacks w w2 \<and> r \<in> run_codes"
proof -
  obtain l a h b where a: "fire_observers E rl mode K_CF_RUNLOOP_BEFORE_TIMERS w1 = Some a"
    and b: "timer_pass E (current_absolute_time E w1) early (m_timers (mode_of l mode)) a = Some (h, b)"
    and rest: "(if h then map_option (Pair K_CF_RUNLOOP_RUN_HANDLED_SOURCE) (leave_mode E rl mode b)
      else wait_phase E rl mode seconds b) = Some (r, w2)"
    using assms(3) by (auto simp: timer_phase_def bind_eq_Some_conv Let_def)
  have "same_stacks w1 b"
    by (rule same_stacks_trans [OF fire_same [OF assms(1) a] timer_pass_same [OF assms(1) b]])
  then have e: "entered rl name w b" by (rule entered_trans [OF assms(2)])
  show ?thesis
    using rest leave_mode_same [OF assms(1) e, of mode w2] wait_phase_same [OF assms(1) e, of mode seconds r w2]
    by (cases h) (auto simp: run_codes_def)
qed

lemma source_phase_same:
  assumes "balanced_guest E" "entered rl name w w1" "source_phase E rl mode seconds early w1 = Some (r, w2)"
  shows "same_stacks w w2 \<and> r \<in> run_codes"
proof -
  obtain l a h b where a: "fire_observers E rl mode K_CF_RUNLOOP_BEFORE_SOURCES w1 = Some a"
    and b: "source_pass E early (m_sources (mode_of l mode)) a = Some (h, b)"
    and rest: "(if h then map_option (Pair K_CF_RUNLOOP_RUN_HANDLED_SOURCE) (leave_mode E rl mode b)
      else timer_phase E rl mode seconds early b) = Some (r, w2)"
    using assms(3) by (auto simp: source_phase_def bind_eq_Some_conv Let_def)
  have "same_stacks w1 b"
    by (rule same_stacks_trans [OF fire_same [OF assms(1) a] source_pass_same [OF assms(1) b]])
  then have e: "entered rl name w b" by (rule entered_trans [OF assms(2)])
  show ?thesis
    using rest leave_mode_same [OF assms(1) e, of mode w2]
      timer_phase_same [OF assms(1) e, of mode seconds early r w2]
    by (cases h) (auto simp: run_codes_def)
qed


section \<open>What a run calls\<close>

text \<open>
  A guest whose callbacks only note that they were called, a clock that stands at \<open>ts\<close> and
  a wait that changes nothing: its trace is what the loop itself does.
\<close>

definition recorder :: "int \<times> int \<Rightarrow> guest_call list rl_env \<Rightarrow> guest_call list rl_env" where
  "recorder ts E = E\<lparr>guest := \<lambda>c w. w\<lparr>app := app w @ [c]\<rparr>, clock_gettime := \<lambda>w. ts,
     epoll_wait := \<lambda>fd t w. w\<rparr>"

definition observer_calls :: "(ptr \<Rightarrow> rl_observer option) \<Rightarrow> ptr list \<Rightarrow> u64 \<Rightarrow> guest_call list" where
  "observer_calls ob ps act =
     concat (map (\<lambda>p. case ob p of
         Some x \<Rightarrow> if activities x AND act \<noteq> 0 \<and> obs_callback x \<noteq> 0
                   then [ObserverCall (obs_callback x) p act (obs_info x)] else []
       | None \<Rightarrow> []) ps)"

definition source_calls :: "(ptr \<Rightarrow> rl_source option) \<Rightarrow> ptr list \<Rightarrow> guest_call list" where
  "source_calls sr ps =
     concat (map (\<lambda>p. case sr p of
         Some x \<Rightarrow> if signaled x \<and> sc_perform (src_context x) \<noteq> 0
                   then [PerformSource (sc_perform (src_context x)) (sc_info (src_context x))] else []
       | None \<Rightarrow> []) ps)"

definition due :: "f64 \<Rightarrow> rl_timer \<Rightarrow> bool" where
  "due now t = f64_le (fire_date t) now"

definition timer_calls :: "(ptr \<Rightarrow> rl_timer option) \<Rightarrow> f64 \<Rightarrow> ptr list \<Rightarrow> guest_call list" where
  "timer_calls tm now ps =
     concat (map (\<lambda>p. case tm p of
         Some x \<Rightarrow> if due now x \<and> tmr_callback x \<noteq> 0
                   then [TimerCall (tmr_callback x) p (tmr_info x)] else []
       | None \<Rightarrow> []) ps)"

definition unsignal :: "ptr list \<Rightarrow> (ptr \<Rightarrow> rl_source option) \<Rightarrow> ptr \<Rightarrow> rl_source option" where
  "unsignal ps sr p =
     (if p \<in> set ps then map_option (\<lambda>x. x\<lparr>signaled := False\<rparr>) (sr p) else sr p)"

definition reschedule :: "f64 \<Rightarrow> rl_timer \<Rightarrow> rl_timer" where
  "reschedule now t =
     (if due now t
      then t\<lparr>fire_date := (if f64_lt 0 (interval t) then f64_add now (interval t) else f64_MAX)\<rparr>
      else t)"

definition rescheduled :: "f64 \<Rightarrow> ptr list \<Rightarrow> (ptr \<Rightarrow> rl_timer option) \<Rightarrow> ptr \<Rightarrow> rl_timer option" where
  "rescheduled now ps tm p = (if p \<in> set ps then map_option (reschedule now) (tm p) else tm p)"

definition all_live :: "(ptr \<Rightarrow> 'a option) \<Rightarrow> ptr list \<Rightarrow> bool" where
  "all_live h ps = list_all (\<lambda>p. h p \<noteq> None) ps"

lemma all_live_simps [simp]:
  "all_live h []" "all_live h (p # ps) = ((\<exists>x. h p = Some x) \<and> all_live h ps)"
  by (auto simp: all_live_def)

lemma recorder_guest [simp]:
  "guest (recorder ts E) c w = w\<lparr>app := app w @ [c]\<rparr>" "epoll_wait (recorder ts E) fd t w = w"
  "current_absolute_time (recorder ts E) w = current_absolute_time (recorder ts E) v"
  by (simp_all add: recorder_def current_absolute_time_def)

lemma fire_each_recorder:
  "all_live (obss w) ps \<Longrightarrow>
    fire_each (recorder ts E) act ps w = Some (w\<lparr>app := app w @ observer_calls (obss w) ps act\<rparr>)"
  by (induction ps arbitrary: w) (auto simp: observer_calls_def)

lemma fire_recorder:
  "loops w rl = Some l \<Longrightarrow> all_live (obss w) (m_observers (mode_of l mode)) \<Longrightarrow>
    fire_observers (recorder ts E) rl mode act w
      = Some (w\<lparr>app := app w @ observer_calls (obss w) (m_observers (mode_of l mode)) act\<rparr>)"
  by (simp add: fire_observers_def fire_each_recorder)

lemma source_pass_recorder:
  "all_live (srcs w) ps \<Longrightarrow> distinct ps \<Longrightarrow>
    source_pass (recorder ts E) False ps w
      = Some (False, w\<lparr>app := app w @ source_calls (srcs w) ps, srcs := unsignal ps (srcs w)\<rparr>)"
proof (induction ps arbitrary: w)
  case Nil
  then show ?case by (simp add: source_calls_def unsignal_def [abs_def])
next
  case (Cons p ps)
  then obtain s where s: "srcs w p = Some s" by auto
  define h where "h = (srcs w)(p \<mapsto> s\<lparr>signaled := False\<rparr>)"
  have live: "all_live (srcs w) ps" "all_live h ps" using Cons.prems by (auto simp: all_live_def list_all_iff h_def)
  have same: "source_calls h ps = source_calls (srcs w) ps"
    unfolding source_calls_def using Cons.prems by (intro arg_cong [where f = concat] map_cong) (auto simp: h_def)
  have un: "unsignal ps h = unsignal (p # ps) (srcs w)"
    using s Cons.prems by (auto simp: unsignal_def fun_eq_iff h_def)
  have un': "\<not> signaled s \<Longrightarrow> unsignal ps (srcs w) = unsignal (p # ps) (srcs w)"
    using s Cons.prems by (auto simp: unsignal_def fun_eq_iff)
  have calls: "source_calls (srcs w) (p # ps) =
      (if signaled s \<and> sc_perform (src_context s) \<noteq> 0
       then PerformSource (sc_perform (src_context s)) (sc_info (src_context s)) # source_calls (srcs w) ps
       else source_calls (srcs w) ps)"
    by (simp add: source_calls_def s)
  show ?case
  proof (cases "signaled s")
    case True
    with Cons.IH [of "w\<lparr>srcs := h\<rparr>"]
      Cons.IH [of "w\<lparr>srcs := h, app := app w @ [PerformSource (sc_perform (src_context s)) (sc_info (src_context s))]\<rparr>"]
      Cons.prems s live same un calls
    show ?thesis by (simp add: Let_def h_def [symmetric])
  next
    case False
    with Cons.IH [of w] Cons.prems s live un' calls show ?thesis by simp
  qed
qed

lemma timer_pass_recorder:
  "all_live (tmrs w) ps \<Longrightarrow> distinct ps \<Longrightarrow>
    timer_pass (recorder ts E) now False ps w
      = Some (False, w\<lparr>app := app w @ timer_calls (tmrs w) now ps, tmrs := rescheduled now ps (tmrs w)\<rparr>)"
proof (induction ps arbitrary: w)
  case Nil
  then show ?case by (simp add: timer_calls_def rescheduled_def [abs_def])
next
  case (Cons p ps)
  then obtain t where t: "tmrs w p = Some t" by auto
  define h where "h = (tmrs w)(p \<mapsto> reschedule now t)"
  have live: "all_live (tmrs w) ps" "all_live h ps" using Cons.prems by (auto simp: all_live_def list_all_iff h_def)
  have same: "timer_calls h now ps = timer_calls (tmrs w) now ps"
    unfolding timer_calls_def using Cons.prems by (intro arg_cong [where f = concat] map_cong) (auto simp: h_def)
  have re: "rescheduled now ps h = rescheduled now (p # ps) (tmrs w)"
    using t Cons.prems by (auto simp: rescheduled_def fun_eq_iff h_def)
  have re': "\<not> due now t \<Longrightarrow> rescheduled now ps (tmrs w) = rescheduled now (p # ps) (tmrs w)"
    using t Cons.prems by (auto simp: rescheduled_def fun_eq_iff reschedule_def)
  have calls: "timer_calls (tmrs w) now (p # ps) =
      (if due now t \<and> tmr_callback t \<noteq> 0
       then TimerCall (tmr_callback t) p (tmr_info t) # timer_calls (tmrs w) now ps
       else timer_calls (tmrs w) now ps)"
    by (simp add: timer_calls_def t)
  show ?case
  proof (cases "due now t")
    case True
    then have r: "reschedule now t
        = t\<lparr>fire_date := (if f64_lt 0 (interval t) then f64_add now (interval t) else f64_MAX)\<rparr>"
      by (simp add: reschedule_def)
    show ?thesis
      using True Cons.IH [of "w\<lparr>tmrs := h\<rparr>"] Cons.prems
        Cons.IH [of "w\<lparr>app := app w @ [TimerCall (tmr_callback t) p (tmr_info t)], tmrs := h\<rparr>"]
        t live same re calls
      by (simp add: Let_def r [symmetric] due_def h_def [symmetric])
  next
    case False
    with Cons.IH [of w] Cons.prems t live re' calls show ?thesis by (simp add: due_def)
  qed
qed

lemma leave_recorder:
  assumes "loops w rl = Some l" "all_live (obss w) (m_observers (mode_of l name))"
  shows "leave_mode (recorder ts E) rl name w
    = Some (w\<lparr>app := app w @ observer_calls (obss w) (m_observers (mode_of l name)) K_CF_RUNLOOP_EXIT,
        loops := (loops w)(rl \<mapsto> l\<lparr>mode_stack := butlast (mode_stack l)\<rparr>)\<rparr>)"
  using assms by (simp add: leave_mode_def fire_recorder update_loop_def)

lemma mode_of_updates [simp]:
  "mode_of (l\<lparr>stopped := b\<rparr>) n = mode_of l n" "mode_of (l\<lparr>mode_stack := st\<rparr>) n = mode_of l n"
  by (simp_all add: mode_of_def)

lemma wait_recorder:
  fixes w :: "guest_call list world"
  assumes l: "loops w rl = Some l" and live: "all_live (obss w) (m_observers (mode_of l name))"
  defines "oc \<equiv> observer_calls (obss w) (m_observers (mode_of l name))"
  shows "wait_phase (recorder ts E) rl name seconds w
    = Some (if stopped l then K_CF_RUNLOOP_RUN_STOPPED else K_CF_RUNLOOP_RUN_TIMED_OUT,
        w\<lparr>app := app w @ oc K_CF_RUNLOOP_BEFORE_WAITING @ oc K_CF_RUNLOOP_AFTER_WAITING @ oc K_CF_RUNLOOP_EXIT,
          loops := (loops w)(rl \<mapsto> l\<lparr>stopped := False, mode_stack := butlast (mode_stack l)\<rparr>)\<rparr>)"
proof -
  define h where "h = (loops w)(rl \<mapsto> l\<lparr>stopped := False\<rparr>)"
  have h: "h rl = Some (l\<lparr>stopped := False\<rparr>)" by (simp add: h_def)
  have hh: "h(rl \<mapsto> l\<lparr>stopped := False, mode_stack := butlast (mode_stack l)\<rparr>)
      = (loops w)(rl \<mapsto> l\<lparr>stopped := False, mode_stack := butlast (mode_stack l)\<rparr>)"
    by (simp add: h_def)
  show ?thesis
    using l live h
    by (simp add: wait_phase_def fire_recorder update_loop_def h_def [symmetric] leave_recorder oc_def
        hh [symmetric])
qed

text \<open>One complete run of a mode whose registries hold live objects, once each.\<close>

definition run_trace_of ::
    "'app world \<Rightarrow> mode_inner \<Rightarrow> f64 \<Rightarrow> guest_call list" where
  "run_trace_of w m now =
     observer_calls (obss w) (m_observers m) K_CF_RUNLOOP_ENTRY
     @ observer_calls (obss w) (m_observers m) K_CF_RUNLOOP_BEFORE_SOURCES
     @ source_calls (srcs w) (m_sources m)
     @ observer_calls (obss w) (m_observers m) K_CF_RUNLOOP_BEFORE_TIMERS
     @ timer_calls (tmrs w) now (m_timers m)
     @ observer_calls (obss w) (m_observers m) K_CF_RUNLOOP_BEFORE_WAITING
     @ observer_calls (obss w) (m_observers m) K_CF_RUNLOOP_AFTER_WAITING
     @ observer_calls (obss w) (m_observers m) K_CF_RUNLOOP_EXIT"

definition mode_live :: "'app world \<Rightarrow> mode_inner \<Rightarrow> bool" where
  "mode_live w m =
     (all_live (obss w) (m_observers m) \<and> all_live (srcs w) (m_sources m) \<and> all_live (tmrs w) (m_timers m)
      \<and> distinct (m_sources m) \<and> distinct (m_timers m))"

lemma timer_phase_recorder:
  fixes w :: "guest_call list world"
  assumes l: "loops w rl = Some l" and live: "mode_live w (mode_of l name)" and run: "\<not> stopped l"
    and m: "m = mode_of l name" and now: "now = current_absolute_time (recorder ts E) w"
  defines "oc \<equiv> observer_calls (obss w) (m_observers m)"
  shows "timer_phase (recorder ts E) rl name seconds False w
    = Some (K_CF_RUNLOOP_RUN_TIMED_OUT,
        w\<lparr>app := app w @ oc K_CF_RUNLOOP_BEFORE_TIMERS @ timer_calls (tmrs w) now (m_timers m)
            @ oc K_CF_RUNLOOP_BEFORE_WAITING @ oc K_CF_RUNLOOP_AFTER_WAITING @ oc K_CF_RUNLOOP_EXIT,
          tmrs := rescheduled now (m_timers m) (tmrs w),
          loops := (loops w)(rl \<mapsto> l\<lparr>stopped := False, mode_stack := butlast (mode_stack l)\<rparr>)\<rparr>)"
  using l live run m
  by (simp add: timer_phase_def Let_def now [symmetric] fire_recorder timer_pass_recorder
      wait_recorder mode_live_def oc_def)

lemma source_phase_recorder:
  fixes w :: "guest_call list world"
  assumes l: "loops w rl = Some l" and live: "mode_live w (mode_of l name)" and run: "\<not> stopped l"
    and m: "m = mode_of l name" and now: "now = current_absolute_time (recorder ts E) v"
  defines "oc \<equiv> observer_calls (obss w) (m_observers m)"
  shows "source_phase (recorder ts E) rl name seconds False w
    = Some (K_CF_RUNLOOP_RUN_TIMED_OUT,
        w\<lparr>app := app w @ oc K_CF_RUNLOOP_BEFORE_SOURCES @ source_calls (srcs w) (m_sources m)
            @ oc K_CF_RUNLOOP_BEFORE_TIMERS @ timer_calls (tmrs w) now (m_timers m)
            @ oc K_CF_RUNLOOP_BEFORE_WAITING @ oc K_CF_RUNLOOP_AFTER_WAITING @ oc K_CF_RUNLOOP_EXIT,
          srcs := unsignal (m_sources m) (srcs w),
          tmrs := rescheduled now (m_timers m) (tmrs w),
          loops := (loops w)(rl \<mapsto> l\<lparr>stopped := False, mode_stack := butlast (mode_stack l)\<rparr>)\<rparr>)"
proof -
  define a where "a = w\<lparr>app := app w @ oc K_CF_RUNLOOP_BEFORE_SOURCES @ source_calls (srcs w) (m_sources m),
    srcs := unsignal (m_sources m) (srcs w)\<rparr>"
  have "source_phase (recorder ts E) rl name seconds False w = timer_phase (recorder ts E) rl name seconds False a"
    using l live m
    by (simp add: source_phase_def fire_recorder source_pass_recorder mode_live_def oc_def a_def)
  moreover have "now = current_absolute_time (recorder ts E) a" unfolding now by (rule recorder_guest)
  moreover have "all_live (unsignal ps f) qs = all_live f qs" for ps qs and f :: "ptr \<Rightarrow> rl_source option"
    by (auto simp: all_live_def unsignal_def list_all_iff)
  ultimately show ?thesis
    using timer_phase_recorder [of a rl l name m now ts E seconds] l live run m
    by (simp add: a_def oc_def mode_live_def)
qed

lemma run_recorder:
  fixes w :: "guest_call list world"
  assumes "current w = rl" "rl \<noteq> 0" "loops w rl = Some l" "\<not> stopped l"
    and name: "name = mode_name_from_ptr (memory w) mode"
    and m: "m = mode_of l name" and live: "mode_live w m"
    and now: "now = current_absolute_time (recorder ts E) w"
  shows "\<exists>w' l'. CFRunLoopRunInMode (recorder ts E) mode seconds 0 w = Some (K_CF_RUNLOOP_RUN_TIMED_OUT, w')
    \<and> app w' = app w @ run_trace_of w m now
    \<and> srcs w' = unsignal (m_sources m) (srcs w) \<and> tmrs w' = rescheduled now (m_timers m) (tmrs w)
    \<and> loops w' = (loops w)(rl \<mapsto> l') \<and> mode_stack l' = mode_stack l
    \<and> (\<forall>n. mode_of l' n = mode_of l n)"
proof -
  define l1 where "l1 = with_entry name id l"
  define l2 where "l2 = l1\<lparr>mode_stack := mode_stack l1 @ [name]\<rparr>"
  define h where "h = (loops w)(rl \<mapsto> l2)"
  define v where "v = w\<lparr>loops := h\<rparr>"
  have l1: "stopped l1 = stopped l" "mode_stack l1 = mode_stack l" "mode_of l1 n = mode_of l n" for n
    by (simp_all add: l1_def mode_of_with_entry) (simp_all add: with_entry_def)
  have l2: "\<not> stopped l2" "mode_stack l2 = mode_stack l @ [name]" "mode_of l2 n = mode_of l n" for n
    using assms(4) l1 by (simp_all add: l2_def)
  have v: "loops v rl = Some l2" "mode_live v (mode_of l2 name)" "obss v = obss w" "srcs v = srcs w"
      "tmrs v = tmrs w" "app v = app w" "loops v = h"
    using live l2 m by (simp_all add: v_def h_def mode_live_def)
  have enter: "CFRunLoopRunInMode (recorder ts E) mode seconds 0 w
      = Option.bind (fire_observers (recorder ts E) rl name K_CF_RUNLOOP_ENTRY v)
          (source_phase (recorder ts E) rl name seconds False)"
    using assms(1-4) l1(1,2)
    by (simp add: CFRunLoopRunInMode_def get_or_create_runloop_def name [symmetric] update_loop_def Let_def
        l1_def [symmetric] l2_def v_def h_def)
  define a where "a = v\<lparr>app := app v @ observer_calls (obss w) (m_observers m) K_CF_RUNLOOP_ENTRY\<rparr>"
  have fire: "fire_observers (recorder ts E) rl name K_CF_RUNLOOP_ENTRY v = Some a"
    using v l2 m by (simp add: fire_recorder mode_live_def a_def)
  have a: "loops a rl = Some l2" "mode_live a (mode_of l2 name)" "m = mode_of l2 name"
    using v l2 m by (simp_all add: a_def mode_live_def)
  show ?thesis
    using source_phase_recorder [OF a(1) a(2) l2(1) a(3) now, of seconds] l2(2)
    by (simp add: enter fire a_def v run_trace_of_def h_def)
      (intro exI [of _ "l2\<lparr>stopped := False, mode_stack := mode_stack l\<rparr>"], simp add: l2(3))
qed


section \<open>Concrete runs\<close>

definition idle_env :: "guest_call list rl_env" where
  "idle_env = \<lparr>guest = \<lambda>c w. w, box_new = \<lambda>w. 0x1000, clock_gettime = \<lambda>w. (0, 0),
     epoll_create1 = \<lambda>w. 3, epoll_wait = \<lambda>fd t w. w, static_ptr = \<lambda>n. 0\<rparr>"

text \<open>A thread with a loop at 0x1000, an observer of every activity and a signaled source.\<close>

definition demo_source :: rl_source where
  "demo_source = \<lparr>src_type = CF_RUNLOOP_SOURCE_TYPE_ID,
     src_context = zeroed_context\<lparr>sc_perform := 0x5000, sc_info := 7\<rparr>, signaled = True\<rparr>"

definition demo_observer :: rl_observer where
  "demo_observer = \<lparr>obs_type = CF_RUNLOOP_TYPE_ID, activities = 0xFF, repeats = True, obs_order = 0,
     obs_callback = 0x6000, obs_info = 0\<rparr>"

definition demo_world :: "guest_call list world" where
  "demo_world = \<lparr>app = [], memory = (\<lambda>a. 0), current = 0x1000,
     loops = [0x1000 \<mapsto> add_observer 0x3000 kCFRunLoopDefaultMode
                (add_source 0x2000 kCFRunLoopDefaultMode (new_runloop 3))],
     srcs = [0x2000 \<mapsto> demo_source], tmrs = Map.empty, obss = [0x3000 \<mapsto> demo_observer]\<rparr>"

lemma demo_mode:
  "mode_of (add_observer 0x3000 kCFRunLoopDefaultMode
     (add_source 0x2000 kCFRunLoopDefaultMode (new_runloop 3))) kCFRunLoopDefaultMode
   = \<lparr>m_sources = [0x2000], m_timers = [], m_observers = [0x3000]\<rparr>"
  by (simp add: add_observer_def add_source_def mode_of_add_in targets_def push_new_def)
    (simp add: mode_of_def new_runloop_def mode_new_def mode_names)

lemma demo_mode_name: "mode_name_from_ptr (memory demo_world) 0 = kCFRunLoopDefaultMode"
  by (simp add: mode_name_from_ptr_def)

lemma demo_loop:
  "loops demo_world 0x1000 = Some (add_observer 0x3000 kCFRunLoopDefaultMode
     (add_source 0x2000 kCFRunLoopDefaultMode (new_runloop 3)))"
  by (simp add: demo_world_def)

lemma demo_not_stopped:
  "\<not> stopped (add_observer 0x3000 kCFRunLoopDefaultMode
     (add_source 0x2000 kCFRunLoopDefaultMode (new_runloop 3)))"
  by (simp add: add_observer_def add_source_def add_in_def mode_names) (simp add: with_entry_def new_runloop_def)


lemma recorder_balanced: "balanced_guest (recorder ts E)"
  by (simp add: balanced_guest_def same_stacks_def)

text \<open>The run of \<open>run_trace_witness\<close> also shows that a balanced guest's run can return.\<close>

lemma demo_runs: "\<exists>r w'. CFRunLoopRunInMode (recorder (0, 0) idle_env) 0 0 0 demo_world = Some (r, w')"
proof -
  have "mode_live demo_world \<lparr>m_sources = [0x2000], m_timers = [], m_observers = [0x3000]\<rparr>"
    by (simp add: mode_live_def demo_world_def)
  from run_recorder [of demo_world "0x1000", OF _ _ demo_loop demo_not_stopped demo_mode_name [symmetric]
      demo_mode [symmetric] this refl, of "(0, 0)" idle_env 0]
  show ?thesis by (auto simp: demo_world_def)
qed


theorem source_registration_witness:
  "\<exists>w1. CFRunLoopAddSource 0x1000 0x2222 0 demo_world = Some w1
    \<and> CFRunLoopContainsSource 0x1000 0x2222 0 w1 = Some True"
  using source_registration [OF _ _ demo_loop refl, of "0x2222" 0]
  by (auto simp: demo_mode_name targets_def mode_names)

section \<open>The time limit of the wait\<close>

lemma f64_trunc_nonneg: "\<not> f64_neg x \<or> f64_abs x = 0 \<Longrightarrow> 0 \<le> f64_trunc x"
  by (auto simp: f64_trunc_def Let_def)

lemma f64_to_i32_nonneg:
  assumes "0 \<le> f64_trunc x"
  shows "0 \<le> sint (f64_to_i32 x)"
proof (cases "is_nan x")
  case False
  define t where "t = max (- (2 ^ 31)) (min (2 ^ 31 - 1) (f64_trunc x))"
  have t: "0 \<le> t" "t < 2 ^ 31" using assms by (auto simp: t_def)
  then have "sint (of_int t :: i32) = t" by (simp add: signed_of_int signed_take_bit_int_eq_self)
  with t False show ?thesis by (simp add: f64_to_i32_def t_def)
qed (simp add: f64_to_i32_def)

lemma round_bits_zero: "0 < d \<Longrightarrow> round_bits 0 d = 0"
  by (simp add: round_bits_def half_even_def Let_def f64_inf_def)

lemma timeout_nonneg:
  assumes "f64_le 0 s" "\<not> f64_lt 0x41CDCD6500000000 s"
  shows "0 \<le> sint (timeout_ms s)"
proof -
  have c: "f64_key 0x41CDCD6500000000 = 0x41CDCD6500000000" "f64_key 0 = 0" "\<not> is_nan 0x41CDCD6500000000"
    by (simp_all add: f64_key_def f64_neg_def bit_63 f64_abs_def is_nan_def f64_inf_def)
  have "f64_key s \<le> 0x41CDCD6500000000" "0 \<le> f64_key s"
    using assms c by (auto simp: f64_le_def f64_lt_def)
  then have "f64_abs s \<le> 0x41CDCD6500000000" by (simp add: f64_key_def split: if_splits)
  then have fin: "is_finite s" by (simp add: is_finite_def f64_inf_def)
  have k: "\<not> f64_neg 0x408F400000000000" "is_finite 0x408F400000000000"
    by (simp_all add: f64_neg_def bit_63 is_finite_def f64_abs_def f64_inf_def)
  have "\<not> f64_neg s \<or> f64_abs s = 0"
    using assms(1) by (auto simp: f64_le_def f64_key_def f64_abs_def f64_neg_def split: if_splits)
  then have "\<not> f64_neg (f64_mul s 0x408F400000000000) \<or> f64_abs (f64_mul s 0x408F400000000000) = 0"
    using fin k by (auto simp: f64_mul_def finite_not_nan round_bits_zero)
  then show ?thesis
    using assms(2) by (simp add: timeout_ms_def f64_to_i32_nonneg f64_trunc_nonneg)
qed

lemma fire_each_guest: "guest E = guest E' \<Longrightarrow> fire_each E act ps w = fire_each E' act ps w"
  by (induction ps arbitrary: w) (simp_all split: option.split)

lemma fire_guest: "guest E = guest E' \<Longrightarrow> fire_observers E rl mode act w = fire_observers E' rl mode act w"
  by (simp add: fire_observers_def fire_each_guest [of E E'] split: option.split)

lemma leave_guest: "guest E = guest E' \<Longrightarrow> leave_mode E rl mode w = leave_mode E' rl mode w"
  by (simp add: leave_mode_def fire_guest [of E E'])

lemma min_i32_bounds: "0 \<le> sint a \<Longrightarrow> 0 \<le> sint (min_i32 a 100) \<and> sint (min_i32 a 100) \<le> 100"
  by (simp add: min_i32_def)

text \<open>
  With a limit of up to 10 ^ 9 seconds the wait of a run lasts between 0 and 100
  milliseconds, so the loop comes back to its timers. With a larger one, as CFRunLoopRun
  passes, the timeout is -1, which is smaller than 100: epoll is asked to wait for ever, and
  as nothing is ever added to the epoll set, a timer that is not due on entry never fires.
\<close>

theorem wait_limit:
  "(f64_lt 0x41CDCD6500000000 s \<longrightarrow>
      wait_phase E rl mode s w = wait_phase (E\<lparr>epoll_wait := \<lambda>fd t. epoll_wait E fd (- 1)\<rparr>) rl mode s w)
    \<and> (f64_le 0 s \<and> \<not> f64_lt 0x41CDCD6500000000 s \<longrightarrow>
        0 \<le> sint (min_i32 (timeout_ms s) 100) \<and> sint (min_i32 (timeout_ms s) 100) \<le> 100)
    \<and> f64_lt 0x41CDCD6500000000 0x4202A05F20000000"
proof (intro conjI impI)
  assume "f64_lt 0x41CDCD6500000000 s"
  then have "min_i32 (timeout_ms s) 100 = - 1" by (simp add: timeout_ms_def min_i32_def)
  then show "wait_phase E rl mode s w
      = wait_phase (E\<lparr>epoll_wait := \<lambda>fd t. epoll_wait E fd (- 1)\<rparr>) rl mode s w"
    unfolding wait_phase_def
    by (simp add: fire_guest [of "E\<lparr>epoll_wait := \<lambda>fd t. epoll_wait E fd (- 1)\<rparr>" E]
        leave_guest [of "E\<lparr>epoll_wait := \<lambda>fd t. epoll_wait E fd (- 1)\<rparr>" E])
next
  show "f64_lt 0x41CDCD6500000000 0x4202A05F20000000"
    by (simp add: f64_lt_def is_nan_def f64_abs_def f64_inf_def f64_key_def f64_neg_def bit_63)
qed (use timeout_nonneg min_i32_bounds in blast)+

theorem wait_limit_witness:
  "wait_phase idle_env 0x1000 kCFRunLoopDefaultMode 0x4202A05F20000000 demo_world
    = wait_phase (idle_env\<lparr>epoll_wait := \<lambda>fd t. epoll_wait idle_env fd (- 1)\<rparr>) 0x1000 kCFRunLoopDefaultMode
        0x4202A05F20000000 demo_world"
  using wait_limit [of "0x4202A05F20000000" idle_env "0x1000" kCFRunLoopDefaultMode demo_world] by blast

end
