(* ===== verification/Geometry.thy ===== *)
theory Geometry
  imports Float64
begin

text \<open>
  Core Graphics geometry (\<open>crates/grafted-frameworks/src/cg/geometry.rs\<close>): points, sizes,
  rectangles and affine transforms over binary64 coordinates, with every exported function.
  The lemmas show that on coordinates whose sums are exact (whole pixels, for instance)
  intersection and union have the set-theoretic meaning their callers rely on.
\<close>

section \<open>Types\<close>

record CGPoint =
  px :: f64
  py :: f64

record CGSize =
  width :: f64
  height :: f64

record CGRect =
  origin :: CGPoint
  rsize :: CGSize

record CGAffineTransform =
  aff_a :: f64
  aff_b :: f64
  aff_c :: f64
  aff_d :: f64
  aff_tx :: f64
  aff_ty :: f64

definition f64_one :: f64 where
  "f64_one = 0x3FF0000000000000"

definition f64_two :: f64 where
  "f64_two = 0x4000000000000000"

definition CGAffineTransformIdentity :: CGAffineTransform where
  "CGAffineTransformIdentity =
     \<lparr>aff_a = f64_one, aff_b = 0, aff_c = 0, aff_d = f64_one, aff_tx = 0, aff_ty = 0\<rparr>"

definition CGPointZero :: CGPoint where
  "CGPointZero = \<lparr>px = 0, py = 0\<rparr>"

definition CGSizeZero :: CGSize where
  "CGSizeZero = \<lparr>width = 0, height = 0\<rparr>"

definition CGRectZero :: CGRect where
  "CGRectZero = \<lparr>origin = CGPointZero, rsize = CGSizeZero\<rparr>"

definition CGRectNull :: CGRect where
  "CGRectNull = \<lparr>origin = \<lparr>px = INFINITY, py = INFINITY\<rparr>, rsize = CGSizeZero\<rparr>"

section \<open>Operations\<close>

definition CGPointMake :: "f64 \<Rightarrow> f64 \<Rightarrow> CGPoint" where
  "CGPointMake x y = \<lparr>px = x, py = y\<rparr>"

definition CGSizeMake :: "f64 \<Rightarrow> f64 \<Rightarrow> CGSize" where
  "CGSizeMake w h = \<lparr>width = w, height = h\<rparr>"

definition CGRectMake :: "f64 \<Rightarrow> f64 \<Rightarrow> f64 \<Rightarrow> f64 \<Rightarrow> CGRect" where
  "CGRectMake x y w h = \<lparr>origin = \<lparr>px = x, py = y\<rparr>, rsize = \<lparr>width = w, height = h\<rparr>\<rparr>"

definition CGRectGetMinX :: "CGRect \<Rightarrow> f64" where
  "CGRectGetMinX r = px (origin r)"

definition CGRectGetMinY :: "CGRect \<Rightarrow> f64" where
  "CGRectGetMinY r = py (origin r)"

definition CGRectGetMaxX :: "CGRect \<Rightarrow> f64" where
  "CGRectGetMaxX r = f64_add (px (origin r)) (width (rsize r))"

definition CGRectGetMaxY :: "CGRect \<Rightarrow> f64" where
  "CGRectGetMaxY r = f64_add (py (origin r)) (height (rsize r))"

definition CGRectGetMidX :: "CGRect \<Rightarrow> f64" where
  "CGRectGetMidX r = f64_add (px (origin r)) (f64_div (width (rsize r)) f64_two)"

definition CGRectGetMidY :: "CGRect \<Rightarrow> f64" where
  "CGRectGetMidY r = f64_add (py (origin r)) (f64_div (height (rsize r)) f64_two)"

definition CGRectGetWidth :: "CGRect \<Rightarrow> f64" where
  "CGRectGetWidth r = width (rsize r)"

definition CGRectGetHeight :: "CGRect \<Rightarrow> f64" where
  "CGRectGetHeight r = height (rsize r)"

definition CGRectIsEmpty :: "CGRect \<Rightarrow> bool" where
  "CGRectIsEmpty r = (f64_le (width (rsize r)) 0 \<or> f64_le (height (rsize r)) 0)"

definition CGRectIntersection :: "CGRect \<Rightarrow> CGRect \<Rightarrow> CGRect" where
  "CGRectIntersection r1 r2 =
     (let x = f64_max (px (origin r1)) (px (origin r2));
          y = f64_max (py (origin r1)) (py (origin r2));
          x2 = f64_min (f64_add (px (origin r1)) (width (rsize r1)))
                       (f64_add (px (origin r2)) (width (rsize r2)));
          y2 = f64_min (f64_add (py (origin r1)) (height (rsize r1)))
                       (f64_add (py (origin r2)) (height (rsize r2)))
      in if f64_lt x x2 \<and> f64_lt y y2
         then \<lparr>origin = \<lparr>px = x, py = y\<rparr>, rsize = \<lparr>width = f64_sub x2 x, height = f64_sub y2 y\<rparr>\<rparr>
         else CGRectZero)"

definition CGRectUnion :: "CGRect \<Rightarrow> CGRect \<Rightarrow> CGRect" where
  "CGRectUnion r1 r2 =
     (let x = f64_min (px (origin r1)) (px (origin r2));
          y = f64_min (py (origin r1)) (py (origin r2));
          x2 = f64_max (f64_add (px (origin r1)) (width (rsize r1)))
                       (f64_add (px (origin r2)) (width (rsize r2)));
          y2 = f64_max (f64_add (py (origin r1)) (height (rsize r1)))
                       (f64_add (py (origin r2)) (height (rsize r2)))
      in \<lparr>origin = \<lparr>px = x, py = y\<rparr>, rsize = \<lparr>width = f64_sub x2 x, height = f64_sub y2 y\<rparr>\<rparr>)"

definition CGRectContainsPoint :: "CGRect \<Rightarrow> CGPoint \<Rightarrow> bool" where
  "CGRectContainsPoint r p =
     (f64_le (px (origin r)) (px p) \<and> f64_lt (px p) (f64_add (px (origin r)) (width (rsize r)))
      \<and> f64_le (py (origin r)) (py p) \<and> f64_lt (py p) (f64_add (py (origin r)) (height (rsize r))))"

definition CGPointEqualToPoint :: "CGPoint \<Rightarrow> CGPoint \<Rightarrow> bool" where
  "CGPointEqualToPoint p q = (f64_eq (px p) (px q) \<and> f64_eq (py p) (py q))"

definition CGSizeEqualToSize :: "CGSize \<Rightarrow> CGSize \<Rightarrow> bool" where
  "CGSizeEqualToSize s t = (f64_eq (width s) (width t) \<and> f64_eq (height s) (height t))"

definition CGRectEqualToRect :: "CGRect \<Rightarrow> CGRect \<Rightarrow> bool" where
  "CGRectEqualToRect r s =
     (CGPointEqualToPoint (origin r) (origin s) \<and> CGSizeEqualToSize (rsize r) (rsize s))"

section \<open>One axis\<close>

text \<open>
  Along one axis a rectangle is the half-open interval from \<open>a\<close> to \<open>a + w\<close>. On a grid where
  sums are exact, cutting and joining intervals has the expected meaning.
\<close>

definition in_span :: "f64 \<Rightarrow> f64 \<Rightarrow> f64 \<Rightarrow> bool" where
  "in_span a w p = (f64_le a p \<and> f64_lt p (f64_add a w))"

lemma f64_max_le: "\<not> is_nan x \<Longrightarrow> \<not> is_nan y \<Longrightarrow> f64_le (f64_max x y) p \<longleftrightarrow> f64_le x p \<and> f64_le y p"
  by (auto simp: f64_max_def f64_le_def f64_lt_def)

lemma f64_lt_min: "\<not> is_nan x \<Longrightarrow> \<not> is_nan y \<Longrightarrow> f64_lt p (f64_min x y) \<longleftrightarrow> f64_lt p x \<and> f64_lt p y"
  by (auto simp: f64_min_def f64_le_def f64_lt_def)

lemma f64_min_le: "\<not> is_nan x \<Longrightarrow> \<not> is_nan y \<Longrightarrow> f64_le (f64_min x y) p \<longleftrightarrow> f64_le x p \<or> f64_le y p"
  by (auto simp: f64_min_def f64_le_def f64_lt_def)

lemma f64_lt_max: "\<not> is_nan x \<Longrightarrow> \<not> is_nan y \<Longrightarrow> f64_lt p (f64_max x y) \<longleftrightarrow> f64_lt p x \<or> f64_lt p y"
  by (auto simp: f64_max_def f64_le_def f64_lt_def)

lemma on_grid_max: "on_grid k n x \<Longrightarrow> on_grid k n y \<Longrightarrow> on_grid k n (f64_max x y)"
  by (auto simp: f64_max_def)

lemma on_grid_min: "on_grid k n x \<Longrightarrow> on_grid k n y \<Longrightarrow> on_grid k n (f64_min x y)"
  by (auto simp: f64_min_def)

lemma on_grid_not_nan: "on_grid k n x \<Longrightarrow> \<not> is_nan x"
  by (rule finite_not_nan [OF on_grid_finite])

text \<open>Going from \<open>a\<close> by the width \<open>b - a\<close> ends at \<open>b\<close>.\<close>

lemma span_end:
  assumes "on_grid k n a" "on_grid k n b" "3 * n < 2 ^ 53" "k \<le> 2045"
  shows "f64_lt p (f64_add a (f64_sub b a)) \<longleftrightarrow> f64_lt p b"
proof -
  have s: "on_grid k (n + n) (f64_sub b a) \<and> f64_val (f64_sub b a) = f64_val b - f64_val a"
    using on_grid_sub [OF assms(2,1)] assms(3,4) by simp
  then have t: "on_grid k (n + (n + n)) (f64_add a (f64_sub b a))
      \<and> f64_val (f64_add a (f64_sub b a)) = f64_val a + f64_val (f64_sub b a)"
    using on_grid_add [OF assms(1), of "n + n" "f64_sub b a"] assms(3,4) by simp
  let ?e = "f64_add a (f64_sub b a)"
  have fin: "is_finite ?e" "is_finite b" using t assms(2) by (auto dest: on_grid_finite)
  have "f64_val ?e = f64_val b" using s t by simp
  with fin have "f64_le ?e b" "f64_le b ?e" by (simp_all add: f64_le_val)
  then show ?thesis by (metis f64_lt_le_trans)
qed

definition whole :: "nat \<Rightarrow> f64 \<Rightarrow> f64 \<Rightarrow> bool" where
  "whole k a w = (on_grid k (2 ^ 48) a \<and> on_grid k (2 ^ 48) w \<and> k \<le> 2045)"

lemma whole_end: "whole k a w \<Longrightarrow> on_grid k (2 ^ 49) (f64_add a w)"
  using on_grid_add [of k "2 ^ 48" a "2 ^ 48" w] by (simp add: whole_def)

lemma on_grid_wider: "on_grid k n x \<Longrightarrow> n \<le> m \<Longrightarrow> on_grid k m x"
  by (fastforce simp: on_grid_def)

lemma whole_start: "whole k a w \<Longrightarrow> on_grid k (2 ^ 49) a"
  by (rule on_grid_wider [of k "2 ^ 48"]) (simp_all add: whole_def)

lemma cut_end:
  assumes "whole k a v" "whole k b w"
  shows "f64_lt p (f64_add (f64_max a b) (f64_sub (f64_min (f64_add a v) (f64_add b w)) (f64_max a b)))
    \<longleftrightarrow> f64_lt p (f64_add a v) \<and> f64_lt p (f64_add b w)"
proof -
  have g: "on_grid k (2 ^ 49) a" "on_grid k (2 ^ 49) b"
      "on_grid k (2 ^ 49) (f64_add a v)" "on_grid k (2 ^ 49) (f64_add b w)" "k \<le> 2045"
    using assms whole_start [OF assms(1)] whole_start [OF assms(2)] whole_end [OF assms(1)]
      whole_end [OF assms(2)] by (simp_all add: whole_def)
  show ?thesis
    by (subst span_end [where k = k and n = "2 ^ 49"])
      (use g in \<open>simp_all add: on_grid_max on_grid_min f64_lt_min on_grid_not_nan\<close>)
qed

lemma join_end:
  assumes "whole k a v" "whole k b w"
  shows "f64_lt p (f64_add (f64_min a b) (f64_sub (f64_max (f64_add a v) (f64_add b w)) (f64_min a b)))
    \<longleftrightarrow> f64_lt p (f64_add a v) \<or> f64_lt p (f64_add b w)"
proof -
  have g: "on_grid k (2 ^ 49) a" "on_grid k (2 ^ 49) b"
      "on_grid k (2 ^ 49) (f64_add a v)" "on_grid k (2 ^ 49) (f64_add b w)" "k \<le> 2045"
    using assms whole_start [OF assms(1)] whole_start [OF assms(2)] whole_end [OF assms(1)]
      whole_end [OF assms(2)] by (simp_all add: whole_def)
  show ?thesis
    by (subst span_end [where k = k and n = "2 ^ 49"])
      (use g in \<open>simp_all add: on_grid_max on_grid_min f64_lt_max on_grid_not_nan\<close>)
qed

lemma whole_nan: "whole k a w \<Longrightarrow> \<not> is_nan a \<and> \<not> is_nan w \<and> \<not> is_nan (f64_add a w)"
  by (meson on_grid_not_nan whole_def whole_end)

section \<open>Rectangles\<close>

text \<open>Coordinates and sizes are multiples of \<open>2 ^ k\<close> units with up to 48 bits.\<close>

definition whole_rect :: "nat \<Rightarrow> CGRect \<Rightarrow> bool" where
  "whole_rect k r = (whole k (px (origin r)) (width (rsize r)) \<and> whole k (py (origin r)) (height (rsize r)))"

lemma zero_rect_contains: "\<not> CGRectContainsPoint CGRectZero p"
  by (auto simp: CGRectContainsPoint_def CGRectZero_def CGPointZero_def CGSizeZero_def
      f64_add_exact f64_le_def f64_lt_def f64_key_def f64_neg_def f64_abs_def f64_of_def)

lemma whole_rect_axes:
  "whole_rect k r \<Longrightarrow> whole k (px (origin r)) (width (rsize r)) \<and> whole k (py (origin r)) (height (rsize r))"
  by (simp add: whole_rect_def)

lemma intersection_points:
  assumes "whole_rect k r1" "whole_rect k r2"
  shows "CGRectContainsPoint (CGRectIntersection r1 r2) p
      \<longleftrightarrow> CGRectContainsPoint r1 p \<and> CGRectContainsPoint r2 p"
proof -
  note x1 = conjunct1 [OF whole_rect_axes [OF assms(1)]] and x2 = conjunct1 [OF whole_rect_axes [OF assms(2)]]
    and y1 = conjunct2 [OF whole_rect_axes [OF assms(1)]] and y2 = conjunct2 [OF whole_rect_axes [OF assms(2)]]
  note nans = whole_nan [OF x1] whole_nan [OF x2] whole_nan [OF y1] whole_nan [OF y2]
  let ?x = "f64_max (px (origin r1)) (px (origin r2))"
  let ?y = "f64_max (py (origin r1)) (py (origin r2))"
  let ?x2 = "f64_min (f64_add (px (origin r1)) (width (rsize r1))) (f64_add (px (origin r2)) (width (rsize r2)))"
  let ?y2 = "f64_min (f64_add (py (origin r1)) (height (rsize r1))) (f64_add (py (origin r2)) (height (rsize r2)))"
  have both: "CGRectContainsPoint r1 p \<and> CGRectContainsPoint r2 p \<longleftrightarrow>
      f64_le ?x (px p) \<and> f64_lt (px p) ?x2 \<and> f64_le ?y (py p) \<and> f64_lt (py p) ?y2"
    using nans by (auto simp: CGRectContainsPoint_def f64_max_le f64_lt_min)
  show ?thesis
  proof (cases "f64_lt ?x ?x2 \<and> f64_lt ?y ?y2")
    case True
    then show ?thesis
      unfolding both using nans
      by (simp add: CGRectIntersection_def CGRectContainsPoint_def Let_def cut_end [OF x1 x2]
          cut_end [OF y1 y2] f64_lt_min)
  next
    case False
    then have "CGRectIntersection r1 r2 = CGRectZero" unfolding CGRectIntersection_def Let_def by (rule if_not_P)
    with False both zero_rect_contains show ?thesis by (auto intro: f64_le_lt_trans)
  qed
qed

lemma union_points:
  assumes "whole_rect k r1" "whole_rect k r2" "CGRectContainsPoint r1 p \<or> CGRectContainsPoint r2 p"
  shows "CGRectContainsPoint (CGRectUnion r1 r2) p"
proof -
  note x1 = conjunct1 [OF whole_rect_axes [OF assms(1)]] and x2 = conjunct1 [OF whole_rect_axes [OF assms(2)]]
    and y1 = conjunct2 [OF whole_rect_axes [OF assms(1)]] and y2 = conjunct2 [OF whole_rect_axes [OF assms(2)]]
  show ?thesis
    using assms(3) whole_nan [OF x1] whole_nan [OF x2] whole_nan [OF y1] whole_nan [OF y2]
    by (auto simp: CGRectUnion_def CGRectContainsPoint_def Let_def join_end [OF x1 x2]
        join_end [OF y1 y2] f64_min_le)
qed

text \<open>
  On rectangles whose coordinates and sizes are multiples of a common power of two with
  at most 48 significant bits (whole or half pixels, for instance), CGRectIntersection
  contains exactly the points that both rectangles contain, also when they do not overlap or
  a size is negative, and CGRectUnion contains every point of either rectangle. The general
  binary64 case loses this, because the width is rounded.
\<close>

theorem rect_algebra:
  assumes "whole_rect k r1" "whole_rect k r2"
  shows "(CGRectContainsPoint (CGRectIntersection r1 r2) p
        \<longleftrightarrow> CGRectContainsPoint r1 p \<and> CGRectContainsPoint r2 p)
    \<and> (CGRectContainsPoint r1 p \<or> CGRectContainsPoint r2 p
        \<longrightarrow> CGRectContainsPoint (CGRectUnion r1 r2) p)"
  using intersection_points [OF assms] union_points [OF assms] by blast

theorem rect_algebra_witness:
  "whole_rect 1074 (CGRectMake 0 0 f64_two f64_two)
    \<and> (CGRectContainsPoint (CGRectIntersection (CGRectMake 0 0 f64_two f64_two)
          (CGRectMake f64_one f64_one f64_two f64_two)) (CGPointMake f64_one f64_one)
        \<longleftrightarrow> CGRectContainsPoint (CGRectMake 0 0 f64_two f64_two) (CGPointMake f64_one f64_one)
          \<and> CGRectContainsPoint (CGRectMake f64_one f64_one f64_two f64_two) (CGPointMake f64_one f64_one))"
proof -
  have one: "f64_val f64_one = 1 * 2 ^ 1074" "is_finite f64_one"
    and two: "f64_val f64_two = 2 * 2 ^ 1074" "is_finite f64_two"
    by (simp_all add: f64_one_def f64_two_def f64_val_def f64_neg_def bit_63 f64_abs_def f64_mag_def
        is_finite_def f64_inf_def)
  have g: "on_grid 1074 (2 ^ 48) 0" "on_grid 1074 (2 ^ 48) f64_one" "on_grid 1074 (2 ^ 48) f64_two"
    unfolding on_grid_def by (rule conjI, simp, rule exI [of _ 0], simp)
      (rule conjI, rule one, rule exI [of _ 1], simp only: one, simp,
       rule conjI, rule two, rule exI [of _ 2], simp only: two, simp)
  then have "whole_rect 1074 (CGRectMake 0 0 f64_two f64_two)"
    and "whole_rect 1074 (CGRectMake f64_one f64_one f64_two f64_two)"
    by (simp_all add: whole_rect_def whole_def CGRectMake_def)
  with rect_algebra [of 1074 "CGRectMake 0 0 f64_two f64_two" "CGRectMake f64_one f64_one f64_two f64_two"
      "CGPointMake f64_one f64_one"]
  show ?thesis by blast
qed

end
