(* ===== verification/Executor.thy ===== *)
theory Executor
  imports Syscall MachO
begin

text \<open>
  \<open>crates/grafted-loader/src/executor.rs\<close>, system calls: how a thread's system calls are
  trapped (syscall user dispatch with a selector byte and a trampoline per thread), translated
  and forwarded, and how the thread gets back to the instruction after the call. The host
  kernel, the \<open>/dev/grafted\<close> driver and \<open>mmap\<close> are parameters. The logging of the handlers is
  left out.
\<close>

section \<open>State\<close>

datatype greg = RAX | RBX | RCX | RDX | RSI | RDI | RBP | RSP | R8 | R9 | R10 | R11 | R12 | R13 | R14 | R15 | RIP

definition SYSCALL_DISPATCH_FILTER_ALLOW :: u8 where "SYSCALL_DISPATCH_FILTER_ALLOW = 0"
definition SYSCALL_DISPATCH_FILTER_BLOCK :: u8 where "SYSCALL_DISPATCH_FILTER_BLOCK = 1"
definition SYS_USER_DISPATCH :: i32 where "SYS_USER_DISPATCH = 2"

lemmas filter_defs = SYSCALL_DISPATCH_FILTER_ALLOW_def SYSCALL_DISPATCH_FILTER_BLOCK_def

text \<open>
  The globals and thread locals; threads are numbers. \<open>sud\<close> is what \<open>prctl\<close> was last asked
  for, by thread: offset, length and selector address.
\<close>

record exec_state =
  selector_page_ptr :: ptr
  selector_next :: nat
  thread_selector :: "nat \<Rightarrow> ptr"
  thread_trampoline :: "nat \<Rightarrow> u64"
  stack_base_addr :: u64
  darwin_text_base :: u64
  sud :: "nat \<Rightarrow> (u64 \<times> u64 \<times> ptr) option"
  grafted_fd :: i32
  emem :: mem

definition exec_init :: "mem \<Rightarrow> exec_state" where
  "exec_init m = \<lparr>selector_page_ptr = 0, selector_next = 0, thread_selector = (\<lambda>_. 0),
     thread_trampoline = (\<lambda>_. 0), stack_base_addr = 0, darwin_text_base = 0, sud = Map.empty, grafted_fd = - 1, emem = m\<rparr>"

section \<open>Selectors\<close>

text \<open>
  \<open>mm\<close> is the address of the new page (\<open>None\<close> when \<open>mmap\<close> fails), \<open>other\<close> the page another
  thread has published between the load and the compare-exchange (0 when none has).
\<close>

definition selector_page :: "ptr option \<Rightarrow> ptr \<Rightarrow> exec_state \<Rightarrow> (ptr \<times> exec_state) option" where
  "selector_page mm other st =
     (if selector_page_ptr st \<noteq> 0 then Some (selector_page_ptr st, st)
      else (case mm of
              None \<Rightarrow> None
            | Some new_ptr \<Rightarrow>
                if other = 0 then Some (new_ptr, st\<lparr>selector_page_ptr := new_ptr\<rparr>)
                else Some (other, st\<lparr>selector_page_ptr := other\<rparr>)))"

definition alloc_thread_selector ::
    "ptr option \<Rightarrow> ptr \<Rightarrow> nat \<Rightarrow> exec_state \<Rightarrow> (ptr \<times> exec_state) option" where
  "alloc_thread_selector mm other tid st =
     Option.bind (selector_page mm other st) (\<lambda>(page, st1).
       let offset = selector_next st1; st2 = st1\<lparr>selector_next := offset + 1\<rparr> in
       if \<not> offset < 4096 then None
       else let p = page + of_nat offset in
         Some (p, st2\<lparr>emem := (emem st2)(p := SYSCALL_DISPATCH_FILTER_ALLOW),
                      thread_selector := (thread_selector st2)(tid := p)\<rparr>))"

definition selector_ptr :: "ptr option \<Rightarrow> ptr \<Rightarrow> nat \<Rightarrow> exec_state \<Rightarrow> (ptr \<times> exec_state) option" where
  "selector_ptr mm other tid st =
     (if thread_selector st tid \<noteq> 0 then Some (thread_selector st tid, st)
      else alloc_thread_selector mm other tid st)"

definition grafted_selector_allow :: "ptr option \<Rightarrow> ptr \<Rightarrow> nat \<Rightarrow> exec_state \<Rightarrow> exec_state option" where
  "grafted_selector_allow mm other tid st =
     map_option (\<lambda>(p, st1). st1\<lparr>emem := (emem st1)(p := SYSCALL_DISPATCH_FILTER_ALLOW)\<rparr>)
       (selector_ptr mm other tid st)"

definition set_darwin_text_base :: "u64 \<Rightarrow> exec_state \<Rightarrow> exec_state" where
  "set_darwin_text_base addr st = st\<lparr>darwin_text_base := addr\<rparr>"

section \<open>Trampolines and dispatch\<close>

definition trampoline_code :: "ptr \<Rightarrow> u8 list" where
  "trampoline_code sel =
     [0x49, 0xBB] @ le_bytes64 sel @ [0x41, 0xC6, 0x03, SYSCALL_DISPATCH_FILTER_BLOCK, 0xC3]"

definition alloc_trampoline_for ::
    "ptr option \<Rightarrow> ptr \<Rightarrow> exec_state \<Rightarrow> (loader_error, u64 \<times> exec_state) outcome" where
  "alloc_trampoline_for mm sel st =
     (case mm of
        None \<Rightarrow> Err (Mmap ''trampoline alloc'')
      | Some page \<Rightarrow> Ok (page, st\<lparr>emem := store_bytes (emem st) page (trampoline_code sel)\<rparr>))"

definition sud_range :: "u64 \<Rightarrow> u64 \<times> u64" where
  "sud_range text_base =
     (if text_base > 0 \<and> text_base < 0x100000000 then (0, 0) else (0x1000, 0xFFFFF000))"

definition setup_thread_sud :: "ptr option \<Rightarrow> nat \<Rightarrow> ptr \<Rightarrow> exec_state \<Rightarrow> exec_state option" where
  "setup_thread_sud mm tid sel st =
     (case alloc_trampoline_for mm sel st of
        Ok (tramp, st1) \<Rightarrow>
          (case sud_range (darwin_text_base st1) of
             (off, len) \<Rightarrow>
               Some (st1\<lparr>thread_selector := (thread_selector st1)(tid := sel),
                         thread_trampoline := (thread_trampoline st1)(tid := tramp),
                         sud := (sud st1)(tid \<mapsto> (off, len, sel)),
                         emem := (emem st1)(sel := SYSCALL_DISPATCH_FILTER_BLOCK)\<rparr>))
      | _ \<Rightarrow> None)"

text \<open>\<open>prctl_ok\<close> tells whether the kernel accepts the request.\<close>

definition enable_sud ::
    "bool \<Rightarrow> ptr option \<Rightarrow> ptr \<Rightarrow> nat \<Rightarrow> exec_state \<Rightarrow> (loader_error, exec_state) outcome" where
  "enable_sud prctl_ok mm other tid st =
     (case selector_ptr mm other tid st of
        None \<Rightarrow> Panic
      | Some (sel, st1) \<Rightarrow>
          (case sud_range (darwin_text_base st1) of
             (off, len) \<Rightarrow>
               if \<not> prctl_ok then Err (Mmap ''prctl(PR_SET_SYSCALL_USER_DISPATCH) failed'')
               else Ok (st1\<lparr>sud := (sud st1)(tid \<mapsto> (off, len, sel))\<rparr>)))"

section \<open>System calls\<close>

record 'k host =
  linux_syscall :: "u64 \<Rightarrow> u64 list \<Rightarrow> mem \<times> 'k \<Rightarrow> i64 \<times> mem \<times> 'k"
  libc_mprotect :: "u64 \<Rightarrow> u64 \<Rightarrow> i32 \<Rightarrow> mem \<times> 'k \<Rightarrow> i32 \<times> mem \<times> 'k"
  grafted_mach_trap :: "i32 \<Rightarrow> u32 \<Rightarrow> u64 list \<Rightarrow> mem \<times> 'k \<Rightarrow> i64 option \<times> mem \<times> 'k"
  write_stderr :: "string \<Rightarrow> mem \<times> 'k \<Rightarrow> mem \<times> 'k"

text \<open>A call either comes back with a result or is the exit of the process.\<close>

datatype 'w sys_result = Returns i64 'w | Exits u64

definition mmap_flags :: "i32 \<Rightarrow> i32" where
  "mmap_flags df =
     (let lf = df AND 0x1F;
          lf = (if df AND 0x1000 \<noteq> 0 then lf OR 0x20 else lf)
      in (if df AND 0x0040 \<noteq> 0 then lf OR 0x4000 else lf))"

definition open_flags :: "i32 \<Rightarrow> i32" where
  "open_flags df =
     (let lf = df AND 0x3;
          lf = (if df AND 0x0008 \<noteq> 0 then lf OR 0x0400 else lf);
          lf = (if df AND 0x0004 \<noteq> 0 then lf OR 0x0800 else lf);
          lf = (if df AND 0x0200 \<noteq> 0 then lf OR 0x0040 else lf);
          lf = (if df AND 0x0400 \<noteq> 0 then lf OR 0x0200 else lf)
      in (if df AND 0x0800 \<noteq> 0 then lf OR 0x0080 else lf))"

text \<open>\<open>Inl\<close>: the call is answered without the kernel; \<open>Inr\<close>: the arguments to pass on.\<close>

definition translate_args :: "u32 \<Rightarrow> u64 list \<Rightarrow> i64 + u64 list" where
  "translate_args nr a =
     (if nr = 197 \<or> nr = 199 then
        let lf = mmap_flags (ucast (a ! 3)) in
        if a ! 2 = 0 \<and> lf AND 0x30 = 0x30
        then Inl (if a ! 0 \<noteq> 0 then a ! 0 else 0x7FFF0000)
        else Inr (a[3 := scast lf])
      else if nr = 74 then (if a ! 2 = 0 then Inl 0 else Inr a)
      else if nr = 5 then Inr (a[1 := scast (open_flags (ucast (a ! 1)))])
      else Inr a)"

definition process_mach_trap ::
    "'k host \<Rightarrow> u32 \<Rightarrow> u64 list \<Rightarrow> i32 \<Rightarrow> mem \<times> 'k \<Rightarrow> i64 \<times> mem \<times> 'k" where
  "process_mach_trap H nr args fd w =
     (if nr = 26 then (0x307, w)
      else if nr = 27 then (0x203, w)
      else if nr = 28 then (0x103, w)
      else if nr = 14 then
        let prot = (ucast (args ! 4) :: i32) in
        if prot = 0 then (0, w)
        else
          let addr = args ! 1 AND NOT 0xFFF;
              sz = ((args ! 1 + args ! 2 + 0xFFF) AND NOT 0xFFF) - addr
          in (case libc_mprotect H addr sz prot w of (r, w1) \<Rightarrow> (if r = 0 then 0 else 1, w1))
      else if sint fd < 0 then (- 38, w)
      else (case grafted_mach_trap H fd nr args w of
              (None, w1) \<Rightarrow> (- 38, w1)
            | (Some r, w1) \<Rightarrow> (r, w1)))"

definition process_syscall ::
    "'k host \<Rightarrow> u64 \<Rightarrow> u64 list \<Rightarrow> i32 \<Rightarrow> mem \<times> 'k \<Rightarrow> (mem \<times> 'k) sys_result" where
  "process_syscall H raw_syscall args fd w =
     (case translate raw_syscall of
        Unix d_nr l_nr \<Rightarrow>
          if \<not> 0 \<le> sint l_nr then Returns (- 38) w
          else if l_nr = 60 \<or> l_nr = 231 then Exits (args ! 0)
          else (case translate_args d_nr args of
                  Inl r \<Rightarrow> Returns r w
                | Inr a \<Rightarrow> (case linux_syscall H l_nr a w of (r, w1) \<Rightarrow> Returns r w1))
      | MachTrap nr \<Rightarrow> (case process_mach_trap H nr args fd w of (r, w1) \<Rightarrow> Returns r w1)
      | Unknown raw \<Rightarrow>
          if raw < 500 then (case linux_syscall H raw args w of (r, w1) \<Rightarrow> Returns r w1)
          else Returns (- 38) (write_stderr H (''grafted: unknown syscall class'' @ [CHR 0x0A]) w))"

section \<open>The SIGSYS handler\<close>

type_synonym gregs = "greg \<Rightarrow> u64"

definition syscall_args :: "gregs \<Rightarrow> u64 list" where
  "syscall_args g = [g RDI, g RSI, g RDX, g R10, g R8, g R9]"

text \<open>\<open>Inl\<close>: the process exits with this status.\<close>

definition sigsys_handler ::
    "'k host \<Rightarrow> nat \<Rightarrow> i32 \<Rightarrow> gregs \<Rightarrow> exec_state \<times> 'k \<Rightarrow> u64 + gregs \<times> exec_state \<times> 'k" where
  "sigsys_handler H tid si_code g s =
     (case s of (st, k) \<Rightarrow>
       let sel = thread_selector st tid in
       if sel = 0 then Inr (g, st, k)
       else
         let m1 = (emem st)(sel := SYSCALL_DISPATCH_FILTER_ALLOW) in
         if si_code \<noteq> SYS_USER_DISPATCH
         then Inr (g, st\<lparr>emem := m1(sel := SYSCALL_DISPATCH_FILTER_BLOCK)\<rparr>, k)
         else
           (case process_syscall H (g RAX) (syscall_args g) (grafted_fd st) (m1, k) of
              Exits c \<Rightarrow> Inl c
            | Returns r (m2, k2) \<Rightarrow>
                let new_rsp = g RSP - 8 in
                Inr (g(RAX := r, RSP := new_rsp, RIP := thread_trampoline st tid),
                     st\<lparr>emem := store64 m2 new_rsp (g RIP)\<rparr>, k2)))"

section \<open>The trampoline runs\<close>

text \<open>
  The three instructions a trampoline is made of, decoded from memory: \<open>movabs r11, imm64\<close>,
  \<open>mov byte ptr [r11], imm8\<close> and \<open>ret\<close>.
\<close>

definition cpu_step :: "gregs \<times> mem \<Rightarrow> (gregs \<times> mem) option" where
  "cpu_step c =
     (case c of (g, m) \<Rightarrow>
       let pc = g RIP in
       if m pc = 0x49 \<and> m (pc + 1) = 0xBB
         then Some (g(R11 := load64 m (pc + 2), RIP := pc + 10), m)
       else if m pc = 0x41 \<and> m (pc + 1) = 0xC6 \<and> m (pc + 2) = 0x03
         then Some (g(RIP := pc + 4), m(g R11 := m (pc + 3)))
       else if m pc = 0xC3
         then Some (g(RIP := load64 m (g RSP), RSP := g RSP + 8), m)
       else None)"

fun cpu_steps :: "nat \<Rightarrow> gregs \<times> mem \<Rightarrow> (gregs \<times> mem) option" where
  "cpu_steps 0 c = Some c"
| "cpu_steps (Suc n) c = Option.bind (cpu_step c) (cpu_steps n)"

lemma load_bytes_sub:
  "d + n \<le> k \<Longrightarrow> load_bytes m (a + of_nat d) n = take n (drop d (load_bytes m a k))"
  by (intro nth_equalityI) (auto simp: load_bytes_def add.assoc)

lemma load_bytes_nth: "d < k \<Longrightarrow> m (a + of_nat d) = load_bytes m a k ! d"
  by (simp add: load_bytes_def)

lemma length_trampoline_code [simp]: "length (trampoline_code sel) = 15"
  by (simp add: trampoline_code_def)

lemma trampoline_at:
  assumes "load_bytes m T 15 = trampoline_code sel"
  shows "m T = 0x49" "m (T + 1) = 0xBB" "load64 m (T + 2) = sel" "m (T + 10) = 0x41" "m (T + 11) = 0xC6"
    "m (T + 12) = 0x03" "m (T + 13) = SYSCALL_DISPATCH_FILTER_BLOCK" "m (T + 14) = 0xC3"
proof -
  note byte = load_bytes_nth [of _ 15 m T, unfolded assms]
  show "m T = 0x49" using byte [of 0] by (simp add: trampoline_code_def)
  show "m (T + 1) = 0xBB" using byte [of 1] by (simp add: trampoline_code_def)
  show "m (T + 10) = 0x41" using byte [of 10] by (simp add: trampoline_code_def nth_append)
  show "m (T + 11) = 0xC6" using byte [of 11] by (simp add: trampoline_code_def nth_append)
  show "m (T + 12) = 0x03" using byte [of 12] by (simp add: trampoline_code_def nth_append)
  show "m (T + 13) = SYSCALL_DISPATCH_FILTER_BLOCK"
    using byte [of 13] by (simp add: trampoline_code_def nth_append)
  show "m (T + 14) = 0xC3" using byte [of 14] by (simp add: trampoline_code_def nth_append)
  have "load_bytes m (T + 2) 8 = le_bytes64 sel"
    using load_bytes_sub [of 2 8 15 m T] by (simp add: assms trampoline_code_def)
  then show "load64 m (T + 2) = sel" by (simp add: load64_def)
qed

text \<open>Once it has set the selector, the code of a trampoline is still there to return.\<close>

lemma trampoline_runs:
  assumes code: "load_bytes m T 15 = trampoline_code sel"
    and sel: "apart T 15 sel 1" "apart (g RSP) 8 sel 1"
  shows "cpu_steps 3 (g(RIP := T), m)
    = Some (g(R11 := sel, RIP := load64 m (g RSP), RSP := g RSP + 8), m(sel := SYSCALL_DISPATCH_FILTER_BLOCK))"
proof -
  let ?m = "m(sel := SYSCALL_DISPATCH_FILTER_BLOCK)"
  have ne: "T + of_nat i \<noteq> sel" if "i < 15" for i
    using sel(1) that by (auto simp: apart_def)
  have rest: "load64 ?m (g RSP) = load64 m (g RSP)"
  proof -
    have "g RSP + of_nat i \<noteq> sel" if "i < 8" for i using sel(2) that by (auto simp: apart_def)
    then have "load_bytes ?m (g RSP) 8 = load_bytes m (g RSP) 8" by (auto simp: load_bytes_def)
    then show ?thesis by (simp add: load64_def)
  qed
  note at = trampoline_at [OF code]
  have s1: "cpu_step (g(RIP := T), m) = Some (g(R11 := sel, RIP := T + 10), m)"
    using at by (simp add: cpu_step_def fun_upd_twist)
  have s2: "cpu_step (g(R11 := sel, RIP := T + 10), m) = Some (g(R11 := sel, RIP := T + 14), ?m)"
    using at by (simp add: cpu_step_def Let_def add.assoc)
  have "?m (T + 14) = 0xC3" using at ne [of 14] by simp
  then have s3: "cpu_step (g(R11 := sel, RIP := T + 14), ?m)
      = Some (g(R11 := sel, RIP := load64 m (g RSP), RSP := g RSP + 8), ?m)"
    using rest by (simp add: cpu_step_def Let_def fun_upd_twist)
  show ?thesis by (simp add: numeral_3_eq_3 s1 s2 s3)
qed

section \<open>A trapped system call\<close>

text \<open>
  C25. A trapped system call looks like a call to the program: when the kernel's answer leaves
  the thread's trampoline in place, the SIGSYS handler followed by the three instructions of
  the trampoline continues at the instruction after the call with the result in \<open>rax\<close>, the
  stack pointer and every other register as before (\<open>r11\<close> apart, which a system call may
  change), and the thread's selector blocking again. In memory, beside what the call itself
  wrote, exactly the eight bytes below the stack pointer have changed; they belong to the
  red zone that a leaf function may be using.
\<close>

theorem syscall_resumes:
  assumes sel: "thread_selector st tid = sel" "sel \<noteq> 0" and T: "thread_trampoline st tid = T"
    and call: "process_syscall H (g RAX) (syscall_args g) (grafted_fd st)
        ((emem st)(sel := SYSCALL_DISPATCH_FILTER_ALLOW), k) = Returns r (m2, k2)"
    and code: "load_bytes m2 T 15 = trampoline_code sel"
    and ap: "apart T 15 sel 1" "apart (g RSP - 8) 8 sel 1" "apart T 15 (g RSP - 8) 8"
  shows "\<exists>g' st'. sigsys_handler H tid SYS_USER_DISPATCH g (st, k) = Inr (g', st', k2)
    \<and> cpu_steps 3 (g', emem st')
      = Some (g(RAX := r, R11 := sel),
          (store64 m2 (g RSP - 8) (g RIP))(sel := SYSCALL_DISPATCH_FILTER_BLOCK))"
proof -
  define m3 where "m3 = store64 m2 (g RSP - 8) (g RIP)"
  define g1 where "g1 = g(RAX := r, RSP := g RSP - 8)"
  have "load_bytes m3 T 15 = trampoline_code sel"
    unfolding m3_def store64_def using ap(3) code by (simp add: load_store_apart)
  then have "cpu_steps 3 (g1(RIP := T), m3)
      = Some (g1(R11 := sel, RIP := load64 m3 (g1 RSP), RSP := g1 RSP + 8), m3(sel := SYSCALL_DISPATCH_FILTER_BLOCK))"
    by (rule trampoline_runs) (use ap in \<open>simp_all add: g1_def\<close>)
  moreover have "g1(R11 := sel, RIP := load64 m3 (g1 RSP), RSP := g1 RSP + 8) = g(RAX := r, R11 := sel)"
    by (rule ext) (simp add: g1_def m3_def)
  moreover have "sigsys_handler H tid SYS_USER_DISPATCH g (st, k) = Inr (g1(RIP := T), st\<lparr>emem := m3\<rparr>, k2)"
    using sel T call by (simp add: sigsys_handler_def Let_def g1_def m3_def)
  ultimately show ?thesis
    by (intro exI [of _ "g1(RIP := T)"] exI [of _ "st\<lparr>emem := m3\<rparr>"]) (simp add: m3_def)
qed

text \<open>A kernel for which every call succeeds with 7 and writes nothing.\<close>

definition quiet_host :: "unit host" where
  "quiet_host = \<lparr>linux_syscall = \<lambda>nr a w. (7, w), libc_mprotect = \<lambda>a n p w. (0, w),
     grafted_mach_trap = \<lambda>fd nr a w. (None, w), write_stderr = \<lambda>s w. w\<rparr>"

definition demo_thread :: exec_state where
  "demo_thread = (exec_init (store_bytes (\<lambda>_. 0) 0x9000 (trampoline_code 0x4000)))
     \<lparr>thread_selector := (\<lambda>_. 0x4000), thread_trampoline := (\<lambda>_. 0x9000)\<rparr>"

definition demo_regs :: gregs where
  "demo_regs = (\<lambda>_. 0)(RAX := 0x2000014, RSP := 0x7000, RIP := 0x100001000)"

theorem syscall_resumes_witness:
  "\<exists>g' st'. sigsys_handler quiet_host 0 SYS_USER_DISPATCH demo_regs (demo_thread, ()) = Inr (g', st', ())
    \<and> map_option fst (cpu_steps 3 (g', emem st')) = Some (demo_regs(RAX := 7, R11 := 0x4000))"
proof -
  let ?m = "(emem demo_thread)(0x4000 := SYSCALL_DISPATCH_FILTER_ALLOW)"
  have call: "process_syscall quiet_host (demo_regs RAX) (syscall_args demo_regs) (grafted_fd demo_thread) (?m, ())
      = Returns 7 (?m, ())"
    by (simp add: process_syscall_def demo_regs_def translate_def Let_def syscall_consts
        darwin_unix_to_linux_def translate_args_def quiet_host_def)
  have ap: "apart 0x9000 15 0x4000 1" "apart (demo_regs RSP - 8) 8 0x4000 1" "apart 0x9000 15 (demo_regs RSP - 8) 8"
    by (rule apartI_below, simp_all add: demo_regs_def)+
  have code: "load_bytes ?m 0x9000 15 = trampoline_code 0x4000"
  proof -
    have "load_bytes ?m 0x9000 15 = load_bytes (emem demo_thread) 0x9000 15"
      using ap(1) by (auto simp: load_bytes_def apart_def)
    then show ?thesis by (simp add: demo_thread_def exec_init_def load_store_same)
  qed
  have th: "thread_selector demo_thread 0 = 0x4000" "thread_trampoline demo_thread 0 = 0x9000" "(0x4000 :: ptr) \<noteq> 0"
    by (simp_all add: demo_thread_def)
  from syscall_resumes [where H = quiet_host and k = "()", OF th(1) th(3) th(2) call code ap]
  show ?thesis by auto
qed

section \<open>Flags\<close>

lemma flag_set: "k = 2 ^ n \<Longrightarrow> (df AND k \<noteq> 0) = bit (df :: i32) n"
  by (simp add: and_exp_eq_0_iff_not_bit)

lemma bit_or_flag:
  "k = 2 ^ n \<Longrightarrow> n < 32 \<Longrightarrow> bit (if c then x OR k else x :: i32) i \<longleftrightarrow> bit x i \<or> (c \<and> i = n)"
  by (auto simp: bit_or_iff bit_exp_iff)

lemma or_flags:
  "bit (if c then x OR 0x20 else x :: i32) i \<longleftrightarrow> bit x i \<or> (c \<and> i = 5)"
  "bit (if c then x OR 0x40 else x :: i32) i \<longleftrightarrow> bit x i \<or> (c \<and> i = 6)"
  "bit (if c then x OR 0x80 else x :: i32) i \<longleftrightarrow> bit x i \<or> (c \<and> i = 7)"
  "bit (if c then x OR 0x200 else x :: i32) i \<longleftrightarrow> bit x i \<or> (c \<and> i = 9)"
  "bit (if c then x OR 0x400 else x :: i32) i \<longleftrightarrow> bit x i \<or> (c \<and> i = 10)"
  "bit (if c then x OR 0x800 else x :: i32) i \<longleftrightarrow> bit x i \<or> (c \<and> i = 11)"
  "bit (if c then x OR 0x4000 else x :: i32) i \<longleftrightarrow> bit x i \<or> (c \<and> i = 14)"
  by (rule bit_or_flag, simp, simp)+

lemma test_flags:
  "(df AND 4 \<noteq> 0) = bit (df :: i32) 2"
  "(df AND 8 \<noteq> 0) = bit (df :: i32) 3"
  "(df AND 0x40 \<noteq> 0) = bit (df :: i32) 6"
  "(df AND 0x200 \<noteq> 0) = bit (df :: i32) 9"
  "(df AND 0x400 \<noteq> 0) = bit (df :: i32) 10"
  "(df AND 0x800 \<noteq> 0) = bit (df :: i32) 11"
  "(df AND 0x1000 \<noteq> 0) = bit (df :: i32) 12"
  by (rule flag_set, simp)+

lemma bit_open_flags:
  "bit (open_flags df) i \<longleftrightarrow> (i < 2 \<and> bit df i) \<or> (i = 10 \<and> bit df 3) \<or> (i = 11 \<and> bit df 2)
    \<or> (i = 6 \<and> bit df 9) \<or> (i = 9 \<and> bit df 10) \<or> (i = 7 \<and> bit df 11)"
proof -
  have m: "(3 :: i32) = mask 2" by (simp add: mask_eq_exp_minus_1)
  have "bit (df AND 3) i \<longleftrightarrow> i < 2 \<and> bit df i" unfolding m bit_and_iff bit_mask_iff by auto
  then show ?thesis unfolding open_flags_def Let_def or_flags test_flags by blast
qed

lemma bit_mmap_flags:
  "bit (mmap_flags df) i \<longleftrightarrow> (i < 5 \<and> bit df i) \<or> (i = 5 \<and> bit df 12) \<or> (i = 14 \<and> bit df 6)"
proof -
  have m: "(0x1F :: i32) = mask 5" by (simp add: mask_eq_exp_minus_1)
  have "bit (df AND 0x1F) i \<longleftrightarrow> i < 5 \<and> bit df i" unfolding m bit_and_iff bit_mask_iff by auto
  then show ?thesis unfolding mmap_flags_def Let_def or_flags test_flags by blast
qed

text \<open>
  The flags of \<open>open\<close> and \<open>mmap\<close> reach the host kernel under its own bit numbers: a BSD
  \<open>open\<close> calls Linux's with the access mode kept and append, non-blocking, create, truncate and
  exclusive moved to their Linux bits, and no other bit set; a BSD \<open>mmap\<close> that is not a guard
  page keeps the sharing type and MAP_FIXED, and moves MAP_ANON (and 0x40) likewise. All
  other arguments are passed as they are.
\<close>

theorem flags_translated:
  "(process_syscall H 0x2000005 [a0, a1, a2, a3, a4, a5] fd w
      = (case linux_syscall H 2 [a0, scast fo, a2, a3, a4, a5] w of (r, w') \<Rightarrow> Returns r w')
    \<and> (bit fo i \<longleftrightarrow> (i < 2 \<and> bit a1 i) \<or> (i = 10 \<and> bit a1 3) \<or> (i = 11 \<and> bit a1 2)
        \<or> (i = 6 \<and> bit a1 9) \<or> (i = 9 \<and> bit a1 10) \<or> (i = 7 \<and> bit a1 11)))
   \<and> (a2 \<noteq> 0 \<longrightarrow>
      process_syscall H 0x20000C5 [a0, a1, a2, a3, a4, a5] fd w
        = (case linux_syscall H 9 [a0, a1, a2, scast fm, a4, a5] w of (r, w') \<Rightarrow> Returns r w')
    \<and> (bit fm i \<longleftrightarrow> (i < 5 \<and> bit a3 i) \<or> (i = 5 \<and> bit a3 12) \<or> (i = 14 \<and> bit a3 6)))"
  if "fo = open_flags (ucast a1)" and "fm = mmap_flags (ucast a3)"
proof -
  have bits: "bit (ucast (a :: u64) :: i32) n \<longleftrightarrow> n < 32 \<and> bit a n" for a n
    by (auto simp: bit_simps)
  have "translate 0x2000005 = Unix 5 2" "translate 0x20000C5 = Unix 197 9"
    by (simp_all add: translate_def Let_def syscall_consts darwin_unix_to_linux_def)
  then show ?thesis
    by (auto simp: process_syscall_def translate_args_def that bit_open_flags bit_mmap_flags bits Let_def)
qed

theorem flags_translated_witness:
  "process_syscall quiet_host 0x2000005 [0x1000, 0x601, 0x1B4, 0, 0, 0] (- 1) ((\<lambda>_. 0), ())
    = Returns 7 ((\<lambda>_. 0), ())
   \<and> bit (open_flags 0x601) 6 \<and> bit (open_flags 0x601) 9"
  using flags_translated [of "open_flags (ucast (0x601 :: u64))" "0x601" "mmap_flags (ucast (0 :: u64))" 0
      quiet_host "0x1000" "0x1B4" 0 0 "- 1" "((\<lambda>_. 0), ())" 6]
    flags_translated [of "open_flags (ucast (0x601 :: u64))" "0x601" "mmap_flags (ucast (0 :: u64))" 0
      quiet_host "0x1000" "0x1B4" 0 0 "- 1" "((\<lambda>_. 0), ())" 9]
  by (simp add: quiet_host_def bit_numeral_rec)

section \<open>Selectors of different threads\<close>

definition selectors_inv :: "ptr \<Rightarrow> nat list \<Rightarrow> exec_state \<Rightarrow> bool" where
  "selectors_inv page ord st =
     (selector_next st = length ord \<and> distinct ord
      \<and> selector_page_ptr st = (if ord = [] then 0 else page)
      \<and> (\<forall>i < length ord. thread_selector st (ord ! i) = page + of_nat i)
      \<and> (\<forall>t. t \<notin> set ord \<longrightarrow> thread_selector st t = 0))"

lemma slot_nonzero: "(page :: ptr) \<noteq> 0 \<Longrightarrow> unat page + 4096 \<le> 2 ^ 64 \<Longrightarrow> i < 4096 \<Longrightarrow> unat (page + of_nat i) = unat page + i"
  by (simp add: unat_word_ariths unat_of_nat_u64)

lemma selectors_next:
  assumes inv: "selectors_inv page ord st" and page: "page \<noteq> 0" "unat page + 4096 \<le> 2 ^ 64"
    and room: "length ord \<le> 4096" "t \<in> set ord \<or> length ord < 4096"
  shows "\<exists>p st'. selector_ptr (Some page) 0 t st = Some (p, st')
    \<and> selectors_inv page (if t \<in> set ord then ord else ord @ [t]) st'"
proof (cases "t \<in> set ord")
  case True
  then obtain i where "i < length ord" "ord ! i = t" by (auto simp: in_set_conv_nth)
  with inv have "thread_selector st t = page + of_nat i" by (auto simp: selectors_inv_def)
  moreover have "unat (page + of_nat i) \<noteq> 0"
    using slot_nonzero [OF page, of i] \<open>i < length ord\<close> room page by (simp add: unat_eq_zero)
  ultimately have "thread_selector st t \<noteq> 0" by auto
  with True inv show ?thesis by (simp add: selector_ptr_def)
next
  case False
  define p where "p = page + of_nat (length ord)"
  define st1 where "st1 = st\<lparr>selector_page_ptr := page\<rparr>"
  define st2 where "st2 = st1\<lparr>selector_next := Suc (length ord),
    emem := (emem st)(p := SYSCALL_DISPATCH_FILTER_ALLOW), thread_selector := (thread_selector st)(t := p)\<rparr>"
  have pg: "selector_page (Some page) 0 st = Some (page, st1)"
    using inv page by (auto simp: selector_page_def selectors_inv_def st1_def)
  have nx: "selector_next st1 = length ord" "thread_selector st t = 0"
    using inv False by (simp_all add: st1_def selectors_inv_def)
  have "selector_ptr (Some page) 0 t st = Some (p, st2)"
    using room False nx pg
    by (simp add: selector_ptr_def alloc_thread_selector_def Let_def p_def st2_def st1_def)
  moreover have "selectors_inv page (ord @ [t]) st2"
    using inv False by (auto simp: selectors_inv_def st2_def st1_def p_def nth_append less_Suc_eq)
  ultimately show ?thesis using False by auto
qed

fun selectors :: "ptr \<Rightarrow> nat list \<Rightarrow> exec_state \<Rightarrow> exec_state option" where
  "selectors page [] st = Some st"
| "selectors page (t # ts) st =
    Option.bind (selector_ptr (Some page) 0 t st) (\<lambda>(p, st1). selectors page ts st1)"

lemma selectors_run:
  assumes page: "page \<noteq> 0" "unat page + 4096 \<le> 2 ^ 64"
  shows "selectors_inv page ord st \<Longrightarrow> card (set ord \<union> set ts) \<le> 4096 \<Longrightarrow>
    \<exists>st' ord'. selectors page ts st = Some st' \<and> selectors_inv page ord' st' \<and> set ord' = set ord \<union> set ts"
proof (induction ts arbitrary: ord st)
  case Nil
  then show ?case by auto
next
  case (Cons t ts)
  have len: "length ord = card (set ord)"
    using Cons.prems(1) by (simp add: selectors_inv_def distinct_card)
  have "length ord \<le> 4096" using Cons.prems(2) len card_mono [of "set ord \<union> set (t # ts)" "set ord"] by (simp del: set_simps)
  moreover have "t \<in> set ord \<or> length ord < 4096"
  proof (rule disjCI)
    assume "\<not> length ord < 4096"
    then have "card (set ord \<union> set (t # ts)) \<le> card (set ord)" using Cons.prems(2) len by simp
    then have "set ord = set ord \<union> set (t # ts)" by (intro card_seteq) auto
    then show "t \<in> set ord" by auto
  qed
  ultimately obtain p st1 where s1: "selector_ptr (Some page) 0 t st = Some (p, st1)"
    and i1: "selectors_inv page (if t \<in> set ord then ord else ord @ [t]) st1"
    using selectors_next [OF Cons.prems(1) page] by blast
  have "set (if t \<in> set ord then ord else ord @ [t]) \<union> set ts = set ord \<union> set (t # ts)" by auto
  with Cons.IH [OF i1] Cons.prems(2) s1 show ?case by auto
qed

text \<open>
  Threads do not share a selector: when any sequence of threads (at most 4096 different
  ones) asks for its selector, starting from nothing, every call succeeds, each thread has one
  byte of the shared page, and different threads have different bytes; a thread that asks
  again keeps its own.
\<close>

theorem selectors_distinct:
  assumes "page \<noteq> 0" "unat page + 4096 \<le> 2 ^ 64" and "card (set ts) \<le> 4096"
  shows "\<exists>st. selectors page ts (exec_init m) = Some st
    \<and> inj_on (thread_selector st) (set ts)
    \<and> (\<forall>t \<in> set ts. unat page \<le> unat (thread_selector st t) \<and> unat (thread_selector st t) < unat page + 4096)"
proof -
  have "selectors_inv page [] (exec_init m)" by (simp add: selectors_inv_def exec_init_def)
  from selectors_run [OF assms(1,2) this, of ts] assms(3) obtain st ord
    where run: "selectors page ts (exec_init m) = Some st" and inv: "selectors_inv page ord st"
      and ord: "set ord = set ts" by auto
  have len: "length ord \<le> 4096"
    using inv assms(3) ord by (metis selectors_inv_def distinct_card)
  have at: "thread_selector st (ord ! i) = page + of_nat i" if "i < length ord" for i
    using inv that by (simp add: selectors_inv_def)
  have num: "unat (thread_selector st (ord ! i)) = unat page + i" if "i < length ord" for i
    using at [OF that] slot_nonzero [OF assms(1,2), of i] that len by simp
  have "inj_on (thread_selector st) (set ord)"
    by (rule inj_onI) (metis in_set_conv_nth num add_left_cancel)
  moreover have "\<forall>t \<in> set ord. unat page \<le> unat (thread_selector st t) \<and> unat (thread_selector st t) < unat page + 4096"
    using num len by (auto simp: in_set_conv_nth)
  ultimately show ?thesis using run ord by auto
qed

theorem selectors_distinct_witness:
  "\<exists>st. selectors 0x5000 [1, 2, 1] (exec_init (\<lambda>_. 0)) = Some st \<and> inj_on (thread_selector st) {1, 2}"
  using selectors_distinct [of "0x5000" "[1, 2, 1]" "\<lambda>_. 0"] by (auto simp: insert_commute)

end
