(* ===== verification/DarwinStack.thy ===== *)
theory DarwinStack
  imports Executor
begin

text \<open>
  \<open>crates/grafted-loader/src/executor.rs\<close>, process entry: the stack a Darwin program starts
  with (\<open>build_stack\<close>) and the registers \<open>execute\<close> gives it. A \<open>String\<close> is the list of its
  UTF-8 bytes, as characters; the environment of the host is a parameter. The lemmas show
  that the strings and the pointer block lie where the program looks for them.
\<close>

section \<open>Building the stack\<close>

definition STACK_SIZE :: nat where
  "STACK_SIZE = 8 * 1024 * 1024"

definition alloc_stack :: "ptr option \<Rightarrow> (loader_error, u64 \<times> u64) outcome" where
  "alloc_stack mm =
     (case mm of
        None \<Rightarrow> Err (Mmap ''stack alloc'')
      | Some base \<Rightarrow> Ok (base, (base + of_nat STACK_SIZE) AND NOT 0xF))"

definition push_string :: "string \<Rightarrow> u64 \<times> mem \<Rightarrow> u64 \<times> mem" where
  "push_string s c =
     (case c of (sp, m) \<Rightarrow>
       let bytes = bytes_of_text s;
           sp1 = (sp - of_nat (length bytes + 1)) AND NOT 0x7
       in (sp1, store_bytes m sp1 (bytes @ [0])))"

fun push_strings :: "string list \<Rightarrow> u64 \<times> mem \<Rightarrow> u64 list \<times> u64 \<times> mem" where
  "push_strings [] c = ([], c)"
| "push_strings (s # ss) c =
    (let c1 = push_string s c in
     case push_strings ss c1 of (ps, c2) \<Rightarrow> (fst c1 # ps, c2))"

definition push_u64 :: "u64 \<Rightarrow> u64 \<times> mem \<Rightarrow> u64 \<times> mem" where
  "push_u64 v c = (case c of (sp, m) \<Rightarrow> (sp - 8, store64 m (sp - 8) v))"

definition push_block :: "u64 list \<Rightarrow> u64 \<times> mem \<Rightarrow> u64 \<times> mem" where
  "push_block ps c = fold push_u64 (rev ps) (push_u64 0 c)"

definition env_strings :: "(string \<times> string) list \<Rightarrow> string list" where
  "env_strings vars = map (\<lambda>(k, v). k @ ''='' @ v) vars"

definition apple_strings :: "string \<Rightarrow> string list" where
  "apple_strings binary_path = [''executable_path='' @ binary_path]"

definition build_stack ::
    "u64 \<Rightarrow> string list \<Rightarrow> (string \<times> string) list \<Rightarrow> string \<Rightarrow> mem \<Rightarrow> u64 \<times> mem" where
  "build_stack stack_top argv vars binary_path m =
     (let envp = env_strings vars; apple = apple_strings binary_path in
      case push_strings apple (stack_top, m) of (apple_ptrs, c1) \<Rightarrow>
      case push_strings envp c1 of (envp_ptrs, c2) \<Rightarrow>
      case push_strings argv c2 of (argv_ptrs, (sp, m3)) \<Rightarrow>
        let sp = sp AND NOT 0xF;
            total_entries = 1 + (length argv + 1) + (length envp + 1) + (length apple + 1);
            sp = (if total_entries mod 2 \<noteq> 0 then sp - 8 else sp)
        in push_u64 (of_nat (length argv))
             (push_block argv_ptrs (push_block envp_ptrs (push_block apple_ptrs (sp, m3)))))"

section \<open>Entering the program\<close>

definition cleared :: "gregs \<Rightarrow> gregs" where
  "cleared g = g(RBP := 0, RBX := 0, R12 := 0, R13 := 0, R14 := 0, R15 := 0)"

text \<open>LC_MAIN: the return address is the exit stub at \<open>exit_addr\<close>.\<close>

definition enter_main :: "ptr \<Rightarrow> u64 \<Rightarrow> u64 \<Rightarrow> u64 \<Rightarrow> gregs \<Rightarrow> mem \<Rightarrow> gregs \<times> mem" where
  "enter_main sel exit_addr entry stack_ptr g m =
     (let final_stack = stack_ptr - 8;
          m1 = (store64 m final_stack exit_addr)(sel := SYSCALL_DISPATCH_FILTER_BLOCK);
          rdi = load64 m1 (final_stack + 8);
          rdx = final_stack + 16 + rdi * 8 + 8
      in ((cleared g)(R10 := sel, R11 := final_stack, RAX := entry, RSP := final_stack, RDI := rdi,
            RSI := final_stack + 16, RDX := rdx, RCX := rdx, RIP := entry), m1))"

text \<open>LC_UNIXTHREAD: no return address.\<close>

definition enter_unixthread :: "ptr \<Rightarrow> u64 \<Rightarrow> u64 \<Rightarrow> gregs \<Rightarrow> mem \<Rightarrow> gregs \<times> mem" where
  "enter_unixthread sel entry stack_ptr g m =
     (let m1 = m(sel := SYSCALL_DISPATCH_FILTER_BLOCK)
      in ((cleared g)(R10 := sel, R11 := stack_ptr, RAX := entry, RSP := stack_ptr,
            RDI := load64 m1 stack_ptr, RSI := stack_ptr + 8, RIP := entry), m1))"

definition exit_stub :: "u8 list" where
  "exit_stub = [0x89, 0xC7, 0xB8, 0xE7, 0x00, 0x00, 0x00, 0x0F, 0x05, 0xCC, 0xCC, 0xCC]"

text \<open>
  What the host answers while a program is started: the addresses of the new mappings, the
  descriptor of \<open>/dev/grafted\<close>, and whether \<open>sigaction\<close> and \<open>prctl\<close> succeed.
\<close>

record start_host =
  mm_stack :: "ptr option"
  mm_selectors :: "ptr option"
  mm_trampoline :: "ptr option"
  mm_exit :: ptr
  dev_fd :: i32
  sigaction_ok :: bool
  prctl_ok :: bool
  host_vars :: "(string \<times> string) list"

text \<open>
  The registers and the state at the first instruction of the program; \<open>None\<close>: a panic. The
  page of the thread pointer and the registration with the driver concern the kernel only.
\<close>

definition execute ::
    "start_host \<Rightarrow> u64 \<Rightarrow> string list \<Rightarrow> string \<Rightarrow> bool \<Rightarrow> gregs \<Rightarrow> exec_state \<Rightarrow> (gregs \<times> exec_state) option" where
  "execute H entry argv binary_path is_lc_main g st =
     (case alloc_stack (mm_stack H) of
        Ok (stack_base, stack_top) \<Rightarrow>
          Option.bind (selector_ptr (mm_selectors H) 0 0 (st\<lparr>stack_base_addr := stack_base\<rparr>)) (\<lambda>(sel, st1).
          (case alloc_trampoline_for (mm_trampoline H) sel st1 of
             Ok (tramp, st2) \<Rightarrow>
               (case build_stack stack_top argv (host_vars H) binary_path (emem st2) of
                  (stack_ptr, m1) \<Rightarrow>
                    let st3 = st2\<lparr>thread_trampoline := (thread_trampoline st2)(0 := tramp), emem := m1,
                                grafted_fd := (if 0 \<le> sint (dev_fd H) then dev_fd H else grafted_fd st2)\<rparr>
                    in if \<not> sigaction_ok H then None
                       else (case enable_sud (prctl_ok H) (mm_selectors H) 0 0 st3 of
                               Ok st4 \<Rightarrow>
                                 let (g1, m2) =
                                   (if is_lc_main
                                    then enter_main sel (mm_exit H) entry stack_ptr g
                                           (store_bytes (emem st4) (mm_exit H) exit_stub)
                                    else enter_unixthread sel entry stack_ptr g (emem st4))
                                 in Some (g1, st4\<lparr>emem := m2\<rparr>)
                             | _ \<Rightarrow> None))
           | _ \<Rightarrow> None))
      | _ \<Rightarrow> None)"

section \<open>Patching the Go runtime\<close>

text \<open>\<open>lea rsi, [rdi - 0x30]; mov edi, 0x1001; mov eax, 158; syscall; ret\<close>\<close>

definition settls_code :: "u8 list" where
  "settls_code =
     [0x48, 0x8D, 0x77, 0xD0, 0xBF, 0x01, 0x10, 0x00, 0x00, 0xB8, 0x9E, 0x00, 0x00, 0x00, 0x0F, 0x05, 0xC3]"

definition settls_addr :: "goblin_macho \<Rightarrow> u64 option" where
  "settls_addr macho =
     map_option snd (List.find
       (\<lambda>(name, n_value). (name = ''_runtime.settls.abi0'' \<or> name = ''_runtime.settls'') \<and> n_value \<noteq> 0)
       (List.map_filter id (gm_symbols macho)))"

definition patch_go_settls :: "(u8 list \<Rightarrow> string + goblin_macho) \<Rightarrow> macho_binary \<Rightarrow> mem \<Rightarrow> mem" where
  "patch_go_settls gp binary m =
     (case gp (bin_data binary) of
        Inl e \<Rightarrow> m
      | Inr macho \<Rightarrow>
          (case settls_addr macho of
             None \<Rightarrow> m
           | Some addr \<Rightarrow> store_bytes m addr settls_code))"

section \<open>Stores below an address\<close>

text \<open>\<open>same_above a b m m'\<close>: only the addresses from \<open>a\<close> up to \<open>b\<close> have changed.\<close>

definition only_within :: "u64 \<Rightarrow> u64 \<Rightarrow> mem \<Rightarrow> mem \<Rightarrow> bool" where
  "only_within a b m m' = (\<forall>x. m' x \<noteq> m x \<longrightarrow> unat a \<le> unat x \<and> unat x < unat b)"

lemma only_within_refl [simp]: "only_within a b m m"
  by (simp add: only_within_def)

lemma only_within_trans:
  "only_within a b m m' \<Longrightarrow> only_within c a m' m'' \<Longrightarrow> unat c \<le> unat a \<Longrightarrow> unat a \<le> unat b \<Longrightarrow> only_within c b m m''"
  unfolding only_within_def by (metis le_trans less_le_trans)

lemma only_within_wider:
  "only_within a b m m' \<Longrightarrow> unat a' \<le> unat a \<Longrightarrow> unat b \<le> unat b' \<Longrightarrow> only_within a' b' m m'"
  unfolding only_within_def by (metis le_trans less_le_trans)

lemma unat_add_of_nat: "unat (a :: u64) + i < 2 ^ 64 \<Longrightarrow> unat (a + of_nat i) = unat a + i"
  by (simp add: unat_word_ariths unat_of_nat_u64)

lemma unat_sub_of_nat: "i \<le> unat (a :: u64) \<Longrightarrow> unat (a - of_nat i) = unat a - i"
proof -
  assume i: "i \<le> unat a"
  then have "i < 2 ^ 64" using unat_u64_lt [of a] by simp
  then have u: "unat (of_nat i :: u64) = i" by (rule unat_of_nat_u64)
  then have "of_nat i \<le> a" using i by (simp add: word_le_nat_alt)
  then show ?thesis using u by (simp add: unat_sub)
qed

lemma store_only_within:
  assumes "unat a + length bs \<le> unat b"
  shows "only_within a b m (store_bytes m a bs)"
  unfolding only_within_def store_bytes_def
proof (intro allI impI)
  fix x assume "(if unat (x - a) < length bs then bs ! unat (x - a) else m x) \<noteq> m x"
  then have lt: "unat (x - a) < length bs" by (auto split: if_splits)
  have bnd: "unat a + unat (x - a) < 2 ^ 64" using lt assms unat_u64_lt [of b] by simp
  have "x = a + of_nat (unat (x - a))" by simp
  then have "unat x = unat a + unat (x - a)" using unat_add_of_nat [OF bnd] by metis
  with lt assms show "unat a \<le> unat x \<and> unat x < unat b" by simp
qed

lemma load_outside:
  assumes "only_within a b m m'" "unat p + n \<le> unat a \<or> (unat b \<le> unat p \<and> unat p + n \<le> 2 ^ 64)"
  shows "load_bytes m' p n = load_bytes m p n"
proof -
  have "m' (p + of_nat i) = m (p + of_nat i)" if "i < n" for i
  proof -
    have "unat p + i < 2 ^ 64" using assms(2) that unat_u64_lt [of a] by auto
    then have "unat (p + of_nat i) = unat p + i" by (rule unat_add_of_nat)
    with assms that show ?thesis by (auto simp: only_within_def)
  qed
  then show ?thesis by (simp add: load_bytes_def)
qed

section \<open>Strings\<close>

lemma unat_align: "unat (a AND NOT (mask n) :: u64) = unat a - unat a mod 2 ^ n"
proof -
  have "(a AND NOT (mask n)) + (a AND mask n) = (a AND NOT (mask n)) OR (a AND mask n)"
    by (rule disjunctive_add_eq_or) (rule bit_word_eqI, auto simp: bit_simps)
  also have "\<dots> = a" by (rule bit_word_eqI) (auto simp: bit_simps)
  finally have split: "a AND NOT (mask n) = a - (a AND mask n)" by (simp add: algebra_simps)
  have "unat (a AND mask n) = take_bit n (unat a)"
    by (simp only: take_bit_eq_mask [symmetric] unsigned_take_bit_eq)
  then have "unat (a AND mask n) = unat a mod 2 ^ n" by (simp only: take_bit_eq_mod)
  moreover have "a AND mask n \<le> a" by (rule word_and_le2)
  ultimately show ?thesis by (simp add: split unat_sub)
qed

lemma unat_align8: "unat (a AND NOT 7 :: u64) = unat a - unat a mod 8"
  using unat_align [of a 3] by (simp add: mask_eq_exp_minus_1)

lemma unat_align16: "unat (a AND NOT 15 :: u64) = unat a - unat a mod 16"
  using unat_align [of a 4] by (simp add: mask_eq_exp_minus_1)

definition text_at :: "mem \<Rightarrow> u64 \<Rightarrow> string \<Rightarrow> bool" where
  "text_at m p s = (load_bytes m p (length s + 1) = bytes_of_text s @ [0])"

lemma push_string_layout:
  assumes "length s + 8 \<le> unat sp" and "push_string s (sp, m) = (sp1, m1)"
  shows "unat sp1 + length s + 1 \<le> unat sp \<and> unat sp \<le> unat sp1 + length s + 8
    \<and> text_at m1 sp1 s \<and> only_within sp1 sp m m1"
proof -
  have sp1: "sp1 = (sp - of_nat (length s + 1)) AND NOT 7"
    and m1: "m1 = store_bytes m sp1 (bytes_of_text s @ [0])"
    using assms(2) by (auto simp: push_string_def Let_def)
  have "unat (sp - of_nat (length s + 1)) = unat sp - (length s + 1)"
    using assms(1) by (intro unat_sub_of_nat) simp
  then have u: "unat sp1 = (unat sp - (length s + 1)) - (unat sp - (length s + 1)) mod 8"
    unfolding sp1 unat_align8 by simp
  have lo: "unat sp1 + length s + 1 \<le> unat sp" unfolding u using assms(1) by simp
  have "(unat sp - (length s + 1)) mod 8 \<le> 7"
    using mod_less_divisor [of 8 "unat sp - (length s + 1)"] by linarith
  then have hi: "unat sp \<le> unat sp1 + length s + 8" unfolding u using assms(1) by linarith
  have "length s + 1 < 2 ^ 64" using assms(1) unat_u64_lt [of sp] by simp
  then have "text_at m1 sp1 s" by (simp add: text_at_def m1 load_store_same)
  moreover have "only_within sp1 sp m m1"
    unfolding m1 by (rule store_only_within) (use lo in simp)
  ultimately show ?thesis using lo hi by simp
qed

lemma text_at_frame:
  "text_at m p s \<Longrightarrow> only_within a b m m' \<Longrightarrow> unat b \<le> unat p \<Longrightarrow> unat p + length s + 1 \<le> 2 ^ 64 \<Longrightarrow> text_at m' p s"
  using load_outside [of a b m m' p "length s + 1"] by (simp add: text_at_def)

text \<open>Room for strings: their bytes, the final NUL and up to seven bytes of alignment.\<close>

definition string_room :: "string list \<Rightarrow> nat" where
  "string_room ss = sum_list (map (\<lambda>s. length s + 8) ss)"

lemma string_room_simps [simp]:
  "string_room [] = 0" "string_room (s # ss) = length s + 8 + string_room ss"
  by (simp_all add: string_room_def)

definition texts_at :: "mem \<Rightarrow> u64 \<Rightarrow> u64 \<Rightarrow> u64 list \<Rightarrow> string list \<Rightarrow> bool" where
  "texts_at m lo hi ps ss =
     list_all2 (\<lambda>p s. unat lo \<le> unat p \<and> unat p + length s + 1 \<le> unat hi \<and> text_at m p s) ps ss"

lemma texts_at_frame:
  "texts_at m lo hi ps ss \<Longrightarrow> only_within a b m m' \<Longrightarrow> unat b \<le> unat lo \<Longrightarrow> unat lo' \<le> unat lo \<Longrightarrow>
    unat hi \<le> unat hi' \<Longrightarrow> texts_at m' lo' hi' ps ss"
  unfolding texts_at_def
proof (erule list_all2_mono)
  fix p s
  assume f: "only_within a b m m'" "unat b \<le> unat lo" "unat lo' \<le> unat lo" "unat hi \<le> unat hi'"
    and h: "unat lo \<le> unat p \<and> unat p + length s + 1 \<le> unat hi \<and> text_at m p s"
  have "unat p + length s + 1 \<le> 2 ^ 64" using h unat_u64_lt [of hi] by linarith
  then have "text_at m' p s" using h f by (intro text_at_frame [of m p s a b m']) linarith+
  then show "unat lo' \<le> unat p \<and> unat p + length s + 1 \<le> unat hi' \<and> text_at m' p s"
    using h f by linarith
qed

lemma push_strings_layout:
  "string_room ss \<le> unat sp \<Longrightarrow> push_strings ss (sp, m) = (ps, sp', m') \<Longrightarrow>
    texts_at m' sp' sp ps ss \<and> unat sp' \<le> unat sp \<and> unat sp \<le> unat sp' + string_room ss
    \<and> only_within sp' sp m m'"
proof (induction ss arbitrary: sp m ps)
  case Nil
  then show ?case by (simp add: texts_at_def)
next
  case (Cons s ss)
  obtain sp1 m1 where one: "push_string s (sp, m) = (sp1, m1)" by (cases "push_string s (sp, m)")
  obtain qs where rest: "push_strings ss (sp1, m1) = (qs, sp', m')" and ps: "ps = sp1 # qs"
    using Cons.prems(2) one by (auto simp: Let_def split: prod.splits)
  have l1: "unat sp1 + length s + 1 \<le> unat sp" "unat sp \<le> unat sp1 + length s + 8" "text_at m1 sp1 s"
      "only_within sp1 sp m m1"
    using push_string_layout [OF _ one] Cons.prems(1) by simp_all
  have l2: "texts_at m' sp' sp1 qs ss" "unat sp' \<le> unat sp1" "unat sp1 \<le> unat sp' + string_room ss"
      "only_within sp' sp1 m1 m'"
    using Cons.IH [OF _ rest] Cons.prems(1) l1(2) by simp_all
  have "unat sp1 + length s + 1 \<le> 2 ^ 64" using l1(1) unat_u64_lt [of sp] by linarith
  then have "text_at m' sp1 s" using text_at_frame [OF l1(3) l2(4)] by simp
  moreover have "texts_at m' sp' sp qs ss"
    by (rule texts_at_frame [OF l2(1), of 0 0]) (use l1 in auto)
  moreover have "only_within sp' sp m m'"
    by (rule only_within_trans [OF l1(4) l2(4)]) (use l1 l2 in simp_all)
  ultimately show ?case using l1 l2 by (simp add: ps texts_at_def)
qed

section \<open>The pointer block\<close>

definition words_at :: "mem \<Rightarrow> u64 \<Rightarrow> u64 list \<Rightarrow> bool" where
  "words_at m a ws = (\<forall>j < length ws. load64 m (a + of_nat (8 * j)) = ws ! j)"

lemma load64_outside:
  "only_within a b m m' \<Longrightarrow> unat p + 8 \<le> unat a \<or> (unat b \<le> unat p \<and> unat p + 8 \<le> 2 ^ 64) \<Longrightarrow>
    load64 m' p = load64 m p"
  using load_outside [of a b m m' p 8] by (simp add: load64_def)

lemma push_word:
  assumes "words_at m sp ws" "8 \<le> unat sp" "unat sp + 8 * length ws \<le> 2 ^ 64"
    and "push_u64 v (sp, m) = (sp', m')"
  shows "words_at m' sp' (v # ws) \<and> unat sp' = unat sp - 8 \<and> only_within sp' sp m m'"
proof -
  have sp': "sp' = sp - 8" and m': "m' = store64 m sp' v" using assms(4) by (auto simp: push_u64_def)
  have u: "unat sp' = unat sp - 8" unfolding sp' using unat_sub_of_nat [of 8 sp] assms(2) by simp
  have only: "only_within sp' sp m m'"
    unfolding m' store64_def by (rule store_only_within) (use u assms(2) in simp)
  have "load64 m' (sp' + of_nat (8 * j)) = (v # ws) ! j" if "j < length (v # ws)" for j
  proof (cases j)
    case 0
    then show ?thesis by (simp add: m')
  next
    case (Suc i)
    have a: "sp' + of_nat (8 * j) = sp + of_nat (8 * i)" by (simp add: sp' Suc algebra_simps)
    have "unat (sp + of_nat (8 * i)) = unat sp + 8 * i"
      using assms(3) that Suc by (intro unat_add_of_nat) simp
    then have "load64 m' (sp + of_nat (8 * i)) = load64 m (sp + of_nat (8 * i))"
      using assms(3) that Suc by (intro load64_outside [OF only]) simp
    also have "\<dots> = ws ! i" using assms(1) that Suc by (simp add: words_at_def)
    finally have "load64 m' (sp' + of_nat (8 * j)) = ws ! i" unfolding a .
    then show ?thesis by (simp only: Suc nth_Cons_Suc)
  qed
  with u only show ?thesis by (simp add: words_at_def)
qed

lemma push_words:
  "words_at m sp ws \<Longrightarrow> 8 * length vs \<le> unat sp \<Longrightarrow> unat sp + 8 * length ws \<le> 2 ^ 64 \<Longrightarrow>
    fold push_u64 vs (sp, m) = (sp', m') \<Longrightarrow>
    words_at m' sp' (rev vs @ ws) \<and> unat sp' = unat sp - 8 * length vs \<and> only_within sp' sp m m'"
proof (induction vs arbitrary: sp m ws)
  case (Cons v vs)
  obtain sp1 m1 where one: "push_u64 v (sp, m) = (sp1, m1)" by (cases "push_u64 v (sp, m)")
  have p: "words_at m1 sp1 (v # ws)" "unat sp1 = unat sp - 8" "only_within sp1 sp m m1"
    using push_word [OF Cons.prems(1) _ Cons.prems(3) one] Cons.prems(2) by simp_all
  have q: "words_at m' sp' (rev vs @ v # ws)" "unat sp' = unat sp1 - 8 * length vs" "only_within sp' sp1 m1 m'"
    using Cons.IH [OF p(1)] Cons.prems p(2) one by simp_all
  have "only_within sp' sp m m'"
    by (rule only_within_trans [OF p(3) q(3)]) (use p q in simp_all)
  with p q show ?case by simp
qed simp

lemma push_block_words:
  assumes "words_at m sp ws" "8 * (length ps + 1) \<le> unat sp" "unat sp + 8 * length ws \<le> 2 ^ 64"
    and "push_block ps (sp, m) = (sp', m')"
  shows "words_at m' sp' (ps @ 0 # ws) \<and> unat sp' = unat sp - 8 * (length ps + 1) \<and> only_within sp' sp m m'"
  using push_words [OF assms(1), of "0 # rev ps" sp' m'] assms(2-4) by (simp add: push_block_def)

section \<open>The whole stack\<close>

definition entries :: "string list \<Rightarrow> string list \<Rightarrow> string list \<Rightarrow> nat" where
  "entries argv envp apple = 1 + (length argv + 1) + (length envp + 1) + (length apple + 1)"

text \<open>Room for everything: strings, pointers, and up to 24 bytes of alignment.\<close>

definition stack_room :: "string list \<Rightarrow> string list \<Rightarrow> string list \<Rightarrow> nat" where
  "stack_room argv envp apple =
     string_room apple + string_room envp + string_room argv + 8 * entries argv envp apple + 24"

definition pointers :: "u64 list \<Rightarrow> u64 list \<Rightarrow> u64 list \<Rightarrow> u64 list" where
  "pointers argp envpp applep = argp @ 0 # envpp @ 0 # applep @ [0]"

lemma texts_length: "texts_at m lo hi ps ss \<Longrightarrow> length ps = length ss"
  by (simp add: texts_at_def list_all2_lengthD)

lemma pointer_block:
  fixes sp :: u64
  assumes room: "8 * (length argp + length envpp + length applep + 4) \<le> unat sp"
    and blk: "push_u64 argc (push_block argp (push_block envpp (push_block applep (sp, m)))) = (sp', m')"
  shows "words_at m' sp' (argc # pointers argp envpp applep)
    \<and> unat sp' = unat sp - 8 * (length argp + length envpp + length applep + 4) \<and> only_within sp' sp m m'"
proof -
  obtain s1 m1 where b1: "push_block applep (sp, m) = (s1, m1)" by (cases "push_block applep (sp, m)")
  obtain s2 m2 where b2: "push_block envpp (s1, m1) = (s2, m2)" by (cases "push_block envpp (s1, m1)")
  obtain s3 m3 where b3: "push_block argp (s2, m2) = (s3, m3)" by (cases "push_block argp (s2, m2)")
  have b4: "push_u64 argc (s3, m3) = (sp', m')" using blk by (simp add: b1 b2 b3)
  have top: "unat sp \<le> 2 ^ 64" using unat_u64_lt [of sp] by simp
  have l1: "words_at m1 s1 (applep @ [0])" "unat s1 = unat sp - 8 * (length applep + 1)" "only_within s1 sp m m1"
    using push_block_words [OF _ _ _ b1, of "[]"] room top by (simp_all add: words_at_def)
  have l2: "words_at m2 s2 (envpp @ 0 # applep @ [0])" "unat s2 = unat s1 - 8 * (length envpp + 1)"
      "only_within s2 s1 m1 m2"
    using push_block_words [OF l1(1) _ _ b2] l1(2) room top by simp_all
  have l3: "words_at m3 s3 (pointers argp envpp applep)" "unat s3 = unat s2 - 8 * (length argp + 1)"
      "only_within s3 s2 m2 m3"
    using push_block_words [OF l2(1) _ _ b3] l1(2) l2(2) room top by (simp_all add: pointers_def)
  have l4: "words_at m' sp' (argc # pointers argp envpp applep)" "unat sp' = unat s3 - 8" "only_within sp' s3 m3 m'"
    using push_word [OF l3(1) _ _ b4] l1(2) l2(2) l3(2) room top by (simp_all add: pointers_def)
  have "only_within s2 sp m m2" by (rule only_within_trans [OF l1(3) l2(3)]) (use l1(2) l2(2) in simp_all)
  then have "only_within s3 sp m m3" by (rule only_within_trans [OF _ l3(3)]) (use l1(2) l2(2) l3(2) in simp_all)
  then have "only_within sp' sp m m'"
    by (rule only_within_trans [OF _ l4(3)]) (use l1(2) l2(2) l3(2) l4(2) in simp_all)
  with l1(2) l2(2) l3(2) l4 show ?thesis by simp
qed

lemma aligned_start:
  fixes sp :: u64
  assumes "24 \<le> unat sp" and "sp1 = sp AND NOT 15" and "sp2 = (if n mod 2 \<noteq> 0 then sp1 - 8 else sp1)"
  shows "unat sp2 \<le> unat sp \<and> unat sp \<le> unat sp2 + 24 \<and> (unat sp2 + 8 * n) mod 16 = 0"
proof -
  have u1: "unat sp1 = unat sp - unat sp mod 16" unfolding assms(2) by (rule unat_align16)
  have r: "unat sp mod 16 < 16" by simp
  have d: "unat sp1 mod 16 = 0" unfolding u1 by (simp add: minus_mod_eq_mult_div)
  have u2: "unat (sp1 - 8) = unat sp1 - 8"
    using unat_sub_of_nat [of 8 sp1] u1 r assms(1) by simp
  show ?thesis
  proof (cases "n mod 2 = 0")
    case True
    then obtain k where "n = 2 * k" by (auto elim: evenE)
    then have "(unat sp1 + 8 * n) mod 16 = 0" using d by presburger
    with True u1 r assms(3) show ?thesis by simp
  next
    case False
    then obtain k where k: "n = Suc (2 * k)" by (metis mod2_eq_if mult.commute oddE Suc_eq_plus1 even_iff_mod_2_eq_zero)
    have "8 \<le> unat sp1" using u1 r assms(1) by simp
    then have "(unat sp1 - 8 + 8 * n) mod 16 = 0" using d k by presburger
    moreover have "unat sp2 = unat sp1 - 8" using False u2 assms(3) by simp
    moreover have "unat sp1 \<le> unat sp" "unat sp \<le> unat sp1 + 16" using u1 r by linarith+
    ultimately show ?thesis using \<open>8 \<le> unat sp1\<close> by simp
  qed
qed

lemma build_stack_layout:
  assumes "envp = env_strings vars" "apple = apple_strings path"
    and room: "stack_room argv envp apple \<le> unat tp"
    and built: "build_stack tp argv vars path m = (sp, m')"
  shows "\<exists>argp envpp applep.
      unat sp mod 16 = 0 \<and> unat sp + 8 * entries argv envp apple \<le> unat tp
    \<and> unat tp \<le> unat sp + stack_room argv envp apple
    \<and> words_at m' sp (of_nat (length argv) # pointers argp envpp applep)
    \<and> texts_at m' sp tp argp argv \<and> texts_at m' sp tp envpp envp \<and> texts_at m' sp tp applep apple
    \<and> only_within sp tp m m'"
proof -
  obtain applep s1 m1 where p1: "push_strings apple (tp, m) = (applep, s1, m1)"
    by (cases "push_strings apple (tp, m)")
  obtain envpp s2 m2 where p2: "push_strings envp (s1, m1) = (envpp, s2, m2)"
    by (cases "push_strings envp (s1, m1)")
  obtain argp s3 m3 where p3: "push_strings argv (s2, m2) = (argp, s3, m3)"
    by (cases "push_strings argv (s2, m2)")
  define s4 where "s4 = (if entries argv envp apple mod 2 \<noteq> 0 then (s3 AND NOT 15) - 8 else s3 AND NOT 15)"
  have blk: "push_u64 (of_nat (length argv)) (push_block argp (push_block envpp (push_block applep (s4, m3)))) = (sp, m')"
    using built unfolding build_stack_def Let_def assms(1,2) [symmetric] p1 p2 p3 prod.case s4_def entries_def by simp
  note rm = room [unfolded stack_room_def]
  have k1: "string_room apple \<le> unat tp" using rm by linarith
  have l1: "texts_at m1 s1 tp applep apple" "unat s1 \<le> unat tp" "unat tp \<le> unat s1 + string_room apple"
      "only_within s1 tp m m1"
    using push_strings_layout [OF k1 p1] by blast+
  have k2: "string_room envp \<le> unat s1" using rm l1(3) by linarith
  have l2: "texts_at m2 s2 s1 envpp envp" "unat s2 \<le> unat s1" "unat s1 \<le> unat s2 + string_room envp"
      "only_within s2 s1 m1 m2"
    using push_strings_layout [OF k2 p2] by blast+
  have k3: "string_room argv \<le> unat s2" using rm l1(3) l2(3) by linarith
  have l3: "texts_at m3 s3 s2 argp argv" "unat s3 \<le> unat s2" "unat s2 \<le> unat s3 + string_room argv"
      "only_within s3 s2 m2 m3"
    using push_strings_layout [OF k3 p3] by blast+
  have k4: "24 \<le> unat s3" using rm l1(3) l2(3) l3(3) by linarith
  have s4: "unat s4 \<le> unat s3" "unat s3 \<le> unat s4 + 24" "(unat s4 + 8 * entries argv envp apple) mod 16 = 0"
    using aligned_start [OF k4 refl s4_def] by blast+
  have len: "length argp = length argv" "length envpp = length envp" "length applep = length apple"
    by (rule texts_length [OF l3(1)], rule texts_length [OF l2(1)], rule texts_length [OF l1(1)])
  have ent: "8 * (length argp + length envpp + length applep + 4) = 8 * entries argv envp apple"
    by (simp add: len entries_def)
  have fits: "8 * entries argv envp apple \<le> unat s4" using rm l1(3) l2(3) l3(3) s4(2) by linarith
  then have k5: "8 * (length argp + length envpp + length applep + 4) \<le> unat s4" unfolding ent .
  have pb: "words_at m' sp (of_nat (length argv) # pointers argp envpp applep)"
      "unat sp = unat s4 - 8 * entries argv envp apple" "only_within sp s4 m3 m'"
    using pointer_block [OF k5 blk] unfolding ent by blast+
  define X where "X = unat s4"
  define n where "n = entries argv envp apple"
  have "(X + 8 * n) mod 16 = 0" "8 * n \<le> X" "unat sp = X - 8 * n"
    using s4(3) fits pb(2) by (simp_all add: X_def n_def)
  then have al: "unat sp mod 16 = 0" by presburger
  have w4: "only_within sp s3 m3 m'"
    by (rule only_within_wider [OF pb(3)]) (use s4 in simp_all)
  have w3: "only_within sp s2 m2 m'"
    by (rule only_within_trans [OF l3(4) w4]) (use l3 s4 pb in simp_all)
  have w2: "only_within sp s1 m1 m'"
    by (rule only_within_trans [OF l2(4) w3]) (use l2 l3 s4 pb in simp_all)
  have w1: "only_within sp tp m m'"
    by (rule only_within_trans [OF l1(4) w2]) (use l1 l2 l3 s4 pb in simp_all)
  have t1: "texts_at m' sp tp applep apple"
    by (rule texts_at_frame [OF l1(1) w2]) (use l2 l3 s4 pb in simp_all)
  have t2: "texts_at m' sp tp envpp envp"
    by (rule texts_at_frame [OF l2(1) w3]) (use l1 l3 s4 pb in simp_all)
  have t3: "texts_at m' sp tp argp argv"
    by (rule texts_at_frame [OF l3(1) w4]) (use l1 l2 s4 pb in simp_all)
  have "unat sp + 8 * entries argv envp apple \<le> unat tp" "unat tp \<le> unat sp + stack_room argv envp apple"
    using l1 l2 l3 s4 pb fits by (simp_all add: stack_room_def)
  then show ?thesis using al pb(1) t1 t2 t3 w1 by (intro exI [of _ argp] exI [of _ envpp] exI [of _ applep]) simp
qed

section \<open>What the program finds\<close>

lemma sub8_mod16: "x mod 16 = 0 \<Longrightarrow> 8 \<le> x \<Longrightarrow> (x - 8) mod 16 = (8 :: nat)"
proof -
  assume m: "x mod 16 = 0" and "8 \<le> x"
  from m obtain k where k: "x = 16 * k" by (auto elim: dvdE simp: mod_eq_0_iff_dvd)
  with \<open>8 \<le> x\<close> obtain j where "k = Suc j" by (cases k) auto
  with k show ?thesis by simp
qed

lemma words_at_drop:
  "words_at m a ws \<Longrightarrow> words_at m (a + of_nat (8 * k)) (drop k ws)"
  by (auto simp: words_at_def add.assoc simp flip: of_nat_add distrib_left)

lemma words_at_take: "words_at m a (vs @ ws) \<Longrightarrow> words_at m a vs"
  by (auto simp: words_at_def nth_append)

text \<open>\<open>same_on lo hi m m'\<close>: nothing from \<open>lo\<close> up to \<open>hi\<close> has changed.\<close>

definition same_on :: "u64 \<Rightarrow> u64 \<Rightarrow> mem \<Rightarrow> mem \<Rightarrow> bool" where
  "same_on lo hi m m' = (\<forall>x. unat lo \<le> unat x \<and> unat x < unat hi \<longrightarrow> m' x = m x)"

lemma load_same:
  assumes "same_on lo hi m m'" "unat lo \<le> unat p" "unat p + n \<le> unat hi"
  shows "load_bytes m' p n = load_bytes m p n"
proof -
  have "m' (p + of_nat i) = m (p + of_nat i)" if "i < n" for i
  proof -
    have "unat (p + of_nat i) = unat p + i"
      using that assms(3) unat_u64_lt [of hi] by (intro unat_add_of_nat) simp
    with assms that show ?thesis by (simp add: same_on_def)
  qed
  then show ?thesis by (simp add: load_bytes_def)
qed

lemma words_at_same:
  assumes "words_at m a ws" "same_on lo hi m m'" "unat lo \<le> unat a" "unat a + 8 * length ws \<le> unat hi"
  shows "words_at m' a ws"
  unfolding words_at_def
proof (intro allI impI)
  fix j assume j: "j < length ws"
  have u: "unat (a + of_nat (8 * j)) = unat a + 8 * j"
    using assms(4) j unat_u64_lt [of hi] by (intro unat_add_of_nat) simp
  have "load_bytes m' (a + of_nat (8 * j)) 8 = load_bytes m (a + of_nat (8 * j)) 8"
    using assms(3,4) j u by (intro load_same [OF assms(2)]) simp_all
  with assms(1) j show "load64 m' (a + of_nat (8 * j)) = ws ! j" by (simp add: words_at_def load64_def)
qed

lemma texts_at_same:
  assumes "texts_at m lo hi ps ss" "same_on lo hi m m'"
  shows "texts_at m' lo hi ps ss"
  using assms(1) unfolding texts_at_def
proof (rule list_all2_mono)
  fix p s assume h: "unat lo \<le> unat p \<and> unat p + length s + 1 \<le> unat hi \<and> text_at m p s"
  then have "load_bytes m' p (length s + 1) = load_bytes m p (length s + 1)"
    by (intro load_same [OF assms(2)]) simp_all
  with h show "unat lo \<le> unat p \<and> unat p + length s + 1 \<le> unat hi \<and> text_at m' p s"
    by (simp add: text_at_def)
qed

text \<open>The arrays a program finds behind its argument count.\<close>

lemma entry_arrays:
  assumes lo: "unat sp + 8 * entries argv envp apple \<le> unat tp"
    and ws: "words_at m sp (of_nat (length argv) # pointers argp envpp applep)"
    and ta: "texts_at m sp tp argp argv" and te: "texts_at m sp tp envpp envp"
    and lp: "length applep = length apple" and same: "same_on sp tp m m'"
  shows "load64 m' sp = of_nat (length argv)
    \<and> (\<exists>argp. words_at m' (sp + 8) (argp @ [0]) \<and> list_all2 (text_at m') argp argv)
    \<and> (\<exists>envpp. words_at m' (sp + 8 + of_nat (length argv) * 8 + 8) (envpp @ [0])
        \<and> list_all2 (text_at m') envpp envp)"
proof -
  have len: "length argp = length argv" "length envpp = length envp"
    by (rule texts_length [OF ta], rule texts_length [OF te])
  have "unat sp + 8 * length (of_nat (length argv) # pointers argp envpp applep) \<le> unat tp"
    using lo len lp by (simp add: pointers_def entries_def)
  then have ws2: "words_at m' sp (of_nat (length argv) # pointers argp envpp applep)"
    by (rule words_at_same [OF ws same order_refl])
  have argc: "load64 m' sp = of_nat (length argv)"
    using ws2 by (auto simp: words_at_def dest: spec [of _ 0])
  have "words_at m' (sp + of_nat (8 * 1)) (drop 1 (of_nat (length argv) # pointers argp envpp applep))"
    by (rule words_at_drop [OF ws2])
  then have a1: "words_at m' (sp + 8) (argp @ [0])"
    by (intro words_at_take [of m' "sp + 8" "argp @ [0]" "envpp @ 0 # applep @ [0]"]) (simp add: pointers_def)
  have "words_at m' (sp + of_nat (8 * (length argp + 2)))
      (drop (length argp + 2) (of_nat (length argv) # pointers argp envpp applep))"
    by (rule words_at_drop [OF ws2])
  moreover have "sp + of_nat (8 * (length argp + 2)) = sp + 8 + of_nat (length argv) * 8 + 8"
    by (simp add: len algebra_simps)
  ultimately have e1: "words_at m' (sp + 8 + of_nat (length argv) * 8 + 8) (envpp @ [0])"
    by (intro words_at_take [of m' "sp + 8 + of_nat (length argv) * 8 + 8" "envpp @ [0]" "applep @ [0]"])
      (simp add: pointers_def ac_simps)
  have "list_all2 (text_at m') argp argv" "list_all2 (text_at m') envpp envp"
    using texts_at_same [OF ta same] texts_at_same [OF te same]
    by (auto simp: texts_at_def elim: list_all2_mono)
  with argc a1 e1 show ?thesis by blast
qed

lemma sub8: "8 \<le> unat (sp :: u64) \<Longrightarrow> unat (sp - 8) = unat sp - 8"
  using unat_sub_of_nat [of 8 sp] by simp

lemma enter_main_regs:
  assumes start: "enter_main sel exit_addr entry sp g m = (g', m')"
    and sp: "8 \<le> unat sp" and sel: "unat sel + 8 < unat sp \<or> unat sp \<le> unat sel"
  shows "g' RIP = entry \<and> g' RSP = sp - 8 \<and> g' RDI = load64 m' sp \<and> g' RSI = sp + 8
    \<and> g' RDX = sp + 8 + load64 m' sp * 8 + 8 \<and> g' RCX = g' RDX
    \<and> load64 m' (sp - 8) = exit_addr \<and> m' sel = SYSCALL_DISPATCH_FILTER_BLOCK
    \<and> (\<forall>x. x \<noteq> sel \<and> (unat x + 8 < unat sp \<or> unat sp \<le> unat x) \<longrightarrow> m' x = m x)"
proof -
  define m1 where "m1 = store64 m (sp - 8) exit_addr"
  have m': "m' = m1(sel := SYSCALL_DISPATCH_FILTER_BLOCK)"
    using start by (auto simp: enter_main_def Let_def m1_def)
  have w: "only_within (sp - 8) sp m m1"
    unfolding m1_def store64_def by (rule store_only_within) (use sub8 [OF sp] sp in simp)
  have "sp - 8 + of_nat i \<noteq> sel" if "i < 8" for i
  proof -
    have "unat (sp - 8 + of_nat i) = unat sp - 8 + i"
      using sub8 [OF sp] that sp unat_u64_lt [of sp] by (simp add: unat_add_of_nat)
    with sel sp that show ?thesis by auto
  qed
  then have "load_bytes m' (sp - 8) 8 = load_bytes m1 (sp - 8) 8"
    by (simp add: load_bytes_def m')
  then have "load64 m' (sp - 8) = load64 m1 (sp - 8)" by (simp add: load64_def)
  then have "load64 m' (sp - 8) = exit_addr" by (simp add: m1_def)
  moreover have "m' x = m x" if "x \<noteq> sel \<and> (unat x + 8 < unat sp \<or> unat sp \<le> unat x)" for x
    using that w sub8 [OF sp] sp by (auto simp: m' only_within_def)
  ultimately show ?thesis
    using start by (auto simp: enter_main_def Let_def m1_def m')
qed

lemma main_entry_full:
  assumes envp: "envp = env_strings vars" and apple: "apple = apple_strings path"
    and room: "stack_room argv envp apple + 8 \<le> unat tp"
    and built: "build_stack tp argv vars path m = (sp, m1)"
    and same: "same_on sp tp m1 m1'"
    and start: "enter_main sel exit_addr entry sp g m1' = (g', m2)"
    and sel: "unat sel + stack_room argv envp apple + 9 \<le> unat tp \<or> unat tp \<le> unat sel"
  shows "g' RIP = entry \<and> unat (g' RSP) mod 16 = 8 \<and> load64 m2 (g' RSP) = exit_addr
    \<and> g' RDI = of_nat (length argv)
    \<and> (\<exists>argp. words_at m2 (g' RSI) (argp @ [0]) \<and> list_all2 (text_at m2) argp argv)
    \<and> (\<exists>envpp. words_at m2 (g' RDX) (envpp @ [0]) \<and> list_all2 (text_at m2) envpp envp)
    \<and> g' RCX = g' RDX \<and> m2 sel = SYSCALL_DISPATCH_FILTER_BLOCK"
    and "g' RSP = sp - 8" and "unat tp \<le> unat sp + stack_room argv envp apple"
    and "\<forall>x. x \<noteq> sel \<and> (unat x + 8 < unat sp \<or> unat sp \<le> unat x) \<longrightarrow> m2 x = m1' x"
proof -
  have fit: "stack_room argv envp apple \<le> unat tp" using room by simp
  obtain argp envpp applep where
      al: "unat sp mod 16 = 0" and lo: "unat sp + 8 * entries argv envp apple \<le> unat tp"
      and hi: "unat tp \<le> unat sp + stack_room argv envp apple"
      and ws: "words_at m1 sp (of_nat (length argv) # pointers argp envpp applep)"
      and ta: "texts_at m1 sp tp argp argv" and te: "texts_at m1 sp tp envpp envp"
      and tp: "texts_at m1 sp tp applep apple"
    using build_stack_layout [OF envp apple fit built] by (elim exE conjE) (rule that)
  have sp8: "8 \<le> unat sp" using room hi by linarith
  have sel': "unat sel + 8 < unat sp \<or> unat sp \<le> unat sel" "unat sel < unat sp \<or> unat tp \<le> unat sel"
    using sel hi lo by linarith+
  have e: "g' RIP = entry" "g' RSP = sp - 8" "g' RDI = load64 m2 sp" "g' RSI = sp + 8"
    "g' RDX = sp + 8 + load64 m2 sp * 8 + 8" "g' RCX = g' RDX" "load64 m2 (sp - 8) = exit_addr"
    "m2 sel = SYSCALL_DISPATCH_FILTER_BLOCK"
    and fr: "\<forall>x. x \<noteq> sel \<and> (unat x + 8 < unat sp \<or> unat sp \<le> unat x) \<longrightarrow> m2 x = m1' x"
    using enter_main_regs [OF start sp8 sel'(1)] by blast+
  have same2: "same_on sp tp m1 m2"
    unfolding same_on_def
  proof (intro allI impI)
    fix x :: u64 assume x: "unat sp \<le> unat x \<and> unat x < unat tp"
    then have "x \<noteq> sel" using sel'(2) by auto
    with x fr have "m2 x = m1' x" by blast
    also have "\<dots> = m1 x" using same x by (simp add: same_on_def)
    finally show "m2 x = m1 x" .
  qed
  have a: "load64 m2 sp = of_nat (length argv)"
    "\<exists>argp. words_at m2 (sp + 8) (argp @ [0]) \<and> list_all2 (text_at m2) argp argv"
    "\<exists>envpp. words_at m2 (sp + 8 + of_nat (length argv) * 8 + 8) (envpp @ [0]) \<and> list_all2 (text_at m2) envpp envp"
    using entry_arrays [OF lo ws ta te texts_length [OF tp] same2] by blast+
  have "unat (g' RSP) mod 16 = 8" unfolding e(2) sub8 [OF sp8] by (rule sub8_mod16 [OF al sp8])
  with e a show "g' RIP = entry \<and> unat (g' RSP) mod 16 = 8 \<and> load64 m2 (g' RSP) = exit_addr
    \<and> g' RDI = of_nat (length argv)
    \<and> (\<exists>argp. words_at m2 (g' RSI) (argp @ [0]) \<and> list_all2 (text_at m2) argp argv)
    \<and> (\<exists>envpp. words_at m2 (g' RDX) (envpp @ [0]) \<and> list_all2 (text_at m2) envpp envp)
    \<and> g' RCX = g' RDX \<and> m2 sel = SYSCALL_DISPATCH_FILTER_BLOCK" by simp
  show "g' RSP = sp - 8" "unat tp \<le> unat sp + stack_room argv envp apple"
    "\<forall>x. x \<noteq> sel \<and> (unat x + 8 < unat sp \<or> unat sp \<le> unat x) \<longrightarrow> m2 x = m1' x"
    by (rule e(2), rule hi, rule fr)
qed

text \<open>
  A program with an LC_MAIN entry finds its arguments: on a stack with room for them,
  \<open>build_stack\<close> and the entry sequence start it at the entry point with a stack pointer that
  is 8 modulo 16 (as after a call) and holds the address of the exit stub; \<open>rdi\<close> is the
  number of arguments, \<open>rsi\<close> points to a null-terminated array of pointers to the argument
  strings and \<open>rdx\<close> to one for the environment, each string in place and NUL-terminated.
  \<open>rcx\<close>, where a Darwin program expects the apple array, is the environment again.
\<close>

theorem main_entry:
  assumes "envp = env_strings vars" and "apple = apple_strings path"
    and "stack_room argv envp apple + 8 \<le> unat tp"
    and "build_stack tp argv vars path m = (sp, m1)"
    and "enter_main sel exit_addr entry sp g m1 = (g', m2)"
    and "unat sel + stack_room argv envp apple + 9 \<le> unat tp \<or> unat tp \<le> unat sel"
  shows "g' RIP = entry \<and> unat (g' RSP) mod 16 = 8 \<and> load64 m2 (g' RSP) = exit_addr
    \<and> g' RDI = of_nat (length argv)
    \<and> (\<exists>argp. words_at m2 (g' RSI) (argp @ [0]) \<and> list_all2 (text_at m2) argp argv)
    \<and> (\<exists>envpp. words_at m2 (g' RDX) (envpp @ [0]) \<and> list_all2 (text_at m2) envpp envp)
    \<and> g' RCX = g' RDX \<and> m2 sel = SYSCALL_DISPATCH_FILTER_BLOCK"
  by (rule main_entry_full(1) [OF assms(1-4) _ assms(5-6)]) (simp add: same_on_def)

theorem main_entry_witness:
  "\<exists>sp m1 g' m2. build_stack 0x10000 [''a'', ''b''] [(''K'', ''v'')] ''/x'' (\<lambda>_. 0) = (sp, m1)
    \<and> enter_main 0x100 0x500 0x400 sp (\<lambda>_. 0) m1 = (g', m2)
    \<and> g' RIP = 0x400 \<and> g' RDI = 2
    \<and> (\<exists>argp. words_at m2 (g' RSI) (argp @ [0]) \<and> list_all2 (text_at m2) argp [''a'', ''b''])
    \<and> (\<exists>envpp. words_at m2 (g' RDX) (envpp @ [0]) \<and> list_all2 (text_at m2) envpp [''K=v''])"
proof -
  obtain sp m1 where b: "build_stack 0x10000 [''a'', ''b''] [(''K'', ''v'')] ''/x'' (\<lambda>_. 0) = (sp, m1)"
    by (cases "build_stack 0x10000 [''a'', ''b''] [(''K'', ''v'')] ''/x'' (\<lambda>_. 0)")
  obtain g' m2 where e: "enter_main 0x100 0x500 0x400 sp (\<lambda>_. 0) m1 = (g', m2)"
    by (cases "enter_main 0x100 0x500 0x400 sp (\<lambda>_. 0) m1")
  have envp: "[''K=v''] = env_strings [(''K'', ''v'')]" by (simp add: env_strings_def)
  have "stack_room [''a'', ''b''] [''K=v''] (apple_strings ''/x'') + 8 \<le> unat (0x10000 :: u64)"
    "unat (0x100 :: u64) + stack_room [''a'', ''b''] [''K=v''] (apple_strings ''/x'') + 9 \<le> unat (0x10000 :: u64)
      \<or> unat (0x10000 :: u64) \<le> unat (0x100 :: u64)"
    by (simp_all add: stack_room_def entries_def apple_strings_def)
  from main_entry [OF envp refl this(1) b e this(2)] b e show ?thesis by auto
qed

section \<open>The whole start\<close>

lemma store_changed:
  assumes "store_bytes m a bs x \<noteq> m x" "unat a + length bs \<le> 2 ^ 64"
  shows "unat a \<le> unat x \<and> unat x < unat a + length bs"
proof -
  have lt: "unat (x - a) < length bs" using assms(1) by (auto simp: store_bytes_def split: if_splits)
  then have "unat a + unat (x - a) < 2 ^ 64" using assms(2) by simp
  then have "unat x = unat a + unat (x - a)" using unat_add_of_nat [of a "unat (x - a)"] by simp
  with lt show ?thesis by simp
qed

text \<open>The \<open>n\<close> bytes at \<open>p\<close> lie outside the stack mapped at \<open>base\<close>.\<close>

definition off_stack :: "u64 \<Rightarrow> u64 \<Rightarrow> nat \<Rightarrow> bool" where
  "off_stack base p n =
     ((unat p + n \<le> unat base \<or> unat base + STACK_SIZE \<le> unat p) \<and> unat p + n \<le> 2 ^ 64)"

lemma off_stack_byte:
  assumes "off_stack base p n" "i < n"
  shows "unat (p + of_nat i) = unat p + i
    \<and> (unat (p + of_nat i) < unat base \<or> unat base + STACK_SIZE \<le> unat (p + of_nat i))"
proof -
  have "unat (p + of_nat i) = unat p + i"
    using assms by (intro unat_add_of_nat) (simp add: off_stack_def)
  with assms show ?thesis by (auto simp: off_stack_def)
qed

lemma load_off_stack:
  assumes "off_stack base p n" "\<And>x. unat x < unat base \<or> unat base + STACK_SIZE \<le> unat x \<Longrightarrow> x \<in> A \<Longrightarrow> m' x = m x"
    and "\<And>i. i < n \<Longrightarrow> p + of_nat i \<in> A"
  shows "load_bytes m' p n = load_bytes m p n"
  unfolding load_bytes_def
proof (rule map_cong [OF refl])
  fix i assume "i \<in> set [0..<n]"
  then have i: "i < n" by simp
  from off_stack_byte [OF assms(1) i] assms(3) [OF i] show "m' (p + of_nat i) = m (p + of_nat i)"
    by (intro assms(2)) blast+
qed

lemma apart_byte: "apart p n s 1 \<Longrightarrow> i < n \<Longrightarrow> p + of_nat i \<in> - {s}"
  by (auto simp: apart_def)

lemma stack_top_bounds:
  fixes base tp :: u64
  assumes "unat base + STACK_SIZE < 2 ^ 64" "tp = (base + of_nat STACK_SIZE) AND NOT 0xF"
  shows "unat tp \<le> unat base + STACK_SIZE" "unat base + STACK_SIZE \<le> unat tp + 15"
proof -
  have "unat tp = (unat base + STACK_SIZE) - (unat base + STACK_SIZE) mod 16"
    unfolding assms(2) unat_align16 unat_add_of_nat [OF assms(1)] ..
  moreover have "(unat base + STACK_SIZE) mod 16 \<le> 15"
    using mod_less_divisor [of 16 "unat base + STACK_SIZE"] by linarith
  ultimately show "unat tp \<le> unat base + STACK_SIZE" "unat base + STACK_SIZE \<le> unat tp + 15" by linarith+
qed

text \<open>What \<open>execute\<close> leaves behind, for a first thread.\<close>

lemma execute_main:
  assumes H: "mm_stack H = Some base" "mm_selectors H = Some sel" "mm_trampoline H = Some T" "sigaction_ok H" "prctl_ok H"
    and sel: "sel \<noteq> 0"
    and built: "build_stack ((base + of_nat STACK_SIZE) AND NOT 0xF) argv (host_vars H) path
        (store_bytes (m0(sel := SYSCALL_DISPATCH_FILTER_ALLOW)) T (trampoline_code sel)) = (sp, m1)"
    and start: "enter_main sel (mm_exit H) entry sp g (store_bytes m1 (mm_exit H) exit_stub) = (g', m2)"
  shows "\<exists>st'. execute H entry argv path True g (set_darwin_text_base tb (exec_init m0)) = Some (g', st')
    \<and> emem st' = m2 \<and> thread_selector st' 0 = sel \<and> thread_trampoline st' 0 = T
    \<and> sud st' 0 = Some (fst (sud_range tb), snd (sud_range tb), sel)"
  using assms
  by (auto simp: execute_def alloc_stack_def selector_ptr_def alloc_thread_selector_def selector_page_def
      set_darwin_text_base_def exec_init_def alloc_trampoline_for_def enable_sud_def Let_def split: prod.splits)

text \<open>
  C1. Starting a program is complete: when the host grants the mappings and calls, \<open>execute\<close>
  does not panic, and at the program's first instruction the arguments are where
  \<open>main_entry\<close> finds them, the return address is the exit stub, which is in place, system
  calls of the thread are dispatched on its selector byte, the byte blocks, and the thread's
  trampoline holds the code that sets it again, which is what the SIGSYS handler relies on.
\<close>

theorem execute_ready:
  assumes H: "mm_stack H = Some base" "mm_selectors H = Some sel" "mm_trampoline H = Some T" "sigaction_ok H" "prctl_ok H"
    and nz: "sel \<noteq> 0" and base: "unat base + STACK_SIZE < 2 ^ 64"
    and room: "stack_room argv (env_strings (host_vars H)) (apple_strings path) + 24 \<le> STACK_SIZE"
    and off: "off_stack base sel 1" "off_stack base T 15" "off_stack base (mm_exit H) 12"
    and ap: "apart T 15 sel 1" "apart T 15 (mm_exit H) 12" "apart (mm_exit H) 12 sel 1"
  shows "\<exists>g' st'. execute H entry argv path True g (set_darwin_text_base tb (exec_init m0)) = Some (g', st')
    \<and> g' RIP = entry \<and> unat (g' RSP) mod 16 = 8 \<and> load64 (emem st') (g' RSP) = mm_exit H
    \<and> load_bytes (emem st') (mm_exit H) 12 = exit_stub
    \<and> g' RDI = of_nat (length argv)
    \<and> (\<exists>argp. words_at (emem st') (g' RSI) (argp @ [0]) \<and> list_all2 (text_at (emem st')) argp argv)
    \<and> (\<exists>envpp. words_at (emem st') (g' RDX) (envpp @ [0])
        \<and> list_all2 (text_at (emem st')) envpp (env_strings (host_vars H)))
    \<and> sud st' 0 = Some (fst (sud_range tb), snd (sud_range tb), sel)
    \<and> thread_selector st' 0 = sel \<and> emem st' sel = SYSCALL_DISPATCH_FILTER_BLOCK
    \<and> thread_trampoline st' 0 = T \<and> load_bytes (emem st') T 15 = trampoline_code sel"
proof -
  define tp where "tp = (base + of_nat STACK_SIZE) AND NOT 0xF"
  define mb where "mb = store_bytes (m0(sel := SYSCALL_DISPATCH_FILTER_ALLOW)) T (trampoline_code sel)"
  let ?room = "stack_room argv (env_strings (host_vars H)) (apple_strings path)"
  note tb = stack_top_bounds [OF base tp_def]
  obtain sp m1 where built: "build_stack tp argv (host_vars H) path mb = (sp, m1)"
    by (cases "build_stack tp argv (host_vars H) path mb")
  define m1' where "m1' = store_bytes m1 (mm_exit H) exit_stub"
  obtain g' m2 where start: "enter_main sel (mm_exit H) entry sp g m1' = (g', m2)"
    by (cases "enter_main sel (mm_exit H) entry sp g m1'")
  have fit: "?room + 8 \<le> unat tp" "?room \<le> unat tp" using room tb by linarith+
  have ow: "only_within sp tp mb m1" and hi: "unat tp \<le> unat sp + ?room"
    and lo: "unat sp + 8 * entries argv (env_strings (host_vars H)) (apple_strings path) \<le> unat tp"
    using build_stack_layout [OF refl refl fit(2) built] by blast+
  have low: "unat base + 9 \<le> unat sp" using hi room tb by linarith
  have seld: "unat sel + ?room + 9 \<le> unat tp \<or> unat tp \<le> unat sel"
    using off(1) room tb by (auto simp: off_stack_def)
  have esz: "length exit_stub = 12" by (simp add: exit_stub_def)
  have same: "same_on sp tp m1 m1'"
    unfolding same_on_def
  proof (intro allI impI, rule ccontr)
    fix x :: u64 assume x: "unat sp \<le> unat x \<and> unat x < unat tp" and "m1' x \<noteq> m1 x"
    then have "unat (mm_exit H) \<le> unat x \<and> unat x < unat (mm_exit H) + 12"
      using store_changed [of m1 "mm_exit H" exit_stub x] off(3) by (simp add: m1'_def esz off_stack_def)
    with off(3) x low tb show False by (auto simp: off_stack_def)
  qed
  note e = main_entry_full [OF refl refl fit(1) built same start seld]
  have frame: "m2 x = m1' x" if "unat x < unat base \<or> unat base + STACK_SIZE \<le> unat x" "x \<in> - {sel}" for x
  proof -
    have "unat x + 8 < unat sp \<or> unat sp \<le> unat x" using that(1) low lo tb by linarith
    with that(2) e(4) show ?thesis by blast
  qed
  have m1_mb: "m1 x = mb x" if "unat x < unat base \<or> unat base + STACK_SIZE \<le> unat x" for x
    using that ow low tb by (auto simp: only_within_def)
  have "load_bytes m2 (mm_exit H) 12 = load_bytes m1' (mm_exit H) 12"
    by (rule load_off_stack [OF off(3) frame], assumption+) (rule apart_byte [OF ap(3)])
  also have "\<dots> = exit_stub" unfolding m1'_def by (rule load_store_same) (simp_all add: esz)
  finally have stub: "load_bytes m2 (mm_exit H) 12 = exit_stub" .
  have "load_bytes m2 T 15 = load_bytes m1' T 15"
    by (rule load_off_stack [OF off(2) frame], assumption+) (rule apart_byte [OF ap(1)])
  also have "\<dots> = load_bytes m1 T 15"
    unfolding m1'_def by (rule load_store_apart) (simp_all add: ap(2) esz)
  also have "\<dots> = load_bytes mb T 15"
    by (rule load_off_stack [OF off(2), of UNIV]) (simp_all add: m1_mb)
  also have "\<dots> = trampoline_code sel" unfolding mb_def by (rule load_store_same) simp_all
  finally have code: "load_bytes m2 T 15 = trampoline_code sel" .
  show ?thesis
    using execute_main [OF H nz built [unfolded tp_def mb_def] start [unfolded m1'_def], of tb] e(1) stub code
    by (elim exE conjE) (intro exI [of _ g'], auto)
qed

definition demo_start :: start_host where
  "demo_start = \<lparr>mm_stack = Some 0x7000000, mm_selectors = Some 0x4000, mm_trampoline = Some 0x9000,
     mm_exit = 0xB000, dev_fd = - 1, sigaction_ok = True, prctl_ok = True, host_vars = [(''K'', ''v'')]\<rparr>"

theorem execute_ready_witness:
  "\<exists>g' st'. execute demo_start 0x100001000 [''/x'', ''y''] ''/x'' True (\<lambda>_. 0) (set_darwin_text_base 0 (exec_init (\<lambda>_. 0)))
      = Some (g', st')
    \<and> g' RIP = 0x100001000 \<and> g' RDI = 2 \<and> load64 (emem st') (g' RSP) = 0xB000
    \<and> emem st' 0x4000 = SYSCALL_DISPATCH_FILTER_BLOCK \<and> load_bytes (emem st') 0x9000 15 = trampoline_code 0x4000"
proof -
  have H: "mm_stack demo_start = Some 0x7000000" "mm_selectors demo_start = Some 0x4000"
    "mm_trampoline demo_start = Some 0x9000" "sigaction_ok demo_start" "prctl_ok demo_start"
    by (simp_all add: demo_start_def)
  have nz: "(0x4000 :: ptr) \<noteq> 0" "unat (0x7000000 :: u64) + STACK_SIZE < 2 ^ 64" by (simp_all add: STACK_SIZE_def)
  have room: "stack_room [''/x'', ''y''] (env_strings (host_vars demo_start)) (apple_strings ''/x'') + 24 \<le> STACK_SIZE"
    by (simp add: demo_start_def stack_room_def entries_def apple_strings_def env_strings_def STACK_SIZE_def)
  have off: "off_stack 0x7000000 0x4000 1" "off_stack 0x7000000 0x9000 15" "off_stack 0x7000000 (mm_exit demo_start) 12"
    by (simp_all add: off_stack_def demo_start_def)
  have ap: "apart 0x9000 15 0x4000 1" "apart 0x9000 15 (mm_exit demo_start) 12" "apart (mm_exit demo_start) 12 0x4000 1"
    by (rule apartI_below, simp_all add: demo_start_def)+
  from execute_ready [OF H nz room off ap, of "0x100001000" "\<lambda>_. 0" 0 "\<lambda>_. 0"]
  obtain g' st' where
      "execute demo_start 0x100001000 [''/x'', ''y''] ''/x'' True (\<lambda>_. 0) (set_darwin_text_base 0 (exec_init (\<lambda>_. 0)))
        = Some (g', st')"
      "g' RIP = 0x100001000" "g' RDI = of_nat (length [''/x'', ''y''])" "load64 (emem st') (g' RSP) = mm_exit demo_start"
      "emem st' 0x4000 = SYSCALL_DISPATCH_FILTER_BLOCK" "load_bytes (emem st') 0x9000 15 = trampoline_code 0x4000"
    by blast
  then show ?thesis by - (rule exI [of _ g'], rule exI [of _ st'], simp add: demo_start_def)
qed

end
