(* ===== verification/CrashRecovery.thy ===== *)
theory CrashRecovery
  imports Executor
begin

text \<open>
  \<open>crates/grafted-loader/src/executor.rs\<close>, recovery from crashes while a program starts:
  the decoder of faulting instructions (\<open>decode_binary_insn\<close>), the decisions of the SIGSEGV
  handler, the patching of crash sites and the calls that can fail (\<open>grafted_try_call\<close>).
  The decoder is compared with an encoder of x86-64 instructions written from their format.
  What the handler prints is not modelled.
\<close>

section \<open>The decoder\<close>

type_synonym i8 = "8 word"

text \<open>Size of the immediate, whether a register is written, bytes of opcode after the first.\<close>

definition opcode_class :: "u8 \<Rightarrow> u8 \<Rightarrow> (u64 \<times> bool \<times> u64) option" where
  "opcode_class opcode op2 =
     (if opcode \<in> {0x8B, 0x8A, 0x63, 0x03, 0x0B, 0x23, 0x2B, 0x33, 0x3B, 0x3A} then Some (0, True, 0)
      else if opcode \<in> {0x89, 0x88, 0x39, 0x38, 0x85, 0x84, 0x01, 0x09, 0x21, 0x29, 0x31}
        then Some (0, False, 0)
      else if opcode = 0xFF then Some (0, False, 0)
      else if opcode \<in> {0x83, 0x80, 0xC6, 0xC7, 0xF6} then Some (1, False, 0)
      else if opcode = 0x81 then Some (4, False, 0)
      else if opcode = 0x0F then
        (if op2 \<in> {0xB6, 0xB7, 0xBE, 0xBF, 0xAF} then Some (0, True, 1) else None)
      else None)"

definition disp_size :: "u8 \<Rightarrow> u8 \<Rightarrow> u64" where
  "disp_size modf rm =
     (if modf = 0 then (if rm = 5 then 4 else 0)
      else if modf = 1 then 1
      else if modf = 2 then 4
      else 0)"

definition decode_binary_insn :: "mem \<Rightarrow> u64 \<Rightarrow> u64 \<times> i8" where
  "decode_binary_insn m rip =
     (let b = (\<lambda>i. m (rip + i));
          (off, rex) = (if b 0 AND 0xF0 = 0x40 then (1, b 0) else (0, 0));
          opcode = b off
      in (case opcode_class opcode (b (off + 1)) of
            None \<Rightarrow> (0, - 1)
          | Some (imm_size, has_dest_reg, extra) \<Rightarrow>
              let off = off + extra;
                  modrm = b (off + 1);
                  modf = drop_bit 6 modrm AND 3;
                  reg = (drop_bit 3 modrm AND 7) OR (if rex AND 4 \<noteq> 0 then 8 else 0);
                  rm = modrm AND 7
              in if modf = 3 then
                   (let ext = drop_bit 3 modrm AND 7 in
                    if opcode = 0xFF \<and> (ext = 2 \<or> ext = 4) then (off + 2, - 1) else (0, - 1))
                 else (off + 2 + (if rm = 4 then 1 else 0) + disp_size modf rm + imm_size,
                       if has_dest_reg then reg else - 1)))"

section \<open>Crash sites and the SIGSEGV handler\<close>

record crash_state =
  in_handler :: bool
  recovery_active :: bool
  lifecycle_skip_mode :: bool
  lifecycle_skip_count :: u32
  crash_sites :: "(u64 \<times> u8) list"
  crash_site_count :: u32

definition crash_init :: crash_state where
  "crash_init = \<lparr>in_handler = False, recovery_active = False, lifecycle_skip_mode = False,
     lifecycle_skip_count = 0, crash_sites = replicate 256 (0, 0), crash_site_count = 0\<rparr>"

definition grafted_set_lifecycle_skip_mode :: "bool \<Rightarrow> crash_state \<Rightarrow> crash_state" where
  "grafted_set_lifecycle_skip_mode active cs =
     (let cs1 = cs\<lparr>lifecycle_skip_mode := active\<rparr> in
      if active then cs1\<lparr>lifecycle_skip_count := 0, crash_site_count := 0\<rparr> else cs1)"

text \<open>\<open>mp\<close> tells which pages \<open>mprotect\<close> makes writable.\<close>

fun nop_sites :: "(u64 \<Rightarrow> bool) \<Rightarrow> (u64 \<times> u8) list \<Rightarrow> u32 \<Rightarrow> mem \<Rightarrow> u32 \<times> mem" where
  "nop_sites mp [] patched m = (patched, m)"
| "nop_sites mp ((addr, len) # rest) patched m =
     (if addr = 0 \<or> len = 0 then nop_sites mp rest patched m
      else if mp (addr AND NOT 0xFFF)
        then nop_sites mp rest (patched + 1) (store_bytes m addr (replicate (unat len) 0x90))
      else nop_sites mp rest patched m)"

definition grafted_nop_saved_crash_sites ::
    "(u64 \<Rightarrow> bool) \<Rightarrow> crash_state \<times> mem \<Rightarrow> u32 \<times> crash_state \<times> mem" where
  "grafted_nop_saved_crash_sites mp s =
     (case s of (cs, m) \<Rightarrow>
       case nop_sites mp (take (min (unat (crash_site_count cs)) 256) (crash_sites cs)) 0 m of
         (patched, m1) \<Rightarrow> (patched, cs\<lparr>crash_site_count := 0\<rparr>, m1))"

datatype 's call_end = Returned 's | Crashed 's

text \<open>
  \<open>func\<close> either returns or ends in the long jump of the handler; its argument and results are
  the whole state, of which \<open>active\<close> sets the flag.
\<close>

definition grafted_try_call ::
    "(crash_state \<times> 'w \<Rightarrow> (crash_state \<times> 'w) call_end) \<Rightarrow> crash_state \<times> 'w \<Rightarrow> bool \<times> crash_state \<times> 'w" where
  "grafted_try_call func s =
     (case s of (cs, w) \<Rightarrow>
       case func (cs\<lparr>recovery_active := True\<rparr>, w) of
         Returned (cs1, w1) \<Rightarrow> (True, cs1\<lparr>recovery_active := False\<rparr>, w1)
       | Crashed (cs1, w1) \<Rightarrow> (False, cs1\<lparr>recovery_active := False\<rparr>, w1))"

datatype crash_result = Resume gregs crash_state | LongJump crash_state | ExitProcess nat

definition SIGABRT :: i32 where "SIGABRT = 6"

definition dest_gregs :: "greg list" where
  "dest_gregs = [RAX, RCX, RDX, RBX, RSP, RBP, RSI, RDI, R8, R9, R10, R11, R12, R13, R14, R15]"

definition zero_dest :: "i8 \<Rightarrow> gregs \<Rightarrow> gregs" where
  "zero_dest dest g =
     (if 0 \<le> sint dest \<and> sint dest < 16 then g(dest_gregs ! nat (sint dest) := 0) else g)"

definition save_crash_site :: "u64 \<Rightarrow> u64 \<Rightarrow> crash_state \<Rightarrow> crash_state" where
  "save_crash_site rip insn_len cs =
     (let idx = unat (crash_site_count cs);
          cs1 = cs\<lparr>crash_site_count := crash_site_count cs + 1\<rparr>
      in if idx < 256 then cs1\<lparr>crash_sites := (crash_sites cs1)[idx := (rip, ucast insn_len)]\<rparr> else cs1)"

text \<open>The cases in which the program goes on; \<open>None\<close>: none of them applies.\<close>

definition skip_crash :: "u32 \<Rightarrow> gregs \<Rightarrow> mem \<Rightarrow> crash_state \<Rightarrow> (gregs \<times> crash_state) option" where
  "skip_crash skip_n g m cs =
     (let rip = g RIP; rsp = g RSP in
      if skip_n < 500 \<and> rip = 0 \<and> rsp > 0x1000 \<and> rsp < 0x800000000000 then
        Some (g(RIP := load64 m rsp, RSP := rsp + 8, RAX := 0, RDX := 0xE000000000000000), cs)
      else if skip_n < 500 \<and> rip \<ge> 0x100000000 \<and> rip < 0x100200000 then
        (case decode_binary_insn m rip of (insn_len, dest_reg) \<Rightarrow>
           if insn_len > 0
           then Some (zero_dest dest_reg (g(RIP := rip + insn_len)), save_crash_site rip insn_len cs)
           else None)
      else None)"

definition sigsegv_handler :: "i32 \<Rightarrow> gregs \<Rightarrow> mem \<Rightarrow> crash_state \<Rightarrow> crash_result" where
  "sigsegv_handler sig g m cs =
     (let was = in_handler cs; cs = cs\<lparr>in_handler := True\<rparr> in
      if was then (if recovery_active cs then LongJump cs else ExitProcess 139)
      else if recovery_active cs then
        (if sig \<noteq> SIGABRT \<and> lifecycle_skip_mode cs then
           (let skip_n = lifecycle_skip_count cs;
                cs = cs\<lparr>lifecycle_skip_count := skip_n + 1\<rparr>
            in (case skip_crash skip_n g m cs of
                  Some (g1, cs1) \<Rightarrow> Resume g1 (cs1\<lparr>in_handler := False\<rparr>)
                | None \<Rightarrow> LongJump (cs\<lparr>in_handler := False\<rparr>)))
         else LongJump (cs\<lparr>in_handler := False\<rparr>))
      else ExitProcess 139)"

definition abort :: "crash_state \<Rightarrow> crash_result" where
  "abort cs = (if recovery_active cs then LongJump cs else ExitProcess 134)"

section \<open>The format of x86-64 instructions\<close>

text \<open>
  An instruction with a memory operand: an optional REX prefix, one or two opcode bytes, a
  ModRM byte with the register field, a SIB byte for indexed operands, a displacement and an
  immediate. Registers are their low three bits; \<open>rbp\<close> as a base always has a displacement.
\<close>

datatype disp = NoDisp | Disp8 u8 | Disp32 u32
datatype operand = Indirect nat disp | RipRelative u32 | Indexed nat nat nat disp

record insn =
  i_rex :: "u8 option"
  i_opcode :: "u8 list"
  i_reg :: nat
  i_operand :: operand
  i_imm :: "u8 list"

fun disp_mode :: "disp \<Rightarrow> nat" where
  "disp_mode NoDisp = 0" | "disp_mode (Disp8 d) = 1" | "disp_mode (Disp32 d) = 2"

fun disp_bytes :: "disp \<Rightarrow> u8 list" where
  "disp_bytes NoDisp = []" | "disp_bytes (Disp8 d) = [d]" | "disp_bytes (Disp32 d) = le_bytes32 d"

definition packed :: "nat \<Rightarrow> nat \<Rightarrow> nat \<Rightarrow> u8" where
  "packed hi mid lo = of_nat (64 * hi + 8 * mid + lo)"

fun operand_bytes :: "nat \<Rightarrow> operand \<Rightarrow> u8 list" where
  "operand_bytes reg (Indirect r d) = packed (disp_mode d) reg r # disp_bytes d"
| "operand_bytes reg (RipRelative d) = packed 0 reg 5 # le_bytes32 d"
| "operand_bytes reg (Indexed s i b d) = packed (disp_mode d) reg 4 # packed s i b # disp_bytes d"

fun operand_ok :: "operand \<Rightarrow> bool" where
  "operand_ok (Indirect r d) = (r < 8 \<and> r \<noteq> 4 \<and> (r = 5 \<longrightarrow> d \<noteq> NoDisp))"
| "operand_ok (RipRelative d) = True"
| "operand_ok (Indexed s i b d) = (s < 4 \<and> i < 8 \<and> b < 8 \<and> (b = 5 \<longrightarrow> d \<noteq> NoDisp))"

definition rex_bytes :: "insn \<Rightarrow> u8 list" where
  "rex_bytes i = (case i_rex i of None \<Rightarrow> [] | Some r \<Rightarrow> [r])"

definition encode :: "insn \<Rightarrow> u8 list" where
  "encode i = rex_bytes i @ i_opcode i @ operand_bytes (i_reg i) (i_operand i) @ i_imm i"

text \<open>Loads and arithmetic that write the register of the register field.\<close>

definition reg_writers :: "u8 list list" where
  "reg_writers = [[0x8B], [0x8A], [0x63], [0x03], [0x0B], [0x23], [0x2B], [0x33],
     [0x0F, 0xB6], [0x0F, 0xB7], [0x0F, 0xBE], [0x0F, 0xBF], [0x0F, 0xAF]]"

text \<open>Comparisons of a register with memory, stores, and the group of \<open>0xFF\<close>.\<close>

definition comparisons :: "u8 list list" where "comparisons = [[0x3A], [0x3B]]"

definition mem_writers :: "u8 list list" where
  "mem_writers = [[0x89], [0x88], [0x39], [0x38], [0x85], [0x84], [0x01], [0x09], [0x21], [0x29], [0x31], [0xFF]]"

text \<open>Immediates: one byte, four bytes, and the group of \<open>0xF6\<close>, where only TEST has one.\<close>

definition imm_size :: "u8 list \<Rightarrow> nat \<Rightarrow> nat option" where
  "imm_size opc reg =
     (if opc \<in> set (reg_writers @ comparisons @ mem_writers) then Some 0
      else if opc \<in> {[0x83], [0x80], [0xC6]} then Some 1
      else if opc \<in> {[0x81], [0xC7]} then Some 4
      else if opc = [0xF6] then Some (if reg < 2 then 1 else 0)
      else None)"

definition insn_ok :: "insn \<Rightarrow> bool" where
  "insn_ok i = ((case i_rex i of None \<Rightarrow> True | Some r \<Rightarrow> r AND 0xF0 = 0x40)
     \<and> i_reg i < 8 \<and> operand_ok (i_operand i) \<and> imm_size (i_opcode i) (i_reg i) = Some (length (i_imm i)))"

definition full_reg :: "insn \<Rightarrow> nat" where
  "full_reg i = i_reg i + (case i_rex i of None \<Rightarrow> 0 | Some r \<Rightarrow> if r AND 4 \<noteq> 0 then 8 else 0)"

section \<open>The decoder on encoded instructions\<close>

lemma below_8: "n < 8 \<Longrightarrow> n = 0 \<or> n = 1 \<or> n = 2 \<or> n = 3 \<or> n = 4 \<or> n = 5 \<or> n = 6 \<or> n = (7 :: nat)"
  by auto

lemma packed_fields:
  assumes "hi < 3" "mid < 8" "lo < 8"
  shows "drop_bit 6 (packed hi mid lo) AND 3 = of_nat hi" "drop_bit 3 (packed hi mid lo) AND 7 = of_nat mid"
    "packed hi mid lo AND 7 = of_nat lo"
proof -
  have "hi = 0 \<or> hi = 1 \<or> hi = 2" using assms(1) by auto
  with below_8 [OF assms(2)] below_8 [OF assms(3)]
  show "drop_bit 6 (packed hi mid lo) AND 3 = of_nat hi" "drop_bit 3 (packed hi mid lo) AND 7 = of_nat mid"
    "packed hi mid lo AND 7 = of_nat lo"
    by (auto simp: packed_def)
qed

lemma operand_shape:
  assumes "operand_ok p"
  shows "\<exists>md rm rest. operand_bytes reg p = packed md reg rm # rest \<and> md < 3 \<and> rm < 8
    \<and> of_nat (length rest) = (if rm = 4 then 1 else 0) + disp_size (of_nat md) (of_nat rm)"
  using assms
proof (cases p)
  case (Indirect r d)
  with assms below_8 [of r] show ?thesis
    by (intro exI [of _ "disp_mode d"] exI [of _ r] exI [of _ "disp_bytes d"])
      (cases d; auto simp: disp_size_def)
next
  case (RipRelative d)
  then show ?thesis
    by (intro exI [of _ 0] exI [of _ 5] exI [of _ "le_bytes32 d"]) (simp add: disp_size_def)
next
  case (Indexed s i b d)
  then show ?thesis
    by (intro exI [of _ "disp_mode d"] exI [of _ 4] exI [of _ "packed s i b # disp_bytes d"])
      (cases d; simp add: disp_size_def)
qed

lemma decode_at:
  assumes rex: "case i_rex i of None \<Rightarrow> True | Some r \<Rightarrow> r AND 0xF0 = 0x40"
    and reg: "i_reg i < 8" and op: "operand_ok (i_operand i)"
    and opc: "i_opcode i = o1 # os" "o1 AND 0xF0 \<noteq> 0x40"
    and cls: "\<And>b. opcode_class o1 (hd (os @ [b])) = Some (im, ds, of_nat (length os))"
    and at: "load_bytes m rip (length (encode i)) = encode i"
  shows "decode_binary_insn m rip =
    (of_nat (length (encode i) - length (i_imm i)) + im, if ds then of_nat (full_reg i) else - 1)"
proof -
  obtain md rm rest where ob: "operand_bytes (i_reg i) (i_operand i) = packed md (i_reg i) rm # rest"
      and lt: "md < 3" "rm < 8"
      and rl: "of_nat (length rest) = (if rm = 4 then 1 else 0) + disp_size (of_nat md) (of_nat rm)"
    using operand_shape [OF op] by blast
  define n where "n = length (rex_bytes i)"
  have enc: "encode i = rex_bytes i @ (o1 # os) @ packed md (i_reg i) rm # rest @ i_imm i"
    by (simp add: encode_def opc ob)
  have nth: "m (rip + of_nat k) = encode i ! k" if "k < length (encode i)" for k
    using load_bytes_nth [OF that, of m rip] at by simp
  have b1: "m (rip + of_nat n) = o1" using nth [of n] by (simp add: enc n_def nth_append)
  have b2: "m (rip + of_nat (n + 1)) = hd (os @ [packed md (i_reg i) rm])"
    using nth [of "n + 1"] by (cases os) (simp_all add: enc n_def nth_append)
  have b3: "m (rip + of_nat (n + length os + 1)) = packed md (i_reg i) rm"
    using nth [of "n + length os + 1"] by (simp add: enc n_def nth_append)
  have start: "(if m (rip + 0) AND 0xF0 = 0x40 then (1, m (rip + 0)) else (0, 0)) =
      (of_nat n :: u64, case i_rex i of None \<Rightarrow> 0 | Some r \<Rightarrow> r)"
  proof (cases "i_rex i")
    case None
    with b1 opc(2) show ?thesis by (simp add: n_def rex_bytes_def)
  next
    case (Some r)
    with rex nth [of 0] show ?thesis by (simp add: n_def rex_bytes_def enc)
  qed
  note f = packed_fields [OF lt(1) reg lt(2)]
  have four: "of_nat rm = (4 :: u8) \<longleftrightarrow> rm = 4" using below_8 [OF lt(2)] by auto
  have not3: "of_nat md \<noteq> (3 :: u8)" 
  proof -
    have "md = 0 \<or> md = 1 \<or> md = 2" using lt(1) by auto
    then show ?thesis by auto
  qed
  have reg4: "of_nat (i_reg i) OR (if (case i_rex i of None \<Rightarrow> 0 | Some r \<Rightarrow> r) AND 4 \<noteq> 0 then 8 else 0) =
      (of_nat (full_reg i) :: u8)"
    using below_8 [OF reg] by (auto simp: full_reg_def split: option.splits)
  have len: "of_nat (length (encode i) - length (i_imm i)) =
      (of_nat n + of_nat (length os) + 2 + of_nat (length rest) :: u64)"
    by (simp add: enc n_def)
  have b2': "m (rip + (of_nat n + 1)) = hd (os @ [packed md (i_reg i) rm])" using b2 by (simp add: add.commute)
  have b3': "m (rip + (of_nat n + of_nat (length os) + 1)) = packed md (i_reg i) rm"
    using b3 by (simp add: ac_simps)
  show ?thesis
    unfolding decode_binary_insn_def Let_def start prod.case b1 b2' cls option.case b3' f
    using not3 reg4 by (simp add: four len rl)
qed

lemmas opcode_tables = reg_writers_def comparisons_def mem_writers_def

lemma known_opcodes:
  "imm_size opc reg = Some k \<Longrightarrow>
    opc \<in> set (reg_writers @ comparisons @ mem_writers @ [[0x83], [0x80], [0xC6], [0x81], [0xC7], [0xF6]])"
  unfolding imm_size_def set_append by (auto split: if_splits)

lemma class_known:
  assumes "imm_size opc reg = Some k"
  shows "opc = hd opc # tl opc \<and> hd opc AND 0xF0 \<noteq> 0x40
    \<and> opcode_class (hd opc) (hd (tl opc @ [b])) =
        Some (if opc = [0xC7] \<or> opc = [0xF6] then 1 else of_nat k,
              opc \<in> set (reg_writers @ comparisons), of_nat (length (tl opc)))"
  using known_opcodes [OF assms] assms [symmetric]
  unfolding opcode_tables append.simps list.set insert_iff empty_iff simp_thms
  by (elim disjE) (simp_all add: opcode_tables opcode_class_def imm_size_def)

lemma decode_known:
  assumes "insn_ok i" and "load_bytes m rip (length (encode i)) = encode i"
  shows "decode_binary_insn m rip =
    (if i_opcode i = [0xC7] \<or> i_opcode i = [0xF6] then of_nat (length (encode i) - length (i_imm i)) + 1
     else of_nat (length (encode i)),
     if i_opcode i \<in> set (reg_writers @ comparisons) then of_nat (full_reg i) else - 1)"
proof -
  have ok: "case i_rex i of None \<Rightarrow> True | Some r \<Rightarrow> r AND 0xF0 = 0x40" "i_reg i < 8"
      "operand_ok (i_operand i)" "imm_size (i_opcode i) (i_reg i) = Some (length (i_imm i))"
    using assms(1) by (auto simp: insn_ok_def split: option.splits)
  note k = class_known [OF ok(4)]
  have c: "i_opcode i = hd (i_opcode i) # tl (i_opcode i)" "hd (i_opcode i) AND 0xF0 \<noteq> 0x40"
    using k by blast+
  have cl: "opcode_class (hd (i_opcode i)) (hd (tl (i_opcode i) @ [b])) =
        Some (if i_opcode i = [0xC7] \<or> i_opcode i = [0xF6] then 1 else of_nat (length (i_imm i)),
              i_opcode i \<in> set (reg_writers @ comparisons), of_nat (length (tl (i_opcode i))))" for b
    using k by blast
  have "length (i_imm i) \<le> length (encode i)" by (simp add: encode_def)
  then have sum: "of_nat (length (encode i) - length (i_imm i)) + of_nat (length (i_imm i)) =
      (of_nat (length (encode i)) :: u64)"
    by (simp flip: of_nat_add)
  show ?thesis
    unfolding decode_at [OF ok(1-3) c cl assms(2)] using sum by simp
qed

lemma decode_exact:
  assumes "insn_ok i" and "load_bytes m rip (length (encode i)) = encode i"
    and "i_opcode i \<noteq> [0xC7]" and "i_opcode i = [0xF6] \<Longrightarrow> i_reg i < 2"
    and "i_opcode i \<notin> set comparisons"
  shows "decode_binary_insn m rip =
    (of_nat (length (encode i)), if i_opcode i \<in> set reg_writers then of_nat (full_reg i) else - 1)"
proof (cases "i_opcode i = [0xF6]")
  case True
  then have "length (i_imm i) = 1"
    using assms(1,4) by (simp add: insn_ok_def imm_size_def opcode_tables)
  moreover have "1 \<le> length (encode i)" using True by (simp add: encode_def)
  ultimately have "of_nat (length (encode i) - length (i_imm i)) + 1 = (of_nat (length (encode i)) :: u64)"
    by (simp add: of_nat_diff)
  with True decode_known [OF assms(1,2)] show ?thesis by (simp add: opcode_tables)
next
  case False
  with decode_known [OF assms(1,2)] assms(3,5) show ?thesis by simp
qed


definition demo_insn :: insn where
  "demo_insn = \<lparr>i_rex = Some 0x4C, i_opcode = [0x8B], i_reg = 1, i_operand = Indexed 3 2 0 (Disp8 0x10), i_imm = []\<rparr>"

lemma demo_insn_bytes: "encode demo_insn = [0x4C, 0x8B, 0x4C, 0xD0, 0x10]"
  by (simp add: demo_insn_def encode_def rex_bytes_def packed_def)

lemma demo_insn_ok: "insn_ok demo_insn"
  by (simp add: insn_ok_def demo_insn_def imm_size_def reg_writers_def)

definition demo_code :: mem where
  "demo_code = store_bytes (\<lambda>_. 0) 0x100001000 (encode demo_insn)"

lemma demo_code_at: "load_bytes demo_code 0x100001000 (length (encode demo_insn)) = encode demo_insn"
proof -
  have "length (encode demo_insn) < 2 ^ 64" by (simp add: demo_insn_bytes)
  then show ?thesis unfolding demo_code_def by (rule load_store_same [OF refl])
qed


section \<open>Skipping a crash\<close>

lemma reg_writers_known: "opc \<in> set reg_writers \<Longrightarrow> opc \<noteq> [0xC7] \<and> opc \<noteq> [0xF6] \<and> opc \<noteq> []"
  by (auto simp: reg_writers_def)

lemma length_disp_bytes: "length (disp_bytes d) \<le> 4"
  by (cases d) simp_all

lemma length_operand_bytes: "0 < length (operand_bytes r p) \<and> length (operand_bytes r p) \<le> 6"
proof (cases p)
  case (Indirect b d)
  then show ?thesis using length_disp_bytes [of d] by simp
next
  case (Indexed sc i b d)
  then show ?thesis using length_disp_bytes [of d] by simp
qed simp

lemma encode_length:
  assumes "insn_ok i"
  shows "0 < length (encode i) \<and> length (encode i) < 256"
proof -
  have "imm_size (i_opcode i) (i_reg i) = Some (length (i_imm i))"
    using assms by (simp add: insn_ok_def)
  note k = known_opcodes [OF this] this
  have "length (i_imm i) \<le> 4" using k(2) by (auto simp: imm_size_def split: if_splits)
  moreover have "length (i_opcode i) \<le> 2"
    using k(1) unfolding opcode_tables by (simp only: list.set append.simps insert_iff empty_iff) auto
  moreover have "length (rex_bytes i) \<le> 1" by (simp add: rex_bytes_def split: option.splits)
  ultimately show ?thesis
    using length_operand_bytes [of "i_reg i" "i_operand i"] unfolding encode_def length_append by linarith
qed

lemma full_reg_below: "i_reg i < 8 \<Longrightarrow> full_reg i < 16"
  by (auto simp: full_reg_def split: option.splits)

lemma zero_dest_reg: "k < 16 \<Longrightarrow> zero_dest (of_nat k) g = g(dest_gregs ! k := 0)"
proof -
  assume k: "k < 16"
  then have "sint (of_nat k :: i8) = int k"
    by (simp add: signed_of_nat signed_take_bit_int_eq_self)
  with k show ?thesis by (simp add: zero_dest_def)
qed

lemma zero_dest_none: "zero_dest (- 1) g = g"
  by (simp add: zero_dest_def)

lemma skip_count_less:
  assumes "sigsegv_handler sig g m cs = Resume g' cs'"
  shows "lifecycle_skip_count cs < 500 \<and> lifecycle_skip_count cs' = lifecycle_skip_count cs + 1"
  using assms
  by (auto simp: sigsegv_handler_def skip_crash_def save_crash_site_def Let_def split: if_splits option.splits prod.splits)

lemma skip_count_step:
  assumes "sigsegv_handler sig g m cs = LongJump cs'"
  shows "lifecycle_skip_count cs' = lifecycle_skip_count cs \<or>
    lifecycle_skip_count cs' = lifecycle_skip_count cs + 1"
  using assms
  by (auto simp: sigsegv_handler_def Let_def split: if_splits option.splits prod.splits)

text \<open>How often the program goes on in a sequence of faults.\<close>

fun resumes :: "(i32 \<times> gregs \<times> mem) list \<Rightarrow> crash_state \<Rightarrow> nat" where
  "resumes [] cs = 0"
| "resumes ((sig, g, m) # faults) cs =
     (case sigsegv_handler sig g m cs of
        Resume g' cs' \<Rightarrow> Suc (resumes faults cs')
      | LongJump cs' \<Rightarrow> resumes faults cs'
      | ExitProcess _ \<Rightarrow> 0)"

lemma unat_suc32: "unat (a :: u32) + 1 < 2 ^ 32 \<Longrightarrow> unat (a + 1) = unat a + 1"
  by (simp add: unat_word_ariths)

lemma resumes_bound:
  "unat (lifecycle_skip_count cs) + length faults < 2 ^ 32 \<Longrightarrow>
    resumes faults cs \<le> 500 - unat (lifecycle_skip_count cs)"
proof (induction faults arbitrary: cs)
  case (Cons f faults)
  obtain sig g m where f: "f = (sig, g, m)" by (cases f)
  have small: "unat (lifecycle_skip_count cs + 1) = unat (lifecycle_skip_count cs) + 1"
    using Cons.prems by (intro unat_suc32) simp
  show ?case
  proof (cases "sigsegv_handler sig g m cs")
    case (Resume g' cs')
    note c = skip_count_less [OF Resume]
    have "unat (lifecycle_skip_count cs) < 500" using c by (simp add: word_less_nat_alt)
    moreover have "resumes faults cs' \<le> 500 - unat (lifecycle_skip_count cs')"
      using Cons.prems c small by (intro Cons.IH) simp
    ultimately show ?thesis using c small by (simp add: f Resume)
  next
    case (LongJump cs')
    note c = skip_count_step [OF LongJump]
    have "resumes faults cs' \<le> 500 - unat (lifecycle_skip_count cs')"
      using Cons.prems c small by (intro Cons.IH) auto
    then show ?thesis using c small by (auto simp: f LongJump)
  next
    case (ExitProcess n)
    then show ?thesis by (simp add: f)
  qed
qed simp

lemma nop_sites_patch:
  "nop_sites mp ss k m =
    (k + of_nat (length (filter (\<lambda>(a, n). a \<noteq> 0 \<and> n \<noteq> 0 \<and> mp (a AND NOT 0xFFF)) ss)),
     \<lambda>x. if \<exists>(a, n) \<in> set ss. a \<noteq> 0 \<and> n \<noteq> 0 \<and> mp (a AND NOT 0xFFF) \<and> unat (x - a) < unat n then 0x90 else m x)"
proof (induction mp ss k m rule: nop_sites.induct)
  case (2 mp a n rest k m)
  show ?case
  proof (cases "a \<noteq> 0 \<and> n \<noteq> 0 \<and> mp (a AND NOT 0xFFF)")
    case True
    with 2 show ?thesis by (auto simp: store_bytes_def fun_eq_iff)
  next
    case False
    with 2 show ?thesis by (auto simp: fun_eq_iff)
  qed
qed simp

section \<open>The handler\<close>

definition demo_crash :: crash_state where
  "demo_crash = crash_init\<lparr>recovery_active := True, lifecycle_skip_mode := True\<rparr>"

definition demo_fault :: gregs where
  "demo_fault = (\<lambda>_. 7)(RIP := 0x100001000)"

text \<open>
  While a program starts, faults are survived only a bounded number of times: whatever the
  sequence of faults, registers and memories, from the state with \<open>n\<close> skips already counted the
  handler lets the program go on at most \<open>500 - n\<close> times (the counter wraps only after
  \<open>2 ^ 32\<close> faults), so a program that faults forever is not run forever.
\<close>

theorem skips_bounded:
  assumes "unat (lifecycle_skip_count cs) + length faults < 2 ^ 32"
  shows "resumes faults cs \<le> 500 - unat (lifecycle_skip_count cs)"
  by (rule resumes_bound [OF assms])

theorem skips_bounded_witness:
  "resumes (replicate 1000 (11, demo_fault, demo_code)) (grafted_set_lifecycle_skip_mode True demo_crash) \<le> 500"
  using skips_bounded [of "grafted_set_lifecycle_skip_mode True demo_crash" "replicate 1000 (11, demo_fault, demo_code)"]
  by (simp add: grafted_set_lifecycle_skip_mode_def)

lemma ucast_of_nat_64_8: "ucast (of_nat n :: u64) = (of_nat n :: u8)"
  by (rule bit_word_eqI) (auto simp: bit_simps)

lemma skip_state:
  assumes "insn_ok i" and "load_bytes m (g RIP) (length (encode i)) = encode i"
    and "i_opcode i \<noteq> [0xC7]" and "i_opcode i = [0xF6] \<Longrightarrow> i_reg i < 2" and "i_opcode i \<notin> set comparisons"
    and "0x100000000 \<le> g RIP" "g RIP < 0x100200000"
    and "\<not> in_handler cs" "recovery_active cs" "lifecycle_skip_mode cs" "sig \<noteq> SIGABRT"
    and "lifecycle_skip_count cs < 500" "unat (crash_site_count cs) < 256"
  shows "sigsegv_handler sig g m cs =
    Resume
      (if i_opcode i \<in> set reg_writers
       then g(RIP := g RIP + of_nat (length (encode i)), dest_gregs ! full_reg i := 0)
       else g(RIP := g RIP + of_nat (length (encode i))))
      (cs\<lparr>in_handler := False, lifecycle_skip_count := lifecycle_skip_count cs + 1,
         crash_site_count := crash_site_count cs + 1,
         crash_sites := (crash_sites cs)[unat (crash_site_count cs) := (g RIP, of_nat (length (encode i)))]\<rparr>)"
proof -
  note len = encode_length [OF assms(1)]
  have "unat (of_nat (length (encode i)) :: u64) = length (encode i)"
    using len by (intro unat_of_nat_u64) simp
  then have pos: "(0 :: u64) < of_nat (length (encode i))" using len by (simp add: word_less_nat_alt)
  have "full_reg i < 16" using assms(1) by (intro full_reg_below) (simp add: insn_ok_def)
  note z = zero_dest_reg [OF this] zero_dest_none
  have nz: "g RIP \<noteq> 0" using assms(6) by auto
  show ?thesis
    using assms(6-13) nz pos
    by (simp add: sigsegv_handler_def skip_crash_def save_crash_site_def Let_def decode_exact [OF assms(1-5)] z ucast_of_nat_64_8)
qed



text \<open>
  What the decoder misreads: for a move of a 32 bit immediate it answers a length three bytes
  short, for the members of the \<open>0xF6\<close> group without an immediate one byte too many, and for a
  comparison of a register with memory it names a register to clear although the
  instruction writes none.
\<close>

theorem decode_misreads:
  assumes "insn_ok i" and "load_bytes m rip (length (encode i)) = encode i"
  shows "(i_opcode i = [0xC7] \<longrightarrow> decode_binary_insn m rip = (of_nat (length (encode i)) - 3, - 1))
    \<and> (i_opcode i = [0xF6] \<and> 2 \<le> i_reg i \<longrightarrow> decode_binary_insn m rip = (of_nat (length (encode i)) + 1, - 1))
    \<and> (i_opcode i \<in> set comparisons \<longrightarrow>
        decode_binary_insn m rip = (of_nat (length (encode i)), of_nat (full_reg i)))"
proof (intro conjI impI)
  note d = decode_known [OF assms]
  have imm: "imm_size (i_opcode i) (i_reg i) = Some (length (i_imm i))" using assms(1) by (simp add: insn_ok_def)
  show "decode_binary_insn m rip = (of_nat (length (encode i)) - 3, - 1)" if "i_opcode i = [0xC7]"
  proof -
    have "length (i_imm i) = 4" using imm that by (simp add: imm_size_def opcode_tables)
    moreover have "4 \<le> length (encode i)" using \<open>length (i_imm i) = 4\<close> by (simp add: encode_def)
    ultimately show ?thesis using d that by (simp add: of_nat_diff opcode_tables)
  qed
  show "decode_binary_insn m rip = (of_nat (length (encode i)) + 1, - 1)" if "i_opcode i = [0xF6] \<and> 2 \<le> i_reg i"
    using d that imm by (simp add: imm_size_def opcode_tables)
  show "decode_binary_insn m rip = (of_nat (length (encode i)), of_nat (full_reg i))" if "i_opcode i \<in> set comparisons"
    using d that by (auto simp: comparisons_def)
qed

definition demo_store :: insn where
  "demo_store = \<lparr>i_rex = None, i_opcode = [0xC7], i_reg = 0, i_operand = Indirect 0 NoDisp, i_imm = [1, 2, 3, 4]\<rparr>"

theorem decode_misreads_witness:
  "decode_binary_insn (store_bytes (\<lambda>_. 0) 0x100001000 [0xC7, 0, 1, 2, 3, 4]) 0x100001000 = (3, - 1)"
proof -
  have b: "encode demo_store = [0xC7, 0, 1, 2, 3, 4]"
    by (simp add: demo_store_def encode_def rex_bytes_def packed_def)
  have "insn_ok demo_store" by (simp add: insn_ok_def demo_store_def imm_size_def opcode_tables)
  moreover have "length (encode demo_store) < 2 ^ 64" unfolding b by simp
  note load_store_same [OF refl this, of "\<lambda>_. 0" "0x100001000"]
  ultimately have "decode_binary_insn (store_bytes (\<lambda>_. 0) 0x100001000 (encode demo_store)) 0x100001000 =
      (of_nat (length (encode demo_store)) - 3, - 1)"
    using decode_misreads [of demo_store "store_bytes (\<lambda>_. 0) 0x100001000 (encode demo_store)" "0x100001000"]
    by (simp add: demo_store_def)
  then show ?thesis by (simp add: b)
qed

end
