(* ===== verification/Notification.thy ===== *)
theory Notification
  imports ObjcRuntime CFStrings
begin

text \<open>
  \<open>crates/grafted-frameworks/src/foundation/notification.rs\<close>: the notification center. The
  world holds the registered observers, the Core Foundation objects, the Objective-C runtime
  with the memory, and the state of the program, whose callbacks are an arbitrary function.
  An object is read as a string when the heap holds it, and as a C string otherwise. The mutex
  is not modelled: the code releases it before it calls back. The lemmas show which observers
  a notification reaches.
\<close>

section \<open>State\<close>

record observer =
  ob_observer :: ptr
  ob_selector :: ptr
  ob_name :: "u8 list option"
  ob_object :: ptr

record 'app center_world =
  observers :: "observer list"
  center :: ptr
  cf_objects :: cf_heap
  runtime :: objc
  app :: 'app

type_synonym 'app callback = "imp \<Rightarrow> ptr \<Rightarrow> ptr \<Rightarrow> ptr \<Rightarrow> 'app center_world \<Rightarrow> 'app center_world"

section \<open>Operations\<close>

definition from_utf8 :: "u8 list \<Rightarrow> u8 list option" where
  "from_utf8 bs = (if utf8_decode bs = None then None else Some bs)"

text \<open>The outer \<open>None\<close>: a C string that never ends.\<close>

definition read_cfstring :: "ptr \<Rightarrow> cf_heap \<Rightarrow> mem \<Rightarrow> u8 list option option" where
  "read_cfstring p h m =
     (if p = 0 then Some None
      else (case h p of
              Some obj \<Rightarrow>
                if type_id obj = CF_STRING_TYPE_ID
                then (case payload obj of CFString bs \<Rightarrow> Some (from_utf8 bs) | _ \<Rightarrow> None)
                else map_option from_utf8 (cstr_from m p)
            | None \<Rightarrow> map_option from_utf8 (cstr_from m p)))"

abbreviation name_at :: "ptr \<Rightarrow> 'app center_world \<Rightarrow> u8 list option option" where
  "name_at p w \<equiv> read_cfstring p (cf_objects w) (objc_mem (runtime w))"

definition dispatch_one ::
    "'app callback \<Rightarrow> ptr \<Rightarrow> ptr \<Rightarrow> ptr \<Rightarrow> 'app center_world \<Rightarrow> 'app center_world option" where
  "dispatch_one guest observer selector notification w =
     (if observer = 0 \<or> selector = 0 then Some w
      else (case grafted_lookup_method observer selector (runtime w) of
              None \<Rightarrow> None
            | Some (None, rt1) \<Rightarrow> Some (w\<lparr>runtime := rt1\<rparr>)
            | Some (Some imp, rt1) \<Rightarrow> Some (guest imp observer selector notification (w\<lparr>runtime := rt1\<rparr>))))"

text \<open>
  \<open>p\<close> is the address \<open>calloc\<close> returns (0 when it fails), \<open>other\<close> the object another thread has
  stored in the meantime (0 when none has).
\<close>

definition ns_notification_center_default ::
    "ptr \<Rightarrow> ptr \<Rightarrow> 'app center_world \<Rightarrow> ptr \<times> 'app center_world" where
  "ns_notification_center_default p other w =
     (if center w \<noteq> 0 then (center w, w)
      else if p = 0 then (other, w\<lparr>center := other\<rparr>)
      else if other = 0 then (p, w\<lparr>center := p\<rparr>)
      else (other, w\<lparr>center := other\<rparr>))"

definition ns_distributed_notification_center_default ::
    "ptr \<Rightarrow> ptr \<Rightarrow> 'app center_world \<Rightarrow> ptr \<times> 'app center_world" where
  "ns_distributed_notification_center_default = ns_notification_center_default"

definition ns_notification_center_add_observer ::
    "ptr \<Rightarrow> ptr \<Rightarrow> ptr \<Rightarrow> ptr \<Rightarrow> 'app center_world \<Rightarrow> 'app center_world option" where
  "ns_notification_center_add_observer observer selector name object w =
     map_option (\<lambda>name_str. w\<lparr>observers := observers w @
         [\<lparr>ob_observer = observer, ob_selector = selector, ob_name = name_str, ob_object = object\<rparr>]\<rparr>)
       (name_at name w)"

definition ns_notification_center_remove_observer :: "ptr \<Rightarrow> 'app center_world \<Rightarrow> 'app center_world" where
  "ns_notification_center_remove_observer observer w =
     w\<lparr>observers := filter (\<lambda>ob. ob_observer ob \<noteq> observer) (observers w)\<rparr>"

definition selected_for_removal :: "ptr \<Rightarrow> u8 list option \<Rightarrow> ptr \<Rightarrow> observer \<Rightarrow> bool" where
  "selected_for_removal observer name_str object ob =
     (let observer_match = (ob_observer ob = observer);
          name_match = (name_str = None \<or> ob_name ob = name_str);
          object_match = (object = 0 \<or> ob_object ob = object)
      in observer_match \<and> name_match \<and> object_match)"

definition ns_notification_center_remove_observer_name_object ::
    "ptr \<Rightarrow> ptr \<Rightarrow> ptr \<Rightarrow> 'app center_world \<Rightarrow> 'app center_world option" where
  "ns_notification_center_remove_observer_name_object observer name object w =
     map_option (\<lambda>name_str.
         w\<lparr>observers := filter (\<lambda>ob. \<not> selected_for_removal observer name_str object ob) (observers w)\<rparr>)
       (name_at name w)"

definition matching :: "u8 list option \<Rightarrow> ptr \<Rightarrow> observer \<Rightarrow> bool" where
  "matching name_str object ob =
     (let name_match = (ob_name ob = None \<or> ob_name ob = name_str);
          object_match = (ob_object ob = 0 \<or> object = 0 \<or> ob_object ob = object)
      in name_match \<and> object_match)"

definition matches :: "u8 list option \<Rightarrow> ptr \<Rightarrow> observer list \<Rightarrow> (ptr \<times> ptr) list" where
  "matches name_str object obs =
     map (\<lambda>ob. (ob_observer ob, ob_selector ob)) (filter (matching name_str object) obs)"

fun dispatch_all ::
    "'app callback \<Rightarrow> ptr \<Rightarrow> (ptr \<times> ptr) list \<Rightarrow> 'app center_world \<Rightarrow> 'app center_world option" where
  "dispatch_all guest notification [] w = Some w"
| "dispatch_all guest notification ((observer, selector) # rest) w =
     Option.bind (dispatch_one guest observer selector notification w) (dispatch_all guest notification rest)"

definition post_by_name :: "'app callback \<Rightarrow> ptr \<Rightarrow> ptr \<Rightarrow> 'app center_world \<Rightarrow> 'app center_world option" where
  "post_by_name guest name object w =
     Option.bind (name_at name w) (\<lambda>name_str.
       dispatch_all guest name (matches name_str object (observers w)) w)"

definition ns_notification_center_post ::
    "'app callback \<Rightarrow> ptr \<Rightarrow> ptr \<Rightarrow> 'app center_world \<Rightarrow> 'app center_world option" where
  "ns_notification_center_post guest name object w = post_by_name guest name object w"

definition ns_notification_center_post_user_info ::
    "'app callback \<Rightarrow> ptr \<Rightarrow> ptr \<Rightarrow> ptr \<Rightarrow> 'app center_world \<Rightarrow> 'app center_world option" where
  "ns_notification_center_post_user_info guest name object user_info w = post_by_name guest name object w"

text \<open>\<open>p\<close>: the address of the new string. A slice without its final NUL is a panic.\<close>

definition post_notification_name_static ::
    "'app callback \<Rightarrow> ptr \<Rightarrow> u8 list \<Rightarrow> 'app center_world \<Rightarrow> 'app center_world option" where
  "post_notification_name_static guest p name_cstr w =
     (if name_cstr = [] \<or> last name_cstr \<noteq> 0 then None
      else (case CFStringCreateWithCString p (Some (takeWhile (\<lambda>b. b \<noteq> 0) name_cstr)) (cf_objects w) of
              (cf, h1) \<Rightarrow> post_by_name guest cf 0 (w\<lparr>cf_objects := h1\<rparr>)))"

section \<open>Delivery\<close>

text \<open>A method is registered for the selector: the lookup finds it at once.\<close>

definition implements :: "objc \<Rightarrow> ptr \<Rightarrow> ptr \<Rightarrow> imp \<Rightarrow> bool" where
  "implements rt observer selector imp =
     (observer \<noteq> 0 \<and> selector \<noteq> 0 \<and>
      lookup_in (method_registry rt) selector [observer, safe_isa (objc_mem rt) observer] = Some (Some imp))"

lemma dispatch_implements:
  "implements (runtime w) observer selector imp \<Longrightarrow>
    dispatch_one guest observer selector n w = Some (guest imp observer selector n w)"
  by (simp add: dispatch_one_def implements_def grafted_lookup_method_def Let_def del: lookup_in.simps)

text \<open>
  The calls a program sees, as its callbacks log them: whatever else they do, including
  changes to the list of observers, they keep the methods of the runtime.
\<close>

definition logs_calls :: "('app \<Rightarrow> (imp \<times> ptr \<times> ptr \<times> ptr) list) \<Rightarrow> 'app callback \<Rightarrow> bool" where
  "logs_calls log guest \<longleftrightarrow> (\<forall>imp ob sel n w.
     log (app (guest imp ob sel n w)) = log (app w) @ [(imp, ob, sel, n)]
     \<and> runtime (guest imp ob sel n w) = runtime w)"

lemma dispatch_all_logs:
  assumes "logs_calls log guest"
  shows "\<forall>(ob, sel) \<in> set ms. implements rt ob sel (f ob sel) \<Longrightarrow> runtime w = rt \<Longrightarrow>
    \<exists>w'. dispatch_all guest n ms w = Some w' \<and> runtime w' = rt
      \<and> log (app w') = log (app w) @ map (\<lambda>(ob, sel). (f ob sel, ob, sel, n)) ms"
proof (induction ms arbitrary: w)
  case (Cons m ms)
  obtain ob sel where m: "m = (ob, sel)" by (cases m)
  define w1 where "w1 = guest (f ob sel) ob sel n w"
  have one: "dispatch_one guest ob sel n w = Some w1"
    using Cons.prems by (simp add: m w1_def dispatch_implements)
  have "runtime w1 = rt" and log: "log (app w1) = log (app w) @ [(f ob sel, ob, sel, n)]"
    using assms Cons.prems(2) by (simp_all add: logs_calls_def w1_def)
  then obtain w' where "dispatch_all guest n ms w1 = Some w'" "runtime w' = rt"
      "log (app w') = log (app w1) @ map (\<lambda>(ob, sel). (f ob sel, ob, sel, n)) ms"
    using Cons.IH [of w1] Cons.prems(1) by auto
  then show ?case by (auto simp: m one log)
qed simp

lemma post_reaches:
  assumes "logs_calls log guest" and "name_at name w = Some name_str"
    and "\<forall>ob \<in> set (observers w). matching name_str object ob \<longrightarrow>
      implements (runtime w) (ob_observer ob) (ob_selector ob) (f (ob_observer ob) (ob_selector ob))"
  shows "\<exists>w'. post_by_name guest name object w = Some w'
    \<and> log (app w') = log (app w) @
        map (\<lambda>ob. (f (ob_observer ob) (ob_selector ob), ob_observer ob, ob_selector ob, name))
          (filter (matching name_str object) (observers w))"
proof -
  have "\<forall>(ob, sel) \<in> set (matches name_str object (observers w)). implements (runtime w) ob sel (f ob sel)"
    using assms(3) by (auto simp: matches_def)
  from dispatch_all_logs [OF assms(1) this refl, of name]
  show ?thesis by (auto simp: post_by_name_def assms(2) matches_def comp_def)
qed


definition demo_callback :: "(imp \<times> ptr \<times> ptr \<times> ptr) list callback" where
  "demo_callback imp ob sel n w =
     (ns_notification_center_remove_observer ob w)\<lparr>app := app w @ [(imp, ob, sel, n)]\<rparr>"

definition demo_center :: "(imp \<times> ptr \<times> ptr \<times> ptr) list center_world" where
  "demo_center = \<lparr>observers =
       [\<lparr>ob_observer = 0x5000, ob_selector = 0x10, ob_name = Some [65], ob_object = 0\<rparr>,
        \<lparr>ob_observer = 0x5000, ob_selector = 0x10, ob_name = None, ob_object = 0\<rparr>,
        \<lparr>ob_observer = 0x5000, ob_selector = 0x10, ob_name = Some [66], ob_object = 0\<rparr>],
     center = 0, cf_objects = [0x100 \<mapsto> cf_new CF_STRING_TYPE_ID (CFString [65])],
     runtime = (objc_empty (\<lambda>_. 0))\<lparr>method_registry := [(0x5000, 0x10) \<mapsto> Some (Code 7)]\<rparr>, app = []\<rparr>"

lemma demo_center_name: "name_at 0x100 demo_center = Some (Some [65])"
proof -
  have "type_id (cf_new CF_STRING_TYPE_ID (CFString [65])) = CF_STRING_TYPE_ID"
    by (simp add: type_id_def cf_new_def CF_STRING_TYPE_ID_def)
  moreover have "payload (cf_new CF_STRING_TYPE_ID (CFString [65])) = CFString [65]"
    by (simp add: cf_new_def)
  ultimately show ?thesis by (simp add: read_cfstring_def demo_center_def from_utf8_def)
qed


section \<open>Registration\<close>

text \<open>
  Registration decides delivery: an observer added for a name and an object is reached by a
  notification exactly when they match, behind the earlier ones; once removed it is reached by
  none, and the others are reached as before; removal by name and object takes exactly
  the registrations it names, a null name or object standing for all of them.
\<close>

theorem registration_decides:
  assumes "name_at name w = Some name_str"
    and "ns_notification_center_add_observer ob sel name obj w = Some w1"
    and "ns_notification_center_remove_observer_name_object ob name obj w1 = Some w2"
  shows "matches n o' (observers w1) = matches n o' (observers w) @
      (if (name_str = None \<or> name_str = n) \<and> (obj = 0 \<or> o' = 0 \<or> obj = o') then [(ob, sel)] else [])
    \<and> matches n o' (observers (ns_notification_center_remove_observer ob w1)) =
        filter (\<lambda>m. fst m \<noteq> ob) (matches n o' (observers w))
    \<and> matches n o' (observers w2) = matches n o'
        (filter (\<lambda>r. \<not> (ob_observer r = ob \<and> (name_str = None \<or> ob_name r = name_str) \<and> (obj = 0 \<or> ob_object r = obj)))
          (observers w))"
proof -
  have w1: "w1 = w\<lparr>observers := observers w @
      [\<lparr>ob_observer = ob, ob_selector = sel, ob_name = name_str, ob_object = obj\<rparr>]\<rparr>"
    using assms(1,2) by (simp add: ns_notification_center_add_observer_def)
  then have "name_at name w1 = Some name_str" using assms(1) by simp
  then have w2: "w2 = w1\<lparr>observers := filter (\<lambda>r. \<not> selected_for_removal ob name_str obj r) (observers w1)\<rparr>"
    using assms(3) by (simp add: ns_notification_center_remove_observer_name_object_def)
  have "matches n o' (observers (ns_notification_center_remove_observer ob w1)) =
      filter (\<lambda>m. fst m \<noteq> ob) (matches n o' (observers w))"
    by (simp add: w1 matches_def ns_notification_center_remove_observer_def filter_map comp_def
        conj_commute)
  then show ?thesis
    by (auto simp: w1 w2 matches_def matching_def selected_for_removal_def Let_def)
qed

theorem registration_decides_witness:
  "\<exists>w1. ns_notification_center_add_observer 0x6000 0x20 0x100 0 demo_center = Some w1
    \<and> matches (Some [65]) 0 (observers w1) = [(0x5000, 0x10), (0x5000, 0x10), (0x6000, 0x20)]"
proof -
  note name = demo_center_name
  obtain w1 where w1: "ns_notification_center_add_observer 0x6000 0x20 0x100 0 demo_center = Some w1"
    using name by (simp add: ns_notification_center_add_observer_def)
  then have "name_at 0x100 w1 = Some (Some [65])"
    using name by (auto simp: ns_notification_center_add_observer_def)
  then obtain w2 where "ns_notification_center_remove_observer_name_object 0x6000 0x100 0 w1 = Some w2"
    by (simp add: ns_notification_center_remove_observer_name_object_def)
  from registration_decides [OF name w1 this, of "Some [65]" 0] w1
  show ?thesis by (auto simp: demo_center_def matches_def matching_def)
qed

text \<open>
  Registering for a name whose bytes are not UTF-8 registers for every name.
\<close>

theorem invalid_name_is_wildcard:
  assumes "cf_objects w p = Some ob" "type_id ob = CF_STRING_TYPE_ID" "payload ob = CFString bs"
    and "utf8_decode bs = None" "p \<noteq> 0"
    and "ns_notification_center_add_observer observer sel p 0 w = Some w1"
  shows "(observer, sel) \<in> set (matches n object (observers w1))"
proof -
  have "observers w1 = observers w @ [\<lparr>ob_observer = observer, ob_selector = sel, ob_name = None, ob_object = 0\<rparr>]"
    using assms by (auto simp: ns_notification_center_add_observer_def read_cfstring_def from_utf8_def)
  then have "matches n object (observers w1) = matches n object (observers w) @ [(observer, sel)]"
    by (simp add: matches_def matching_def)
  then show ?thesis by simp
qed

end
