(* ===== verification/Pasteboard.thy ===== *)
theory Pasteboard
  imports Notification
begin

text \<open>
  \<open>crates/grafted-frameworks/src/appkit/pasteboard.rs\<close>: the pasteboard on top of a clipboard
  tool of the host, and the thread that polls it. The tools are parameters, as functions of the
  clipboard; the pasteboard is part of the state callbacks of the notification center may
  change. Operations that are not atomic are given by their steps, so that the polling thread
  can run between them. The lemmas show the round trip through the clipboard and how
  changes are counted.
\<close>

section \<open>State\<close>

datatype backend = Wayland | X11Xclip | X11Xsel | NoBackend

text \<open>
  The host: its environment, the programs it has, what a program prints (\<open>None\<close>: it does not
  start; otherwise whether it succeeds, and its output) and what it does with its input.
\<close>

record 'c clip_host =
  wayland_display :: bool
  which :: "string \<Rightarrow> bool"
  run_output :: "string \<Rightarrow> string list \<Rightarrow> 'c \<Rightarrow> (bool \<times> u8 list) option"
  spawn_input :: "string \<Rightarrow> string list \<Rightarrow> u8 list \<Rightarrow> 'c \<Rightarrow> 'c option"

record ('c, 'k) pboard =
  clip :: 'c
  change_count :: i64
  last_content :: "u8 list option"
  poll_started :: bool
  pb_object :: ptr
  program :: 'k

type_synonym ('c, 'k) pb_world = "('c, 'k) pboard center_world"

definition in_app :: "('a \<Rightarrow> 'a) \<Rightarrow> 'a center_world \<Rightarrow> 'a center_world" where
  "in_app f w = w\<lparr>app := f (app w)\<rparr>"

section \<open>The clipboard tools\<close>

text \<open>The environment does not change, so the cached answer is the first one.\<close>

definition backend_of :: "'c clip_host \<Rightarrow> backend" where
  "backend_of H =
     (if wayland_display H \<and> which H ''wl-copy'' \<and> which H ''wl-paste'' then Wayland
      else if which H ''xclip'' then X11Xclip
      else if which H ''xsel'' then X11Xsel
      else NoBackend)"

fun read_command :: "backend \<Rightarrow> (string \<times> string list) option" where
  "read_command Wayland = Some (''wl-paste'', [''--no-newline''])"
| "read_command X11Xclip = Some (''xclip'', [''-selection'', ''clipboard'', ''-o''])"
| "read_command X11Xsel = Some (''xsel'', [''--clipboard'', ''--output''])"
| "read_command NoBackend = None"

fun write_command :: "backend \<Rightarrow> (string \<times> string list) option" where
  "write_command Wayland = Some (''wl-copy'', [])"
| "write_command X11Xclip = Some (''xclip'', [''-selection'', ''clipboard'', ''-i''])"
| "write_command X11Xsel = Some (''xsel'', [''--clipboard'', ''--input''])"
| "write_command NoBackend = None"

definition read_clipboard_text :: "'c clip_host \<Rightarrow> 'c \<Rightarrow> u8 list option" where
  "read_clipboard_text H c =
     (case read_command (backend_of H) of
        None \<Rightarrow> None
      | Some (prog, args) \<Rightarrow>
          (case run_output H prog args c of
             None \<Rightarrow> None
           | Some (success, stdout) \<Rightarrow> if \<not> success then None else from_utf8 stdout))"

definition write_clipboard_text :: "'c clip_host \<Rightarrow> u8 list \<Rightarrow> 'c \<Rightarrow> bool \<times> 'c" where
  "write_clipboard_text H text c =
     (case write_command (backend_of H) of
        None \<Rightarrow> (False, c)
      | Some (prog, args) \<Rightarrow>
          (case spawn_input H prog args text c of
             None \<Rightarrow> (False, c)
           | Some c' \<Rightarrow> (True, c')))"

section \<open>Polling\<close>

definition ensure_polling :: "'c clip_host \<Rightarrow> ('c, 'k) pboard \<Rightarrow> ('c, 'k) pboard" where
  "ensure_polling H pb =
     (if poll_started pb then pb
      else (case read_clipboard_text H (clip pb) of
              Some s \<Rightarrow> pb\<lparr>last_content := Some s, poll_started := True\<rparr>
            | None \<Rightarrow> pb\<lparr>poll_started := True\<rparr>))"

text \<open>One round of the thread, after the clipboard has been read; \<open>p\<close> is the address of the notification's name.\<close>

definition poll_update ::
    "('c, 'k) pboard callback \<Rightarrow> ptr \<Rightarrow> u8 list option \<Rightarrow> ('c, 'k) pb_world \<Rightarrow> ('c, 'k) pb_world option" where
  "poll_update guest p current w =
     (if last_content (app w) \<noteq> current then
        post_notification_name_static guest p (bytes_of_text ''NSPasteboardDidChangeNotification'' @ [0])
          (in_app (\<lambda>pb. pb\<lparr>last_content := current, change_count := change_count pb + 1\<rparr>) w)
      else Some w)"

definition poll_once ::
    "'c clip_host \<Rightarrow> ('c, 'k) pboard callback \<Rightarrow> ptr \<Rightarrow> ('c, 'k) pb_world \<Rightarrow> ('c, 'k) pb_world option" where
  "poll_once H guest p w = poll_update guest p (read_clipboard_text H (clip (app w))) w"

section \<open>Operations\<close>

definition bump_change_count :: "('c, 'k) pboard \<Rightarrow> i64 \<times> ('c, 'k) pboard" where
  "bump_change_count pb = (change_count pb + 1, pb\<lparr>change_count := change_count pb + 1\<rparr>)"

definition ns_pasteboard_general :: "'c clip_host \<Rightarrow> ptr \<Rightarrow> ptr \<Rightarrow> ('c, 'k) pboard \<Rightarrow> ptr \<times> ('c, 'k) pboard" where
  "ns_pasteboard_general H p other pb =
     (if pb_object pb \<noteq> 0 then (pb_object pb, pb)
      else
        let pb1 = ensure_polling H pb in
        if p = 0 then (other, pb1\<lparr>pb_object := other\<rparr>)
        else if other = 0 then (p, pb1\<lparr>pb_object := p\<rparr>)
        else (other, pb1\<lparr>pb_object := other\<rparr>))"

definition ns_pasteboard_string_for_type ::
    "'c clip_host \<Rightarrow> ptr \<Rightarrow> ('c, 'k) pb_world \<Rightarrow> ptr \<times> ('c, 'k) pb_world" where
  "ns_pasteboard_string_for_type H p w =
     (case read_clipboard_text H (clip (app w)) of
        Some s \<Rightarrow>
          if s \<noteq> [] \<and> 0 \<notin> set s
          then (case CFStringCreateWithCString p (Some s) (cf_objects w) of
                  (r, h) \<Rightarrow> (r, w\<lparr>cf_objects := h\<rparr>))
          else (0, w)
      | None \<Rightarrow> (0, w))"

text \<open>The steps of \<open>setString:forType:\<close> after the string has been read.\<close>

definition set_write :: "'c clip_host \<Rightarrow> u8 list \<Rightarrow> ('c, 'k) pboard \<Rightarrow> bool \<times> ('c, 'k) pboard" where
  "set_write H text pb =
     (case write_clipboard_text H text (clip pb) of (ok, c) \<Rightarrow> (ok, pb\<lparr>clip := c\<rparr>))"

definition set_bump :: "('c, 'k) pboard \<Rightarrow> ('c, 'k) pboard" where
  "set_bump pb = snd (bump_change_count pb)"

definition set_last :: "u8 list \<Rightarrow> ('c, 'k) pboard \<Rightarrow> ('c, 'k) pboard" where
  "set_last text pb = pb\<lparr>last_content := Some text\<rparr>"

definition ns_pasteboard_set_string ::
    "'c clip_host \<Rightarrow> ptr \<Rightarrow> ('c, 'k) pb_world \<Rightarrow> (bool \<times> ('c, 'k) pb_world) option" where
  "ns_pasteboard_set_string H string w =
     map_option (\<lambda>text_opt.
       case text_opt of
         None \<Rightarrow> (False, w)
       | Some text \<Rightarrow>
           (case set_write H text (app w) of
              (ok, pb1) \<Rightarrow>
                (ok, w\<lparr>app := (if ok then set_last text (set_bump pb1) else pb1)\<rparr>)))
       (name_at string w)"

definition ns_pasteboard_clear :: "'c clip_host \<Rightarrow> ('c, 'k) pboard \<Rightarrow> i64 \<times> ('c, 'k) pboard" where
  "ns_pasteboard_clear H pb = bump_change_count (set_last [] (snd (set_write H [] pb)))"

definition ns_pasteboard_change_count :: "'c clip_host \<Rightarrow> ('c, 'k) pboard \<Rightarrow> i64 \<times> ('c, 'k) pboard" where
  "ns_pasteboard_change_count H pb = (let pb1 = ensure_polling H pb in (change_count pb1, pb1))"

text \<open>\<open>p1\<close> and \<open>p2\<close>: the addresses of the new string and the new array.\<close>

definition ns_pasteboard_types :: "ptr \<Rightarrow> ptr \<Rightarrow> cf_heap \<Rightarrow> (ptr \<times> cf_heap) option" where
  "ns_pasteboard_types p1 p2 h =
     (case CFStringCreateWithCString p1 (Some (bytes_of_text ''public.utf8-plain-text'')) h of
        (cf_type, h1) \<Rightarrow> CFArrayCreate p2 (Some (\<lambda>_. cf_type)) 1 h1)"

definition ns_pasteboard_items :: "ptr \<Rightarrow> cf_heap \<Rightarrow> (ptr \<times> cf_heap) option" where
  "ns_pasteboard_items p h = CFArrayCreate p None 0 h"

definition ns_pasteboard_declare_types :: "('c, 'k) pboard \<Rightarrow> i64 \<times> ('c, 'k) pboard" where
  "ns_pasteboard_declare_types pb = bump_change_count pb"

definition ns_pasteboard_data_for_type :: ptr where
  "ns_pasteboard_data_for_type = 0"

section \<open>Through the clipboard and back\<close>

text \<open>What the tools do: the reader prints what the writer was last given.\<close>

definition honest :: "'c clip_host \<Rightarrow> bool" where
  "honest H \<longleftrightarrow> (\<forall>wp wa rp ra text c c'.
     write_command (backend_of H) = Some (wp, wa) \<and> read_command (backend_of H) = Some (rp, ra)
       \<and> spawn_input H wp wa text c = Some c' \<longrightarrow> run_output H rp ra c' = Some (True, text))"

lemma read_cfstring_utf8: "read_cfstring p h m = Some (Some bs) \<Longrightarrow> from_utf8 bs = Some bs"
  by (auto simp: read_cfstring_def from_utf8_def split: if_splits option.splits cf_payload.splits)

lemma read_after_write:
  assumes "honest H" "write_clipboard_text H text c = (True, c')" "from_utf8 text = Some text"
  shows "read_clipboard_text H c' = Some text"
proof -
  obtain wp wa where w: "write_command (backend_of H) = Some (wp, wa)" "spawn_input H wp wa text c = Some c'"
    using assms(2) by (auto simp: write_clipboard_text_def split: option.splits)
  obtain rp ra where r: "read_command (backend_of H) = Some (rp, ra)"
    using w(1) by (cases "backend_of H") auto
  have "run_output H rp ra c' = Some (True, text)" using assms(1) w r unfolding honest_def by blast
  then show ?thesis by (simp add: read_clipboard_text_def r assms(3))
qed

lemma new_string_name:
  assumes "p \<noteq> 0" "from_utf8 bs = Some bs" "CFStringCreateWithCString p (Some bs) h = (r, h')"
  shows "r = p \<and> h' p = Some (cf_new CF_STRING_TYPE_ID (CFString bs)) \<and> read_cfstring r h' m = Some (Some bs)"
proof -
  have t: "type_id (cf_new CF_STRING_TYPE_ID (CFString bs)) = CF_STRING_TYPE_ID"
    by (simp add: type_id_def cf_new_def CF_STRING_TYPE_ID_def)
  have "payload (cf_new CF_STRING_TYPE_ID (CFString bs)) = CFString bs" by (simp add: cf_new_def)
  with assms t show ?thesis
    by (auto simp: CFStringCreateWithCString_def CFStringInner_new_def as_str_def read_cfstring_def from_utf8_def
        split: if_splits)
qed


section \<open>The polling thread\<close>

lemma ascii_utf8: "ascii_bytes bs \<Longrightarrow> from_utf8 bs = Some bs"
  by (simp add: from_utf8_def utf8_decode_ascii)

lemma takeWhile_nul: "0 \<notin> set bs \<Longrightarrow> takeWhile (\<lambda>b. b \<noteq> (0 :: u8)) (bs @ [0]) = bs"
  by (induction bs) auto

abbreviation change_name :: "u8 list" where
  "change_name \<equiv> bytes_of_text ''NSPasteboardDidChangeNotification''"

lemma change_name_ascii: "ascii_bytes change_name" "0 \<notin> set change_name"
  by (simp_all add: ascii_bytes_def bytes_of_text_def)

text \<open>
  A change made by another program is noticed once: when the clipboard differs from the last
  content, one round of the polling thread counts it, remembers the new content and calls
  every observer of \<open>NSPasteboardDidChangeNotification\<close> (and of every name), in order of
  registration, with a string of that name; and as long as the clipboard stays, further
  rounds do nothing.
\<close>

theorem poll_notifies:
  assumes log: "logs_calls (lg \<circ> program) guest"
    and keeps: "\<And>imp ob sel n w. clip (app (guest imp ob sel n w)) = clip (app w)
        \<and> last_content (app (guest imp ob sel n w)) = last_content (app w)
        \<and> change_count (app (guest imp ob sel n w)) = change_count (app w)"
    and new: "read_clipboard_text H (clip (app w)) \<noteq> last_content (app w)" and p: "p \<noteq> 0"
    and impl: "\<forall>ob \<in> set (observers w). matching (Some change_name) 0 ob \<longrightarrow>
      implements (runtime w) (ob_observer ob) (ob_selector ob) (f (ob_observer ob) (ob_selector ob))"
  shows "\<exists>w'. poll_once H guest p w = Some w'
    \<and> change_count (app w') = change_count (app w) + 1
    \<and> lg (program (app w')) = lg (program (app w)) @
        map (\<lambda>ob. (f (ob_observer ob) (ob_selector ob), ob_observer ob, ob_selector ob, p))
          (filter (matching (Some change_name) 0) (observers w))
    \<and> poll_once H guest q w' = Some w'"
proof -
  define w1 where "w1 = in_app (\<lambda>pb. pb\<lparr>last_content := read_clipboard_text H (clip (app w)),
    change_count := change_count pb + 1\<rparr>) w"
  obtain cf h where mk: "CFStringCreateWithCString p (Some change_name) (cf_objects w1) = (cf, h)"
    by (cases "CFStringCreateWithCString p (Some change_name) (cf_objects w1)")
  define w2 where "w2 = w1\<lparr>cf_objects := h\<rparr>"
  note n = new_string_name [OF p ascii_utf8 [OF change_name_ascii(1)] mk]
  have "observers w2 = observers w" "runtime w2 = runtime w" by (simp_all add: w2_def w1_def in_app_def)
  then obtain w' where post: "post_by_name guest p 0 w2 = Some w'"
      and calls: "(lg \<circ> program) (app w') = (lg \<circ> program) (app w2) @
        map (\<lambda>ob. (f (ob_observer ob) (ob_selector ob), ob_observer ob, ob_selector ob, p))
          (filter (matching (Some change_name) 0) (observers w))"
    using post_reaches [OF log, of p w2 "Some change_name" 0 f] impl n by (auto simp: w2_def)
  have kept: "clip (app w') = clip (app w2) \<and> last_content (app w') = last_content (app w2)
      \<and> change_count (app w') = change_count (app w2)"
  proof -
    have "dispatch_all guest k ms v = Some v' \<Longrightarrow> clip (app v') = clip (app v)
        \<and> last_content (app v') = last_content (app v) \<and> change_count (app v') = change_count (app v)" for k ms v v'
      by (induction ms arbitrary: v)
        (auto simp: dispatch_one_def keeps split: if_splits option.splits elim!: bind_SomeE)
    with post show ?thesis by (auto simp: post_by_name_def elim!: bind_SomeE)
  qed
  have "poll_once H guest p w = Some w'"
    using new post n mk change_name_ascii(2)
    by (simp add: poll_once_def poll_update_def post_notification_name_static_def takeWhile_nul
        w2_def w1_def)
  moreover have "poll_once H guest q w' = Some w'"
    using kept by (simp add: poll_once_def poll_update_def w2_def w1_def in_app_def)
  ultimately show ?thesis using kept calls by (auto simp: w2_def w1_def in_app_def)
qed

section \<open>Examples, and a race\<close>

definition demo_tools :: "u8 list clip_host" where
  "demo_tools = \<lparr>wayland_display = False, which = (\<lambda>_. True), run_output = (\<lambda>prog args c. Some (True, c)),
     spawn_input = (\<lambda>prog args text c. Some text)\<rparr>"

lemma demo_honest: "honest demo_tools"
  by (simp add: honest_def demo_tools_def)

lemma demo_read: "read_clipboard_text demo_tools c = from_utf8 c"
  by (simp add: read_clipboard_text_def backend_of_def demo_tools_def)

lemma demo_write: "write_clipboard_text demo_tools text c = (True, text)"
  by (simp add: write_clipboard_text_def backend_of_def demo_tools_def)

type_synonym demo_log = "(imp \<times> ptr \<times> ptr \<times> ptr) list"

definition demo_board :: "u8 list \<Rightarrow> (u8 list, demo_log) pb_world" where
  "demo_board l = \<lparr>observers = [\<lparr>ob_observer = 0x5000, ob_selector = 0x10, ob_name = None, ob_object = 0\<rparr>],
     center = 0, cf_objects = [0x100 \<mapsto> cf_new CF_STRING_TYPE_ID (CFString [72, 105])],
     runtime = (objc_empty (\<lambda>_. 0))\<lparr>method_registry := [(0x5000, 0x10) \<mapsto> Some (Code 7)]\<rparr>,
     app = \<lparr>clip = [65], change_count = 0, last_content = Some l, poll_started = True, pb_object = 0,
            program = []\<rparr>\<rparr>"

lemma demo_board_name: "name_at 0x100 (demo_board l) = Some (Some [72, 105])"
proof -
  have "type_id (cf_new CF_STRING_TYPE_ID (CFString [72, 105])) = CF_STRING_TYPE_ID"
    by (simp add: type_id_def cf_new_def CF_STRING_TYPE_ID_def)
  moreover have "payload (cf_new CF_STRING_TYPE_ID (CFString [72, 105])) = CFString [72, 105]"
    by (simp add: cf_new_def)
  ultimately show ?thesis by (simp add: read_cfstring_def demo_board_def from_utf8_def)
qed


definition demo_observer_call :: "(u8 list, demo_log) pboard callback" where
  "demo_observer_call imp ob sel n w = in_app (\<lambda>pb. pb\<lparr>program := program pb @ [(imp, ob, sel, n)]\<rparr>) w"

theorem poll_notifies_witness:
  "\<exists>w'. poll_once demo_tools demo_observer_call 0x300 (demo_board [66]) = Some w'
    \<and> change_count (app w') = 1 \<and> program (app w') = [(Code 7, 0x5000, 0x10, 0x300)]"
proof -
  have l: "logs_calls (id \<circ> program) demo_observer_call"
    by (simp add: logs_calls_def demo_observer_call_def in_app_def)
  have k: "clip (app (demo_observer_call imp ob sel n w)) = clip (app w)
      \<and> last_content (app (demo_observer_call imp ob sel n w)) = last_content (app w)
      \<and> change_count (app (demo_observer_call imp ob sel n w)) = change_count (app w)" for imp ob sel n w
    by (simp add: demo_observer_call_def in_app_def)
  have c: "read_clipboard_text demo_tools (clip (app (demo_board [66]))) \<noteq> last_content (app (demo_board [66]))"
    by (simp add: demo_read demo_board_def from_utf8_def)
  have i: "\<forall>ob \<in> set (observers (demo_board [66])). matching (Some change_name) 0 ob \<longrightarrow>
      implements (runtime (demo_board [66])) (ob_observer ob) (ob_selector ob) (Code 7)"
    by (simp add: demo_board_def implements_def)
  from poll_notifies [OF l k c _ i, of "0x300" 0] show ?thesis
    by (auto simp: demo_board_def matching_def)
qed

text \<open>
  The three steps of \<open>setString:forType:\<close> are not one: when the polling thread runs between
  the write to the clipboard and the update of the last content, it takes the program's own
  text for a change made elsewhere, so a single set counts twice (and is announced), where
  the same steps without the thread in between count once.
\<close>

theorem set_string_race:
  assumes "honest H" and "from_utf8 text = Some text" and "last_content pb \<noteq> Some text"
    and "set_write H text pb = (True, pb1)" and "observers w = []" and "app w = pb1"
  shows "\<exists>w2. poll_once H guest q w = Some w2
    \<and> change_count (set_last text (set_bump (app w2))) = change_count pb + 2
    \<and> change_count (set_last text (set_bump pb1)) = change_count pb + 1
    \<and> poll_once H guest q (w\<lparr>app := set_last text (set_bump pb1)\<rparr>) = Some (w\<lparr>app := set_last text (set_bump pb1)\<rparr>)"
proof -
  obtain c where c: "write_clipboard_text H text (clip pb) = (True, c)" and pb1: "pb1 = pb\<lparr>clip := c\<rparr>"
    using assms(4) by (auto simp: set_write_def split: prod.splits)
  have r: "read_clipboard_text H c = Some text" by (rule read_after_write [OF assms(1) c assms(2)])
  define w1 where "w1 = in_app (\<lambda>pb. pb\<lparr>last_content := Some text, change_count := change_count pb + 1\<rparr>) w"
  obtain cf h where mk: "CFStringCreateWithCString q (Some change_name) (cf_objects w1) = (cf, h)"
    by (cases "CFStringCreateWithCString q (Some change_name) (cf_objects w1)")
  have "read_cfstring cf h (objc_mem (runtime w)) \<noteq> None"
    using mk change_name_ascii(1)
    by (auto simp: CFStringCreateWithCString_def CFStringInner_new_def as_str_def read_cfstring_def type_id_def
        cf_new_def CF_STRING_TYPE_ID_def utf8_decode_ascii)
  then obtain nm where "name_at cf (w1\<lparr>cf_objects := h\<rparr>) = Some nm"
    by (auto simp: w1_def in_app_def)
  then have "poll_once H guest q w = Some (w1\<lparr>cf_objects := h\<rparr>)"
    using mk assms(3,5,6) pb1 r change_name_ascii(2)
    by (simp add: poll_once_def poll_update_def post_notification_name_static_def takeWhile_nul post_by_name_def
        matches_def w1_def in_app_def)
  then show ?thesis
    using assms(6) pb1 r
    by (intro exI [of _ "w1\<lparr>cf_objects := h\<rparr>"])
      (simp add: w1_def in_app_def set_last_def set_bump_def bump_change_count_def poll_once_def poll_update_def)
qed

theorem set_string_race_witness:
  "\<exists>w2. poll_once demo_tools demo_observer_call 0x300
      ((demo_board [])\<lparr>observers := [], app := snd (set_write demo_tools [72] (app (demo_board [])))\<rparr>) = Some w2
    \<and> change_count (set_last [72] (set_bump (app w2))) = 2"
proof -
  have u: "from_utf8 [72] = Some [72 :: u8]" by (simp add: from_utf8_def)
  have l: "last_content (app (demo_board [])) \<noteq> Some [72]" by (simp add: demo_board_def)
  have s: "set_write demo_tools [72] (app (demo_board [])) = (True, snd (set_write demo_tools [72] (app (demo_board []))))"
    by (simp add: set_write_def demo_write)
  from set_string_race [OF demo_honest u l s, of "(demo_board [])\<lparr>observers := [],
      app := snd (set_write demo_tools [72] (app (demo_board [])))\<rparr>" demo_observer_call "0x300"]
  show ?thesis by (auto simp: demo_board_def)
qed

end
