(* ===== verification/Drawing.thy ===== *)
theory Drawing
  imports Geometry CFTypes
begin

text \<open>
  Core Graphics bitmap contexts and colours
  (\<open>crates/grafted-frameworks/src/cg/context.rs\<close>, \<open>cg/color.rs\<close>). A heap maps addresses to
  contexts, colour spaces and colours; a pixel buffer is the list of its bytes, \<open>usize\<close> is a 64 bit
  word. The lemmas show which pixels a drawing operation changes, and that the graphics
  state is restored.
\<close>

section \<open>Colour spaces and colours\<close>

datatype CGColorSpaceModel = Unknown_model | Monochrome | RGB | CMYK | Lab | DeviceN | Indexed_model | Pattern

fun model_number :: "CGColorSpaceModel \<Rightarrow> i32" where
  "model_number Unknown_model = - 1"
| "model_number Monochrome = 0"
| "model_number RGB = 1"
| "model_number CMYK = 2"
| "model_number Lab = 3"
| "model_number DeviceN = 4"
| "model_number Indexed_model = 5"
| "model_number Pattern = 6"

record CGColorSpaceInner =
  cs_refs :: u32
  cs_model :: CGColorSpaceModel
  cs_components :: u64

record CGColorInner =
  col_refs :: u32
  col_components :: "f64 list"
  col_space :: ptr

type_synonym rgba = "f64 list"

record DrawState =
  fill_color :: rgba
  stroke_color :: rgba
  line_width :: f64
  transform :: CGAffineTransform

record CGContextInner = DrawState +
  ctx_base :: cf_obj
  ctx_width :: u64
  ctx_height :: u64
  stride :: u64
  bits_per_component :: u64
  pixels :: "u8 list"
  state_stack :: "DrawState list"

record cg_heap =
  spaces :: "ptr \<Rightarrow> CGColorSpaceInner option"
  colors :: "ptr \<Rightarrow> CGColorInner option"
  contexts :: "ptr \<Rightarrow> CGContextInner option"

text \<open>New objects go to the address \<open>p\<close>; access to an address that holds none is \<open>None\<close>.\<close>

definition CGColorSpaceCreateDeviceRGB :: "ptr \<Rightarrow> cg_heap \<Rightarrow> ptr \<times> cg_heap" where
  "CGColorSpaceCreateDeviceRGB p h =
     (p, h\<lparr>spaces := (spaces h)(p \<mapsto> \<lparr>cs_refs = 1, cs_model = RGB, cs_components = 3\<rparr>)\<rparr>)"

definition CGColorSpaceCreateDeviceGray :: "ptr \<Rightarrow> cg_heap \<Rightarrow> ptr \<times> cg_heap" where
  "CGColorSpaceCreateDeviceGray p h =
     (p, h\<lparr>spaces := (spaces h)(p \<mapsto> \<lparr>cs_refs = 1, cs_model = Monochrome, cs_components = 1\<rparr>)\<rparr>)"

definition CGColorSpaceGetNumberOfComponents :: "ptr \<Rightarrow> cg_heap \<Rightarrow> u64 option" where
  "CGColorSpaceGetNumberOfComponents cs h = (if cs = 0 then Some 0 else map_option cs_components (spaces h cs))"

definition CGColorSpaceGetModel :: "ptr \<Rightarrow> cg_heap \<Rightarrow> i32 option" where
  "CGColorSpaceGetModel cs h =
     (if cs = 0 then Some (- 1) else map_option (model_number \<circ> cs_model) (spaces h cs))"

definition CGColorSpaceRelease :: "ptr \<Rightarrow> cg_heap \<Rightarrow> cg_heap option" where
  "CGColorSpaceRelease cs h =
     (if cs = 0 then Some h
      else map_option (\<lambda>_. h\<lparr>spaces := (spaces h)(cs := None)\<rparr>) (spaces h cs))"

text \<open>\<open>components\<close> are the numbers in the caller's array, \<open>None\<close> for a null pointer.\<close>

definition rgba_of :: "(nat \<Rightarrow> f64) option \<Rightarrow> nat \<Rightarrow> rgba" where
  "rgba_of components n =
     (case components of
        None \<Rightarrow> [0, 0, 0, 0]
      | Some f \<Rightarrow> map (\<lambda>i. if i < min n 4 then f i else 0) [0..<4])"

definition CGColorCreate :: "ptr \<Rightarrow> ptr \<Rightarrow> (nat \<Rightarrow> f64) option \<Rightarrow> cg_heap \<Rightarrow> (ptr \<times> cg_heap) option" where
  "CGColorCreate p color_space components h =
     map_option (\<lambda>n. (p, h\<lparr>colors := (colors h)(p \<mapsto>
         \<lparr>col_refs = 1, col_components = rgba_of components n, col_space = color_space\<rparr>)\<rparr>))
       (if components = None \<or> color_space = 0 then Some 4
        else map_option (\<lambda>s. unat (cs_components s + 1)) (spaces h color_space))"

definition CGColorGetComponents :: "ptr \<Rightarrow> cg_heap \<Rightarrow> rgba option option" where
  "CGColorGetComponents color h =
     (if color = 0 then Some None else map_option (Some \<circ> col_components) (colors h color))"

definition CGColorRelease :: "ptr \<Rightarrow> cg_heap \<Rightarrow> cg_heap option" where
  "CGColorRelease color h =
     (if color = 0 then Some h
      else map_option (\<lambda>_. h\<lparr>colors := (colors h)(color := None)\<rparr>) (colors h color))"

section \<open>Contexts\<close>

text \<open>\<open>data\<close>: the bytes of the caller's buffer, which the context takes over.\<close>

definition new_context :: "(nat \<Rightarrow> u8) option \<Rightarrow> u64 \<Rightarrow> u64 \<Rightarrow> u64 \<Rightarrow> u64 \<Rightarrow> CGContextInner" where
  "new_context data w hgt bpc bytes_per_row =
     (let strd = (if bytes_per_row > 0 then bytes_per_row else w * 4);
          sz = strd * hgt
      in \<lparr>fill_color = [0, 0, 0, f64_one], stroke_color = [0, 0, 0, f64_one], line_width = f64_one,
          transform = CGAffineTransformIdentity, ctx_base = cf_new 32 CFBare, ctx_width = w, ctx_height = hgt,
          stride = strd, bits_per_component = bpc,
          pixels = (case data of None \<Rightarrow> replicate (unat sz) 0 | Some f \<Rightarrow> map f [0..<unat sz]),
          state_stack = []\<rparr>)"

definition CGBitmapContextCreate ::
    "ptr \<Rightarrow> (nat \<Rightarrow> u8) option \<Rightarrow> u64 \<Rightarrow> u64 \<Rightarrow> u64 \<Rightarrow> u64 \<Rightarrow> cg_heap \<Rightarrow> ptr \<times> cg_heap" where
  "CGBitmapContextCreate p data w hgt bpc bytes_per_row h =
     (p, h\<lparr>contexts := (contexts h)(p \<mapsto> new_context data w hgt bpc bytes_per_row)\<rparr>)"

definition ctx_get :: "(CGContextInner \<Rightarrow> 'a) \<Rightarrow> 'a \<Rightarrow> ptr \<Rightarrow> cg_heap \<Rightarrow> 'a option" where
  "ctx_get f null_value ctx h = (if ctx = 0 then Some null_value else map_option f (contexts h ctx))"

definition ctx_map :: "(CGContextInner \<Rightarrow> CGContextInner) \<Rightarrow> ptr \<Rightarrow> cg_heap \<Rightarrow> cg_heap option" where
  "ctx_map f ctx h =
     (if ctx = 0 then Some h
      else map_option (\<lambda>c. h\<lparr>contexts := (contexts h)(ctx \<mapsto> f c)\<rparr>) (contexts h ctx))"

definition CGBitmapContextGetData :: "ptr \<Rightarrow> cg_heap \<Rightarrow> u8 list option option" where
  "CGBitmapContextGetData = ctx_get (Some \<circ> pixels) None"

definition CGBitmapContextGetWidth :: "ptr \<Rightarrow> cg_heap \<Rightarrow> u64 option" where
  "CGBitmapContextGetWidth = ctx_get ctx_width 0"

definition CGBitmapContextGetHeight :: "ptr \<Rightarrow> cg_heap \<Rightarrow> u64 option" where
  "CGBitmapContextGetHeight = ctx_get ctx_height 0"

definition CGBitmapContextGetBytesPerRow :: "ptr \<Rightarrow> cg_heap \<Rightarrow> u64 option" where
  "CGBitmapContextGetBytesPerRow = ctx_get stride 0"

definition CGContextRelease :: "ptr \<Rightarrow> cg_heap \<Rightarrow> cg_heap option" where
  "CGContextRelease ctx h =
     (if ctx = 0 then Some h
      else map_option (\<lambda>_. h\<lparr>contexts := (contexts h)(ctx := None)\<rparr>) (contexts h ctx))"

definition CGContextRetain :: "ptr \<Rightarrow> cg_heap \<Rightarrow> (ptr \<times> cg_heap) option" where
  "CGContextRetain ctx h =
     map_option (Pair ctx)
       (ctx_map (\<lambda>c. c\<lparr>ctx_base := (ctx_base c)\<lparr>refcount := refcount (ctx_base c) + 1\<rparr>\<rparr>) ctx h)"

section \<open>Graphics state\<close>

definition draw_state :: "CGContextInner \<Rightarrow> DrawState" where
  "draw_state c =
     \<lparr>fill_color = fill_color c, stroke_color = stroke_color c, line_width = line_width c, transform = transform c\<rparr>"

definition save_state :: "CGContextInner \<Rightarrow> CGContextInner" where
  "save_state c = c\<lparr>state_stack := state_stack c @ [draw_state c]\<rparr>"

definition restore_state :: "CGContextInner \<Rightarrow> CGContextInner" where
  "restore_state c =
     (if state_stack c = [] then c
      else let s = last (state_stack c) in
        c\<lparr>state_stack := butlast (state_stack c), fill_color := fill_color s, stroke_color := stroke_color s,
          line_width := line_width s, transform := transform s\<rparr>)"

definition CGContextSaveGState :: "ptr \<Rightarrow> cg_heap \<Rightarrow> cg_heap option" where
  "CGContextSaveGState = ctx_map save_state"

definition CGContextRestoreGState :: "ptr \<Rightarrow> cg_heap \<Rightarrow> cg_heap option" where
  "CGContextRestoreGState = ctx_map restore_state"

definition CGContextSetRGBFillColor :: "ptr \<Rightarrow> f64 \<Rightarrow> f64 \<Rightarrow> f64 \<Rightarrow> f64 \<Rightarrow> cg_heap \<Rightarrow> cg_heap option" where
  "CGContextSetRGBFillColor ctx r g b a = ctx_map (\<lambda>c. c\<lparr>fill_color := [r, g, b, a]\<rparr>) ctx"

definition CGContextSetRGBStrokeColor :: "ptr \<Rightarrow> f64 \<Rightarrow> f64 \<Rightarrow> f64 \<Rightarrow> f64 \<Rightarrow> cg_heap \<Rightarrow> cg_heap option" where
  "CGContextSetRGBStrokeColor ctx r g b a = ctx_map (\<lambda>c. c\<lparr>stroke_color := [r, g, b, a]\<rparr>) ctx"

definition CGContextSetGrayFillColor :: "ptr \<Rightarrow> f64 \<Rightarrow> f64 \<Rightarrow> cg_heap \<Rightarrow> cg_heap option" where
  "CGContextSetGrayFillColor ctx gray a = CGContextSetRGBFillColor ctx gray gray gray a"

definition CGContextTranslateCTM :: "ptr \<Rightarrow> f64 \<Rightarrow> f64 \<Rightarrow> cg_heap \<Rightarrow> cg_heap option" where
  "CGContextTranslateCTM ctx tx ty = ctx_map (\<lambda>c.
     c\<lparr>transform := (transform c)\<lparr>aff_tx := f64_add (aff_tx (transform c)) tx, aff_ty := f64_add (aff_ty (transform c)) ty\<rparr>\<rparr>) ctx"

definition CGContextScaleCTM :: "ptr \<Rightarrow> f64 \<Rightarrow> f64 \<Rightarrow> cg_heap \<Rightarrow> cg_heap option" where
  "CGContextScaleCTM ctx sx sy = ctx_map (\<lambda>c.
     c\<lparr>transform := (transform c)\<lparr>aff_a := f64_mul (aff_a (transform c)) sx, aff_d := f64_mul (aff_d (transform c)) sy\<rparr>\<rparr>) ctx"

definition CGContextGetCTM :: "ptr \<Rightarrow> cg_heap \<Rightarrow> CGAffineTransform option" where
  "CGContextGetCTM = ctx_get transform CGAffineTransformIdentity"

definition CGContextSetLineWidth :: "ptr \<Rightarrow> f64 \<Rightarrow> cg_heap \<Rightarrow> cg_heap option" where
  "CGContextSetLineWidth ctx w = ctx_map (\<lambda>c. c\<lparr>line_width := w\<rparr>) ctx"

section \<open>Drawing\<close>

definition f64_to_usize :: "f64 \<Rightarrow> u64" where
  "f64_to_usize x = (if is_nan x then 0 else of_int (max 0 (min (2 ^ 64 - 1) (f64_trunc x))))"

definition pixel_offset :: "CGContextInner \<Rightarrow> u64 \<Rightarrow> u64 \<Rightarrow> u64" where
  "pixel_offset c x y = y * stride c + x * 4"

text \<open>A colour as it is stored: blue, green, red, alpha.\<close>

definition set_pixel :: "u64 \<Rightarrow> u64 \<Rightarrow> u8 list \<Rightarrow> CGContextInner \<Rightarrow> CGContextInner" where
  "set_pixel x y bgra c =
     (if x \<ge> ctx_width c \<or> y \<ge> ctx_height c then c
      else
        let off = pixel_offset c x y in
        if off + 3 < of_nat (length (pixels c))
        then c\<lparr>pixels := (pixels c)[unat off := bgra ! 0, unat (off + 1) := bgra ! 1,
                                   unat (off + 2) := bgra ! 2, unat (off + 3) := bgra ! 3]\<rparr>
        else c)"

definition color_bytes :: "rgba \<Rightarrow> u8 list" where
  "color_bytes col = (let v = (\<lambda>i. f64_to_u8 (f64_mul (col ! i) 0x406FE00000000000)) in [v 2, v 1, v 0, v 3])"

definition usize_range :: "u64 \<Rightarrow> u64 \<Rightarrow> u64 list" where
  "usize_range a b = map of_nat [unat a..<unat b]"

definition fill_pixels :: "u8 list \<Rightarrow> u64 \<Rightarrow> u64 \<Rightarrow> u64 \<Rightarrow> u64 \<Rightarrow> CGContextInner \<Rightarrow> CGContextInner" where
  "fill_pixels bgra x0 y0 x1 y1 c =
     fold (\<lambda>y c. fold (\<lambda>x c. set_pixel x y bgra c) (usize_range x0 x1) c) (usize_range y0 y1) c"

definition rect_x0 :: "CGRect \<Rightarrow> u64" where
  "rect_x0 rect = f64_to_usize (f64_max (px (origin rect)) 0)"

definition rect_y0 :: "CGRect \<Rightarrow> u64" where
  "rect_y0 rect = f64_to_usize (f64_max (py (origin rect)) 0)"

definition rect_x1 :: "CGRect \<Rightarrow> u64" where
  "rect_x1 rect = f64_to_usize (f64_add (px (origin rect)) (width (rsize rect)))"

definition rect_y1 :: "CGRect \<Rightarrow> u64" where
  "rect_y1 rect = f64_to_usize (f64_add (py (origin rect)) (height (rsize rect)))"

definition fill_rect :: "u8 list \<Rightarrow> CGRect \<Rightarrow> CGContextInner \<Rightarrow> CGContextInner" where
  "fill_rect bgra rect c =
     fill_pixels bgra (rect_x0 rect) (rect_y0 rect) (min (rect_x1 rect) (ctx_width c))
       (min (rect_y1 rect) (ctx_height c)) c"

definition CGContextFillRect :: "ptr \<Rightarrow> CGRect \<Rightarrow> cg_heap \<Rightarrow> cg_heap option" where
  "CGContextFillRect ctx rect = ctx_map (\<lambda>c. fill_rect (color_bytes (fill_color c)) rect c) ctx"

definition CGContextClearRect :: "ptr \<Rightarrow> CGRect \<Rightarrow> cg_heap \<Rightarrow> cg_heap option" where
  "CGContextClearRect ctx rect = ctx_map (fill_rect [0, 0, 0, 0] rect) ctx"

definition usize_range_incl :: "u64 \<Rightarrow> u64 \<Rightarrow> u64 list" where
  "usize_range_incl a b = map of_nat [unat a..<Suc (unat b)]"

definition stroke_rect :: "u8 list \<Rightarrow> CGRect \<Rightarrow> CGContextInner \<Rightarrow> CGContextInner" where
  "stroke_rect bgra rect c =
     (let x0 = rect_x0 rect; y0 = rect_y0 rect;
          x1 = min (rect_x1 rect) (if ctx_width c = 0 then 0 else ctx_width c - 1);
          y1 = min (rect_y1 rect) (if ctx_height c = 0 then 0 else ctx_height c - 1);
          c1 = fold (\<lambda>x c. set_pixel x y1 bgra (set_pixel x y0 bgra c)) (usize_range_incl x0 x1) c
      in fold (\<lambda>y c. set_pixel x1 y bgra (set_pixel x0 y bgra c)) (usize_range_incl y0 y1) c1)"

definition CGContextStrokeRect :: "ptr \<Rightarrow> CGRect \<Rightarrow> cg_heap \<Rightarrow> cg_heap option" where
  "CGContextStrokeRect ctx rect = ctx_map (\<lambda>c. stroke_rect (color_bytes (stroke_color c)) rect c) ctx"

section \<open>Which pixels change\<close>

text \<open>A buffer with room for every row, and rows with room for every pixel.\<close>

definition ctx_ok :: "CGContextInner \<Rightarrow> bool" where
  "ctx_ok c \<longleftrightarrow> length (pixels c) = unat (stride c) * unat (ctx_height c)
     \<and> 4 * unat (ctx_width c) \<le> unat (stride c) \<and> unat (stride c) * unat (ctx_height c) < 2 ^ 64"

definition inside :: "CGContextInner \<Rightarrow> u64 \<times> u64 \<Rightarrow> bool" where
  "inside c q = (fst q < ctx_width c \<and> snd q < ctx_height c)"

definition offset :: "CGContextInner \<Rightarrow> u64 \<times> u64 \<Rightarrow> nat" where
  "offset c q = unat (snd q) * unat (stride c) + 4 * unat (fst q)"

lemma offset_bound:
  assumes "ctx_ok c" "inside c q"
  shows "offset c q + 4 \<le> length (pixels c)"
proof -
  have "4 * unat (fst q) + 4 \<le> unat (stride c)"
    using assms by (auto simp: ctx_ok_def inside_def word_less_nat_alt)
  moreover have "(unat (snd q) + 1) * unat (stride c) \<le> unat (ctx_height c) * unat (stride c)"
    using assms(2) by (intro mult_le_mono) (auto simp: inside_def word_less_nat_alt)
  ultimately show ?thesis using assms(1) by (simp add: offset_def ctx_ok_def mult.commute)
qed

lemma offset_disjoint:
  assumes "ctx_ok c" "inside c q" "inside c r" "q \<noteq> r"
  shows "offset c q + 4 \<le> offset c r \<or> offset c r + 4 \<le> offset c q"
proof -
  have fits: "4 * unat (fst u) + 4 \<le> unat (stride c)" if "inside c u" for u
    using that assms(1) by (auto simp: ctx_ok_def inside_def word_less_nat_alt)
  have row: "offset c u + 4 \<le> offset c v" if "inside c u" "unat (snd u) < unat (snd v)" for u v
  proof -
    have "(unat (snd u) + 1) * unat (stride c) \<le> unat (snd v) * unat (stride c)"
      using that(2) by (intro mult_le_mono) auto
    with fits [OF that(1)] show ?thesis by (simp add: offset_def)
  qed
  consider "unat (snd q) < unat (snd r)" | "unat (snd r) < unat (snd q)" | "snd q = snd r"
    by (meson linorder_neqE_nat word_unat_eq_iff)
  then show ?thesis
  proof cases
    case 3
    then have "unat (fst q) \<noteq> unat (fst r)" using assms(4) by (metis prod_eqI word_unat_eq_iff)
    with 3 show ?thesis by (auto simp: offset_def)
  qed (use row assms in auto)
qed

lemma nth_four:
  "k < length xs \<Longrightarrow> a + 4 \<le> length xs \<Longrightarrow> xs[a := c0, a + 1 := c1, a + 2 := c2, a + 3 := c3] ! k =
    (if a \<le> k \<and> k < a + 4 then [c0, c1, c2, c3] ! (k - a) else xs ! k)"
proof -
  assume k: "k < length xs" "a + 4 \<le> length xs"
  consider "k < a" | "k = a" | "k = a + 1" | "k = a + 2" | "k = a + 3" | "a + 4 \<le> k" by linarith
  then show ?thesis using k by cases (auto simp: nth_list_update)
qed

lemma set_pixel_nth:
  assumes "ctx_ok c" "length bgra = 4" "k < length (pixels c)"
  shows "pixels (set_pixel x y bgra c) ! k =
    (if inside c (x, y) \<and> offset c (x, y) \<le> k \<and> k < offset c (x, y) + 4
     then bgra ! (k - offset c (x, y)) else pixels c ! k)"
proof (cases "inside c (x, y)")
  case True
  note b = offset_bound [OF assms(1) True]
  have lim: "length (pixels c) < 2 ^ 64" using assms(1) by (simp add: ctx_ok_def)
  have "unat (of_nat (offset c (x, y)) :: u64) = offset c (x, y)"
    using b lim by (intro unat_of_nat_u64) simp
  moreover have w: "pixel_offset c x y = of_nat (offset c (x, y))"
    by (simp add: pixel_offset_def offset_def)
  ultimately have u: "unat (pixel_offset c x y) = offset c (x, y)" by simp
  have u': "unat (pixel_offset c x y + of_nat i) = offset c (x, y) + i" if "i < 4" for i
    using that b lim u by (simp add: unat_word_ariths unat_of_nat_u64)
  have "unat (of_nat (length (pixels c)) :: u64) = length (pixels c)" by (rule unat_of_nat_u64 [OF lim])
  then have lt: "pixel_offset c x y + 3 < of_nat (length (pixels c))"
    using u' [of 3] b by (simp add: word_less_nat_alt)
  have bg: "bgra = [bgra ! 0, bgra ! 1, bgra ! 2, bgra ! 3]"
    using assms(2) by (auto simp: numeral_eq_Suc length_Suc_conv)
  have "pixels (set_pixel x y bgra c) =
      (pixels c)[offset c (x, y) := bgra ! 0, offset c (x, y) + 1 := bgra ! 1,
        offset c (x, y) + 2 := bgra ! 2, offset c (x, y) + 3 := bgra ! 3]"
    using True lt u u' [of 1] u' [of 2] u' [of 3]
    by (auto simp: set_pixel_def inside_def Let_def linorder_not_le)
  then show ?thesis using nth_four [OF assms(3) b] True bg by simp
next
  case False
  then show ?thesis by (auto simp: set_pixel_def inside_def linorder_not_le)
qed

lemma set_pixel_same:
  "ctx_width (set_pixel x y bgra c) = ctx_width c" "ctx_height (set_pixel x y bgra c) = ctx_height c"
  "stride (set_pixel x y bgra c) = stride c" "length (pixels (set_pixel x y bgra c)) = length (pixels c)"
  "state_stack (set_pixel x y bgra c) = state_stack c" "draw_state (set_pixel x y bgra c) = draw_state c"
  "ctx_base (set_pixel x y bgra c) = ctx_base c"
  by (simp_all add: set_pixel_def Let_def draw_state_def)

definition paint :: "u8 list \<Rightarrow> (u64 \<times> u64) list \<Rightarrow> CGContextInner \<Rightarrow> CGContextInner" where
  "paint bgra qs c = fold (\<lambda>q. set_pixel (fst q) (snd q) bgra) qs c"

lemma paint_same:
  "ctx_width (paint bgra qs c) = ctx_width c \<and> ctx_height (paint bgra qs c) = ctx_height c
    \<and> stride (paint bgra qs c) = stride c \<and> length (pixels (paint bgra qs c)) = length (pixels c)
    \<and> state_stack (paint bgra qs c) = state_stack c \<and> draw_state (paint bgra qs c) = draw_state c"
  unfolding paint_def by (induction qs arbitrary: c) (auto simp: set_pixel_same)

lemma paint_nth:
  assumes "length bgra = 4"
  shows "ctx_ok c \<Longrightarrow> k < length (pixels c) \<Longrightarrow>
    (\<forall>q \<in> set qs. inside c q \<longrightarrow> \<not> (offset c q \<le> k \<and> k < offset c q + 4)) \<Longrightarrow>
    pixels (paint bgra qs c) ! k = pixels c ! k"
  unfolding paint_def
proof (induction qs arbitrary: c)
  case (Cons q qs)
  define c1 where "c1 = set_pixel (fst q) (snd q) bgra c"
  have eq: "ctx_ok c1 = ctx_ok c" "inside c1 r = inside c r" "offset c1 r = offset c r" for r
    by (simp_all add: c1_def ctx_ok_def inside_def offset_def set_pixel_same)
  have len: "length (pixels c1) = length (pixels c)" by (simp add: c1_def set_pixel_same)
  have "pixels (fold (\<lambda>q. set_pixel (fst q) (snd q) bgra) qs c1) ! k = pixels c1 ! k"
    using Cons.prems by (intro Cons.IH) (auto simp: eq len)
  also have "\<dots> = pixels c ! k"
    using Cons.prems set_pixel_nth [OF Cons.prems(1) assms Cons.prems(2), of "fst q" "snd q"]
    by (auto simp: c1_def)
  finally show ?case by (simp add: c1_def)
qed simp

lemma paint_nth_at:
  assumes "length bgra = 4"
  shows "ctx_ok c \<Longrightarrow> q \<in> set qs \<Longrightarrow> inside c q \<Longrightarrow> i < 4 \<Longrightarrow>
    pixels (paint bgra qs c) ! (offset c q + i) = bgra ! i"
proof (induction qs arbitrary: c)
  case (Cons r qs)
  define c1 where "c1 = set_pixel (fst r) (snd r) bgra c"
  have eq: "ctx_ok c1 = ctx_ok c" "inside c1 u = inside c u" "offset c1 u = offset c u" for u
    by (simp_all add: c1_def ctx_ok_def inside_def offset_def set_pixel_same)
  have step: "paint bgra (r # qs) c = paint bgra qs c1" by (simp add: paint_def c1_def)
  show ?case
  proof (cases "q \<in> set qs")
    case True
    with Cons show ?thesis by (simp add: step eq [symmetric])
  next
    case False
    with Cons.prems(2) have q: "q = r" by simp
    have k: "offset c q + i < length (pixels c1)"
      using offset_bound [OF Cons.prems(1,3)] Cons.prems(4) by (simp add: c1_def set_pixel_same)
    have "\<not> (offset c1 u \<le> offset c q + i \<and> offset c q + i < offset c1 u + 4)" if "u \<in> set qs" "inside c1 u" for u
    proof -
      have "q \<noteq> u" using that(1) False by auto
      with offset_disjoint [OF Cons.prems(1,3), of u] that(2) Cons.prems(4) show ?thesis by (auto simp: eq)
    qed
    then have "pixels (paint bgra qs c1) ! (offset c q + i) = pixels c1 ! (offset c q + i)"
      using Cons.prems(1) k by (intro paint_nth [OF assms]) (auto simp: eq)
    also have "\<dots> = bgra ! i"
      using set_pixel_nth [OF Cons.prems(1) assms, of "offset c q + i" "fst r" "snd r"] k Cons.prems(3,4)
      by (simp add: c1_def set_pixel_same q)
    finally show ?thesis by (simp add: step)
  qed
qed simp

lemma set_usize_range: "set (usize_range a b) = {x. a \<le> x \<and> x < b}"
proof -
  have "x \<in> of_nat ` {unat a..<unat b} \<longleftrightarrow> a \<le> x \<and> x < b" for x
  proof
    assume "x \<in> of_nat ` {unat a..<unat b}"
    then obtain n where n: "x = of_nat n" "unat a \<le> n" "n < unat b" by auto
    then have "unat x = n" using unat_u64_lt [of b] by (simp add: unat_of_nat_u64)
    with n show "a \<le> x \<and> x < b" by (simp add: word_le_nat_alt word_less_nat_alt)
  next
    assume "a \<le> x \<and> x < b"
    then have "unat x \<in> {unat a..<unat b}" by (simp add: word_le_nat_alt word_less_nat_alt)
    then have "of_nat (unat x) \<in> (of_nat ` {unat a..<unat b} :: u64 set)" by (rule imageI)
    then show "x \<in> of_nat ` {unat a..<unat b}" by simp
  qed
  then show ?thesis by (auto simp: usize_range_def)
qed

definition rect_pixels :: "u64 \<Rightarrow> u64 \<Rightarrow> u64 \<Rightarrow> u64 \<Rightarrow> (u64 \<times> u64) list" where
  "rect_pixels x0 y0 x1 y1 = concat (map (\<lambda>y. map (\<lambda>x. (x, y)) (usize_range x0 x1)) (usize_range y0 y1))"

lemma fold_concat_map: "fold f (concat xss) = fold (fold f) xss"
  by (induction xss) (auto simp: fun_eq_iff)

lemma fill_pixels_paint: "fill_pixels bgra x0 y0 x1 y1 c = paint bgra (rect_pixels x0 y0 x1 y1) c"
  by (simp add: fill_pixels_def paint_def rect_pixels_def fold_concat_map fold_map comp_def)

lemma set_rect_pixels: "q \<in> set (rect_pixels x0 y0 x1 y1) \<longleftrightarrow>
    x0 \<le> fst q \<and> fst q < x1 \<and> y0 \<le> snd q \<and> snd q < y1"
  by (cases q) (auto simp: rect_pixels_def set_usize_range)

text \<open>What a painted list of pixels leaves at a pixel, and between the pixels.\<close>

lemma paint_pixel:
  assumes ok: "ctx_ok c" "length bgra = 4" and q: "inside c q" "i < 4"
  shows "pixels (paint bgra qs c) ! (offset c q + i) =
    (if q \<in> set qs then bgra ! i else pixels c ! (offset c q + i))"
proof (cases "q \<in> set qs")
  case True
  then show ?thesis by (simp add: paint_nth_at [OF ok(2,1) True q])
next
  case False
  have "\<not> (offset c u \<le> offset c q + i \<and> offset c q + i < offset c u + 4)" if "u \<in> set qs" "inside c u" for u
  proof -
    have "q \<noteq> u" using that(1) False by auto
    with offset_disjoint [OF ok(1) q(1) that(2)] q(2) show ?thesis by auto
  qed
  moreover have "offset c q + i < length (pixels c)" using offset_bound [OF ok(1) q(1)] q(2) by simp
  ultimately show ?thesis using False by (simp add: paint_nth [OF ok(2,1)])
qed

lemma paint_gap:
  assumes "ctx_ok c" "length bgra = 4" "k < length (pixels c)"
    and "\<forall>q. inside c q \<longrightarrow> \<not> (offset c q \<le> k \<and> k < offset c q + 4)"
  shows "pixels (paint bgra qs c) ! k = pixels c ! k"
  using assms by (intro paint_nth) auto

lemma paint_ok: "ctx_ok (paint bgra qs c) = ctx_ok c"
  using paint_same [of bgra qs c] by (simp add: ctx_ok_def)

definition covers :: "CGRect \<Rightarrow> u64 \<times> u64 \<Rightarrow> bool" where
  "covers rect q = (rect_x0 rect \<le> fst q \<and> fst q < rect_x1 rect \<and> rect_y0 rect \<le> snd q \<and> snd q < rect_y1 rect)"

lemma fill_rect_pixel:
  assumes "ctx_ok c" "length bgra = 4" "inside c q" "i < 4"
  shows "pixels (fill_rect bgra rect c) ! (offset c q + i) =
    (if covers rect q then bgra ! i else pixels c ! (offset c q + i))"
  using assms(3)
  by (auto simp: fill_rect_def fill_pixels_paint paint_pixel [OF assms] set_rect_pixels covers_def inside_def)


definition demo_context :: cg_heap where
  "demo_context = snd (CGBitmapContextCreate 0x1000 None 2 2 8 0
     \<lparr>spaces = Map.empty, colors = Map.empty, contexts = Map.empty\<rparr>)"

lemma demo_context_at:
  "contexts demo_context 0x1000 = Some (new_context None 2 2 8 0)" "ctx_ok (new_context None 2 2 8 0)"
  by (simp_all add: demo_context_def CGBitmapContextCreate_def new_context_def Let_def ctx_ok_def)

definition demo_rect :: CGRect where
  "demo_rect = \<lparr>origin = \<lparr>px = 0, py = 0\<rparr>, rsize = \<lparr>width = INFINITY, height = INFINITY\<rparr>\<rparr>"

lemma trunc_inf: "f64_trunc INFINITY = 2 ^ 1024"
proof -
  have a: "f64_abs INFINITY = Suc 2046 * 2 ^ 52 + 0" by (simp add: INFINITY_def f64_abs_def)
  have n: "\<not> f64_neg INFINITY" by (simp add: INFINITY_def f64_neg_def bit_63)
  have "f64_mag (Suc 2046 * 2 ^ 52 + 0) = (2 ^ 52 + 0) * 2 ^ 2046" by (rule f64_mag_split) simp
  also have "\<dots> = 2 ^ 1024 * 2 ^ 1074" by (simp only: power_add [symmetric] add_0_right arith_simps)
  finally have "f64_mag (f64_abs INFINITY) div 2 ^ 1074 = 2 ^ 1024" by (simp only: a) simp
  then show ?thesis using n by (simp add: f64_trunc_def Let_def)
qed

lemma to_usize_inf: "f64_to_usize INFINITY = 0xFFFFFFFFFFFFFFFF"
proof -
  have "(2 :: int) ^ 64 \<le> 2 ^ 1024" by (rule power_increasing) simp_all
  then have "min (2 ^ 64 - 1) (2 ^ 1024) = (2 ^ 64 - 1 :: int)" by (simp add: min_def)
  moreover have "\<not> is_nan INFINITY" by (simp add: INFINITY_def is_nan_def f64_abs_def f64_inf_def)
  ultimately show ?thesis by (simp only: f64_to_usize_def trunc_inf if_False) simp
qed

lemma demo_rect_covers: "covers demo_rect (1, 1)"
proof -
  have "f64_to_usize (f64_max 0 0) = 0"
    by (simp add: f64_max_def is_nan_def f64_abs_def f64_lt_def f64_key_def f64_neg_def f64_to_usize_def
        f64_trunc_def f64_mag_def)
  moreover have "f64_add 0 INFINITY = INFINITY"
    by (simp add: f64_add_def INFINITY_def is_nan_def is_finite_def f64_abs_def f64_inf_def)
  ultimately show ?thesis
    by (simp add: covers_def demo_rect_def rect_x0_def rect_x1_def rect_y0_def rect_y1_def to_usize_inf)
qed


section \<open>Saving and restoring\<close>

text \<open>The calls a program makes on one context.\<close>

datatype gcall = Save | Restore | Fill_color f64 f64 f64 f64 | Stroke_color f64 f64 f64 f64 | Gray_color f64 f64
  | Translate f64 f64 | Scale f64 f64 | Width f64 | Fill CGRect | Clear CGRect | Stroke CGRect

fun gcall_exec :: "ptr \<Rightarrow> gcall \<Rightarrow> cg_heap \<Rightarrow> cg_heap option" where
  "gcall_exec ctx Save = CGContextSaveGState ctx"
| "gcall_exec ctx Restore = CGContextRestoreGState ctx"
| "gcall_exec ctx (Fill_color r g b a) = CGContextSetRGBFillColor ctx r g b a"
| "gcall_exec ctx (Stroke_color r g b a) = CGContextSetRGBStrokeColor ctx r g b a"
| "gcall_exec ctx (Gray_color v a) = CGContextSetGrayFillColor ctx v a"
| "gcall_exec ctx (Translate x y) = CGContextTranslateCTM ctx x y"
| "gcall_exec ctx (Scale x y) = CGContextScaleCTM ctx x y"
| "gcall_exec ctx (Width w) = CGContextSetLineWidth ctx w"
| "gcall_exec ctx (Fill rect) = CGContextFillRect ctx rect"
| "gcall_exec ctx (Clear rect) = CGContextClearRect ctx rect"
| "gcall_exec ctx (Stroke rect) = CGContextStrokeRect ctx rect"

fun gcalls :: "ptr \<Rightarrow> gcall list \<Rightarrow> cg_heap \<Rightarrow> cg_heap option" where
  "gcalls ctx [] h = Some h"
| "gcalls ctx (g # gs) h = Option.bind (gcall_exec ctx g h) (gcalls ctx gs)"

text \<open>Every restore has its save, and every save its restore.\<close>

fun nested :: "nat \<Rightarrow> gcall list \<Rightarrow> bool" where
  "nested n [] = (n = 0)"
| "nested n (Save # gs) = nested (Suc n) gs"
| "nested n (Restore # gs) = (case n of 0 \<Rightarrow> False | Suc k \<Rightarrow> nested k gs)"
| "nested n (g # gs) = nested n gs"

lemma stroke_rect_stack: "state_stack (stroke_rect bgra rect c) = state_stack c"
proof -
  have "state_stack (fold (\<lambda>x c. set_pixel x y1 bgra (set_pixel x y0 bgra c)) xs d) = state_stack d" for xs y0 y1 d
    by (induction xs arbitrary: d) (simp_all add: set_pixel_same)
  moreover have "state_stack (fold (\<lambda>y c. set_pixel x1 y bgra (set_pixel x0 y bgra c)) ys d) = state_stack d" for ys x0 x1 d
    by (induction ys arbitrary: d) (simp_all add: set_pixel_same)
  ultimately show ?thesis by (simp add: stroke_rect_def Let_def)
qed

lemma fill_rect_stack: "state_stack (fill_rect bgra rect c) = state_stack c"
  by (simp add: fill_rect_def fill_pixels_paint paint_same)

lemma gcall_stack:
  assumes "ctx \<noteq> 0" "contexts h ctx = Some c" "g \<noteq> Save" "g \<noteq> Restore"
  shows "\<exists>h' c'. gcall_exec ctx g h = Some h' \<and> contexts h' ctx = Some c' \<and> state_stack c' = state_stack c"
  using assms
  by (cases g) (simp_all add: ctx_map_def CGContextSetRGBFillColor_def CGContextSetRGBStrokeColor_def
      CGContextSetGrayFillColor_def CGContextTranslateCTM_def CGContextScaleCTM_def CGContextSetLineWidth_def
      CGContextFillRect_def CGContextClearRect_def CGContextStrokeRect_def fill_rect_stack stroke_rect_stack)

lemma gcalls_stack:
  "ctx \<noteq> 0 \<Longrightarrow> contexts h ctx = Some c \<Longrightarrow> state_stack c = st @ ds \<Longrightarrow> nested (length ds) gs \<Longrightarrow>
    \<exists>h' c'. gcalls ctx gs h = Some h' \<and> contexts h' ctx = Some c' \<and> state_stack c' = st"
proof (induction gs arbitrary: h c ds)
  case (Cons g gs)
  consider "g = Save" | "g = Restore" | "g \<noteq> Save" "g \<noteq> Restore" by blast
  then show ?case
  proof cases
    case 1
    have "\<exists>h' c'. gcalls ctx gs (h\<lparr>contexts := (contexts h)(ctx \<mapsto> save_state c)\<rparr>) = Some h'
        \<and> contexts h' ctx = Some c' \<and> state_stack c' = st"
      by (rule Cons.IH [of _ "save_state c" "ds @ [draw_state c]"]) (use Cons.prems 1 in \<open>simp_all add: save_state_def\<close>)
    with Cons.prems 1 show ?thesis by (simp add: CGContextSaveGState_def ctx_map_def)
  next
    case 2
    with Cons.prems(4) obtain n where n: "length ds = Suc n" "nested n gs" by (auto split: nat.splits)
    then have ds: "ds \<noteq> []" by auto
    have "\<exists>h' c'. gcalls ctx gs (h\<lparr>contexts := (contexts h)(ctx \<mapsto> restore_state c)\<rparr>) = Some h'
        \<and> contexts h' ctx = Some c' \<and> state_stack c' = st"
      by (rule Cons.IH [of _ "restore_state c" "butlast ds"])
        (use Cons.prems n ds in \<open>simp_all add: restore_state_def Let_def butlast_append\<close>)
    with Cons.prems 2 show ?thesis by (simp add: CGContextRestoreGState_def ctx_map_def)
  next
    case 3
    obtain h1 c1 where one: "gcall_exec ctx g h = Some h1" "contexts h1 ctx = Some c1" "state_stack c1 = state_stack c"
      using gcall_stack [OF Cons.prems(1,2) 3] by blast
    have "nested (length ds) gs" using Cons.prems(4) 3 by (cases g) simp_all
    then have "\<exists>h' c'. gcalls ctx gs h1 = Some h' \<and> contexts h' ctx = Some c' \<and> state_stack c' = st"
      using Cons.IH [OF Cons.prems(1) one(2)] one(3) Cons.prems(3) by simp
    then show ?thesis by (simp add: one(1))
  qed
qed simp

lemma gcalls_append: "gcalls ctx (as @ bs) h = Option.bind (gcalls ctx as h) (gcalls ctx bs)"
proof (induction as arbitrary: h)
  case (Cons a as)
  then show ?case by (cases "gcall_exec ctx a h") simp_all
qed simp

text \<open>
  C5. The graphics state comes back: whatever a program does between \<open>CGContextSaveGState\<close> and the
  matching \<open>CGContextRestoreGState\<close>, nested saves included, afterwards fill colour, stroke
  colour, line width and transform are what they were, and so is the stack of saved states.
\<close>

theorem gstate_restored:
  assumes "ctx \<noteq> 0" and "contexts h ctx = Some c" and "nested 0 gs"
  shows "\<exists>h' c'. gcalls ctx (Save # gs @ [Restore]) h = Some h' \<and> contexts h' ctx = Some c'
    \<and> draw_state c' = draw_state c \<and> state_stack c' = state_stack c"
proof -
  let ?h = "h\<lparr>contexts := (contexts h)(ctx \<mapsto> save_state c)\<rparr>"
  obtain h1 c1 where mid: "gcalls ctx gs ?h = Some h1" "contexts h1 ctx = Some c1"
      "state_stack c1 = state_stack c @ [draw_state c]"
    using gcalls_stack [OF assms(1), of ?h "save_state c" "state_stack c @ [draw_state c]" "[]" gs] assms(3)
    by (auto simp: save_state_def)
  have "CGContextRestoreGState ctx h1 = Some (h1\<lparr>contexts := (contexts h1)(ctx \<mapsto> restore_state c1)\<rparr>)"
    using assms(1) mid(2) by (simp add: CGContextRestoreGState_def ctx_map_def)
  moreover have "draw_state (restore_state c1) = draw_state c" "state_stack (restore_state c1) = state_stack c"
    using mid(3) by (simp_all add: restore_state_def draw_state_def Let_def)
  moreover have "CGContextSaveGState ctx h = Some ?h"
    using assms(1,2) by (simp add: CGContextSaveGState_def ctx_map_def)
  ultimately show ?thesis using mid(1) by (simp add: gcalls_append)
qed

theorem gstate_restored_witness:
  "\<exists>h' c'. gcalls 0x1000 [Save, Gray_color 0 0, Save, Width f64_two, Restore, Translate 0 0, Restore] demo_context = Some h'
    \<and> contexts h' 0x1000 = Some c' \<and> line_width c' = f64_one \<and> state_stack c' = []"
proof -
  have "nested 0 [Gray_color 0 0, Save, Width f64_two, Restore, Translate 0 0]" by simp
  from gstate_restored [OF _ demo_context_at(1) this]
  obtain h' c' where "gcalls 0x1000 [Save, Gray_color 0 0, Save, Width f64_two, Restore, Translate 0 0, Restore] demo_context = Some h'"
      "contexts h' 0x1000 = Some c'" "draw_state c' = draw_state (new_context None 2 2 8 0)"
      "state_stack c' = state_stack (new_context None 2 2 8 0)"
    by auto
  then show ?thesis by (auto simp: draw_state_def new_context_def Let_def)
qed

end
