(* ===== verification/ShimCode.thy ===== *)
theory ShimCode
  imports Executor
begin

text \<open>
  \<open>crates/grafted-dyld/src/shims.rs\<close>, \<open>gen_trampoline\<close>: the machine code through which a
  program enters a function of the host's libc. The code opens the thread's selector
  (\<open>grafted_selector_allow\<close>) and jumps to the function. The bytes are executed here by an
  interpreter of the instructions they are made of; the called function is a parameter that
  follows the calling convention.
\<close>

section \<open>The pool of trampolines\<close>

definition POOL_SIZE :: nat where "POOL_SIZE = 4096 * 16"
definition TRAMP_SIZE :: nat where "TRAMP_SIZE = 48"

lemmas pool_consts = POOL_SIZE_def TRAMP_SIZE_def

definition shim_code :: "u64 \<Rightarrow> u64 \<Rightarrow> u8 list" where
  "shim_code afn target =
     [0x50, 0x57, 0x56, 0x52, 0x51, 0x41, 0x50, 0x41, 0x51, 0x48, 0xB8] @ le_bytes64 afn
     @ [0xFF, 0xD0, 0x41, 0x59, 0x41, 0x58, 0x59, 0x5A, 0x5E, 0x5F, 0x58, 0x49, 0xBB] @ le_bytes64 target
     @ [0x41, 0xFF, 0xE3]"

text \<open>
  The pool is the address of its pages and the offset of the next trampoline. \<open>mm\<close> is what
  \<open>mmap\<close> returns for it (\<open>None\<close>: it fails), \<open>afn\<close> the address of \<open>grafted_selector_allow\<close>.
  \<open>None\<close> as a result: one of the two assertions fails.
\<close>

type_synonym pool = "(ptr \<times> nat) option"

definition gen_trampoline :: "ptr option \<Rightarrow> u64 \<Rightarrow> u64 \<Rightarrow> pool \<times> mem \<Rightarrow> (u64 \<times> pool \<times> mem) option" where
  "gen_trampoline mm afn target s =
     (case s of (pool, m) \<Rightarrow>
       Option.bind (case pool of None \<Rightarrow> map_option (\<lambda>p. (p, 0)) mm | Some b \<Rightarrow> Some b) (\<lambda>(base, off).
         if off + TRAMP_SIZE \<le> POOL_SIZE
         then (let tramp = base + of_nat off in
               Some (tramp, Some (base, off + TRAMP_SIZE), store_bytes m tramp (shim_code afn target)))
         else None))"

lemma length_shim_code [simp]: "length (shim_code afn target) = 43"
  by (simp add: shim_code_def)

section \<open>Executing the code\<close>

datatype xinstr = Push greg | Pop greg | MovAbs greg u64 | CallReg greg | JmpReg greg

text \<open>Registers in the order of their numbers in the instruction format.\<close>

definition low_regs :: "greg list" where
  "low_regs = [RAX, RCX, RDX, RBX, RSP, RBP, RSI, RDI]"

definition high_regs :: "greg list" where
  "high_regs = [R8, R9, R10, R11, R12, R13, R14, R15]"

definition reg_field :: "greg list \<Rightarrow> u8 \<Rightarrow> greg" where
  "reg_field rs b = rs ! unat (b AND 7)"

text \<open>The instruction at an address, with its length.\<close>

definition decode_at :: "mem \<Rightarrow> u64 \<Rightarrow> (xinstr \<times> u64) option" where
  "decode_at m pc =
     (let b0 = m pc; b1 = m (pc + 1); b2 = m (pc + 2) in
      if b0 AND 0xF8 = 0x50 then Some (Push (reg_field low_regs b0), 1)
      else if b0 AND 0xF8 = 0x58 then Some (Pop (reg_field low_regs b0), 1)
      else if b0 = 0x41 \<and> b1 AND 0xF8 = 0x50 then Some (Push (reg_field high_regs b1), 2)
      else if b0 = 0x41 \<and> b1 AND 0xF8 = 0x58 then Some (Pop (reg_field high_regs b1), 2)
      else if b0 = 0x48 \<and> b1 AND 0xF8 = 0xB8 then Some (MovAbs (reg_field low_regs b1) (load64 m (pc + 2)), 10)
      else if b0 = 0x49 \<and> b1 AND 0xF8 = 0xB8 then Some (MovAbs (reg_field high_regs b1) (load64 m (pc + 2)), 10)
      else if b0 = 0xFF \<and> b1 AND 0xF8 = 0xD0 then Some (CallReg (reg_field low_regs b1), 2)
      else if b0 = 0x41 \<and> b1 = 0xFF \<and> b2 AND 0xF8 = 0xE0 then Some (JmpReg (reg_field high_regs b2), 3)
      else None)"

fun exec1 :: "xinstr \<Rightarrow> u64 \<Rightarrow> gregs \<times> mem \<Rightarrow> gregs \<times> mem" where
  "exec1 (Push r) next (g, m) = (g(RSP := g RSP - 8, RIP := next), store64 m (g RSP - 8) (g r))"
| "exec1 (Pop r) next (g, m) = (g(RSP := g RSP + 8, r := load64 m (g RSP), RIP := next), m)"
| "exec1 (MovAbs r v) next (g, m) = (g(r := v, RIP := next), m)"
| "exec1 (CallReg r) next (g, m) = (g(RSP := g RSP - 8, RIP := g r), store64 m (g RSP - 8) next)"
| "exec1 (JmpReg r) next (g, m) = (g(RIP := g r), m)"

text \<open>One step; arriving at \<open>afn\<close>, the called function runs as a whole.\<close>

type_synonym callee = "gregs \<times> mem \<Rightarrow> gregs \<times> mem"

definition shim_step :: "u64 \<Rightarrow> callee \<Rightarrow> gregs \<times> mem \<Rightarrow> (gregs \<times> mem) option" where
  "shim_step afn callee s =
     (case s of (g, m) \<Rightarrow>
       if g RIP = afn then Some (callee s)
       else map_option (\<lambda>(i, n). exec1 i (g RIP + n) s) (decode_at m (g RIP)))"

fun shim_steps :: "u64 \<Rightarrow> callee \<Rightarrow> nat \<Rightarrow> gregs \<times> mem \<Rightarrow> (gregs \<times> mem) option" where
  "shim_steps afn callee 0 s = Some s"
| "shim_steps afn callee (Suc n) s = Option.bind (shim_step afn callee s) (shim_steps afn callee n)"

section \<open>What the code at a trampoline decodes to\<close>

lemma bytes_at:
  assumes "load_bytes m T n = bs" and "i < n"
  shows "m (T + of_nat i) = bs ! i"
  using assms load_bytes_nth [of i n m T] by simp

lemma shim_bytes:
  assumes "load_bytes m T 43 = shim_code afn target"
  shows "m T = 0x50" "m (T + 1) = 0x57" "m (T + 2) = 0x56" "m (T + 3) = 0x52" "m (T + 4) = 0x51"
    "m (T + 5) = 0x41" "m (T + 6) = 0x50" "m (T + 7) = 0x41" "m (T + 8) = 0x51" "m (T + 9) = 0x48" "m (T + 10) = 0xB8"
    "m (T + 19) = 0xFF" "m (T + 20) = 0xD0" "m (T + 21) = 0x41" "m (T + 22) = 0x59" "m (T + 23) = 0x41"
    "m (T + 24) = 0x58" "m (T + 25) = 0x59" "m (T + 26) = 0x5A" "m (T + 27) = 0x5E" "m (T + 28) = 0x5F"
    "m (T + 29) = 0x58" "m (T + 30) = 0x49" "m (T + 31) = 0xBB"
    "m (T + 40) = 0x41" "m (T + 41) = 0xFF" "m (T + 42) = 0xE3"
  using bytes_at [OF assms, of 0] bytes_at [OF assms, of 1] bytes_at [OF assms, of 2] bytes_at [OF assms, of 3]
    bytes_at [OF assms, of 4] bytes_at [OF assms, of 5] bytes_at [OF assms, of 6] bytes_at [OF assms, of 7]
    bytes_at [OF assms, of 8] bytes_at [OF assms, of 9] bytes_at [OF assms, of 10] bytes_at [OF assms, of 19]
    bytes_at [OF assms, of 20] bytes_at [OF assms, of 21] bytes_at [OF assms, of 22] bytes_at [OF assms, of 23]
    bytes_at [OF assms, of 24] bytes_at [OF assms, of 25] bytes_at [OF assms, of 26] bytes_at [OF assms, of 27]
    bytes_at [OF assms, of 28] bytes_at [OF assms, of 29] bytes_at [OF assms, of 30] bytes_at [OF assms, of 31]
    bytes_at [OF assms, of 40] bytes_at [OF assms, of 41] bytes_at [OF assms, of 42]
  by (simp_all add: shim_code_def nth_append)

lemma shim_words:
  assumes "load_bytes m T 43 = shim_code afn target"
  shows "load64 m (T + 11) = afn" "load64 m (T + 32) = target"
proof -
  have "load_bytes m (T + of_nat 11) 8 = le_bytes64 afn" "load_bytes m (T + of_nat 32) 8 = le_bytes64 target"
    by (subst load_bytes_sub [of _ _ 43]; simp add: assms shim_code_def)+
  then show "load64 m (T + 11) = afn" "load64 m (T + 32) = target" by (simp_all add: load64_def)
qed

lemma decoded:
  assumes "load_bytes m T 43 = shim_code afn target"
  shows "decode_at m T = Some (Push RAX, 1)" "decode_at m (T + 1) = Some (Push RDI, 1)"
    "decode_at m (T + 2) = Some (Push RSI, 1)" "decode_at m (T + 3) = Some (Push RDX, 1)"
    "decode_at m (T + 4) = Some (Push RCX, 1)" "decode_at m (T + 5) = Some (Push R8, 2)"
    "decode_at m (T + 7) = Some (Push R9, 2)" "decode_at m (T + 9) = Some (MovAbs RAX afn, 10)"
    "decode_at m (T + 19) = Some (CallReg RAX, 2)" "decode_at m (T + 21) = Some (Pop R9, 2)"
    "decode_at m (T + 23) = Some (Pop R8, 2)" "decode_at m (T + 25) = Some (Pop RCX, 1)"
    "decode_at m (T + 26) = Some (Pop RDX, 1)" "decode_at m (T + 27) = Some (Pop RSI, 1)"
    "decode_at m (T + 28) = Some (Pop RDI, 1)" "decode_at m (T + 29) = Some (Pop RAX, 1)"
    "decode_at m (T + 30) = Some (MovAbs R11 target, 10)" "decode_at m (T + 40) = Some (JmpReg R11, 3)"
  using shim_bytes [OF assms] shim_words [OF assms]
  by (simp_all add: decode_at_def Let_def reg_field_def low_regs_def high_regs_def add.assoc)


section \<open>Running it\<close>

lemma shim_step_decoded:
  "g RIP \<noteq> afn \<Longrightarrow> decode_at m (g RIP) = Some (i, n) \<Longrightarrow>
    shim_step afn callee (g, m) = Some (exec1 i (g RIP + n) (g, m))"
  by (simp add: shim_step_def)

lemma shim_step_callee: "g RIP = afn \<Longrightarrow> shim_step afn callee (g, m) = Some (callee (g, m))"
  by (simp add: shim_step_def)

lemma shim_steps_add:
  "shim_steps afn callee (a + b) s = Option.bind (shim_steps afn callee a s) (shim_steps afn callee b)"
proof (induction a arbitrary: s)
  case (Suc a)
  then show ?case by (cases "shim_step afn callee s") simp_all
qed simp

text \<open>The stack below the caller's: \<open>B\<close> is the address of the last word pushed.\<close>

definition saved :: "u64 \<Rightarrow> gregs \<Rightarrow> mem \<Rightarrow> mem" where
  "saved B g m = fold (\<lambda>(d, r) m. store64 m (B + d) (g r))
     [(56, RAX), (48, RDI), (40, RSI), (32, RDX), (24, RCX), (16, R8), (8, R9)] m"

definition code_at :: "u64 \<Rightarrow> u64 \<Rightarrow> u64 \<Rightarrow> mem \<Rightarrow> bool" where
  "code_at T afn target m = (load_bytes m T 43 = shim_code afn target)"

lemma code_store:
  assumes "code_at T afn target m" and "apart T 43 B 64" and "d + 8 \<le> 64"
  shows "code_at T afn target (store64 m (B + of_nat d) v)"
proof -
  have "apart (T + of_nat 0) 43 (B + of_nat d) 8" using assms(2,3) by (intro apart_sub2) auto
  then show ?thesis using assms(1) by (simp add: code_at_def store64_def load_store_apart)
qed

lemmas code_slots = code_store [where d = 0, simplified] code_store [where d = 8, simplified]
  code_store [where d = 16, simplified] code_store [where d = 24, simplified]
  code_store [where d = 32, simplified] code_store [where d = 40, simplified]
  code_store [where d = 48, simplified] code_store [where d = 56, simplified]

lemma off_code:
  assumes "\<forall>i < 43. afn \<noteq> T + of_nat i" and "k < 43"
  shows "T + of_nat k \<noteq> afn"
  using assms by metis

lemmas decoded_at = decoded [folded code_at_def]

lemma pushes:
  assumes "code_at T afn target m" and "apart T 43 B 64" and "\<forall>i < 43. afn \<noteq> T + of_nat i"
    and "g RIP = T" and "g RSP = B + 64"
  shows "shim_steps afn callee 9 (g, m)
    = Some (g(RSP := B, RAX := afn, RIP := afn), store64 (saved B g m) B (T + 21))"
proof -
  note ne = off_code [OF assms(3)]
  have cm: "numeral k + B = B + numeral k" "numeral k + T = T + numeral k" for k by (rule add.commute)+
  define m1 where "m1 = store64 m (B + 56) (g RAX)"
  have c1: "code_at T afn target m1" unfolding m1_def by (rule code_slots [OF assms(1) assms(2)])
  have s1: "shim_step afn callee (g, m) = Some (g(RSP := B + 56, RIP := T + 1), m1)"
    using ne [of 0] decoded_at [OF assms(1)] assms(4,5) by (simp add: shim_step_decoded m1_def fun_upd_twist cm)
  define m2 where "m2 = store64 m1 (B + 48) (g RDI)"
  have c2: "code_at T afn target m2" unfolding m2_def by (rule code_slots [OF c1 assms(2)])
  have s2: "shim_step afn callee (g(RSP := B + 56, RIP := T + 1), m1) = Some (g(RSP := B + 48, RIP := T + 2), m2)"
    using ne [of 1] decoded_at [OF c1] assms(4,5) by (simp add: shim_step_decoded m2_def fun_upd_twist cm)
  define m3 where "m3 = store64 m2 (B + 40) (g RSI)"
  have c3: "code_at T afn target m3" unfolding m3_def by (rule code_slots [OF c2 assms(2)])
  have s3: "shim_step afn callee (g(RSP := B + 48, RIP := T + 2), m2) = Some (g(RSP := B + 40, RIP := T + 3), m3)"
    using ne [of 2] decoded_at [OF c2] assms(4,5) by (simp add: shim_step_decoded m3_def fun_upd_twist cm)
  define m4 where "m4 = store64 m3 (B + 32) (g RDX)"
  have c4: "code_at T afn target m4" unfolding m4_def by (rule code_slots [OF c3 assms(2)])
  have s4: "shim_step afn callee (g(RSP := B + 40, RIP := T + 3), m3) = Some (g(RSP := B + 32, RIP := T + 4), m4)"
    using ne [of 3] decoded_at [OF c3] assms(4,5) by (simp add: shim_step_decoded m4_def fun_upd_twist cm)
  define m5 where "m5 = store64 m4 (B + 24) (g RCX)"
  have c5: "code_at T afn target m5" unfolding m5_def by (rule code_slots [OF c4 assms(2)])
  have s5: "shim_step afn callee (g(RSP := B + 32, RIP := T + 4), m4) = Some (g(RSP := B + 24, RIP := T + 5), m5)"
    using ne [of 4] decoded_at [OF c4] assms(4,5) by (simp add: shim_step_decoded m5_def fun_upd_twist cm)
  define m6 where "m6 = store64 m5 (B + 16) (g R8)"
  have c6: "code_at T afn target m6" unfolding m6_def by (rule code_slots [OF c5 assms(2)])
  have s6: "shim_step afn callee (g(RSP := B + 24, RIP := T + 5), m5) = Some (g(RSP := B + 16, RIP := T + 7), m6)"
    using ne [of 5] decoded_at [OF c5] assms(4,5) by (simp add: shim_step_decoded m6_def fun_upd_twist cm)
  define m7 where "m7 = store64 m6 (B + 8) (g R9)"
  have c7: "code_at T afn target m7" unfolding m7_def by (rule code_slots [OF c6 assms(2)])
  have s7: "shim_step afn callee (g(RSP := B + 16, RIP := T + 7), m6) = Some (g(RSP := B + 8, RIP := T + 9), m7)"
    using ne [of 7] decoded_at [OF c6] assms(4,5) by (simp add: shim_step_decoded m7_def fun_upd_twist cm)
  have s8: "shim_step afn callee (g(RSP := B + 8, RIP := T + 9), m7) = Some (g(RSP := B + 8, RAX := afn, RIP := T + 19), m7)"
    using ne [of 9] decoded_at [OF c7] by (simp add: shim_step_decoded fun_upd_twist cm)
  have s9: "shim_step afn callee (g(RSP := B + 8, RAX := afn, RIP := T + 19), m7)
      = Some (g(RSP := B, RAX := afn, RIP := afn), store64 m7 B (T + 21))"
    using ne [of 19] decoded_at [OF c7] by (simp add: shim_step_decoded fun_upd_twist cm)
  have "shim_steps afn callee 9 (g, m) = Some (g(RSP := B, RAX := afn, RIP := afn), store64 m7 B (T + 21))"
    by (simp add: numeral_eq_Suc s1 s2 s3 s4 s5 s6 s7 s8 s9)
  also have "m7 = saved B g m" by (simp add: saved_def m1_def m2_def m3_def m4_def m5_def m6_def m7_def)
  finally show ?thesis .
qed

lemma slots_apart:
  assumes "d + 8 \<le> e \<or> e + 8 \<le> d" and "d \<le> 64" and "e \<le> 64"
  shows "apart (B + of_nat d) 8 (B + of_nat e) 8"
  using assms by (intro apart_fields) simp_all

text \<open>What the caller saved is still there, and comes back.\<close>

lemma saved_slots:
  "load64 (saved B g m) (B + 56) = g RAX" "load64 (saved B g m) (B + 48) = g RDI"
  "load64 (saved B g m) (B + 40) = g RSI" "load64 (saved B g m) (B + 32) = g RDX"
  "load64 (saved B g m) (B + 24) = g RCX" "load64 (saved B g m) (B + 16) = g R8"
  "load64 (saved B g m) (B + 8) = g R9"
proof -
  have ap: "apart (B + numeral d) 8 (B + numeral e) 8"
    if "numeral d + 8 \<le> (numeral e :: nat) \<or> numeral e + 8 \<le> (numeral d :: nat)"
      "(numeral d :: nat) \<le> 64" "(numeral e :: nat) \<le> 64" for d e
    using slots_apart [of "numeral d" "numeral e" B] that by (simp only: of_nat_numeral)
  show "load64 (saved B g m) (B + 56) = g RAX" "load64 (saved B g m) (B + 48) = g RDI"
    "load64 (saved B g m) (B + 40) = g RSI" "load64 (saved B g m) (B + 32) = g RDX"
    "load64 (saved B g m) (B + 24) = g RCX" "load64 (saved B g m) (B + 16) = g R8"
    "load64 (saved B g m) (B + 8) = g R9"
    by (simp_all add: saved_def load64_store64_apart ap)
qed

lemma pops:
  assumes "code_at T afn target m" and "\<forall>i < 43. afn \<noteq> T + of_nat i"
    and "h RIP = T + 21" and "h RSP = B + 8"
    and "\<forall>d r. (d, r) \<in> set [(56, RAX), (48, RDI), (40, RSI), (32, RDX), (24, RCX), (16, R8), (8, R9)]
      \<longrightarrow> load64 m (B + d) = g r"
  shows "shim_steps afn callee 9 (h, m)
    = Some (h(R9 := g R9, R8 := g R8, RCX := g RCX, RDX := g RDX, RSI := g RSI, RDI := g RDI, RAX := g RAX,
              RSP := B + 64, R11 := target, RIP := target), m)"
proof -
  note ne = off_code [OF assms(2)]
  have cm: "numeral k + B = B + numeral k" "numeral k + T = T + numeral k" for k by (rule add.commute)+
  note dec = decoded_at [OF assms(1)]
  note slot = assms(5) [simplified]
  define h1 where "h1 = h(RSP := B + 16, R9 := g R9, RIP := T + 23)"
  have s1: "shim_step afn callee (h, m) = Some (h1, m)"
    using ne [of 21] dec slot assms(3,4) by (simp add: shim_step_decoded h1_def  fun_upd_twist cm)
  define h2 where "h2 = h1(RSP := B + 24, R8 := g R8, RIP := T + 25)"
  have s2: "shim_step afn callee (h1, m) = Some (h2, m)"
    using ne [of 23] dec slot assms(3,4) by (simp add: shim_step_decoded h2_def h1_def fun_upd_twist cm)
  define h3 where "h3 = h2(RSP := B + 32, RCX := g RCX, RIP := T + 26)"
  have s3: "shim_step afn callee (h2, m) = Some (h3, m)"
    using ne [of 25] dec slot assms(3,4) by (simp add: shim_step_decoded h3_def h2_def fun_upd_twist cm)
  define h4 where "h4 = h3(RSP := B + 40, RDX := g RDX, RIP := T + 27)"
  have s4: "shim_step afn callee (h3, m) = Some (h4, m)"
    using ne [of 26] dec slot assms(3,4) by (simp add: shim_step_decoded h4_def h3_def fun_upd_twist cm)
  define h5 where "h5 = h4(RSP := B + 48, RSI := g RSI, RIP := T + 28)"
  have s5: "shim_step afn callee (h4, m) = Some (h5, m)"
    using ne [of 27] dec slot assms(3,4) by (simp add: shim_step_decoded h5_def h4_def fun_upd_twist cm)
  define h6 where "h6 = h5(RSP := B + 56, RDI := g RDI, RIP := T + 29)"
  have s6: "shim_step afn callee (h5, m) = Some (h6, m)"
    using ne [of 28] dec slot assms(3,4) by (simp add: shim_step_decoded h6_def h5_def fun_upd_twist cm)
  define h7 where "h7 = h6(RSP := B + 64, RAX := g RAX, RIP := T + 30)"
  have s7: "shim_step afn callee (h6, m) = Some (h7, m)"
    using ne [of 29] dec slot assms(3,4) by (simp add: shim_step_decoded h7_def h6_def fun_upd_twist cm)
  have s8: "shim_step afn callee (h7, m) = Some (h7(R11 := target, RIP := T + 40), m)"
    using ne [of 30] dec by (simp add: shim_step_decoded h7_def fun_upd_twist cm)
  have s9: "shim_step afn callee (h7(R11 := target, RIP := T + 40), m) = Some (h7(R11 := target, RIP := target), m)"
    using ne [of 40] dec by (simp add: shim_step_decoded fun_upd_twist)
  have "h7(R11 := target, RIP := target) = h(R9 := g R9, R8 := g R8, RCX := g RCX, RDX := g RDX, RSI := g RSI,
      RDI := g RDI, RAX := g RAX, RSP := B + 64, R11 := target, RIP := target)"
    by (rule ext) (simp add: h1_def h2_def h3_def h4_def h5_def h6_def h7_def)
  then show ?thesis by (simp add: numeral_eq_Suc s1 s2 s3 s4 s5 s6 s7 s8 s9)
qed

section \<open>The whole trampoline\<close>

text \<open>
  A function that opens the selector \<open>sel\<close> and keeps the calling convention: it returns to
  the address on the stack, preserves the callee-saved registers, and writes nothing but the
  selector and at most \<open>depth\<close> bytes below the stack pointer it was entered with.
\<close>

definition opens_selector :: "ptr \<Rightarrow> nat \<Rightarrow> callee \<Rightarrow> bool" where
  "opens_selector sel depth callee =
     (\<forall>g m. case callee (g, m) of (g', m') \<Rightarrow>
        g' RIP = load64 m (g RSP) \<and> g' RSP = g RSP + 8
        \<and> (\<forall>r \<in> {RBX, RBP, R12, R13, R14, R15}. g' r = g r)
        \<and> m' sel = SYSCALL_DISPATCH_FILTER_ALLOW
        \<and> (\<forall>a. a \<noteq> sel \<and> (\<forall>i < depth. a \<noteq> g RSP - of_nat (Suc i)) \<longrightarrow> m' a = m a))"

lemma load_bytes_cong:
  "(\<And>i. i < n \<Longrightarrow> m' (a + of_nat i) = m (a + of_nat i)) \<Longrightarrow> load_bytes m' a n = load_bytes m a n"
  unfolding load_bytes_def by (rule map_cong) simp_all

lemma load64_bytes_cong: "(\<And>i. i < 8 \<Longrightarrow> m' (a + of_nat i) = m (a + of_nat i)) \<Longrightarrow> load64 m' a = load64 m a"
  unfolding load64_def by (rule arg_cong [where f = u64_from_le], rule load_bytes_cong)

lemma above_stack:
  assumes "depth + 64 \<le> 2 ^ 64" and "d < 64" and "i < depth"
  shows "(B :: u64) + of_nat d \<noteq> B - of_nat (Suc i)"
proof
  assume "B + of_nat d = B - of_nat (Suc i)"
  then have "B + (of_nat d + of_nat (Suc i)) = B + 0" by (simp only: eq_diff_eq add.assoc add_0_right)
  then have "of_nat d + of_nat (Suc i) = (0 :: u64)" by (rule add_left_imp_eq)
  then have "(of_nat (d + Suc i) :: u64) = 0" by (simp only: of_nat_add)
  then have "unat (of_nat (d + Suc i) :: u64) = 0" by simp
  moreover have "unat (of_nat (d + Suc i) :: u64) = d + Suc i"
    by (rule unat_of_nat_u64) (use assms in linarith)
  ultimately show False by simp
qed

lemma below_off:
  assumes "apart T n (B - of_nat depth) (depth + k)" and "j < n" and "i < depth"
  shows "T + of_nat j \<noteq> (B :: u64) - of_nat (Suc i)"
proof
  assume eq: "T + of_nat j = B - of_nat (Suc i)"
  have "of_nat (depth - Suc i) = (of_nat depth - of_nat (Suc i) :: u64)"
    using assms(3) by (simp add: of_nat_diff)
  then have "B - of_nat (Suc i) = B - of_nat depth + of_nat (depth - Suc i)" by (simp add: algebra_simps)
  moreover have "depth - Suc i < depth + k" using assms(3) by simp
  ultimately show False using assms(1,2) eq unfolding apart_def by metis
qed

text \<open>The memory changes below the caller's stack pointer and at the selector, nowhere else.\<close>

lemma saved_elsewhere:
  assumes "\<forall>i < 64. a \<noteq> B + of_nat i"
  shows "store64 (saved B g m) B v a = m a"
proof -
  have out: "store64 m' (B + of_nat d) w a = m' a" if "d + 8 \<le> 64" for d w and m' :: mem
  proof -
    have "\<not> unat (a - (B + of_nat d)) < 8"
    proof
      assume lt: "unat (a - (B + of_nat d)) < 8"
      have "a = B + of_nat (d + unat (a - (B + of_nat d)))" by simp
      moreover have "d + unat (a - (B + of_nat d)) < 64" using lt that by linarith
      ultimately show False using assms by blast
    qed
    then show ?thesis by (simp add: store64_def store_bytes_def)
  qed
  note slot = out [where d = 0, simplified] out [where d = 8, simplified] out [where d = 16, simplified]
    out [where d = 24, simplified] out [where d = 32, simplified] out [where d = 40, simplified]
    out [where d = 48, simplified] out [where d = 56, simplified]
  show ?thesis by (simp add: saved_def slot)
qed

lemma trampoline_run:
  assumes code: "code_at T afn target m" and entry: "g RIP = T" "g RSP = B + 64"
    and callee: "opens_selector sel depth callee"
    and stack: "apart T 43 (B - of_nat depth) (depth + 64)" and depth: "depth + 64 \<le> 2 ^ 64"
    and afn: "\<forall>i < 43. afn \<noteq> T + of_nat i"
    and sel: "\<forall>i < 43. sel \<noteq> T + of_nat i" "\<forall>i < 64. sel \<noteq> B + of_nat i"
  obtains h h' m' where "shim_steps afn callee 9 (g, m) = Some (h, store64 (saved B g m) B (T + 21))"
    and "h RIP = afn" and "h RSP = B"
    and "shim_steps afn callee 19 (g, m) = Some (h', m')" and "h' RIP = target"
    and "\<forall>r. r \<notin> {RIP, R10, R11} \<longrightarrow> h' r = g r"
    and "m' sel = SYSCALL_DISPATCH_FILTER_ALLOW"
    and "\<forall>a. a \<noteq> sel \<and> (\<forall>i < depth. a \<noteq> B - of_nat (Suc i)) \<and> (\<forall>i < 64. a \<noteq> B + of_nat i) \<longrightarrow> m' a = m a"
proof -
  define h where "h = g(RSP := B, RAX := afn, RIP := afn)"
  define m1 where "m1 = store64 (saved B g m) B (T + 21)"
  have "apart (T + of_nat 0) 43 (B - of_nat depth + of_nat depth) 64" using stack by (rule apart_sub2) simp_all
  then have ap: "apart T 43 B 64" by simp
  have s1: "shim_steps afn callee 9 (g, m) = Some (h, m1)"
    unfolding h_def m1_def by (rule pushes [OF code ap afn entry])
  obtain k m2 where km: "callee (h, m1) = (k, m2)" by (cases "callee (h, m1)")
  then have k: "k RIP = load64 m1 B" "k RSP = B + 8" "\<forall>r \<in> {RBX, RBP, R12, R13, R14, R15}. k r = g r"
    "m2 sel = SYSCALL_DISPATCH_FILTER_ALLOW"
    using callee [unfolded opens_selector_def, THEN spec [of _ h], THEN spec [of _ m1]] by (auto simp: h_def)
  have m2: "m2 a = m1 a" if "a \<noteq> sel" "\<forall>i < depth. a \<noteq> B - of_nat (Suc i)" for a
    using callee [unfolded opens_selector_def, THEN spec [of _ h], THEN spec [of _ m1]] km that by (auto simp: h_def)
  have ret: "k RIP = T + 21" by (simp add: k(1) m1_def)
  have in_m1: "m1 (T + of_nat j) = m (T + of_nat j)" if "j < 43" for j
    unfolding m1_def using ap that unfolding apart_def by (intro saved_elsewhere) blast
  have in_m2: "m2 (T + of_nat j) = m (T + of_nat j)" if "j < 43" for j
    using in_m1 [OF that] m2 [of "T + of_nat j"] sel(1) that below_off [OF stack that] by metis
  have c2: "code_at T afn target m2"
    using code load_bytes_cong [where m' = m2 and m = m and a = T and n = 43, OF in_m2] by (simp add: code_at_def)
  have slot: "load64 m2 (B + of_nat d) = load64 (saved B g m) (B + of_nat d)" if "8 \<le> d" "d + 8 \<le> 64" for d
  proof -
    have "load64 m2 (B + of_nat d) = load64 m1 (B + of_nat d)"
    proof (rule load64_bytes_cong)
      fix i :: nat assume "i < 8"
      then have "d + i < 64" using that by simp
      then have "B + of_nat (d + i) \<noteq> sel" "\<forall>j < depth. B + of_nat (d + i) \<noteq> B - of_nat (Suc j)"
        using sel(2) above_stack [OF depth \<open>d + i < 64\<close>] by metis+
      then show "m2 (B + of_nat d + of_nat i) = m1 (B + of_nat d + of_nat i)"
        using m2 [of "B + of_nat (d + i)"] by (simp add: add.assoc)
    qed
    moreover have "apart (B + of_nat d) 8 (B + of_nat 0) 8" using that by (intro slots_apart) simp_all
    then have "load64 m1 (B + of_nat d) = load64 (saved B g m) (B + of_nat d)"
      unfolding m1_def by (intro load64_store64_apart) simp
    ultimately show ?thesis by simp
  qed
  note slots = slot [where d = 8, simplified] slot [where d = 16, simplified] slot [where d = 24, simplified]
    slot [where d = 32, simplified] slot [where d = 40, simplified] slot [where d = 48, simplified]
    slot [where d = 56, simplified]
  define h' where "h' = k(R9 := g R9, R8 := g R8, RCX := g RCX, RDX := g RDX, RSI := g RSI, RDI := g RDI,
    RAX := g RAX, RSP := B + 64, R11 := target, RIP := target)"
  have s3: "shim_steps afn callee 9 (k, m2) = Some (h', m2)"
    unfolding h'_def by (rule pops [OF c2 afn ret k(2)]) (auto simp: slots saved_slots)
  have "shim_steps afn callee (9 + (1 + 9)) (g, m) = Some (h', m2)"
    unfolding shim_steps_add s1 using s3 km by (simp add: shim_step_callee h_def)
  moreover have "h' r = g r" if "r \<notin> {RIP, R10, R11}" for r
    using that k(3) entry by (cases r) (simp_all add: h'_def)
  moreover have "m2 a = m a" if "a \<noteq> sel" "\<forall>i < depth. a \<noteq> B - of_nat (Suc i)" "\<forall>i < 64. a \<noteq> B + of_nat i" for a
    using m2 [OF that(1,2)] saved_elsewhere [OF that(3)] by (simp add: m1_def)
  ultimately show ?thesis
    using s1 k(4) by - (rule that [where h = h and h' = h' and m' = m2], simp_all add: m1_def h_def h'_def)
qed

end
