(* ===== verification/ShimTable.thy ===== *)
theory ShimTable
  imports ShimCode
begin

text \<open>
  \<open>crates/grafted-dyld/src/shims.rs\<close>, \<open>default_registry\<close>: the symbols of \<open>libSystem\<close> and
  \<open>libobjc\<close> the program can import, and what each resolves to. A name registered with
  \<open>reg!\<close> (\<open>Shim\<close>) or as a static resolves to the address itself, one registered with
  \<open>reg_libc!\<close> (\<open>Libc\<close>) to a trampoline of \<open>ShimCode\<close>. The tables are the source's, in its order
  and by its headings; \<open>addr\<close> gives the addresses of the functions and statics.
\<close>

section \<open>The tables\<close>

datatype shim_entry = Shim string | Libc string | Static string

type_synonym shim_table = "(string \<times> shim_entry) list"

definition posix_io_entries :: shim_table where
  "posix_io_entries =
     [(''_write'', Shim ''shim_write''), (''_read'', Shim ''shim_read''), (''_open'', Shim ''shim_open''),
      (''_close'', Shim ''shim_close''), (''_lseek'', Shim ''shim_lseek''), (''_dup'', Shim ''shim_dup''),
      (''_dup2'', Shim ''shim_dup2''), (''_fcntl'', Shim ''shim_fcntl''),
      (''_fstat'', Shim ''shim_fstat''), (''_stat'', Shim ''shim_stat''),
      (''_isatty'', Shim ''shim_isatty'')]"

definition process_entries :: shim_table where
  "process_entries =
     [(''_exit'', Libc ''exit''), (''__exit'', Shim ''shim_exit''), (''__exit'', Shim ''shim_exit''),
      (''_getpid'', Shim ''shim_getpid''), (''_getuid'', Shim ''shim_getuid''),
      (''_geteuid'', Shim ''shim_geteuid''), (''_getgid'', Shim ''shim_getgid''),
      (''_getegid'', Shim ''shim_getegid'')]"

definition memory_entries :: shim_table where
  "memory_entries =
     [(''_mmap'', Shim ''shim_mmap''), (''_munmap'', Shim ''shim_munmap''),
      (''_mprotect'', Shim ''shim_mprotect''), (''_malloc'', Libc ''malloc''), (''_free'', Libc ''free''),
      (''_calloc'', Libc ''calloc''), (''_realloc'', Libc ''realloc'')]"

definition string_entries :: shim_table where
  "string_entries =
     [(''_strlen'', Libc ''strlen''), (''_memcpy'', Libc ''memcpy''), (''_memmove'', Libc ''memmove''),
      (''_memset'', Libc ''memset''), (''_memcmp'', Libc ''memcmp''), (''_strcmp'', Libc ''strcmp''),
      (''_strncmp'', Libc ''strncmp''), (''_strcpy'', Libc ''strcpy''), (''_strncpy'', Libc ''strncpy''),
      (''___bzero'', Libc ''bzero''), (''_bzero'', Libc ''bzero''), (''_strchr'', Libc ''strchr''),
      (''_strrchr'', Libc ''strrchr''), (''_strstr'', Libc ''strstr''), (''_strpbrk'', Libc ''strpbrk''),
      (''_strspn'', Libc ''strspn''), (''_strcspn'', Libc ''strcspn''), (''_strerror'', Libc ''strerror''),
      (''_strcoll'', Libc ''strcoll''), (''_strtod'', Libc ''strtod''), (''_memchr'', Libc ''memchr'')]"

definition stdio_entries :: shim_table where
  "stdio_entries =
     [(''_puts'', Shim ''shim_puts''), (''_printf'', Libc ''printf''), (''_fprintf'', Libc ''fprintf''),
      (''_fwrite'', Libc ''fwrite''), (''_fread'', Libc ''fread''), (''_fflush'', Libc ''fflush''),
      (''_fclose'', Libc ''fclose''), (''_fputc'', Libc ''fputc''), (''_fputs'', Libc ''fputs''),
      (''_getc'', Libc ''fgetc''), (''_getchar'', Libc ''getchar''), (''___srget'', Libc ''fgetc''),
      (''_ungetc'', Libc ''ungetc''), (''_feof'', Libc ''feof''), (''_ferror'', Libc ''ferror''),
      (''_clearerr'', Libc ''clearerr''), (''_fopen'', Libc ''fopen''), (''_setvbuf'', Libc ''setvbuf''),
      (''_setbuf'', Libc ''setbuf''), (''_freopen'', Libc ''freopen''), (''_ftell'', Libc ''ftell''),
      (''_fseek'', Libc ''fseek''), (''_rewind'', Libc ''rewind''), (''_sscanf'', Libc ''sscanf''),
      (''_fscanf'', Libc ''fscanf''), (''_snprintf'', Shim ''shim_snprintf_vararg_fix''),
      (''_sprintf'', Libc ''sprintf'')]"

definition time_locale_entries :: shim_table where
  "time_locale_entries =
     [(''_time'', Libc ''time''), (''_clock'', Libc ''clock''), (''_difftime'', Libc ''difftime''),
      (''_mktime'', Libc ''mktime''), (''_gmtime_r'', Libc ''gmtime_r''),
      (''_localtime_r'', Libc ''localtime_r''), (''_strftime'', Libc ''strftime''),
      (''_setlocale'', Libc ''setlocale''), (''_localeconv'', Libc ''localeconv''),
      (''_getenv'', Libc ''getenv''), (''_system'', Libc ''system'')]"

definition math_entries :: shim_table where
  "math_entries =
     [(''_acos'', Libc ''acos''), (''_asin'', Libc ''asin''), (''_atan'', Libc ''atan''),
      (''_atan2'', Libc ''atan2''), (''_cos'', Libc ''cos''), (''_sin'', Libc ''sin''),
      (''_tan'', Libc ''tan''), (''_exp'', Libc ''exp''), (''_log'', Libc ''c_log''),
      (''_log10'', Libc ''log10''), (''_log2'', Libc ''log2''), (''_pow'', Libc ''pow''),
      (''_fmod'', Libc ''fmod''), (''_frexp'', Libc ''frexp''), (''_ldexp'', Libc ''ldexp''),
      (''_acosh'', Libc ''acosh''), (''_asinh'', Libc ''asinh''), (''_atanh'', Libc ''atanh''),
      (''_cbrt'', Libc ''cbrt''), (''_cosh'', Libc ''cosh''), (''_sinh'', Libc ''sinh''),
      (''_tanh'', Libc ''tanh''), (''_erf'', Libc ''erf''), (''_erfc'', Libc ''erfc''),
      (''_exp2'', Libc ''exp2''), (''_expm1'', Libc ''expm1''), (''_fdim'', Libc ''fdim''),
      (''_fma'', Libc ''fma''), (''_hypot'', Libc ''hypot''), (''_j0'', Libc ''j0''),
      (''_j1'', Libc ''j1''), (''_jn'', Libc ''jn''), (''_lgamma'', Libc ''lgamma''),
      (''_lgamma_r'', Libc ''lgamma_r''), (''_log1p'', Libc ''log1p''), (''_logb'', Libc ''logb''),
      (''_modf'', Libc ''modf''), (''_nextafter'', Libc ''nextafter''),
      (''_nexttoward'', Libc ''nexttoward''), (''_remainder'', Libc ''remainder''),
      (''_scalb'', Libc ''scalb''), (''_scalbln'', Libc ''scalbln''), (''_tgamma'', Libc ''tgamma''),
      (''_y0'', Libc ''y0''), (''_y1'', Libc ''y1''), (''_yn'', Libc ''yn''),
      (''___exp10'', Shim ''shim_exp10'')]"

definition float_entries :: shim_table where
  "float_entries =
     [(''_sqrtf'', Libc ''sqrtf''), (''_sqrt'', Libc ''sqrt''), (''_floorf'', Libc ''floorf''),
      (''_floor'', Libc ''floor''), (''_ceilf'', Libc ''ceilf''), (''_ceil'', Libc ''ceil''),
      (''_cosf'', Libc ''cosf''), (''_sinf'', Libc ''sinf''), (''_tanf'', Libc ''tanf''),
      (''_expf'', Libc ''expf''), (''_logf'', Libc ''logf''), (''_fmodf'', Libc ''fmodf''),
      (''_fmaxf'', Libc ''fmaxf''), (''_fminf'', Libc ''fminf''), (''_fmaxl'', Libc ''fmaxl''),
      (''_fabsf'', Libc ''fabsf''), (''_fabs'', Libc ''fabs''), (''_roundf'', Libc ''roundf''),
      (''_round'', Libc ''round''), (''_truncf'', Libc ''truncf''), (''_trunc'', Libc ''trunc'')]"

definition fortified_entries :: shim_table where
  "fortified_entries =
     [(''___snprintf_chk'', Libc ''__snprintf_chk''), (''___sprintf_chk'', Libc ''__sprintf_chk''),
      (''___vsnprintf_chk'', Libc ''__vsnprintf_chk''), (''___memset_chk'', Libc ''__memset_chk''),
      (''___strncpy_chk'', Libc ''__strncpy_chk''), (''___memcpy_chk'', Shim ''shim_memcpy_chk''),
      (''___memmove_chk'', Shim ''shim_memmove_chk'')]"

definition lock_entries :: shim_table where
  "lock_entries =
     [(''_os_unfair_lock_lock'', Shim ''shim_noop''), (''_os_unfair_lock_unlock'', Shim ''shim_noop'')]"

definition misc_entries :: shim_table where
  "misc_entries =
     [(''_openat'', Shim ''shim_openat''), (''_readv'', Libc ''readv''), (''_writev'', Libc ''writev''),
      (''_msync'', Libc ''msync''), (''_pwrite'', Libc ''pwrite''),
      (''_close$NOCANCEL'', Shim ''shim_close''), (''_getcontext'', Shim ''shim_noop''),
      (''__availability_version_check'', Shim ''shim_noop_true''),
      (''__dyld_image_count'', Shim ''shim_noop''), (''__dyld_get_image_header'', Shim ''shim_noop''),
      (''__dyld_get_image_name'', Shim ''shim_noop''),
      (''__dyld_get_image_vmaddr_slide'', Shim ''shim_noop''),
      (''_pthread_threadid_np'', Shim ''shim_noop'')]"

definition string_extra_entries :: shim_table where
  "string_extra_entries =
     [(''_strdup'', Libc ''strdup''), (''_memmem'', Libc ''memmem''), (''_qsort'', Libc ''qsort''),
      (''_atoi'', Libc ''atoi''), (''_dirname'', Libc ''dirname''), (''_realpath'', Libc ''realpath''),
      (''_perror'', Libc ''perror''), (''_putchar'', Libc ''putchar''), (''_raise'', Libc ''raise''),
      (''_rand'', Libc ''rand''), (''_vsnprintf'', Libc ''vsnprintf''), (''_fgets'', Libc ''fgets''),
      (''_fileno'', Libc ''fileno''), (''_gettimeofday'', Libc ''gettimeofday''),
      (''_pathconf'', Libc ''pathconf''), (''_strptime'', Libc ''strptime''),
      (''_timegm'', Libc ''timegm''), (''_fdopen'', Libc ''fdopen'')]"

definition variant_entries :: shim_table where
  "variant_entries =
     [(''_fopen$DARWIN_EXTSN'', Libc ''fopen''), (''_fdopen$DARWIN_EXTSN'', Libc ''fdopen''),
      (''_realpath$DARWIN_EXTSN'', Libc ''realpath''), (''_stat$INODE64'', Libc ''stat''),
      (''_fstat$INODE64'', Libc ''fstat'')]"

definition pthread_entries :: shim_table where
  "pthread_entries =
     [(''_pthread_create'', Shim ''shim_pthread_create''), (''_pthread_join'', Shim ''shim_pthread_join''),
      (''_pthread_getspecific'', Shim ''shim_pthread_getspecific''),
      (''_pthread_setspecific'', Shim ''shim_pthread_setspecific''),
      (''_pthread_key_create'', Shim ''shim_pthread_key_create''),
      (''_pthread_once'', Shim ''shim_pthread_once'')]"

definition crt_entries :: shim_table where
  "crt_entries =
     [(''____chkstk_darwin'', Shim ''shim_noop''), (''___assert_rtn'', Shim ''shim_assert_rtn''),
      (''_memset_pattern16'', Shim ''shim_memset_pattern16''),
      (''___error'', Shim ''shim_errno_location''), (''___stack_chk_fail'', Shim ''shim_stack_chk_fail''),
      (''_abort'', Shim ''shim_abort''), (''_atexit'', Libc ''atexit''),
      (''_environ'', Static ''ENVIRON_PTR''), (''___progname'', Static ''PROGNAME_PTR''),
      (''___stack_chk_guard'', Static ''STACK_CHK_GUARD''), (''_NXArgc'', Static ''NXARGC''),
      (''_NXArgv'', Static ''NXARGV'')]"

definition nsget_entries :: shim_table where
  "nsget_entries =
     [(''__NSGetArgc'', Shim ''shim_nsgetargc''), (''__NSGetArgv'', Shim ''shim_nsgetargv''),
      (''__NSGetEnviron'', Shim ''shim_nsgetenviron''),
      (''__NSGetExecutablePath'', Shim ''shim_nsgetexecutablepath'')]"

definition unwind_entries :: shim_table where
  "unwind_entries =
     [(''__Unwind_Backtrace'', Shim ''shim_noop''), (''__Unwind_GetIP'', Shim ''shim_noop''),
      (''__Unwind_GetRegionStart'', Shim ''shim_noop''), (''__Unwind_SetGR'', Shim ''shim_noop''),
      (''__Unwind_SetIP'', Shim ''shim_noop''), (''__Unwind_RaiseException'', Shim ''shim_noop''),
      (''__Unwind_Resume'', Shim ''shim_noop''), (''__Unwind_DeleteException'', Shim ''shim_noop''),
      (''__Unwind_GetDataRelBase'', Shim ''shim_noop''), (''__Unwind_GetTextRelBase'', Shim ''shim_noop''),
      (''__Unwind_FindEnclosingFunction'', Shim ''shim_noop''),
      (''__Unwind_GetLanguageSpecificData'', Shim ''shim_noop'')]"

definition mach_entries :: shim_table where
  "mach_entries =
     [(''_mach_task_self'', Shim ''shim_mach_task_self''),
      (''_mach_thread_self'', Shim ''shim_mach_thread_self''), (''_host_self'', Shim ''shim_host_self''),
      (''_mach_host_self'', Shim ''shim_host_self''),
      (''_mach_port_allocate'', Shim ''shim_mach_port_allocate''),
      (''_mach_port_deallocate'', Shim ''shim_mach_port_deallocate''),
      (''_mach_port_insert_right'', Shim ''shim_mach_port_insert_right''),
      (''_mach_port_mod_refs'', Shim ''shim_mach_port_mod_refs''),
      (''_mach_port_type'', Shim ''shim_mach_port_type''), (''_mach_msg'', Shim ''shim_mach_msg''),
      (''_mach_msg_overwrite'', Shim ''shim_mach_msg''),
      (''_mach_reply_port'', Shim ''shim_mach_reply_port''),
      (''_bootstrap_port'', Shim ''shim_bootstrap_port_addr''),
      (''_mach_vm_protect'', Shim ''shim_mach_vm_protect''), (''_mach_vm_map'', Shim ''shim_noop''),
      (''_vm_protect'', Shim ''shim_vm_protect''), (''_vm_deallocate'', Shim ''shim_noop''),
      (''___stdinp'', Static ''REAL_STDIN''), (''___stdoutp'', Static ''REAL_STDOUT''),
      (''___stderrp'', Static ''REAL_STDERR''), (''__DefaultRuneLocale'', Static ''DEFAULT_RUNE_LOCALE''),
      (''___maskrune'', Shim ''shim_maskrune''), (''___tolower'', Libc ''tolower''),
      (''___toupper'', Libc ''toupper''), (''_isdigit'', Libc ''isdigit''),
      (''_isalpha'', Libc ''isalpha''), (''_isspace'', Libc ''isspace''), (''_isupper'', Libc ''isupper''),
      (''_islower'', Libc ''islower''), (''_isprint'', Libc ''isprint''), (''_iscntrl'', Libc ''iscntrl''),
      (''_ispunct'', Libc ''ispunct''), (''_isxdigit'', Libc ''isxdigit''),
      (''_isalnum'', Libc ''isalnum''), (''_toupper'', Libc ''toupper''), (''_tolower'', Libc ''tolower''),
      (''___memcpy_chk'', Libc ''memcpy''), (''___strcpy_chk'', Libc ''strcpy''),
      (''_dlopen'', Libc ''dlopen''), (''_dlclose'', Libc ''dlclose''), (''_dlsym'', Libc ''dlsym''),
      (''_dlerror'', Libc ''dlerror''), (''_sigaction'', Shim ''shim_sigaction''),
      (''_signal'', Libc ''signal''), (''_sigprocmask'', Libc ''sigprocmask''),
      (''_sigemptyset'', Libc ''sigemptyset''), (''_sigfillset'', Libc ''sigfillset''),
      (''_sigaddset'', Libc ''sigaddset''), (''_kill'', Libc ''kill'')]"

definition multiplex_entries :: shim_table where
  "multiplex_entries =
     [(''_poll'', Libc ''poll''), (''_select'', Libc ''select''), (''_select$1050'', Libc ''select''),
      (''_pselect'', Libc ''pselect'')]"

definition stat_entries :: shim_table where
  "stat_entries =
     [(''_stat'', Shim ''shim_stat''), (''_fstat'', Shim ''shim_fstat''),
      (''_lstat'', Shim ''shim_lstat''), (''_stat$INODE64'', Shim ''shim_stat''),
      (''_fstat$INODE64'', Shim ''shim_fstat''), (''_lstat$INODE64'', Shim ''shim_lstat'')]"

definition file_entries :: shim_table where
  "file_entries =
     [(''_access'', Libc ''access''), (''_unlink'', Libc ''unlink''), (''_rename'', Libc ''rename''),
      (''_mkdir'', Libc ''mkdir''), (''_rmdir'', Libc ''rmdir''), (''_getcwd'', Libc ''getcwd''),
      (''_chdir'', Libc ''chdir''), (''_pipe'', Libc ''pipe'')]"

definition network_entries :: shim_table where
  "network_entries =
     [(''_socket'', Libc ''socket''), (''_connect'', Libc ''connect''), (''_bind'', Libc ''bind''),
      (''_listen'', Libc ''listen''), (''_accept'', Libc ''accept''), (''_send'', Libc ''send''),
      (''_recv'', Libc ''recv''), (''_sendto'', Libc ''sendto''), (''_recvfrom'', Libc ''recvfrom''),
      (''_setsockopt'', Libc ''setsockopt''), (''_getsockopt'', Libc ''getsockopt''),
      (''_getaddrinfo'', Shim ''shim_getaddrinfo''), (''_freeaddrinfo'', Shim ''shim_freeaddrinfo''),
      (''_gai_strerror'', Libc ''gai_strerror''), (''_getnameinfo'', Libc ''getnameinfo''),
      (''_shutdown'', Libc ''shutdown''), (''_fork'', Libc ''fork''), (''_execve'', Libc ''execve''),
      (''_waitpid'', Libc ''waitpid''), (''_sysconf'', Libc ''sysconf'')]"

definition directory_entries :: shim_table where
  "directory_entries =
     [(''_opendir'', Libc ''opendir''), (''_opendir$INODE64'', Libc ''opendir''),
      (''_readdir_r$INODE64'', Libc ''readdir_r''), (''_closedir'', Libc ''closedir''),
      (''_dirfd'', Libc ''dirfd'')]"

definition clock_entries :: shim_table where
  "clock_entries =
     [(''_clock_gettime'', Libc ''clock_gettime''), (''_nanosleep'', Libc ''nanosleep'')]"

definition user_entries :: shim_table where
  "user_entries =
     [(''_execvp'', Libc ''execvp''), (''_gethostname'', Libc ''gethostname''),
      (''_getpwuid_r'', Libc ''getpwuid_r''), (''_getentropy'', Libc ''getentropy''),
      (''_setuid'', Libc ''setuid''), (''_setgid'', Libc ''setgid''), (''_setgroups'', Libc ''setgroups''),
      (''_setpgid'', Libc ''setpgid''), (''_uname'', Libc ''uname''), (''_ioctl'', Libc ''ioctl''),
      (''_sched_yield'', Libc ''sched_yield''), (''_strerror_r'', Libc ''strerror_r''),
      (''_posix_memalign'', Libc ''posix_memalign''), (''_posix_madvise'', Libc ''posix_madvise''),
      (''_sigaltstack'', Shim ''shim_sigaltstack_noop''), (''_sysctl'', Shim ''shim_sysctl''),
      (''_sysctlbyname'', Shim ''shim_sysctlbyname'')]"

definition pthread_extra_entries :: shim_table where
  "pthread_extra_entries =
     [(''_pthread_self'', Libc ''pthread_self''), (''_pthread_attr_init'', Libc ''pthread_attr_init''),
      (''_pthread_attr_destroy'', Libc ''pthread_attr_destroy''),
      (''_pthread_attr_setstacksize'', Libc ''pthread_attr_setstacksize''),
      (''_pthread_detach'', Libc ''pthread_detach''),
      (''_pthread_mutex_init'', Libc ''pthread_mutex_init''),
      (''_pthread_mutex_destroy'', Libc ''pthread_mutex_destroy''),
      (''_pthread_mutex_lock'', Libc ''pthread_mutex_lock''),
      (''_pthread_mutex_unlock'', Libc ''pthread_mutex_unlock''),
      (''_pthread_mutex_trylock'', Libc ''pthread_mutex_trylock''),
      (''_pthread_mutexattr_init'', Libc ''pthread_mutexattr_init''),
      (''_pthread_mutexattr_destroy'', Libc ''pthread_mutexattr_destroy''),
      (''_pthread_mutexattr_settype'', Libc ''pthread_mutexattr_settype''),
      (''_pthread_setname_np'', Shim ''shim_pthread_setname_np''),
      (''_pthread_get_stackaddr_np'', Shim ''shim_pthread_get_stackaddr_np''),
      (''_pthread_get_stacksize_np'', Shim ''shim_pthread_get_stacksize_np'')]"

definition spawn_entries :: shim_table where
  "spawn_entries =
     [(''_posix_spawnp'', Libc ''posix_spawnp''),
      (''_posix_spawnattr_init'', Libc ''posix_spawnattr_init''),
      (''_posix_spawnattr_destroy'', Libc ''posix_spawnattr_destroy''),
      (''_posix_spawnattr_setflags'', Libc ''posix_spawnattr_setflags''),
      (''_posix_spawnattr_setpgroup'', Libc ''posix_spawnattr_setpgroup''),
      (''_posix_spawnattr_setsigdefault'', Libc ''posix_spawnattr_setsigdefault''),
      (''_posix_spawn_file_actions_init'', Libc ''posix_spawn_file_actions_init''),
      (''_posix_spawn_file_actions_destroy'', Libc ''posix_spawn_file_actions_destroy''),
      (''_posix_spawn_file_actions_adddup2'', Libc ''posix_spawn_file_actions_adddup2'')]"

definition dispatch_entries :: shim_table where
  "dispatch_entries =
     [(''_dispatch_semaphore_create'', Shim ''shim_dispatch_semaphore_create''),
      (''_dispatch_semaphore_signal'', Shim ''shim_dispatch_semaphore_signal''),
      (''_dispatch_semaphore_wait'', Shim ''shim_dispatch_semaphore_wait''),
      (''_dispatch_time'', Shim ''shim_dispatch_time''), (''_dispatch_release'', Shim ''shim_noop'')]"

definition tls_entries :: shim_table where
  "tls_entries =
     [(''__tlv_bootstrap'', Shim ''shim_tlv_bootstrap_asm''), (''__tlv_atexit'', Shim ''shim_noop'')]"

definition more_entries :: shim_table where
  "more_entries =
     [(''__Unwind_GetCFA'', Shim ''shim_noop''), (''__Unwind_GetIPInfo'', Shim ''shim_noop''),
      (''_getrlimit'', Libc ''getrlimit''), (''_madvise'', Libc ''madvise''), (''_srand'', Libc ''srand''),
      (''_strtol'', Libc ''strtol''), (''_strtoul'', Libc ''strtoul''), (''_strtoll'', Libc ''strtoll''),
      (''_strnlen'', Libc ''strnlen''), (''_strncat'', Libc ''strncat''), (''_strtok'', Libc ''strtok''),
      (''_strcasecmp'', Libc ''strcasecmp''), (''_strncasecmp'', Libc ''strncasecmp''),
      (''_utimes'', Libc ''utimes''), (''_chmod'', Libc ''chmod''), (''_fsync'', Libc ''fsync''),
      (''_link'', Libc ''link''), (''_pread'', Libc ''pread''), (''_readlink'', Libc ''readlink''),
      (''_getpgid'', Libc ''getpgid''), (''_getppid'', Libc ''getppid''), (''_getsid'', Libc ''getsid''),
      (''_pthread_rwlock_init'', Libc ''pthread_rwlock_init''),
      (''_pthread_rwlock_destroy'', Libc ''pthread_rwlock_destroy''),
      (''_pthread_rwlock_rdlock'', Libc ''pthread_rwlock_rdlock''),
      (''_pthread_rwlock_wrlock'', Libc ''pthread_rwlock_wrlock''),
      (''_pthread_rwlock_unlock'', Libc ''pthread_rwlock_unlock''),
      (''_pthread_key_delete'', Libc ''pthread_key_delete''),
      (''_readdir$INODE64'', Shim ''shim_readdir''),
      (''_mach_absolute_time'', Shim ''shim_mach_absolute_time''),
      (''_mach_timebase_info'', Shim ''shim_mach_timebase_info''),
      (''dyld_stub_binder'', Shim ''shim_noop'')]"

definition go_entries :: shim_table where
  "go_entries =
     [(''_stat64'', Shim ''shim_stat''), (''_fstat64'', Shim ''shim_fstat''),
      (''_lstat64'', Shim ''shim_lstat''), (''_fdopendir$INODE64'', Libc ''fdopendir''),
      (''_chroot'', Libc ''chroot''), (''_getpeername'', Libc ''getpeername''),
      (''_getsockname'', Libc ''getsockname''), (''_kevent'', Shim ''shim_kevent''),
      (''_kqueue'', Shim ''shim_kqueue''), (''_mkfifo'', Libc ''mkfifo''),
      (''_sendfile'', Libc ''sendfile''), (''_setrlimit'', Libc ''setrlimit''),
      (''_setsid'', Libc ''setsid''), (''_usleep'', Libc ''usleep''), (''_wait4'', Libc ''wait4''),
      (''_pthread_attr_getstacksize'', Libc ''pthread_attr_getstacksize''),
      (''_pthread_attr_setdetachstate'', Libc ''pthread_attr_setdetachstate''),
      (''_pthread_cond_init'', Libc ''pthread_cond_init''),
      (''_pthread_cond_signal'', Libc ''pthread_cond_signal''),
      (''_pthread_cond_wait'', Libc ''pthread_cond_wait''), (''_pthread_kill'', Libc ''pthread_kill''),
      (''_pthread_sigmask'', Libc ''pthread_sigmask''),
      (''_pthread_cond_timedwait_relative_np'', Shim ''shim_pthread_cond_timedwait_relative_np''),
      (''_issetugid'', Shim ''shim_issetugid''), (''_ptrace'', Shim ''shim_noop_ret0''),
      (''_notify_is_valid_token'', Shim ''shim_noop_ret0''),
      (''_xpc_date_create_from_current'', Shim ''shim_noop_ret0''), (''__setjmp'', Shim ''_setjmp''),
      (''__longjmp'', Shim ''_longjmp'')]"

definition new_delete_entries :: shim_table where
  "new_delete_entries =
     [(''__Znwm'', Libc ''malloc''), (''__Znam'', Libc ''malloc''), (''__ZdlPv'', Libc ''free''),
      (''__ZdaPv'', Libc ''free'')]"

lemmas section_defs = posix_io_entries_def process_entries_def memory_entries_def string_entries_def
  stdio_entries_def time_locale_entries_def math_entries_def float_entries_def
  fortified_entries_def lock_entries_def misc_entries_def string_extra_entries_def
  variant_entries_def pthread_entries_def crt_entries_def nsget_entries_def
  unwind_entries_def mach_entries_def multiplex_entries_def stat_entries_def
  file_entries_def network_entries_def directory_entries_def clock_entries_def
  user_entries_def pthread_extra_entries_def spawn_entries_def dispatch_entries_def
  tls_entries_def more_entries_def go_entries_def new_delete_entries_def

definition libsystem_table :: shim_table where
  "libsystem_table =
     posix_io_entries @ process_entries @ memory_entries
     @ string_entries @ stdio_entries @ time_locale_entries
     @ math_entries @ float_entries @ fortified_entries
     @ lock_entries @ misc_entries @ string_extra_entries
     @ variant_entries @ pthread_entries @ crt_entries
     @ nsget_entries @ unwind_entries @ mach_entries
     @ multiplex_entries @ stat_entries @ file_entries
     @ network_entries @ directory_entries @ clock_entries
     @ user_entries @ pthread_extra_entries @ spawn_entries
     @ dispatch_entries @ tls_entries @ more_entries
     @ go_entries @ new_delete_entries"

definition objc_table :: shim_table where
  "objc_table =
     [(''_objc_msgSend'', Shim ''objc_msgSend''), (''_objc_getClass'', Shim ''objc_getClass''),
      (''_objc_lookUpClass'', Shim ''objc_getClass''), (''_sel_registerName'', Shim ''sel_registerName''),
      (''_objc_registerClassPair'', Shim ''objc_registerClassPair''),
      (''_objc_retain'', Shim ''shim_objc_retain''), (''_objc_release'', Shim ''shim_objc_release''),
      (''_objc_retainAutorelease'', Shim ''shim_objc_retain''),
      (''_objc_autoreleaseReturnValue'', Shim ''shim_objc_retain''),
      (''_objc_retainAutoreleasedReturnValue'', Shim ''shim_objc_retain''),
      (''_objc_allocWithZone'', Shim ''shim_objc_alloc_with_zone''),
      (''_objc_opt_self'', Shim ''shim_objc_retain''),
      (''_objc_msgSendSuper2'', Shim ''shim_objc_msg_send_super2''),
      (''_objc_msgSend_stret'', Shim ''objc_msgSend''),
      (''_objc_getAssociatedObject'', Shim ''shim_noop_ret0''),
      (''_objc_setAssociatedObject'', Shim ''shim_noop''),
      (''_objc_setHook_getClass'', Shim ''shim_noop''),
      (''__objc_empty_cache'', Static ''__objc_empty_cache''),
      (''__objc_empty_vtable'', Static ''__objc_empty_vtable'')]"

definition libsystem_names :: "string list" where
  "libsystem_names =
     [''/usr/lib/libSystem.B.dylib'', ''/usr/lib/libSystem.dylib'', ''libSystem.B.dylib'',
      ''libSystem.dylib'', ''self'']"

definition libobjc_names :: "string list" where
  "libobjc_names = [''/usr/lib/libobjc.A.dylib'', ''libobjc.A.dylib'', ''libobjc.dylib'']"

section \<open>Building the registry\<close>

type_synonym symbols = "(string \<times> u64) list"

fun register_entry ::
    "ptr option \<Rightarrow> u64 \<Rightarrow> (string \<Rightarrow> u64) \<Rightarrow> symbols \<times> pool \<times> mem \<Rightarrow> string \<times> shim_entry
      \<Rightarrow> (symbols \<times> pool \<times> mem) option" where
  "register_entry mm afn addr (s, pool, m) (name, Libc f) =
     map_option (\<lambda>(tramp, pool, m). (alist_insert name tramp s, pool, m)) (gen_trampoline mm afn (addr f) (pool, m))"
| "register_entry mm afn addr (s, pool, m) (name, Shim f) = Some (alist_insert name (addr f) s, pool, m)"
| "register_entry mm afn addr (s, pool, m) (name, Static v) = Some (alist_insert name (addr v) s, pool, m)"

fun register_entries ::
    "ptr option \<Rightarrow> u64 \<Rightarrow> (string \<Rightarrow> u64) \<Rightarrow> shim_table \<Rightarrow> symbols \<times> pool \<times> mem \<Rightarrow> (symbols \<times> pool \<times> mem) option" where
  "register_entries mm afn addr [] st = Some st"
| "register_entries mm afn addr (e # es) st =
     Option.bind (register_entry mm afn addr st e) (register_entries mm afn addr es)"

definition default_registry ::
    "ptr option \<Rightarrow> u64 \<Rightarrow> (string \<Rightarrow> u64) \<Rightarrow> pool \<times> mem \<Rightarrow> ((string \<times> symbols) list \<times> pool \<times> mem) option" where
  "default_registry mm afn addr w =
     Option.bind (register_entries mm afn addr libsystem_table ([], w)) (\<lambda>(s, w).
       map_option (\<lambda>(objc, w).
         (fold (\<lambda>name reg. alist_insert name objc reg) libobjc_names
            (fold (\<lambda>name reg. alist_insert name s reg) libsystem_names []), w))
       (register_entries mm afn addr objc_table ([], w)))"

section \<open>What a name resolves to\<close>

text \<open>The last registration of a name decides.\<close>

definition last_entry :: "shim_table \<Rightarrow> string \<Rightarrow> shim_entry option" where
  "last_entry es name = map_of (rev es) name"

fun is_libc :: "string \<times> shim_entry \<Rightarrow> bool" where
  "is_libc (name, Libc f) = True"
| "is_libc (name, e) = False"

definition libc_count :: "shim_table \<Rightarrow> nat" where
  "libc_count es = length (filter is_libc es)"

fun entry_ok :: "u64 \<Rightarrow> (string \<Rightarrow> u64) \<Rightarrow> ptr \<Rightarrow> nat \<Rightarrow> mem \<Rightarrow> shim_entry option \<Rightarrow> u64 option \<Rightarrow> bool" where
  "entry_ok afn addr base n m None a = (a = None)"
| "entry_ok afn addr base n m (Some (Libc f)) a =
     (\<exists>k < n. a = Some (base + of_nat (TRAMP_SIZE * k)) \<and> code_at (base + of_nat (TRAMP_SIZE * k)) afn (addr f) m)"
| "entry_ok afn addr base n m (Some (Shim f)) a = (a = Some (addr f))"
| "entry_ok afn addr base n m (Some (Static v)) a = (a = Some (addr v))"

text \<open>After the entries \<open>es\<close>, with the pool at \<open>base\<close>.\<close>

definition registered :: "u64 \<Rightarrow> (string \<Rightarrow> u64) \<Rightarrow> ptr \<Rightarrow> shim_table \<Rightarrow> symbols \<times> pool \<times> mem \<Rightarrow> bool" where
  "registered afn addr base es st =
     (case st of (s, pool, m) \<Rightarrow>
        (pool = Some (base, TRAMP_SIZE * libc_count es) \<or> pool = None \<and> libc_count es = 0)
        \<and> (\<forall>name. entry_ok afn addr base (libc_count es) m (last_entry es name) (map_of s name)))"

lemma last_entry_snoc: "last_entry (es @ [(n, e)]) name = (if name = n then Some e else last_entry es name)"
  by (simp add: last_entry_def)

lemma libc_count_simps [simp]:
  "libc_count [] = 0" "libc_count (es @ [(n, Libc f)]) = Suc (libc_count es)"
  "libc_count (es @ [(n, Shim f)]) = libc_count es" "libc_count (es @ [(n, Static f)]) = libc_count es"
  by (simp_all add: libc_count_def)

lemma entry_ok_more:
  assumes "entry_ok afn addr base n m e a" and "n \<le> n'"
    and "\<And>k f. k < n \<Longrightarrow> code_at (base + of_nat (TRAMP_SIZE * k)) afn (addr f) m
      \<Longrightarrow> code_at (base + of_nat (TRAMP_SIZE * k)) afn (addr f) m'"
  shows "entry_ok afn addr base n' m' e a"
  using assms by (cases "(afn, addr, base, n, m, e, a)" rule: entry_ok.cases) (auto intro: less_le_trans)

lemma register_entries_snoc:
  "register_entries mm afn addr (es @ [e]) st
    = Option.bind (register_entries mm afn addr es st) (\<lambda>st. register_entry mm afn addr st e)"
proof (induction es arbitrary: st)
  case Nil
  have "register_entries mm afn addr [] = Some" by (rule ext) simp
  then show ?case by simp
next
  case (Cons x es)
  then show ?case by (cases "register_entry mm afn addr st x") simp_all
qed

lemma code_stored: "code_at T afn target (store_bytes m T (shim_code afn target))"
  by (simp add: code_at_def load_store_same)

text \<open>A new trampoline leaves those before it alone.\<close>

lemma code_kept:
  assumes "code_at (base + of_nat (TRAMP_SIZE * k)) afn target m" and "k < n" and "TRAMP_SIZE * n < POOL_SIZE"
  shows "code_at (base + of_nat (TRAMP_SIZE * k)) afn target
    (store_bytes m (base + of_nat (TRAMP_SIZE * n)) (shim_code afn target'))"
proof -
  have "TRAMP_SIZE * Suc k \<le> TRAMP_SIZE * n" using assms(2) by (intro mult_le_mono2) simp
  then have "TRAMP_SIZE * k + 43 \<le> TRAMP_SIZE * n" by (simp add: TRAMP_SIZE_def)
  then have "apart (base + of_nat (TRAMP_SIZE * k)) 43 (base + of_nat (TRAMP_SIZE * n)) 43"
    using assms(3) by (intro apart_fields) (simp_all add: POOL_SIZE_def)
  then show ?thesis using assms(1) by (simp add: code_at_def load_store_apart)
qed

lemma register_entry_ok:
  assumes "registered afn addr base es st" and "TRAMP_SIZE * libc_count (es @ [e]) \<le> POOL_SIZE"
  shows "\<exists>st'. register_entry (Some base) afn addr st e = Some st' \<and> registered afn addr base (es @ [e]) st'"
proof -
  obtain s pool m where st: "st = (s, pool, m)" by (cases st)
  obtain name ent where e: "e = (name, ent)" by (cases e)
  let ?n = "libc_count es"
  have ok: "entry_ok afn addr base ?n m (last_entry es x) (map_of s x)" for x
    using assms(1) by (simp add: registered_def st)
  have pool: "pool = Some (base, TRAMP_SIZE * ?n) \<or> pool = None \<and> ?n = 0"
    using assms(1) by (simp add: registered_def st)
  show ?thesis
  proof (cases ent)
    case (Libc f)
    let ?T = "base + of_nat (TRAMP_SIZE * ?n)" and ?m = "store_bytes m (base + of_nat (TRAMP_SIZE * ?n)) (shim_code afn (addr f))"
    have room: "TRAMP_SIZE * ?n + TRAMP_SIZE \<le> POOL_SIZE" "TRAMP_SIZE * ?n < POOL_SIZE"
      using assms(2) by (simp_all add: e Libc TRAMP_SIZE_def)
    have "gen_trampoline (Some base) afn (addr f) (pool, m) = Some (?T, Some (base, TRAMP_SIZE * ?n + TRAMP_SIZE), ?m)"
      using pool room(1) by (auto simp: gen_trampoline_def Let_def)
    then have run: "register_entry (Some base) afn addr st e
        = Some (alist_insert name ?T s, Some (base, TRAMP_SIZE * ?n + TRAMP_SIZE), ?m)"
      by (simp add: st e Libc)
    have "entry_ok afn addr base (Suc ?n) ?m (last_entry es x) (map_of s x)" for x
      by (rule entry_ok_more [OF ok]) (use code_kept [OF _ _ room(2)] in auto)
    then have "registered afn addr base (es @ [e]) (alist_insert name ?T s, Some (base, TRAMP_SIZE * ?n + TRAMP_SIZE), ?m)"
      using code_stored [of ?T afn "addr f" m] by (auto simp: registered_def e Libc last_entry_snoc)
    with run show ?thesis by blast
  next
    case (Shim f)
    with ok pool show ?thesis by (simp add: registered_def st e last_entry_snoc)
  next
    case (Static f)
    with ok pool show ?thesis by (simp add: registered_def st e last_entry_snoc)
  qed
qed

lemma register_entries_ok:
  "TRAMP_SIZE * libc_count es \<le> POOL_SIZE \<Longrightarrow>
    \<exists>st. register_entries (Some base) afn addr es ([], None, m) = Some st \<and> registered afn addr base es st"
proof (induction es rule: rev_induct)
  case Nil
  then show ?case by (simp add: registered_def last_entry_def)
next
  case (snoc e es)
  have "libc_count es \<le> libc_count (es @ [e])" by (simp add: libc_count_def)
  then have "TRAMP_SIZE * libc_count es \<le> POOL_SIZE" using snoc.prems by (meson le_trans mult_le_mono2)
  with snoc.IH obtain st where st: "register_entries (Some base) afn addr es ([], None, m) = Some st"
    "registered afn addr base es st" by blast
  with register_entry_ok [OF st(2) snoc.prems] show ?case by (simp add: register_entries_snoc)
qed

text \<open>Tables without \<open>reg_libc!\<close> entries make no trampoline.\<close>

lemma register_plain:
  "libc_count es = 0 \<Longrightarrow> \<exists>s'. register_entries mm afn addr es (s, w) = Some (s', w)"
proof (induction es arbitrary: s)
  case (Cons e es)
  obtain name ent pool m where e: "e = (name, ent)" "w = (pool, m)" by (cases e, cases w)
  from Cons show ?case by (cases ent) (simp_all add: e libc_count_def)
qed simp

lemma libc_count_list [simp]:
  "libc_count ((n, Libc f) # es) = Suc (libc_count es)" "libc_count ((n, Shim f) # es) = libc_count es"
  "libc_count ((n, Static f) # es) = libc_count es" "libc_count (es @ fs) = libc_count es + libc_count fs"
  by (simp_all add: libc_count_def)

lemma section_counts:
  "libc_count posix_io_entries = 0"
  "libc_count process_entries = 1"
  "libc_count memory_entries = 4"
  "libc_count string_entries = 21"
  "libc_count stdio_entries = 25"
  "libc_count time_locale_entries = 11"
  "libc_count math_entries = 46"
  "libc_count float_entries = 21"
  "libc_count fortified_entries = 5"
  "libc_count lock_entries = 0"
  "libc_count misc_entries = 4"
  "libc_count string_extra_entries = 18"
  "libc_count variant_entries = 5"
  "libc_count pthread_entries = 0"
  "libc_count crt_entries = 1"
  "libc_count nsget_entries = 0"
  "libc_count unwind_entries = 0"
  "libc_count mach_entries = 26"
  "libc_count multiplex_entries = 4"
  "libc_count stat_entries = 0"
  "libc_count file_entries = 8"
  "libc_count network_entries = 18"
  "libc_count directory_entries = 5"
  "libc_count clock_entries = 2"
  "libc_count user_entries = 14"
  "libc_count pthread_extra_entries = 13"
  "libc_count spawn_entries = 9"
  "libc_count dispatch_entries = 0"
  "libc_count tls_entries = 0"
  "libc_count more_entries = 26"
  "libc_count go_entries = 17"
  "libc_count new_delete_entries = 4"
  by (simp_all add: section_defs)

lemma libsystem_count: "libc_count libsystem_table = 308"
  by (simp add: libsystem_table_def section_counts)

lemma objc_count: "libc_count objc_table = 0"
  by (simp add: objc_table_def)

lemma fold_insert_lookup:
  "map_of (fold (\<lambda>name reg. alist_insert name v reg) names reg) x = (if x \<in> set names then Some v else map_of reg x)"
  by (induction names arbitrary: reg) auto

text \<open>The registry is built whatever the pool's address, and resolves every name by its last entry.\<close>

lemma registry_resolves:
  obtains s objc pool m' where
    "default_registry (Some base) afn addr (None, m) =
      Some (fold (\<lambda>name reg. alist_insert name objc reg) libobjc_names
        (fold (\<lambda>name reg. alist_insert name s reg) libsystem_names []), pool, m')"
    and "\<forall>name. entry_ok afn addr base 308 m' (last_entry libsystem_table name) (map_of s name)"
proof -
  obtain s pool m' where run: "register_entries (Some base) afn addr libsystem_table ([], None, m) = Some (s, pool, m')"
    and ok: "registered afn addr base libsystem_table (s, pool, m')"
    using register_entries_ok [of libsystem_table base afn addr m]
    by (auto simp: libsystem_count pool_consts)
  obtain objc where "register_entries (Some base) afn addr objc_table ([], pool, m') = Some (objc, pool, m')"
    using register_plain [OF objc_count] by blast
  with run ok show ?thesis
    by (intro that [of objc s pool m']) (simp_all add: default_registry_def registered_def libsystem_count)
qed

lemma trampoline_slot:
  assumes "k < 308"
  shows "TRAMP_SIZE * k + 43 \<le> POOL_SIZE" "i < 43 \<Longrightarrow> TRAMP_SIZE * k + i < POOL_SIZE"
  using assms by (simp_all add: pool_consts)


text \<open>A thread whose selector is at 0x4000, and \<open>grafted_selector_allow\<close> run in it.\<close>

definition demo_allow :: callee where
  "demo_allow s =
     (case s of (g, m) \<Rightarrow>
        (g(RIP := load64 m (g RSP), RSP := g RSP + 8, RAX := 0, RDI := 1),
         emem (the (grafted_selector_allow None 0 0 ((exec_init m)\<lparr>thread_selector := (\<lambda>_. 0x4000)\<rparr>)))))"

lemma demo_allow_opens: "opens_selector 0x4000 8 demo_allow"
  by (simp add: opens_selector_def demo_allow_def grafted_selector_allow_def selector_ptr_def exec_init_def)

lemma last_entry_append:
  "last_entry (xs @ ys) name = (case last_entry ys name of None \<Rightarrow> last_entry xs name | Some e \<Rightarrow> Some e)"
  by (simp add: last_entry_def map_add_def split: option.splits)

lemma last_entry_new: "last_entry libsystem_table ''__Znwm'' = Some (Libc ''malloc'')"
  by (simp add: libsystem_table_def last_entry_append) (simp add: last_entry_def new_delete_entries_def)


end
