(* ===== verification/ShimCalls.thy ===== *)
theory ShimCalls
  imports ShimCode "HOL-Library.Signed_Division"
begin

text \<open>
  \<open>crates/grafted-dyld/src/shims.rs\<close>, the wrappers written in Rust: system calls, memory
  mapping, threads and timers. Each opens the thread's selector around what it asks of the host
  and closes it again. The host is a parameter: \<open>sys\<close> is the \<open>syscall\<close> instruction, \<open>call\<close> a
  function of the host's libc, both on the memory and a state of their own. A pointer to a
  local variable of a wrapper is \<open>scratch\<close>, the address of a string constant \<open>literal\<close>.
\<close>

record 'k libc =
  sys :: "u64 \<Rightarrow> u64 list \<Rightarrow> mem \<times> 'k \<Rightarrow> i64 \<times> mem \<times> 'k"
  call :: "string \<Rightarrow> u64 list \<Rightarrow> mem \<times> 'k \<Rightarrow> u64 \<times> mem \<times> 'k"

text \<open>
  \<open>selector\<close>: what \<open>selector_ptr\<close> returns in this thread; \<open>errno_loc\<close>: the host's \<open>errno\<close>;
  \<open>ERRNO_VALUE\<close>: the word \<open>shim_errno_location\<close> hands to the program.
\<close>

record shim_env =
  selector :: ptr
  errno_loc :: ptr
  ERRNO_VALUE :: ptr
  scratch :: ptr
  literal :: "string \<Rightarrow> ptr"

section \<open>The selector\<close>

definition selector_allow :: "shim_env \<Rightarrow> mem \<Rightarrow> mem" where
  "selector_allow e m = (if selector e \<noteq> 0 then m(selector e := SYSCALL_DISPATCH_FILTER_ALLOW) else m)"

definition selector_block :: "shim_env \<Rightarrow> mem \<Rightarrow> mem" where
  "selector_block e m = (if selector e \<noteq> 0 then m(selector e := SYSCALL_DISPATCH_FILTER_BLOCK) else m)"

text \<open>\<open>selector_allow()\<close>, the body, \<open>selector_block()\<close>.\<close>

definition gated :: "shim_env \<Rightarrow> (mem \<times> 'k \<Rightarrow> 'r \<times> mem \<times> 'k) \<Rightarrow> mem \<times> 'k \<Rightarrow> 'r \<times> mem \<times> 'k" where
  "gated e f w =
     (case f (selector_allow e (fst w), snd w) of (r, m, k) \<Rightarrow> (r, selector_block e m, k))"

definition store32 :: "mem \<Rightarrow> u64 \<Rightarrow> u32 \<Rightarrow> mem" where
  "store32 m a v = store_bytes m a (le_bytes32 v)"

section \<open>System calls\<close>

definition linux_syscall_gated :: "'k libc \<Rightarrow> shim_env \<Rightarrow> u64 \<Rightarrow> u64 list \<Rightarrow> mem \<times> 'k \<Rightarrow> i64 \<times> mem \<times> 'k" where
  "linux_syscall_gated H e nr args = gated e (sys H nr args)"

definition syscall_ret :: "shim_env \<Rightarrow> i64 \<times> mem \<times> 'k \<Rightarrow> i64 \<times> mem \<times> 'k" where
  "syscall_ret e res =
     (case res of (raw, m, k) \<Rightarrow>
        if sint raw < 0 then (- 1, store32 m (errno_loc e) (ucast (- raw)), k) else (raw, m, k))"

definition shim_write :: "'k libc \<Rightarrow> shim_env \<Rightarrow> i32 \<Rightarrow> ptr \<Rightarrow> u64 \<Rightarrow> mem \<times> 'k \<Rightarrow> i64 \<times> mem \<times> 'k" where
  "shim_write H e fd buf count w = syscall_ret e (linux_syscall_gated H e 1 [scast fd, buf, count] w)"

definition shim_read :: "'k libc \<Rightarrow> shim_env \<Rightarrow> i32 \<Rightarrow> ptr \<Rightarrow> u64 \<Rightarrow> mem \<times> 'k \<Rightarrow> i64 \<times> mem \<times> 'k" where
  "shim_read H e fd buf count w = syscall_ret e (linux_syscall_gated H e 0 [scast fd, buf, count] w)"

definition translate_open_flags :: "i32 \<Rightarrow> i32" where
  "translate_open_flags darwin =
     (let l = darwin AND 0x3;
          l = (if darwin AND 0x0008 \<noteq> 0 then l OR 0x0400 else l);
          l = (if darwin AND 0x0004 \<noteq> 0 then l OR 0x0800 else l);
          l = (if darwin AND 0x0200 \<noteq> 0 then l OR 0x0040 else l);
          l = (if darwin AND 0x0400 \<noteq> 0 then l OR 0x0200 else l);
          l = (if darwin AND 0x0800 \<noteq> 0 then l OR 0x0080 else l);
          l = (if darwin AND 0x0010 \<noteq> 0 then l OR 0x0100 else l);
          l = (if darwin AND 0x10000 \<noteq> 0 then l OR 0x10000 else l);
          l = (if darwin AND 0x100000 \<noteq> 0 then l OR 0x200000 else l)
      in l)"

definition shim_open :: "'k libc \<Rightarrow> shim_env \<Rightarrow> ptr \<Rightarrow> i32 \<Rightarrow> i32 \<Rightarrow> mem \<times> 'k \<Rightarrow> i64 \<times> mem \<times> 'k" where
  "shim_open H e path flags mode w =
     syscall_ret e (linux_syscall_gated H e 2 [path, scast (translate_open_flags flags), scast mode] w)"

definition shim_openat :: "'k libc \<Rightarrow> shim_env \<Rightarrow> i32 \<Rightarrow> ptr \<Rightarrow> i32 \<Rightarrow> i32 \<Rightarrow> mem \<times> 'k \<Rightarrow> i64 \<times> mem \<times> 'k" where
  "shim_openat H e dirfd path flags mode w =
     gated e (\<lambda>w. case call H ''openat'' [scast dirfd, path, scast (translate_open_flags flags), ucast mode] w of
       (r, w) \<Rightarrow> (scast (ucast r :: i32), w)) w"

definition shim_close :: "'k libc \<Rightarrow> shim_env \<Rightarrow> i32 \<Rightarrow> mem \<times> 'k \<Rightarrow> i64 \<times> mem \<times> 'k" where
  "shim_close H e fd w = syscall_ret e (linux_syscall_gated H e 3 [scast fd] w)"

definition shim_lseek :: "'k libc \<Rightarrow> shim_env \<Rightarrow> i32 \<Rightarrow> i64 \<Rightarrow> i32 \<Rightarrow> mem \<times> 'k \<Rightarrow> i64 \<times> mem \<times> 'k" where
  "shim_lseek H e fd off whence w = syscall_ret e (linux_syscall_gated H e 8 [scast fd, off, scast whence] w)"

definition shim_dup :: "'k libc \<Rightarrow> shim_env \<Rightarrow> i32 \<Rightarrow> mem \<times> 'k \<Rightarrow> i64 \<times> mem \<times> 'k" where
  "shim_dup H e fd w = syscall_ret e (linux_syscall_gated H e 32 [scast fd] w)"

definition shim_dup2 :: "'k libc \<Rightarrow> shim_env \<Rightarrow> i32 \<Rightarrow> i32 \<Rightarrow> mem \<times> 'k \<Rightarrow> i64 \<times> mem \<times> 'k" where
  "shim_dup2 H e fd fd2 w = syscall_ret e (linux_syscall_gated H e 33 [scast fd, scast fd2] w)"

definition shim_fcntl :: "'k libc \<Rightarrow> shim_env \<Rightarrow> i32 \<Rightarrow> i32 \<Rightarrow> u64 \<Rightarrow> mem \<times> 'k \<Rightarrow> i64 \<times> mem \<times> 'k" where
  "shim_fcntl H e fd cmd arg w = syscall_ret e (linux_syscall_gated H e 72 [scast fd, scast cmd, arg] w)"

definition shim_isatty :: "'k libc \<Rightarrow> shim_env \<Rightarrow> i32 \<Rightarrow> mem \<times> 'k \<Rightarrow> i32 \<times> mem \<times> 'k" where
  "shim_isatty H e fd w =
     (case linux_syscall_gated H e 16 [scast fd, 0x5401, scratch e] w of (ret, w) \<Rightarrow> (if ret = 0 then 1 else 0, w))"

definition shim_getpid :: "'k libc \<Rightarrow> shim_env \<Rightarrow> mem \<times> 'k \<Rightarrow> i32 \<times> mem \<times> 'k" where
  "shim_getpid H e w = (case linux_syscall_gated H e 39 [0] w of (r, w) \<Rightarrow> (ucast r, w))"

definition shim_getuid :: "'k libc \<Rightarrow> shim_env \<Rightarrow> mem \<times> 'k \<Rightarrow> i32 \<times> mem \<times> 'k" where
  "shim_getuid H e w = (case linux_syscall_gated H e 102 [0] w of (r, w) \<Rightarrow> (ucast r, w))"

definition shim_geteuid :: "'k libc \<Rightarrow> shim_env \<Rightarrow> mem \<times> 'k \<Rightarrow> i32 \<times> mem \<times> 'k" where
  "shim_geteuid H e w = (case linux_syscall_gated H e 107 [0] w of (r, w) \<Rightarrow> (ucast r, w))"

definition shim_getgid :: "'k libc \<Rightarrow> shim_env \<Rightarrow> mem \<times> 'k \<Rightarrow> i32 \<times> mem \<times> 'k" where
  "shim_getgid H e w = (case linux_syscall_gated H e 104 [0] w of (r, w) \<Rightarrow> (ucast r, w))"

definition shim_getegid :: "'k libc \<Rightarrow> shim_env \<Rightarrow> mem \<times> 'k \<Rightarrow> i32 \<times> mem \<times> 'k" where
  "shim_getegid H e w = (case linux_syscall_gated H e 108 [0] w of (r, w) \<Rightarrow> (ucast r, w))"

definition shim_errno_location :: "shim_env \<Rightarrow> ptr" where
  "shim_errno_location e = ERRNO_VALUE e"

definition call32 :: "'k libc \<Rightarrow> string \<Rightarrow> u64 list \<Rightarrow> mem \<times> 'k \<Rightarrow> i32 \<times> mem \<times> 'k" where
  "call32 H f args w = (case call H f args w of (r, w) \<Rightarrow> (ucast r, w))"

section \<open>Memory mapping\<close>

definition translate_mmap_flags :: "i32 \<Rightarrow> i32" where
  "translate_mmap_flags darwin =
     (let l = darwin AND 0x1F;
          l = (if darwin AND 0x1000 \<noteq> 0 then l OR 0x20 else l);
          l = (if darwin AND 0x0040 \<noteq> 0 then l OR 0x4000 else l)
      in l)"

definition MAP_FAILED :: u64 where "MAP_FAILED = - 1"

definition shim_mmap ::
    "'k libc \<Rightarrow> shim_env \<Rightarrow> u64 \<Rightarrow> u64 \<Rightarrow> i32 \<Rightarrow> i32 \<Rightarrow> i32 \<Rightarrow> i64 \<Rightarrow> mem \<times> 'k \<Rightarrow> u64 \<times> mem \<times> 'k" where
  "shim_mmap H e addr len prot flags fd offset w =
     (let linux_flags = translate_mmap_flags flags in
      if prot = 0 \<and> linux_flags AND 0x30 = 0x30 then
        (case gated e (call H ''write'' [2, literal e ''GUARD_FAKE'', 11]) w of
           (_, w) \<Rightarrow> (if addr \<noteq> 0 then addr else 0x7FFFDEAD0000, w))
      else
        let w = (if prot = 0 then snd (gated e (call H ''write'' [2, literal e ''MMAP_P0_OTHER'', 14]) w) else w);
            actual_addr = (if linux_flags AND 0x10 \<noteq> 0 \<and> addr AND 0xFFF \<noteq> 0 then addr AND NOT 0xFFF else addr);
            actual_len = (if actual_addr \<noteq> addr then len + (addr - actual_addr) else len);
            return_original = (linux_flags AND 0x10 \<noteq> 0 \<and> addr \<noteq> actual_addr)
        in (case gated e (call H ''mmap'' [actual_addr, actual_len, scast prot, scast linux_flags, scast fd, offset]) w of
              (ret, w) \<Rightarrow> (if ret = MAP_FAILED then ret else if return_original then addr else ret, w)))"

definition shim_munmap :: "'k libc \<Rightarrow> shim_env \<Rightarrow> u64 \<Rightarrow> u64 \<Rightarrow> mem \<times> 'k \<Rightarrow> i32 \<times> mem \<times> 'k" where
  "shim_munmap H e addr len w = gated e (call32 H ''munmap'' [addr, len]) w"

definition shim_mprotect :: "'k libc \<Rightarrow> shim_env \<Rightarrow> u64 \<Rightarrow> u64 \<Rightarrow> i32 \<Rightarrow> mem \<times> 'k \<Rightarrow> i32 \<times> mem \<times> 'k" where
  "shim_mprotect H e addr len prot w =
     (if prot = 0 then (0, w) else gated e (call32 H ''mprotect'' [addr, len, scast prot]) w)"

definition shim_mach_vm_protect ::
    "'k libc \<Rightarrow> shim_env \<Rightarrow> u64 \<Rightarrow> u64 \<Rightarrow> i32 \<Rightarrow> mem \<times> 'k \<Rightarrow> i32 \<times> mem \<times> 'k" where
  "shim_mach_vm_protect H e addr sz prot w =
     (let aligned_addr = addr AND NOT 0xFFF;
          aligned_size = ((addr + sz + 0xFFF) AND NOT 0xFFF) - aligned_addr
      in (case gated e (call32 H ''mprotect'' [aligned_addr, aligned_size, scast prot]) w of
            (ret, w) \<Rightarrow> (if ret = 0 then 0 else 1, w)))"

definition shim_vm_protect ::
    "'k libc \<Rightarrow> shim_env \<Rightarrow> u64 \<Rightarrow> u32 \<Rightarrow> i32 \<Rightarrow> mem \<times> 'k \<Rightarrow> i32 \<times> mem \<times> 'k" where
  "shim_vm_protect H e addr sz prot w = shim_mach_vm_protect H e addr (ucast sz) prot w"

section \<open>Threads, timers and waiting\<close>

definition shim_pthread_key_create :: "'k libc \<Rightarrow> shim_env \<Rightarrow> ptr \<Rightarrow> ptr \<Rightarrow> mem \<times> 'k \<Rightarrow> i32 \<times> mem \<times> 'k" where
  "shim_pthread_key_create H e key_out dtor w =
     gated e (call32 H ''pthread_key_create'' [key_out, dtor]) (store64 (fst w) key_out 0, snd w)"

definition shim_pthread_setspecific :: "'k libc \<Rightarrow> shim_env \<Rightarrow> u64 \<Rightarrow> ptr \<Rightarrow> mem \<times> 'k \<Rightarrow> i32 \<times> mem \<times> 'k" where
  "shim_pthread_setspecific H e key val w =
     gated e (call32 H ''pthread_setspecific'' [ucast (ucast key :: u32), val]) w"

definition shim_pthread_getspecific :: "'k libc \<Rightarrow> shim_env \<Rightarrow> u64 \<Rightarrow> mem \<times> 'k \<Rightarrow> ptr \<times> mem \<times> 'k" where
  "shim_pthread_getspecific H e key w = gated e (call H ''pthread_getspecific'' [ucast (ucast key :: u32)]) w"

definition shim_pthread_join :: "'k libc \<Rightarrow> shim_env \<Rightarrow> u64 \<Rightarrow> ptr \<Rightarrow> mem \<times> 'k \<Rightarrow> i32 \<times> mem \<times> 'k" where
  "shim_pthread_join H e thread retval w = gated e (call32 H ''pthread_join'' [thread, retval]) w"

definition DARWIN_PTHREAD_ONCE_INIT :: u32 where "DARWIN_PTHREAD_ONCE_INIT = 0x30B1BCBA"

definition shim_pthread_once :: "'k libc \<Rightarrow> shim_env \<Rightarrow> ptr \<Rightarrow> ptr \<Rightarrow> mem \<times> 'k \<Rightarrow> i32 \<times> mem \<times> 'k" where
  "shim_pthread_once H e once init w =
     (let m = (if load32 (fst w) once = DARWIN_PTHREAD_ONCE_INIT then store32 (fst w) once 0 else fst w)
      in gated e (call32 H ''pthread_once'' [once, init]) (m, snd w))"

definition shim_puts :: "'k libc \<Rightarrow> shim_env \<Rightarrow> ptr \<Rightarrow> mem \<times> 'k \<Rightarrow> i32 \<times> mem \<times> 'k" where
  "shim_puts H e s w = gated e (call32 H ''puts'' [s]) w"

definition shim_kqueue :: "'k libc \<Rightarrow> shim_env \<Rightarrow> mem \<times> 'k \<Rightarrow> i32 \<times> mem \<times> 'k" where
  "shim_kqueue H e w = gated e (call32 H ''epoll_create1'' [0]) w"

definition shim_kevent :: "'k libc \<Rightarrow> shim_env \<Rightarrow> i32 \<Rightarrow> i32 \<Rightarrow> ptr \<Rightarrow> mem \<times> 'k \<Rightarrow> i32 \<times> mem \<times> 'k" where
  "shim_kevent H e kq nevents timeout w =
     (if sint nevents > 0 then
        (let m = fst w;
             timeout_ms = (if timeout = 0 then - 1
               else ucast (load64 m timeout * 1000 + word_of_int (sint (load64 m (timeout + 8)) sdiv 1000000)) :: i32)
         in gated e (call32 H ''epoll_wait'' [scast kq, scratch e, 1, scast timeout_ms]) w)
      else (0, w))"

text \<open>\<open>scratch\<close> holds \<open>abstime\<close>, seconds and nanoseconds.\<close>

definition shim_pthread_cond_timedwait_relative_np ::
    "'k libc \<Rightarrow> shim_env \<Rightarrow> ptr \<Rightarrow> ptr \<Rightarrow> ptr \<Rightarrow> mem \<times> 'k \<Rightarrow> i32 \<times> mem \<times> 'k" where
  "shim_pthread_cond_timedwait_relative_np H e cond mutex reltime w =
     (if reltime = 0 then gated e (call32 H ''pthread_cond_wait'' [cond, mutex]) w
      else gated e (\<lambda>w.
        (case call32 H ''clock_gettime'' [0, scratch e] (store64 (store64 (fst w) (scratch e) 0) (scratch e + 8) 0, snd w) of
           (_, m, k) \<Rightarrow>
             let sec = load64 m (scratch e) + load64 m reltime;
                 nsec = load64 m (scratch e + 8) + load64 m (reltime + 8);
                 (sec, nsec) = (if sint nsec \<ge> 1000000000 then (sec + 1, nsec - 1000000000) else (sec, nsec))
             in call32 H ''pthread_cond_timedwait'' [cond, mutex, scratch e]
                  (store64 (store64 m (scratch e) sec) (scratch e + 8) nsec, k))) w)"

definition shim_mach_absolute_time :: "'k libc \<Rightarrow> shim_env \<Rightarrow> mem \<times> 'k \<Rightarrow> u64 \<times> mem \<times> 'k" where
  "shim_mach_absolute_time H e w =
     (case gated e (call32 H ''clock_gettime'' [1, scratch e])
         (store64 (store64 (fst w) (scratch e) 0) (scratch e + 8) 0, snd w) of
        (_, m, k) \<Rightarrow> (load64 m (scratch e) * 1000000000 + load64 m (scratch e + 8), m, k))"

definition shim_dispatch_semaphore_signal :: "'k libc \<Rightarrow> shim_env \<Rightarrow> ptr \<Rightarrow> mem \<times> 'k \<Rightarrow> i64 \<times> mem \<times> 'k" where
  "shim_dispatch_semaphore_signal H e sem w =
     (if sem = 0 then (0, w) else (case gated e (call32 H ''sem_post'' [sem]) w of (r, w) \<Rightarrow> (scast r, w)))"

definition shim_dispatch_semaphore_wait :: "'k libc \<Rightarrow> shim_env \<Rightarrow> ptr \<Rightarrow> mem \<times> 'k \<Rightarrow> i64 \<times> mem \<times> 'k" where
  "shim_dispatch_semaphore_wait H e sem w =
     (if sem = 0 then (- 1, w) else (case gated e (call32 H ''sem_wait'' [sem]) w of (r, w) \<Rightarrow> (scast r, w)))"

definition shim_dispatch_time :: "u64 \<Rightarrow> i64 \<Rightarrow> u64" where
  "shim_dispatch_time at_time delta = at_time + delta"

text \<open>Fatal checks, which end the process: the message and the exit status go out ungated.\<close>

definition fatal_message :: "'k libc \<Rightarrow> shim_env \<Rightarrow> string \<Rightarrow> u64 \<Rightarrow> mem \<times> 'k \<Rightarrow> mem \<times> 'k" where
  "fatal_message H e msg len w =
     snd (call H ''_exit'' [134] (snd (call H ''write'' [2, literal e msg, len] w)))"

definition shim_stack_chk_fail :: "'k libc \<Rightarrow> shim_env \<Rightarrow> mem \<times> 'k \<Rightarrow> mem \<times> 'k" where
  "shim_stack_chk_fail H e w = fatal_message H e ''*** stack smashing detected ***'' 32 w"

definition shim_assert_rtn :: "'k libc \<Rightarrow> shim_env \<Rightarrow> mem \<times> 'k \<Rightarrow> mem \<times> 'k" where
  "shim_assert_rtn H e w = fatal_message H e ''Assertion failed'' 17 w"

definition shim_abort :: "'k libc \<Rightarrow> shim_env \<Rightarrow> mem \<times> 'k \<Rightarrow> mem \<times> 'k" where
  "shim_abort H e w = snd (call H ''_exit'' [134] (selector_allow e (fst w), snd w))"

definition shim_exit :: "'k libc \<Rightarrow> shim_env \<Rightarrow> i32 \<Rightarrow> mem \<times> 'k \<Rightarrow> mem \<times> 'k" where
  "shim_exit H e code w =
     snd (linux_syscall_gated H e 60 [scast code] (snd (gated e (call H ''fflush'' [0]) w)))"

section \<open>The host is only called with the selector open\<close>

text \<open>The wrappers that come back, by name and arguments.\<close>

datatype shim_call =
    Write i32 ptr u64 | Read i32 ptr u64 | Open ptr i32 i32 | Close i32 | Lseek i32 i64 i32 | Dup i32 | Dup2 i32 i32
  | Fcntl i32 i32 u64 | Openat i32 ptr i32 i32 | Isatty i32 | Getpid | Getuid | Geteuid | Getgid | Getegid
  | Mmap u64 u64 i32 i32 i32 i64 | Munmap u64 u64 | Mprotect u64 u64 i32 | MachVmProtect u64 u64 i32 | VmProtect u64 u32 i32
  | KeyCreate ptr ptr | SetSpecific u64 ptr | GetSpecific u64 | Join u64 ptr | Once ptr ptr | Puts ptr | Kqueue
  | Kevent i32 i32 ptr | CondTimedWait ptr ptr ptr | AbsoluteTime | SemSignal ptr | SemWait ptr

definition widen :: "i32 \<times> mem \<times> 'k \<Rightarrow> i64 \<times> mem \<times> 'k" where
  "widen res = (case res of (r, w) \<Rightarrow> (scast r, w))"

fun shim_exec :: "'k libc \<Rightarrow> shim_env \<Rightarrow> shim_call \<Rightarrow> mem \<times> 'k \<Rightarrow> i64 \<times> mem \<times> 'k" where
  "shim_exec H e (Write fd buf n) w = shim_write H e fd buf n w"
| "shim_exec H e (Read fd buf n) w = shim_read H e fd buf n w"
| "shim_exec H e (Open path flags mode) w = shim_open H e path flags mode w"
| "shim_exec H e (Close fd) w = shim_close H e fd w"
| "shim_exec H e (Lseek fd off whence) w = shim_lseek H e fd off whence w"
| "shim_exec H e (Dup fd) w = shim_dup H e fd w"
| "shim_exec H e (Dup2 fd fd2) w = shim_dup2 H e fd fd2 w"
| "shim_exec H e (Fcntl fd cmd arg) w = shim_fcntl H e fd cmd arg w"
| "shim_exec H e (Openat dirfd path flags mode) w = shim_openat H e dirfd path flags mode w"
| "shim_exec H e (Isatty fd) w = widen (shim_isatty H e fd w)"
| "shim_exec H e Getpid w = widen (shim_getpid H e w)"
| "shim_exec H e Getuid w = widen (shim_getuid H e w)"
| "shim_exec H e Geteuid w = widen (shim_geteuid H e w)"
| "shim_exec H e Getgid w = widen (shim_getgid H e w)"
| "shim_exec H e Getegid w = widen (shim_getegid H e w)"
| "shim_exec H e (Mmap addr len prot flags fd off) w = shim_mmap H e addr len prot flags fd off w"
| "shim_exec H e (Munmap addr len) w = widen (shim_munmap H e addr len w)"
| "shim_exec H e (Mprotect addr len prot) w = widen (shim_mprotect H e addr len prot w)"
| "shim_exec H e (MachVmProtect addr len prot) w = widen (shim_mach_vm_protect H e addr len prot w)"
| "shim_exec H e (VmProtect addr len prot) w = widen (shim_vm_protect H e addr len prot w)"
| "shim_exec H e (KeyCreate key_out dtor) w = widen (shim_pthread_key_create H e key_out dtor w)"
| "shim_exec H e (SetSpecific key val) w = widen (shim_pthread_setspecific H e key val w)"
| "shim_exec H e (GetSpecific key) w = shim_pthread_getspecific H e key w"
| "shim_exec H e (Join thread retval) w = widen (shim_pthread_join H e thread retval w)"
| "shim_exec H e (Once once init) w = widen (shim_pthread_once H e once init w)"
| "shim_exec H e (Puts s) w = widen (shim_puts H e s w)"
| "shim_exec H e Kqueue w = widen (shim_kqueue H e w)"
| "shim_exec H e (Kevent kq n timeout) w = widen (shim_kevent H e kq n timeout w)"
| "shim_exec H e (CondTimedWait cond mutex rel) w = widen (shim_pthread_cond_timedwait_relative_np H e cond mutex rel w)"
| "shim_exec H e AbsoluteTime w = shim_mach_absolute_time H e w"
| "shim_exec H e (SemSignal sem) w = shim_dispatch_semaphore_signal H e sem w"
| "shim_exec H e (SemWait sem) w = shim_dispatch_semaphore_wait H e sem w"

lemmas wrapper_defs = shim_write_def shim_read_def shim_open_def shim_close_def shim_lseek_def shim_dup_def
  shim_dup2_def shim_fcntl_def shim_openat_def shim_isatty_def shim_getpid_def shim_getuid_def shim_geteuid_def
  shim_getgid_def shim_getegid_def shim_munmap_def shim_mprotect_def shim_mach_vm_protect_def shim_vm_protect_def
  shim_pthread_key_create_def shim_pthread_setspecific_def shim_pthread_getspecific_def shim_pthread_join_def
  shim_pthread_once_def shim_puts_def shim_kqueue_def shim_kevent_def shim_mach_absolute_time_def
  shim_dispatch_semaphore_signal_def shim_dispatch_semaphore_wait_def linux_syscall_gated_def widen_def

text \<open>A host that notes the selector byte it finds whenever it is entered, and leaves it alone.\<close>

definition noting :: "('k \<Rightarrow> u8 list) \<Rightarrow> ptr \<Rightarrow> (mem \<times> 'k \<Rightarrow> 'r \<times> mem \<times> 'k) \<Rightarrow> bool" where
  "noting log s f = (\<forall>m k. case f (m, k) of (r, m', k') \<Rightarrow> log k' = log k @ [m s] \<and> m' s = m s)"

definition watches :: "('k \<Rightarrow> u8 list) \<Rightarrow> ptr \<Rightarrow> 'k libc \<Rightarrow> bool" where
  "watches log s H = ((\<forall>nr args. noting log s (sys H nr args)) \<and> (\<forall>f args. noting log s (call H f args)))"

text \<open>What a wrapper does between two states, seen at the selector.\<close>

definition seen_open :: "('k \<Rightarrow> u8 list) \<Rightarrow> ptr \<Rightarrow> mem \<times> 'k \<Rightarrow> mem \<times> 'k \<Rightarrow> bool" where
  "seen_open log s w w' =
     (\<exists>n. log (snd w') = log (snd w) @ replicate n SYSCALL_DISPATCH_FILTER_ALLOW
        \<and> fst w' s = (if n = 0 then fst w s else SYSCALL_DISPATCH_FILTER_BLOCK))"

lemma notingD: "noting log s f \<Longrightarrow> f (m, k) = (r, m', k') \<Longrightarrow> log k' = log k @ [m s] \<and> m' s = m s"
  unfolding noting_def by (drule spec [of _ m], drule spec [of _ k]) simp

lemma gated_seen:
  assumes "noting log (selector e) f" and "selector e \<noteq> 0" and "gated e f w = (r, w')"
  shows "log (snd w') = log (snd w) @ [SYSCALL_DISPATCH_FILTER_ALLOW]" "fst w' (selector e) = SYSCALL_DISPATCH_FILTER_BLOCK"
proof -
  obtain r1 m1 k1 where f: "f (selector_allow e (fst w), snd w) = (r1, m1, k1)"
    by (cases "f (selector_allow e (fst w), snd w)")
  from notingD [OF assms(1) f] assms(2,3) f
  show "log (snd w') = log (snd w) @ [SYSCALL_DISPATCH_FILTER_ALLOW]" "fst w' (selector e) = SYSCALL_DISPATCH_FILTER_BLOCK"
    by (auto simp: gated_def selector_allow_def selector_block_def)
qed

lemma noting_call32: "noting log s (call H f args) \<Longrightarrow> noting log s (call32 H f args)"
  by (simp add: noting_def call32_def split: prod.splits)

lemma watches_noting:
  assumes "watches log s H"
  shows "noting log s (sys H nr args)" "noting log s (call H f args)" "noting log s (call32 H f args)"
  using assms by (auto simp: watches_def intro: noting_call32)

lemma store_elsewhere:
  assumes "apart a (length bs) s 1" "length bs < 2 ^ 64"
  shows "store_bytes m a bs s = m s"
proof -
  have "\<not> unat (s - a) < length bs"
  proof
    assume lt: "unat (s - a) < length bs"
    have "a + of_nat (unat (s - a)) = s + of_nat 0" by simp
    with lt assms(1) show False unfolding apart_def by blast
  qed
  then show ?thesis by (simp add: store_bytes_def)
qed

lemma store_word_elsewhere:
  "apart a 8 s 1 \<Longrightarrow> store64 m a v s = m s" "apart a 4 s 1 \<Longrightarrow> store32 m a u s = m s"
  by (simp_all add: store64_def store32_def store_elsewhere)

text \<open>Where a wrapper itself writes, besides \<open>errno\<close> and its locals.\<close>

fun own_writes :: "shim_env \<Rightarrow> shim_call \<Rightarrow> (ptr \<times> nat) list" where
  "own_writes e (KeyCreate key_out dtor) = [(key_out, 8)]"
| "own_writes e (Once once init) = [(once, 4)]"
| "own_writes e c = []"

definition apart_selector :: "shim_env \<Rightarrow> shim_call \<Rightarrow> bool" where
  "apart_selector e c =
     (selector e \<noteq> 0
      \<and> (\<forall>(p, n) \<in> set ((errno_loc e, 4) # (scratch e, 8) # (scratch e + 8, 8) # own_writes e c). apart p n (selector e) 1))"

lemma seen_openI:
  "log (snd w') = log (snd w) \<Longrightarrow> fst w' s = fst w s \<Longrightarrow> seen_open log s w w'"
  "log (snd w') = log (snd w) @ [SYSCALL_DISPATCH_FILTER_ALLOW] \<Longrightarrow> fst w' s = SYSCALL_DISPATCH_FILTER_BLOCK \<Longrightarrow>
    seen_open log s w w'"
  unfolding seen_open_def by (rule exI [of _ 0], simp, rule exI [of _ 1], simp)

lemma seen_open_trans: "seen_open log s w1 w2 \<Longrightarrow> seen_open log s w2 w3 \<Longrightarrow> seen_open log s w1 w3"
  unfolding seen_open_def
proof (elim exE conjE)
  fix a b
  assume "log (snd w2) = log (snd w1) @ replicate a SYSCALL_DISPATCH_FILTER_ALLOW"
    "log (snd w3) = log (snd w2) @ replicate b SYSCALL_DISPATCH_FILTER_ALLOW"
    "fst w2 s = (if a = 0 then fst w1 s else SYSCALL_DISPATCH_FILTER_BLOCK)"
    "fst w3 s = (if b = 0 then fst w2 s else SYSCALL_DISPATCH_FILTER_BLOCK)"
  then show "\<exists>n. log (snd w3) = log (snd w1) @ replicate n SYSCALL_DISPATCH_FILTER_ALLOW
      \<and> fst w3 s = (if n = 0 then fst w1 s else SYSCALL_DISPATCH_FILTER_BLOCK)"
    by (intro exI [of _ "a + b"]) (auto simp: replicate_add)
qed

lemma seen_gated:
  assumes "noting log (selector e) f" and "selector e \<noteq> 0"
  shows "seen_open log (selector e) w (snd (gated e f w))"
proof -
  obtain r w' where g: "gated e f w = (r, w')" by (cases "gated e f w")
  from gated_seen [OF assms g] g show ?thesis by (simp add: seen_openI)
qed

lemma seen_syscall_ret:
  assumes "apart (errno_loc e) 4 (selector e) 1"
  shows "seen_open log (selector e) (snd res) (snd (syscall_ret e res))"
  by (cases res) (auto simp: syscall_ret_def store_word_elsewhere(2) [OF assms] intro!: seen_openI(1) split: if_splits)

lemma seen_wrapped:
  assumes "watches log (selector e) H" and "apart_selector e c"
  shows "seen_open log (selector e) w (snd (syscall_ret e (gated e (sys H nr args) w)))"
    "seen_open log (selector e) w (snd (gated e (sys H nr args) w))"
    "seen_open log (selector e) w (snd (gated e (call H f args) w))"
    "seen_open log (selector e) w (snd (gated e (call32 H f args) w))"
proof -
  have s: "selector e \<noteq> 0" "apart (errno_loc e) 4 (selector e) 1" using assms(2) by (auto simp: apart_selector_def)
  note n = watches_noting [OF assms(1)]
  show g: "seen_open log (selector e) w (snd (gated e (sys H nr args) w))"
    "seen_open log (selector e) w (snd (gated e (call H f args) w))"
    "seen_open log (selector e) w (snd (gated e (call32 H f args) w))"
    by (rule seen_gated [OF _ s(1)], rule n)+
  show "seen_open log (selector e) w (snd (syscall_ret e (gated e (sys H nr args) w)))"
    using seen_open_trans [OF g(1) seen_syscall_ret [OF s(2)]] .
qed

text \<open>Results are only read, and what is stored before a host call lies elsewhere.\<close>

lemma snd_case: "snd (case x of (r, w) \<Rightarrow> (g r w, w)) = snd x"
  by (cases x) simp

lemma seen_after_store:
  assumes "seen_open log s (m', k) w'" and "m' s = m s"
  shows "seen_open log s (m, k) w'"
  using assms unfolding seen_open_def by (simp only: fst_conv snd_conv)

lemma noting_map:
  "noting log s f \<Longrightarrow> noting log s (\<lambda>w. case f w of (r, w) \<Rightarrow> (g r, w))"
  by (simp add: noting_def split: prod.splits)

lemma seen_gated_many:
  assumes "selector e \<noteq> 0"
    and "\<And>m k r m' k'. m (selector e) = SYSCALL_DISPATCH_FILTER_ALLOW \<Longrightarrow> f (m, k) = (r, m', k') \<Longrightarrow>
      log k' = log k @ replicate (Suc n) SYSCALL_DISPATCH_FILTER_ALLOW"
  shows "seen_open log (selector e) w (snd (gated e f w))"
proof -
  obtain r m k where f: "f (selector_allow e (fst w), snd w) = (r, m, k)"
    by (cases "f (selector_allow e (fst w), snd w)")
  have "log k = log (snd w) @ replicate (Suc n) SYSCALL_DISPATCH_FILTER_ALLOW"
    by (rule assms(2) [OF _ f]) (simp add: selector_allow_def assms(1))
  then show ?thesis
    unfolding seen_open_def using f assms(1)
    by (intro exI [of _ "Suc n"]) (simp add: gated_def selector_block_def)
qed

lemma seen_timedwait:
  assumes "watches log (selector e) H" and "apart_selector e c"
  shows "seen_open log (selector e) w (snd (shim_pthread_cond_timedwait_relative_np H e cond mutex rel w))"
proof -
  have s: "selector e \<noteq> 0" and ap: "apart (scratch e) 8 (selector e) 1" "apart (scratch e + 8) 8 (selector e) 1"
    using assms(2) by (auto simp: apart_selector_def)
  note st = store_word_elsewhere(1) [OF ap(1)] store_word_elsewhere(1) [OF ap(2)]
  note n = watches_noting(3) [OF assms(1)]
  show ?thesis
  proof (cases "rel = 0")
    case True
    then show ?thesis by (simp add: shim_pthread_cond_timedwait_relative_np_def seen_wrapped [OF assms])
  next
    case False
    show ?thesis
      unfolding shim_pthread_cond_timedwait_relative_np_def if_not_P [OF False]
      by (rule seen_gated_many [OF s, where n = 1])
        (auto simp: st Let_def split: prod.splits if_splits dest!: notingD [OF n])
  qed
qed

lemma seen_mmap:
  assumes "watches log (selector e) H" and "apart_selector e c"
  shows "seen_open log (selector e) w (snd (shim_mmap H e addr len prot flags fd off w))"
proof -
  have fin: "seen_open log (selector e) w2 (snd (case gated e (call H f args) w2 of (r, w) \<Rightarrow> (g r, w)))"
    for w2 f args and g :: "u64 \<Rightarrow> u64"
    using seen_wrapped(3) [OF assms, of w2 f args] by (cases "gated e (call H f args) w2") simp
  have guard: "seen_open log (selector e) w (if prot = 0 then snd (gated e (call H f args) w) else w)" for f args
    using seen_wrapped(3) [OF assms, of w f args] by (simp add: seen_openI(1))
  show ?thesis
    unfolding shim_mmap_def Let_def using fin seen_open_trans [OF guard fin] by (auto simp: case_prod_beta)
qed


text \<open>A host that does nothing but note the selector at 0x4000.\<close>

definition demo_host :: "u8 list libc" where
  "demo_host = \<lparr>sys = \<lambda>nr args (m, k). (if nr = 1 then - 9 else 0, m, k @ [m 0x4000]),
     call = \<lambda>f args (m, k). (if f = ''mmap'' then args ! 0 else 0, m, k @ [m 0x4000])\<rparr>"

definition demo_env :: shim_env where
  "demo_env = \<lparr>selector = 0x4000, errno_loc = 0x5000, ERRNO_VALUE = 0x6000, scratch = 0x7000, literal = \<lambda>_. 0x8000\<rparr>"

lemma demo_watches: "watches id 0x4000 demo_host"
  by (simp add: watches_def noting_def demo_host_def)

lemma demo_apart: "own_writes demo_env c = [] \<Longrightarrow> apart_selector demo_env c"
  by (simp add: apart_selector_def demo_env_def) (intro conjI apartI_below; simp)


section \<open>Errors\<close>

text \<open>The system call a wrapper makes.\<close>

fun request :: "shim_call \<Rightarrow> (u64 \<times> u64 list) option" where
  "request (Write fd buf n) = Some (1, [scast fd, buf, n])"
| "request (Read fd buf n) = Some (0, [scast fd, buf, n])"
| "request (Open path flags mode) = Some (2, [path, scast (translate_open_flags flags), scast mode])"
| "request (Close fd) = Some (3, [scast fd])"
| "request (Lseek fd off whence) = Some (8, [scast fd, off, scast whence])"
| "request (Dup fd) = Some (32, [scast fd])"
| "request (Dup2 fd fd2) = Some (33, [scast fd, scast fd2])"
| "request (Fcntl fd cmd arg) = Some (72, [scast fd, scast cmd, arg])"
| "request c = None"

lemma shim_exec_request:
  "request c = Some (nr, args) \<Longrightarrow> shim_exec H e c w = syscall_ret e (gated e (sys H nr args) w)"
  by (cases c) (auto simp: wrapper_defs)

lemma load32_store32_same [simp]: "load32 (store32 m a v) a = v"
  by (simp add: load32_def store32_def load_store_same)

lemma load32_upd: "apart a 4 s 1 \<Longrightarrow> load32 (m(s := v)) a = load32 m a"
proof -
  assume "apart a 4 s 1"
  then have "a + of_nat i \<noteq> s + of_nat 0" if "i < 4" for i using that unfolding apart_def by blast
  then have "load_bytes (m(s := v)) a 4 = load_bytes m a 4" by (intro load_bytes_cong) simp
  then show ?thesis by (simp add: load32_def)
qed

lemma load32_store32_apart: "apart a 4 b 4 \<Longrightarrow> load32 (store32 m b v) a = load32 m a"
  by (simp add: load32_def store32_def load_store_apart)

text \<open>
  C38. The result of a wrapped system call. A call that succeeds returns the kernel's value and
  leaves the memory the kernel left, the selector closed again. One that fails returns -1 and
  stores the error number in the host's \<open>errno\<close>; the word whose address \<open>___error\<close> gives to
  the program is not written, so the program reads whatever was there before.
\<close>

theorem errno_unreported:
  assumes "request c = Some (nr, args)" and "sys H nr args (selector_allow e m, k) = (raw, m1, k1)"
    and "apart (ERRNO_VALUE e) 4 (errno_loc e) 4" and "apart (ERRNO_VALUE e) 4 (selector e) 1"
  shows "\<exists>m'. shim_exec H e c (m, k) = (if 0 \<le> sint raw then raw else - 1, m', k1)
    \<and> (0 \<le> sint raw \<longrightarrow> m' = selector_block e m1)
    \<and> (sint raw < 0 \<longrightarrow> load32 m' (errno_loc e) = ucast (- raw))
    \<and> load32 m' (shim_errno_location e) = load32 m1 (shim_errno_location e)"
proof -
  have "shim_exec H e c (m, k) = syscall_ret e (raw, selector_block e m1, k1)"
    using assms(1,2) by (simp add: shim_exec_request gated_def)
  moreover have "load32 (selector_block e m1) (ERRNO_VALUE e) = load32 m1 (ERRNO_VALUE e)"
    by (simp add: selector_block_def load32_upd [OF assms(4)])
  ultimately show ?thesis
    by (simp add: syscall_ret_def shim_errno_location_def load32_store32_apart [OF assms(3)])
qed

theorem errno_unreported_witness:
  "\<exists>m'. shim_exec demo_host demo_env (Write 1 0x100 5) (\<lambda>_. 0, []) = (- 1, m', [SYSCALL_DISPATCH_FILTER_ALLOW])
    \<and> load32 m' (errno_loc demo_env) = 9 \<and> load32 m' (shim_errno_location demo_env) = 0"
proof -
  have req: "request (Write 1 0x100 5) = Some (1, [1, 0x100, 5])" by simp
  have run: "sys demo_host 1 [1, 0x100, 5] (selector_allow demo_env (\<lambda>_. 0), [])
      = (- 9, selector_allow demo_env (\<lambda>_. 0), [SYSCALL_DISPATCH_FILTER_ALLOW])"
    by (simp add: demo_host_def selector_allow_def demo_env_def)
  have ap: "apart (ERRNO_VALUE demo_env) 4 (errno_loc demo_env) 4" "apart (ERRNO_VALUE demo_env) 4 (selector demo_env) 1"
    by (rule apartI_below, simp_all add: demo_env_def)+
  have "selector_allow demo_env (\<lambda>_. 0) = (\<lambda>_. 0)"
    by (auto simp: selector_allow_def demo_env_def filter_defs)
  moreover have "load32 (\<lambda>_. 0) (shim_errno_location demo_env) = 0"
    by (simp add: load32_def load_bytes_unfold u32_from_le_def)
  ultimately show ?thesis using errno_unreported [OF req run ap] by auto
qed

section \<open>Page ranges\<close>

lemma translate_mmap_flags_eq: "translate_mmap_flags df = mmap_flags df"
  by (simp add: translate_mmap_flags_def mmap_flags_def Let_def)

lemma fixed_kept: "(translate_mmap_flags df AND 0x10 \<noteq> 0) = (df AND 0x10 \<noteq> 0)"
proof -
  have "(x AND 0x10 \<noteq> 0) = bit (x :: i32) 4" for x by (rule flag_set) simp
  then show ?thesis by (simp add: translate_mmap_flags_eq bit_mmap_flags)
qed

lemma unat_page: "unat (a AND NOT 0xFFF :: u64) = unat a - unat a mod 4096"
  using unat_page_of [of a] by (simp only: page_of_def)

lemma round_up:
  fixes a n :: nat
  shows "a - a mod 4096 \<le> a" "a < a - a mod 4096 + 4096"
    "a + n \<le> (a + n + 4095) - (a + n + 4095) mod 4096" "(a + n + 4095) - (a + n + 4095) mod 4096 < a + n + 4096"
    "((a + n + 4095) - (a + n + 4095) mod 4096 - (a - a mod 4096)) mod 4096 = 0" "(a - a mod 4096) mod 4096 = 0"
    "a - a mod 4096 \<le> (a + n + 4095) - (a + n + 4095) mod 4096"
proof -
  have d: "x - x mod 4096 = 4096 * (x div 4096)" for x :: nat by (simp add: minus_mod_eq_mult_div)
  have e: "4096 * (x div 4096) \<le> x" "x < 4096 * (x div 4096) + 4096" for x :: nat
    using mult_div_mod_eq [of 4096 x] mod_less_divisor [of 4096 x] by linarith+
  note f = e [of a] e [of "a + n + 4095"]
  show "a - a mod 4096 \<le> a" "(a - a mod 4096) mod 4096 = 0" unfolding d by simp_all
  show "a < a - a mod 4096 + 4096" "a + n \<le> (a + n + 4095) - (a + n + 4095) mod 4096"
    "(a + n + 4095) - (a + n + 4095) mod 4096 < a + n + 4096"
    using f unfolding d by linarith+
  have "a div 4096 \<le> (a + n + 4095) div 4096" by (rule div_le_mono) simp
  then show "a - a mod 4096 \<le> (a + n + 4095) - (a + n + 4095) mod 4096" unfolding d by simp
  show "((a + n + 4095) - (a + n + 4095) mod 4096 - (a - a mod 4096)) mod 4096 = 0"
    unfolding d by (simp only: diff_mult_distrib2 [symmetric] mod_mult_self1_is_0)
qed



section \<open>Deadlines\<close>

lemma load64_fields:
  "load64 (store64 (store64 m a x) (a + 8) y) a = x" "load64 (store64 (store64 m a x) (a + 8) y) (a + 8) = y"
proof -
  have "apart (a + of_nat 0) 8 (a + of_nat 8) 8" by (rule apart_fields) simp_all
  then show "load64 (store64 (store64 m a x) (a + 8) y) a = x" by (simp add: load64_store64_apart)
qed simp

lemma small_sint: "unat (x :: u64) < 2 ^ 63 \<Longrightarrow> sint x = int (unat x)"
proof -
  assume "unat x < 2 ^ 63"
  then have "int (unat x) < int (2 ^ 63)" by (rule iffD2 [OF of_nat_less_iff])
  then have l: "uint x < 2 ^ 63" by (simp only: uint_nat of_nat_power of_nat_numeral)
  have "- (2 ^ 63) \<le> (0 :: int)" by simp
  then have "- (2 ^ 63) \<le> uint x" using uint_ge_0 by (rule order_trans)
  then have "signed_take_bit 63 (uint x) = uint x" using l by (rule signed_take_bit_int_eq_self)
  then show ?thesis by (simp add: sint_uint)
qed

text \<open>
  The deadline of a relative wait. If the clock reads \<open>s\<close> seconds and \<open>n\<close> nanoseconds and the
  program asks for \<open>rs\<close> and \<open>rn\<close> more, both nanoseconds below one second, then the host's wait
  is made, with the selector open, on the absolute time that is exactly the sum, its
  nanoseconds below one second again as the host requires (it rejects others).
\<close>

theorem timedwait_deadline:
  assumes "reltime \<noteq> 0"
    and clock: "call H ''clock_gettime'' [0, scratch e] (store64 (store64 (selector_allow e m) (scratch e) 0) (scratch e + 8) 0, k)
      = (r1, m1, k1)"
    and "unat (load64 m1 (scratch e + 8)) < 10 ^ 9" and "unat (load64 m1 (reltime + 8)) < 10 ^ 9"
    and "unat (load64 m1 (scratch e)) + unat (load64 m1 reltime) < 2 ^ 62"
  shows "\<exists>m2. snd (shim_pthread_cond_timedwait_relative_np H e cond mutex reltime (m, k))
      = (case call32 H ''pthread_cond_timedwait'' [cond, mutex, scratch e] (m2, k1) of (r, m3, k3) \<Rightarrow> (selector_block e m3, k3))
    \<and> m2 = store64 (store64 m1 (scratch e) (load64 m2 (scratch e))) (scratch e + 8) (load64 m2 (scratch e + 8))
    \<and> unat (load64 m2 (scratch e + 8)) < 10 ^ 9
    \<and> unat (load64 m2 (scratch e)) * 10 ^ 9 + unat (load64 m2 (scratch e + 8))
      = (unat (load64 m1 (scratch e)) + unat (load64 m1 reltime)) * 10 ^ 9
        + unat (load64 m1 (scratch e + 8)) + unat (load64 m1 (reltime + 8))"
proof -
  define sec where "sec = load64 m1 (scratch e) + load64 m1 reltime"
  define nsec where "nsec = load64 m1 (scratch e + 8) + load64 m1 (reltime + 8)"
  define carry where "carry = (sint nsec \<ge> 1000000000)"
  define m2 where "m2 = store64 (store64 m1 (scratch e) (if carry then sec + 1 else sec)) (scratch e + 8)
    (if carry then nsec - 1000000000 else nsec)"
  have s: "unat sec = unat (load64 m1 (scratch e)) + unat (load64 m1 reltime)"
    using assms(5) by (simp add: sec_def unat_word_ariths)
  have n: "unat nsec = unat (load64 m1 (scratch e + 8)) + unat (load64 m1 (reltime + 8))"
    using assms(3,4) by (simp add: nsec_def unat_word_ariths)
  have c: "carry = (10 ^ 9 \<le> unat nsec)"
  proof -
    have "sint nsec = int (unat nsec)" by (rule small_sint) (use n assms(3,4) in simp)
    moreover have "(1000000000 \<le> int (unat nsec)) = (1000000000 \<le> unat nsec)" by linarith
    moreover have "(10 :: nat) ^ 9 = 1000000000" by simp
    ultimately show ?thesis by (simp only: carry_def)
  qed
  have "unat (sec + 1) = unat sec + 1" using s assms(5) by (simp add: unat_word_ariths)
  moreover have "unat (nsec - 1000000000) = unat nsec - 10 ^ 9" if carry
    using that c by (simp add: unat_sub word_le_nat_alt)
  ultimately have "unat (if carry then nsec - 1000000000 else nsec) < 10 ^ 9"
    "unat (if carry then sec + 1 else sec) * 10 ^ 9 + unat (if carry then nsec - 1000000000 else nsec)
      = unat sec * 10 ^ 9 + unat nsec"
    using c n assms(3,4) by auto
  moreover have "snd (shim_pthread_cond_timedwait_relative_np H e cond mutex reltime (m, k))
      = (case call32 H ''pthread_cond_timedwait'' [cond, mutex, scratch e] (m2, k1) of (r, m3, k3) \<Rightarrow> (selector_block e m3, k3))"
    using assms(1) clock
    by (simp add: shim_pthread_cond_timedwait_relative_np_def gated_def call32_def Let_def sec_def [symmetric]
        nsec_def [symmetric] carry_def [symmetric] m2_def split: prod.splits)
  ultimately show ?thesis
    by (intro exI [of _ m2]) (simp add: m2_def load64_fields s n)
qed

text \<open>The clock of this host reads 5 seconds and 600000000 nanoseconds.\<close>

definition clock_host :: "unit libc" where
  "clock_host = \<lparr>sys = \<lambda>nr args w. (0, w),
     call = \<lambda>f args (m, k). (0, if f = ''clock_gettime'' then store64 (store64 m (args ! 1) 5) (args ! 1 + 8) 600000000 else m, k)\<rparr>"

definition demo_reltime :: mem where
  "demo_reltime = store64 (store64 (\<lambda>_. 0) 0x9000 2) (0x9000 + 8) 700000000"

theorem timedwait_deadline_witness:
  "\<exists>m2. snd (shim_pthread_cond_timedwait_relative_np clock_host demo_env 1 2 0x9000 (demo_reltime, ()))
      = (selector_block demo_env m2, ())
    \<and> unat (load64 m2 0x7000) * 10 ^ 9 + unat (load64 m2 (0x7000 + 8)) = 8300000000
    \<and> unat (load64 m2 (0x7000 + 8)) < 10 ^ 9"
proof -
  let ?m0 = "store64 (store64 (selector_allow demo_env demo_reltime) (scratch demo_env) 0) (scratch demo_env + 8) 0"
  let ?m1 = "store64 (store64 ?m0 (scratch demo_env) 5) (scratch demo_env + 8) 600000000"
  have clock: "call clock_host ''clock_gettime'' [0, scratch demo_env] (?m0, ()) = (0, ?m1, ())"
    by (simp add: clock_host_def)
  have ap: "apart 0x9000 8 0x7000 8" "apart 0x9000 8 (0x7000 + 8) 8" "apart (0x9000 + 8) 8 0x7000 8"
    "apart (0x9000 + 8) 8 (0x7000 + 8) 8"
    by (rule apartI_below, simp, simp)+
  have up: "load64 (f(0x4000 := v)) a = load64 f a" if "apart 0x4000 1 a 8" for f a v
  proof (rule load64_bytes_cong)
    fix i :: nat assume "i < 8"
    then have "(0x4000 :: u64) + of_nat 0 \<noteq> a + of_nat i" using that unfolding apart_def by blast
    then show "(f(0x4000 := v)) (a + of_nat i) = f (a + of_nat i)" by auto
  qed
  have "apart 0x4000 1 0x9000 8" "apart 0x4000 1 (0x9000 + 8) 8" by (rule apartI_below, simp, simp)+
  note up = this [THEN up]
  have rel: "load64 ?m1 0x9000 = 2" "load64 ?m1 (0x9000 + 8) = 700000000"
    using ap up by (simp_all add: demo_env_def selector_allow_def load64_store64_apart demo_reltime_def load64_fields [simplified]
        load64_fields [where a = "0x9000", simplified])
  have own: "load64 ?m1 (scratch demo_env) = 5" "load64 ?m1 (scratch demo_env + 8) = 600000000"
    by (simp_all only: load64_fields)
  have h: "(0x9000 :: u64) \<noteq> 0" "unat (load64 ?m1 (scratch demo_env + 8)) < 10 ^ 9" "unat (load64 ?m1 (0x9000 + 8)) < 10 ^ 9"
    "unat (load64 ?m1 (scratch demo_env)) + unat (load64 ?m1 0x9000) < 2 ^ 62"
    unfolding own rel by simp_all
  from timedwait_deadline [OF h(1) clock h(2,3,4), of 1 2] obtain m2 where
    "snd (shim_pthread_cond_timedwait_relative_np clock_host demo_env 1 2 0x9000 (demo_reltime, ()))
      = (case call32 clock_host ''pthread_cond_timedwait'' [1, 2, scratch demo_env] (m2, ()) of
          (r, m3, k3) \<Rightarrow> (selector_block demo_env m3, k3))"
    and n: "unat (load64 m2 (scratch demo_env + 8)) < 10 ^ 9"
    and t: "unat (load64 m2 (scratch demo_env)) * 10 ^ 9 + unat (load64 m2 (scratch demo_env + 8))
      = (unat (load64 ?m1 (scratch demo_env)) + unat (load64 ?m1 0x9000)) * 10 ^ 9
        + unat (load64 ?m1 (scratch demo_env + 8)) + unat (load64 ?m1 (0x9000 + 8))"
    by (elim exE conjE) (rule that)
  then have "snd (shim_pthread_cond_timedwait_relative_np clock_host demo_env 1 2 0x9000 (demo_reltime, ()))
      = (selector_block demo_env m2, ())"
    by (simp add: call32_def clock_host_def)
  moreover have "unat (load64 m2 0x7000) * 10 ^ 9 + unat (load64 m2 (0x7000 + 8)) = 8300000000"
    using t unfolding own rel by (simp add: demo_env_def)
  moreover have "unat (load64 m2 (0x7000 + 8)) < 10 ^ 9" using n by (simp add: demo_env_def)
  ultimately show ?thesis by blast
qed

section \<open>Flags\<close>

lemma or_flags_wide:
  "bit (if c then x OR 0x100 else x :: i32) i \<longleftrightarrow> bit x i \<or> (c \<and> i = 8)"
  "bit (if c then x OR 0x10000 else x :: i32) i \<longleftrightarrow> bit x i \<or> (c \<and> i = 16)"
  "bit (if c then x OR 0x200000 else x :: i32) i \<longleftrightarrow> bit x i \<or> (c \<and> i = 21)"
  by (rule bit_or_flag, simp, simp)+

lemma test_flags_wide:
  "(df AND 0x10 \<noteq> 0) = bit (df :: i32) 4" "(df AND 0x10000 \<noteq> 0) = bit (df :: i32) 16"
  "(df AND 0x100000 \<noteq> 0) = bit (df :: i32) 20"
  by (rule flag_set, simp)+

lemma bit_translate_open_flags:
  "bit (translate_open_flags df) i \<longleftrightarrow> bit (open_flags df) i
    \<or> (i = 8 \<and> bit df 4) \<or> (i = 16 \<and> bit df 16) \<or> (i = 21 \<and> bit df 20)"
proof -
  have m: "(3 :: i32) = mask 2" by (simp add: mask_eq_exp_minus_1)
  have "bit (df AND 3) i \<longleftrightarrow> i < 2 \<and> bit df i" unfolding m bit_and_iff bit_mask_iff by auto
  then show ?thesis
    unfolding bit_open_flags translate_open_flags_def Let_def or_flags or_flags_wide test_flags test_flags_wide by blast
qed

text \<open>
  The two ways into the kernel read the same flags: a program that calls \<open>open\<close> or \<open>mmap\<close>
  of libSystem gets the Linux flags it gets from the raw system call, except that the wrapper of
  \<open>open\<close> also carries over three flags (close-on-exec among them) which the system call path
  drops.
\<close>

theorem shim_flags_agree:
  "translate_mmap_flags df = mmap_flags df
   \<and> translate_open_flags df = open_flags df
       OR (if bit df 4 then 0x100 else 0) OR (if bit df 16 then 0x10000 else 0) OR (if bit df 20 then 0x200000 else 0)"
proof
  have p: "(0x100 :: i32) = 2 ^ 8" "(0x10000 :: i32) = 2 ^ 16" "(0x200000 :: i32) = 2 ^ 21" by simp_all
  show "translate_open_flags df = open_flags df
       OR (if bit df 4 then 0x100 else 0) OR (if bit df 16 then 0x10000 else 0) OR (if bit df 20 then 0x200000 else 0)"
    by (rule bit_word_eqI) (auto simp: bit_translate_open_flags bit_or_iff p bit_exp_iff simp del: power_numeral)
qed (rule translate_mmap_flags_eq)

end
