(* ===== verification/ShimData.thy ===== *)
theory ShimData
  imports ShimCalls
begin

text \<open>
  \<open>crates/grafted-dyld/src/shims.rs\<close>, the wrappers that translate data: \<open>stat\<close>, \<open>sigaction\<close>,
  \<open>readdir\<close> and \<open>getaddrinfo\<close> answer in the layouts of Darwin, the character classes, the path
  of the executable, the system parameters and \<open>memset_pattern16\<close> are computed in memory the
  program reads itself. The structures of the host's libc are records.
\<close>

section \<open>Fields of a stored structure\<close>

lemma apartD: "apart a n b k \<Longrightarrow> i < n \<Longrightarrow> j < k \<Longrightarrow> a + of_nat i \<noteq> b + of_nat j"
  by (simp add: apart_def)

lemma load_store_part:
  assumes "d + n \<le> length bs" and "length bs < 2 ^ 64"
  shows "load_bytes (store_bytes m a bs) (a + of_nat d) n = take n (drop d bs)"
  using assms load_bytes_sub [of d n "length bs" "store_bytes m a bs" a]
  by (simp add: load_store_same)

definition le_bytes16 :: "u16 \<Rightarrow> u8 list" where
  "le_bytes16 w = [ucast w, ucast (drop_bit 8 w)]"

lemma length_le_bytes16 [bytes_simps, simp]: "length (le_bytes16 w) = 2"
  by (simp add: le_bytes16_def)

lemma or_bytes16 [simp]: "(or_bytes (le_bytes16 w) :: u16) = w"
proof (rule bit_word_eqI)
  fix n assume n: "n < LENGTH(16)"
  then have "n div 8 = 0 \<or> n div 8 = 1" by auto
  moreover have "n = 8 * (n div 8) + n mod 8" by simp
  ultimately show "bit (or_bytes (le_bytes16 w) :: u16) n = bit w n"
    using n by (auto simp: bit_or_bytes le_bytes16_def bit_simps)
qed

lemma load_field64:
  "d + 8 \<le> length bs \<Longrightarrow> length bs < 2 ^ 64 \<Longrightarrow> take 8 (drop d bs) = le_bytes64 v
   \<Longrightarrow> load64 (store_bytes m a bs) (a + of_nat d) = v"
  by (simp only: load64_def load_store_part u64_le_roundtrip)

lemma load_field32:
  "d + 4 \<le> length bs \<Longrightarrow> length bs < 2 ^ 64 \<Longrightarrow> take 4 (drop d bs) = le_bytes32 v
   \<Longrightarrow> load32 (store_bytes m a bs) (a + of_nat d) = v"
  by (simp only: load32_def load_store_part u32_le_roundtrip)

lemma load_field16:
  "d + 2 \<le> length bs \<Longrightarrow> length bs < 2 ^ 64 \<Longrightarrow> take 2 (drop d bs) = le_bytes16 v
   \<Longrightarrow> load16 (store_bytes m a bs) (a + of_nat d) = v"
  by (simp only: load16_def load_store_part or_bytes16)

section \<open>stat\<close>

text \<open>\<open>libc::stat\<close> of the host.\<close>

record linux_stat =
  st_dev :: u64
  st_ino :: u64
  st_nlink :: u64
  st_mode :: u32
  st_uid :: u32
  st_gid :: u32
  st_rdev :: u64
  st_size :: i64
  st_blksize :: i64
  st_blocks :: i64
  st_atime :: "i64 \<times> i64"
  st_mtime :: "i64 \<times> i64"
  st_ctime :: "i64 \<times> i64"

text \<open>
  The structure is \<open>repr(C)\<close>, every field is written and no padding is left between them, so
  its bytes are the fields' one after the other. A time is seconds and nanoseconds.
\<close>

definition timespec_bytes :: "i64 \<times> i64 \<Rightarrow> u8 list" where
  "timespec_bytes t = le_bytes64 (fst t) @ le_bytes64 (snd t)"

definition darwin_stat_bytes :: "linux_stat \<Rightarrow> u8 list" where
  "darwin_stat_bytes l =
     le_bytes32 (ucast (st_dev l)) @ le_bytes16 (ucast (st_mode l)) @ le_bytes16 (ucast (st_nlink l))
     @ le_bytes64 (st_ino l) @ le_bytes32 (st_uid l) @ le_bytes32 (st_gid l)
     @ le_bytes32 (ucast (st_rdev l)) @ le_bytes32 0
     @ timespec_bytes (st_atime l) @ timespec_bytes (st_mtime l) @ timespec_bytes (st_ctime l) @ timespec_bytes (st_ctime l)
     @ le_bytes64 (st_size l) @ le_bytes64 (st_blocks l) @ le_bytes32 (ucast (st_blksize l))
     @ le_bytes32 0 @ le_bytes32 0 @ le_bytes32 0 @ le_bytes64 0 @ le_bytes64 0"

definition linux_to_darwin_stat :: "linux_stat \<Rightarrow> ptr \<Rightarrow> mem \<Rightarrow> mem" where
  "linux_to_darwin_stat l darwin m = store_bytes m darwin (darwin_stat_bytes l)"

text \<open>\<open>host_stat\<close> is \<open>stat\<close>, \<open>fstat\<close> or \<open>lstat\<close> of the host: its result and what it filled in.\<close>

definition shim_stat ::
    "(u64 \<Rightarrow> mem \<times> 'k \<Rightarrow> (i32 \<times> linux_stat) \<times> mem \<times> 'k) \<Rightarrow> shim_env \<Rightarrow> u64 \<Rightarrow> ptr \<Rightarrow> mem \<times> 'k \<Rightarrow> i32 \<times> mem \<times> 'k" where
  "shim_stat host_stat e path buf w =
     (case gated e (host_stat path) w of
        ((ret, l), m, k) \<Rightarrow> (ret, if ret = 0 then linux_to_darwin_stat l buf m else m, k))"

lemma length_darwin_stat [simp]: "length (darwin_stat_bytes l) = 144"
  by (simp add: darwin_stat_bytes_def timespec_bytes_def)

text \<open>The structure as Darwin declares it: where each field lies, by the width it has there.\<close>

definition stat_words :: "linux_stat \<Rightarrow> (nat \<times> u64) list" where
  "stat_words l = [(8, st_ino l), (32, fst (st_atime l)), (40, snd (st_atime l)), (48, fst (st_mtime l)),
     (56, snd (st_mtime l)), (64, fst (st_ctime l)), (72, snd (st_ctime l)), (80, fst (st_ctime l)), (88, snd (st_ctime l)),
     (96, st_size l), (104, st_blocks l)]"

definition stat_halves :: "linux_stat \<Rightarrow> (nat \<times> u32) list" where
  "stat_halves l = [(0, ucast (st_dev l)), (16, st_uid l), (20, st_gid l), (24, ucast (st_rdev l)),
     (112, ucast (st_blksize l)), (116, 0), (120, 0)]"

definition stat_quarters :: "linux_stat \<Rightarrow> (nat \<times> u16) list" where
  "stat_quarters l = [(4, ucast (st_mode l)), (6, ucast (st_nlink l))]"

lemma stat_words_stored:
  "(d, v) \<in> set (stat_words l) \<Longrightarrow> load64 (store_bytes m buf (darwin_stat_bytes l)) (buf + of_nat d) = v"
  by (rule load_field64) (auto simp: stat_words_def darwin_stat_bytes_def timespec_bytes_def)

lemma stat_halves_stored:
  "(d, v) \<in> set (stat_halves l) \<Longrightarrow> load32 (store_bytes m buf (darwin_stat_bytes l)) (buf + of_nat d) = v"
  by (rule load_field32) (auto simp: stat_halves_def darwin_stat_bytes_def timespec_bytes_def)

lemma stat_quarters_stored:
  "(d, v) \<in> set (stat_quarters l) \<Longrightarrow> load16 (store_bytes m buf (darwin_stat_bytes l)) (buf + of_nat d) = v"
  by (rule load_field16) (auto simp: stat_quarters_def darwin_stat_bytes_def timespec_bytes_def)

lemma store_bytes_outside: "length bs \<le> unat (x - a) \<Longrightarrow> store_bytes m a bs x = m x"
  by (simp add: store_bytes_def)

text \<open>
  C40. The layout of Darwin's \<open>stat\<close>. When the host's call succeeds, a program that reads the
  buffer at the offsets of Darwin's structure finds at each of them the host's value for that
  field, narrowed to the field's width there, and no byte outside the 144 of the buffer is
  written except the thread's selector. When the call fails the buffer is left alone.
\<close>

theorem stat_layout:
  assumes "host_stat path (selector_allow e m, k) = ((ret, l), m1, k1)"
    and "shim_stat host_stat e path buf (m, k) = (r, m2, k2)"
  shows "r = ret \<and> (\<forall>x. 144 \<le> unat (x - buf) \<or> ret \<noteq> 0 \<longrightarrow> m2 x = selector_block e m1 x)
    \<and> (ret = 0 \<longrightarrow> (\<forall>d v. (d, v) \<in> set (stat_words l) \<longrightarrow> load64 m2 (buf + of_nat d) = v)
      \<and> (\<forall>d v. (d, v) \<in> set (stat_halves l) \<longrightarrow> load32 m2 (buf + of_nat d) = v)
      \<and> (\<forall>d v. (d, v) \<in> set (stat_quarters l) \<longrightarrow> load16 m2 (buf + of_nat d) = v))"
proof -
  have "r = ret" and m2: "m2 = (if ret = 0 then store_bytes (selector_block e m1) buf (darwin_stat_bytes l) else selector_block e m1)"
    using assms by (auto simp: shim_stat_def gated_def linux_to_darwin_stat_def)
  moreover have "m2 x = selector_block e m1 x" if "144 \<le> unat (x - buf) \<or> ret \<noteq> 0" for x
    using that m2 by (auto simp: store_bytes_outside)
  ultimately show ?thesis
    using stat_words_stored stat_halves_stored stat_quarters_stored by auto
qed

text \<open>A file of 4660 bytes in block 7, owned by user 1000.\<close>

definition demo_stat :: linux_stat where
  "demo_stat = \<lparr>st_dev = 0x801, st_ino = 99, st_nlink = 1, st_mode = 0x81A4, st_uid = 1000, st_gid = 100, st_rdev = 0,
     st_size = 4660, st_blksize = 4096, st_blocks = 16, st_atime = (1, 2), st_mtime = (3, 4), st_ctime = (5, 6)\<rparr>"

theorem stat_layout_witness:
  "\<exists>m2. shim_stat (\<lambda>path w. ((0, demo_stat), w)) demo_env 0x8000 0x9000 (\<lambda>_. 7, ()) = (0, m2, ())
    \<and> load64 m2 (0x9000 + 96) = 4660 \<and> load32 m2 (0x9000 + 16) = 1000 \<and> load16 m2 (0x9000 + 4) = 0x81A4
    \<and> m2 0x9100 = 7"
proof -
  obtain m2 where r: "shim_stat (\<lambda>path w. ((0, demo_stat), w)) demo_env 0x8000 0x9000 (\<lambda>_. 7, ()) = (0, m2, ())"
    by (simp add: shim_stat_def gated_def)
  note l = stat_layout [OF refl r]
  have "(96, 4660) \<in> set (stat_words demo_stat)" "(16, 1000) \<in> set (stat_halves demo_stat)"
    "(4, 0x81A4) \<in> set (stat_quarters demo_stat)"
    by (simp_all add: stat_words_def stat_halves_def stat_quarters_def demo_stat_def)
  with l have "load64 m2 (0x9000 + of_nat 96) = 4660 \<and> load32 m2 (0x9000 + of_nat 16) = 1000
      \<and> load16 m2 (0x9000 + of_nat 4) = 0x81A4"
    by blast
  moreover have "m2 0x9100 = selector_block demo_env (selector_allow demo_env (\<lambda>_. 7)) 0x9100"
    by (rule mp [OF spec [OF conjunct1 [OF conjunct2 [OF l]]]]) simp
  ultimately show ?thesis using r by (simp add: selector_block_def selector_allow_def demo_env_def)
qed

section \<open>sigaction\<close>

text \<open>
  \<open>libc::sigaction\<close> of the host; the mask is the set of its signals. The host's call takes the
  signal, the action to install if there is one and whether the old action is wanted.
\<close>

record linux_sigaction =
  sa_sigaction :: u64
  sa_flags :: i32
  sa_mask :: "nat set"

type_synonym 'k host_sigaction =
  "i32 \<Rightarrow> linux_sigaction option \<Rightarrow> bool \<Rightarrow> mem \<times> 'k \<Rightarrow> (i32 \<times> linux_sigaction) \<times> mem \<times> 'k"

definition translate_sa_flags :: "i32 \<Rightarrow> u64" where
  "translate_sa_flags darwin =
     (let l = 0;
          l = (if darwin AND 0x0040 \<noteq> 0 then l OR 4 else l);
          l = (if darwin AND 0x0002 \<noteq> 0 then l OR 0x10000000 else l);
          l = (if darwin AND 0x0008 \<noteq> 0 then l OR 1 else l);
          l = (if darwin AND 0x0010 \<noteq> 0 then l OR 0x40000000 else l);
          l = (if darwin AND 0x0001 \<noteq> 0 then l OR 0x08000000 else l);
          l = (if darwin AND 0x0004 \<noteq> 0 then l OR scast (0x80000000 :: i32) else l)
      in l)"

text \<open>The loop over the bits of Darwin's mask, \<open>sigaddset\<close> for each that is set.\<close>

definition mask_signals :: "u32 \<Rightarrow> nat set" where
  "mask_signals mk =
     foldl (\<lambda>s i. if mk AND push_bit i 1 \<noteq> 0 then insert (i + 1) s else s) {} [0..<32]"

definition linux_action :: "ptr \<Rightarrow> mem \<Rightarrow> linux_sigaction" where
  "linux_action act m =
     \<lparr>sa_sigaction = load64 m act, sa_flags = ucast (translate_sa_flags (load32 m (act + 12))),
      sa_mask = mask_signals (load32 m (act + 8))\<rparr>"

definition shim_sigaction :: "'k host_sigaction \<Rightarrow> shim_env \<Rightarrow> i32 \<Rightarrow> ptr \<Rightarrow> ptr \<Rightarrow> mem \<times> 'k \<Rightarrow> i32 \<times> mem \<times> 'k" where
  "shim_sigaction host_sigaction e sig act oldact w =
     gated e (\<lambda>w.
       (case host_sigaction sig (if act \<noteq> 0 then Some (linux_action act (fst w)) else None) (oldact \<noteq> 0) w of
          ((ret, old), m, k) \<Rightarrow>
            (ret,
             if ret = 0 \<and> oldact \<noteq> 0
             then store32 (store32 (store64 m oldact (sa_sigaction old)) (oldact + 12) (sa_flags old)) (oldact + 8) 0
             else m, k))) w"

lemma foldl_insert_if:
  "foldl (\<lambda>s i. if P i then insert (f i) s else s) A xs = A \<union> {f i |i. i \<in> set xs \<and> P i}"
  by (induction xs arbitrary: A) auto

lemma and_push_one: "(w AND push_bit i 1 \<noteq> 0) = bit (w :: 'a::len word) i"
  by (simp add: and_exp_eq_0_iff_not_bit)

lemma mem_mask_signals: "n \<in> mask_signals mk \<longleftrightarrow> 0 < n \<and> n \<le> 32 \<and> bit mk (n - 1)"
proof -
  have "mask_signals mk = {i + 1 |i. i < 32 \<and> bit mk i}"
    by (simp add: mask_signals_def foldl_insert_if and_push_one [simplified])
  then show ?thesis by (cases n) auto
qed

lemma bit_power: "k = 2 ^ j \<Longrightarrow> j < LENGTH('a) \<Longrightarrow> bit (k :: 'a::len word) n = (n = j)"
  by (auto simp: bit_exp_iff)

lemma bit_translate_sa_flags:
  "bit (ucast (translate_sa_flags df) :: i32) i \<longleftrightarrow>
     i = 2 \<and> bit df 6 \<or> i = 28 \<and> bit df 1 \<or> i = 0 \<and> bit df 3 \<or> i = 30 \<and> bit df 4 \<or> i = 27 \<and> bit df 0
     \<or> i = 31 \<and> bit df 2"
proof -
  have t: "(df AND 0x0040 \<noteq> 0) = bit df 6" "(df AND 0x0002 \<noteq> 0) = bit df 1" "(df AND 0x0008 \<noteq> 0) = bit df 3"
    "(df AND 0x0010 \<noteq> 0) = bit df 4" "(df AND 0x0001 \<noteq> 0) = bit df 0" "(df AND 0x0004 \<noteq> 0) = bit df 2"
    by (rule flag_set, simp)+
  have f: "bit (if c then l OR k else l :: u64) n = (bit l n \<or> c \<and> bit k n)" for c l k n
    by (simp add: bit_or_iff)
  have k: "bit (4 :: u64) n = (n = 2)" "bit (0x10000000 :: u64) n = (n = 28)" "bit (1 :: u64) n = (n = 0)"
    "bit (0x40000000 :: u64) n = (n = 30)" "bit (0x08000000 :: u64) n = (n = 27)" "bit (0x80000000 :: i32) n = (n = 31)" for n
    by (rule bit_power, simp, simp)+
  have "bit (translate_sa_flags df) n =
      (bit df 6 \<and> n = 2 \<or> bit df 1 \<and> n = 28 \<or> bit df 3 \<and> n = 0 \<or> bit df 4 \<and> n = 30 \<or> bit df 0 \<and> n = 27
       \<or> bit df 2 \<and> bit (scast (0x80000000 :: i32) :: u64) n)" for n
    unfolding translate_sa_flags_def Let_def t f k by (simp only: bit_0_eq bot_apply bot_bool_def simp_thms disj_assoc)
  moreover have "bit (scast (0x80000000 :: i32) :: u64) n = (31 \<le> n \<and> n < 64)" for n
    unfolding bit_signed_iff k by auto
  moreover have "bit (ucast w :: i32) i = (i < 32 \<and> bit w i)" for w :: u64 by (simp add: bit_unsigned_iff)
  moreover have "i < 32 \<and> 31 \<le> i \<and> i < 64 \<longleftrightarrow> i = 31" by linarith
  ultimately show ?thesis by (simp only:) (rule iffI; elim conjE disjE; simp)
qed

lemma load64_store32_apart: "apart a 8 b 4 \<Longrightarrow> load64 (store32 m b v) a = load64 m a"
  by (simp add: load64_def store32_def load_store_apart)

lemma load64_upd: "apart a 8 s 1 \<Longrightarrow> load64 (m(s := v)) a = load64 m a"
proof -
  assume "apart a 8 s 1"
  then have "a + of_nat i \<noteq> s + of_nat 0" if "i < 8" for i using that unfolding apart_def by blast
  then show ?thesis by (intro load64_bytes_cong) auto
qed

lemma selector_writes:
  assumes "apart a n (selector e) 1"
  shows "d + 8 \<le> n \<Longrightarrow> load64 (selector_allow e m) (a + of_nat d) = load64 m (a + of_nat d)"
    and "d + 8 \<le> n \<Longrightarrow> load64 (selector_block e m) (a + of_nat d) = load64 m (a + of_nat d)"
    and "d + 4 \<le> n \<Longrightarrow> load32 (selector_allow e m) (a + of_nat d) = load32 m (a + of_nat d)"
    and "d + 4 \<le> n \<Longrightarrow> load32 (selector_block e m) (a + of_nat d) = load32 m (a + of_nat d)"
  using apart_sub [OF assms, of d 8] apart_sub [OF assms, of d 4]
  by (auto simp: selector_allow_def selector_block_def load64_upd load32_upd)

text \<open>
  A saved action does not come back. A program asks for the action of a signal and installs
  what it was told again: the handler is the same, but the signals the handler had blocked are
  gone, and its flags are Linux's numbers read as Darwin's. A handler that took three arguments
  (Linux's \<open>SA_SIGINFO\<close>, 4, is Darwin's \<open>SA_RESETHAND\<close>) is installed for one shot and without
  them.
\<close>

theorem saved_action_lost:
  assumes "host_sigaction sig None True (selector_allow e m, k) = ((0, old), m1, k1)"
    and "oldact \<noteq> 0" and "apart oldact 16 (selector e) 1"
    and "shim_sigaction host_sigaction e sig 0 oldact (m, k) = (r, m2, k2)"
  shows "shim_sigaction host_sigaction e sig oldact 0 (m2, k2)
      = (case host_sigaction sig (Some \<lparr>sa_sigaction = sa_sigaction old,
             sa_flags = ucast (translate_sa_flags (sa_flags old)), sa_mask = {}\<rparr>) False (selector_allow e m2, k2) of
           ((ret, _), m3, k3) \<Rightarrow> (ret, selector_block e m3, k3))
    \<and> (\<forall>i. bit (ucast (translate_sa_flags (sa_flags old)) :: i32) i \<longrightarrow> i \<noteq> 2 \<or> bit (sa_flags old) 6)
    \<and> (sa_flags old = 4 \<longrightarrow> (ucast (translate_sa_flags (sa_flags old)) :: i32) = 0x80000000)"
proof -
  let ?m = "store32 (store32 (store64 m1 oldact (sa_sigaction old)) (oldact + 12) (sa_flags old)) (oldact + 8) 0"
  have m2: "m2 = selector_block e ?m"
    using assms(1,2,4) by (simp add: shim_sigaction_def gated_def)
  have "apart (oldact + of_nat 0) 8 (oldact + of_nat 12) 4" "apart (oldact + of_nat 0) 8 (oldact + of_nat 8) 4"
    "apart (oldact + of_nat 12) 4 (oldact + of_nat 8) 4"
    by (rule apart_fields; simp)+
  then have l: "load64 ?m oldact = sa_sigaction old" "load32 ?m (oldact + 12) = sa_flags old" "load32 ?m (oldact + 8) = 0"
    by (simp_all add: load64_store32_apart load32_store32_apart)
  have "load64 (selector_allow e m2) (oldact + of_nat 0) = sa_sigaction old"
    "load32 (selector_allow e m2) (oldact + of_nat 12) = sa_flags old"
    "load32 (selector_allow e m2) (oldact + of_nat 8) = 0"
    using selector_writes [OF assms(3), of 0] selector_writes [OF assms(3), of 12] selector_writes [OF assms(3), of 8]
    by (simp_all add: m2 l)
  moreover have "mask_signals 0 = {}" by (auto simp: mem_mask_signals)
  ultimately have "linux_action oldact (selector_allow e m2)
      = \<lparr>sa_sigaction = sa_sigaction old, sa_flags = ucast (translate_sa_flags (sa_flags old)), sa_mask = {}\<rparr>"
    by (simp add: linux_action_def)
  then have "shim_sigaction host_sigaction e sig oldact 0 (m2, k2)
      = (case host_sigaction sig (Some \<lparr>sa_sigaction = sa_sigaction old,
             sa_flags = ucast (translate_sa_flags (sa_flags old)), sa_mask = {}\<rparr>) False (selector_allow e m2, k2) of
           ((ret, _), m3, k3) \<Rightarrow> (ret, selector_block e m3, k3))"
    using assms(2) by (simp add: shim_sigaction_def gated_def split: prod.splits)
  moreover have "(ucast (translate_sa_flags 4) :: i32) = 0x80000000"
    by (simp add: translate_sa_flags_def)
  ultimately show ?thesis by (simp add: bit_translate_sa_flags)
qed

text \<open>A host that keeps one action, which it reports and replaces.\<close>

definition action_host :: "linux_sigaction host_sigaction" where
  "action_host sig act want w = (case w of (m, k) \<Rightarrow> ((0, k), m, case act of None \<Rightarrow> k | Some a \<Rightarrow> a))"

theorem saved_action_lost_witness:
  "\<exists>r m2 k2. shim_sigaction action_host demo_env 11 0 0x9000
        ((\<lambda>_. 0), \<lparr>sa_sigaction = 0x4242, sa_flags = 4, sa_mask = {10}\<rparr>) = (r, m2, k2)
    \<and> snd (snd (shim_sigaction action_host demo_env 11 0x9000 0 (m2, k2)))
      = \<lparr>sa_sigaction = 0x4242, sa_flags = 0x80000000, sa_mask = {}\<rparr>"
proof -
  let ?k = "\<lparr>sa_sigaction = 0x4242, sa_flags = 4, sa_mask = {10}\<rparr> :: linux_sigaction"
  obtain r m2 k2 where r: "shim_sigaction action_host demo_env 11 0 0x9000 ((\<lambda>_. 0), ?k) = (r, m2, k2)"
    by (metis prod_cases3)
  have ap: "apart 0x9000 16 (selector demo_env) 1"
    unfolding demo_env_def by (simp, rule apartI_below) simp_all
  have h: "action_host 11 None True (selector_allow demo_env (\<lambda>_. 0), ?k) = ((0, ?k), selector_allow demo_env (\<lambda>_. 0), ?k)"
    by (simp add: action_host_def)
  note saved_action_lost [OF h _ ap r, simplified]
  then show ?thesis using r by (simp add: action_host_def)
qed

text \<open>The stub of \<open>sigaltstack\<close> reports, in the host's layout, that there is no other stack.\<close>

definition shim_sigaltstack_noop :: "ptr \<Rightarrow> mem \<Rightarrow> i32 \<times> mem" where
  "shim_sigaltstack_noop oss m =
     (0, if oss \<noteq> 0 then store64 (store32 (store64 m oss 0) (oss + 8) 2) (oss + 16) 0 else m)"

section \<open>Character classes\<close>

text \<open>\<open>__runetype\<close> of a character, the loop body of \<open>init_rune_locale\<close>.\<close>

definition rune_bits :: "u8 \<Rightarrow> u32" where
  "rune_bits ch =
     (let r = 0;
          r = (if ch < 0x20 \<or> ch = 0x7F then r OR 0x200 else r);
          r = (if ch \<ge> 0x30 \<and> ch \<le> 0x39 then r OR (0x400 OR 0x100000 OR 0x40000) else r);
          r = (if ch \<ge> 0x61 \<and> ch \<le> 0x7A then r OR (0x2000 OR 0x100 OR 0x40000) else r);
          r = (if ch \<ge> 0x41 \<and> ch \<le> 0x5A then r OR (0x8000 OR 0x100 OR 0x40000) else r);
          r = (if ch \<ge> 0x61 \<and> ch \<le> 0x66 then r OR 0x100000 else r);
          r = (if ch \<ge> 0x41 \<and> ch \<le> 0x46 then r OR 0x100000 else r);
          r = (if ch = 0x20 \<or> ch = 0x09 then r OR (0x4000 OR 0x20000) else r);
          r = (if ch = 0x0A \<or> ch = 0x0D \<or> ch = 0x0B \<or> ch = 0x0C then r OR 0x4000 else r);
          r = (if ch \<ge> 0x20 \<and> ch \<le> 0x7E then r OR 0x40000 else r);
          r = (if ch \<ge> 0x21 \<and> ch \<le> 0x7E \<and> r AND (0x100 OR 0x400) = 0 then r OR 0x10000 else r)
      in r)"

definition put_slice :: "u8 list \<Rightarrow> nat \<Rightarrow> u8 list \<Rightarrow> u8 list" where
  "put_slice buf off bs = take off buf @ bs @ drop (off + length bs) buf"

definition init_rune_locale :: "u8 list \<Rightarrow> u8 list" where
  "init_rune_locale buf =
     foldl (\<lambda>buf c. put_slice buf (0x3C + c * 4) (le_bytes32 (rune_bits (of_nat c)))) buf [0..<128]"

text \<open>\<open>is f c\<close>: whether the host's \<open>f\<close> (\<open>isalpha\<close> and the others) answers other than 0 for \<open>c\<close>.\<close>

definition shim_maskrune :: "(string \<Rightarrow> i32 \<Rightarrow> bool) \<Rightarrow> i32 \<Rightarrow> u64 \<Rightarrow> i32" where
  "shim_maskrune ctype c msk =
     (let result = 0 :: u64;
          result = (if c < 128 then
            (let r = result;
                 r = (if ctype ''isalpha'' c then r OR 0x100 else r);
                 r = (if ctype ''iscntrl'' c then r OR 0x200 else r);
                 r = (if ctype ''isdigit'' c then r OR 0x400 else r);
                 r = (if ctype ''islower'' c then r OR 0x2000 else r);
                 r = (if ctype ''isupper'' c then r OR 0x8000 else r);
                 r = (if ctype ''isspace'' c then r OR 0x4000 else r);
                 r = (if ctype ''ispunct'' c then r OR 0x10000 else r);
                 r = (if ctype ''isxdigit'' c then r OR 0x100000 else r);
                 r = (if ctype ''isblank'' c then r OR 0x20000 else r);
                 r = (if ctype ''isprint'' c then r OR 0x40000 else r)
             in r) else result)
      in ucast (result AND msk))"

text \<open>The classes of the C locale, as the C standard lists them.\<close>

definition c_locale :: "string \<Rightarrow> i32 \<Rightarrow> bool" where
  "c_locale f c =
     (let upper = (0x41 \<le> c \<and> c \<le> 0x5A); lower = (0x61 \<le> c \<and> c \<le> 0x7A); digit = (0x30 \<le> c \<and> c \<le> 0x39) in
      if f = ''isalpha'' then upper \<or> lower
      else if f = ''iscntrl'' then c < 0x20 \<or> c = 0x7F
      else if f = ''isdigit'' then digit
      else if f = ''islower'' then lower
      else if f = ''isupper'' then upper
      else if f = ''isspace'' then c = 0x20 \<or> (9 \<le> c \<and> c \<le> 13)
      else if f = ''ispunct'' then 0x20 < c \<and> c < 0x7F \<and> \<not> (upper \<or> lower \<or> digit)
      else if f = ''isxdigit'' then digit \<or> (0x41 \<le> c \<and> c \<le> 0x46) \<or> (0x61 \<le> c \<and> c \<le> 0x66)
      else if f = ''isblank'' then c = 0x20 \<or> c = 9
      else if f = ''isprint'' then 0x20 \<le> c \<and> c < 0x7F
      else False)"

lemma length_put_slice [simp]: "off + length bs \<le> length buf \<Longrightarrow> length (put_slice buf off bs) = length buf"
  by (simp add: put_slice_def)

lemma put_slice_same: "off + length bs \<le> length buf \<Longrightarrow> take (length bs) (drop off (put_slice buf off bs)) = bs"
  by (simp add: put_slice_def)

lemma put_slice_other:
  assumes "off + length bs \<le> length buf" and "d + n \<le> off \<or> off + length bs \<le> d" and "d + n \<le> length buf"
  shows "take n (drop d (put_slice buf off bs)) = take n (drop d buf)"
  using assms(2)
proof
  assume "d + n \<le> off"
  then have "take n (drop d (take off buf @ r)) = take n (drop d buf)" for r
    using assms(1) by (simp add: take_drop min_def)
  then show ?thesis unfolding put_slice_def .
next
  assume "off + length bs \<le> d"
  then show ?thesis using assms(1) by (simp add: put_slice_def)
qed

lemma rune_table:
  assumes "length buf = 2048" and "n \<le> 256"
  shows "length (foldl (\<lambda>buf c. put_slice buf (0x3C + c * 4) (le_bytes32 (f c))) buf [0..<n]) = 2048
    \<and> (\<forall>c < 256. take 4 (drop (0x3C + c * 4) (foldl (\<lambda>buf c. put_slice buf (0x3C + c * 4) (le_bytes32 (f c))) buf [0..<n]))
        = (if c < n then le_bytes32 (f c) else take 4 (drop (0x3C + c * 4) buf)))"
  using assms(2)
proof (induction n)
  case (Suc n)
  let ?b = "foldl (\<lambda>buf c. put_slice buf (0x3C + c * 4) (le_bytes32 (f c))) buf [0..<n]"
  have l: "length ?b = 2048" and r: "\<And>c. c < 256 \<Longrightarrow> take 4 (drop (0x3C + c * 4) ?b)
      = (if c < n then le_bytes32 (f c) else take 4 (drop (0x3C + c * 4) buf))"
    using Suc by simp_all
  have "take 4 (drop (0x3C + c * 4) (put_slice ?b (0x3C + n * 4) (le_bytes32 (f n))))
      = (if c < Suc n then le_bytes32 (f c) else take 4 (drop (0x3C + c * 4) buf))" if "c < 256" for c
  proof (cases "c = n")
    case True
    then show ?thesis using put_slice_same [of "0x3C + n * 4" "le_bytes32 (f n)" ?b] l Suc.prems by simp
  next
    case False
    then show ?thesis
      using put_slice_other [of "0x3C + n * 4" "le_bytes32 (f n)" ?b "0x3C + c * 4" 4] l Suc.prems that r [OF that]
      by (auto simp: less_Suc_eq)
  qed
  then show ?case using l Suc.prems by simp
qed (use assms in simp)

lemma small_char:
  assumes "c < 128" and "k < 128"
  shows "((of_nat c :: u8) < of_nat k) = (c < k)" and "((of_nat c :: u8) \<le> of_nat k) = (c \<le> k)"
    and "((of_nat k :: u8) \<le> of_nat c) = (k \<le> c)" and "((of_nat c :: u8) = of_nat k) = (c = k)"
    and "((of_nat c :: i32) < of_nat k) = (c < k)" and "((of_nat c :: i32) \<le> of_nat k) = (c \<le> k)"
    and "((of_nat k :: i32) \<le> of_nat c) = (k \<le> c)" and "((of_nat c :: i32) = of_nat k) = (c = k)"
    and "((of_nat k :: i32) < of_nat c) = (k < c)"
proof -
  have u: "unat (of_nat c :: u8) = c" "unat (of_nat k :: u8) = k" "unat (of_nat c :: i32) = c" "unat (of_nat k :: i32) = k"
    using assms by (simp_all add: unsigned_of_nat take_bit_nat_eq_self)
  show "((of_nat c :: u8) < of_nat k) = (c < k)" "((of_nat c :: u8) \<le> of_nat k) = (c \<le> k)"
    "((of_nat k :: u8) \<le> of_nat c) = (k \<le> c)"
    "((of_nat c :: i32) < of_nat k) = (c < k)" "((of_nat c :: i32) \<le> of_nat k) = (c \<le> k)"
    "((of_nat k :: i32) \<le> of_nat c) = (k \<le> c)" "((of_nat k :: i32) < of_nat c) = (k < c)"
    by (simp_all only: word_less_nat_alt word_le_nat_alt u)
  show "((of_nat c :: u8) = of_nat k) = (c = k)" "((of_nat c :: i32) = of_nat k) = (c = k)"
    using u by metis+
qed

lemmas c_locale_simps =
  c_locale_def [of "''isalpha''", simplified] c_locale_def [of "''iscntrl''", simplified] c_locale_def [of "''isdigit''", simplified]
  c_locale_def [of "''islower''", simplified] c_locale_def [of "''isupper''", simplified] c_locale_def [of "''isspace''", simplified]
  c_locale_def [of "''ispunct''", simplified] c_locale_def [of "''isxdigit''", simplified] c_locale_def [of "''isblank''", simplified]
  c_locale_def [of "''isprint''", simplified]

text \<open>The bounds between which all the classes are constant.\<close>

lemma char_ranges:
  assumes "c < (128 :: nat)"
  obtains "c < 9" | "c = 9" | "c = 10" | "c = 11" | "c = 12" | "c = 13" | "14 \<le> c" "c < 32" | "c = 32" | "33 \<le> c" "c < 48"
    | "48 \<le> c" "c \<le> 57" | "58 \<le> c" "c < 65" | "65 \<le> c" "c \<le> 70" | "71 \<le> c" "c \<le> 90" | "91 \<le> c" "c < 97"
    | "97 \<le> c" "c \<le> 102" | "103 \<le> c" "c \<le> 122" | "123 \<le> c" "c < 127" | "c = 127"
proof -
  consider "c < 10" | "10 \<le> c" "c < 14" | "14 \<le> c" "c < 48" | "48 \<le> c" "c \<le> 90" | "91 \<le> c" using assms by linarith
  then show thesis
  proof cases
    case 1
    then consider "c < 9" | "c = 9" by linarith
    then show thesis by cases (erule that)+
  next
    case 2
    then consider "c = 10" | "c = 11" | "c = 12" | "c = 13" by linarith
    then show thesis by cases (erule that)+
  next
    case 3
    then consider "c < 32" | "c = 32" | "33 \<le> c" by linarith
    then show thesis using 3 by cases (erule (1) that | erule that)+
  next
    case 4
    then consider "c \<le> 57" | "58 \<le> c" "c < 65" | "65 \<le> c" "c \<le> 70" | "71 \<le> c" by linarith
    then show thesis using 4 by cases (erule (1) that | erule that)+
  next
    case 5
    then consider "c < 97" | "97 \<le> c" "c \<le> 102" | "103 \<le> c" "c \<le> 122" | "123 \<le> c" "c < 127" | "c = 127"
      using assms by linarith
    then show thesis using 5 by cases (erule (1) that | erule that)+
  qed
qed

text \<open>A chain of conditional flags, without repeating what was accumulated before.\<close>

lemma flag_step: "Let (if c then a OR k else a) F = F (a OR (if c then k else 0))" for a :: "'a::len word"
  by simp

lemma rune_bits_c_locale:
  assumes "c < 128"
  shows "ucast (shim_maskrune c_locale (of_nat c) (- 1)) = rune_bits (of_nat c)"
proof -
  note k = small_char [OF assms, of 9, simplified] small_char [OF assms, of 10, simplified] small_char [OF assms, of 11, simplified]
    small_char [OF assms, of 12, simplified] small_char [OF assms, of 13, simplified] small_char [OF assms, of 32, simplified]
    small_char [OF assms, of 33, simplified] small_char [OF assms, of 48, simplified] small_char [OF assms, of 57, simplified]
    small_char [OF assms, of 65, simplified] small_char [OF assms, of 70, simplified] small_char [OF assms, of 90, simplified]
    small_char [OF assms, of 97, simplified] small_char [OF assms, of 102, simplified] small_char [OF assms, of 122, simplified]
    small_char [OF assms, of 126, simplified] small_char [OF assms, of 127, simplified]
  have b: "(of_nat c :: i32) < 128" using assms by (simp add: word_less_nat_alt unsigned_of_nat take_bit_nat_eq_self)
  show ?thesis
    by (rule char_ranges [OF assms])
      (simp_all only: shim_maskrune_def rune_bits_def Let_0 flag_step b if_True, simp_all add: c_locale_simps k)
qed

lemma maskrune_mask: "shim_maskrune ctype c msk = shim_maskrune ctype c (- 1) AND ucast msk"
proof -
  have "ucast (- 1 :: u64) = (- 1 :: u32)" by (rule bit_word_eqI) (simp add: bit_simps)
  then show ?thesis by (simp only: shim_maskrune_def Let_0 flag_step Let_def [of "if _ then _ else _"] unsigned_and_eq and.right_neutral)
qed

lemma maskrune_locale:
  "(\<And>f. ctype f c = c_locale f c) \<Longrightarrow> shim_maskrune ctype c msk = shim_maskrune c_locale c msk"
  by (simp only: shim_maskrune_def)

lemma rune_entry:
  assumes "c < 256"
  shows "u32_from_le (take 4 (drop (0x3C + c * 4) (init_rune_locale (replicate 2048 0))))
      = (if c < 128 then rune_bits (of_nat c) else 0)"
proof -
  have "length (replicate 2048 0 :: u8 list) = 2048" "(128 :: nat) \<le> 256" by simp_all
  from rune_table [OF this, of "\<lambda>c. rune_bits (of_nat c)"] assms
  have "take 4 (drop (0x3C + c * 4) (init_rune_locale (replicate 2048 0)))
      = (if c < 128 then le_bytes32 (rune_bits (of_nat c)) else take 4 (drop (0x3C + c * 4) (replicate 2048 0)))"
    unfolding init_rune_locale_def by blast
  moreover have "take 4 (drop (0x3C + c * 4) (replicate 2048 0)) = replicate 4 (0 :: u8)"
    using assms by (simp add: drop_replicate take_replicate)
  moreover have "replicate 4 (0 :: u8) = le_bytes32 0" by (simp add: le_bytes32_def numeral_eq_Suc)
  ultimately show ?thesis by simp
qed

text \<open>
  Two answers to one question. A program classifies a character either with a macro that
  reads the table of the rune locale or by calling \<open>___maskrune\<close>. For the 256 characters the
  table holds and for any mask, the two agree, where the host runs in the C locale.
\<close>

theorem rune_table_agrees:
  assumes "c < 256" and "\<And>f. ctype f (of_nat c) = c_locale f (of_nat c)"
  shows "u32_from_le (take 4 (drop (0x3C + c * 4) (init_rune_locale (replicate 2048 0)))) AND ucast msk
    = shim_maskrune ctype (of_nat c) msk"
proof (cases "c < 128")
  case True
  have "shim_maskrune ctype (of_nat c) msk = shim_maskrune c_locale (of_nat c) (- 1) AND ucast msk"
    unfolding maskrune_locale [where ctype = ctype, OF assms(2)] by (rule maskrune_mask)
  also have "shim_maskrune c_locale (of_nat c) (- 1) = rune_bits (of_nat c)"
    using rune_bits_c_locale [OF True] by simp
  finally show ?thesis using rune_entry [OF assms(1)] True by simp
next
  case False
  then have "\<not> (of_nat c :: i32) < 128"
    using assms(1) by (simp add: word_less_nat_alt unsigned_of_nat take_bit_nat_eq_self)
  then have "shim_maskrune ctype (of_nat c) msk = 0" by (simp only: shim_maskrune_def Let_0 if_False) simp
  then show ?thesis using rune_entry [OF assms(1)] False by simp
qed

theorem rune_table_agrees_witness:
  "u32_from_le (take 4 (drop (0x3C + 66 * 4) (init_rune_locale (replicate 2048 0)))) AND ucast (0x100 :: u64)
    = shim_maskrune c_locale 66 0x100"
  using rune_table_agrees [where c = 66 and ctype = c_locale and msk = "0x100"] by simp

section \<open>Filling memory with a pattern\<close>

text \<open>The loop of \<open>shim_memset_pattern16\<close>; \<open>i\<close> wraps with the width of \<open>usize\<close>.\<close>

partial_function (option) pattern_loop :: "ptr \<Rightarrow> ptr \<Rightarrow> u64 \<Rightarrow> u64 \<Rightarrow> mem \<Rightarrow> mem option" where
  "pattern_loop dst pattern count i m =
     (if i < count
      then let chunk = (if count - i \<ge> 16 then 16 else count - i)
           in pattern_loop dst pattern count (i + 16) (store_bytes m (dst + i) (load_bytes m pattern (unat chunk)))
      else Some m)"

definition shim_memset_pattern16 :: "ptr \<Rightarrow> ptr \<Rightarrow> u64 \<Rightarrow> mem \<Rightarrow> mem option" where
  "shim_memset_pattern16 dst pattern count m = pattern_loop dst pattern count 0 m"

lemma unat_diff_step:
  assumes "unat (i :: u64) + 16 \<le> 2 ^ 64"
  shows "unat i \<le> unat y \<Longrightarrow> unat (y - i) = unat y - unat i" and "unat y < unat i \<Longrightarrow> 16 \<le> unat (y - i)"
proof -
  show "unat i \<le> unat y \<Longrightarrow> unat (y - i) = unat y - unat i" by (simp add: unat_sub word_le_nat_alt)
  assume y: "unat y < unat i"
  show "16 \<le> unat (y - i)"
  proof (rule ccontr)
    assume n: "\<not> 16 \<le> unat (y - i)"
    then have "unat (y - i + i) = unat (y - i) + unat i"
      using assms by (intro unat_add_lem [THEN iffD1]) simp
    then show False using y by simp
  qed
qed

text \<open>What the loop leaves from offset \<open>i\<close> on: byte \<open>j\<close> of the pattern at every offset \<open>j\<close> modulo 16.\<close>

definition pattern_from :: "ptr \<Rightarrow> ptr \<Rightarrow> u64 \<Rightarrow> nat \<Rightarrow> mem \<Rightarrow> mem" where
  "pattern_from dst pattern count i m = (\<lambda>x.
     if i \<le> unat (x - dst) \<and> unat (x - dst) < unat count then m (pattern + of_nat (unat (x - dst) mod 16)) else m x)"

lemma mod_block: "i mod 16 = 0 \<Longrightarrow> i \<le> k \<Longrightarrow> k < i + 16 \<Longrightarrow> k - i = k mod (16 :: nat)"
proof -
  assume a: "i mod 16 = 0" "i \<le> k" "k < i + 16"
  have "k mod 16 = (i mod 16 + (k - i)) mod 16" using a(2) by (simp only: mod_add_left_eq le_add_diff_inverse)
  then show ?thesis using a by simp
qed

lemma pattern_loop_spec:
  assumes "unat count + 16 \<le> 2 ^ 64" and "apart dst (unat count) pattern 16"
  shows "unat i mod 16 = 0 \<Longrightarrow> pattern_loop dst pattern count i m = Some (pattern_from dst pattern count (unat i) m)"
proof (induction "unat count - unat i" arbitrary: i m rule: less_induct)
  case less
  show ?case
  proof (cases "i < count")
    case False
    then have "\<not> (unat i \<le> unat y \<and> unat y < unat count)" for y :: u64 by (simp add: word_less_nat_alt)
    then show ?thesis using False by (simp only: pattern_loop.simps [of dst pattern count i] pattern_from_def if_False)
  next
    case True
    define n where "n = unat (if count - i \<ge> 16 then 16 else count - i)"
    define m1 where "m1 = store_bytes m (dst + i) (load_bytes m pattern n)"
    have u: "unat i < unat count" using True by (simp add: word_less_nat_alt)
    have d: "unat (count - i) = unat count - unat i" using u by (intro unat_diff_step) (use assms(1) in simp_all)
    have n: "n = min 16 (unat count - unat i)" by (simp add: n_def d word_le_nat_alt min_def)
    have i16: "unat (i + 16) = unat i + 16" using assms(1) u by (simp add: unat_word_ariths)
    define g where "g j = m (pattern + of_nat j)" for j
    have m1: "m1 x = (if unat i \<le> unat (x - dst) \<and> unat (x - dst) < unat i + n then g (unat (x - dst) mod 16) else m x)" for x
    proof -
      have "m1 x = (if unat (x - dst - i) < n then g (unat (x - dst - i)) else m x)"
        unfolding m1_def store_bytes_def load_bytes_def g_def by (simp add: diff_diff_add [symmetric])
      moreover have "unat (x - dst) - unat i = unat (x - dst) mod 16" if "unat i \<le> unat (x - dst)" "unat (x - dst) < unat i + n"
        using less.prems that n by (intro mod_block) simp_all
      ultimately show ?thesis
        using unat_diff_step [of i "x - dst"] assms(1) u n by (cases "unat i \<le> unat (x - dst)") auto
    qed
    have p: "m1 (pattern + of_nat j) = m (pattern + of_nat j)" if "j < 16" for j
    proof -
      have "\<not> unat (pattern + of_nat j - dst) < unat count"
      proof
        assume "unat (pattern + of_nat j - dst) < unat count"
        then have "dst + of_nat (unat (pattern + of_nat j - dst)) \<noteq> pattern + of_nat j"
          using assms(2) that unfolding apart_def by blast
        then show False by simp
      qed
      then show ?thesis using m1 n u by auto
    qed
    have "pattern_loop dst pattern count i m = pattern_loop dst pattern count (i + 16) m1"
      using True by (simp add: pattern_loop.simps [of dst pattern count i] m1_def n_def Let_def)
    also have "\<dots> = Some (pattern_from dst pattern count (unat (i + 16)) m1)"
      using less.prems u by (intro less.hyps) (simp_all add: i16)
    also have "pattern_from dst pattern count (unat (i + 16)) m1 = pattern_from dst pattern count (unat i) m"
    proof
      fix x
      have "m1 (pattern + of_nat (unat (x - dst) mod 16)) = g (unat (x - dst) mod 16)"
        unfolding g_def by (rule p) simp
      then show "pattern_from dst pattern count (unat (i + 16)) m1 x = pattern_from dst pattern count (unat i) m x"
        unfolding pattern_from_def i16 g_def [symmetric] using m1 [of x] n u by auto
    qed
    finally show ?thesis .
  qed
qed

text \<open>
  \<open>memset_pattern16\<close> returns, and has then filled the buffer with copies of the sixteen bytes
  of the pattern, the last one cut off where the buffer ends, and written nothing else. The
  buffer may not overlap the pattern.
\<close>

theorem pattern16_fills:
  assumes "unat count + 16 \<le> 2 ^ 64" and "apart dst (unat count) pattern 16"
  shows "\<exists>m'. shim_memset_pattern16 dst pattern count m = Some m'
    \<and> (\<forall>x. m' x = (if unat (x - dst) < unat count then m (pattern + of_nat (unat (x - dst) mod 16)) else m x))"
  using pattern_loop_spec [OF assms, of 0 m] by (simp add: shim_memset_pattern16_def pattern_from_def)

theorem pattern16_fills_witness:
  "\<exists>m'. shim_memset_pattern16 0x1000 0x2000 20 (\<lambda>x. ucast x) = Some m' \<and> m' 0x1013 = 3 \<and> m' 0x1014 = 0x14"
proof -
  have "unat (20 :: u64) + 16 \<le> 2 ^ 64" "apart 0x1000 (unat (20 :: u64)) 0x2000 16"
    by (simp, rule apartI_below, simp, simp)
  from pattern16_fills [OF this, of "\<lambda>x. ucast x"] obtain m' where
    "shim_memset_pattern16 0x1000 0x2000 20 (\<lambda>x. ucast x) = Some m'"
    and m: "\<And>x. m' x = (if unat (x - 0x1000) < unat (20 :: u64) then ucast ((0x2000 :: u64) + of_nat (unat (x - 0x1000) mod 16))
      else ucast x)"
    by blast
  moreover have "m' 0x1013 = 3" "m' 0x1014 = 0x14" by (simp_all add: m)
  ultimately show ?thesis by blast
qed

end
