(* ===== verification/ShimProcess.thy ===== *)
theory ShimProcess
  imports ShimData ObjcRuntime
begin

text \<open>
  \<open>crates/grafted-dyld/src/shims.rs\<close>: what a program learns of its process and of the system
  (its path, its arguments, directory entries, addresses, \<open>sysctl\<close>), its thread-local variables,
  the start of its threads and its ports.
\<close>

section \<open>The path of the executable\<close>

text \<open>\<open>NXARGV\<close> is given by the strings it points to.\<close>

record process_info =
  EXECUTABLE_PATH :: "u8 list"
  NXARGC :: i32
  NXARGV :: "u8 list list"

definition set_process_info :: "u8 list \<Rightarrow> u8 list list \<Rightarrow> process_info \<Rightarrow> process_info" where
  "set_process_info binary_path argv p =
     (let len = min (length binary_path) 1023;
          ep = put_slice (EXECUTABLE_PATH p) 0 (take len binary_path)
      in p\<lparr>EXECUTABLE_PATH := ep[len := 0],
           NXARGV := map (\<lambda>arg. if 0 \<in> set arg then [] else arg) argv,
           NXARGC := of_nat (length argv)\<rparr>)"

definition shim_nsgetexecutablepath :: "process_info \<Rightarrow> ptr \<Rightarrow> ptr \<Rightarrow> mem \<Rightarrow> i32 \<times> mem" where
  "shim_nsgetexecutablepath p buf bufsize m =
     (let len = length (takeWhile (\<lambda>b. b \<noteq> 0) (take 1024 (EXECUTABLE_PATH p)));
          avail = unat (load32 m bufsize)
      in if len + 1 > avail then (- 1, store32 m bufsize (of_nat (len + 1)))
         else (0, store32 (store_bytes m buf (take (len + 1) (EXECUTABLE_PATH p))) bufsize (of_nat len)))"

lemma cstr_from_store32_apart:
  assumes "apart a (length s + 1) b 4" and "0 \<notin> set s"
  shows "cstr_from (store32 (store_bytes m a (s @ [0])) b v) a = Some s"
proof (rule cstr_from_stored [OF _ _ assms(2)])
  have bound: "length s + 1 \<le> 2 ^ 64"
  proof (rule ccontr)
    assume "\<not> length s + 1 \<le> 2 ^ 64"
    moreover have "unat (b - a) < 2 ^ 64" by (rule unat_u64_lt)
    ultimately have "unat (b - a) < length s + 1" by (simp only: not_le)
    then have "a + of_nat (unat (b - a)) \<noteq> b + of_nat 0" by (rule apartD [OF assms(1)]) simp
    then show False by simp
  qed
  have other: "store32 m' b v (a + of_nat i) = m' (a + of_nat i)" if "i < length s + 1" for m' i
  proof -
    have "\<not> unat (a + of_nat i - b) < 4"
    proof
      assume "unat (a + of_nat i - b) < 4"
      then have "a + of_nat i \<noteq> b + of_nat (unat (a + of_nat i - b))" by (rule apartD [OF assms(1) that])
      then show False by simp
    qed
    then show ?thesis by (simp add: store32_def store_bytes_def)
  qed
  have "store_bytes m a (s @ [0]) (a + of_nat i) = (s @ [0]) ! i" if "i < length s + 1" for i
    using that bound by (simp add: store_bytes_def unat_of_nat_u64)
  then show "\<forall>i < length s. store32 (store_bytes m a (s @ [0])) b v (a + of_nat i) = s ! i"
    and "store32 (store_bytes m a (s @ [0])) b v (a + of_nat (length s)) = 0"
    using other by (simp_all add: nth_append)
qed

lemma stored_path:
  assumes "length path \<le> 1023" and "length (EXECUTABLE_PATH p) = 1024" and "0 \<notin> set path"
  shows "takeWhile (\<lambda>b. b \<noteq> 0) (take 1024 (EXECUTABLE_PATH (set_process_info path argv p))) = path"
    and "take (length path + 1) (EXECUTABLE_PATH (set_process_info path argv p)) = path @ [0]"
proof -
  obtain x r where r: "drop (length path) (EXECUTABLE_PATH p) = x # r"
    using assms(1,2) by (cases "drop (length path) (EXECUTABLE_PATH p)") auto
  then have "EXECUTABLE_PATH (set_process_info path argv p) = path @ 0 # r"
    using assms(1) by (simp add: set_process_info_def put_slice_def Let_def list_update_append)
  moreover have "length (path @ 0 # r) = 1024"
    using arg_cong [OF r, of length] assms(1,2) by simp
  ultimately show "takeWhile (\<lambda>b. b \<noteq> 0) (take 1024 (EXECUTABLE_PATH (set_process_info path argv p))) = path"
    and "take (length path + 1) (EXECUTABLE_PATH (set_process_info path argv p)) = path @ [0]"
    using assms(3) by (auto simp: takeWhile_append)
qed

lemma nsgetexecutablepath_stored:
  assumes "length path \<le> 1023" and "length (EXECUTABLE_PATH p) = 1024" and "0 \<notin> set path"
  shows "shim_nsgetexecutablepath (set_process_info path argv p) buf bufsize m =
     (if length path < unat (load32 m bufsize)
      then (0, store32 (store_bytes m buf (path @ [0])) bufsize (of_nat (length path)))
      else (- 1, store32 m bufsize (of_nat (length path + 1))))"
  unfolding shim_nsgetexecutablepath_def Let_def stored_path [OF assms] by simp

text \<open>
  A program finds its own path. After \<open>set_process_info\<close> with a path of at most 1023 bytes,
  \<open>_NSGetExecutablePath\<close> succeeds exactly when the buffer holds the path and its NUL, and then
  the buffer holds them. When it fails it reports a size, and the same call with a buffer of that
  size succeeds. But the size it reports on success is one too small: a call that takes it as
  the size of the buffer fails.
\<close>

theorem executable_path_known:
  assumes "length path \<le> 1023" and "length (EXECUTABLE_PATH p) = 1024" and "0 \<notin> set path"
    and "apart buf (length path + 1) bufsize 4"
    and "shim_nsgetexecutablepath (set_process_info path argv p) buf bufsize m = (r, m1)"
    and "shim_nsgetexecutablepath (set_process_info path argv p) buf bufsize m1 = (r2, m2)"
  shows "(r = 0 \<longleftrightarrow> length path < unat (load32 m bufsize))
    \<and> (r = 0 \<longrightarrow> cstr_from m1 buf = Some path \<and> r2 = - 1)
    \<and> (r \<noteq> 0 \<longrightarrow> r2 = 0 \<and> cstr_from m2 buf = Some path)"
proof (cases "length path < unat (load32 m bufsize)")
  case True
  then have r: "r = 0" "m1 = store32 (store_bytes m buf (path @ [0])) bufsize (of_nat (length path))"
    using assms(5) by (simp_all add: nsgetexecutablepath_stored [OF assms(1-3)])
  then have "\<not> length path < unat (load32 m1 bufsize)" using assms(1) by (simp add: unat_of_nat_u32)
  then have "r2 = - 1" using assms(6) by (simp add: nsgetexecutablepath_stored [OF assms(1-3)])
  then show ?thesis using True r cstr_from_store32_apart [OF assms(4,3)] by simp
next
  case False
  then have r: "r = - 1" "m1 = store32 m bufsize (of_nat (length path + 1))"
    using assms(5) by (simp_all add: nsgetexecutablepath_stored [OF assms(1-3)])
  have "unat (of_nat (length path + 1) :: u32) = length path + 1"
    using assms(1) by (intro unat_of_nat_u32) simp
  then have "length path < unat (load32 m1 bufsize)" unfolding r(2) load32_store32_same by simp
  then have "r2 = 0" "m2 = store32 (store_bytes m1 buf (path @ [0])) bufsize (of_nat (length path))"
    using assms(6) by (simp_all add: nsgetexecutablepath_stored [OF assms(1-3)])
  then show ?thesis using False r cstr_from_store32_apart [OF assms(4,3)] by simp
qed

definition demo_process :: process_info where
  "demo_process = \<lparr>EXECUTABLE_PATH = replicate 1024 0, NXARGC = 0, NXARGV = []\<rparr>"

theorem executable_path_known_witness:
  "\<exists>m1 m2. shim_nsgetexecutablepath (set_process_info [0x2F, 0x61] [] demo_process) 0x1000 0x2000 (\<lambda>_. 0) = (- 1, m1)
    \<and> shim_nsgetexecutablepath (set_process_info [0x2F, 0x61] [] demo_process) 0x1000 0x2000 m1 = (0, m2)
    \<and> cstr_from m2 0x1000 = Some [0x2F, 0x61]"
proof -
  let ?call = "shim_nsgetexecutablepath (set_process_info [0x2F, 0x61] [] demo_process) 0x1000 0x2000"
  obtain r m1 where 1: "?call (\<lambda>_. 0) = (r, m1)" by fastforce
  obtain r2 m2 where 2: "?call m1 = (r2, m2)" by fastforce
  have "length [0x2F, 0x61 :: u8] \<le> 1023" "length (EXECUTABLE_PATH demo_process) = 1024" "0 \<notin> set [0x2F, 0x61 :: u8]"
    "apart 0x1000 (length [0x2F, 0x61 :: u8] + 1) 0x2000 4"
    by (simp_all add: demo_process_def) (rule apartI_below, simp_all)
  note t = executable_path_known [OF this 1 2]
  have "load32 (\<lambda>_. 0) 0x2000 = 0" by (simp add: load32_def u32_from_le_def load_bytes_unfold)
  then have "r \<noteq> 0" using t by simp
  moreover from this have "r = - 1" using 1 unfolding shim_nsgetexecutablepath_def Let_def by (auto split: if_splits)
  ultimately show ?thesis using t 1 2 by auto
qed

section \<open>Directory entries\<close>

text \<open>The length of a name, looking at \<open>n\<close> bytes at most.\<close>

fun name_len :: "mem \<Rightarrow> ptr \<Rightarrow> nat \<Rightarrow> nat" where
  "name_len m p 0 = 0"
| "name_len m p (Suc n) = (if m p \<noteq> 0 then Suc (name_len m (p + 1) n) else 0)"

definition store16 :: "mem \<Rightarrow> u64 \<Rightarrow> u16 \<Rightarrow> mem" where
  "store16 m a v = store_bytes m a (le_bytes16 v)"

text \<open>
  \<open>buf\<close> is the address of \<open>DARWIN_DIRENT_BUF\<close>: \<open>d_ino\<close> at 0, \<open>d_seekoff\<close> 8, \<open>d_reclen\<close> 16,
  \<open>d_namlen\<close> 18, \<open>d_type\<close> 20, \<open>d_name\<close> 21. Linux has \<open>d_ino\<close> at 0, \<open>d_type\<close> at 18, \<open>d_name\<close> at 19.
\<close>

definition darwin_dirent :: "ptr \<Rightarrow> ptr \<Rightarrow> mem \<Rightarrow> mem" where
  "darwin_dirent buf ent m =
     (let m = store64 m buf (load64 m ent);
          m = store64 m (buf + 8) 0;
          m = m(buf + 20 := m (ent + 18));
          len = name_len m (ent + 19) 1023;
          m = store16 m (buf + 18) (of_nat len);
          m = store16 m (buf + 16) (of_nat (21 + len + 1));
          m = store_bytes m (buf + 21) (load_bytes m (ent + 19) len)
      in m(buf + 21 + of_nat len := 0))"

definition shim_readdir :: "'k libc \<Rightarrow> shim_env \<Rightarrow> ptr \<Rightarrow> ptr \<Rightarrow> mem \<times> 'k \<Rightarrow> ptr \<times> mem \<times> 'k" where
  "shim_readdir H e buf dirp w =
     (case gated e (call H ''readdir'' [dirp]) w of
        (ent, m, k) \<Rightarrow> if ent = 0 then (0, m, k) else (buf, darwin_dirent buf ent m, k))"

lemma name_len_cstr: "cstr_from m p = Some s \<Longrightarrow> length s \<le> n \<Longrightarrow> name_len m p n = length s"
proof (induction n arbitrary: p s)
  case (Suc n)
  then show ?case
    by (cases s) (auto simp: cstr_from.simps [of m p] bind_eq_Some_conv split: if_splits)
qed simp

text \<open>Memory that agrees on a string, NUL included, reads the same.\<close>

lemma cstr_from_agree:
  assumes "cstr_from m a = Some s" and "\<And>i. i \<le> length s \<Longrightarrow> m' (b + of_nat i) = m (a + of_nat i)"
  shows "cstr_from m' b = Some s"
  using cstr_from_bytes [OF assms(1)] cstr_from_no_nul [OF assms(1)] assms(2)
  by (intro cstr_from_stored) simp_all

lemma store16_outside: "2 \<le> unat (x - a) \<Longrightarrow> store16 m a v x = m x"
  by (simp add: store16_def store_bytes_outside)

lemma upd_store: "m(x := v) = store_bytes m x [v]"
proof
  fix y
  have "(unat (y - x) = 0) = (y = x)" by (simp only: unat_eq_zero right_minus_eq)
  then show "(m(x := v)) y = store_bytes m x [v] y" by (simp add: store_bytes_def)
qed

text \<open>A field of a structure is not touched by a store to another one.\<close>

lemma load_skip:
  assumes "e + n \<le> d \<or> d + length bs \<le> e" and "d + length bs < 2 ^ 64" and "e + n \<le> 2 ^ 64"
  shows "load_bytes (store_bytes m (p + of_nat d) bs) (p + of_nat e) n = load_bytes m (p + of_nat e) n"
  using assms by (intro load_store_apart apart_fields) auto

text \<open>Nor is memory outside the structure.\<close>

lemma store_inside:
  assumes "k \<le> unat (x - p)" and "d + length bs \<le> k" and "k < 2 ^ 64"
  shows "store_bytes m (p + of_nat d) bs x = m x"
proof -
  have d: "unat (of_nat d :: u64) = d" using assms(2,3) by (intro unat_of_nat_u64) simp
  have "x - (p + of_nat d) = x - p - of_nat d" by simp
  then have "unat (x - (p + of_nat d)) = unat (x - p) - d"
    using assms(1,2) d by (simp only: unat_sub word_le_nat_alt)
  then show ?thesis using assms(1,2) by (intro store_bytes_outside) simp
qed

text \<open>The record as one list of stores at offsets.\<close>

definition store_fields :: "mem \<Rightarrow> ptr \<Rightarrow> (nat \<times> u8 list) list \<Rightarrow> mem" where
  "store_fields m p fs = foldl (\<lambda>m (d, bs). store_bytes m (p + of_nat d) bs) m fs"

lemma store_fields_outside:
  assumes "k \<le> unat (x - p)" and "k < 2 ^ 64" and "\<forall>(d, bs) \<in> set fs. d + length bs \<le> k"
  shows "store_fields m p fs x = m x"
  using assms(3)
proof (induction fs arbitrary: m)
  case (Cons f fs)
  obtain d bs where f: "f = (d, bs)" by (cases f)
  have "store_bytes m (p + of_nat d) bs x = m x"
    using Cons.prems assms(1,2) f by (intro store_inside [where k = k]) auto
  then show ?case using Cons f by (simp add: store_fields_def)
qed (simp add: store_fields_def)

lemma load_store_fields:
  assumes "\<forall>(d', bs') \<in> set gs. d + length bs \<le> d' \<or> d' + length bs' \<le> d"
    and "\<forall>(d', bs') \<in> set gs. d' + length bs' < 2 ^ 64" and "d + length bs < 2 ^ 64"
  shows "load_bytes (store_fields m p (fs @ (d, bs) # gs)) (p + of_nat d) (length bs) = bs"
  using assms(1,2)
proof (induction gs rule: rev_induct)
  case Nil
  show ?case using assms(3) by (simp add: store_fields_def load_store_same)
next
  case (snoc g gs)
  obtain d' bs' where g: "g = (d', bs')" by (cases g)
  let ?m = "store_fields m p (fs @ (d, bs) # gs)"
  have "load_bytes (store_bytes ?m (p + of_nat d') bs') (p + of_nat d) (length bs) = load_bytes ?m (p + of_nat d) (length bs)"
    using snoc.prems g assms(3) by (intro load_skip) auto
  moreover have "store_fields m p (fs @ (d, bs) # gs @ [g]) = store_bytes ?m (p + of_nat d') bs'"
    by (simp add: store_fields_def g)
  ultimately show ?case using snoc by simp
qed

lemma darwin_dirent_fields:
  assumes "apart buf 1048 ent (20 + length s)" and "cstr_from m (ent + 19) = Some s" and "length s \<le> 1023"
  shows "darwin_dirent buf ent m = store_fields m buf
     [(0, le_bytes64 (load64 m ent)), (8, le_bytes64 0), (20, [m (ent + 18)]), (18, le_bytes16 (of_nat (length s))),
      (16, le_bytes16 (of_nat (21 + length s + 1))), (21, s), (21 + length s, [0])]"
proof -
  have out: "1048 \<le> unat (ent + of_nat i - buf)" if "i < 20 + length s" for i
  proof (rule ccontr)
    assume "\<not> 1048 \<le> unat (ent + of_nat i - buf)"
    then have "buf + of_nat (unat (ent + of_nat i - buf)) \<noteq> ent + of_nat i"
      using that by (intro apartD [OF assms(1)]) simp_all
    then show False by simp
  qed
  have keep: "store_fields m buf fs (ent + of_nat i) = m (ent + of_nat i)"
    if "i < 20 + length s" "\<forall>(d, bs) \<in> set fs. d + length bs \<le> 1048" for i fs
    using out [OF that(1)] that(2) by (intro store_fields_outside [where k = 1048]) simp_all
  let ?f1 = "[(0, le_bytes64 (load64 m ent)), (8, le_bytes64 0)]"
  have e18: "store_fields m buf ?f1 (ent + 18) = m (ent + 18)" using keep [of 18 ?f1] by simp
  let ?f3 = "?f1 @ [(20, [m (ent + 18)])]"
  have "cstr_from (store_fields m buf ?f3) (ent + 19) = Some s"
  proof (rule cstr_from_agree [OF assms(2)])
    fix i assume "i \<le> length s"
    then show "store_fields m buf ?f3 (ent + 19 + of_nat i) = m (ent + 19 + of_nat i)"
      using keep [of "19 + i" ?f3] by (simp add: add.assoc)
  qed
  then have n: "name_len (store_fields m buf ?f3) (ent + 19) 1023 = length s" using assms(3) by (rule name_len_cstr)
  let ?f5 = "?f3 @ [(18, le_bytes16 (of_nat (length s))), (16, le_bytes16 (of_nat (21 + length s + 1)))]"
  have "load_bytes (store_fields m buf ?f5) (ent + 19) (length s) = s"
  proof (rule nth_equalityI)
    fix i assume "i < length (load_bytes (store_fields m buf ?f5) (ent + 19) (length s))"
    then have i: "i < length s" by simp
    then have "store_fields m buf ?f5 (ent + of_nat (19 + i)) = m (ent + of_nat (19 + i))" by (intro keep) auto
    then show "load_bytes (store_fields m buf ?f5) (ent + 19) (length s) ! i = s ! i"
      using i cstr_from_bytes [OF assms(2)] by (simp add: load_bytes_def add.assoc)
  qed simp
  then show ?thesis
    using e18 n unfolding darwin_dirent_def Let_def upd_store store64_def store16_def
    by (simp add: store_fields_def add.assoc)
qed

text \<open>
  \<open>readdir\<close> hands over the entry the host has read. The program finds the name, its length,
  the inode and the kind of the entry at Darwin's offsets, for every name of up to 1023 bytes;
  the record length covers the header, the name and its NUL; when the host has no entry left the
  program is told so, and nothing is written but the selector.
\<close>

theorem readdir_translates:
  assumes "call H ''readdir'' [dirp] (selector_allow e m, k) = (ent, m1, k1)"
    and "shim_readdir H e buf dirp (m, k) = (r, m2, k2)"
    and "ent \<noteq> 0 \<Longrightarrow> cstr_from (selector_block e m1) (ent + 19) = Some name"
    and "apart buf 1048 ent (20 + length name)" and "length name \<le> 1023"
  shows "k2 = k1 \<and> (ent = 0 \<longrightarrow> r = 0 \<and> m2 = selector_block e m1)
    \<and> (ent \<noteq> 0 \<longrightarrow> r = buf \<and> cstr_from m2 (buf + 21) = Some name \<and> load16 m2 (buf + 18) = of_nat (length name)
      \<and> load16 m2 (buf + 16) = of_nat (22 + length name) \<and> load64 m2 buf = load64 (selector_block e m1) ent
      \<and> m2 (buf + 20) = selector_block e m1 (ent + 18)
      \<and> (\<forall>x. 1048 \<le> unat (x - buf) \<longrightarrow> m2 x = selector_block e m1 x))"
proof (cases "ent = 0")
  case True
  then show ?thesis using assms(1,2) by (simp add: shim_readdir_def gated_def)
next
  case False
  let ?m = "selector_block e m1"
  let ?fs = "[(0, le_bytes64 (load64 ?m ent)), (8, le_bytes64 0), (20, [?m (ent + 18)]), (18, le_bytes16 (of_nat (length name))),
      (16, le_bytes16 (of_nat (21 + length name + 1))), (21, name), (21 + length name, [0])]"
  have "m2 = darwin_dirent buf ent ?m" and r: "r = buf" "k2 = k1"
    using False assms(1,2) by (auto simp: shim_readdir_def gated_def)
  then have m2: "m2 = store_fields ?m buf ?fs"
    by (simp only: darwin_dirent_fields [OF assms(4) assms(3) [OF False] assms(5)])
  have f: "load_bytes m2 (buf + of_nat d) (length bs) = bs"
    if "?fs = fs @ (d, bs) # gs" "\<forall>(d', bs') \<in> set gs. d + length bs \<le> d' \<or> d' + length bs' \<le> d" for fs d bs gs
  proof -
    have "\<forall>(d, bs) \<in> set ?fs. d + length bs < 2 ^ 64" using assms(5) by auto
    then show ?thesis
      unfolding m2 that(1) using that(2) by (intro load_store_fields) auto
  qed
  have ino: "load_bytes m2 (buf + of_nat 0) (length (le_bytes64 (load64 ?m ent))) = le_bytes64 (load64 ?m ent)"
    by (rule f [of "[]"]) auto
  have type: "load_bytes m2 (buf + of_nat 20) (length [?m (ent + 18)]) = [?m (ent + 18)]"
    by (rule f [of "take 2 ?fs"]) auto
  have namlen: "load_bytes m2 (buf + of_nat 18) (length (le_bytes16 (of_nat (length name)))) = le_bytes16 (of_nat (length name))"
    by (rule f [of "take 3 ?fs"]) auto
  have reclen: "load_bytes m2 (buf + of_nat 16) (length (le_bytes16 (of_nat (21 + length name + 1))))
      = le_bytes16 (of_nat (21 + length name + 1))"
    by (rule f [of "take 4 ?fs"]) auto
  have name: "load_bytes m2 (buf + of_nat 21) (length name) = name"
    by (rule f [of "take 5 ?fs"]) auto
  have nul: "load_bytes m2 (buf + of_nat (21 + length name)) (length [0 :: u8]) = [0]"
    by (rule f [of "take 6 ?fs"]) auto
  have "m2 (buf + 21 + of_nat i) = name ! i" if "i < length name" for i
    using arg_cong [OF name, of "\<lambda>l. l ! i"] that by (simp add: load_bytes_def)
  moreover have "m2 (buf + 21 + of_nat (length name)) = 0"
    using nul by (simp add: load_bytes_def add.assoc)
  ultimately have "cstr_from m2 (buf + 21) = Some name"
    using cstr_from_no_nul [OF assms(3) [OF False]] by (intro cstr_from_stored) simp_all
  moreover have "m2 x = ?m x" if "1048 \<le> unat (x - buf)" for x
    unfolding m2 using that assms(5) by (intro store_fields_outside [where k = 1048]) auto
  moreover have "load64 m2 buf = load64 ?m ent" using ino by (simp add: load64_def)
  moreover have "load16 m2 (buf + 18) = of_nat (length name)" using namlen by (simp add: load16_def)
  moreover have "load16 m2 (buf + 16) = of_nat (22 + length name)" using reclen by (simp add: load16_def)
  moreover have "m2 (buf + 20) = ?m (ent + 18)" using type by (simp add: load_bytes_def)
  ultimately show ?thesis using False r by simp
qed

text \<open>A host whose directory holds one entry, \<open>a\<close>, kind 8, inode 77, at 4000.\<close>

definition dir_host :: "unit libc" where
  "dir_host = \<lparr>sys = \<lambda>nr args w. (0, w), call = \<lambda>f args w. (0x4000, w)\<rparr>"

definition dir_mem :: mem where
  "dir_mem = store_fields (\<lambda>_. 0) 0x4000 [(0, le_bytes64 77), (18, [8, 0x61, 0])]"

definition dir_env :: shim_env where
  "dir_env = \<lparr>selector = 0, errno_loc = 0x5000, ERRNO_VALUE = 0x6000, scratch = 0x7000, literal = \<lambda>_. 0x8000\<rparr>"

theorem readdir_translates_witness:
  "\<exists>m2. shim_readdir dir_host dir_env 0x1000 1 (dir_mem, ()) = (0x1000, m2, ())
    \<and> cstr_from m2 (0x1000 + 21) = Some [0x61] \<and> load16 m2 (0x1000 + 18) = 1 \<and> m2 (0x1000 + 20) = 8"
proof -
  have s: "selector_allow dir_env m = m" "selector_block dir_env m = m" for m
    by (simp_all add: selector_allow_def selector_block_def dir_env_def)
  have h: "call dir_host ''readdir'' [1] (selector_allow dir_env dir_mem, ()) = (0x4000, dir_mem, ())"
    by (simp add: dir_host_def s)
  obtain r m2 k2 where r: "shim_readdir dir_host dir_env 0x1000 1 (dir_mem, ()) = (r, m2, k2)" by (metis prod_cases3)
  have b: "dir_mem (0x4000 + 18) = 8" "dir_mem (0x4000 + 19) = 0x61" "dir_mem (0x4000 + 19 + 1) = 0"
    by (simp_all add: dir_mem_def store_fields_def store_bytes_def)
  have n: "cstr_from (selector_block dir_env dir_mem) (0x4000 + 19) = Some [0x61]"
    using b by (simp add: s cstr_from.simps)
  have "apart 0x1000 1048 0x4000 (20 + length [0x61 :: u8])" by (rule apartI_below) simp_all
  from readdir_translates [OF h r n this] show ?thesis using r b by (simp add: s)
qed

section \<open>Addresses\<close>

text \<open>
  A node of the host's list: \<open>ai_addr\<close> at 24, \<open>ai_canonname\<close> at 32, \<open>ai_next\<close> at 40. Darwin has
  the first two the other way round. \<open>fuel\<close> bounds the nodes visited.
\<close>

definition swap_node :: "ptr \<Rightarrow> mem \<Rightarrow> mem" where
  "swap_node cur m =
     (let addr = load64 m (cur + 24); canon = load64 m (cur + 32)
      in store64 (store64 m (cur + 24) canon) (cur + 32) addr)"

fun swap_list :: "nat \<Rightarrow> ptr \<Rightarrow> mem \<Rightarrow> mem option" where
  "swap_list fuel cur m =
     (if cur = 0 then Some m
      else case fuel of
        0 \<Rightarrow> None
      | Suc n \<Rightarrow> let m = swap_node cur m in swap_list n (load64 m (cur + 40)) m)"

definition shim_getaddrinfo ::
    "nat \<Rightarrow> 'k libc \<Rightarrow> shim_env \<Rightarrow> ptr \<Rightarrow> ptr \<Rightarrow> ptr \<Rightarrow> ptr \<Rightarrow> mem \<times> 'k \<Rightarrow> (i32 \<times> mem \<times> 'k) option" where
  "shim_getaddrinfo fuel H e node service hints res w =
     (case gated e (call32 H ''getaddrinfo'' [node, service, hints, res]) w of
        (ret, m, k) \<Rightarrow>
          if ret = 0 \<and> res \<noteq> 0
          then map_option (\<lambda>m. (ret, m, k)) (swap_list fuel (load64 m res) m)
          else Some (ret, m, k))"

definition shim_freeaddrinfo :: "nat \<Rightarrow> 'k libc \<Rightarrow> shim_env \<Rightarrow> ptr \<Rightarrow> mem \<times> 'k \<Rightarrow> (mem \<times> 'k) option" where
  "shim_freeaddrinfo fuel H e res w =
     (if res = 0 then Some w
      else map_option (\<lambda>m. snd (gated e (call H ''freeaddrinfo'' [res]) (m, snd w))) (swap_list fuel res (fst w)))"

declare swap_list.simps [simp del]

text \<open>The nodes of a list, each 48 bytes, none overlapping another.\<close>

fun addr_nodes :: "mem \<Rightarrow> ptr \<Rightarrow> ptr list \<Rightarrow> bool" where
  "addr_nodes m p [] = (p = 0)"
| "addr_nodes m p (q # qs) = (p = q \<and> p \<noteq> 0 \<and> addr_nodes m (load64 m (p + 40)) qs)"

fun nodes_apart :: "ptr list \<Rightarrow> bool" where
  "nodes_apart [] = True"
| "nodes_apart (q # qs) = ((\<forall>p \<in> set qs. apart p 48 q 48) \<and> nodes_apart qs)"

lemma le_bytes64_from [simp]: "length bs = 8 \<Longrightarrow> le_bytes64 (u64_from_le bs) = bs"
proof (rule nth_equalityI)
  fix i assume l: "length bs = 8" and "i < length (le_bytes64 (u64_from_le bs))"
  then have i: "i < 8" by simp
  show "le_bytes64 (u64_from_le bs) ! i = bs ! i"
  proof (rule bit_word_eqI)
    fix n assume n: "n < LENGTH(8)"
    then have "8 * i + n < 64" "(8 * i + n) div 8 = i" "(8 * i + n) mod 8 = n" using i by auto
    then show "bit (le_bytes64 (u64_from_le bs) ! i) n = bit (bs ! i) n"
      using i n l by (simp add: le_bytes64_def u64_from_le_def bit_simps bit_or_bytes)
  qed
qed simp

lemma store64_load64: "store64 m a (load64 m' b) x = (if unat (x - a) < 8 then m' (b + (x - a)) else m x)"
  by (simp add: store64_def load64_def store_bytes_def load_bytes_def)

text \<open>Exchanging the two words is a permutation of the bytes of the node.\<close>

definition swap_byte :: "ptr \<Rightarrow> ptr \<Rightarrow> ptr" where
  "swap_byte p x =
     (if unat (x - (p + 24)) < 8 then x + 8 else if unat (x - (p + 32)) < 8 then x - 8 else x)"

lemma near: "unat (x - (p + of_nat d)) < n \<longleftrightarrow> d \<le> unat (x - p) \<and> unat (x - p) < d + n"
  if "d + n < 2 ^ 32" for x p :: u64
proof (cases "d \<le> unat (x - p)")
  case True
  have d: "unat (of_nat d :: u64) = d" using that by (intro unat_of_nat_u64) simp
  have "x - (p + of_nat d) = x - p - of_nat d" by simp
  then have "unat (x - (p + of_nat d)) = unat (x - p) - d" using True d by (simp only: unat_sub word_le_nat_alt)
  then show ?thesis using True by auto
next
  case False
  have d: "unat (of_nat d :: u64) = d" using that by (intro unat_of_nat_u64) simp
  have "\<not> unat (x - (p + of_nat d)) < n"
  proof
    assume n: "unat (x - (p + of_nat d)) < n"
    then have "unat (x - (p + of_nat d) + of_nat d) = unat (x - (p + of_nat d)) + d"
      using that d by (subst unat_add_lem [THEN iffD1]) simp_all
    then show False using False by simp
  qed
  then show ?thesis using False by simp
qed

lemma swap_byte_node:
  "swap_byte p x = (if 24 \<le> unat (x - p) \<and> unat (x - p) < 32 then x + 8
     else if 32 \<le> unat (x - p) \<and> unat (x - p) < 40 then x - 8 else x)"
  using near [of 24 8 x p] near [of 32 8 x p] by (auto simp: swap_byte_def)

lemma swap_node_bytes: "swap_node p m x = m (swap_byte p x)"
proof -
  have "p + 32 + (x - (p + 24)) = x + 8" "p + 24 + (x - (p + 32)) = x - 8" by simp_all
  moreover have "\<not> unat (x - (p + 24)) < 8" if "unat (x - (p + 32)) < 8"
    using that near [of 24 8 x p] near [of 32 8 x p] by auto
  ultimately show ?thesis
    by (auto simp: swap_node_def Let_def store64_load64 swap_byte_def add.commute [of 8 x])
qed

lemma swap_byte_range: "unat (swap_byte p x - p) < 48 \<longleftrightarrow> unat (x - p) < 48"
  and swap_byte_outside: "48 \<le> unat (x - p) \<Longrightarrow> swap_byte p x = x"
  and swap_byte_twice: "swap_byte p (swap_byte p x) = x"
proof -
  have a: "unat (x + 8 - p) = unat (x - p) + 8" if "unat (x - p) < 32"
  proof -
    have "x + 8 - p = (x - p) + 8" by simp
    then show ?thesis using that by (simp only:) (subst unat_add_lem [THEN iffD1], simp_all)
  qed
  have b: "unat (x - 8 - p) = unat (x - p) - 8" if "32 \<le> unat (x - p)"
  proof -
    have "x - 8 - p = (x - p) - 8" by simp
    moreover have "(8 :: u64) \<le> x - p" using that by (simp add: word_le_nat_alt)
    ultimately have "unat (x - 8 - p) = unat (x - p) - unat (8 :: u64)" by (simp only: unat_sub)
    then show ?thesis by simp
  qed
  show "unat (swap_byte p x - p) < 48 \<longleftrightarrow> unat (x - p) < 48" unfolding swap_byte_node using a b by auto
  show "48 \<le> unat (x - p) \<Longrightarrow> swap_byte p x = x" unfolding swap_byte_node by simp
  show "swap_byte p (swap_byte p x) = x"
    unfolding swap_byte_node using a b by auto
qed

lemma nodes_disjoint: "apart p 48 q 48 \<Longrightarrow> unat (x - p) < 48 \<Longrightarrow> 48 \<le> unat (x - q)"
proof (rule ccontr)
  assume a: "apart p 48 q 48" "unat (x - p) < 48" "\<not> 48 \<le> unat (x - q)"
  have "p + of_nat (unat (x - p)) \<noteq> q + of_nat (unat (x - q))"
    by (rule apartD [OF a(1,2)]) (use a(3) in linarith)
  then show False by simp
qed

lemma swap_node_twice: "swap_node p (swap_node p m) = m"
  by (rule ext) (simp add: swap_node_bytes swap_byte_twice)

lemma swap_node_commute:
  assumes "apart p 48 q 48"
  shows "swap_node p (swap_node q m) = swap_node q (swap_node p m)"
proof
  fix x
  note d = nodes_disjoint [OF assms, of x] nodes_disjoint [OF apart_sym [OF assms], of x]
  have "swap_byte q (swap_byte p x) = swap_byte p (swap_byte q x)"
  proof (cases "unat (x - p) < 48")
    case True
    then have "48 \<le> unat (swap_byte p x - q)" by (intro nodes_disjoint [OF assms]) (simp add: swap_byte_range)
    then show ?thesis using d(1) [OF True] by (simp add: swap_byte_outside)
  next
    case False
    then have "swap_byte p (swap_byte q x) = swap_byte q x"
      using d(2) nodes_disjoint [OF apart_sym [OF assms], of "swap_byte q x"] swap_byte_range [of q x]
      by (metis not_le swap_byte_outside)
    then show ?thesis using False by (simp add: swap_byte_outside)
  qed
  then show "swap_node p (swap_node q m) x = swap_node q (swap_node p m) x" by (simp add: swap_node_bytes)
qed

lemma load64_swap_other:
  assumes "apart a 8 p 48"
  shows "load64 (swap_node p m) a = load64 m a"
proof (rule load64_bytes_cong)
  fix i :: nat assume i: "i < 8"
  have "48 \<le> unat (a + of_nat i - p)"
  proof (rule ccontr)
    assume "\<not> 48 \<le> unat (a + of_nat i - p)"
    then have "a + of_nat i \<noteq> p + of_nat (unat (a + of_nat i - p))" using i by (intro apartD [OF assms]) simp_all
    then show False by simp
  qed
  then show "swap_node p m (a + of_nat i) = m (a + of_nat i)" by (simp add: swap_node_bytes swap_byte_outside)
qed

lemma swap_node_fields:
  "load64 (swap_node p m) (p + 24) = load64 m (p + 32)" "load64 (swap_node p m) (p + 32) = load64 m (p + 24)"
  "load64 (swap_node p m) (p + 40) = load64 m (p + 40)"
proof -
  have "apart (p + of_nat 24) 8 (p + of_nat 32) 8" "apart (p + of_nat 40) 8 (p + of_nat 24) 8"
    "apart (p + of_nat 40) 8 (p + of_nat 32) 8" by (rule apart_fields; simp)+
  then show "load64 (swap_node p m) (p + 24) = load64 m (p + 32)" "load64 (swap_node p m) (p + 32) = load64 m (p + 24)"
    "load64 (swap_node p m) (p + 40) = load64 m (p + 40)"
    by (simp_all add: swap_node_def Let_def load64_store64_apart)
qed

text \<open>The swaps of a list of nodes, and what they keep.\<close>

definition swap_all :: "ptr list \<Rightarrow> mem \<Rightarrow> mem" where
  "swap_all ps m = fold swap_node ps m"

lemma load64_swap_all: "\<forall>p \<in> set ps. apart a 8 p 48 \<Longrightarrow> load64 (swap_all ps m) a = load64 m a"
  by (induction ps arbitrary: m) (simp_all add: swap_all_def load64_swap_other)

lemma swap_all_commute: "\<forall>p \<in> set ps. apart p 48 q 48 \<Longrightarrow> swap_all ps (swap_node q m) = swap_node q (swap_all ps m)"
proof (induction ps arbitrary: m)
  case (Cons p ps)
  then have "swap_node p (swap_node q m) = swap_node q (swap_node p m)" by (intro swap_node_commute) simp
  then show ?case using Cons by (simp add: swap_all_def)
qed (simp add: swap_all_def)

lemma swap_all_twice: "nodes_apart ps \<Longrightarrow> swap_all ps (swap_all ps m) = m"
proof (induction ps arbitrary: m)
  case (Cons q ps)
  have "swap_all (q # ps) (swap_all (q # ps) m) = swap_all ps (swap_node q (swap_all ps (swap_node q m)))"
    by (simp add: swap_all_def)
  also have "\<dots> = swap_all ps (swap_all ps (swap_node q (swap_node q m)))"
    using Cons.prems by (simp add: swap_all_commute)
  finally show ?case using Cons by (simp add: swap_node_twice)
qed (simp add: swap_all_def)

lemma addr_nodes_swap:
  assumes "\<forall>p \<in> set ps. load64 m' (p + 40) = load64 m (p + 40)"
  shows "addr_nodes m' a ps = addr_nodes m a ps"
  using assms by (induction ps arbitrary: a) auto

lemma apart_next: "apart p 48 q 48 \<Longrightarrow> apart (p + 40) 8 q 48"
  using apart_sub [of p 48 q 48 40 8] by simp

lemma swap_list_all:
  "addr_nodes m a ps \<Longrightarrow> nodes_apart ps \<Longrightarrow> length ps \<le> fuel \<Longrightarrow> swap_list fuel a m = Some (swap_all ps m)"
proof (induction ps arbitrary: a m fuel)
  case (Cons q ps)
  obtain n where n: "fuel = Suc n" using Cons.prems(3) by (cases fuel) auto
  have "addr_nodes (swap_node q m) (load64 m (q + 40)) ps"
    using Cons.prems by (subst addr_nodes_swap [where m = m]) (auto simp: load64_swap_other apart_next)
  then have "swap_list n (load64 m (q + 40)) (swap_node q m) = Some (swap_all ps (swap_node q m))"
    using Cons.prems n by (intro Cons.IH) auto
  then show ?case using Cons.prems(1) n by (subst swap_list.simps) (auto simp: swap_node_fields swap_all_def)
qed (simp add: swap_all_def swap_list.simps)

lemma nodes_next_kept:
  "nodes_apart ps \<Longrightarrow> \<forall>p \<in> set ps. load64 (swap_all ps m) (p + 40) = load64 m (p + 40)
    \<and> load64 (swap_all ps m) (p + 24) = load64 m (p + 32) \<and> load64 (swap_all ps m) (p + 32) = load64 m (p + 24)"
proof (induction ps arbitrary: m)
  case (Cons q ps)
  have f: "load64 (swap_all ps m') (q + d) = load64 m' (q + d)" if "d \<in> {24, 32, 40}" for m' d
  proof (rule load64_swap_all, rule ballI)
    fix p assume "p \<in> set ps"
    then have "apart q 48 p 48" using Cons.prems apart_sym by auto
    then show "apart (q + d) 8 p 48" using that apart_sub [of q 48 p 48 24 8] apart_sub [of q 48 p 48 32 8] apart_sub [of q 48 p 48 40 8] by auto
  qed
  have g: "load64 (swap_node q m) (p + d) = load64 m (p + d)" if "p \<in> set ps" "d \<in> {24, 32, 40}" for p d
  proof (rule load64_swap_other)
    have "apart p 48 q 48" using Cons.prems that by auto
    then show "apart (p + d) 8 q 48" using that(2) apart_sub [of p 48 q 48 24 8] apart_sub [of p 48 q 48 32 8] apart_sub [of p 48 q 48 40 8] by auto
  qed
  have "swap_all (q # ps) m = swap_all ps (swap_node q m)" by (simp add: swap_all_def)
  then show ?case using Cons f g by (auto simp: swap_node_fields)
qed simp

text \<open>
  C8. The host gets its own list back. \<open>getaddrinfo\<close> hands the program a list in Darwin's layout:
  in every node the canonical name and the address have changed places and the links are as they
  were. When the program passes the list to \<open>freeaddrinfo\<close>, every node is first put back, so that
  the host frees exactly the memory it had filled in; both walks end, whatever the length of
  the list.
\<close>

theorem addrinfo_roundtrip:
  assumes "call32 H ''getaddrinfo'' [node, service, hints, res] (selector_allow e m, k) = (0, m1, k1)" and "res \<noteq> 0"
    and "addr_nodes (selector_block e m1) (load64 (selector_block e m1) res) ps" and "nodes_apart ps" and "ps \<noteq> []"
    and "\<forall>p \<in> set ps. apart res 8 p 48" and "length ps \<le> fuel"
  shows "\<exists>m2. shim_getaddrinfo fuel H e node service hints res (m, k) = Some (0, m2, k1)
    \<and> addr_nodes m2 (load64 m2 res) ps
    \<and> (\<forall>p \<in> set ps. load64 m2 (p + 24) = load64 (selector_block e m1) (p + 32)
        \<and> load64 m2 (p + 32) = load64 (selector_block e m1) (p + 24))
    \<and> shim_freeaddrinfo fuel H e (load64 m2 res) (m2, k2)
      = Some (snd (gated e (call H ''freeaddrinfo'' [load64 m2 res]) (selector_block e m1, k2)))"
proof -
  let ?m = "selector_block e m1"
  let ?m2 = "swap_all ps ?m"
  have r: "load64 ?m2 res = load64 ?m res" using assms(6) by (rule load64_swap_all)
  have n: "addr_nodes ?m2 (load64 ?m2 res) ps"
    unfolding r using nodes_next_kept [OF assms(4)] assms(3) by (subst addr_nodes_swap [where m = ?m]) simp_all
  then have "load64 ?m2 res \<noteq> 0" using assms(5) by (cases ps) auto
  then have "shim_freeaddrinfo fuel H e (load64 ?m2 res) (?m2, k2)
      = Some (snd (gated e (call H ''freeaddrinfo'' [load64 ?m2 res]) (?m, k2)))"
    using swap_list_all [OF n assms(4,7)] by (simp add: shim_freeaddrinfo_def swap_all_twice [OF assms(4)])
  moreover have "shim_getaddrinfo fuel H e node service hints res (m, k) = Some (0, ?m2, k1)"
    using assms(1,2) swap_list_all [OF assms(3,4,7)] by (simp add: shim_getaddrinfo_def gated_def)
  ultimately show ?thesis
    using n nodes_next_kept [OF assms(4)] by (intro exI [of _ ?m2]) blast
qed

text \<open>A host that answers with a list of one node at 4000.\<close>

definition addr_host :: "unit libc" where
  "addr_host = \<lparr>sys = \<lambda>nr args w. (0, w), call = \<lambda>f args (m, k). (0, m, k)\<rparr>"

definition addr_mem :: mem where
  "addr_mem = store64 (store64 (\<lambda>_. 0) 0x1000 0x4000) (0x4000 + 24) 0x5000"

theorem addrinfo_roundtrip_witness:
  "\<exists>m2. shim_getaddrinfo 1 addr_host dir_env 0 0 0 0x1000 (addr_mem, ()) = Some (0, m2, ())
    \<and> load64 m2 (0x4000 + 32) = 0x5000
    \<and> shim_freeaddrinfo 1 addr_host dir_env (load64 m2 0x1000) (m2, ()) = Some (addr_mem, ())"
proof -
  have s: "selector_allow dir_env m = m" "selector_block dir_env m = m" for m
    by (simp_all add: selector_allow_def selector_block_def dir_env_def)
  have ap: "apart 0x1000 8 (0x4000 + 24) 8" "apart 0x1000 8 0x4000 48" "apart (0x4000 + 40) 8 (0x4000 + 24) 8"
    "apart (0x4000 + 40) 8 0x1000 8"
    by (rule apartI_below; simp)+
  have z: "load64 (\<lambda>_. 0) a = 0" for a by (simp add: load64_def u64_from_le_def load_bytes_unfold)
  have l: "load64 addr_mem 0x1000 = 0x4000" "load64 addr_mem (0x4000 + 24) = 0x5000" "load64 addr_mem (0x4000 + 40) = 0"
    unfolding addr_mem_def using ap load64_store64_same load64_store64_apart z by metis+
  have "addr_nodes (selector_block dir_env addr_mem) (load64 (selector_block dir_env addr_mem) 0x1000) [0x4000]"
    using l by (simp add: s)
  from addrinfo_roundtrip [where H = addr_host and e = dir_env and node = 0 and service = 0 and hints = 0
      and res = "0x1000" and m = addr_mem and k = "()" and ?m1.0 = addr_mem and ?k1.0 = "()" and ps = "[0x4000]" and fuel = 1
      and ?k2.0 = "()", OF _ _ this]
  obtain m2 where "shim_getaddrinfo 1 addr_host dir_env 0 0 0 0x1000 (addr_mem, ()) = Some (0, m2, ())"
    and "\<forall>p \<in> set [0x4000]. load64 m2 (p + 32) = load64 (selector_block dir_env addr_mem) (p + 24)"
    and "shim_freeaddrinfo 1 addr_host dir_env (load64 m2 0x1000) (m2, ())
      = Some (snd (gated dir_env (call addr_host ''freeaddrinfo'' [load64 m2 0x1000]) (selector_block dir_env addr_mem, ())))"
    using ap by (auto simp: call32_def addr_host_def s)
  then show ?thesis using l by (auto simp: s gated_def addr_host_def)
qed

end
