(* ===== verification/ShimThreads.thy ===== *)
theory ShimThreads
  imports ShimData MachIpc
begin

text \<open>
  \<open>crates/grafted-dyld/src/shims.rs\<close>: thread-local variables, the start of a thread, the bounds of
  the stack, the parameters of the system and the wrappers of the Mach interface around the port
  space of \<open>MachIpc\<close>.
\<close>

section \<open>Thread-local variables\<close>

record tlv_state =
  TLV_KEY :: u32
  TLV_KEY_INIT :: bool
  TLV_INIT_IMAGE :: ptr
  TLV_INIT_SIZE :: u64
  TLV_TOTAL_SIZE :: u64

definition set_tlv_init_image :: "ptr \<Rightarrow> u64 \<Rightarrow> u64 \<Rightarrow> tlv_state \<Rightarrow> tlv_state" where
  "set_tlv_init_image image_addr image_size total_size t =
     t\<lparr>TLV_INIT_IMAGE := image_addr, TLV_INIT_SIZE := image_size, TLV_TOTAL_SIZE := total_size\<rparr>"

text \<open>The once-only creation of the key; \<open>scratch\<close> holds the local \<open>key\<close>.\<close>

definition tlv_key_once :: "'k libc \<Rightarrow> shim_env \<Rightarrow> tlv_state \<Rightarrow> mem \<times> 'k \<Rightarrow> tlv_state \<times> mem \<times> 'k" where
  "tlv_key_once H e t w =
     (if TLV_KEY_INIT t then (t, w)
      else (case call H ''pthread_key_create'' [scratch e, literal e ''free''] (store32 (fst w) (scratch e) 0, snd w) of
        (_, m, k) \<Rightarrow> (t\<lparr>TLV_KEY := load32 m (scratch e), TLV_KEY_INIT := True\<rparr>, m, k)))"

text \<open>A fresh block of the thread: zeros, the initial image copied over its start.\<close>

definition tlv_new_block :: "'k libc \<Rightarrow> tlv_state \<Rightarrow> mem \<times> 'k \<Rightarrow> ptr \<times> mem \<times> 'k" where
  "tlv_new_block H t w =
     (let total = TLV_TOTAL_SIZE t;
          alloc_size = (if total > 0 then total else 1024 * 1024)
      in case call H ''calloc'' [1, alloc_size] w of
        (block, m, k) \<Rightarrow>
          if block = 0 then (0, m, k)
          else let m = (if TLV_INIT_IMAGE t \<noteq> 0 \<and> TLV_INIT_SIZE t > 0
                        then store_bytes m block (load_bytes m (TLV_INIT_IMAGE t) (unat (TLV_INIT_SIZE t))) else m)
               in (block, snd (call H ''pthread_setspecific'' [ucast (TLV_KEY t), block] (m, k))))"

definition shim_tlv_bootstrap :: "'k libc \<Rightarrow> shim_env \<Rightarrow> ptr \<Rightarrow> tlv_state \<Rightarrow> mem \<times> 'k \<Rightarrow> ptr \<times> tlv_state \<times> mem \<times> 'k" where
  "shim_tlv_bootstrap H e descriptor t w =
     (let offset = load64 (fst w) (descriptor + 16) in
      case tlv_key_once H e t (selector_allow e (fst w), snd w) of (t, m, k) \<Rightarrow>
      case call H ''pthread_getspecific'' [ucast (TLV_KEY t)] (store64 m (descriptor + 8) (ucast (TLV_KEY t)), k) of
        (block, m, k) \<Rightarrow>
      case (if block = 0 then tlv_new_block H t (m, k) else (block, m, k)) of
        (block, m, k) \<Rightarrow>
          (if block = 0 then 0 else block + offset, t, selector_block e m, k))"

text \<open>
  What the host documents of thread-specific data and \<open>calloc\<close>: \<open>slot k key\<close> is the value of the
  thread, and a block that is returned is filled with zeros.
\<close>

definition keeps_slots :: "('k \<Rightarrow> u64 \<Rightarrow> ptr) \<Rightarrow> 'k libc \<Rightarrow> bool" where
  "keeps_slots slot H \<longleftrightarrow>
     (\<forall>key m k. call H ''pthread_getspecific'' [key] (m, k) = (slot k key, m, k))
     \<and> (\<forall>key v m k. \<exists>r k'. call H ''pthread_setspecific'' [key, v] (m, k) = (r, m, k') \<and> slot k' = (slot k)(key := v))
     \<and> (\<forall>n m k. \<exists>a m' k'. call H ''calloc'' [1, n] (m, k) = (a, m', k') \<and> slot k' = slot k
          \<and> (\<forall>x. m' x = (if a \<noteq> 0 \<and> unat (x - a) < unat n then 0 else m x)))"

lemma keeps_slotsD:
  assumes "keeps_slots slot H"
  shows "call H ''pthread_getspecific'' [key] (m, k) = (slot k key, m, k)"
    and "\<exists>r k'. call H ''pthread_setspecific'' [key, v] (m, k) = (r, m, k') \<and> slot k' = (slot k)(key := v)"
    and "\<exists>a m' k'. call H ''calloc'' [1, n] (m, k) = (a, m', k') \<and> slot k' = slot k
          \<and> (\<forall>x. m' x = (if a \<noteq> 0 \<and> unat (x - a) < unat n then 0 else m x))"
  using assms unfolding keeps_slots_def by blast+

text \<open>A thread that has its block gets it again.\<close>

lemma tlv_again:
  assumes "keeps_slots slot H" and "TLV_KEY_INIT t" and "slot k (ucast (TLV_KEY t)) \<noteq> 0"
  shows "shim_tlv_bootstrap H e d t (m, k)
    = (slot k (ucast (TLV_KEY t)) + load64 m (d + 16), t,
       selector_block e (store64 (selector_allow e m) (d + 8) (ucast (TLV_KEY t))), k)"
  using assms(2,3) by (simp add: shim_tlv_bootstrap_def tlv_key_once_def keeps_slotsD(1) [OF assms(1)])

lemma tlv_new_block_spec:
  assumes "keeps_slots slot H" and "tlv_new_block H t (m, k) = (block, m1, k1)" and "block \<noteq> 0"
    and "TLV_INIT_IMAGE t \<noteq> 0" and "TLV_INIT_SIZE t \<le> TLV_TOTAL_SIZE t"
    and "apart (TLV_INIT_IMAGE t) (unat (TLV_INIT_SIZE t)) block (unat (TLV_TOTAL_SIZE t))"
  shows "slot k1 (ucast (TLV_KEY t)) = block"
    and "unat (x - block) < unat (TLV_TOTAL_SIZE t) \<Longrightarrow>
      m1 x = (if unat (x - block) < unat (TLV_INIT_SIZE t) then m (TLV_INIT_IMAGE t + (x - block)) else 0)"
    and "TLV_TOTAL_SIZE t > 0 \<Longrightarrow> unat (TLV_TOTAL_SIZE t) \<le> unat (x - block) \<Longrightarrow> m1 x = m x"
proof -
  define n where "n = (if TLV_TOTAL_SIZE t > 0 then TLV_TOTAL_SIZE t else 1024 * 1024)"
  obtain a m' k' where c: "call H ''calloc'' [1, n] (m, k) = (a, m', k')" "slot k' = slot k"
    and z: "\<And>x. m' x = (if a \<noteq> 0 \<and> unat (x - a) < unat n then 0 else m x)"
    using keeps_slotsD(3) [OF assms(1)] by blast
  define img where "img = load_bytes m' (TLV_INIT_IMAGE t) (unat (TLV_INIT_SIZE t))"
  define m2 where "m2 = (if TLV_INIT_SIZE t > 0 then store_bytes m' a img else m')"
  obtain r k2 where s: "call H ''pthread_setspecific'' [ucast (TLV_KEY t), a] (m2, k') = (r, m2, k2)"
    "slot k2 = (slot k')(ucast (TLV_KEY t) := a)"
    using keeps_slotsD(2) [OF assms(1)] by blast
  have "a = block \<and> m1 = m2 \<and> k1 = k2"
    using assms(2-4) c s by (auto simp: tlv_new_block_def Let_def n_def m2_def img_def split: if_splits)
  then have e: "a = block" "m1 = m2" "k1 = k2" by simp_all
  then show "slot k1 (ucast (TLV_KEY t)) = block" using s by simp
  have le: "unat (TLV_INIT_SIZE t) \<le> unat (TLV_TOTAL_SIZE t)" using assms(5) by (simp add: word_le_nat_alt)
  have m2: "m2 x = (if unat (x - block) < unat (TLV_INIT_SIZE t) then m' (TLV_INIT_IMAGE t + (x - block)) else m' x)" for x
    by (auto simp: m2_def store_bytes_def img_def load_bytes_def e word_less_nat_alt)
  show "m1 x = (if unat (x - block) < unat (TLV_INIT_SIZE t) then m (TLV_INIT_IMAGE t + (x - block)) else 0)"
    if "unat (x - block) < unat (TLV_TOTAL_SIZE t)"
  proof -
    have n: "unat (x - block) < unat n" using that by (simp add: n_def word_less_nat_alt)
    have "m' (TLV_INIT_IMAGE t + (x - block)) = m (TLV_INIT_IMAGE t + (x - block))" if i: "unat (x - block) < unat (TLV_INIT_SIZE t)"
    proof -
      have "\<not> unat (TLV_INIT_IMAGE t + (x - block) - block) < unat n"
      proof
        assume l: "unat (TLV_INIT_IMAGE t + (x - block) - block) < unat n"
        have "unat n = unat (TLV_TOTAL_SIZE t)" using le i by (simp add: n_def word_less_nat_alt)
        then have "TLV_INIT_IMAGE t + of_nat (unat (x - block))
            \<noteq> block + of_nat (unat (TLV_INIT_IMAGE t + (x - block) - block))"
          using l by (intro apartD [OF assms(6) i]) simp
        then show False by simp
      qed
      then show ?thesis using z e by simp
    qed
    then show ?thesis using n e z assms(3) by (simp add: m2)
  qed
  show "m1 x = m x" if "TLV_TOTAL_SIZE t > 0" "unat (TLV_TOTAL_SIZE t) \<le> unat (x - block)"
    using that le e z by (simp add: m2 n_def)
qed


text \<open>A host with one thread: its slots are the state, every block is at 1000.\<close>

definition slot_host :: "(u64 \<Rightarrow> ptr) libc" where
  "slot_host = \<lparr>sys = \<lambda>nr args w. (0, w),
     call = \<lambda>f args (m, k).
       if f = ''pthread_getspecific'' then (k (args ! 0), m, k)
       else if f = ''pthread_setspecific'' then (0, m, k(args ! 0 := args ! 1))
       else if f = ''calloc'' then (0x1000, \<lambda>x. if unat (x - 0x1000) < unat (args ! 1) then 0 else m x, k)
       else (0, m, k)\<rparr>"

definition demo_tlv :: tlv_state where
  "demo_tlv = \<lparr>TLV_KEY = 3, TLV_KEY_INIT = True, TLV_INIT_IMAGE = 0x2000, TLV_INIT_SIZE = 8, TLV_TOTAL_SIZE = 24\<rparr>"


section \<open>Starting a thread\<close>

text \<open>
  \<open>mm\<close>, \<open>other\<close>: the page of selectors, as in \<open>Executor\<close>; \<open>mm2\<close>: the page of the trampoline;
  \<open>real_start\<close>: the function of the program that the thread runs. \<open>None\<close> is a panic.
\<close>

definition thread_start_wrapper ::
    "ptr option \<Rightarrow> ptr \<Rightarrow> ptr option \<Rightarrow> nat \<Rightarrow> (u64 \<Rightarrow> exec_state \<Rightarrow> u64 \<times> exec_state) \<Rightarrow> u64 \<Rightarrow> exec_state
      \<Rightarrow> (u64 \<times> exec_state) option" where
  "thread_start_wrapper mm other mm2 tid real_start real_arg st =
     Option.bind (alloc_thread_selector mm other tid st) (\<lambda>(sel_ptr, st).
     map_option (real_start real_arg) (setup_thread_sud mm2 tid sel_ptr st))"

text \<open>\<open>ctx\<close>: the address the allocator gave for the context, which holds \<open>start\<close> and \<open>arg\<close>.\<close>

definition shim_pthread_create ::
    "'k libc \<Rightarrow> shim_env \<Rightarrow> ptr \<Rightarrow> ptr \<Rightarrow> ptr \<Rightarrow> ptr \<Rightarrow> u64 \<Rightarrow> u64 \<Rightarrow> mem \<times> 'k \<Rightarrow> i32 \<times> mem \<times> 'k" where
  "shim_pthread_create H e ctx wrapper thread attr start arg w =
     gated e (\<lambda>w. call32 H ''pthread_create'' [thread, attr, wrapper, ctx]
       (store64 (store64 (fst w) ctx start) (ctx + 8) arg, snd w)) w"

definition shim_pthread_setname_np :: "'k libc \<Rightarrow> shim_env \<Rightarrow> ptr \<Rightarrow> mem \<times> 'k \<Rightarrow> i32 \<times> mem \<times> 'k" where
  "shim_pthread_setname_np H e name w =
     gated e (\<lambda>w. case call H ''pthread_self'' [] w of (me, w) \<Rightarrow> call32 H ''pthread_setname_np'' [me, name] w) w"

text \<open>\<open>sem\<close>: the address of the box.\<close>

definition shim_dispatch_semaphore_create :: "'k libc \<Rightarrow> shim_env \<Rightarrow> ptr \<Rightarrow> i64 \<Rightarrow> mem \<times> 'k \<Rightarrow> ptr \<times> mem \<times> 'k" where
  "shim_dispatch_semaphore_create H e sem value w =
     (case gated e (call H ''sem_init'' [sem, 0, ucast (ucast value :: u32)])
         (store_bytes (fst w) sem (replicate 32 0), snd w) of (_, w) \<Rightarrow> (sem, w))"

section \<open>The bounds of the stack\<close>

definition set_stack_bounds :: "u64 \<Rightarrow> u64 \<Rightarrow> u64 \<times> u64 \<Rightarrow> u64 \<times> u64" where
  "set_stack_bounds base size_of_stack bounds = (base, size_of_stack)"

definition shim_pthread_get_stackaddr_np :: "u64 \<Rightarrow> u64 \<times> u64 \<Rightarrow> u64" where
  "shim_pthread_get_stackaddr_np rsp bounds =
     (case bounds of (base, sz) \<Rightarrow> if base \<noteq> 0 then base + sz else (rsp + 0x800000) AND NOT 0xFFF)"

definition shim_pthread_get_stacksize_np :: "u64 \<times> u64 \<Rightarrow> u64" where
  "shim_pthread_get_stacksize_np bounds = snd bounds"

section \<open>Parameters of the system\<close>

text \<open>Answering into a buffer of \<open>*oldlenp\<close> bytes: nothing is written when the value does not fit.\<close>

definition put_value :: "u8 list \<Rightarrow> ptr \<Rightarrow> ptr \<Rightarrow> mem \<Rightarrow> mem" where
  "put_value bs oldp oldlenp m =
     (if unat (load64 m oldlenp) \<ge> length bs
      then store64 (store_bytes m oldp bs) oldlenp (of_nat (length bs)) else m)"

definition online_cpus :: "'k libc \<Rightarrow> shim_env \<Rightarrow> mem \<times> 'k \<Rightarrow> i32 \<times> mem \<times> 'k" where
  "online_cpus H e w =
     (case gated e (call32 H ''sysconf'' [84]) w of (ncpu, w) \<Rightarrow> (if sint ncpu > 0 then ncpu else 1, w))"

definition shim_sysctl ::
    "'k libc \<Rightarrow> shim_env \<Rightarrow> ptr \<Rightarrow> u32 \<Rightarrow> ptr \<Rightarrow> ptr \<Rightarrow> mem \<times> 'k \<Rightarrow> i32 \<times> mem \<times> 'k" where
  "shim_sysctl H e name namelen oldp oldlenp w =
     (if name = 0 \<or> namelen < 2 then (- 1, w)
      else
        let mib0 = load32 (fst w) name; mib1 = load32 (fst w) (name + 4); out = (oldp \<noteq> 0 \<and> oldlenp \<noteq> 0) in
        if mib0 = 6 \<and> mib1 = 3 then
          (0, if out then (case online_cpus H e w of (val, m, k) \<Rightarrow> (put_value (le_bytes32 val) oldp oldlenp m, k)) else w)
        else if mib0 = 6 \<and> mib1 = 7 then
          (0, if out then (put_value (le_bytes32 4096) oldp oldlenp (fst w), snd w) else w)
        else if mib0 = 6 \<and> mib1 = 24 then
          (0, if out then (put_value (le_bytes64 (8 * 1024 * 1024 * 1024)) oldp oldlenp (fst w), snd w) else w)
        else if mib0 = 1 \<and> mib1 = 14 then
          (0, if out then (put_value (le_bytes32 2048) oldp oldlenp (fst w), snd w) else w)
        else (0, w))"

text \<open>\<open>name\<close> is the string the pointer leads to, \<open>None\<close> for the null pointer.\<close>

definition shim_sysctlbyname ::
    "'k libc \<Rightarrow> shim_env \<Rightarrow> u8 list option \<Rightarrow> ptr \<Rightarrow> ptr \<Rightarrow> mem \<times> 'k \<Rightarrow> i32 \<times> mem \<times> 'k" where
  "shim_sysctlbyname H e name oldp oldlenp w =
     (case name of None \<Rightarrow> (- 1, w)
      | Some s \<Rightarrow>
        let name_str = (case utf8_decode s of None \<Rightarrow> [] | Some _ \<Rightarrow> text_of_bytes s); out = (oldp \<noteq> 0 \<and> oldlenp \<noteq> 0) in
        if name_str \<in> {''hw.ncpu'', ''hw.logicalcpu'', ''hw.physicalcpu''} then
          (0, if out then (case online_cpus H e w of (val, m, k) \<Rightarrow> (put_value (le_bytes32 val) oldp oldlenp m, k)) else w)
        else if name_str = ''hw.pagesize'' then
          (0, if out then (put_value (le_bytes32 4096) oldp oldlenp (fst w), snd w) else w)
        else if name_str = ''hw.memsize'' then
          (0, if out then (put_value (le_bytes64 (8 * 1024 * 1024 * 1024)) oldp oldlenp (fst w), snd w) else w)
        else (0, w))"

lemma put_value_outside:
  assumes "unat (load64 m oldlenp) \<le> unat (x - oldp)" and "8 \<le> unat (x - oldlenp)"
  shows "put_value bs oldp oldlenp m x = m x"
  using assms by (auto simp: put_value_def store64_def store_bytes_outside)

lemma sysctl_cases:
  assumes "shim_sysctl H e name namelen oldp oldlenp w = (r, w')"
  obtains "w' = w" | bs where "w' = (put_value bs oldp oldlenp (fst w), snd w)"
    | val k m bs where "online_cpus H e w = (val, m, k)" "w' = (put_value bs oldp oldlenp m, k)"
  using assms by (auto simp: shim_sysctl_def Let_def split: if_splits prod.splits)

text \<open>
  No overrun. Whatever \<open>sysctl\<close> is asked for, it writes into the caller's buffer no further
  than the length the caller gave, and otherwise only the length itself and the selector of
  the thread.
\<close>

theorem sysctl_within:
  assumes "\<And>w. fst (snd (call H ''sysconf'' [84] w)) = fst w"
    and "shim_sysctl H e name namelen oldp oldlenp (m, k) = (r, m', k')"
    and "apart oldlenp 8 (selector e) 1"
    and "unat (load64 m oldlenp) \<le> unat (x - oldp)" and "8 \<le> unat (x - oldlenp)" and "x \<noteq> selector e"
  shows "m' x = m x"
  using assms(2)
proof (rule sysctl_cases)
  fix bs assume "(m', k') = (put_value bs oldp oldlenp (fst (m, k)), snd (m, k))"
  then show ?thesis using put_value_outside [OF assms(4,5)] by simp
next
  fix val k1 m1 bs assume o: "online_cpus H e (m, k) = (val, m1, k1)" and "(m', k') = (put_value bs oldp oldlenp m1, k1)"
  moreover have m1: "m1 = selector_block e (selector_allow e m)"
    using o assms(1) [of "(selector_allow e m, k)"]
    by (auto simp: online_cpus_def gated_def call32_def split: prod.splits)
  moreover have "load64 m1 oldlenp = load64 m oldlenp"
    using selector_writes [OF assms(3), of 0] by (simp add: m1)
  moreover have "m1 x = m x" using assms(6) by (simp add: m1 selector_block_def selector_allow_def)
  ultimately show ?thesis using put_value_outside [of m1 oldlenp x oldp bs] assms(4,5) by simp
qed simp

definition cpu_host :: "unit libc" where
  "cpu_host = \<lparr>sys = \<lambda>nr args w. (0, w), call = \<lambda>f args w. (4, w)\<rparr>"

theorem sysctl_within_witness:
  "fst (snd (shim_sysctl cpu_host demo_env 0x1000 2 0x2000 0x1800 ((\<lambda>_. 0)(0x1000 := 6, 0x1004 := 3, 0x1800 := 4), ()))) 0x2004 = 0"
proof -
  let ?m = "(\<lambda>_. 0)(0x1000 := 6, 0x1004 := 3, 0x1800 := 4) :: mem"
  obtain r m' k' where r: "shim_sysctl cpu_host demo_env 0x1000 2 0x2000 0x1800 (?m, ()) = (r, m', k')" by (metis prod_cases3)
  have h: "\<And>w. fst (snd (call cpu_host ''sysconf'' [84] w)) = fst w" by (simp add: cpu_host_def)
  have l: "load64 ?m 0x1800 = 4" by (simp add: load64_def u64_from_le_def load_bytes_unfold)
  have "apart 0x1800 8 (selector demo_env) 1" unfolding demo_env_def by (simp, rule apartI_below) simp_all
  moreover have "unat (load64 ?m 0x1800) \<le> unat ((0x2004 :: u64) - 0x2000)" "(0x2004 :: u64) \<noteq> selector demo_env"
    by (simp_all add: l demo_env_def)
  moreover have "8 \<le> unat ((0x2004 :: u64) - 0x1800)" by simp
  ultimately have "m' 0x2004 = ?m 0x2004" by (intro sysctl_within [OF h r]) simp_all
  then show ?thesis by (simp add: r)
qed

definition shim_mach_timebase_info :: "ptr \<Rightarrow> mem \<Rightarrow> i32 \<times> mem" where
  "shim_mach_timebase_info info m = (0, if info \<noteq> 0 then store32 (store32 m info 1) (info + 4) 1 else m)"

section \<open>Ports\<close>

definition shim_mach_port_allocate :: "u32 \<Rightarrow> ptr \<Rightarrow> mem \<times> port_space \<Rightarrow> i32 \<times> mem \<times> port_space" where
  "shim_mach_port_allocate right name w =
     (case allocate right (snd w) of
        (Inr n, ps) \<Rightarrow> (KERN_SUCCESS, if name \<noteq> 0 then store32 (fst w) name n else fst w, ps)
      | (Inl err, ps) \<Rightarrow> (err, fst w, ps))"

definition shim_mach_port_deallocate :: "u32 \<Rightarrow> port_space \<Rightarrow> i32 \<times> port_space" where
  "shim_mach_port_deallocate name ps = deallocate name ps"

definition shim_mach_port_insert_right :: "u32 \<Rightarrow> u32 \<Rightarrow> u32 \<Rightarrow> port_space \<Rightarrow> i32 \<times> port_space" where
  "shim_mach_port_insert_right name poly poly_type ps = insert_right name poly poly_type ps"

definition shim_mach_port_mod_refs :: "u32 \<Rightarrow> u32 \<Rightarrow> i32 \<Rightarrow> port_space \<Rightarrow> i32 \<times> port_space" where
  "shim_mach_port_mod_refs name right delta ps = mod_refs name right delta ps"

definition shim_mach_port_type :: "u32 \<Rightarrow> ptr \<Rightarrow> mem \<times> port_space \<Rightarrow> i32 \<times> mem" where
  "shim_mach_port_type name ptype w =
     (case port_type name (snd w) of (ret, t) \<Rightarrow> (ret, if ptype \<noteq> 0 then store32 (fst w) ptype t else fst w))"

definition shim_mach_task_self :: u32 where "shim_mach_task_self = SPECIAL_PORT_TASK_SELF"
definition shim_mach_thread_self :: u32 where "shim_mach_thread_self = SPECIAL_PORT_THREAD_SELF"
definition shim_host_self :: u32 where "shim_host_self = SPECIAL_PORT_HOST_SELF"
definition shim_mach_reply_port :: u32 where "shim_mach_reply_port = SPECIAL_PORT_REPLY"

text \<open>\<open>[super init]\<close> and every other message to \<open>super\<close> answers the receiver.\<close>

definition shim_objc_msg_send_super2 :: "ptr \<Rightarrow> mem \<Rightarrow> ptr" where
  "shim_objc_msg_send_super2 super m = (if super = 0 then 0 else load64 m super)"

end
