(* ===== verification/WindowServer.thy ===== *)
theory WindowServer
  imports Drawing
begin

text \<open>
  \<open>crates/grafted-frameworks/src/ws/display.rs\<close> and the constants of \<open>ws/x11.rs\<close>: the windows of
  the program, each with its X11 window, the map from X11 windows back to identifiers, the copy
  of a bitmap context to a window and the translation of X11 events. Xlib is a parameter: what
  it returns is an argument, what it is asked for a list of requests.
\<close>

type_synonym x11_window = u64

record ManagedWindow =
  x11_window :: x11_window
  x11_gc :: ptr
  wtitle :: string
  wframe :: CGRect
  wvisible :: bool

record DisplayState =
  wm_delete :: u64
  windows :: "u32 \<Rightarrow> ManagedWindow option"
  next_id :: u32
  x11_to_id :: "x11_window \<Rightarrow> u32 option"

text \<open>Requests to the X server, in the order they are made.\<close>

datatype x11_request =
    CreateSimpleWindow i32 i32 u32 u32
  | CreateGC x11_window
  | StoreName x11_window string
  | SetWMProtocols x11_window u64
  | SelectInput x11_window i64
  | MapWindow x11_window
  | UnmapWindow x11_window
  | FreeGC ptr
  | DestroyWindow x11_window
  | PutImage x11_window ptr "u8 list" u32 u32
  | Flush

definition ALL_EVENTS_MASK :: i64 where
  "ALL_EVENTS_MASK = push_bit 15 1 OR push_bit 0 1 OR push_bit 1 1 OR push_bit 2 1 OR push_bit 3 1 OR push_bit 6 1 OR push_bit 17 1"

section \<open>The windows\<close>

text \<open>\<open>dpy_wm_delete\<close>: the atom the server interned, \<open>None\<close> when the display cannot be opened.\<close>

definition init_display :: "bool \<Rightarrow> u64 option \<Rightarrow> DisplayState option \<Rightarrow> bool \<times> DisplayState option" where
  "init_display x11 dpy_wm_delete state =
     (if \<not> x11 then (False, state)
      else if state \<noteq> None then (True, state)
      else case dpy_wm_delete of
        None \<Rightarrow> (False, None)
      | Some atom \<Rightarrow> (True, Some \<lparr>wm_delete = atom, windows = Map.empty, next_id = 1, x11_to_id = Map.empty\<rparr>))"

text \<open>\<open>xwin\<close> and \<open>gc\<close>: what the server answered. A title with a NUL is stored as the empty one.\<close>

definition create_window ::
    "x11_window \<Rightarrow> ptr \<Rightarrow> i32 \<Rightarrow> i32 \<Rightarrow> u32 \<Rightarrow> u32 \<Rightarrow> string \<Rightarrow> DisplayState \<Rightarrow> u32 \<times> DisplayState \<times> x11_request list" where
  "create_window xwin gc x y w hgt title ds =
     (next_id ds,
      ds\<lparr>next_id := next_id ds + 1,
         x11_to_id := (x11_to_id ds)(xwin \<mapsto> next_id ds),
         windows := (windows ds)(next_id ds \<mapsto>
           \<lparr>x11_window = xwin, x11_gc = gc, wtitle = title,
            wframe = CGRectMake (f64_of_int (sint x)) (f64_of_int (sint y)) (f64_of_int (uint w)) (f64_of_int (uint hgt)),
            wvisible = False\<rparr>)\<rparr>,
      [CreateSimpleWindow x y w hgt, CreateGC xwin,
       StoreName xwin (if CHR 0x00 \<in> set title then [] else title),
       SetWMProtocols xwin (wm_delete ds), SelectInput xwin ALL_EVENTS_MASK])"

definition show_window :: "u32 \<Rightarrow> DisplayState \<Rightarrow> bool \<times> DisplayState \<times> x11_request list" where
  "show_window i ds =
     (case windows ds i of
        None \<Rightarrow> (False, ds, [])
      | Some win \<Rightarrow> (True, ds\<lparr>windows := (windows ds)(i \<mapsto> win\<lparr>wvisible := True\<rparr>)\<rparr>, [MapWindow (x11_window win), Flush]))"

definition hide_window :: "u32 \<Rightarrow> DisplayState \<Rightarrow> bool \<times> DisplayState \<times> x11_request list" where
  "hide_window i ds =
     (case windows ds i of
        None \<Rightarrow> (False, ds, [])
      | Some win \<Rightarrow> (True, ds\<lparr>windows := (windows ds)(i \<mapsto> win\<lparr>wvisible := False\<rparr>)\<rparr>, [UnmapWindow (x11_window win), Flush]))"

definition destroy_window :: "u32 \<Rightarrow> DisplayState \<Rightarrow> bool \<times> DisplayState \<times> x11_request list" where
  "destroy_window i ds =
     (case windows ds i of
        None \<Rightarrow> (False, ds, [])
      | Some win \<Rightarrow>
          (True, ds\<lparr>windows := (windows ds)(i := None), x11_to_id := (x11_to_id ds)(x11_window win := None)\<rparr>,
           [FreeGC (x11_gc win), DestroyWindow (x11_window win), Flush]))"

section \<open>Showing a bitmap\<close>

text \<open>
  \<open>data\<close>: the address \<open>malloc\<close> returned, \<open>made\<close>: whether \<open>XCreateImage\<close> made an image.
  The outer \<open>None\<close> is a read beyond the bitmap.
\<close>

definition flush_window ::
    "ptr \<Rightarrow> bool \<Rightarrow> u32 \<Rightarrow> ptr \<Rightarrow> cg_heap \<Rightarrow> DisplayState \<Rightarrow> (bool \<times> x11_request list) option" where
  "flush_window data made i ctx h ds =
     (if ctx = 0 then Some (False, [])
      else case windows ds i of
        None \<Rightarrow> Some (False, [])
      | Some win \<Rightarrow>
          (case contexts h ctx of
             None \<Rightarrow> None
           | Some c \<Rightarrow>
               let w = ucast (ctx_width c) :: u32; hgt = ucast (ctx_height c) :: u32;
                   pixel_bytes = unat (w * hgt * 4)
               in if data = 0 then Some (False, [])
                  else if length (pixels c) < pixel_bytes then None
                  else if \<not> made then Some (False, [])
                  else Some (True, [PutImage (x11_window win) (x11_gc win) (take pixel_bytes (pixels c)) w hgt, Flush])))"

section \<open>Events\<close>

datatype DisplayEvent =
    Expose u32
  | KeyDown u32 u32
  | KeyUp u32 u32
  | MouseDown u32 i32 i32 u32
  | MouseUp u32 i32 i32 u32
  | MouseMove u32 i32 i32
  | WindowClose u32
  | Resize u32 u32 u32

definition word_at :: "u8 list \<Rightarrow> nat \<Rightarrow> u32" where
  "word_at xev off = u32_from_le (drop off xev)"

definition long_at :: "u8 list \<Rightarrow> nat \<Rightarrow> u64" where
  "long_at xev off = u64_from_le (drop off xev)"

text \<open>One event of 192 bytes, the body of the loop.\<close>

definition translate_event :: "DisplayState \<Rightarrow> u8 list \<Rightarrow> DisplayEvent list" where
  "translate_event ds xev =
     (case x11_to_id ds (long_at xev 32) of
        None \<Rightarrow> []
      | Some wid \<Rightarrow>
          let ev_type = word_at xev 0 in
          if ev_type = 12 then [Expose wid]
          else if ev_type = 2 then [KeyDown wid (word_at xev 84)]
          else if ev_type = 3 then [KeyUp wid (word_at xev 84)]
          else if ev_type = 4 then [MouseDown wid (word_at xev 64) (word_at xev 68) (word_at xev 84)]
          else if ev_type = 5 then [MouseUp wid (word_at xev 64) (word_at xev 68) (word_at xev 84)]
          else if ev_type = 6 then [MouseMove wid (word_at xev 64) (word_at xev 68)]
          else if ev_type = 22 then [Resize wid (word_at xev 56) (word_at xev 60)]
          else if ev_type = 33 then (if long_at xev 56 = wm_delete ds then [WindowClose wid] else [])
          else [])"

text \<open>\<open>pending\<close>: the events the server has queued, which the loop takes one by one.\<close>

definition poll_events :: "DisplayState option \<Rightarrow> u8 list list \<Rightarrow> DisplayEvent list" where
  "poll_events state pending = (case state of None \<Rightarrow> [] | Some ds \<Rightarrow> concat (map (translate_event ds) pending))"

section \<open>Every window has its entry, and only windows have\<close>

datatype ws_op =
    OpCreate x11_window ptr i32 i32 u32 u32 string
  | OpShow u32
  | OpHide u32
  | OpDestroy u32

fun ws_step :: "ws_op \<Rightarrow> DisplayState \<Rightarrow> DisplayState" where
  "ws_step (OpCreate xwin gc x y w hgt title) ds = fst (snd (create_window xwin gc x y w hgt title ds))"
| "ws_step (OpShow i) ds = fst (snd (show_window i ds))"
| "ws_step (OpHide i) ds = fst (snd (hide_window i ds))"
| "ws_step (OpDestroy i) ds = fst (snd (destroy_window i ds))"

text \<open>
  The server does not hand out the identifier of a window that exists, and identifiers have not
  run out.
\<close>

fun ws_allowed :: "ws_op \<Rightarrow> DisplayState \<Rightarrow> bool" where
  "ws_allowed (OpCreate xwin gc x y w hgt title) ds = (x11_to_id ds xwin = None \<and> next_id ds \<noteq> 0xFFFFFFFF)"
| "ws_allowed _ ds = True"

definition registry_ok :: "DisplayState \<Rightarrow> bool" where
  "registry_ok ds \<longleftrightarrow>
     (\<forall>x i. x11_to_id ds x = Some i \<longleftrightarrow> (\<exists>win. windows ds i = Some win \<and> x11_window win = x))
     \<and> (\<forall>i win. windows ds i = Some win \<longrightarrow> i < next_id ds)"

lemma below_plus_one: "(n :: u32) \<noteq> 0xFFFFFFFF \<Longrightarrow> n < n + 1"
  using plus_one_nonzero [of n] by (simp add: word_less_nat_alt unatSuc add.commute [of n])

lemma registry_entry: "registry_ok ds \<Longrightarrow> windows ds i = Some win \<Longrightarrow> x11_to_id ds (x11_window win) = Some i"
  unfolding registry_ok_def by blast

lemma registry_step:
  assumes "registry_ok ds" and "ws_allowed op ds"
  shows "registry_ok (ws_step op ds)"
proof (cases op)
  case (OpCreate xwin gc x y w hgt title)
  have new: "windows ds (next_id ds) = None"
    using assms(1) by (cases "windows ds (next_id ds)") (auto simp: registry_ok_def)
  have "next_id ds < next_id ds + 1" using assms(2) OpCreate by (simp add: below_plus_one)
  moreover have "x11_window win \<noteq> xwin" if "windows ds i = Some win" for i win
  proof -
    have "x11_to_id ds (x11_window win) = Some i" using assms(1) that by (rule registry_entry)
    then show ?thesis using assms(2) OpCreate by auto
  qed
  ultimately show ?thesis
    using assms(1) new OpCreate by (auto simp: registry_ok_def create_window_def dest: less_trans)
next
  case (OpShow i)
  then show ?thesis using assms(1) by (auto simp: registry_ok_def show_window_def split: option.splits)
next
  case (OpHide i)
  then show ?thesis using assms(1) by (auto simp: registry_ok_def hide_window_def split: option.splits)
next
  case (OpDestroy i)
  have "x11_window v \<noteq> x11_window win" if "windows ds i = Some win" "windows ds j = Some v" "j \<noteq> i" for win v j
  proof
    assume "x11_window v = x11_window win"
    then show False using registry_entry [OF assms(1) that(1)] registry_entry [OF assms(1) that(2)] that(3) by simp
  qed
  then show ?thesis
    using assms(1) OpDestroy by (cases "windows ds i") (auto simp: registry_ok_def destroy_window_def)
qed

definition ws_fresh :: "u64 \<Rightarrow> DisplayState" where
  "ws_fresh atom = \<lparr>wm_delete = atom, windows = Map.empty, next_id = 1, x11_to_id = Map.empty\<rparr>"

interpretation wsm: op_machine ws_step registry_ok ws_allowed
  by unfold_locales (rule registry_step)

lemma registry_run: "run_ok ws_step ws_allowed ops (ws_fresh atom) \<Longrightarrow> registry_ok (run_ops ws_step ops (ws_fresh atom))"
  by (rule wsm.run_inv) (simp_all add: registry_ok_def ws_fresh_def)

section \<open>Events of the X protocol\<close>

text \<open>The events as Xlib lays them out in their 192 bytes; the fields nobody reads are zero.\<close>

datatype x_event =
    XExpose (target: x11_window)
  | XKey (target: x11_window) bool u32
  | XButton (target: x11_window) bool i32 i32 u32
  | XMotion (target: x11_window) i32 i32
  | XConfigure (target: x11_window) u32 u32
  | XClientMessage (target: x11_window) u64
  | XDestroyNotify (target: x11_window)

definition x_head :: "u32 \<Rightarrow> x11_window \<Rightarrow> u8 list" where
  "x_head ty xwin = le_bytes32 ty @ replicate 28 0 @ le_bytes64 xwin"

fun x_bytes :: "x_event \<Rightarrow> u8 list" where
  "x_bytes (XExpose xwin) = x_head 12 xwin @ replicate 152 0"
| "x_bytes (XKey xwin press keycode) =
     x_head (if press then 2 else 3) xwin @ replicate 44 0 @ le_bytes32 keycode @ replicate 104 0"
| "x_bytes (XButton xwin press x y button) =
     x_head (if press then 4 else 5) xwin @ replicate 24 0 @ le_bytes32 x @ le_bytes32 y @ replicate 12 0
     @ le_bytes32 button @ replicate 104 0"
| "x_bytes (XMotion xwin x y) = x_head 6 xwin @ replicate 24 0 @ le_bytes32 x @ le_bytes32 y @ replicate 120 0"
| "x_bytes (XConfigure xwin w hgt) = x_head 22 xwin @ replicate 16 0 @ le_bytes32 w @ le_bytes32 hgt @ replicate 128 0"
| "x_bytes (XClientMessage xwin d) = x_head 33 xwin @ replicate 16 0 @ le_bytes64 d @ replicate 128 0"
| "x_bytes (XDestroyNotify xwin) = x_head 17 xwin @ replicate 152 0"

text \<open>What the application should be told about an event of its window \<open>i\<close>.\<close>

fun meaning :: "u64 \<Rightarrow> u32 \<Rightarrow> x_event \<Rightarrow> DisplayEvent list" where
  "meaning atom i (XExpose _) = [Expose i]"
| "meaning atom i (XKey _ press keycode) = [if press then KeyDown i keycode else KeyUp i keycode]"
| "meaning atom i (XButton _ press x y button) = [if press then MouseDown i x y button else MouseUp i x y button]"
| "meaning atom i (XMotion _ x y) = [MouseMove i x y]"
| "meaning atom i (XConfigure _ w hgt) = [Resize i w hgt]"
| "meaning atom i (XClientMessage _ d) = (if d = atom then [WindowClose i] else [])"
| "meaning atom i (XDestroyNotify _) = []"

fun event_window :: "DisplayEvent \<Rightarrow> u32" where
  "event_window (Expose i) = i"
| "event_window (KeyDown i _) = i"
| "event_window (KeyUp i _) = i"
| "event_window (MouseDown i _ _ _) = i"
| "event_window (MouseUp i _ _ _) = i"
| "event_window (MouseMove i _ _) = i"
| "event_window (WindowClose i) = i"
| "event_window (Resize i _ _) = i"

lemma length_x_bytes: "length (x_bytes ev) = 192"
  by (cases ev) (simp_all add: x_head_def)

lemma u32_at: "take 4 (drop off bs) = le_bytes32 v \<Longrightarrow> word_at bs off = v"
  using u32_le_roundtrip [of v] by (simp add: word_at_def u32_from_le_def)

lemma u64_at: "take 8 (drop off bs) = le_bytes64 v \<Longrightarrow> long_at bs off = v"
  using u64_le_roundtrip [of v] by (simp add: long_at_def u64_from_le_def)

lemma head_at:
  "word_at (x_head ty xwin @ r) 0 = ty" "long_at (x_head ty xwin @ r) 32 = xwin"
  by (rule u32_at u64_at; simp add: x_head_def)+

lemma key_at: "word_at (x_head ty xwin @ replicate 44 0 @ le_bytes32 k @ r) 84 = k"
  by (rule u32_at) (simp add: x_head_def)

lemma button_at:
  "word_at (x_head ty xwin @ replicate 24 0 @ le_bytes32 x @ le_bytes32 y @ r) 64 = x"
  "word_at (x_head ty xwin @ replicate 24 0 @ le_bytes32 x @ le_bytes32 y @ r) 68 = y"
  "word_at (x_head ty xwin @ replicate 24 0 @ le_bytes32 x @ le_bytes32 y @ replicate 12 0 @ le_bytes32 b @ r) 84 = b"
  by (rule u32_at; simp add: x_head_def)+

lemma configure_at:
  "word_at (x_head ty xwin @ replicate 16 0 @ le_bytes32 w @ le_bytes32 hgt @ r) 56 = w"
  "word_at (x_head ty xwin @ replicate 16 0 @ le_bytes32 w @ le_bytes32 hgt @ r) 60 = hgt"
  by (rule u32_at; simp add: x_head_def)+

lemma client_at: "long_at (x_head ty xwin @ replicate 16 0 @ le_bytes64 d @ r) 56 = d"
  by (rule u64_at) (simp add: x_head_def)

lemma translate_x_bytes:
  "translate_event ds (x_bytes ev) = (case x11_to_id ds (target ev) of None \<Rightarrow> [] | Some i \<Rightarrow> meaning (wm_delete ds) i ev)"
  by (cases ev) (auto simp: translate_event_def head_at key_at button_at configure_at client_at Let_def
      simp del: append_assoc replicate.simps split: option.splits)

lemma meaning_window: "e \<in> set (meaning atom i ev) \<Longrightarrow> event_window e = i"
  by (cases ev) (auto split: if_splits)

lemma filter_meaning: "filter (\<lambda>e. event_window e = i) (meaning atom j ev) = (if j = i then meaning atom i ev else [])"
  using meaning_window [of _ atom j ev] by (auto simp: filter_empty_conv filter_id_conv)

lemma poll_window:
  assumes "registry_ok ds" and "windows ds i = Some win"
  shows "filter (\<lambda>e. event_window e = i) (poll_events (Some ds) (map x_bytes evs))
      = concat (map (meaning (wm_delete ds) i) (filter (\<lambda>ev. target ev = x11_window win) evs))"
proof (induction evs)
  case (Cons ev evs)
  have "x11_to_id ds (target ev) = Some i \<longleftrightarrow> target ev = x11_window win"
    using assms by (auto simp: registry_ok_def)
  then have "filter (\<lambda>e. event_window e = i) (translate_event ds (x_bytes ev))
      = (if target ev = x11_window win then meaning (wm_delete ds) i ev else [])"
    by (auto simp: translate_x_bytes filter_meaning split: option.splits)
  then show ?case using Cons by (simp add: poll_events_def)
qed (simp add: poll_events_def)

lemma poll_live:
  assumes "registry_ok ds" and "e \<in> set (poll_events (Some ds) (map x_bytes evs))"
  shows "windows ds (event_window e) \<noteq> None"
proof -
  obtain ev where "e \<in> set (translate_event ds (x_bytes ev))" using assms(2) by (auto simp: poll_events_def)
  then obtain i where "x11_to_id ds (target ev) = Some i" "event_window e = i"
    by (cases "x11_to_id ds (target ev)") (auto simp: translate_x_bytes dest: meaning_window)
  then show ?thesis using assms(1) by (auto simp: registry_ok_def)
qed

text \<open>
  C9. Events reach the window they happened in. After any sequence of creating, showing, hiding
  and destroying windows, and for any queue of X events, the events an open window is told about
  are those of its own X11 window, translated, none lost and in their order; no event is
  delivered to a window that was destroyed or never existed. The X server must not give a new
  window the identifier of one that exists, and no more than 4294967294 windows may be made.
\<close>

theorem events_delivered:
  assumes "run_ok ws_step ws_allowed ops (ws_fresh atom)"
  shows "(\<forall>i win. windows (run_ops ws_step ops (ws_fresh atom)) i = Some win \<longrightarrow>
      filter (\<lambda>e. event_window e = i) (poll_events (Some (run_ops ws_step ops (ws_fresh atom))) (map x_bytes evs))
      = concat (map (meaning (wm_delete (run_ops ws_step ops (ws_fresh atom))) i)
          (filter (\<lambda>ev. target ev = x11_window win) evs)))
    \<and> (\<forall>e \<in> set (poll_events (Some (run_ops ws_step ops (ws_fresh atom))) (map x_bytes evs)).
        windows (run_ops ws_step ops (ws_fresh atom)) (event_window e) \<noteq> None)"
  using poll_window [OF registry_run [OF assms]] poll_live [OF registry_run [OF assms]] by blast

theorem events_delivered_witness:
  "filter (\<lambda>e. event_window e = 2)
      (poll_events (Some (run_ops ws_step [OpCreate 70 0 0 0 4 4 ''a'', OpCreate 80 0 0 0 4 4 ''b'', OpDestroy 1] (ws_fresh 9)))
        (map x_bytes [XKey 70 True 30, XMotion 80 3 4, XClientMessage 80 9]))
    = [MouseMove 2 3 4, WindowClose 2]"
proof -
  have "run_ok ws_step ws_allowed [OpCreate 70 0 0 0 4 4 ''a'', OpCreate 80 0 0 0 4 4 ''b'', OpDestroy 1] (ws_fresh 9)"
    by (simp add: ws_fresh_def create_window_def destroy_window_def)
  note t = events_delivered [OF this, of "[XKey 70 True 30, XMotion 80 3 4, XClientMessage 80 9]"]
  show ?thesis
    using conjunct1 [OF t] by (simp add: ws_fresh_def create_window_def destroy_window_def del: x_bytes.simps)
qed

end
