(* ===== verification/Frameworks.thy ===== *)
theory Frameworks
  imports ShimTable Linker
begin

text \<open>
  \<open>crates/grafted-frameworks/src/registry.rs\<close>, \<open>framework_registry\<close>: the symbols the
  replacements of Apple's frameworks export, the layers they are built from (tables of the
  source, class pointers of the Objective-C runtime, the host's Swift runtime over the Swift
  stubs), and the registry \<open>Linker::new\<close> makes of them and of the shims. The tables are the
  source's, in its order; \<open>addr\<close> gives the addresses of its functions and statics,
  \<open>get_class\<close> is \<open>objc_getClass\<close> after the framework classes are registered, and \<open>real\<close> is
  \<open>swift_symbols()\<close>, the symbols found in the host's Swift libraries.
\<close>

section \<open>The tables\<close>

datatype export = Fn string | Data string

type_synonym export_table = "(string \<times> export) list"

definition core_foundation_entries :: export_table where
  "core_foundation_entries =
     [(''_CFGetTypeID'', Fn ''CFGetTypeID''), (''_CFRetain'', Fn ''CFRetain''),
      (''_CFRelease'', Fn ''CFRelease''), (''_CFEqual'', Fn ''CFEqual''), (''_CFHash'', Fn ''CFHash''),
      (''_CFAllocatorGetDefault'', Fn ''CFAllocatorGetDefault''),
      (''_CFStringGetTypeID'', Fn ''CFStringGetTypeID''),
      (''_CFDictionaryGetTypeID'', Fn ''CFDictionaryGetTypeID''),
      (''_CFArrayGetTypeID'', Fn ''CFArrayGetTypeID''), (''_CFDataGetTypeID'', Fn ''CFDataGetTypeID''),
      (''_CFBooleanGetTypeID'', Fn ''CFBooleanGetTypeID''),
      (''_CFNumberGetTypeID'', Fn ''CFNumberGetTypeID''),
      (''_CFStringCreateWithCString'', Fn ''CFStringCreateWithCString''),
      (''_CFStringCreateWithBytes'', Fn ''CFStringCreateWithBytes''),
      (''_CFStringCreateWithFormat'', Fn ''CFStringCreateWithFormat''),
      (''_CFStringGetLength'', Fn ''CFStringGetLength''),
      (''_CFStringGetCStringPtr'', Fn ''CFStringGetCStringPtr''),
      (''_CFStringGetCString'', Fn ''CFStringGetCString''),
      (''_CFStringGetCharacters'', Fn ''CFStringGetCharacters''),
      (''_CFStringCompare'', Fn ''CFStringCompare''),
      (''___CFConstantStringClassReference'', Data ''__CFConstantStringClassReference''),
      (''_CFDictionaryCreate'', Fn ''CFDictionaryCreate''),
      (''_CFDictionaryCreateMutable'', Fn ''CFDictionaryCreateMutable''),
      (''_CFDictionaryGetCount'', Fn ''CFDictionaryGetCount''),
      (''_CFDictionaryGetValue'', Fn ''CFDictionaryGetValue''),
      (''_CFDictionaryContainsKey'', Fn ''CFDictionaryContainsKey''),
      (''_CFDictionarySetValue'', Fn ''CFDictionarySetValue''),
      (''_CFDictionaryRemoveValue'', Fn ''CFDictionaryRemoveValue''),
      (''_kCFTypeDictionaryKeyCallBacks'', Data ''kCFTypeDictionaryKeyCallBacks''),
      (''_kCFTypeDictionaryValueCallBacks'', Data ''kCFTypeDictionaryValueCallBacks''),
      (''_kCFCopyStringDictionaryKeyCallBacks'', Data ''kCFCopyStringDictionaryKeyCallBacks''),
      (''_CFArrayCreate'', Fn ''CFArrayCreate''),
      (''_CFArrayCreateMutable'', Fn ''CFArrayCreateMutable''),
      (''_CFArrayGetCount'', Fn ''CFArrayGetCount''),
      (''_CFArrayGetValueAtIndex'', Fn ''CFArrayGetValueAtIndex''),
      (''_CFArrayAppendValue'', Fn ''CFArrayAppendValue''),
      (''_kCFTypeArrayCallBacks'', Data ''kCFTypeArrayCallBacks''),
      (''_CFDataCreate'', Fn ''CFDataCreate''), (''_CFDataGetLength'', Fn ''CFDataGetLength''),
      (''_CFDataGetBytePtr'', Fn ''CFDataGetBytePtr''),
      (''_CFRunLoopGetCurrent'', Fn ''CFRunLoopGetCurrent''),
      (''_CFRunLoopGetMain'', Fn ''CFRunLoopGetMain''), (''_CFRunLoopRun'', Fn ''CFRunLoopRun''),
      (''_CFRunLoopRunInMode'', Fn ''CFRunLoopRunInMode''), (''_CFRunLoopStop'', Fn ''CFRunLoopStop''),
      (''_CFRunLoopWakeUp'', Fn ''CFRunLoopWakeUp''),
      (''_CFRunLoopSourceCreate'', Fn ''CFRunLoopSourceCreate''),
      (''_CFRunLoopSourceSignal'', Fn ''CFRunLoopSourceSignal''),
      (''_CFRunLoopAddSource'', Fn ''CFRunLoopAddSource''),
      (''_CFRunLoopRemoveSource'', Fn ''CFRunLoopRemoveSource''),
      (''_CFRunLoopTimerCreate'', Fn ''CFRunLoopTimerCreate''),
      (''_CFRunLoopAddTimer'', Fn ''CFRunLoopAddTimer''),
      (''_CFAbsoluteTimeGetCurrent'', Fn ''CFAbsoluteTimeGetCurrent''),
      (''_kCFRunLoopDefaultMode'', Data ''kCFRunLoopDefaultMode''),
      (''_kCFRunLoopCommonModes'', Data ''kCFRunLoopCommonModes''),
      (''_NSEventTrackingRunLoopMode'', Data ''NSEventTrackingRunLoopMode''),
      (''_NSModalPanelRunLoopMode'', Data ''NSModalPanelRunLoopMode''),
      (''_UITrackingRunLoopMode'', Data ''UITrackingRunLoopMode''),
      (''_CFRunLoopObserverCreate'', Fn ''CFRunLoopObserverCreate''),
      (''_CFRunLoopAddObserver'', Fn ''CFRunLoopAddObserver''),
      (''_CFRunLoopRemoveObserver'', Fn ''CFRunLoopRemoveObserver''),
      (''_CFRunLoopContainsSource'', Fn ''CFRunLoopContainsSource''),
      (''_CFRunLoopRemoveTimer'', Fn ''CFRunLoopRemoveTimer''),
      (''_CFRunLoopAddCommonMode'', Fn ''CFRunLoopAddCommonMode''),
      (''_CFRunLoopCopyCurrentMode'', Fn ''CFRunLoopCopyCurrentMode''),
      (''_CFRunLoopObserverCreateWithHandler'', Fn ''swift_noop_ptr''),
      (''_NSDefaultRunLoopMode'', Data ''kCFRunLoopDefaultMode''),
      (''_NSURLFileSizeKey'', Data ''NS_CONSTANT_STRINGS'')]"

definition core_graphics_entries :: export_table where
  "core_graphics_entries =
     [(''_CGPointMake'', Fn ''CGPointMake''), (''_CGSizeMake'', Fn ''CGSizeMake''),
      (''_CGRectMake'', Fn ''CGRectMake''), (''_CGRectGetMinX'', Fn ''CGRectGetMinX''),
      (''_CGRectGetMinY'', Fn ''CGRectGetMinY''), (''_CGRectGetMaxX'', Fn ''CGRectGetMaxX''),
      (''_CGRectGetMaxY'', Fn ''CGRectGetMaxY''), (''_CGRectGetMidX'', Fn ''CGRectGetMidX''),
      (''_CGRectGetMidY'', Fn ''CGRectGetMidY''), (''_CGRectGetWidth'', Fn ''CGRectGetWidth''),
      (''_CGRectGetHeight'', Fn ''CGRectGetHeight''), (''_CGRectIsEmpty'', Fn ''CGRectIsEmpty''),
      (''_CGRectIntersection'', Fn ''CGRectIntersection''), (''_CGRectUnion'', Fn ''CGRectUnion''),
      (''_CGRectContainsPoint'', Fn ''CGRectContainsPoint''), (''_CGPointZero'', Data ''CGPointZero''),
      (''_CGSizeZero'', Data ''CGSizeZero''), (''_CGRectZero'', Data ''CGRectZero''),
      (''_CGRectNull'', Data ''CGRectNull''),
      (''_CGAffineTransformIdentity'', Data ''CGAffineTransformIdentity''),
      (''_CGColorSpaceCreateDeviceRGB'', Fn ''CGColorSpaceCreateDeviceRGB''),
      (''_CGColorSpaceCreateDeviceGray'', Fn ''CGColorSpaceCreateDeviceGray''),
      (''_CGColorSpaceGetNumberOfComponents'', Fn ''CGColorSpaceGetNumberOfComponents''),
      (''_CGColorSpaceRelease'', Fn ''CGColorSpaceRelease''),
      (''_CGColorCreate'', Fn ''CGColorCreate''),
      (''_CGColorGetComponents'', Fn ''CGColorGetComponents''),
      (''_CGColorRelease'', Fn ''CGColorRelease''),
      (''_CGBitmapContextCreate'', Fn ''CGBitmapContextCreate''),
      (''_CGBitmapContextGetData'', Fn ''CGBitmapContextGetData''),
      (''_CGBitmapContextGetWidth'', Fn ''CGBitmapContextGetWidth''),
      (''_CGBitmapContextGetHeight'', Fn ''CGBitmapContextGetHeight''),
      (''_CGBitmapContextGetBytesPerRow'', Fn ''CGBitmapContextGetBytesPerRow''),
      (''_CGContextRelease'', Fn ''CGContextRelease''), (''_CGContextRetain'', Fn ''CGContextRetain''),
      (''_CGContextSaveGState'', Fn ''CGContextSaveGState''),
      (''_CGContextRestoreGState'', Fn ''CGContextRestoreGState''),
      (''_CGContextSetRGBFillColor'', Fn ''CGContextSetRGBFillColor''),
      (''_CGContextSetRGBStrokeColor'', Fn ''CGContextSetRGBStrokeColor''),
      (''_CGContextSetGrayFillColor'', Fn ''CGContextSetGrayFillColor''),
      (''_CGContextFillRect'', Fn ''CGContextFillRect''),
      (''_CGContextClearRect'', Fn ''CGContextClearRect''),
      (''_CGContextStrokeRect'', Fn ''CGContextStrokeRect''),
      (''_CGContextTranslateCTM'', Fn ''CGContextTranslateCTM''),
      (''_CGContextScaleCTM'', Fn ''CGContextScaleCTM''),
      (''_CGContextGetCTM'', Fn ''CGContextGetCTM''),
      (''_CGContextSetLineWidth'', Fn ''CGContextSetLineWidth''),
      (''_CGRectInset'', Fn ''cg_rect_inset''), (''_CGColorGetColorSpace'', Fn ''swift_noop_ptr''),
      (''_CGColorSpaceCopyName'', Fn ''swift_noop_ptr''),
      (''_CGColorSpaceCreateWithName'', Fn ''CGColorSpaceCreateDeviceRGB''),
      (''_CGEventCreateKeyboardEvent'', Fn ''swift_noop_ptr''), (''_CGEventPost'', Fn ''swift_noop''),
      (''_CGEventSetFlags'', Fn ''swift_noop''), (''_CGEventSourceCreate'', Fn ''swift_noop_ptr''),
      (''_CGEventSourceSetLocalEventsFilterDuringSuppressionState'', Fn ''swift_noop''),
      (''_CGWindowListCopyWindowInfo'', Fn ''swift_noop_ptr'')]"

definition core_graphics_class_names :: "string list" where
  "core_graphics_class_names =
     [''NSUserDefaults'', ''NSString'', ''NSMutableString'', ''NSNumber'', ''NSNull'', ''NSBundle'',
      ''NSNotificationCenter'', ''NSDistributedNotificationCenter'', ''NSProcessInfo'',
      ''NSFileManager'', ''NSObject'', ''NSArray'', ''NSMutableArray'', ''NSDictionary'',
      ''NSMutableDictionary'', ''NSData'', ''NSMutableData'', ''NSURL'', ''NSSet'', ''NSMutableSet'',
      ''NSDate'', ''NSError'', ''NSNumberFormatter'', ''NSByteCountFormatter'',
      ''NSMutableAttributedString'', ''NSAttributedString'']"

definition appkit_entries :: export_table where
  "appkit_entries =
     [(''_NSApplicationMain'', Fn ''NSApplicationMain''), (''_NSApp'', Fn ''noop_ptr''),
      (''_AXIsProcessTrustedWithOptions'', Fn ''swift_noop_false'')]"

definition appkit_constant_names :: "string list" where
  "appkit_constant_names =
     [''_NSAboutPanelOptionCredits'', ''_NSApplicationDidChangeScreenParametersNotification'',
      ''_NSFontAttributeName'', ''_NSForegroundColorAttributeName'', ''_NSKeyValueChangeIndexesKey'',
      ''_NSKeyValueChangeKindKey'', ''_NSKeyValueChangeNewKey'',
      ''_NSKeyValueChangeNotificationIsPriorKey'', ''_NSKeyValueChangeOldKey'',
      ''_NSLinkAttributeName'', ''_NSMenuDidBeginTrackingNotification'',
      ''_NSMenuDidEndTrackingNotification'', ''_NSPasteboardTypeFileURL'', ''_NSPasteboardTypeHTML'',
      ''_NSPasteboardTypePDF'', ''_NSPasteboardTypePNG'', ''_NSPasteboardTypeRTF'',
      ''_NSPasteboardTypeString'', ''_NSPasteboardTypeTIFF'', ''_NSPopoverWillShowNotification'',
      ''_NSToolbarFlexibleSpaceItemIdentifier'', ''_NSURLFileSizeKey'',
      ''_NSWindowDidBecomeKeyNotification'', ''_NSWindowDidResignKeyNotification'']"

definition appkit_entries2 :: export_table where
  "appkit_entries2 =
     [(''_CGEventCreateKeyboardEvent'', Fn ''swift_noop_ptr''), (''_CGEventPost'', Fn ''swift_noop''),
      (''_CGEventSetFlags'', Fn ''swift_noop''), (''_CGEventSourceCreate'', Fn ''swift_noop_ptr''),
      (''_CGEventSourceSetLocalEventsFilterDuringSuppressionState'', Fn ''swift_noop''),
      (''_CGWindowListCopyWindowInfo'', Fn ''swift_noop_ptr''),
      (''_CGRectInset'', Fn ''cg_rect_inset''), (''_CGColorGetColorSpace'', Fn ''swift_noop_ptr''),
      (''_CGColorSpaceCopyName'', Fn ''swift_noop_ptr''),
      (''_CGColorSpaceCreateWithName'', Fn ''CGColorSpaceCreateDeviceRGB''),
      (''_kCAMediaTimingFunctionEaseInEaseOut'', Data ''NS_CONSTANT_STRINGS'')]"

definition foundation_constant_names :: "string list" where
  "foundation_constant_names =
     [''_NSURLFileSizeKey'', ''_NSKeyValueChangeIndexesKey'', ''_NSKeyValueChangeKindKey'',
      ''_NSKeyValueChangeNewKey'', ''_NSKeyValueChangeNotificationIsPriorKey'',
      ''_NSKeyValueChangeOldKey'']"

definition foundation_class_names :: "string list" where
  "foundation_class_names =
     [''NSUserDefaults'', ''NSString'', ''NSMutableString'', ''NSNumber'', ''NSNull'', ''NSBundle'',
      ''NSNotificationCenter'', ''NSDistributedNotificationCenter'', ''NSProcessInfo'',
      ''NSFileManager'', ''NSNumberFormatter'', ''NSByteCountFormatter'',
      ''NSMutableAttributedString'', ''NSAttributedString'']"

definition system_extras_entries :: export_table where
  "system_extras_entries =
     [(''__Block_copy'', Fn ''block_copy''), (''__Block_release'', Fn ''swift_noop''),
      (''__NSConcreteStackBlock'', Data ''NS_CONCRETE_STACK_BLOCK''),
      (''__NSConcreteGlobalBlock'', Data ''NS_CONCRETE_STACK_BLOCK''),
      (''_dispatch_once_f'', Fn ''dispatch_once_f''),
      (''_dispatch_group_create'', Fn ''dispatch_group_create''),
      (''_dispatch_group_enter'', Fn ''swift_noop''), (''_dispatch_group_leave'', Fn ''swift_noop''),
      (''__dyld_register_func_for_add_image'', Fn ''swift_noop''),
      (''_getsectiondata'', Fn ''swift_noop_ptr''), (''__os_log_impl'', Fn ''swift_noop''),
      (''_os_log_type_enabled'', Fn ''swift_noop_false''), (''_os_release'', Fn ''swift_noop''),
      (''_voucher_adopt'', Fn ''swift_noop_ptr''), (''_localtime'', Fn ''libc_localtime''),
      (''_flockfile'', Fn ''swift_noop''), (''_funlockfile'', Fn ''swift_noop''),
      (''_malloc_size'', Fn ''malloc_size''),
      (''__swiftEmptyArrayStorage'', Data ''SWIFT_EMPTY_ARRAY''),
      (''__swiftEmptyDictionarySingleton'', Data ''SWIFT_EMPTY_DICT''),
      (''__swiftEmptySetSingleton'', Data ''SWIFT_EMPTY_SET''),
      (''__swift_stdlib_operatingSystemVersion'', Fn ''swift_os_version''),
      (''__swift_stdlib_reportUnimplementedInitializer'', Fn ''swift_deleted_method'')]"

definition carbon_entries :: export_table where
  "carbon_entries =
     [(''_GetEventDispatcherTarget'', Fn ''swift_noop_ptr''),
      (''_GetEventKind'', Fn ''swift_noop_false''), (''_GetEventParameter'', Fn ''swift_noop_false''),
      (''_InstallEventHandler'', Fn ''swift_noop_false''),
      (''_AddEventTypesToHandler'', Fn ''swift_noop_false''),
      (''_RemoveEventTypesFromHandler'', Fn ''swift_noop_false''),
      (''_RegisterEventHotKey'', Fn ''swift_noop_false''),
      (''_UnregisterEventHotKey'', Fn ''swift_noop_false''),
      (''_CopySymbolicHotKeys'', Fn ''swift_noop_ptr''), (''_LMGetKbdType'', Fn ''swift_noop_false''),
      (''_UCKeyTranslate'', Fn ''swift_noop_false''),
      (''_TISCopyCurrentASCIICapableKeyboardInputSource'', Fn ''swift_noop_ptr''),
      (''_TISCopyCurrentASCIICapableKeyboardLayoutInputSource'', Fn ''swift_noop_ptr''),
      (''_TISCopyCurrentKeyboardLayoutInputSource'', Fn ''swift_noop_ptr''),
      (''_TISCreateInputSourceList'', Fn ''swift_noop_ptr''),
      (''_TISGetInputSourceProperty'', Fn ''swift_noop_ptr'')]"

definition carbon_constant_names :: "string list" where
  "carbon_constant_names =
     [''_kTISPropertyInputModeID'', ''_kTISPropertyInputSourceID'',
      ''_kTISPropertyInputSourceIsASCIICapable'', ''_kTISPropertyInputSourceIsEnableCapable'',
      ''_kTISPropertyInputSourceIsEnabled'', ''_kTISPropertyInputSourceIsSelectCapable'',
      ''_kTISPropertyInputSourceIsSelected'', ''_kTISPropertyLocalizedName'',
      ''_kTISPropertyUnicodeKeyLayoutData'', ''_kTISNotifyEnabledKeyboardInputSourcesChanged'',
      ''_kTISNotifySelectedKeyboardInputSourceChanged'']"

definition quartz_core_entries :: export_table where
  "quartz_core_entries =
     [(''_kCAMediaTimingFunctionEaseInEaseOut'', Data ''NS_CONSTANT_STRINGS'')]"

definition core_services_entries :: export_table where
  "core_services_entries =
     [(''_UCKeyTranslate'', Fn ''swift_noop_false'')]"

definition swift_runtime_entries :: export_table where
  "swift_runtime_entries =
     [(''_swift_retain'', Fn ''swift_retain''), (''_swift_release'', Fn ''swift_release''),
      (''_swift_allocObject'', Fn ''swift_alloc_object''),
      (''_swift_deallocObject'', Fn ''swift_dealloc_object''),
      (''_swift_getObjectType'', Fn ''swift_noop_ptr''),
      (''_swift_conformsToProtocol'', Fn ''swift_noop_false''),
      (''_swift_dynamicCast'', Fn ''swift_noop_false''), (''_swift_once'', Fn ''swift_once''),
      (''_swift_beginAccess'', Fn ''swift_noop''), (''_swift_endAccess'', Fn ''swift_noop''),
      (''$ss27_finalizeUninitializedArrayySayxGABnlF'', Fn ''swift_noop_ptr''),
      (''_swift_bridgeObjectRelease'', Fn ''swift_noop''),
      (''_swift_bridgeObjectRetain'', Fn ''swift_noop_ptr''),
      (''_swift_unknownObjectRetain'', Fn ''swift_noop_ptr''),
      (''_swift_unknownObjectRelease'', Fn ''swift_noop''),
      (''_swift_deletedMethodError'', Fn ''swift_deleted_method''),
      (''_swift_getTypeByMangledNameInContext'', Fn ''swift_get_type_by_mangled_name''),
      (''_swift_getTypeByMangledNameInContextInMetadataState'', Fn ''swift_get_type_by_mangled_name''),
      (''_swift_getExistentialTypeMetadata'', Fn ''swift_noop_ptr''),
      (''_swift_getGenericMetadata'', Fn ''swift_get_generic_metadata_stub''),
      (''_swift_getObjCClassMetadata'', Fn ''swift_noop_ptr''),
      (''_swift_getWitnessTable'', Fn ''smart_getWitnessTable''),
      (''_swift_getAssociatedTypeWitness'', Fn ''swift_noop_ptr''),
      (''_swift_checkMetadataState'', Fn ''swift_check_metadata''),
      (''_swift_getFunctionTypeMetadata'', Fn ''swift_noop_ptr''),
      (''_swift_getTupleTypeMetadata'', Fn ''swift_noop_ptr''),
      (''_swift_allocateWitnessTablePack'', Fn ''swift_noop_ptr''),
      (''_swift_deallocateWitnessTablePack'', Fn ''swift_noop''),
      (''_swift_getMetatypeMetadata'', Fn ''swift_noop_ptr''),
      (''_swift_allocBox'', Fn ''swift_alloc_box''), (''_swift_projectBox'', Fn ''swift_noop_ptr''),
      (''_swift_deallocBox'', Fn ''swift_noop''), (''_swift_makeBoxUnique'', Fn ''swift_noop_ptr''),
      (''_swift_errorRetain'', Fn ''swift_noop_ptr''), (''_swift_errorRelease'', Fn ''swift_noop''),
      (''_swift_willThrow'', Fn ''swift_noop''),
      (''_swift_isUniquelyReferenced_nonNull_native'', Fn ''swift_noop_true''),
      (''_swift_isUniquelyReferenced_native'', Fn ''swift_noop_true''),
      (''_swift_stdlib_reportFatalError'', Fn ''swift_deleted_method''),
      (''_swift_getInitializedObjCClass'', Fn ''swift_noop_ptr''),
      (''_swift_lookUpClassMethod'', Fn ''swift_noop_ptr''),
      (''_swift_initStaticObject'', Fn ''swift_noop_ptr''),
      (''_swift_initStackObject'', Fn ''swift_noop_ptr''),
      (''_swift_initClassMetadata2'', Fn ''swift_noop''),
      (''_swift_initStructMetadata'', Fn ''swift_noop''),
      (''_swift_updateClassMetadata2'', Fn ''swift_noop''),
      (''_swift_isaMask'', Fn ''swift_isa_mask_val''), (''_swift_setDeallocating'', Fn ''swift_noop''),
      (''_swift_deallocClassInstance'', Fn ''swift_dealloc_object''),
      (''_swift_slowAlloc'', Fn ''swift_slow_alloc''),
      (''_swift_slowDealloc'', Fn ''swift_slow_dealloc''),
      (''_swift_retain_n'', Fn ''swift_noop_ptr''), (''_swift_release_n'', Fn ''swift_noop''),
      (''_swift_bridgeObjectRelease_n'', Fn ''swift_noop''),
      (''_swift_bridgeObjectRetain_n'', Fn ''swift_noop_ptr''),
      (''_swift_unownedRetain'', Fn ''swift_noop_ptr''),
      (''_swift_unownedRelease'', Fn ''swift_noop''),
      (''_swift_unownedRetainStrong'', Fn ''swift_noop_ptr''),
      (''_swift_weakInit'', Fn ''swift_noop_ptr''), (''_swift_weakAssign'', Fn ''swift_noop_ptr''),
      (''_swift_weakDestroy'', Fn ''swift_noop''), (''_swift_weakLoadStrong'', Fn ''swift_noop_ptr''),
      (''_swift_weakTakeInit'', Fn ''swift_noop_ptr''),
      (''_swift_weakTakeAssign'', Fn ''swift_noop_ptr''),
      (''_swift_weakCopyInit'', Fn ''swift_noop_ptr''),
      (''_swift_weakCopyAssign'', Fn ''swift_noop_ptr''),
      (''_swift_unknownObjectWeakInit'', Fn ''swift_noop_ptr''),
      (''_swift_unknownObjectWeakAssign'', Fn ''swift_noop_ptr''),
      (''_swift_unknownObjectWeakDestroy'', Fn ''swift_noop''),
      (''_swift_unknownObjectWeakLoadStrong'', Fn ''swift_noop_ptr''),
      (''_swift_dynamicCastClass'', Fn ''swift_noop_ptr''),
      (''_swift_dynamicCastMetatype'', Fn ''swift_noop_ptr''),
      (''_swift_dynamicCastObjCClass'', Fn ''swift_noop_ptr''),
      (''_swift_dynamicCastObjCProtocolConditional'', Fn ''swift_noop_false''),
      (''_swift_dynamicCastUnknownClass'', Fn ''swift_noop_ptr''),
      (''_swift_isEscapingClosureAtFileLocation'', Fn ''swift_noop_false''),
      (''_swift_isUniquelyReferenced_nonNull_bridgeObject'', Fn ''swift_noop_true''),
      (''_swift_isUniquelyReferencedNonObjC_nonNull_bridgeObject'', Fn ''swift_noop_true''),
      (''_swift_allocateGenericClassMetadata'', Fn ''swift_noop_ptr''),
      (''_swift_allocateGenericValueMetadata'', Fn ''swift_noop_ptr''),
      (''_swift_getSingletonMetadata'', Fn ''swift_get_singleton_metadata''),
      (''_swift_getForeignTypeMetadata'', Fn ''swift_noop_ptr''),
      (''_swift_getFunctionTypeMetadata0'', Fn ''swift_noop_ptr''),
      (''_swift_getFunctionTypeMetadata2'', Fn ''swift_noop_ptr''),
      (''_swift_getTupleTypeMetadata2'', Fn ''swift_noop_ptr''),
      (''_swift_getTupleTypeMetadata3'', Fn ''swift_noop_ptr''),
      (''_swift_getObjCClassFromMetadata'', Fn ''swift_noop_ptr''),
      (''_swift_getOpaqueTypeMetadata'', Fn ''swift_noop_ptr''),
      (''_swift_getOpaqueTypeMetadata2'', Fn ''swift_noop_ptr''),
      (''_swift_getOpaqueTypeConformance'', Fn ''swift_noop_ptr''),
      (''_swift_getOpaqueTypeConformance2'', Fn ''swift_noop_ptr''),
      (''_swift_getTypeByMangledNameInContext2'', Fn ''swift_get_type_by_mangled_name''),
      (''_swift_getTypeByMangledNameInContextInMetadataState2'', Fn ''swift_get_type_by_mangled_name''),
      (''_swift_getAssociatedConformanceWitness'', Fn ''swift_noop_ptr''),
      (''_swift_getKeyPath'', Fn ''safe_return_stub_object''),
      (''_swift_getAtKeyPath'', Fn ''swift_noop_ptr''), (''_swift_arrayDestroy'', Fn ''swift_noop''),
      (''_swift_arrayInitWithCopy'', Fn ''swift_noop_ptr''),
      (''_swift_arrayInitWithTakeBackToFront'', Fn ''swift_noop_ptr''),
      (''_swift_arrayInitWithTakeFrontToBack'', Fn ''swift_noop_ptr''),
      (''_swift_getEnumCaseMultiPayload'', Fn ''swift_noop_false''),
      (''_swift_getEnumTagSinglePayloadGeneric'', Fn ''swift_noop_false''),
      (''_swift_storeEnumTagMultiPayload'', Fn ''swift_noop''),
      (''_swift_storeEnumTagSinglePayloadGeneric'', Fn ''swift_noop''),
      (''_swift_allocError'', Fn ''swift_noop_ptr''), (''_swift_getErrorValue'', Fn ''swift_noop''),
      (''_swift_unexpectedError'', Fn ''swift_deleted_method''),
      (''_swift_stdlib_isStackAllocationSafe'', Fn ''swift_noop_true''),
      (''_swift_stdlib_random'', Fn ''swift_stdlib_random''),
      (''_swift_coroFrameAlloc'', Fn ''swift_task_alloc''),
      (''__swift_stdlib_operatingSystemVersion'', Fn ''swift_os_version''),
      (''__swift_stdlib_reportUnimplementedInitializer'', Fn ''swift_deleted_method''),
      (''__swift_stdlib_isStackAllocationSafe'', Fn ''swift_noop_true''),
      (''__swift_stdlib_random'', Fn ''swift_stdlib_random''),
      (''__swiftEmptyArrayStorage'', Data ''SWIFT_EMPTY_ARRAY''),
      (''__swiftEmptyDictionarySingleton'', Data ''SWIFT_EMPTY_DICT''),
      (''__swiftEmptySetSingleton'', Data ''SWIFT_EMPTY_SET''),
      (''_swift_async_extendedFramePointerFlags'', Fn ''swift_noop_false''),
      (''_swift_task_create'', Fn ''swift_task_create''),
      (''_swift_task_alloc'', Fn ''swift_task_alloc''), (''_swift_task_dealloc'', Fn ''swift_noop''),
      (''_swift_task_switch'', Fn ''swift_noop''), (''_swift_task_enqueue'', Fn ''swift_noop''),
      (''_swift_task_getCurrent'', Fn ''swift_noop_ptr''),
      (''_swift_task_getMainExecutor'', Fn ''swift_noop_ptr''),
      (''_swift_task_isCurrentExecutor'', Fn ''swift_noop_true''),
      (''_swift_job_run'', Fn ''swift_noop''), (''_swift_asyncLet_begin'', Fn ''swift_noop''),
      (''_swift_asyncLet_end'', Fn ''swift_noop''),
      (''_swift_taskGroup_initialize'', Fn ''swift_noop''),
      (''_swift_taskGroup_destroy'', Fn ''swift_noop''),
      (''_swift_taskGroup_addPending'', Fn ''swift_noop''),
      (''_swift_taskGroup_cancelAll'', Fn ''swift_noop''),
      (''_swift_taskGroup_wait_next_throwing'', Fn ''swift_noop''),
      (''_swift_continuation_init'', Fn ''swift_noop''),
      (''_swift_continuation_resume'', Fn ''swift_noop''),
      (''_swift_continuation_throwingResume'', Fn ''swift_noop''),
      (''_swift_continuation_throwingResumeWithError'', Fn ''swift_noop'')]"

definition libcxx_entries :: export_table where
  "libcxx_entries =
     [(''___cxa_atexit'', Fn ''swift_noop''), (''___cxa_guard_acquire'', Fn ''cxa_guard_acquire''),
      (''___cxa_guard_release'', Fn ''swift_noop''), (''___cxa_guard_abort'', Fn ''swift_noop''),
      (''__Znwm'', Fn ''cxx_new''), (''__ZdlPv'', Fn ''cxx_delete''), (''__ZdaPv'', Fn ''cxx_delete''),
      (''__Znam'', Fn ''cxx_new'')]"

section \<open>The symbols of a framework\<close>

text \<open>\<open>sym!\<close> and \<open>insert\<close> of a table into a \<open>HashMap\<close>; \<open>extend\<close> of one \<open>HashMap\<close> by another.\<close>

definition insert_exports :: "(export \<Rightarrow> u64) \<Rightarrow> export_table \<Rightarrow> symbols \<Rightarrow> symbols" where
  "insert_exports addr es s = fold (\<lambda>(n, e) s. alist_insert n (addr e) s) es s"

definition extend :: "symbols \<Rightarrow> symbols \<Rightarrow> symbols" where
  "extend s others = fold (\<lambda>(n, a) s. alist_insert n a s) others s"

definition constants :: "string list \<Rightarrow> string \<Rightarrow> export_table" where
  "constants names static = map (\<lambda>n. (n, Data static)) names"

text \<open>The loops over class names: a class that is registered is exported twice.\<close>

definition insert_classes :: "(string \<Rightarrow> u64) \<Rightarrow> string list \<Rightarrow> symbols \<Rightarrow> symbols" where
  "insert_classes get_class names s =
     fold (\<lambda>c s. let cls = get_class c in
             if cls \<noteq> 0
             then alist_insert (''_OBJC_METACLASS_$_'' @ c) cls (alist_insert (''_OBJC_CLASS_$_'' @ c) cls s)
             else s) names s"

definition core_foundation_symbols :: "(export \<Rightarrow> u64) \<Rightarrow> symbols" where
  "core_foundation_symbols addr = insert_exports addr core_foundation_entries []"

definition core_graphics_symbols :: "(export \<Rightarrow> u64) \<Rightarrow> (string \<Rightarrow> u64) \<Rightarrow> symbols" where
  "core_graphics_symbols addr get_class =
     insert_classes get_class core_graphics_class_names (insert_exports addr core_graphics_entries [])"

definition appkit_symbols :: "(export \<Rightarrow> u64) \<Rightarrow> symbols" where
  "appkit_symbols addr =
     insert_exports addr
       (appkit_entries @ constants appkit_constant_names ''NS_CONSTANT_STRINGS'' @ appkit_entries2) []"

definition foundation_symbols :: "(export \<Rightarrow> u64) \<Rightarrow> (string \<Rightarrow> u64) \<Rightarrow> symbols" where
  "foundation_symbols addr get_class =
     insert_classes get_class foundation_class_names
       (insert_exports addr (constants foundation_constant_names ''NS_CONSTANT_STRINGS'')
          (extend [] (core_foundation_symbols addr)))"

definition system_extras :: "(export \<Rightarrow> u64) \<Rightarrow> symbols" where
  "system_extras addr = insert_exports addr system_extras_entries []"

definition carbon_symbols :: "(export \<Rightarrow> u64) \<Rightarrow> symbols" where
  "carbon_symbols addr =
     insert_exports addr (carbon_entries @ constants carbon_constant_names ''SWIFT_EMPTY_ARRAY'') []"

definition quartz_core_symbols :: "(export \<Rightarrow> u64) \<Rightarrow> symbols" where
  "quartz_core_symbols addr = insert_exports addr quartz_core_entries []"

definition core_services_symbols :: "(export \<Rightarrow> u64) \<Rightarrow> symbols" where
  "core_services_symbols addr = insert_exports addr core_services_entries []"

definition swift_runtime_symbols :: "(export \<Rightarrow> u64) \<Rightarrow> symbols" where
  "swift_runtime_symbols addr = insert_exports addr swift_runtime_entries []"

definition libcxx_symbols :: "(export \<Rightarrow> u64) \<Rightarrow> symbols" where
  "libcxx_symbols addr = insert_exports addr libcxx_entries []"

section \<open>The registry\<close>

type_synonym fw_registry = "(string \<times> symbols) list"

definition own_tables :: "(export \<Rightarrow> u64) \<Rightarrow> (string \<Rightarrow> u64) \<Rightarrow> fw_registry" where
  "own_tables addr get_class =
     [(''/System/Library/Frameworks/CoreFoundation.framework/Versions/A/CoreFoundation'',
         core_foundation_symbols addr),
      (''/System/Library/Frameworks/Foundation.framework/Versions/C/Foundation'',
         foundation_symbols addr get_class),
      (''/System/Library/Frameworks/CoreGraphics.framework/Versions/A/CoreGraphics'',
         core_graphics_symbols addr get_class),
      (''/System/Library/Frameworks/AppKit.framework/Versions/C/AppKit'', appkit_symbols addr),
      (''/System/Library/Frameworks/ApplicationServices.framework/Versions/A/ApplicationServices'',
         alist_insert ''_AXIsProcessTrustedWithOptions'' (addr (Fn ''swift_noop_false''))
           (core_graphics_symbols addr get_class)),
      (''/System/Library/Frameworks/Carbon.framework/Versions/A/Carbon'', carbon_symbols addr),
      (''/System/Library/Frameworks/QuartzCore.framework/Versions/A/QuartzCore'', quartz_core_symbols addr),
      (''/System/Library/Frameworks/CoreServices.framework/Versions/A/CoreServices'',
         core_services_symbols addr)]"

text \<open>
  The names that keep their stub when the host has a Swift runtime: one list with
  \<open>GRAFTED_SWIFT_STUBS\<close> in the environment, another without it.
\<close>

definition all_stub_names :: "string list" where
  "all_stub_names =
     [''_swift_getSingletonMetadata'', ''swift_getSingletonMetadata'',
      ''_swift_conformsToProtocol'', ''swift_conformsToProtocol'',
      ''_swift_getWitnessTable'', ''swift_getWitnessTable'',
      ''_swift_getAssociatedTypeWitness'', ''swift_getAssociatedTypeWitness'',
      ''_swift_getAssociatedConformanceWitness'', ''swift_getAssociatedConformanceWitness'',
      ''_swift_checkMetadataState'', ''swift_checkMetadataState'',
      ''_swift_getGenericMetadata'', ''swift_getGenericMetadata'']"

definition kept_stub_names :: "string list" where
  "kept_stub_names =
     [''_swift_conformsToProtocol'', ''swift_conformsToProtocol'',
      ''_swift_getWitnessTable'', ''swift_getWitnessTable'',
      ''_swift_getGenericMetadata'', ''swift_getGenericMetadata'',
      ''_swift_getTypeByMangledNameInContext2'', ''swift_getTypeByMangledNameInContext2'',
      ''_swift_allocateWitnessTablePack'', ''swift_allocateWitnessTablePack'',
      ''_swift_deallocateWitnessTablePack'', ''swift_deallocateWitnessTablePack'',
      ''_swift_getKeyPath'', ''swift_getKeyPath'',
      ''_swift_getGenericMetadata'', ''swift_getGenericMetadata'',
      ''_swift_getSingletonMetadata'', ''swift_getSingletonMetadata'']"

definition keep_stubs :: "string list \<Rightarrow> symbols \<Rightarrow> symbols \<Rightarrow> symbols" where
  "keep_stubs names stubs merged =
     fold (\<lambda>n s. case map_of stubs n of Some a \<Rightarrow> alist_insert n a s | None \<Rightarrow> s) names merged"

definition swift_table :: "(export \<Rightarrow> u64) \<Rightarrow> symbols \<Rightarrow> bool \<Rightarrow> symbols" where
  "swift_table addr real stubs_set =
     (if real = [] then swift_runtime_symbols addr
      else let stubs_only = swift_runtime_symbols addr
           in keep_stubs (if stubs_set then all_stub_names else kept_stub_names) stubs_only
                (extend stubs_only real))"

definition swift_libraries :: "string list" where
  "swift_libraries =
     [''/usr/lib/swift/libswiftCore.dylib'', ''/usr/lib/swift/libswiftFoundation.dylib'',
      ''/usr/lib/swift/libswiftCoreFoundation.dylib'', ''/usr/lib/swift/libswiftCoreGraphics.dylib'',
      ''/usr/lib/swift/libswiftDarwin.dylib'', ''/usr/lib/swift/libswiftDispatch.dylib'',
      ''/usr/lib/swift/libswiftObjectiveC.dylib'', ''/usr/lib/swift/libswiftOSLog.dylib'',
      ''/usr/lib/swift/libswiftos.dylib'', ''/usr/lib/swift/libswiftMetal.dylib'',
      ''/usr/lib/swift/libswiftIOKit.dylib'', ''/usr/lib/swift/libswiftsimd.dylib'',
      ''/usr/lib/swift/libswiftSpatial.dylib'', ''/usr/lib/swift/libswiftQuartzCore.dylib'',
      ''/usr/lib/swift/libswiftObservation.dylib'', ''/usr/lib/swift/libswiftAccelerate.dylib'',
      ''/usr/lib/swift/libswiftAVFoundation.dylib'', ''/usr/lib/swift/libswiftCoreAudio.dylib'',
      ''/usr/lib/swift/libswiftCoreImage.dylib'', ''/usr/lib/swift/libswiftCoreLocation.dylib'',
      ''/usr/lib/swift/libswiftCoreMedia.dylib'', ''/usr/lib/swift/libswiftCoreMIDI.dylib'',
      ''/usr/lib/swift/libswiftXPC.dylib'', ''/usr/lib/swift/libswiftUniformTypeIdentifiers.dylib'',
      ''/usr/lib/swift/libswift_Concurrency.dylib'']"

text \<open>Swift symbols fill the gaps of the frameworks: \<open>entry(k).or_insert(v)\<close>.\<close>

definition filled_frameworks :: "string list" where
  "filled_frameworks =
     [''/System/Library/Frameworks/Foundation.framework/Versions/C/Foundation'',
      ''/System/Library/Frameworks/AppKit.framework/Versions/C/AppKit'',
      ''/System/Library/Frameworks/CoreFoundation.framework/Versions/A/CoreFoundation'',
      ''/System/Library/Frameworks/CoreGraphics.framework/Versions/A/CoreGraphics'',
      ''/System/Library/Frameworks/CoreServices.framework/Versions/A/CoreServices'']"

definition fill_gaps :: "symbols \<Rightarrow> symbols \<Rightarrow> symbols" where
  "fill_gaps swift_syms s =
     fold (\<lambda>(k, v) s. case map_of s k of None \<Rightarrow> alist_insert k v s | Some _ \<Rightarrow> s) swift_syms s"

definition fill_framework :: "symbols \<Rightarrow> string \<Rightarrow> fw_registry \<Rightarrow> fw_registry" where
  "fill_framework swift_syms fw reg =
     (case map_of reg fw of Some s \<Rightarrow> alist_insert fw (fill_gaps swift_syms s) reg | None \<Rightarrow> reg)"

definition system_libraries :: "(export \<Rightarrow> u64) \<Rightarrow> fw_registry" where
  "system_libraries addr =
     [(''/usr/lib/libc++.1.dylib'', libcxx_symbols addr), (''/usr/lib/libc++abi.dylib'', libcxx_symbols addr),
      (''/usr/lib/libcompression.dylib'', []), (''/usr/lib/libSystem.B.dylib'', system_extras addr),
      (''self'', system_extras addr)]"

fun contains_text :: "string \<Rightarrow> string \<Rightarrow> bool" where
  "contains_text [] p = (p = [])"
| "contains_text (c # s) p = (starts_with (c # s) p \<or> contains_text s p)"

definition swiftui_path :: string where
  "swiftui_path = ''/System/Library/Frameworks/SwiftUI.framework/Versions/A/SwiftUI''"

definition swiftui_defaults :: export_table where
  "swiftui_defaults =
     [(''_$s7SwiftUI3AppPAAE4mainyyFZ'', Fn ''NSApplicationMain''),
      (''_$s7SwiftUI28NSApplicationDelegateAdaptorVMa'', Fn ''swift_metadata_accessor_stub''),
      (''_$s7SwiftUI28NSApplicationDelegateAdaptorVMn'', Fn ''swift_metadata_accessor_stub''),
      (''_$s7SwiftUI28NSApplicationDelegateAdaptorVyACyxGxmcfC'', Fn ''swift_noop_ptr''),
      (''_$s7SwiftUI18LocalizedStringKeyVMa'', Fn ''swift_metadata_accessor_stub''),
      (''_$s7SwiftUI18LocalizedStringKeyVMn'', Fn ''swift_metadata_accessor_stub''),
      (''_$s7SwiftUI4TextVMa'', Fn ''swift_metadata_accessor_stub''),
      (''_$s7SwiftUI4TextVMn'', Fn ''swift_metadata_accessor_stub''),
      (''_$s7SwiftUI4ViewPMa'', Fn ''swift_metadata_accessor_stub''),
      (''_$s7SwiftUI4ViewPMn'', Fn ''swift_metadata_accessor_stub'')]"

definition intercepted :: "string \<Rightarrow> bool" where
  "intercepted k \<longleftrightarrow> k = ''$s7SwiftUI18LocalizedStringKeyV13stringLiteralACSS_tcfC''
     \<or> k = ''_$s7SwiftUI18LocalizedStringKeyV13stringLiteralACSS_tcfC''"

definition swiftui_symbols :: "(export \<Rightarrow> u64) \<Rightarrow> symbols \<Rightarrow> symbols" where
  "swiftui_symbols addr swift_syms =
     fold (\<lambda>(k, v) s.
         if contains_text k ''SwiftUI''
         then alist_insert k (if intercepted k then addr (Fn ''bridge_SwiftUI_LocalizedStringKey_init'') else v) s
         else s)
       swift_syms (insert_exports addr swiftui_defaults [])"

definition empty_frameworks :: "string list" where
  "empty_frameworks =
     [''/System/Library/Frameworks/SwiftData.framework/Versions/A/SwiftData'',
      ''/System/Library/Frameworks/_SwiftData_SwiftUI.framework/Versions/A/_SwiftData_SwiftUI'',
      ''/System/Library/Frameworks/Combine.framework/Versions/A/Combine'',
      ''/System/Library/Frameworks/Vision.framework/Versions/A/Vision'',
      ''/System/Library/Frameworks/UserNotifications.framework/Versions/A/UserNotifications'',
      ''/System/Library/Frameworks/ServiceManagement.framework/Versions/A/ServiceManagement'',
      ''/System/Library/Frameworks/AppIntents.framework/Versions/A/AppIntents'',
      ''/System/Library/Frameworks/SystemConfiguration.framework/Versions/A/SystemConfiguration'',
      ''/System/Library/Frameworks/Security.framework/Versions/A/Security'',
      ''/System/Library/Frameworks/ImageIO.framework/Versions/A/ImageIO'',
      ''/System/Library/Frameworks/IOKit.framework/Versions/A/IOKit'',
      ''/System/Library/Frameworks/WebKit.framework/Versions/A/WebKit'',
      ''/System/Library/Frameworks/UniformTypeIdentifiers.framework/Versions/A/UniformTypeIdentifiers'']"

definition insert_tables :: "fw_registry \<Rightarrow> fw_registry \<Rightarrow> fw_registry" where
  "insert_tables tables reg = fold (\<lambda>(p, s) reg. alist_insert p s reg) tables reg"

definition framework_registry ::
    "(export \<Rightarrow> u64) \<Rightarrow> (string \<Rightarrow> u64) \<Rightarrow> symbols \<Rightarrow> bool \<Rightarrow> fw_registry" where
  "framework_registry addr get_class real stubs_set =
     (let reg = insert_tables (own_tables addr get_class) [];
          swift_syms = swift_table addr real stubs_set;
          reg = insert_tables (map (\<lambda>lib. (lib, swift_syms)) swift_libraries) reg;
          reg = fold (fill_framework swift_syms) filled_frameworks reg;
          reg = insert_tables (system_libraries addr) reg;
          reg = alist_insert swiftui_path (swiftui_symbols addr swift_syms) reg
      in insert_tables (map (\<lambda>p. (p, [])) empty_frameworks) reg)"

text \<open>\<open>Linker::new\<close>: every framework table extends the table the shims have for its path.\<close>

definition merge_registry :: "fw_registry \<Rightarrow> fw_registry \<Rightarrow> fw_registry" where
  "merge_registry reg frameworks =
     fold (\<lambda>(path, syms) reg.
         alist_insert path (extend (case map_of reg path of None \<Rightarrow> [] | Some s \<Rightarrow> s) syms) reg)
       frameworks reg"

definition linker_new :: "fw_registry \<Rightarrow> fw_registry \<Rightarrow> linker" where
  "linker_new shims frameworks =
     \<lparr>registry = merge_registry shims frameworks, lk_resolver = resolver_new, loaded_libraries = []\<rparr>"

section \<open>Tables by their last entry\<close>

definition exported :: "export_table \<Rightarrow> string \<Rightarrow> export option" where
  "exported es n = map_of (rev es) n"

definition lookup :: "fw_registry \<Rightarrow> string \<Rightarrow> string \<Rightarrow> u64 option" where
  "lookup reg path n = Option.bind (map_of reg path) (\<lambda>s. map_of s n)"

named_theorems layer_simps \<open>what a layer of the registry answers\<close>

lemma fold_insert_pairs:
  "map_of (fold (\<lambda>(n, v) s. alist_insert n (f v) s) es s) x
    = (case map_of (rev es) x of Some v \<Rightarrow> Some (f v) | None \<Rightarrow> map_of s x)"
proof (induction es arbitrary: s)
  case (Cons e es)
  obtain n v where "e = (n, v)" by (cases e)
  with Cons show ?case by (auto simp: map_add_def split: option.splits)
qed simp

lemma insert_exports_lookup [layer_simps]:
  "map_of (insert_exports addr es s) n
    = (case exported es n of Some e \<Rightarrow> Some (addr e) | None \<Rightarrow> map_of s n)"
  unfolding insert_exports_def exported_def by (rule fold_insert_pairs)

lemma map_of_rev: "distinct (map fst xs) \<Longrightarrow> map_of (rev xs) = map_of xs"
  by (rule map_of_inject_set [THEN iffD2]) (simp_all add: rev_map [symmetric])

lemma extend_lookup [layer_simps]:
  "distinct (map fst others) \<Longrightarrow>
    map_of (extend s others) n = (case map_of others n of Some a \<Rightarrow> Some a | None \<Rightarrow> map_of s n)"
  using fold_insert_pairs [where f = "\<lambda>a. a" and es = others] by (simp add: extend_def map_of_rev)

lemma insert_tables_lookup [layer_simps]:
  "map_of (insert_tables ts reg) p = (case map_of (rev ts) p of Some s \<Rightarrow> Some s | None \<Rightarrow> map_of reg p)"
  using fold_insert_pairs [where f = "\<lambda>s. s" and es = ts] by (simp add: insert_tables_def)

lemma keep_stubs_lookup [layer_simps]:
  "map_of (keep_stubs names stubs s) n
    = (if n \<in> set names \<and> map_of stubs n \<noteq> None then map_of stubs n else map_of s n)"
  by (induction names arbitrary: s) (auto simp: keep_stubs_def split: option.splits)

lemma fill_gaps_lookup [layer_simps]:
  "map_of (fill_gaps swift s) n = (case map_of s n of Some a \<Rightarrow> Some a | None \<Rightarrow> map_of swift n)"
proof (induction swift arbitrary: s)
  case (Cons e swift)
  obtain k v where "e = (k, v)" by (cases e)
  with Cons show ?case by (auto simp: fill_gaps_def split: option.splits)
qed (simp add: fill_gaps_def split: option.splits)

lemma fill_frameworks_lookup [layer_simps]:
  "distinct fws \<Longrightarrow> map_of (fold (fill_framework swift) fws reg) p
    = (if p \<in> set fws then map_option (fill_gaps swift) (map_of reg p) else map_of reg p)"
proof (induction fws arbitrary: reg)
  case (Cons fw fws)
  then show ?case by (auto simp: fill_framework_def split: option.splits)
qed simp

lemma distinct_fold_insert:
  "(\<And>x s. distinct (map fst s) \<Longrightarrow> distinct (map fst (f x s))) \<Longrightarrow> distinct (map fst s)
    \<Longrightarrow> distinct (map fst (fold f xs s))"
  by (induction xs arbitrary: s) simp_all

lemma distinct_symbols:
  "distinct (map fst s) \<Longrightarrow> distinct (map fst (insert_exports addr es s))"
  "distinct (map fst s) \<Longrightarrow> distinct (map fst (extend s others))"
  "distinct (map fst s) \<Longrightarrow> distinct (map fst (keep_stubs names stubs s))"
  "distinct (map fst reg) \<Longrightarrow> distinct (map fst (insert_tables ts reg))"
  "distinct (map fst reg) \<Longrightarrow> distinct (map fst (fold (fill_framework sw) fws reg))"
  "distinct (map fst s) \<Longrightarrow> distinct (map fst (insert_classes get_class names s))"
  "distinct (map fst s) \<Longrightarrow> distinct (map fst (fill_gaps sw s))"
  unfolding insert_exports_def extend_def keep_stubs_def insert_tables_def insert_classes_def fill_gaps_def
  by (rule distinct_fold_insert;
      auto simp: fill_framework_def Let_def simp del: map_map split: option.split)+

section \<open>What the layers answer\<close>

text \<open>
  The reference: the stub table, over it the host's symbols except those that keep their stub.
\<close>

definition swift_export :: "(export \<Rightarrow> u64) \<Rightarrow> symbols \<Rightarrow> bool \<Rightarrow> string \<Rightarrow> u64 option" where
  "swift_export addr real stubs_set n =
     (let stub = map_option addr (exported swift_runtime_entries n)
      in if real = [] \<or> n \<in> set (if stubs_set then all_stub_names else kept_stub_names) \<and> stub \<noteq> None
           \<or> map_of real n = None
         then stub else map_of real n)"

lemma swift_table_lookup:
  "distinct (map fst real) \<Longrightarrow> map_of (swift_table addr real stubs_set) n = swift_export addr real stubs_set n"
  by (auto simp: swift_table_def swift_export_def swift_runtime_symbols_def layer_simps Let_def split: option.splits)

lemma swift_table_distinct: "distinct (map fst (swift_table addr real stubs_set))"
  by (simp add: swift_table_def swift_runtime_symbols_def distinct_symbols Let_def)

text \<open>The paths of the registry do not collide.\<close>

definition own_paths :: "string list" where
  "own_paths = map fst (own_tables (\<lambda>_. 0) (\<lambda>_. 0))"

lemma own_paths: "map fst (own_tables addr get_class) = own_paths"
  by (simp add: own_paths_def own_tables_def)

definition library_paths :: "string list" where
  "library_paths = map fst (system_libraries (\<lambda>_. 0)) @ swiftui_path # empty_frameworks"

lemma library_paths: "set library_paths = fst ` set (system_libraries addr) \<union> insert swiftui_path (set empty_frameworks)"
  by (auto simp: library_paths_def system_libraries_def)

lemmas path_defs = own_paths_def own_tables_def library_paths_def system_libraries_def swiftui_path_def
  empty_frameworks_def filled_frameworks_def swift_libraries_def

lemma paths_apart:
  "distinct filled_frameworks" "distinct own_paths" "set filled_frameworks \<subseteq> set own_paths"
  "set own_paths \<inter> set library_paths = {}" "set swift_libraries \<inter> set library_paths = {}"
  "set swift_libraries \<inter> set own_paths = {}"
  by (simp_all add: path_defs)

lemma registry_by_layer:
  "map_of (framework_registry addr get_class real stubs_set) p
    = (if p \<in> set empty_frameworks then Some []
       else if p = swiftui_path then Some (swiftui_symbols addr (swift_table addr real stubs_set))
       else case map_of (rev (system_libraries addr)) p of Some s \<Rightarrow> Some s
       | None \<Rightarrow>
           (let s = (if p \<in> set swift_libraries then Some (swift_table addr real stubs_set)
                     else map_of (own_tables addr get_class) p)
            in if p \<in> set filled_frameworks then map_option (fill_gaps (swift_table addr real stubs_set)) s else s))"
proof -
  have const: "map_of (rev (map (\<lambda>p. (p, v)) ps)) p = (if p \<in> set ps then Some v else None)" for v :: symbols and ps
    by (induction ps) (auto simp: map_add_def split: option.split)
  have own: "map_of (rev (own_tables addr get_class)) = map_of (own_tables addr get_class)"
    by (rule map_of_rev) (simp only: own_paths paths_apart)
  show ?thesis
    unfolding framework_registry_def Let_def insert_tables_lookup const own map_of_alist_insert fun_upd_apply
      fill_frameworks_lookup [OF paths_apart(1)]
    by (auto split: option.splits)
qed

definition own_export :: "(export \<Rightarrow> u64) \<Rightarrow> (string \<Rightarrow> u64) \<Rightarrow> string \<Rightarrow> string \<Rightarrow> u64 option" where
  "own_export addr get_class p n = lookup (own_tables addr get_class) p n"

lemma own_path_known: "p \<in> set own_paths \<Longrightarrow> \<exists>s. map_of (own_tables addr get_class) p = Some s"
  by (cases "map_of (own_tables addr get_class) p")
    (simp_all add: map_of_eq_None_iff own_paths flip: set_map)

lemma library_unknown: "p \<notin> set library_paths \<Longrightarrow> map_of (rev (system_libraries addr)) p = None"
  using library_paths [of addr] by (force simp: map_of_eq_None_iff)

lemma free_path:
  assumes "p \<in> set swift_libraries \<union> set own_paths"
  shows "p \<notin> set empty_frameworks" "p \<noteq> swiftui_path" "map_of (rev (system_libraries addr)) p = None"
  using assms paths_apart(4,5) library_paths [of addr] library_unknown [of p addr] by auto

lemma swift_library_lookup:
  assumes "distinct (map fst real)" and "p \<in> set swift_libraries"
  shows "lookup (framework_registry addr get_class real stubs_set) p n = swift_export addr real stubs_set n"
  using assms(2) free_path [of p] paths_apart(3,6)
  by (auto simp: lookup_def registry_by_layer swift_table_lookup [OF assms(1)] Let_def)

text \<open>
  C11. The layers of the framework registry. Each of the Swift libraries exports the stub table
  overlaid by the symbols of the host's Swift runtime, except the names listed to keep their
  stub and only where a stub of exactly that name exists; without a Swift runtime it exports
  the stubs. A framework exports its own table first and, for the five frameworks Swift
  programs import Swift symbols from, falls back on the Swift table; a Swift symbol never
  replaces one of the framework's own.
\<close>

theorem registry_layers:
  assumes "distinct (map fst real)"
  shows "(\<forall>p \<in> set swift_libraries.
      lookup (framework_registry addr get_class real stubs_set) p n = swift_export addr real stubs_set n)
    \<and> (\<forall>p \<in> set filled_frameworks.
      lookup (framework_registry addr get_class real stubs_set) p n
        = (case own_export addr get_class p n of Some a \<Rightarrow> Some a | None \<Rightarrow> swift_export addr real stubs_set n))
    \<and> (\<forall>p \<in> set own_paths - set filled_frameworks.
      lookup (framework_registry addr get_class real stubs_set) p n = own_export addr get_class p n)"
proof (intro conjI ballI)
  fix p assume p: "p \<in> set swift_libraries"
  then show "lookup (framework_registry addr get_class real stubs_set) p n = swift_export addr real stubs_set n"
    by (rule swift_library_lookup [OF assms])
next
  fix p assume p: "p \<in> set filled_frameworks"
  then have "p \<in> set own_paths" "p \<notin> set swift_libraries" using paths_apart(3,6) by auto
  moreover from this obtain s where "map_of (own_tables addr get_class) p = Some s" using own_path_known by blast
  ultimately show "lookup (framework_registry addr get_class real stubs_set) p n
      = (case own_export addr get_class p n of Some a \<Rightarrow> Some a | None \<Rightarrow> swift_export addr real stubs_set n)"
    using p free_path [of p]
    by (simp add: lookup_def own_export_def registry_by_layer fill_gaps_lookup swift_table_lookup [OF assms] Let_def
        split: option.split)
next
  fix p assume "p \<in> set own_paths - set filled_frameworks"
  then show "lookup (framework_registry addr get_class real stubs_set) p n = own_export addr get_class p n"
    using free_path [of p] paths_apart(6)
    by (auto simp: lookup_def own_export_def registry_by_layer Let_def)
qed

section \<open>The registry of the linker\<close>

lemma lookup_absent: "p \<notin> fst ` set reg \<Longrightarrow> lookup reg p n = None"
  by (simp add: lookup_def map_of_eq_None_iff [THEN iffD2])

lemma merge_lookup:
  "distinct (map fst fw) \<Longrightarrow> \<forall>(p, s) \<in> set fw. distinct (map fst s) \<Longrightarrow>
    lookup (merge_registry reg fw) p n
      = (case lookup fw p n of Some a \<Rightarrow> Some a | None \<Rightarrow> lookup reg p n)"
proof (induction fw arbitrary: reg)
  case Nil
  then show ?case by (simp add: merge_registry_def lookup_def)
next
  case (Cons e fw)
  obtain q s where e: "e = (q, s)" by (cases e)
  have q: "lookup fw q n = None" using Cons.prems(1) by (intro lookup_absent) (simp add: e)
  from Cons have "lookup (merge_registry reg (e # fw)) p n
      = (case lookup fw p n of Some a \<Rightarrow> Some a
         | None \<Rightarrow> lookup (alist_insert q (extend (case map_of reg q of None \<Rightarrow> [] | Some s \<Rightarrow> s) s) reg) p n)"
    by (simp add: merge_registry_def e)
  then show ?case using q Cons.prems(2)
    by (auto simp: lookup_def e extend_lookup split: option.splits)
qed

lemma own_tables_distinct: "map_of (own_tables addr get_class) p = Some s \<Longrightarrow> distinct (map fst s)"
proof -
  have "\<forall>(p, s) \<in> set (own_tables addr get_class). distinct (map fst s)"
    by (simp add: own_tables_def core_foundation_symbols_def foundation_symbols_def core_graphics_symbols_def
        appkit_symbols_def carbon_symbols_def quartz_core_symbols_def core_services_symbols_def distinct_symbols)
  then show "map_of (own_tables addr get_class) p = Some s \<Longrightarrow> distinct (map fst s)" by (auto dest: map_of_SomeD)
qed

lemma system_libraries_distinct: "map_of (rev (system_libraries addr)) p = Some s \<Longrightarrow> distinct (map fst s)"
proof -
  have "\<forall>(p, s) \<in> set (system_libraries addr). distinct (map fst s)"
    by (simp add: system_libraries_def libcxx_symbols_def system_extras_def distinct_symbols)
  then show "map_of (rev (system_libraries addr)) p = Some s \<Longrightarrow> distinct (map fst s)"
    by (metis (no_types, lifting) case_prodD map_of_SomeD set_rev)
qed

lemma swiftui_distinct: "distinct (map fst (swiftui_symbols addr syms))"
  unfolding swiftui_symbols_def
  by (rule distinct_fold_insert) (auto simp: distinct_symbols simp del: map_map)

lemma registry_distinct: "distinct (map fst (framework_registry addr get_class real stubs_set))"
  by (simp add: framework_registry_def distinct_symbols Let_def)

lemma registry_tables_distinct:
  "\<forall>(p, s) \<in> set (framework_registry addr get_class real stubs_set). distinct (map fst s)"
proof (safe)
  fix p s assume "(p, s) \<in> set (framework_registry addr get_class real stubs_set)"
  then have "map_of (framework_registry addr get_class real stubs_set) p = Some s"
    using registry_distinct by (rule map_of_is_SomeI [rotated])
  then show "distinct (map fst s)"
    unfolding registry_by_layer
    by (auto simp: swiftui_distinct swift_table_distinct distinct_symbols Let_def own_tables_distinct
        intro: system_libraries_distinct split: if_splits option.splits)
qed

lemma linker_registry_lookup:
  "lookup (registry (linker_new shims (framework_registry addr get_class real stubs_set))) p n
    = (case lookup (framework_registry addr get_class real stubs_set) p n of Some a \<Rightarrow> Some a | None \<Rightarrow> lookup shims p n)"
  by (simp add: linker_new_def merge_lookup registry_distinct registry_tables_distinct)

lemma libsystem_extras:
  "lib \<in> set libsystem_names \<Longrightarrow> lookup (framework_registry addr get_class real stubs_set) lib n
    = (if lib \<in> {''/usr/lib/libSystem.B.dylib'', ''self''}
       then map_option addr (exported system_extras_entries n) else None)"
proof -
  assume lib: "lib \<in> set libsystem_names"
  then have "lib \<notin> set empty_frameworks" "lib \<noteq> swiftui_path" "lib \<notin> set swift_libraries" "lib \<notin> set own_paths"
    by (auto simp: libsystem_names_def path_defs)
  moreover from this have "map_of (own_tables addr get_class) lib = None"
    using own_paths [of addr get_class] by (simp add: map_of_eq_None_iff flip: set_map)
  moreover have "map_of (rev (system_libraries addr)) lib
      = (if lib \<in> {''/usr/lib/libSystem.B.dylib'', ''self''} then Some (system_extras addr) else None)"
    using lib by (auto simp: libsystem_names_def system_libraries_def)
  ultimately show ?thesis
    by (auto simp: lookup_def registry_by_layer system_extras_def layer_simps Let_def split: option.split)
qed

text \<open>The extras of the frameworks and the shims of libSystem have no name in common.\<close>

lemma default_registry_path:
  assumes "default_registry mm afn saddr w = Some (shims, w')"
  shows "p \<notin> set libsystem_names \<Longrightarrow> p \<notin> set libobjc_names \<Longrightarrow> lookup shims p n = None"
proof -
  obtain s objc where "shims = fold (\<lambda>name reg. alist_insert name objc reg) libobjc_names
      (fold (\<lambda>name reg. alist_insert name s reg) libsystem_names [])"
    using assms by (auto simp: default_registry_def bind_eq_Some_conv)
  then show "p \<notin> set libsystem_names \<Longrightarrow> p \<notin> set libobjc_names \<Longrightarrow> lookup shims p n = None"
    by (simp add: lookup_def fold_insert_lookup)
qed

lemma shim_paths_apart:
  "set own_paths \<inter> (set libsystem_names \<union> set libobjc_names) = {}"
  "set swift_libraries \<inter> (set libsystem_names \<union> set libobjc_names) = {}"
  by (simp_all add: path_defs libsystem_names_def libobjc_names_def)

lemma table_lookup_own: "lookup (registry lk) lib n = Some a \<Longrightarrow> table_lookup gp lk lib n = Some a"
  by (simp add: table_lookup_def lookup_def)

text \<open>What the linker's registry has for a name of libSystem.\<close>

definition libsystem_export :: "(export \<Rightarrow> u64) \<Rightarrow> fw_registry \<Rightarrow> string \<Rightarrow> string \<Rightarrow> u64 option" where
  "libsystem_export addr shims lib n =
     (case exported system_extras_entries n of
        Some e \<Rightarrow> if lib \<in> {''/usr/lib/libSystem.B.dylib'', ''self''} then Some (addr e) else lookup shims lib n
      | None \<Rightarrow> lookup shims lib n)"

text \<open>
  C10. What the linker answers once the two registries are merged: a name of libSystem resolves
  to its shim (for a libc function, its trampoline) in each of the library's five names, unless
  the frameworks' extras define it, which they do in the two names they are registered under;
  and an import from a framework or a Swift library resolves as the framework registry alone
  has it, the shims having no table for its path.
\<close>

theorem linker_registry:
  assumes "default_registry mm afn saddr w = Some (shims, w')"
    and "lk = linker_new shims (framework_registry addr get_class real stubs_set)"
  shows "(\<forall>lib \<in> set libsystem_names.
      lookup (registry lk) lib n = libsystem_export addr shims lib n
      \<and> (\<forall>a. libsystem_export addr shims lib n = Some a \<longrightarrow> table_lookup gp lk lib n = Some a))
    \<and> (\<forall>p \<in> set own_paths \<union> set swift_libraries.
      lookup (registry lk) p n = lookup (framework_registry addr get_class real stubs_set) p n
      \<and> (\<forall>a. lookup (framework_registry addr get_class real stubs_set) p n = Some a \<longrightarrow> table_lookup gp lk p n = Some a))"
proof -
  have sys: "lookup (registry lk) lib n = libsystem_export addr shims lib n" if "lib \<in> set libsystem_names" for lib
    using that by (auto simp: assms(2) linker_registry_lookup libsystem_extras libsystem_export_def split: option.split)
  have fw: "lookup (registry lk) p n = lookup (framework_registry addr get_class real stubs_set) p n"
    if "p \<in> set own_paths \<union> set swift_libraries" for p
  proof -
    have "p \<notin> set libsystem_names" "p \<notin> set libobjc_names" using that shim_paths_apart by auto
    then show ?thesis
      using default_registry_path [OF assms(1), of p n]
      by (simp add: assms(2) linker_registry_lookup split: option.split)
  qed
  show ?thesis by (intro conjI ballI allI impI) (simp_all add: sys fw table_lookup_own)
qed

text \<open>The addresses the examples use: the length of the name, the host's Swift at 0x9000.\<close>

definition demo_addr :: "export \<Rightarrow> u64" where
  "demo_addr e = (case e of Fn f \<Rightarrow> of_nat (length f) | Data v \<Rightarrow> 0x1000 + of_nat (length v))"

theorem registry_layers_witness:
  "lookup (framework_registry demo_addr (\<lambda>_. 0) [(''_swift_retain'', 0x9000), (''_CFRetain'', 0x9008)] False)
     ''/usr/lib/swift/libswiftCore.dylib'' ''_swift_retain'' = Some 0x9000
   \<and> lookup (framework_registry demo_addr (\<lambda>_. 0) [(''_swift_retain'', 0x9000), (''_CFRetain'', 0x9008)] False)
     ''/System/Library/Frameworks/CoreFoundation.framework/Versions/A/CoreFoundation'' ''_CFRetain'' = Some 8"
proof -
  let ?real = "[(''_swift_retain'', 0x9000), (''_CFRetain'', 0x9008)] :: symbols"
  let ?cf = "''/System/Library/Frameworks/CoreFoundation.framework/Versions/A/CoreFoundation''"
  have d: "distinct (map fst ?real)" by simp
  have e: "swift_export demo_addr ?real False ''_swift_retain'' = Some 0x9000"
    by (simp add: swift_export_def kept_stub_names_def)
  have "exported core_foundation_entries ''_CFRetain'' = Some (Fn ''CFRetain'')"
    by (simp add: exported_def core_foundation_entries_def)
  then have o: "own_export demo_addr (\<lambda>_. 0) ?cf ''_CFRetain'' = Some 8"
    by (simp add: own_export_def lookup_def own_tables_def core_foundation_symbols_def layer_simps demo_addr_def)
  have m: "''/usr/lib/swift/libswiftCore.dylib'' \<in> set swift_libraries" "?cf \<in> set filled_frameworks"
    by (simp_all add: swift_libraries_def filled_frameworks_def)
  show ?thesis
    using registry_layers [OF d, of demo_addr "\<lambda>_. 0" False "''_swift_retain''"]
      registry_layers [OF d, of demo_addr "\<lambda>_. 0" False "''_CFRetain''"] m e o
    by (auto split: option.splits)
qed

theorem linker_registry_witness:
  "\<exists>shims w. default_registry (Some 0x100000) 0x9000 (\<lambda>_. 0x5000) (None, \<lambda>_. 0) = Some (shims, w)
    \<and> table_lookup (\<lambda>_. Inl ''no file'') (linker_new shims (framework_registry demo_addr (\<lambda>_. 0) [] False))
        ''self'' ''_localtime'' = Some 14"
proof -
  obtain shims w where reg: "default_registry (Some 0x100000) 0x9000 (\<lambda>_. 0x5000) (None, \<lambda>_. 0) = Some (shims, w)"
    by (rule registry_resolves [where base = "0x100000" and afn = "0x9000" and addr = "\<lambda>_. 0x5000" and m = "\<lambda>_. 0"]) blast
  have "exported system_extras_entries ''_localtime'' = Some (Fn ''libc_localtime'')"
    by (simp add: exported_def system_extras_entries_def)
  then have "libsystem_export demo_addr shims ''self'' ''_localtime'' = Some 14"
    by (simp add: libsystem_export_def demo_addr_def)
  moreover have "''self'' \<in> set libsystem_names" by (simp add: libsystem_names_def)
  ultimately have "table_lookup (\<lambda>_. Inl ''no file'') (linker_new shims (framework_registry demo_addr (\<lambda>_. 0) [] False))
        ''self'' ''_localtime'' = Some 14"
    using linker_registry [OF reg refl, of demo_addr "\<lambda>_. 0" "[]" False "''_localtime''" "\<lambda>_. Inl ''no file''"]
    by blast
  with reg show ?thesis by blast
qed

end
