(* ===== verification/SwiftStubs.thy ===== *)
theory SwiftStubs
  imports ShimCalls Geometry
begin

text \<open>
  \<open>crates/grafted-frameworks/src/registry.rs\<close>, from \<open>swift_alloc_object\<close> on: the functions
  that stand in for the Swift runtime. Metadata is made up on the heap (a value witness table,
  a descriptor, a record that points at both), objects are given a reference count that is
  never touched again. (The entry points of the host's runtime that are overwritten are in
  \<open>SwiftPatches\<close>.) Parameters: the blocks \<open>calloc\<close>
  hands out (\<open>fresh n\<close> is the n-th), the addresses of the stubs' functions (\<open>fn\<close>), the host's
  Swift runtime and \<open>dlsym\<close>.
\<close>

section \<open>The state of the stubs\<close>

text \<open>
  The statics of the file, with the memory they point into (0 and \<open>None\<close>: not made yet), and
  the blocks \<open>calloc\<close> has handed out: how many, and of what size each was asked for.
\<close>

record stub_state =
  smem :: mem
  n_blocks :: nat
  block_size :: "nat \<Rightarrow> nat"
  STUB :: ptr
  STUB_WT :: ptr
  STUB_OBJ :: ptr
  STUB_PACK :: ptr
  CACHED_METADATA :: "ptr option"
  singleton_cache :: "ptr \<Rightarrow> ptr option"
  name_cache :: "u8 list \<Rightarrow> ptr option"

record swift_runtime =
  LIFECYCLE_PATCHES_ACTIVE :: bool
  REAL_CHECK_METADATA :: u64
  REAL_GET_ASSOC_TYPE :: u64
  REAL_GET_TYPE_FN :: u64

definition calloc :: "(nat \<Rightarrow> ptr) \<Rightarrow> nat \<Rightarrow> stub_state \<Rightarrow> ptr \<times> stub_state" where
  "calloc fresh size_bytes st =
     (fresh (n_blocks st),
      st\<lparr>n_blocks := n_blocks st + 1, block_size := (block_size st)(n_blocks st := size_bytes),
         smem := store_bytes (smem st) (fresh (n_blocks st)) (replicate size_bytes 0)\<rparr>)"

text \<open>Consecutive words written through a \<open>*mut u64\<close>.\<close>

primrec store_words :: "mem \<Rightarrow> ptr \<Rightarrow> u64 list \<Rightarrow> mem" where
  "store_words m p [] = m"
| "store_words m p (w # ws) = store_words (store64 m p w) (p + 8) ws"

definition put_words :: "ptr \<Rightarrow> u64 list \<Rightarrow> stub_state \<Rightarrow> stub_state" where
  "put_words p ws st = st\<lparr>smem := store_words (smem st) p ws\<rparr>"

section \<open>Metadata\<close>

text \<open>\<open>shim_unresolved_soft_metadata\<close>: one record for every type that cannot be resolved.\<close>

definition shim_unresolved_soft_metadata :: "(nat \<Rightarrow> ptr) \<Rightarrow> (string \<Rightarrow> u64) \<Rightarrow> stub_state \<Rightarrow> ptr \<times> stub_state" where
  "shim_unresolved_soft_metadata fresh fn st =
     (if STUB st \<noteq> 0 then (STUB st, st)
      else let (raw, st) = calloc fresh 512 st;
               metadata = raw + 64;
               (vwt, st) = calloc fresh 256 st;
               st = put_words vwt (replicate 8 (fn ''dummy_fn'') @ [8, 8, 7]) st;
               (desc, st) = calloc fresh 256 st;
               st = put_words (metadata - 8) [vwt] st;
               st = put_words metadata (0x200 # desc # replicate 46 metadata) st
           in (metadata, st\<lparr>STUB := metadata\<rparr>))"

definition value_witnesses :: "(string \<Rightarrow> u64) \<Rightarrow> u64 list" where
  "value_witnesses fn =
     [fn ''vwt_initcopy'', fn ''vwt_destroy'', fn ''vwt_initcopy'', fn ''vwt_initcopy'', fn ''vwt_initcopy'',
      fn ''vwt_initcopy'', fn ''vwt_enum_tag'', fn ''vwt_store_enum_tag'', 8, 8, 7]"

text \<open>
  \<open>swift_getSingletonMetadata\<close>: a record per descriptor; for a struct whose fields the
  descriptor counts, field offsets eight bytes apart.
\<close>

definition field_offsets :: "ptr \<Rightarrow> u32 \<Rightarrow> u32 \<Rightarrow> mem \<Rightarrow> mem" where
  "field_offsets metadata fov num_fields m =
     foldl (\<lambda>m fi. store32 m (metadata + 4 * of_nat (unat fov * 2 + fi)) (of_nat (8 * fi)))
       m [0..<unat (min num_fields 16)]"

definition struct_layout :: "ptr \<Rightarrow> ptr \<Rightarrow> ptr \<Rightarrow> mem \<Rightarrow> mem" where
  "struct_layout descriptor metadata vwt m =
     (let desc_kind = load32 m descriptor AND 0x1F;
          fields_rel = load32 m (descriptor + 16);
          fields_addr = descriptor + 16 + scast fields_rel
      in if desc_kind = 17 \<and> fields_addr > 0x100000000
         then (let num_fields = load32 m (fields_addr + 12);
                   fov_offset_raw = load32 m (descriptor + 20)
               in if fov_offset_raw > 0 \<and> fov_offset_raw < 100
                  then (let m = field_offsets metadata fov_offset_raw num_fields m;
                            total_size = ucast (num_fields * 8)
                        in store_words m (vwt + 64) [total_size, total_size])
                  else m)
         else m)"

definition singleton_record :: "(nat \<Rightarrow> ptr) \<Rightarrow> (string \<Rightarrow> u64) \<Rightarrow> ptr \<Rightarrow> stub_state \<Rightarrow> ptr \<times> ptr \<times> stub_state" where
  "singleton_record fresh fn descriptor st =
     (let (vwt, st) = calloc fresh 256 st;
          st = put_words vwt (value_witnesses fn @ [0]) st;
          (raw, st) = calloc fresh 512 st;
          metadata = raw + 16;
          st = put_words (metadata - 8) [vwt] st
      in (metadata, vwt, put_words metadata [0x200, descriptor] st))"

definition swift_get_singleton_metadata :: "(nat \<Rightarrow> ptr) \<Rightarrow> (string \<Rightarrow> u64) \<Rightarrow> ptr \<Rightarrow> stub_state \<Rightarrow> ptr \<times> stub_state" where
  "swift_get_singleton_metadata fresh fn descriptor st =
     (case singleton_cache st descriptor of
        Some p \<Rightarrow> (p, st)
      | None \<Rightarrow>
          (case singleton_record fresh fn descriptor st of
             (metadata, vwt, st) \<Rightarrow>
               (metadata, st\<lparr>smem := struct_layout descriptor metadata vwt (smem st),
                             singleton_cache := (singleton_cache st)(descriptor \<mapsto> metadata)\<rparr>)))"

definition swift_get_generic_metadata_stub :: "(nat \<Rightarrow> ptr) \<Rightarrow> (string \<Rightarrow> u64) \<Rightarrow> ptr \<Rightarrow> stub_state \<Rightarrow> ptr \<times> stub_state" where
  "swift_get_generic_metadata_stub fresh fn descriptor st =
     (let (raw, st) = calloc fresh 512 st;
          metadata = raw + 64;
          (vwt, st) = calloc fresh 256 st;
          st = put_words vwt (value_witnesses fn) st;
          st = put_words (metadata - 8) [vwt] st
      in (metadata, put_words metadata [0x200, descriptor] st))"

text \<open>\<open>create_swiftui_compatible_metadata\<close>: made once, for names with symbolic references.\<close>

definition create_swiftui_metadata_internal :: "(nat \<Rightarrow> ptr) \<Rightarrow> (string \<Rightarrow> u64) \<Rightarrow> stub_state \<Rightarrow> ptr \<times> stub_state" where
  "create_swiftui_metadata_internal fresh fn st =
     (let (raw, st) = calloc fresh 1024 st;
          metadata = raw + 64;
          (vwt, st) = calloc fresh 512 st;
          st = put_words vwt
            [fn ''swiftui_copy'', fn ''swiftui_destroy'', fn ''swiftui_copy'', fn ''swiftui_copy'',
             fn ''swiftui_copy'', fn ''swiftui_copy'', fn ''swiftui_enum_tag'', fn ''swiftui_enum_tag'', 16, 16, 15] st;
          (descriptor, st) = calloc fresh 512 st;
          st = put_words descriptor [0x80000050, 0, 8, 1, 48] st;
          st = put_words (descriptor + 96) [0] st;
          st = put_words (metadata - 8) [vwt] st
      in (metadata, put_words metadata [0x200, descriptor, metadata, fn ''DUMMY_VWT''] st))"

definition create_swiftui_compatible_metadata :: "(nat \<Rightarrow> ptr) \<Rightarrow> (string \<Rightarrow> u64) \<Rightarrow> stub_state \<Rightarrow> ptr \<times> stub_state" where
  "create_swiftui_compatible_metadata fresh fn st =
     (case CACHED_METADATA st of
        Some p \<Rightarrow> (p, st)
      | None \<Rightarrow> (let (p, st) = create_swiftui_metadata_internal fresh fn st in (p, st\<lparr>CACHED_METADATA := Some p\<rparr>)))"

section \<open>Types by name\<close>

text \<open>The bytes of a name: its length when given, else up to a NUL and at most 256.\<close>

fun name_until_nul :: "nat \<Rightarrow> ptr \<Rightarrow> mem \<Rightarrow> u8 list" where
  "name_until_nul 0 p m = []"
| "name_until_nul (Suc n) p m = (if m p = 0 then [] else m p # name_until_nul n (p + 1) m)"

definition mangled_key :: "ptr \<Rightarrow> u64 \<Rightarrow> mem \<Rightarrow> u8 list" where
  "mangled_key name len m =
     (if name \<noteq> 0 \<and> len > 0 then load_bytes m name (unat len)
      else if name \<noteq> 0 then name_until_nul 256 name m
      else [0])"

definition has_symbolic_ref :: "u8 list \<Rightarrow> bool" where
  "has_symbolic_ref key = list_ex (\<lambda>b. 0x01 \<le> b \<and> b \<le> 0x1F) key"

definition named_metadata :: "(nat \<Rightarrow> ptr) \<Rightarrow> (string \<Rightarrow> u64) \<Rightarrow> u8 list \<Rightarrow> stub_state \<Rightarrow> ptr \<times> stub_state" where
  "named_metadata fresh fn key st =
     (case name_cache st key of
        Some p \<Rightarrow> (p, st)
      | None \<Rightarrow>
          (let (raw, st) = calloc fresh 512 st;
               metadata = raw + 64;
               (vwt, st) = calloc fresh 256 st;
               st = put_words vwt (value_witnesses fn) st;
               (dummy_descriptor, st) = calloc fresh 256 st;
               st = put_words dummy_descriptor [0x80000010, 0, 8, 8, 0] st;
               st = put_words (metadata - 8) [vwt] st;
               st = put_words metadata (0x200 # dummy_descriptor # replicate 46 metadata) st
           in (metadata, st\<lparr>name_cache := (name_cache st)(key \<mapsto> metadata)\<rparr>)))"

text \<open>
  \<open>swift_getTypeByMangledNameInContext\<close>: the host's function for names without symbolic
  references (\<open>real\<close>: what it returns and does to memory), then the stubs.
\<close>

definition swift_get_type_by_mangled_name ::
    "(nat \<Rightarrow> ptr) \<Rightarrow> (string \<Rightarrow> u64) \<Rightarrow> (u64 \<Rightarrow> u64 list \<Rightarrow> mem \<Rightarrow> ptr \<times> mem) \<Rightarrow> swift_runtime
      \<Rightarrow> ptr \<Rightarrow> u64 \<Rightarrow> ptr \<Rightarrow> ptr \<Rightarrow> stub_state \<Rightarrow> ptr \<times> stub_state" where
  "swift_get_type_by_mangled_name fresh fn real sw name len generic_env generic_args st =
     (let key = mangled_key name len (smem st);
          (found, st) =
            (if REAL_GET_TYPE_FN sw \<noteq> 0 \<and> name \<noteq> 0 \<and> \<not> has_symbolic_ref key
             then (case real (REAL_GET_TYPE_FN sw) [name, len, generic_env, generic_args] (smem st) of
                     (p, m) \<Rightarrow> (p, st\<lparr>smem := m\<rparr>))
             else (0, st))
      in if found \<noteq> 0 then (found, st)
         else if has_symbolic_ref (mangled_key name len (smem st))
              then create_swiftui_compatible_metadata fresh fn st
              else named_metadata fresh fn (mangled_key name len (smem st)) st)"

section \<open>Stub objects and witness tables\<close>

definition get_stub_witness_table :: "(nat \<Rightarrow> ptr) \<Rightarrow> (string \<Rightarrow> u64) \<Rightarrow> stub_state \<Rightarrow> ptr \<times> stub_state" where
  "get_stub_witness_table fresh fn st =
     (if STUB_WT st \<noteq> 0 then (STUB_WT st, st)
      else let (wt, st) = calloc fresh 512 st;
               st = put_words wt (replicate 64 (fn ''witness_noop'')) st
           in (wt, st\<lparr>STUB_WT := wt\<rparr>))"

definition empty_string_word :: u64 where
  "empty_string_word = 0xE000000000000000"

text \<open>Metadata and object in one (what these functions leave in \<open>rdx\<close> is not modelled).\<close>

definition safe_return_stub_object :: "(nat \<Rightarrow> ptr) \<Rightarrow> (string \<Rightarrow> u64) \<Rightarrow> stub_state \<Rightarrow> ptr \<times> stub_state" where
  "safe_return_stub_object fresh fn st =
     (if STUB_OBJ st \<noteq> 0 then (STUB_OBJ st, st)
      else let (raw, st) = calloc fresh 1024 st;
               (stub_meta, st) = shim_unresolved_soft_metadata fresh fn st;
               good_vwt = load64 (smem st) (stub_meta - 8);
               obj = raw + 8;
               st = put_words raw [good_vwt] st;
               st = put_words obj (0x200 # stub_meta # concat (replicate 59 [0, empty_string_word])) st
           in (obj, st\<lparr>STUB_OBJ := obj\<rparr>))"

definition witness_noop :: "(nat \<Rightarrow> ptr) \<Rightarrow> (string \<Rightarrow> u64) \<Rightarrow> stub_state \<Rightarrow> ptr \<times> stub_state" where
  "witness_noop fresh fn st = safe_return_stub_object fresh fn st"

definition safe_return_null :: "(nat \<Rightarrow> ptr) \<Rightarrow> (string \<Rightarrow> u64) \<Rightarrow> stub_state \<Rightarrow> ptr \<times> stub_state" where
  "safe_return_null fresh fn st = shim_unresolved_soft_metadata fresh fn st"

definition safe_return_stub_metadata :: "(nat \<Rightarrow> ptr) \<Rightarrow> (string \<Rightarrow> u64) \<Rightarrow> stub_state \<Rightarrow> ptr \<times> stub_state" where
  "safe_return_stub_metadata fresh fn st = shim_unresolved_soft_metadata fresh fn st"

definition safe_conformsToProtocol :: "(nat \<Rightarrow> ptr) \<Rightarrow> (string \<Rightarrow> u64) \<Rightarrow> stub_state \<Rightarrow> ptr \<times> stub_state" where
  "safe_conformsToProtocol fresh fn st = get_stub_witness_table fresh fn st"

definition swift_get_witness_table_stub :: "(nat \<Rightarrow> ptr) \<Rightarrow> (string \<Rightarrow> u64) \<Rightarrow> stub_state \<Rightarrow> ptr \<times> stub_state" where
  "swift_get_witness_table_stub fresh fn st = get_stub_witness_table fresh fn st"

definition safe_getAssociatedConformanceWitness :: "(nat \<Rightarrow> ptr) \<Rightarrow> (string \<Rightarrow> u64) \<Rightarrow> stub_state \<Rightarrow> ptr \<times> stub_state" where
  "safe_getAssociatedConformanceWitness fresh fn st = swift_get_witness_table_stub fresh fn st"

definition smart_getWitnessTable :: "(nat \<Rightarrow> ptr) \<Rightarrow> (string \<Rightarrow> u64) \<Rightarrow> swift_runtime \<Rightarrow> ptr \<Rightarrow> stub_state \<Rightarrow> ptr \<times> stub_state" where
  "smart_getWitnessTable fresh fn sw a st =
     (if LIFECYCLE_PATCHES_ACTIVE sw then get_stub_witness_table fresh fn st else (a, st))"

definition swift_allocateWitnessTablePack :: "(nat \<Rightarrow> ptr) \<Rightarrow> (string \<Rightarrow> u64) \<Rightarrow> stub_state \<Rightarrow> ptr \<times> stub_state" where
  "swift_allocateWitnessTablePack fresh fn st =
     (if STUB_PACK st \<noteq> 0 then (STUB_PACK st, st)
      else let (arr, st) = calloc fresh 256 st;
               (stub_wt, st) = get_stub_witness_table fresh fn st;
               st = put_words arr (replicate 32 stub_wt) st
           in (arr, st\<lparr>STUB_PACK := arr\<rparr>))"

text \<open>
  The accessor bound to the types of SwiftUI: a static record of sixteen words at \<open>stub\<close>, whose
  kind says class and whose second word points at a word that holds \<open>0x1000\<close>.
\<close>

definition swift_metadata_accessor_stub :: "(string \<Rightarrow> u64) \<Rightarrow> ptr \<Rightarrow> bool \<times> mem \<Rightarrow> ptr \<times> bool \<times> mem" where
  "swift_metadata_accessor_stub fn stub s =
     (case s of (inited, m) \<Rightarrow>
        (stub, True, if inited then m else store_words m stub (1 # fn ''DUMMY_VWT'' # replicate 14 0)))"

section \<open>Metadata requests\<close>

text \<open>\<open>MetadataResponse\<close>: the metadata and its state (0: complete).\<close>

record metadata_response =
  metadata :: ptr
  mstate :: u64

definition wild :: "ptr \<Rightarrow> bool" where
  "wild addr \<longleftrightarrow> addr \<le> 0x1000 \<or> addr \<ge> 0x800000000000"

definition respond :: "ptr \<times> stub_state \<Rightarrow> metadata_response \<times> stub_state" where
  "respond r = (case r of (p, st) \<Rightarrow> (\<lparr>metadata = p, mstate = 0\<rparr>, st))"

definition swift_check_metadata ::
    "(nat \<Rightarrow> ptr) \<Rightarrow> (string \<Rightarrow> u64) \<Rightarrow> swift_runtime \<Rightarrow> ptr \<Rightarrow> stub_state \<Rightarrow> metadata_response \<times> stub_state" where
  "swift_check_metadata fresh fn sw p st =
     (if LIFECYCLE_PATCHES_ACTIVE sw \<or> wild p then respond (shim_unresolved_soft_metadata fresh fn st)
      else (\<lparr>metadata = p, mstate = 0\<rparr>, st))"

text \<open>\<open>host\<close>: what the function at an address of the host's runtime answers and does to memory.\<close>

type_synonym host_metadata = "u64 \<Rightarrow> u64 list \<Rightarrow> mem \<Rightarrow> metadata_response \<times> mem"

definition smart_checkMetadataState ::
    "(nat \<Rightarrow> ptr) \<Rightarrow> (string \<Rightarrow> u64) \<Rightarrow> host_metadata \<Rightarrow> swift_runtime \<Rightarrow> ptr \<Rightarrow> u64 \<Rightarrow> stub_state
      \<Rightarrow> metadata_response \<times> stub_state" where
  "smart_checkMetadataState fresh fn host sw p req st =
     (if wild p then respond (shim_unresolved_soft_metadata fresh fn st)
      else if LIFECYCLE_PATCHES_ACTIVE sw \<or> REAL_CHECK_METADATA sw = 0 then (\<lparr>metadata = p, mstate = 0\<rparr>, st)
      else case host (REAL_CHECK_METADATA sw) [p, req] (smem st) of
        (resp, m) \<Rightarrow>
          (let st = st\<lparr>smem := m\<rparr>
           in if metadata resp > 0x1000 \<and> load64 (smem st) (metadata resp - 8) < 0x10000
              then (let (stub, st) = shim_unresolved_soft_metadata fresh fn st;
                        good_vwt = load64 (smem st) (stub - 8)
                    in (resp, put_words (metadata resp - 8) [good_vwt] st))
              else (resp, st)))"

definition safe_getAssociatedTypeWitness ::
    "(nat \<Rightarrow> ptr) \<Rightarrow> (string \<Rightarrow> u64) \<Rightarrow> host_metadata \<Rightarrow> swift_runtime \<Rightarrow> u64 list \<Rightarrow> stub_state
      \<Rightarrow> metadata_response \<times> stub_state" where
  "safe_getAssociatedTypeWitness fresh fn host sw args st =
     (if LIFECYCLE_PATCHES_ACTIVE sw \<or> REAL_GET_ASSOC_TYPE sw = 0
      then respond (shim_unresolved_soft_metadata fresh fn st)
      else case host (REAL_GET_ASSOC_TYPE sw) args (smem st) of (resp, m) \<Rightarrow> (resp, st\<lparr>smem := m\<rparr>))"

section \<open>Objects\<close>

text \<open>The size is raised to 16, the reference count is all ones; a null block is returned as it is.\<close>

definition swift_alloc_object :: "(nat \<Rightarrow> ptr) \<Rightarrow> ptr \<Rightarrow> u64 \<Rightarrow> stub_state \<Rightarrow> ptr \<times> stub_state" where
  "swift_alloc_object fresh meta size_bytes st =
     (let (obj, st) = calloc fresh (unat (max size_bytes 16)) st
      in if obj \<noteq> 0 then (obj, put_words (obj + 8) [0xFFFFFFFFFFFFFFFF] (put_words obj [meta] st)) else (obj, st))"

text \<open>
  The exported \<open>swift_retain\<close> and \<open>swift_release\<close>: an immortal count, or none, is left alone,
  any other object goes to the host's function (\<open>cached\<close> its address once looked up, \<open>next_sym\<close>
  what \<open>dlsym\<close> finds; 1 stands for none). \<open>real\<close> is its effect.
\<close>

definition counts_nothing :: "ptr \<Rightarrow> mem \<Rightarrow> bool" where
  "counts_nothing object m \<longleftrightarrow>
     (let rc = load64 m (object + 8) in rc = 0 \<or> rc \<ge> 0xFFFFFFFF00000000)"

definition delegate :: "(u64 \<Rightarrow> u64 list \<Rightarrow> mem \<Rightarrow> u64 \<times> mem) \<Rightarrow> ptr \<Rightarrow> u64 \<times> ptr \<Rightarrow> u64 list \<Rightarrow> mem \<Rightarrow> (u64 \<times> mem) \<times> u64" where
  "delegate real next_sym cached args m =
     (let addr = (if fst cached = 0 then (if next_sym = 0 then 1 else next_sym) else fst cached)
      in (if addr > 1 then real addr args m else (snd cached, m), addr))"

definition swift_retain :: "(u64 \<Rightarrow> u64 list \<Rightarrow> mem \<Rightarrow> u64 \<times> mem) \<Rightarrow> ptr \<Rightarrow> u64 \<Rightarrow> ptr \<Rightarrow> mem \<Rightarrow> (u64 \<times> mem) \<times> u64" where
  "swift_retain real next_sym cached object m =
     (if object = 0 \<or> counts_nothing object m then ((object, m), cached)
      else delegate real next_sym (cached, object) [object] m)"

definition swift_retain_n :: "(u64 \<Rightarrow> u64 list \<Rightarrow> mem \<Rightarrow> u64 \<times> mem) \<Rightarrow> ptr \<Rightarrow> u64 \<Rightarrow> ptr \<Rightarrow> u32 \<Rightarrow> mem \<Rightarrow> (u64 \<times> mem) \<times> u64" where
  "swift_retain_n real next_sym cached object n m =
     (if object = 0 \<or> counts_nothing object m then ((object, m), cached)
      else delegate real next_sym (cached, object) [object, ucast n] m)"

definition swift_release :: "(u64 \<Rightarrow> u64 list \<Rightarrow> mem \<Rightarrow> u64 \<times> mem) \<Rightarrow> ptr \<Rightarrow> u64 \<Rightarrow> ptr \<Rightarrow> mem \<Rightarrow> mem \<times> u64" where
  "swift_release real next_sym cached object m =
     (if object = 0 \<or> counts_nothing object m then (m, cached)
      else case delegate real next_sym (cached, 0) [object] m of ((_, m), addr) \<Rightarrow> (m, addr))"

definition swift_release_n :: "(u64 \<Rightarrow> u64 list \<Rightarrow> mem \<Rightarrow> u64 \<times> mem) \<Rightarrow> ptr \<Rightarrow> u64 \<Rightarrow> ptr \<Rightarrow> u32 \<Rightarrow> mem \<Rightarrow> mem \<times> u64" where
  "swift_release_n real next_sym cached object n m =
     (if object = 0 \<or> counts_nothing object m then (m, cached)
      else case delegate real next_sym (cached, 0) [object, ucast n] m of ((_, m), addr) \<Rightarrow> (m, addr))"

text \<open>
  Run once: the predicate is set before the callback runs, so a callback that comes back to it
  does not run again. \<open>callback\<close> is the program's code, for the second one under the crash
  recovery of the loader (which may return early, then with the memory of that moment).
\<close>

definition swift_once :: "(mem \<Rightarrow> mem) \<Rightarrow> ptr \<Rightarrow> mem \<Rightarrow> mem" where
  "swift_once callback predicate m =
     (if predicate \<noteq> 0 \<and> load64 m predicate = 0 then callback (store64 m predicate (- 1)) else m)"

definition dispatch_once_f :: "(mem \<Rightarrow> mem) \<Rightarrow> ptr \<Rightarrow> mem \<Rightarrow> mem" where
  "dispatch_once_f callback predicate m =
     (if predicate \<noteq> 0 \<and> load64 m predicate = 0 then callback (store64 m predicate (- 1)) else m)"

definition swift_once_lifecycle :: "(mem \<Rightarrow> bool \<times> mem) \<Rightarrow> ptr \<Rightarrow> mem \<Rightarrow> mem" where
  "swift_once_lifecycle try_callback predicate m =
     (if predicate \<noteq> 0 \<and> load64 m predicate = 0 then snd (try_callback (store64 m predicate (- 1))) else m)"

definition cxa_guard_acquire :: "ptr \<Rightarrow> mem \<Rightarrow> i32 \<times> mem" where
  "cxa_guard_acquire guard m =
     (if guard = 0 then (0, m) else if load64 m guard = 0 then (1, store64 m guard 1) else (0, m))"

section \<open>Constant answers\<close>

definition swift_noop_ptr :: "ptr \<Rightarrow> ptr" where "swift_noop_ptr p = p"
definition swift_noop_false :: i32 where "swift_noop_false = 0"
definition swift_noop_true :: i32 where "swift_noop_true = 1"
definition noop_ptr :: ptr where "noop_ptr = 0"
definition swift_isa_mask_val :: u64 where "swift_isa_mask_val = 0x00007FFFFFFFFFF8"
definition swift_os_version :: "i64 list" where "swift_os_version = [14, 0, 0]"
definition block_copy :: "ptr \<Rightarrow> ptr" where "block_copy block = (if block = 0 then 0 else block)"

definition cg_rect_inset :: "CGRect \<Rightarrow> f64 \<Rightarrow> f64 \<Rightarrow> CGRect" where
  "cg_rect_inset r dx dy =
     \<lparr>origin = \<lparr>px = f64_add (px (origin r)) dx, py = f64_add (py (origin r)) dy\<rparr>,
      rsize = \<lparr>width = f64_sub (width (rsize r)) (f64_mul f64_two dx),
               height = f64_sub (height (rsize r)) (f64_mul f64_two dy)\<rparr>\<rparr>"

end
