(* ===== verification/SwiftMetadata.thy ===== *)
theory SwiftMetadata
  imports SwiftStubs
begin

text \<open>
  The metadata that \<open>SwiftStubs\<close> makes up stays valid: the blocks the allocator hands out do
  not overlap, every stub writes only into blocks it has just been given, so a record handed
  out once can be used for the rest of the run.
\<close>

section \<open>Blocks\<close>

text \<open>
  What the stubs rely on of \<open>calloc\<close>: blocks of the sizes asked for do not overlap, none is
  null or wraps around.
\<close>

definition blocks :: "(nat \<Rightarrow> ptr) \<Rightarrow> (nat \<Rightarrow> nat) \<Rightarrow> nat \<Rightarrow> bool" where
  "blocks fresh sz n \<longleftrightarrow> (\<forall>i < n. 0 < unat (fresh i) \<and> unat (fresh i) + sz i < 2 ^ 64)
     \<and> (\<forall>i < n. \<forall>j < n. i \<noteq> j \<longrightarrow> apart (fresh i) (sz i) (fresh j) (sz j))"

definition heap_ok :: "(nat \<Rightarrow> ptr) \<Rightarrow> stub_state \<Rightarrow> bool" where
  "heap_ok fresh st \<longleftrightarrow> blocks fresh (block_size st) (n_blocks st)"

lemma apart_at:
  assumes "apart b n c k" and "unat (x - b) + l \<le> n" and "unat (y - c) + h \<le> k"
  shows "apart x l y h"
  using apart_sub2 [OF assms] by simp

lemma apart_beside:
  assumes "unat (x - b) + l \<le> unat (y - b) \<or> unat (y - b) + h \<le> unat (x - b)"
    and "unat (x - b) + l \<le> 2 ^ 64" and "unat (y - b) + h \<le> 2 ^ 64"
  shows "apart x l y h"
  using apart_fields [OF assms, of b] by simp

definition untouched :: "(nat \<Rightarrow> ptr) \<Rightarrow> (nat \<Rightarrow> nat) \<Rightarrow> nat \<Rightarrow> mem \<Rightarrow> mem \<Rightarrow> bool" where
  "untouched fresh sz n m m' \<longleftrightarrow> (\<forall>k < n. \<forall>i < sz k. m' (fresh k + of_nat i) = m (fresh k + of_nat i))"

lemma untouched_refl [simp]: "untouched fresh sz n m m"
  by (simp add: untouched_def)

lemma untouched_trans: "untouched fresh sz n m m' \<Longrightarrow> untouched fresh sz n m' m'' \<Longrightarrow> untouched fresh sz n m m''"
  by (simp add: untouched_def)

lemma untouched_less: "untouched fresh sz n m m' \<Longrightarrow> k \<le> n \<Longrightarrow> untouched fresh sz k m m'"
  by (simp add: untouched_def)

lemma untouched_sizes: "(\<And>k. k < n \<Longrightarrow> sz k = sz' k) \<Longrightarrow> untouched fresh sz n m m' = untouched fresh sz' n m m'"
  by (simp add: untouched_def)

lemma sz_small: "blocks fresh sz N \<Longrightarrow> j < N \<Longrightarrow> sz j < 2 ^ 64"
  unfolding blocks_def by (metis add_lessD1 add.commute)

lemma untouched_bytes:
  assumes "blocks fresh sz N" and "n \<le> j" and "j < N" and "untouched fresh sz n m m'"
    and "unat (p - fresh j) + length bs \<le> sz j"
  shows "untouched fresh sz n m (store_bytes m' p bs)"
  unfolding untouched_def
proof (intro allI impI)
  fix k i :: nat assume k: "k < n" and i: "i < sz k"
  have small: "sz k < 2 ^ 64" "sz j < 2 ^ 64" using sz_small [OF assms(1)] assms(2,3) k by simp_all
  have "apart (fresh k) (sz k) (fresh j) (sz j)" using assms(1-3) k by (simp add: blocks_def)
  then have "apart (fresh k + of_nat i) 1 p (length bs)"
    by (rule apart_at) (use i assms(5) small in \<open>simp_all add: unat_of_nat_u64\<close>)
  then have "load_bytes (store_bytes m' p bs) (fresh k + of_nat i) 1 = load_bytes m' (fresh k + of_nat i) 1"
    using assms(5) small by (intro load_store_apart) simp_all
  then show "store_bytes m' p bs (fresh k + of_nat i) = m (fresh k + of_nat i)"
    using assms(4) k i by (simp add: load_bytes_def untouched_def)
qed

lemma untouched_words:
  assumes "blocks fresh sz N" and "n \<le> j" and "j < N"
  shows "untouched fresh sz n m m' \<Longrightarrow> unat (p - fresh j) + 8 * length ws \<le> sz j
    \<Longrightarrow> untouched fresh sz n m (store_words m' p ws)"
proof (induction ws arbitrary: m' p)
  case (Cons w ws)
  have small: "sz j < 2 ^ 64" by (rule sz_small [OF assms(1,3)])
  have "unat (p + 8 - fresh j) = unat (p - fresh j) + 8"
    using Cons.prems(2) small by (simp add: unat_word_ariths diff_add_eq [symmetric])
  moreover have "untouched fresh sz n m (store64 m' p w)"
    using Cons.prems untouched_bytes [OF assms Cons.prems(1), of p "le_bytes64 w"] by (simp add: store64_def)
  ultimately show ?case using Cons by simp
qed simp

section \<open>Reading back\<close>

lemma load64_bytes_apart: "apart a 8 p (length bs) \<Longrightarrow> length bs < 2 ^ 64 \<Longrightarrow> load64 (store_bytes m p bs) a = load64 m a"
  by (simp add: load64_def load_store_apart)

lemma load64_words_apart:
  "apart a 8 p (8 * length ws) \<Longrightarrow> load64 (store_words m p ws) a = load64 m a"
proof (induction ws arbitrary: m p)
  case (Cons w ws)
  have "apart a 8 p 8" using apart_sub2 [OF Cons.prems, of 0 8 0 8] by simp
  moreover have "apart a 8 (p + 8) (8 * length ws)" using apart_sub2 [OF Cons.prems, of 0 8 8 "8 * length ws"] by simp
  ultimately show ?case using Cons.IH by (simp add: load64_store64_apart)
qed simp

lemma load64_words:
  "i < length ws \<Longrightarrow> length ws \<le> 1024 \<Longrightarrow> load64 (store_words m p ws) (p + of_nat (8 * i)) = ws ! i"
proof (induction ws arbitrary: m p i)
  case (Cons w ws)
  show ?case
  proof (cases i)
    case 0
    have "apart p 8 (p + 8) (8 * length ws)"
      by (rule apart_beside [where b = p]) (use Cons.prems in simp_all)
    then show ?thesis by (simp add: 0 load64_words_apart)
  next
    case (Suc k)
    have "load64 (store_words (store64 m p w) (p + 8) ws) (p + 8 + of_nat (8 * k)) = ws ! k"
      using Cons.prems by (intro Cons.IH) (simp_all add: Suc)
    then show ?thesis by (simp add: Suc add.assoc)
  qed
qed simp

lemma load64_untouched:
  assumes "untouched fresh sz n m m'" and "k < n" and "unat (a - fresh k) + 8 \<le> sz k"
  shows "load64 m' a = load64 m a"
proof (rule load64_bytes_cong)
  fix i :: nat assume "i < 8"
  then have "unat (a - fresh k) + i < sz k" using assms(3) by simp
  then have "m' (fresh k + of_nat (unat (a - fresh k) + i)) = m (fresh k + of_nat (unat (a - fresh k) + i))"
    using assms(1,2) by (simp add: untouched_def del: of_nat_add)
  then show "m' (a + of_nat i) = m (a + of_nat i)" by simp
qed

section \<open>Valid metadata\<close>

definition witness_functions :: "string set" where
  "witness_functions = {''dummy_fn'', ''vwt_initcopy'', ''vwt_destroy'', ''vwt_enum_tag'', ''vwt_store_enum_tag'',
     ''swiftui_copy'', ''swiftui_destroy'', ''swiftui_enum_tag''}"

definition vwt_ok :: "(string \<Rightarrow> u64) \<Rightarrow> mem \<Rightarrow> ptr \<Rightarrow> bool" where
  "vwt_ok fn m v \<longleftrightarrow> (\<forall>i < 8. load64 m (v + of_nat (8 * i)) \<in> fn ` witness_functions)
     \<and> load64 m (v + 72) = load64 m (v + 64) \<and> load64 m (v + 80) \<in> {7, 15}"

text \<open>
  A record the program can use as metadata: the kind of a struct, and before it the address of
  a value witness table whose eight entries are functions of the stubs and whose stride is its
  size. Both lie inside blocks handed out already.
\<close>

definition valid_metadata :: "(nat \<Rightarrow> ptr) \<Rightarrow> (string \<Rightarrow> u64) \<Rightarrow> stub_state \<Rightarrow> ptr \<Rightarrow> bool" where
  "valid_metadata fresh fn st p \<longleftrightarrow>
     p \<noteq> 0 \<and> load64 (smem st) p = 0x200 \<and> vwt_ok fn (smem st) (load64 (smem st) (p - 8))
     \<and> (\<exists>k < n_blocks st. 8 \<le> unat (p - fresh k) \<and> unat (p - fresh k) + 8 \<le> block_size st k)
     \<and> (\<exists>k < n_blocks st. load64 (smem st) (p - 8) = fresh k \<and> 88 \<le> block_size st k)"

definition grows :: "(nat \<Rightarrow> ptr) \<Rightarrow> stub_state \<Rightarrow> stub_state \<Rightarrow> bool" where
  "grows fresh st st' \<longleftrightarrow> n_blocks st \<le> n_blocks st'
     \<and> (\<forall>k < n_blocks st. block_size st' k = block_size st k)
     \<and> untouched fresh (block_size st) (n_blocks st) (smem st) (smem st')"

lemma grows_refl [simp]: "grows fresh st st"
  by (simp add: grows_def)

lemma grows_trans:
  assumes "grows fresh st st'" and "grows fresh st' st''"
  shows "grows fresh st st''"
proof -
  have "untouched fresh (block_size st) (n_blocks st) (smem st') (smem st'')"
    using assms untouched_less [of fresh "block_size st'" "n_blocks st'" "smem st'" "smem st''" "n_blocks st"]
      untouched_sizes [of "n_blocks st" "block_size st'" "block_size st" fresh] by (simp add: grows_def)
  with assms show ?thesis by (auto simp: grows_def intro: untouched_trans)
qed

lemma heap_before: "grows fresh st st' \<Longrightarrow> heap_ok fresh st' \<Longrightarrow> heap_ok fresh st"
  unfolding heap_ok_def blocks_def grows_def by (metis order_less_le_trans)

lemma vwt_ok_cong:
  assumes "\<And>d. d \<le> 80 \<Longrightarrow> load64 m' (v + of_nat d) = load64 m (v + of_nat d)" and "vwt_ok fn m v"
  shows "vwt_ok fn m' v"
proof -
  have "load64 m' (v + of_nat (8 * i)) = load64 m (v + of_nat (8 * i))" if "i < 8" for i
    using that by (intro assms(1)) simp
  moreover have "load64 m' (v + 64) = load64 m (v + 64)" "load64 m' (v + 72) = load64 m (v + 72)"
    "load64 m' (v + 80) = load64 m (v + 80)"
    using assms(1) [of 64] assms(1) [of 72] assms(1) [of 80] by simp_all
  ultimately show ?thesis using assms(2) by (simp add: vwt_ok_def)
qed

lemma unat_back8: "8 \<le> unat (p - b) \<Longrightarrow> unat (p - 8 - b) = unat (p - b) - 8" for p b :: u64
proof -
  assume "8 \<le> unat (p - b)"
  then have "(8 :: u64) \<le> p - b" by (simp add: word_le_nat_alt)
  then have "unat (p - b - 8) = unat (p - b) - unat (8 :: u64)" by (rule unat_sub)
  moreover have "p - b - 8 = p - 8 - b" by simp
  ultimately show ?thesis by simp
qed

lemma valid_grows:
  assumes "grows fresh st st'" and "valid_metadata fresh fn st p"
  shows "valid_metadata fresh fn st' p"
proof -
  obtain k j where k: "k < n_blocks st" "8 \<le> unat (p - fresh k)" "unat (p - fresh k) + 8 \<le> block_size st k"
    and j: "j < n_blocks st" "load64 (smem st) (p - 8) = fresh j" "88 \<le> block_size st j"
    using assms(2) by (auto simp: valid_metadata_def)
  have u: "untouched fresh (block_size st) (n_blocks st) (smem st) (smem st')" and n: "n_blocks st \<le> n_blocks st'"
    and sz: "block_size st' k = block_size st k" "block_size st' j = block_size st j"
    using assms(1) k(1) j(1) by (simp_all add: grows_def)
  have "unat (p - 8 - fresh k) = unat (p - fresh k) - 8" using k(2) by (rule unat_back8)
  then have m: "load64 (smem st') p = load64 (smem st) p" "load64 (smem st') (p - 8) = fresh j"
    using load64_untouched [OF u k(1)] k(2,3) j(2) by simp_all
  have "vwt_ok fn (smem st') (fresh j)"
  proof (rule vwt_ok_cong [of "smem st'" "fresh j" "smem st"])
    fix d :: nat assume "d \<le> 80"
    then show "load64 (smem st') (fresh j + of_nat d) = load64 (smem st) (fresh j + of_nat d)"
      using j(3) by (intro load64_untouched [OF u j(1)]) (simp add: unat_of_nat_u64)
  qed (use assms(2) j in \<open>simp add: valid_metadata_def\<close>)
  with assms(2) m k j n sz show ?thesis unfolding valid_metadata_def by (metis order_less_le_trans)
qed

definition table_words :: "(string \<Rightarrow> u64) \<Rightarrow> u64 list \<Rightarrow> bool" where
  "table_words fn ws \<longleftrightarrow> 11 \<le> length ws \<and> length ws \<le> 12
     \<and> (\<forall>i < 8. ws ! i \<in> fn ` witness_functions) \<and> ws ! 9 = ws ! 8 \<and> ws ! 10 \<in> {7, 15}"

lemma vwt_written:
  assumes "table_words fn ws"
  shows "vwt_ok fn (store_words m v ws) v"
proof -
  have "load64 (store_words m v ws) (v + of_nat (8 * i)) = ws ! i" if "i < 11" for i
    using that assms by (intro load64_words) (simp_all add: table_words_def)
  from this this [of 8] this [of 9] this [of 10] show ?thesis
    using assms by (simp add: vwt_ok_def table_words_def)
qed

text \<open>
  The builders end alike: with the address of a table before the record and the record, over
  memory that has the table in another block. \<open>with_table\<close>: such a memory, made from \<open>m\<close>.
\<close>

definition with_table :: "(nat \<Rightarrow> ptr) \<Rightarrow> (nat \<Rightarrow> nat) \<Rightarrow> (string \<Rightarrow> u64) \<Rightarrow> nat \<Rightarrow> nat \<Rightarrow> mem \<Rightarrow> mem \<Rightarrow> bool" where
  "with_table fresh sz fn n j m m' \<longleftrightarrow> untouched fresh sz n m m' \<and> vwt_ok fn m' (fresh j)"

lemma with_table_written:
  assumes "blocks fresh sz N" and "n \<le> i" "i < N" and "n \<le> j" "j < N" and "a \<le> sz i" and "b \<le> sz j" "96 \<le> b"
    and "table_words fn ws"
  shows "with_table fresh sz fn n j m
    (store_words (store_bytes (store_bytes m (fresh i) (replicate a 0)) (fresh j) (replicate b 0)) (fresh j) ws)"
proof -
  have "untouched fresh sz n m (store_bytes (store_bytes m (fresh i) (replicate a 0)) (fresh j) (replicate b 0))"
    by (intro untouched_bytes [OF assms(1) assms(4,5)] untouched_bytes [OF assms(1) assms(2,3)])
      (use assms(6,7) in simp_all)
  then have "untouched fresh sz n m
      (store_words (store_bytes (store_bytes m (fresh i) (replicate a 0)) (fresh j) (replicate b 0)) (fresh j) ws)"
    by (intro untouched_words [OF assms(1,4,5)]) (use assms(7-9) in \<open>simp_all add: table_words_def\<close>)
  then show ?thesis using assms(9) by (simp add: with_table_def vwt_written)
qed

lemma with_table_more:
  assumes "blocks fresh sz N" and "with_table fresh sz fn n j m m'" and "n \<le> k" "k < N" "j < N" and "k \<noteq> j"
    and "88 \<le> sz j"
  shows "length bs \<le> sz k \<Longrightarrow> with_table fresh sz fn n j m (store_bytes m' (fresh k) bs)"
    and "unat (q - fresh k) + 8 * length ws \<le> sz k \<Longrightarrow> with_table fresh sz fn n j m (store_words m' q ws)"
proof -
  have ap: "apart (fresh j) (sz j) (fresh k) (sz k)" using assms(1,4-6) by (simp add: blocks_def)
  have small: "sz k < 2 ^ 64" by (rule sz_small [OF assms(1,4)])
  show "with_table fresh sz fn n j m (store_bytes m' (fresh k) bs)" if "length bs \<le> sz k"
    unfolding with_table_def
  proof
    show "untouched fresh sz n m (store_bytes m' (fresh k) bs)"
      using assms(2) that by (intro untouched_bytes [OF assms(1,3,4)]) (simp_all add: with_table_def)
    show "vwt_ok fn (store_bytes m' (fresh k) bs) (fresh j)"
      by (rule vwt_ok_cong [of _ _ m'], rule load64_bytes_apart, rule apart_at [OF ap])
        (use assms(2,7) that small in \<open>simp_all add: with_table_def unat_of_nat_u64\<close>)
  qed
  show "with_table fresh sz fn n j m (store_words m' q ws)" if "unat (q - fresh k) + 8 * length ws \<le> sz k"
    unfolding with_table_def
  proof
    show "untouched fresh sz n m (store_words m' q ws)"
      using assms(2) that by (intro untouched_words [OF assms(1,3,4)]) (simp_all add: with_table_def)
    show "vwt_ok fn (store_words m' q ws) (fresh j)"
      by (rule vwt_ok_cong [of _ _ m'], rule load64_words_apart, rule apart_at [OF ap])
        (use assms(2,7) that in \<open>simp_all add: with_table_def unat_of_nat_u64\<close>)
  qed
qed

lemma built:
  assumes hp: "heap_ok fresh st'" and m: "with_table fresh (block_size st') fn (n_blocks st) j (smem st) m"
    and n: "n_blocks st \<le> i" "i \<noteq> j" "i < n_blocks st'" "j < n_blocks st'"
    and old: "\<And>k. k < n_blocks st \<Longrightarrow> block_size st' k = block_size st k"
    and d: "8 \<le> d" "d \<le> 64" and ws: "d + 8 * length ws \<le> block_size st' i" "ws \<noteq> []" "hd ws = 0x200" "length ws \<le> 1024"
    and t: "88 \<le> block_size st' j"
    and st': "smem st' = store_words (store_words m (fresh i + of_nat d - 8) [fresh j]) (fresh i + of_nat d) ws"
  shows "grows fresh st st'" and "valid_metadata fresh fn st' (fresh i + of_nat d)"
    and "load64 (smem st') (fresh i + of_nat d - 8) = fresh j"
proof -
  let ?p = "fresh i + of_nat d" and ?sz = "block_size st'"
  have b: "blocks fresh ?sz (n_blocks st')" using hp by (simp add: heap_ok_def)
  have off: "unat (?p - fresh i) = d" using d by (simp add: unat_of_nat_u64)
  then have off8: "unat (?p - 8 - fresh i) = d - 8" using d unat_back8 [of ?p "fresh i"] by simp
  have small: "?sz i < 2 ^ 64" by (rule sz_small [OF b n(3)])
  have "untouched fresh ?sz (n_blocks st) (smem st) (smem st')"
    unfolding st' by (intro untouched_words [OF b n(1,3)]) (use m d ws off off8 in \<open>simp_all add: with_table_def\<close>)
  with n old untouched_sizes [of "n_blocks st" ?sz "block_size st" fresh] show "grows fresh st st'" by (simp add: grows_def)
  have before: "apart (?p - 8) 8 ?p (8 * length ws)"
    by (rule apart_beside [where b = "fresh i"]) (use off off8 d ws small in simp_all)
  have apart_blocks: "apart (fresh j) (?sz j) (fresh i) (?sz i)" using b n(2-4) by (simp add: blocks_def)
  have "vwt_ok fn (smem st') (fresh j)"
  proof (rule vwt_ok_cong [of _ _ m])
    fix e :: nat assume "e \<le> 80"
    then have "apart (fresh j + of_nat e) 8 ?p (8 * length ws)" "apart (fresh j + of_nat e) 8 (?p - 8) (8 * length [fresh j])"
      using off off8 d ws t by (auto intro!: apart_at [OF apart_blocks] simp: unat_of_nat_u64)
    then show "load64 (smem st') (fresh j + of_nat e) = load64 m (fresh j + of_nat e)"
      by (simp only: st' load64_words_apart)
  qed (use m in \<open>simp add: with_table_def\<close>)
  moreover show l: "load64 (smem st') (?p - 8) = fresh j"
    unfolding st' load64_words_apart [OF before] by simp
  moreover have "load64 (smem st') ?p = 0x200"
    unfolding st' using load64_words [of 0 ws _ ?p] ws by (simp add: hd_conv_nth)
  moreover have "?p \<noteq> 0"
  proof -
    have "unat (fresh i) + ?sz i < 2 ^ 64" using b n(3) by (simp add: blocks_def)
    then have "unat (fresh i) + d < 2 ^ 64" using d ws by linarith
    then have "unat ?p = unat (fresh i) + d" using d by (simp add: unat_word_ariths unat_of_nat_u64)
    then show ?thesis using d by auto
  qed
  moreover have "8 \<le> length ws * 8" using ws(2) by (cases ws) simp_all
  ultimately show "valid_metadata fresh fn st' ?p"
    using n(3,4) off d ws(1) t unfolding valid_metadata_def by (intro conjI exI [of _ i] exI [of _ j]) simp_all
qed

lemma tables [simp]:
  "table_words fn (replicate 8 (fn ''dummy_fn'') @ [8, 8, 7])"
  "table_words fn (value_witnesses fn)" "table_words fn (value_witnesses fn @ [0])"
  "table_words fn [fn ''swiftui_copy'', fn ''swiftui_destroy'', fn ''swiftui_copy'', fn ''swiftui_copy'',
     fn ''swiftui_copy'', fn ''swiftui_copy'', fn ''swiftui_enum_tag'', fn ''swiftui_enum_tag'', 16, 16, 15]"
  by (auto simp: table_words_def value_witnesses_def witness_functions_def nth_Cons' nth_append numeral_eq_Suc less_Suc_eq)

section \<open>Every stub keeps what was handed out\<close>

text \<open>The caches only hold valid metadata.\<close>

definition stub_inv :: "(nat \<Rightarrow> ptr) \<Rightarrow> (string \<Rightarrow> u64) \<Rightarrow> stub_state \<Rightarrow> bool" where
  "stub_inv fresh fn st \<longleftrightarrow>
     (STUB st \<noteq> 0 \<longrightarrow> valid_metadata fresh fn st (STUB st))
     \<and> (STUB_OBJ st \<noteq> 0 \<longrightarrow> valid_metadata fresh fn st (STUB_OBJ st))
     \<and> (\<forall>p. CACHED_METADATA st = Some p \<longrightarrow> valid_metadata fresh fn st p)
     \<and> (\<forall>d p. singleton_cache st d = Some p \<longrightarrow> valid_metadata fresh fn st p)
     \<and> (\<forall>k p. name_cache st k = Some p \<longrightarrow> valid_metadata fresh fn st p)"

definition step_ok :: "(nat \<Rightarrow> ptr) \<Rightarrow> (string \<Rightarrow> u64) \<Rightarrow> stub_state \<Rightarrow> ptr \<times> stub_state \<Rightarrow> bool" where
  "step_ok fresh fn st r \<longleftrightarrow>
     grows fresh st (snd r) \<and> valid_metadata fresh fn (snd r) (fst r) \<and> stub_inv fresh fn (snd r)"

definition same_caches :: "stub_state \<Rightarrow> stub_state \<Rightarrow> bool" where
  "same_caches st st' \<longleftrightarrow> STUB st' = STUB st \<and> STUB_OBJ st' = STUB_OBJ st \<and> CACHED_METADATA st' = CACHED_METADATA st
     \<and> singleton_cache st' = singleton_cache st \<and> name_cache st' = name_cache st"

lemma inv_grows: "stub_inv fresh fn st \<Longrightarrow> grows fresh st st' \<Longrightarrow> same_caches st st' \<Longrightarrow> stub_inv fresh fn st'"
  using valid_grows [of fresh st st' fn] by (simp add: stub_inv_def same_caches_def)

lemma unresolved_new:
  assumes "STUB st = 0" and r_def: "r = shim_unresolved_soft_metadata fresh fn st" and hp: "heap_ok fresh (snd r)"
  shows "grows fresh st (snd r)" and "valid_metadata fresh fn (snd r) (fst r)"
    and "fst r = fresh (n_blocks st) + 64" and "load64 (smem (snd r)) (fst r - 8) = fresh (n_blocks st + 1)"
    and "n_blocks (snd r) = n_blocks st + 3" "STUB (snd r) = fst r" "STUB_OBJ (snd r) = STUB_OBJ st"
      "CACHED_METADATA (snd r) = CACHED_METADATA st" "singleton_cache (snd r) = singleton_cache st"
      "name_cache (snd r) = name_cache st" "STUB_WT (snd r) = STUB_WT st" "STUB_PACK (snd r) = STUB_PACK st"
proof -
  let ?n = "n_blocks st"
  let ?m = "store_bytes (store_words (store_bytes (store_bytes (smem st) (fresh ?n) (replicate 512 0))
    (fresh (?n + 1)) (replicate 256 0)) (fresh (?n + 1)) (replicate 8 (fn ''dummy_fn'') @ [8, 8, 7]))
    (fresh (?n + 2)) (replicate 256 0)"
  let ?ws = "0x200 # fresh (?n + 2) # replicate 46 (fresh ?n + 64)"
  have r: "r = (fresh ?n + 64, st\<lparr>n_blocks := ?n + 3,
      block_size := (block_size st)(?n := 512, ?n + 1 := 256, ?n + 2 := 256),
      smem := store_words (store_words ?m (fresh ?n + 64 - 8) [fresh (?n + 1)]) (fresh ?n + 64) ?ws,
      STUB := fresh ?n + 64\<rparr>)"
    using assms(1) by (simp add: r_def shim_unresolved_soft_metadata_def calloc_def put_words_def Let_def)
  have b: "blocks fresh (block_size (snd r)) (n_blocks (snd r))" using hp by (simp add: heap_ok_def)
  have m: "with_table fresh (block_size (snd r)) fn ?n (?n + 1) (smem st) ?m"
    by (intro with_table_more(1) [OF b] with_table_written [OF b]) (simp_all add: r)
  have st': "smem (snd r) = store_words (store_words ?m (fresh ?n + of_nat 64 - 8) [fresh (?n + 1)]) (fresh ?n + of_nat 64) ?ws"
    by (simp add: r)
  note bu = built [OF hp m le_refl _ _ _ _ _ _ _ _ _ _ _ st']
  show "grows fresh st (snd r)" by (rule bu) (simp_all add: r)
  have "valid_metadata fresh fn (snd r) (fresh ?n + of_nat 64)" by (rule bu) (simp_all add: r)
  then show "valid_metadata fresh fn (snd r) (fst r)" by (simp add: r)
  show "fst r = fresh ?n + 64" by (simp add: r)
  have "load64 (smem (snd r)) (fresh ?n + of_nat 64 - 8) = fresh (?n + 1)" by (rule bu) (simp_all add: r)
  then show "load64 (smem (snd r)) (fst r - 8) = fresh (?n + 1)" by (simp add: r)
  show "n_blocks (snd r) = n_blocks st + 3" "STUB (snd r) = fst r" "STUB_OBJ (snd r) = STUB_OBJ st"
    "CACHED_METADATA (snd r) = CACHED_METADATA st" "singleton_cache (snd r) = singleton_cache st"
    "name_cache (snd r) = name_cache st" "STUB_WT (snd r) = STUB_WT st" "STUB_PACK (snd r) = STUB_PACK st"
    by (simp_all add: r)
qed

lemma unresolved_ok:
  assumes "stub_inv fresh fn st" and "heap_ok fresh (snd (shim_unresolved_soft_metadata fresh fn st))"
  shows "step_ok fresh fn st (shim_unresolved_soft_metadata fresh fn st)"
proof (cases "STUB st = 0")
  case True
  note new = unresolved_new [OF True refl assms(2)]
  have "stub_inv fresh fn (snd (shim_unresolved_soft_metadata fresh fn st))"
    using assms(1) new valid_grows [OF new(1)] by (simp add: stub_inv_def)
  with new show ?thesis by (simp add: step_ok_def)
next
  case False
  then show ?thesis using assms by (simp add: step_ok_def shim_unresolved_soft_metadata_def stub_inv_def)
qed

lemma generic_ok:
  assumes "stub_inv fresh fn st" and r_def: "r = swift_get_generic_metadata_stub fresh fn d st" and hp: "heap_ok fresh (snd r)"
  shows "step_ok fresh fn st r"
proof -
  let ?n = "n_blocks st"
  let ?m = "store_words (store_bytes (store_bytes (smem st) (fresh ?n) (replicate 512 0))
    (fresh (?n + 1)) (replicate 256 0)) (fresh (?n + 1)) (value_witnesses fn)"
  have r: "r = (fresh ?n + 64, st\<lparr>n_blocks := ?n + 2, block_size := (block_size st)(?n := 512, ?n + 1 := 256),
      smem := store_words (store_words ?m (fresh ?n + 64 - 8) [fresh (?n + 1)]) (fresh ?n + 64) [0x200, d]\<rparr>)"
    by (simp add: r_def swift_get_generic_metadata_stub_def calloc_def put_words_def Let_def)
  have b: "blocks fresh (block_size (snd r)) (n_blocks (snd r))" using hp by (simp add: heap_ok_def)
  have m: "with_table fresh (block_size (snd r)) fn ?n (?n + 1) (smem st) ?m"
    by (intro with_table_written [OF b]) (simp_all add: r)
  have st': "smem (snd r) = store_words (store_words ?m (fresh ?n + of_nat 64 - 8) [fresh (?n + 1)]) (fresh ?n + of_nat 64) [0x200, d]"
    by (simp add: r)
  note bu = built [OF hp m le_refl _ _ _ _ _ _ _ _ _ _ _ st']
  have g: "grows fresh st (snd r)" by (rule bu) (simp_all add: r)
  have v: "valid_metadata fresh fn (snd r) (fresh ?n + of_nat 64)" by (rule bu) (simp_all add: r)
  have "same_caches st (snd r)" by (simp add: r same_caches_def)
  with g v inv_grows [OF assms(1)] show ?thesis by (simp add: step_ok_def) (simp add: r)
qed

lemma named_ok:
  assumes inv: "stub_inv fresh fn st" and r_def: "r = named_metadata fresh fn key st" and hp: "heap_ok fresh (snd r)"
  shows "step_ok fresh fn st r"
proof (cases "name_cache st key")
  case None
  let ?n = "n_blocks st"
  let ?m = "store_words (store_bytes (store_words (store_bytes (store_bytes (smem st) (fresh ?n) (replicate 512 0))
    (fresh (?n + 1)) (replicate 256 0)) (fresh (?n + 1)) (value_witnesses fn))
    (fresh (?n + 2)) (replicate 256 0)) (fresh (?n + 2)) [0x80000010, 0, 8, 8, 0]"
  let ?ws = "0x200 # fresh (?n + 2) # replicate 46 (fresh ?n + 64)"
  have r: "r = (fresh ?n + 64, st\<lparr>n_blocks := ?n + 3,
      block_size := (block_size st)(?n := 512, ?n + 1 := 256, ?n + 2 := 256),
      smem := store_words (store_words ?m (fresh ?n + 64 - 8) [fresh (?n + 1)]) (fresh ?n + 64) ?ws,
      name_cache := (name_cache st)(key \<mapsto> fresh ?n + 64)\<rparr>)"
    using None by (simp add: r_def named_metadata_def calloc_def put_words_def Let_def)
  have b: "blocks fresh (block_size (snd r)) (n_blocks (snd r))" using hp by (simp add: heap_ok_def)
  have m: "with_table fresh (block_size (snd r)) fn ?n (?n + 1) (smem st) ?m"
    by (intro with_table_more(2) [OF b, where k = "?n + 2"] with_table_more(1) [OF b] with_table_written [OF b])
      (simp_all add: r)
  have st': "smem (snd r) = store_words (store_words ?m (fresh ?n + of_nat 64 - 8) [fresh (?n + 1)]) (fresh ?n + of_nat 64) ?ws"
    by (simp add: r)
  note bu = built [OF hp m le_refl _ _ _ _ _ _ _ _ _ _ _ st']
  have g: "grows fresh st (snd r)" by (rule bu) (simp_all add: r)
  have v: "valid_metadata fresh fn (snd r) (fst r)"
    using bu(2) by (simp add: r)
  have "stub_inv fresh fn (snd r)"
    using inv v valid_grows [OF g] by (simp add: stub_inv_def) (simp add: r)
  with g v show ?thesis by (simp add: step_ok_def)
next
  case (Some p)
  then show ?thesis using inv by (simp add: r_def named_metadata_def step_ok_def stub_inv_def)
qed

lemma swiftui_ok:
  assumes inv: "stub_inv fresh fn st" and r_def: "r = create_swiftui_compatible_metadata fresh fn st" and hp: "heap_ok fresh (snd r)"
  shows "step_ok fresh fn st r"
proof (cases "CACHED_METADATA st")
  case None
  let ?n = "n_blocks st"
  let ?m = "store_words (store_words (store_bytes (store_words (store_bytes (store_bytes (smem st) (fresh ?n) (replicate 1024 0))
    (fresh (?n + 1)) (replicate 512 0)) (fresh (?n + 1))
      [fn ''swiftui_copy'', fn ''swiftui_destroy'', fn ''swiftui_copy'', fn ''swiftui_copy'',
       fn ''swiftui_copy'', fn ''swiftui_copy'', fn ''swiftui_enum_tag'', fn ''swiftui_enum_tag'', 16, 16, 15])
    (fresh (?n + 2)) (replicate 512 0)) (fresh (?n + 2)) [0x80000050, 0, 8, 1, 48]) (fresh (?n + 2) + 96) [0]"
  let ?ws = "[0x200, fresh (?n + 2), fresh ?n + 64, fn ''DUMMY_VWT'']"
  have r: "r = (fresh ?n + 64, st\<lparr>n_blocks := ?n + 3,
      block_size := (block_size st)(?n := 1024, ?n + 1 := 512, ?n + 2 := 512),
      smem := store_words (store_words ?m (fresh ?n + 64 - 8) [fresh (?n + 1)]) (fresh ?n + 64) ?ws,
      CACHED_METADATA := Some (fresh ?n + 64)\<rparr>)"
    using None
    by (simp add: r_def create_swiftui_compatible_metadata_def create_swiftui_metadata_internal_def calloc_def put_words_def Let_def)
  have b: "blocks fresh (block_size (snd r)) (n_blocks (snd r))" using hp by (simp add: heap_ok_def)
  have m: "with_table fresh (block_size (snd r)) fn ?n (?n + 1) (smem st) ?m"
    by (intro with_table_more(2) [OF b, where k = "?n + 2"] with_table_more(1) [OF b] with_table_written [OF b] tables)
      (simp_all add: r)
  have st': "smem (snd r) = store_words (store_words ?m (fresh ?n + of_nat 64 - 8) [fresh (?n + 1)]) (fresh ?n + of_nat 64) ?ws"
    by (simp add: r)
  note bu = built [OF hp m le_refl _ _ _ _ _ _ _ _ _ _ _ st']
  have g: "grows fresh st (snd r)" by (rule bu) (simp_all add: r)
  have v: "valid_metadata fresh fn (snd r) (fst r)"
    using bu(2) by (simp add: r)
  have "stub_inv fresh fn (snd r)"
    using inv v valid_grows [OF g] by (simp add: stub_inv_def) (simp add: r)
  with g v show ?thesis by (simp add: step_ok_def)
next
  case (Some p)
  then show ?thesis using inv by (simp add: r_def create_swiftui_compatible_metadata_def step_ok_def stub_inv_def)
qed

text \<open>The layout of a struct stays inside the 512 bytes of its record.\<close>

definition layout_fits :: "ptr \<Rightarrow> mem \<Rightarrow> bool" where
  "layout_fits descriptor m \<longleftrightarrow>
     (let fields_addr = descriptor + 16 + scast (load32 m (descriptor + 16));
          fov = load32 m (descriptor + 20); num_fields = load32 m (fields_addr + 12)
      in load32 m descriptor AND 0x1F = 17 \<and> fields_addr > 0x100000000 \<and> fov > 0 \<and> fov < 100
           \<longrightarrow> 8 * unat fov + 4 * unat (min num_fields 16) \<le> 496)"

lemma foldl_store32:
  "\<forall>i \<in> set xs. apart a 8 (p i) 4 \<Longrightarrow> load64 (foldl (\<lambda>m i. store32 m (p i) (v i)) m xs) a = load64 m a"
  by (induction xs arbitrary: m) (simp_all add: store32_def load64_bytes_apart)

lemma foldl_store32_untouched:
  assumes "blocks fresh sz N" and "n \<le> j" and "j < N" and "\<forall>i \<in> set xs. unat (p i - fresh j) + 4 \<le> sz j"
  shows "untouched fresh sz n m m' \<Longrightarrow> untouched fresh sz n m (foldl (\<lambda>m i. store32 m (p i) (v i)) m' xs)"
  using assms(4)
proof (induction xs arbitrary: m')
  case (Cons x xs)
  have "untouched fresh sz n m (store32 m' (p x) (v x))"
    unfolding store32_def using Cons.prems by (intro untouched_bytes [OF assms(1-3)]) simp_all
  with Cons show ?case by simp
qed simp

lemma field_place:
  fixes r :: u64
  assumes "8 * unat fov + 4 * unat (min num_fields 16 :: u32) \<le> 496" and "fi < unat (min num_fields 16)"
  shows "unat (r + 16 + 4 * of_nat (unat fov * 2 + fi) - r) = 16 + 8 * unat fov + 4 * fi"
proof -
  have "r + 16 + 4 * of_nat (unat fov * 2 + fi) - r = of_nat (16 + 8 * unat fov + 4 * fi)" by simp
  moreover have "16 + 8 * unat fov + 4 * fi < 2 ^ 64" using assms by simp
  ultimately show ?thesis by (simp only: unat_of_nat_u64)
qed

lemma struct_layout_frame:
  assumes b: "blocks fresh sz N" and i: "i < N" "sz i = 512" and j: "j < N" "sz j = 256" "i \<noteq> j" and n: "n \<le> i" "n \<le> j"
    and fits: "layout_fits d m" and m': "m' = struct_layout d (fresh i + 16) (fresh j) m"
  shows "untouched fresh sz n m m'" and "load64 m' (fresh i + 16) = load64 m (fresh i + 16)"
    and "load64 m' (fresh i + 8) = load64 m (fresh i + 8)" and "vwt_ok fn m (fresh j) \<Longrightarrow> vwt_ok fn m' (fresh j)"
proof -
  define fields where "fields = d + 16 + scast (load32 m (d + 16))"
  define fov where "fov = load32 m (d + 20)"
  define num where "num = load32 m (fields + 12)"
  define total :: u64 where "total = ucast (num * 8)"
  define lay where "lay \<longleftrightarrow> load32 m d AND 0x1F = 17 \<and> fields > 0x100000000 \<and> fov > 0 \<and> fov < 100"
  let ?f = "field_offsets (fresh i + 16) fov num m"
  have m'_eq: "m' = (if lay then store_words ?f (fresh j + 64) [total, total] else m)"
    by (auto simp: m' struct_layout_def lay_def fields_def fov_def num_def total_def Let_def)
  have room: "8 * unat fov + 4 * unat (min num 16) \<le> 496" "8 \<le> 8 * unat fov" if lay
  proof -
    show "8 * unat fov + 4 * unat (min num 16) \<le> 496"
      using fits that by (simp add: layout_fits_def lay_def fields_def fov_def num_def Let_def)
    have "fov \<noteq> 0" using that by (auto simp: lay_def)
    then show "8 \<le> 8 * unat fov" by (simp add: unat_gt_0 Suc_le_eq)
  qed
  have ap: "apart (fresh i) 512 (fresh j) 256" using b i j unfolding blocks_def by metis
  then have ap: "apart (fresh i) 512 (fresh j) 256" "apart (fresh j) 256 (fresh i) 512" by (simp_all add: apart_sym)
  have big: "(1024 :: nat) \<le> 2 ^ 64" by simp
  have f_same: "load64 ?f a = load64 m a"
    if lay and "unat (a - fresh i) + 8 \<le> 24 \<or> (\<exists>e. e \<le> 248 \<and> a = fresh j + of_nat e)" for a
    unfolding field_offsets_def
  proof (intro foldl_store32 ballI)
    fix fi assume "fi \<in> set [0..<unat (min num 16)]"
    then have fi: "fi < unat (min num 16)" by simp
    note pl = field_place [OF room(1) [OF that(1)] fi, of "fresh i"]
    show "apart a 8 (fresh i + 16 + 4 * of_nat (unat fov * 2 + fi)) 4"
      using that(2)
    proof
      assume "unat (a - fresh i) + 8 \<le> 24"
      then show ?thesis
        using pl room [OF that(1)] fi big by (intro apart_beside [where b = "fresh i"]) linarith+
    next
      assume "\<exists>e. e \<le> 248 \<and> a = fresh j + of_nat e"
      then show ?thesis
        using pl room [OF that(1)] fi by (intro apart_at [OF ap(2)]) (auto simp: unat_of_nat_u64)
    qed
  qed
  show "untouched fresh sz n m m'"
  proof (cases lay)
    case True
    have "untouched fresh sz n m ?f"
      unfolding field_offsets_def
    proof (intro foldl_store32_untouched [OF b n(1) i(1)] ballI)
      fix fi assume "fi \<in> set [0..<unat (min num 16)]"
      then have fi: "fi < unat (min num 16)" by simp
      show "unat (fresh i + 16 + 4 * of_nat (unat fov * 2 + fi) - fresh i) + 4 \<le> sz i"
        unfolding field_place [OF room(1) [OF True] fi] using room(1) [OF True] fi i(2) by linarith
    qed simp
    then have "untouched fresh sz n m (store_words ?f (fresh j + 64) [total, total])"
      by (intro untouched_words [OF b n(2) j(1)]) (simp_all add: j(2))
    then show ?thesis by (simp add: m'_eq True)
  qed (simp add: m'_eq)
  have rec: "load64 m' (fresh i + of_nat e) = load64 m (fresh i + of_nat e)" if "e \<le> 16" for e
  proof (cases lay)
    case True
    have "apart (fresh i + of_nat e) 8 (fresh j + 64) (8 * length [total, total])"
      by (rule apart_at [OF ap(1)]) (use that in \<open>simp_all add: unat_of_nat_u64\<close>)
    then show ?thesis
      unfolding m'_eq using True f_same [OF True, of "fresh i + of_nat e"] that
      by (simp only: load64_words_apart if_True) (simp add: unat_of_nat_u64)
  qed (simp add: m'_eq)
  from rec [of 16] rec [of 8] show "load64 m' (fresh i + 16) = load64 m (fresh i + 16)"
    "load64 m' (fresh i + 8) = load64 m (fresh i + 8)" by simp_all
  show "vwt_ok fn m' (fresh j)" if v: "vwt_ok fn m (fresh j)"
  proof (cases lay)
    case True
    have other: "load64 m' (fresh j + of_nat e) = load64 m (fresh j + of_nat e)" if "e \<le> 56 \<or> e = 80" for e
    proof -
      have "apart (fresh j + of_nat e) 8 (fresh j + 64) (8 * length [total, total])"
        by (rule apart_beside [where b = "fresh j"]) (use that in \<open>auto simp: unat_of_nat_u64\<close>)
      moreover have "\<exists>e'. e' \<le> 248 \<and> fresh j + of_nat e = fresh j + of_nat e'" using that by (intro exI [of _ e]) auto
      ultimately show ?thesis
        unfolding m'_eq using True f_same [OF True, of "fresh j + of_nat e"]
        by (simp only: load64_words_apart if_True) blast
    qed
    have "load64 m' (fresh j + 64 + of_nat (8 * k)) = [total, total] ! k" if "k < 2" for k
      unfolding m'_eq using True that load64_words [of k "[total, total]" ?f "fresh j + 64"] by simp
    from this [of 0] this [of 1] have "load64 m' (fresh j + 64) = total" "load64 m' (fresh j + 72) = total"
      by (simp_all add: add.assoc)
    moreover have "load64 m' (fresh j + of_nat (8 * k)) = load64 m (fresh j + of_nat (8 * k))" if "k < 8" for k
      using that by (intro other) simp
    moreover have "load64 m' (fresh j + 80) = load64 m (fresh j + 80)" using other [of 80] by simp
    ultimately show ?thesis using v by (simp add: vwt_ok_def)
  qed (use v in \<open>simp add: m'_eq\<close>)
qed

lemma valid_intro:
  assumes "p \<noteq> 0" and "load64 m p = 0x200" and "load64 m q = fresh j" and "vwt_ok fn m (fresh j)" and "q = p - 8"
    and "i < n_blocks st" and "unat (p - fresh i) = d" "8 \<le> d" "d + 8 \<le> block_size st i"
    and "j < n_blocks st" "88 \<le> block_size st j" and "smem st = m"
  shows "valid_metadata fresh fn st p"
  unfolding valid_metadata_def using assms by (intro conjI exI [of _ i] exI [of _ j]) simp_all

lemma singleton_ok:
  assumes inv: "stub_inv fresh fn st" and r_def: "r = swift_get_singleton_metadata fresh fn d st" and hp: "heap_ok fresh (snd r)"
    and fits: "layout_fits d (smem (snd (snd (singleton_record fresh fn d st))))"
  shows "step_ok fresh fn st r"
proof (cases "singleton_cache st d")
  case None
  let ?n = "n_blocks st"
  let ?m = "store_bytes (store_words (store_bytes (store_bytes (smem st) (fresh ?n) (replicate 0 0)) (fresh ?n) (replicate 256 0))
    (fresh ?n) (value_witnesses fn @ [0])) (fresh (?n + 1)) (replicate 512 0)"
  let ?rec = "store_words (store_words ?m (fresh (?n + 1) + 16 - 8) [fresh ?n]) (fresh (?n + 1) + 16) [0x200, d]"
  let ?st1 = "st\<lparr>n_blocks := ?n + 2, block_size := (block_size st)(?n := 256, ?n + 1 := 512), smem := ?rec\<rparr>"
  have nil: "store_bytes m a [] = m" for m a by (simp add: store_bytes_def)
  have made: "singleton_record fresh fn d st = (fresh (?n + 1) + 16, fresh ?n, ?st1)"
    by (simp add: singleton_record_def calloc_def put_words_def Let_def nil)
  have r: "r = (fresh (?n + 1) + 16, ?st1\<lparr>smem := struct_layout d (fresh (?n + 1) + 16) (fresh ?n) ?rec,
      singleton_cache := (singleton_cache st)(d \<mapsto> fresh (?n + 1) + 16)\<rparr>)"
    using None by (simp add: r_def swift_get_singleton_metadata_def made)
  have hp1: "heap_ok fresh ?st1" using hp by (simp add: heap_ok_def r)
  have b: "blocks fresh (block_size ?st1) (?n + 2)" using hp1 by (simp add: heap_ok_def)
  have m: "with_table fresh (block_size ?st1) fn ?n ?n (smem st) ?m"
    by (intro with_table_more(1) [OF b] with_table_written [OF b]) simp_all
  have st': "smem ?st1 = store_words (store_words ?m (fresh (?n + 1) + of_nat 16 - 8) [fresh ?n]) (fresh (?n + 1) + of_nat 16) [0x200, d]"
    by simp
  note bu = built [OF hp1 m _ _ _ _ _ _ _ _ _ _ _ _ st']
  have g: "grows fresh st ?st1" by (rule bu) simp_all
  have v: "valid_metadata fresh fn ?st1 (fresh (?n + 1) + of_nat 16)" by (rule bu) simp_all
  have at8: "fresh (?n + 1) + of_nat 16 - 8 = fresh (?n + 1) + 8" by simp
  have "load64 (smem ?st1) (fresh (?n + 1) + of_nat 16 - 8) = fresh ?n" by (rule bu) simp_all
  then have "load64 (smem ?st1) (fresh (?n + 1) + 8) = fresh ?n" by (simp only: at8)
  then have l: "load64 ?rec (fresh (?n + 1) + 8) = fresh ?n" by simp
  let ?m' = "struct_layout d (fresh (?n + 1) + 16) (fresh ?n) ?rec"
  have "layout_fits d ?rec" using fits by (simp add: made)
  note lay = struct_layout_frame [where n = ?n and i = "?n + 1" and j = ?n, OF b _ _ _ _ _ _ _ this refl]
  have "untouched fresh (block_size ?st1) ?n ?rec ?m'" by (rule lay) simp_all
  then have "untouched fresh (block_size st) ?n ?rec ?m'"
    using untouched_sizes [of ?n "block_size ?st1" "block_size st" fresh] by simp
  then have g': "grows fresh st (snd r)"
    using g untouched_trans [of fresh "block_size st" ?n "smem st" ?rec ?m'] by (simp add: grows_def r)
  have keep: "load64 ?m' (fresh (?n + 1) + 16) = load64 ?rec (fresh (?n + 1) + 16)" by (rule lay(2)) simp_all
  have keep8: "load64 ?m' (fresh (?n + 1) + 8) = load64 ?rec (fresh (?n + 1) + 8)" by (rule lay(3)) simp_all
  have before: "load64 ?rec (fresh (?n + 1) + of_nat 16) = 0x200" "vwt_ok fn ?rec (fresh ?n)" "fresh (?n + 1) + of_nat 16 \<noteq> 0"
    using v l unfolding valid_metadata_def at8 by simp_all
  have table: "vwt_ok fn ?m' (fresh ?n)" by (rule lay(4)) (use before in simp_all)
  have "valid_metadata fresh fn (snd r) (fresh (?n + 1) + 16)"
  proof (rule valid_intro [where j = ?n and i = "?n + 1" and d = 16])
    show "load64 ?m' (fresh (?n + 1) + 16) = 0x200" using before(1) keep by (simp only: of_nat_numeral)
    show "load64 ?m' (fresh (?n + 1) + 8) = fresh ?n" using keep8 l by (simp only:)
    show "vwt_ok fn ?m' (fresh ?n)" by (rule table)
    show "fresh (?n + 1) + 16 \<noteq> 0" using before(3) by simp
    show "smem (snd r) = ?m'" by (simp only: r snd_conv) simp
  qed (simp_all add: r)
  then have "valid_metadata fresh fn (snd r) (fst r)" by (simp only: r fst_conv)
  moreover from this have "stub_inv fresh fn (snd r)"
    using inv valid_grows [OF g'] by (simp add: stub_inv_def) (simp add: r)
  ultimately show ?thesis using g' by (simp add: step_ok_def)
next
  case (Some p)
  then show ?thesis using inv by (simp add: r_def swift_get_singleton_metadata_def step_ok_def stub_inv_def)
qed

lemma calloc_grows:
  assumes "r = calloc fresh n st" and "heap_ok fresh (snd r)"
  shows "grows fresh st (snd r)" and "same_caches st (snd r)"
proof -
  have b: "blocks fresh (block_size (snd r)) (n_blocks st + 1)" using assms by (simp add: heap_ok_def calloc_def)
  have "untouched fresh (block_size (snd r)) (n_blocks st) (smem st) (smem (snd r))"
    using untouched_bytes [OF b le_refl _ untouched_refl, where p = "fresh (n_blocks st)" and bs = "replicate n 0"]
    by (simp add: assms(1) calloc_def)
  then show "grows fresh st (snd r)"
    using untouched_sizes [of "n_blocks st" "block_size (snd r)" "block_size st" fresh]
    by (simp add: grows_def) (simp add: assms(1) calloc_def)
  show "same_caches st (snd r)" by (simp add: assms(1) calloc_def same_caches_def)
qed

text \<open>Whatever a stub does, the list of blocks only gets longer.\<close>

definition extends :: "stub_state \<Rightarrow> stub_state \<Rightarrow> bool" where
  "extends st st' \<longleftrightarrow> n_blocks st \<le> n_blocks st' \<and> (\<forall>k < n_blocks st. block_size st' k = block_size st k)"

lemma heap_extends: "extends st st' \<Longrightarrow> heap_ok fresh st' \<Longrightarrow> heap_ok fresh st"
  unfolding heap_ok_def blocks_def extends_def by (metis order_less_le_trans)

lemma extends_calloc: "extends st (snd (calloc fresh n st))"
  by (simp add: extends_def calloc_def)

lemma extends_unresolved: "extends st (snd (shim_unresolved_soft_metadata fresh fn st))"
  by (simp add: extends_def shim_unresolved_soft_metadata_def calloc_def put_words_def Let_def)

lemma extends_witness_table: "extends st (snd (get_stub_witness_table fresh fn st))"
  by (simp add: extends_def get_stub_witness_table_def calloc_def put_words_def Let_def)

lemma extends_trans: "extends st st' \<Longrightarrow> extends st' st'' \<Longrightarrow> extends st st''"
  by (auto simp: extends_def)

lemma table_kept:
  assumes "grows fresh st st'" and "valid_metadata fresh fn st p"
  shows "load64 (smem st') (p - 8) = load64 (smem st) (p - 8)"
proof -
  obtain k where k: "k < n_blocks st" "8 \<le> unat (p - fresh k)" "unat (p - fresh k) + 8 \<le> block_size st k"
    using assms(2) by (auto simp: valid_metadata_def)
  then show ?thesis
    using assms(1) unat_back8 [of p "fresh k"] load64_untouched [of fresh "block_size st" "n_blocks st" _ _ k "p - 8"]
    by (simp add: grows_def)
qed

lemma words_beside:
  assumes b: "blocks fresh sz N" and i: "i < N" and k: "k < N" "k \<noteq> i" and j: "j < N" "j \<noteq> i" "88 \<le> sz j"
    and p: "8 \<le> unat (p - fresh k)" "unat (p - fresh k) + 8 \<le> sz k" and q: "unat (q - fresh i) + 8 * length ws \<le> sz i"
  shows "load64 (store_words m q ws) p = load64 m p" and "load64 (store_words m q ws) (p - 8) = load64 m (p - 8)"
    and "vwt_ok fn m (fresh j) \<Longrightarrow> vwt_ok fn (store_words m q ws) (fresh j)"
proof -
  have ap: "apart (fresh k) (sz k) (fresh i) (sz i)" "apart (fresh j) (sz j) (fresh i) (sz i)"
    using b i k j by (simp_all add: blocks_def)
  show "load64 (store_words m q ws) p = load64 m p"
    by (rule load64_words_apart, rule apart_at [OF ap(1)]) (use p q in simp_all)
  show "load64 (store_words m q ws) (p - 8) = load64 m (p - 8)"
    by (rule load64_words_apart, rule apart_at [OF ap(1)]) (use p q unat_back8 [of p "fresh k"] in simp_all)
  show "vwt_ok fn (store_words m q ws) (fresh j)" if "vwt_ok fn m (fresh j)"
    by (rule vwt_ok_cong [OF _ that], rule load64_words_apart, rule apart_at [OF ap(2)])
      (use j q in \<open>simp_all add: unat_of_nat_u64\<close>)
qed

lemma stub_object_ok:
  assumes inv: "stub_inv fresh fn st" and r_def: "r = safe_return_stub_object fresh fn st" and hp: "heap_ok fresh (snd r)"
  shows "step_ok fresh fn st r"
proof (cases "STUB_OBJ st = 0")
  case True
  let ?n = "n_blocks st"
  obtain st1 where st1: "calloc fresh 1024 st = (fresh ?n, st1)" and n1: "n_blocks st1 = ?n + 1" "block_size st1 ?n = 1024"
    by (simp add: calloc_def)
  obtain p st2 where st2: "shim_unresolved_soft_metadata fresh fn st1 = (p, st2)"
    by (cases "shim_unresolved_soft_metadata fresh fn st1")
  let ?ws = "0x200 # p # concat (replicate 59 [0, empty_string_word])"
  let ?m = "store_words (store_words (smem st2) (fresh ?n) [load64 (smem st2) (p - 8)]) (fresh ?n + 8) ?ws"
  have r: "r = (fresh ?n + 8, st2\<lparr>smem := ?m, STUB_OBJ := fresh ?n + 8\<rparr>)"
    using True by (simp only: r_def safe_return_stub_object_def st1 st2 Let_def put_words_def case_prod_conv if_False) simp
  have hp2: "heap_ok fresh st2" using hp by (simp add: heap_ok_def r)
  have ext: "extends st1 st2" using extends_unresolved [of st1 fresh fn] st2 by simp
  have hp1: "heap_ok fresh st1" by (rule heap_extends [OF ext hp2])
  have g1: "grows fresh st st1" "same_caches st st1" using calloc_grows [OF st1 [symmetric]] hp1 by simp_all
  have inv1: "stub_inv fresh fn st1" by (rule inv_grows [OF inv g1])
  have ok2: "step_ok fresh fn st1 (p, st2)" using unresolved_ok [OF inv1, of] hp2 st2 by simp
  then have g2: "grows fresh st st2" using grows_trans [OF g1(1)] by (simp add: step_ok_def)
  have v: "valid_metadata fresh fn st2 p" using ok2 by (simp add: step_ok_def)
  obtain j where j: "load64 (smem st2) (p - 8) = fresh j" "j < n_blocks st2" "88 \<le> block_size st2 j" "j \<noteq> ?n"
  proof (cases "STUB st1 = 0")
    case True
    note new = unresolved_new [OF True st2 [symmetric]]
    have "load64 (smem st2) (p - 8) = fresh (?n + 2)" "n_blocks st2 = ?n + 4"
      using new(4,5) hp2 n1 by simp_all
    moreover have "block_size st2 (?n + 2) = 256"
      using True st2 n1 by (auto simp: shim_unresolved_soft_metadata_def calloc_def put_words_def Let_def)
    ultimately show ?thesis using that [of "?n + 2"] by simp
  next
    case False
    then have p: "p = STUB st" "st2 = st1" and old: "valid_metadata fresh fn st (STUB st)"
      using st2 g1(2) inv by (auto simp: shim_unresolved_soft_metadata_def same_caches_def stub_inv_def)
    then obtain k where "k < ?n" "load64 (smem st) (p - 8) = fresh k" "88 \<le> block_size st k"
      by (auto simp: valid_metadata_def)
    then show ?thesis using that [of k] table_kept [OF g1(1) old] g1(1) n1 p by (simp add: grows_def)
  qed
  have n2: "?n < n_blocks st2" "block_size st2 ?n = 1024" "\<And>k. k < ?n \<Longrightarrow> block_size st2 k = block_size st k"
    using ext n1 g2 by (auto simp: extends_def grows_def)
  have b: "blocks fresh (block_size st2) (n_blocks st2)" using hp2 by (simp add: heap_ok_def)
  have t: "with_table fresh (block_size (snd r)) fn ?n j (smem st) (smem st2)"
    using g2 v j(1) untouched_sizes [of ?n "block_size st2" "block_size st" fresh] n2(3)
    by (simp add: with_table_def grows_def valid_metadata_def r)
  have m: "smem (snd r) = store_words (store_words (smem st2) (fresh ?n + of_nat 8 - 8) [fresh j]) (fresh ?n + of_nat 8) ?ws"
    using j(1) by (simp add: r del: store_words.simps)
  have len: "length (concat (replicate 59 [0, empty_string_word])) = 118" by (simp add: length_concat sum_list_replicate)
  note bu = built [OF hp t le_refl _ _ _ _ _ _ _ _ _ _ _ m]
  have g: "grows fresh st (snd r)" by (rule bu(1)) (use j n2 in \<open>simp_all add: r len\<close>)
  have "valid_metadata fresh fn (snd r) (fresh ?n + of_nat 8)" by (rule bu(2)) (use j n2 in \<open>simp_all add: r len\<close>)
  then have v': "valid_metadata fresh fn (snd r) (fst r)" by (simp add: r)
  have stub: "valid_metadata fresh fn (snd r) (STUB st2)" if "STUB st2 \<noteq> 0"
  proof (cases "STUB st1 = 0")
    case True
    note new = unresolved_new [OF True st2 [symmetric]]
    have p: "STUB st2 = p" "p = fresh (?n + 1) + 64" "load64 (smem st2) (p - 8) = fresh (?n + 2)" "n_blocks st2 = ?n + 4"
      using new(3-6) hp2 n1 by simp_all
    have sz: "block_size st2 (?n + 1) = 512" "block_size st2 (?n + 2) = 256"
      using True st2 n1 by (auto simp: shim_unresolved_soft_metadata_def calloc_def put_words_def Let_def)
    have off: "unat (p - fresh (?n + 1)) = 64" by (simp add: p(2))
    note beside = words_beside [OF b n2(1), where k = "?n + 1" and j = "?n + 2" and p = p]
    note places = off [simplified] p(4) sz [simplified] n2(2)
    have one: "load64 (store_words m q ws) p = load64 m p" if "unat (q - fresh ?n) + 8 * length ws \<le> 1024" for m q ws
      by (rule beside(1)) (use that in \<open>simp_all add: places\<close>)
    have prior: "load64 (store_words m q ws) (p - 8) = load64 m (p - 8)"
      if "unat (q - fresh ?n) + 8 * length ws \<le> 1024" for m q ws
      by (rule beside(2)) (use that in \<open>simp_all add: places\<close>)
    have two: "vwt_ok fn (store_words m q ws) (fresh (?n + 2))"
      if "vwt_ok fn m (fresh (?n + 2))" "unat (q - fresh ?n) + 8 * length ws \<le> 1024" for m q ws
      by (rule beside(3)) (use that in \<open>simp_all add: places\<close>)
    have room: "unat (fresh ?n - fresh ?n) + 8 * length [load64 (smem st2) (p - 8)] \<le> 1024"
      "unat (fresh ?n + 8 - fresh ?n) + 8 * length ?ws \<le> 1024" by (simp_all add: len)
    show ?thesis
      unfolding p(1)
    proof (rule valid_intro [where i = "?n + 1" and j = "?n + 2" and d = 64 and m = ?m and q = "p - 8"])
      show "load64 ?m p = 0x200" unfolding one [OF room(2)] one [OF room(1)] using v by (simp add: valid_metadata_def)
      show "load64 ?m (p - 8) = fresh (?n + 2)" unfolding prior [OF room(2)] prior [OF room(1)] by (rule p(3))
      show "vwt_ok fn ?m (fresh (?n + 2))"
        using v p(3) by (intro two room) (simp add: valid_metadata_def)
      show "p \<noteq> 0" using v by (simp add: valid_metadata_def)
    qed (use p sz in \<open>simp_all add: r\<close>)
  next
    case False
    then have "STUB st2 = STUB st" "STUB st \<noteq> 0"
      using st2 g1(2) by (auto simp: shim_unresolved_soft_metadata_def same_caches_def)
    then show ?thesis using inv valid_grows [OF g] by (simp add: stub_inv_def)
  qed
  have "CACHED_METADATA st2 = CACHED_METADATA st" "singleton_cache st2 = singleton_cache st" "name_cache st2 = name_cache st"
    using st1 st2 by (auto simp: shim_unresolved_soft_metadata_def calloc_def put_words_def Let_def split: if_splits)
  then have "stub_inv fresh fn (snd r)"
    using inv v' stub valid_grows [OF g] by (simp add: stub_inv_def) (simp add: r)
  with g v' show ?thesis by (simp add: step_ok_def)
next
  case False
  then show ?thesis using inv by (simp add: r_def safe_return_stub_object_def step_ok_def stub_inv_def)
qed

lemma put_words_untouched:
  assumes "heap_ok fresh st" and "n \<le> j" and "j < n_blocks st" and "unat (p - fresh j) + 8 * length ws \<le> block_size st j"
    and "untouched fresh (block_size st) n m (smem st)"
  shows "untouched fresh (block_size st) n m (smem (put_words p ws st))"
  using untouched_words [OF assms(1) [unfolded heap_ok_def] assms(2,3,5,4)] by (simp add: put_words_def)

lemma block_filled:
  assumes "calloc fresh sz st = (b, st1)" and "heap_ok fresh st1" and "unat (q - b) + 8 * length ws \<le> sz"
    and "st2 = put_words q ws st1"
  shows "grows fresh st st2" and "same_caches st st2" and "heap_ok fresh st2"
proof -
  have g: "grows fresh st st1" "same_caches st st1" using calloc_grows [OF assms(1) [symmetric]] assms(2) by simp_all
  have n: "b = fresh (n_blocks st)" "n_blocks st1 = n_blocks st + 1" "block_size st1 (n_blocks st) = sz"
    using assms(1) by (auto simp: calloc_def)
  have "untouched fresh (block_size st1) (n_blocks st) (smem st) (smem st1)"
    using g(1) untouched_sizes [of "n_blocks st" "block_size st1" "block_size st" fresh] by (simp add: grows_def)
  then have "untouched fresh (block_size st1) (n_blocks st) (smem st) (smem st2)"
    using put_words_untouched [OF assms(2) le_refl, where p = q and ws = ws and m = "smem st"] assms(3) n by (simp add: assms(4))
  then show "grows fresh st st2"
    using g(1) untouched_sizes [of "n_blocks st" "block_size st1" "block_size st" fresh]
    by (simp add: grows_def) (simp add: assms(4) put_words_def)
  show "same_caches st st2" using g(2) by (simp add: assms(4) put_words_def same_caches_def)
  show "heap_ok fresh st2" using assms(2) by (simp add: assms(4) put_words_def heap_ok_def)
qed

lemma witness_table_grows:
  assumes "r = get_stub_witness_table fresh fn st" and "heap_ok fresh (snd r)"
  shows "grows fresh st (snd r)" and "same_caches st (snd r)"
proof -
  have "grows fresh st (snd r) \<and> same_caches st (snd r)"
  proof (cases "STUB_WT st = 0")
    case True
    obtain b st1 where st1: "calloc fresh 512 st = (b, st1)" by (cases "calloc fresh 512 st")
    let ?st2 = "put_words b (replicate 64 (fn ''witness_noop'')) st1"
    have r: "r = (b, ?st2\<lparr>STUB_WT := b\<rparr>)" using True by (simp add: assms(1) get_stub_witness_table_def st1)
    have "heap_ok fresh st1" using assms(2) by (simp add: r put_words_def heap_ok_def)
    from block_filled(1,2) [OF st1 this _ refl, of b "replicate 64 (fn ''witness_noop'')"] show ?thesis
      by (simp add: r grows_def same_caches_def)
  qed (simp add: assms(1) get_stub_witness_table_def same_caches_def)
  then show "grows fresh st (snd r)" "same_caches st (snd r)" by simp_all
qed

text \<open>An object of \<open>swift_alloc_object\<close>, with the reference count it was given.\<close>

definition immortal :: "(nat \<Rightarrow> ptr) \<Rightarrow> stub_state \<Rightarrow> ptr \<Rightarrow> bool" where
  "immortal fresh st p \<longleftrightarrow> load64 (smem st) (p + 8) = 0xFFFFFFFFFFFFFFFF \<and> (\<exists>k < n_blocks st. p = fresh k \<and> 16 \<le> block_size st k)"

lemma immortal_grows:
  assumes "grows fresh st st'" and "immortal fresh st p"
  shows "immortal fresh st' p"
proof -
  obtain k where k: "k < n_blocks st" "p = fresh k" "16 \<le> block_size st k" using assms(2) by (auto simp: immortal_def)
  have "load64 (smem st') (fresh k + 8) = load64 (smem st) (fresh k + 8)"
    using assms(1) k by (intro load64_untouched [of fresh "block_size st" "n_blocks st" _ _ k]) (simp_all add: grows_def)
  with assms k show ?thesis unfolding immortal_def grows_def by (metis order_less_le_trans)
qed

lemma alloc_object_ok:
  assumes inv: "stub_inv fresh fn st" and r_def: "r = swift_alloc_object fresh d size_bytes st" and hp: "heap_ok fresh (snd r)"
  shows "grows fresh st (snd r)" and "stub_inv fresh fn (snd r)" and "immortal fresh (snd r) (fst r)"
proof -
  let ?n = "n_blocks st" and ?z = "unat (max size_bytes 16)"
  obtain st1 where st1: "calloc fresh ?z st = (fresh ?n, st1)" and n1: "n_blocks st1 = ?n + 1" "block_size st1 ?n = ?z"
    by (simp add: calloc_def)
  have "unat (16 :: u64) \<le> ?z" unfolding word_le_nat_alt [symmetric] by simp
  then have z: "16 \<le> ?z" by simp
  have bl: "n_blocks (snd r) = ?n + 1" "block_size (snd r) = block_size st1"
    using st1 n1 by (auto simp: r_def swift_alloc_object_def put_words_def Let_def)
  have hp1: "heap_ok fresh st1" using hp bl n1 by (simp add: heap_ok_def)
  then have nz: "fresh ?n \<noteq> 0" using n1 by (force simp: heap_ok_def blocks_def)
  have two: "put_words (fresh ?n + 8) [w] (put_words (fresh ?n) [v] st1) = put_words (fresh ?n) [v, w] st1" for v w
    by (simp add: put_words_def)
  have r: "r = (fresh ?n, put_words (fresh ?n) [d, 0xFFFFFFFFFFFFFFFF] st1)"
    using nz by (simp add: r_def swift_alloc_object_def st1 two)
  note filled = block_filled [OF st1 hp1 _ refl, of "fresh ?n" "[d, 0xFFFFFFFFFFFFFFFF]"]
  show g: "grows fresh st (snd r)" using filled(1) z by (simp add: r)
  show "stub_inv fresh fn (snd r)" using inv_grows [OF inv g] filled(2) z by (simp add: r)
  have "load64 (smem (snd r)) (fresh ?n + of_nat (8 * 1)) = [d, 0xFFFFFFFFFFFFFFFF] ! 1"
    using load64_words [of 1 "[d, 0xFFFFFFFFFFFFFFFF]" "smem st1" "fresh ?n"] by (simp add: r put_words_def)
  then show "immortal fresh (snd r) (fst r)" using bl n1 z by (auto simp: immortal_def r)
qed

section \<open>A run of the stubs\<close>

datatype stub_op =
    Unresolved
  | Singleton ptr
  | Generic ptr
  | Named "u8 list"
  | SymbolicName
  | StubObject
  | WitnessTable
  | AllocObject ptr u64

fun stub_step :: "(nat \<Rightarrow> ptr) \<Rightarrow> (string \<Rightarrow> u64) \<Rightarrow> stub_op \<Rightarrow> stub_state \<Rightarrow> ptr \<times> stub_state" where
  "stub_step fresh fn Unresolved st = shim_unresolved_soft_metadata fresh fn st"
| "stub_step fresh fn (Singleton d) st = swift_get_singleton_metadata fresh fn d st"
| "stub_step fresh fn (Generic d) st = swift_get_generic_metadata_stub fresh fn d st"
| "stub_step fresh fn (Named key) st = named_metadata fresh fn key st"
| "stub_step fresh fn SymbolicName st = create_swiftui_compatible_metadata fresh fn st"
| "stub_step fresh fn StubObject st = safe_return_stub_object fresh fn st"
| "stub_step fresh fn WitnessTable st = get_stub_witness_table fresh fn st"
| "stub_step fresh fn (AllocObject d n) st = swift_alloc_object fresh d n st"

fun stub_run :: "(nat \<Rightarrow> ptr) \<Rightarrow> (string \<Rightarrow> u64) \<Rightarrow> stub_op list \<Rightarrow> stub_state \<Rightarrow> (stub_op \<times> ptr) list \<times> stub_state" where
  "stub_run fresh fn [] st = ([], st)"
| "stub_run fresh fn (op # ops) st =
     (case stub_step fresh fn op st of
        (p, st) \<Rightarrow> (case stub_run fresh fn ops st of (rs, st) \<Rightarrow> ((op, p) # rs, st)))"

text \<open>The descriptors met on the way have layouts that fit their records.\<close>

fun layouts_fit :: "(nat \<Rightarrow> ptr) \<Rightarrow> (string \<Rightarrow> u64) \<Rightarrow> stub_op list \<Rightarrow> stub_state \<Rightarrow> bool" where
  "layouts_fit fresh fn [] st = True"
| "layouts_fit fresh fn (op # ops) st =
     ((case op of Singleton d \<Rightarrow> layout_fits d (smem (snd (snd (singleton_record fresh fn d st)))) | _ \<Rightarrow> True)
      \<and> layouts_fit fresh fn ops (snd (stub_step fresh fn op st)))"

fun gives_metadata :: "stub_op \<Rightarrow> bool" where
  "gives_metadata WitnessTable = False"
| "gives_metadata (AllocObject d n) = False"
| "gives_metadata _ = True"

definition stubs_start :: "mem \<Rightarrow> stub_state" where
  "stubs_start m = \<lparr>smem = m, n_blocks = 0, block_size = (\<lambda>_. 0), STUB = 0, STUB_WT = 0, STUB_OBJ = 0, STUB_PACK = 0,
     CACHED_METADATA = None, singleton_cache = (\<lambda>_. None), name_cache = (\<lambda>_. None)\<rparr>"

lemma step_extends: "extends st (snd (stub_step fresh fn op st))"
proof (cases op)
  case StubObject
  then show ?thesis
    using extends_unresolved [of "snd (calloc fresh 1024 st)" fresh fn] extends_calloc [of st fresh 1024]
    by (auto simp: safe_return_stub_object_def put_words_def Let_def extends_def split: prod.splits)
qed (auto simp: extends_unresolved extends_witness_table swift_get_singleton_metadata_def singleton_record_def
  swift_get_generic_metadata_stub_def named_metadata_def create_swiftui_compatible_metadata_def
  create_swiftui_metadata_internal_def swift_alloc_object_def extends_def calloc_def put_words_def Let_def
  shim_unresolved_soft_metadata_def get_stub_witness_table_def split: option.split)

lemma step_keeps:
  assumes inv: "stub_inv fresh fn st" and hp: "heap_ok fresh (snd (stub_step fresh fn op st))"
    and fits: "layouts_fit fresh fn (op # ops) st"
  shows "grows fresh st (snd (stub_step fresh fn op st))" and "stub_inv fresh fn (snd (stub_step fresh fn op st))"
    and "gives_metadata op \<Longrightarrow> valid_metadata fresh fn (snd (stub_step fresh fn op st)) (fst (stub_step fresh fn op st))"
    and "op = AllocObject d n \<Longrightarrow> immortal fresh (snd (stub_step fresh fn op st)) (fst (stub_step fresh fn op st))"
proof -
  have meta: "step_ok fresh fn st (stub_step fresh fn op st)" if "gives_metadata op"
    using that hp fits unresolved_ok [OF inv] singleton_ok [OF inv refl] generic_ok [OF inv refl] named_ok [OF inv refl]
      swiftui_ok [OF inv refl] stub_object_ok [OF inv refl]
    by (cases op) simp_all
  have "grows fresh st (snd (stub_step fresh fn op st)) \<and> stub_inv fresh fn (snd (stub_step fresh fn op st))"
  proof (cases "gives_metadata op")
    case True
    then show ?thesis using meta by (simp add: step_ok_def)
  next
    case False
    then show ?thesis
      using hp witness_table_grows [OF refl] inv_grows [OF inv] alloc_object_ok(1,2) [OF inv refl] by (cases op) simp_all
  qed
  then show "grows fresh st (snd (stub_step fresh fn op st))" "stub_inv fresh fn (snd (stub_step fresh fn op st))" by simp_all
  show "valid_metadata fresh fn (snd (stub_step fresh fn op st)) (fst (stub_step fresh fn op st))" if "gives_metadata op"
    using meta [OF that] by (simp add: step_ok_def)
  show "immortal fresh (snd (stub_step fresh fn op st)) (fst (stub_step fresh fn op st))" if "op = AllocObject d n"
    using hp alloc_object_ok(3) [OF inv refl] by (simp add: that)
qed

lemma run_extends: "extends st (snd (stub_run fresh fn ops st))"
proof (induction ops arbitrary: st)
  case (Cons op ops)
  then show ?case using step_extends [of st fresh fn op] extends_trans by (fastforce split: prod.splits)
qed (simp add: extends_def)

lemma run_keeps:
  "stub_inv fresh fn st \<Longrightarrow> heap_ok fresh (snd (stub_run fresh fn ops st)) \<Longrightarrow> layouts_fit fresh fn ops st \<Longrightarrow>
    grows fresh st (snd (stub_run fresh fn ops st))
    \<and> (\<forall>(op, p) \<in> set (fst (stub_run fresh fn ops st)).
        (gives_metadata op \<longrightarrow> valid_metadata fresh fn (snd (stub_run fresh fn ops st)) p)
        \<and> (\<forall>d n. op = AllocObject d n \<longrightarrow> immortal fresh (snd (stub_run fresh fn ops st)) p))"
proof (induction ops arbitrary: st)
  case (Cons op ops)
  obtain p st1 where s: "stub_step fresh fn op st = (p, st1)" by (cases "stub_step fresh fn op st")
  obtain rs st2 where r: "stub_run fresh fn ops st1 = (rs, st2)" by (cases "stub_run fresh fn ops st1")
  have hp2: "heap_ok fresh st2" using Cons.prems(2) by (simp add: s r)
  then have hp1: "heap_ok fresh st1" using heap_extends run_extends [of st1 fresh fn ops] r by (metis snd_conv)
  note step = step_keeps [OF Cons.prems(1) _ Cons.prems(3), unfolded s fst_conv snd_conv, OF hp1]
  have fit: "layouts_fit fresh fn ops st1" using Cons.prems(3) s by simp
  have rest: "grows fresh st1 st2" "\<forall>(op, p) \<in> set rs. (gives_metadata op \<longrightarrow> valid_metadata fresh fn st2 p)
      \<and> (\<forall>d n. op = AllocObject d n \<longrightarrow> immortal fresh st2 p)"
    using Cons.IH [OF step(2) _ fit] hp2 r by simp_all
  show ?case
    using step(1,3,4) rest grows_trans valid_grows [OF rest(1)] immortal_grows [OF rest(1)]
    by (simp add: s r) blast
qed simp


definition demo_blocks :: "nat \<Rightarrow> ptr" where
  "demo_blocks k = 0x10000 + of_nat (4096 * k)"

lemma demo_heap: "n_blocks st \<le> 3 \<Longrightarrow> \<forall>k < n_blocks st. block_size st k \<le> 1024 \<Longrightarrow> heap_ok demo_blocks st"
  unfolding heap_ok_def blocks_def
proof (intro conjI allI impI)
  fix i j assume n: "n_blocks st \<le> 3" "\<forall>k < n_blocks st. block_size st k \<le> 1024" and i: "i < n_blocks st"
  have at: "unat (demo_blocks k) = 0x10000 + 4096 * k" if "k < 3" for k
    using that by (simp add: demo_blocks_def unat_word_ariths unat_of_nat_u64)
  show "0 < unat (demo_blocks i)" "unat (demo_blocks i) + block_size st i < 2 ^ 64"
    using n(2) [rule_format, OF i] n(1) i at [of i] by simp_all
  assume j: "j < n_blocks st" "i \<noteq> j"
  have sz: "block_size st i \<le> 1024" "block_size st j \<le> 1024" and small: "i < 3" "j < 3" using n i j by auto
  show "apart (demo_blocks i) (block_size st i) (demo_blocks j) (block_size st j)"
  proof (cases "i < j")
    case True
    then show ?thesis using sz small by (intro apartI_below(1)) (simp_all add: at)
  next
    case False
    then show ?thesis using sz small j by (intro apartI_below(2)) (simp_all add: at)
  qed
qed


end
