(* ===== verification/SwiftPatches.thy ===== *)
theory SwiftPatches
  imports ShimCalls
begin

text \<open>
  \<open>crates/grafted-frameworks/src/registry.rs\<close>: the entry points of the host's Swift runtime
  that are overwritten with a jump to a stub while the program's start-up code runs
  (\<open>install_swift_retain_hooks\<close>, \<open>save_original_bytes\<close>, \<open>apply_lifecycle_patches\<close>, \<open>restore_lifecycle_patches\<close>).
  Parameters: \<open>dlsym\<close>, the addresses of the stubs (\<open>fn\<close>), the text mappings of
  \<open>libswiftCore.so\<close> (\<open>bases\<close>, read from \<open>/proc/self/maps\<close>) and whether \<open>mprotect\<close> of a
  page succeeds (\<open>writable\<close>).
\<close>

record patch_site =
  site_addr :: ptr
  original :: "u8 list"
  site_size :: nat
  replacement :: ptr

section \<open>Patching\<close>

text \<open>\<open>mov rax, replacement; jmp rax\<close>.\<close>

definition patch_code :: "ptr \<Rightarrow> u8 list" where
  "patch_code r = [0x48, 0xB8] @ le_bytes64 r @ [0xFF, 0xE0]"

definition patch_function_at :: "(ptr \<Rightarrow> bool) \<Rightarrow> ptr \<Rightarrow> ptr \<Rightarrow> mem \<Rightarrow> mem" where
  "patch_function_at writable target r m =
     (if target \<noteq> 0 \<and> writable (page_of target) then store_bytes m target (patch_code r) else m)"

definition patch_function :: "(string \<Rightarrow> ptr) \<Rightarrow> (ptr \<Rightarrow> bool) \<Rightarrow> string \<Rightarrow> ptr \<Rightarrow> mem \<Rightarrow> mem" where
  "patch_function dlsym writable name r m = patch_function_at writable (dlsym name) r m"

text \<open>The other copies of a function: the same offset in every mapping, if code is there.\<close>

definition symbol_offset :: "u64 list \<Rightarrow> u64 \<Rightarrow> u64" where
  "symbol_offset bases sym_addr =
     (case find (\<lambda>base. sym_addr \<ge> base \<and> sym_addr < base + 0x1000000) bases of
        Some base \<Rightarrow> sym_addr - base
      | None \<Rightarrow> 0)"

definition patch_all_instances ::
    "(string \<Rightarrow> ptr) \<Rightarrow> (ptr \<Rightarrow> bool) \<Rightarrow> u64 list \<Rightarrow> string \<Rightarrow> u64 \<Rightarrow> ptr \<Rightarrow> mem \<Rightarrow> mem" where
  "patch_all_instances dlsym writable bases name slow_offset r m =
     (let off = symbol_offset bases (dlsym name)
      in if bases = [] \<or> dlsym name = 0 \<or> off = 0 then m
         else foldl (\<lambda>m base.
             let slow_addr = base + off + slow_offset
             in if m slow_addr \<in> {0x55, 0x48, 0x41} then patch_function_at writable slow_addr r m else m) m bases)"

section \<open>The sites\<close>

type_synonym patch_table = "(string \<times> nat \<times> string) list"

definition permanent_funcs :: patch_table where
  "permanent_funcs =
     [(''swift_conformsToProtocol'', 12, ''safe_conformsToProtocol''),
      (''swift_conformsToProtocol2'', 12, ''safe_conformsToProtocol''),
      (''swift_conformsToProtocolCommon'', 12, ''safe_conformsToProtocol''),
      (''swift_getWitnessTable'', 12, ''swift_get_witness_table_stub''),
      (''swift_initStructMetadata'', 12, ''safe_noop_return''),
      (''swift_initStructMetadataWithLayoutString'', 12, ''safe_noop_return'')]"

definition legacy_funcs :: patch_table where
  "legacy_funcs =
     [(''swift_checkMetadataState'', 12, ''smart_checkMetadataState''),
      (''swift_getAssociatedTypeWitness'', 12, ''safe_getAssociatedTypeWitness''),
      (''swift_getAssociatedConformanceWitness'', 12, ''safe_getAssociatedConformanceWitness''),
      (''swift_getAssociatedTypeWitnessRelative'', 12, ''safe_getAssociatedTypeWitness''),
      (''swift_getAssociatedConformanceWitnessRelative'', 12, ''safe_getAssociatedConformanceWitness''),
      (''swift_getGenericMetadata'', 12, ''swift_get_generic_metadata_stub''),
      (''swift_getSingletonMetadata'', 12, ''swift_get_generic_metadata_stub''),
      (''swift_allocateGenericValueMetadata'', 12, ''swift_get_generic_metadata_stub''),
      (''swift_allocateGenericClassMetadata'', 12, ''swift_get_generic_metadata_stub''),
      (''swift_getKeyPath'', 12, ''safe_return_stub_object''),
      (''swift_getOpaqueTypeMetadata'', 12, ''swift_get_generic_metadata_stub''),
      (''swift_getOpaqueTypeMetadata2'', 12, ''swift_get_generic_metadata_stub''),
      (''swift_getFunctionTypeMetadata'', 12, ''swift_get_generic_metadata_stub''),
      (''swift_getTupleTypeMetadata'', 12, ''swift_get_generic_metadata_stub''),
      (''swift_getTupleTypeMetadata2'', 12, ''swift_get_generic_metadata_stub''),
      (''swift_getTupleTypeMetadata3'', 12, ''swift_get_generic_metadata_stub''),
      (''swift_getExistentialTypeMetadata'', 12, ''swift_get_generic_metadata_stub''),
      (''swift_getObjCClassMetadata'', 12, ''swift_get_generic_metadata_stub''),
      (''swift_dynamicCast'', 12, ''safe_return_false''),
      (''swift_dynamicCastClass'', 12, ''safe_return_null''),
      (''swift_dynamicCastMetatype'', 12, ''safe_return_null''),
      (''swift_dynamicCastObjCClass'', 12, ''safe_return_null''),
      (''swift_dynamicCastUnknownClass'', 12, ''safe_return_null''),
      (''swift_getTypeByMangledNameInContext'', 12, ''safe_return_stub_metadata''),
      (''swift_getTypeByMangledNameInContext2'', 12, ''safe_return_stub_metadata''),
      (''swift_getTypeByMangledNameInContextInMetadataState'', 12, ''safe_return_stub_metadata''),
      (''swift_reportError'', 12, ''safe_noop_return''),
      (''_swift_runtime_on_report'', 12, ''safe_noop_return''),
      (''_swift_stdlib_reportFatalError'', 12, ''safe_noop_return''),
      (''_swift_stdlib_reportFatalErrorInFile'', 12, ''safe_noop_return''),
      (''swift_unexpectedError'', 12, ''safe_noop_return''), (''swift_once'', 12, ''swift_once'')]"

definition save_site :: "mem \<Rightarrow> ptr \<Rightarrow> nat \<Rightarrow> ptr \<Rightarrow> patch_site" where
  "save_site m addr n r =
     \<lparr>site_addr = addr, original = load_bytes m addr n @ replicate (32 - n) 0, site_size = n, replacement = r\<rparr>"

definition named_sites :: "(string \<Rightarrow> ptr) \<Rightarrow> (string \<Rightarrow> ptr) \<Rightarrow> patch_table \<Rightarrow> mem \<Rightarrow> patch_site list" where
  "named_sites dlsym fn funcs m =
     map (\<lambda>(name, n, r). save_site m (dlsym name) n (fn r)) (filter (\<lambda>(name, _, _). dlsym name \<noteq> 0) funcs)"

text \<open>The functions without a name, at their offsets from one that has one.\<close>

definition local_sites :: "(string \<Rightarrow> ptr) \<Rightarrow> (string \<Rightarrow> ptr) \<Rightarrow> mem \<Rightarrow> patch_site list" where
  "local_sites dlsym fn m =
     (let base = dlsym ''swift_getGenericMetadata'';
          copy = dlsym ''$sSS19_copyUTF16CodeUnits4into5rangeySrys6UInt16VG_SnySiGtF''
      in (if base \<noteq> 0
          then [save_site m (base + 0xEE10) 12 (fn ''safe_return_stub_object''),
                save_site m (base + 0x3DD40) 12 (fn ''safe_noop_return''),
                save_site m (base + 0xE9B0) 12 (fn ''safe_return_stub_object'')]
          else [])
         @ (if copy \<noteq> 0 then [save_site m (copy + 0x50) 12 (fn ''safe_noop_return'')] else []))"

definition patch_bases :: "(string \<Rightarrow> ptr) \<Rightarrow> (ptr \<Rightarrow> bool) \<Rightarrow> u64 list \<Rightarrow> mem \<Rightarrow> mem" where
  "patch_bases fn writable bases m =
     foldl (\<lambda>m base. patch_function_at writable (base + 0x29e8d0) (fn ''safe_noop_return'') m) m bases"

definition slow_sites :: "(string \<Rightarrow> ptr) \<Rightarrow> (string \<Rightarrow> ptr) \<Rightarrow> patch_table \<Rightarrow> mem \<Rightarrow> patch_site list" where
  "slow_sites dlsym fn funcs m =
     map (\<lambda>(name, _, r). save_site m (dlsym name + 0x30) 12 (fn r))
       (filter (\<lambda>(name, _, _). dlsym name \<noteq> 0) (take 2 (drop 7 funcs)))"

text \<open>A way into the original \<open>swift_checkMetadataState\<close>: its first 22 bytes and a jump past them.\<close>

definition check_trampoline :: "(string \<Rightarrow> ptr) \<Rightarrow> ptr \<Rightarrow> mem \<Rightarrow> mem \<times> u64" where
  "check_trampoline dlsym t m =
     (let orig = dlsym ''swift_checkMetadataState''
      in if orig \<noteq> 0 \<and> t \<noteq> 0
         then (store_bytes m t (load_bytes m orig 22 @ patch_code (orig + 22)), t)
         else (m, 0))"

text \<open>The sites, the memory, and the way into the original function (0: none).\<close>

definition save_original_bytes ::
    "(string \<Rightarrow> ptr) \<Rightarrow> (string \<Rightarrow> ptr) \<Rightarrow> (ptr \<Rightarrow> bool) \<Rightarrow> u64 list \<Rightarrow> ptr \<Rightarrow> bool \<Rightarrow> mem
      \<Rightarrow> patch_site list \<times> mem \<times> u64" where
  "save_original_bytes dlsym fn writable bases t legacy m =
     (let funcs = permanent_funcs @ (if legacy then legacy_funcs else []);
          sites = named_sites dlsym fn funcs m
      in if \<not> legacy then (sites, m, 0)
         else (let sites = sites @ local_sites dlsym fn m;
                   m = patch_bases fn writable bases m;
                   sites = sites @ slow_sites dlsym fn funcs m;
                   (m, t) = check_trampoline dlsym t m
               in (sites, m, t)))"

text \<open>The hooks of the host's runtime: its function pointers for counting references.\<close>

definition retain_hooks :: "(string \<times> string) list" where
  "retain_hooks =
     [(''_swift_retain'', ''safe_swift_retain''), (''_swift_retain_n'', ''safe_swift_retain_n''),
      (''_swift_release'', ''safe_swift_release''), (''_swift_release_n'', ''safe_swift_release_n'')]"

definition set_hook :: "(string \<Rightarrow> ptr) \<Rightarrow> (string \<Rightarrow> ptr) \<Rightarrow> mem \<Rightarrow> string \<times> string \<Rightarrow> mem" where
  "set_hook dlsym fn m h =
     (case h of (var, hook_fn) \<Rightarrow> if dlsym var \<noteq> 0 then store64 m (dlsym var) (fn hook_fn) else m)"

definition install_swift_retain_hooks ::
    "(string \<Rightarrow> ptr) \<Rightarrow> (string \<Rightarrow> ptr) \<Rightarrow> (ptr \<Rightarrow> bool) \<Rightarrow> u64 list \<Rightarrow> ptr \<Rightarrow> bool \<Rightarrow> mem
      \<Rightarrow> patch_site list \<times> mem \<times> u64" where
  "install_swift_retain_hooks dlsym fn writable bases t legacy m =
     save_original_bytes dlsym fn writable bases t legacy (foldl (set_hook dlsym fn) m retain_hooks)"

definition apply_lifecycle_patches :: "(ptr \<Rightarrow> bool) \<Rightarrow> patch_site list \<Rightarrow> mem \<Rightarrow> mem" where
  "apply_lifecycle_patches writable sites m =
     foldl (\<lambda>m site. patch_function_at writable (site_addr site) (replacement site) m) m sites"

definition restore_lifecycle_patches :: "patch_site list \<Rightarrow> mem \<Rightarrow> mem" where
  "restore_lifecycle_patches sites m =
     foldl (\<lambda>m site. store_bytes m (site_addr site) (take (site_size site) (original site))) m sites"

section \<open>What a lifecycle leaves behind\<close>

lemma length_patch_code [simp]: "length (patch_code r) = 12"
  by (simp add: patch_code_def)

definition saved :: "mem \<Rightarrow> patch_site \<Rightarrow> bool" where
  "saved m site \<longleftrightarrow> site_size site = 12 \<and> take 12 (original site) = load_bytes m (site_addr site) 12"

definition covered :: "patch_site list \<Rightarrow> ptr \<Rightarrow> bool" where
  "covered sites x \<longleftrightarrow> (\<exists>site \<in> set sites. unat (x - site_addr site) < 12)"

lemma saved_site: "saved m (save_site m addr 12 r)"
  by (simp add: saved_def save_site_def)

lemma saved_kept:
  "saved m site \<Longrightarrow> load_bytes m' (site_addr site) 12 = load_bytes m (site_addr site) 12 \<Longrightarrow> saved m' site"
  by (simp add: saved_def)

lemma named_saved: "\<forall>(name, n, r) \<in> set funcs. n = 12 \<Longrightarrow> site \<in> set (named_sites dlsym fn funcs m) \<Longrightarrow> saved m site"
  by (auto simp: named_sites_def saved_site)

lemma table_sizes: "\<forall>(name, n, r) \<in> set permanent_funcs. n = 12" "\<forall>(name, n, r) \<in> set (permanent_funcs @ legacy_funcs). n = 12"
  by (simp_all add: permanent_funcs_def legacy_funcs_def)

lemma local_saved: "site \<in> set (local_sites dlsym fn m) \<Longrightarrow> saved m site"
  by (auto simp: local_sites_def saved_site Let_def split: if_splits)

lemma slow_saved: "site \<in> set (slow_sites dlsym fn funcs m) \<Longrightarrow> saved m site"
  by (auto simp: slow_sites_def saved_site)

lemma patch_keeps:
  "apart a n b 12 \<Longrightarrow> load_bytes (patch_function_at writable b r m) a n = load_bytes m a n"
  by (simp add: patch_function_at_def load_store_apart)

lemma patch_bases_keep:
  "\<forall>base \<in> set bases. apart a n (base + 0x29e8d0) 12 \<Longrightarrow>
    load_bytes (patch_bases fn writable bases m) a n = load_bytes m a n"
  by (induction bases arbitrary: m) (simp_all add: patch_bases_def patch_keeps)

lemma trampoline_keeps:
  "apart a n t 34 \<Longrightarrow> load_bytes (fst (check_trampoline dlsym t m)) a n = load_bytes m a n"
  by (simp add: check_trampoline_def load_store_apart Let_def)

lemma sites_saved:
  assumes "save_original_bytes dlsym fn writable bases t legacy m = (sites, m1, tr)"
    and "legacy \<Longrightarrow> \<forall>site \<in> set sites. apart (site_addr site) 12 t 34
      \<and> (\<forall>base \<in> set bases. apart (site_addr site) 12 (base + 0x29e8d0) 12)"
    and "site \<in> set sites"
  shows "saved m1 site"
proof (cases legacy)
  case False
  then show ?thesis
    using assms(1,3) named_saved [OF table_sizes(1)] by (auto simp: save_original_bytes_def)
next
  case True
  let ?m = "patch_bases fn writable bases m"
  let ?funcs = "permanent_funcs @ legacy_funcs"
  have m1: "m1 = fst (check_trampoline dlsym t ?m)"
    and sites: "sites = named_sites dlsym fn ?funcs m @ local_sites dlsym fn m @ slow_sites dlsym fn ?funcs ?m"
    using assms(1) True by (auto simp: save_original_bytes_def Let_def split: prod.splits)
  note ap = assms(2) [OF True, rule_format, OF assms(3)]
  have "saved ?m site"
  proof (cases "site \<in> set (slow_sites dlsym fn ?funcs ?m)")
    case False
    then have "saved m site"
      using assms(3) local_saved named_saved [OF table_sizes(2)] by (auto simp: sites)
    then show ?thesis by (rule saved_kept) (use ap in \<open>simp add: patch_bases_keep\<close>)
  qed (rule slow_saved)
  then show ?thesis unfolding m1 by (rule saved_kept) (use ap in \<open>simp add: trampoline_keeps\<close>)
qed

lemma store_saved:
  assumes "saved m site"
  shows "store_bytes m' (site_addr site) (take (site_size site) (original site)) x
    = (if unat (x - site_addr site) < 12 then m x else m' x)"
proof -
  have "(load_bytes m a 12) ! unat (x - a) = m x" if "unat (x - a) < 12" for a
    using that by (simp add: load_bytes_def)
  with assms show ?thesis by (simp add: saved_def store_bytes_def)
qed

lemma restore_exact:
  "\<forall>site \<in> set sites. saved m site \<Longrightarrow>
    restore_lifecycle_patches sites m' x = (if covered sites x then m x else m' x)"
proof (induction sites arbitrary: m')
  case Nil
  then show ?case by (simp add: restore_lifecycle_patches_def covered_def)
next
  case (Cons site sites)
  then have "restore_lifecycle_patches (site # sites) m' x
      = (if covered sites x then m x
         else store_bytes m' (site_addr site) (take (site_size site) (original site)) x)"
    by (simp add: restore_lifecycle_patches_def)
  then show ?case using Cons.prems by (simp add: store_saved [of m] covered_def)
qed

lemma apply_outside: "\<not> covered sites x \<Longrightarrow> apply_lifecycle_patches writable sites m x = m x"
proof (induction sites arbitrary: m)
  case Nil
  then show ?case by (simp add: apply_lifecycle_patches_def)
next
  case (Cons site sites)
  then show ?case
    by (auto simp: apply_lifecycle_patches_def covered_def patch_function_at_def store_bytes_def)
qed

lemma apply_keeps:
  "\<forall>site \<in> set sites. apart a n (site_addr site) 12 \<Longrightarrow>
    load_bytes (apply_lifecycle_patches writable sites m) a n = load_bytes m a n"
  by (induction sites arbitrary: m) (simp_all add: apply_lifecycle_patches_def patch_keeps)

lemma apply_jumps:
  "sorted_wrt (\<lambda>s s'. apart (site_addr s) 12 (site_addr s') 12) sites \<Longrightarrow> site \<in> set sites
    \<Longrightarrow> site_addr site \<noteq> 0 \<Longrightarrow> writable (page_of (site_addr site))
    \<Longrightarrow> load_bytes (apply_lifecycle_patches writable sites m) (site_addr site) 12 = patch_code (replacement site)"
proof (induction sites arbitrary: m)
  case (Cons s sites)
  then show ?case
    using apply_keeps [of sites "site_addr site" 12 writable]
    by (auto simp: apply_lifecycle_patches_def patch_function_at_def load_store_same)
qed simp

text \<open>
  C13. Patching the host's Swift runtime for the start-up code leaves no trace: whatever that
  code does to memory, restoring puts back, at every address of a patched entry point, the byte
  that was there when the originals were saved (which is when the hooks are installed), and touches nothing else; with no start-up code
  the memory is exactly the saved one. While it runs, each writable entry point that no other
  site overlaps holds the jump to its stub. (In legacy mode the entry points must not overlap
  the permanently patched function or the page of the new trampoline.)
\<close>

theorem patches_restored:
  assumes "install_swift_retain_hooks dlsym fn writable bases t legacy m = (sites, m1, tr)"
    and "legacy \<Longrightarrow> \<forall>site \<in> set sites. apart (site_addr site) 12 t 34
      \<and> (\<forall>base \<in> set bases. apart (site_addr site) 12 (base + 0x29e8d0) 12)"
  shows "restore_lifecycle_patches sites m' x = (if covered sites x then m1 x else m' x)
    \<and> restore_lifecycle_patches sites (apply_lifecycle_patches writable sites m1) = m1
    \<and> (sorted_wrt (\<lambda>s s'. apart (site_addr s) 12 (site_addr s') 12) sites \<longrightarrow>
        (\<forall>site \<in> set sites. site_addr site \<noteq> 0 \<and> writable (page_of (site_addr site)) \<longrightarrow>
          load_bytes (apply_lifecycle_patches writable sites m1) (site_addr site) 12 = patch_code (replacement site)))"
proof (intro conjI)
  have ok: "\<forall>site \<in> set sites. saved m1 site"
    using sites_saved [OF assms(1) [unfolded install_swift_retain_hooks_def] assms(2)] by blast
  then show "restore_lifecycle_patches sites m' x = (if covered sites x then m1 x else m' x)" by (rule restore_exact)
  show "restore_lifecycle_patches sites (apply_lifecycle_patches writable sites m1) = m1"
    by (rule ext) (simp add: restore_exact [OF ok] apply_outside)
qed (simp add: apply_jumps)

text \<open>A host that has two of the functions.\<close>

definition demo_dlsym :: "string \<Rightarrow> ptr" where
  "demo_dlsym name = (if name = ''swift_getWitnessTable'' then 0x5000 else if name = ''swift_initStructMetadata'' then 0x6000 else 0)"

definition demo_installed :: "patch_site list \<times> mem \<times> u64" where
  "demo_installed = install_swift_retain_hooks demo_dlsym (\<lambda>_. 0x9000) (\<lambda>_. True) [] 0 False (\<lambda>_. 0x55)"

lemma demo_installed_eq:
  "demo_installed = ([save_site (\<lambda>_. 0x55) 0x5000 12 0x9000, save_site (\<lambda>_. 0x55) 0x6000 12 0x9000], \<lambda>_. 0x55, 0)"
  "install_swift_retain_hooks demo_dlsym (\<lambda>_. 0x9000) (\<lambda>_. True) [] 0 False (\<lambda>_. 0x55) = demo_installed"
  by (simp_all add: demo_installed_def install_swift_retain_hooks_def retain_hooks_def set_hook_def save_original_bytes_def
      named_sites_def permanent_funcs_def demo_dlsym_def)

theorem patches_restored_witness:
  "\<exists>sites. install_swift_retain_hooks demo_dlsym (\<lambda>_. 0x9000) (\<lambda>_. True) [] 0 False (\<lambda>_. 0x55) = (sites, \<lambda>_. 0x55, 0)
    \<and> load_bytes (apply_lifecycle_patches (\<lambda>_. True) sites (\<lambda>_. 0x55)) 0x5000 12 = patch_code 0x9000
    \<and> restore_lifecycle_patches sites (apply_lifecycle_patches (\<lambda>_. True) sites (\<lambda>_. 0x55)) = (\<lambda>_. 0x55)"
proof -
  let ?m = "(\<lambda>_. 0x55) :: mem"
  let ?sites = "[save_site ?m 0x5000 12 0x9000, save_site ?m 0x6000 12 0x9000]"
  have run: "install_swift_retain_hooks demo_dlsym (\<lambda>_. 0x9000) (\<lambda>_. True) [] 0 False ?m = (?sites, ?m, 0)"
    by (simp only: demo_installed_eq)
  have "apart 0x5000 12 0x6000 12" by (rule apartI_below) simp_all
  then have "sorted_wrt (\<lambda>s s'. apart (site_addr s) 12 (site_addr s') 12) ?sites" by (simp add: save_site_def)
  then show ?thesis
    using patches_restored [OF run, of ?m 0] by (intro exI [of _ ?sites]) (simp add: run save_site_def)
qed

end
