(* ===== verification/Views.thy ===== *)
theory Views
  imports ShimCalls Geometry
begin

text \<open>
  \<open>crates/grafted-frameworks/src/appkit/view.rs\<close> and \<open>menu.rs\<close>: views and menus as the bytes
  behind an Objective-C object, read and written at the offsets of the \<open>repr(C)\<close> structures
  (\<open>NSViewData\<close>, \<open>NSMenuData\<close>, \<open>NSMenuItemData\<close>), sixteen bytes after the object's start. The
  abstraction \<open>view_of\<close> reads a view off memory, and the methods are shown to do on memory what
  operations on a tree of views do. The strings methods are given are the bytes of the
  \<open>CFString\<close> behind the pointer (\<open>None\<close>: a null pointer).
\<close>

section \<open>Fields of an object\<close>

definition VIEW_DATA_OFFSET :: nat where
  "VIEW_DATA_OFFSET = 16"

definition fld :: "ptr \<Rightarrow> nat \<Rightarrow> ptr" where
  "fld obj k = obj + of_nat (VIEW_DATA_OFFSET + k)"

definition put :: "ptr \<Rightarrow> nat \<Rightarrow> u8 list \<Rightarrow> mem \<Rightarrow> mem" where
  "put obj k bs m = store_bytes m (fld obj k) bs"

definition get :: "ptr \<Rightarrow> nat \<Rightarrow> nat \<Rightarrow> mem \<Rightarrow> u8 list" where
  "get obj k n m = load_bytes m (fld obj k) n"

definition get_u64 :: "ptr \<Rightarrow> nat \<Rightarrow> mem \<Rightarrow> u64" where
  "get_u64 obj k m = u64_from_le (get obj k 8 m)"

definition get_u32 :: "ptr \<Rightarrow> nat \<Rightarrow> mem \<Rightarrow> u32" where
  "get_u32 obj k m = u32_from_le (get obj k 4 m)"

definition get_flag :: "ptr \<Rightarrow> nat \<Rightarrow> mem \<Rightarrow> bool" where
  "get_flag obj k m \<longleftrightarrow> get obj k 1 m \<noteq> [0]"

definition flag_bytes :: "bool \<Rightarrow> u8 list" where
  "flag_bytes b = [if b then 1 else 0]"

definition pair_bytes :: "f64 \<Rightarrow> f64 \<Rightarrow> u8 list" where
  "pair_bytes a b = le_bytes64 a @ le_bytes64 b"

definition put_size :: "ptr \<Rightarrow> nat \<Rightarrow> CGSize \<Rightarrow> mem \<Rightarrow> mem" where
  "put_size obj k s m = put obj k (pair_bytes (width s) (height s)) m"

definition put_rect :: "ptr \<Rightarrow> nat \<Rightarrow> CGRect \<Rightarrow> mem \<Rightarrow> mem" where
  "put_rect obj k r m =
     put_size obj (k + 16) (rsize r) (put obj k (pair_bytes (px (origin r)) (py (origin r))) m)"

definition get_rect :: "ptr \<Rightarrow> nat \<Rightarrow> mem \<Rightarrow> CGRect" where
  "get_rect obj k m =
     (let org = get obj k 16 m; s = get obj (k + 16) 16 m
      in \<lparr>origin = \<lparr>px = u64_from_le (take 8 org), py = u64_from_le (drop 8 org)\<rparr>,
          rsize = \<lparr>width = u64_from_le (take 8 s), height = u64_from_le (drop 8 s)\<rparr>\<rparr>)"

section \<open>Views\<close>

text \<open>
  \<open>NSViewData\<close>: frame at 0, bounds at 32, superview at 64, 64 subviews from 72, their number at
  584, two flags at 588 and 589, alpha at 592, four colour components from 600 to 632.
\<close>

definition ns_view_init_with_frame :: "ptr \<Rightarrow> CGRect \<Rightarrow> mem \<Rightarrow> ptr \<times> mem" where
  "ns_view_init_with_frame self frame m =
     (let m = put_rect self 0 frame m;
          m = put_rect self 32 \<lparr>origin = \<lparr>px = 0, py = 0\<rparr>, rsize = rsize frame\<rparr> m;
          m = put self 64 (le_bytes64 0) m;
          m = put self 72 (replicate 512 0) m;
          m = put self 584 (le_bytes32 0) m;
          m = put self 588 (flag_bytes True) m;
          m = put self 589 (flag_bytes False) m;
          m = put self 592 (le_bytes64 f64_one) m;
          m = put self 600 (concat (replicate 4 (le_bytes64 f64_one))) m
      in (self, m))"

definition ns_view_frame :: "ptr \<Rightarrow> mem \<Rightarrow> CGRect" where
  "ns_view_frame self m = get_rect self 0 m"

definition ns_view_set_frame :: "ptr \<Rightarrow> CGRect \<Rightarrow> mem \<Rightarrow> mem" where
  "ns_view_set_frame self frame m =
     (let m = put_rect self 0 frame m;
          m = put_size self 48 (rsize frame) m
      in put self 588 (flag_bytes True) m)"

definition ns_view_bounds :: "ptr \<Rightarrow> mem \<Rightarrow> CGRect" where
  "ns_view_bounds self m = get_rect self 32 m"

definition ns_view_add_subview :: "ptr \<Rightarrow> ptr \<Rightarrow> mem \<Rightarrow> mem" where
  "ns_view_add_subview self subview m =
     (if subview = 0 then m
      else let idx = unat (get_u32 self 584 m)
           in if idx < 64
              then let m = put self (72 + 8 * idx) (le_bytes64 subview) m;
                       m = put self 584 (le_bytes32 (get_u32 self 584 m + 1)) m
                   in put subview 64 (le_bytes64 self) m
              else m)"

definition ns_view_superview :: "ptr \<Rightarrow> mem \<Rightarrow> ptr" where
  "ns_view_superview self m = get_u64 self 64 m"

definition ns_view_set_needs_display :: "ptr \<Rightarrow> bool \<Rightarrow> mem \<Rightarrow> mem" where
  "ns_view_set_needs_display self flag m = put self 588 (flag_bytes flag) m"

definition ns_view_is_hidden :: "ptr \<Rightarrow> mem \<Rightarrow> bool" where
  "ns_view_is_hidden self m = get_flag self 589 m"

definition ns_view_set_hidden :: "ptr \<Rightarrow> bool \<Rightarrow> mem \<Rightarrow> mem" where
  "ns_view_set_hidden self flag m = put self 589 (flag_bytes flag) m"

definition ns_view_draw_rect :: "ptr \<Rightarrow> CGRect \<Rightarrow> mem \<Rightarrow> mem" where
  "ns_view_draw_rect self rect m = m"

section \<open>Menus\<close>

text \<open>\<open>NSMenuData\<close>: title at 0, its length at 256, 64 items from 264, their number at 776.\<close>

definition put_title :: "ptr \<Rightarrow> nat \<Rightarrow> nat \<Rightarrow> nat \<Rightarrow> u8 list option \<Rightarrow> mem \<Rightarrow> mem" where
  "put_title self k len_at limit title m =
     (case title of
        None \<Rightarrow> m
      | Some bytes \<Rightarrow>
          (let len = min (length bytes) limit
           in put self len_at (le_bytes64 (of_nat len)) (put self k (take len bytes) m)))"

definition ns_menu_init_with_title :: "ptr \<Rightarrow> u8 list option \<Rightarrow> mem \<Rightarrow> ptr \<times> mem" where
  "ns_menu_init_with_title self title m =
     (self, put_title self 0 256 255 title (put self 776 (le_bytes32 0) m))"

definition ns_menu_add_item :: "ptr \<Rightarrow> ptr \<Rightarrow> mem \<Rightarrow> mem" where
  "ns_menu_add_item self item m =
     (if self = 0 \<or> item = 0 then m
      else let idx = unat (get_u32 self 776 m)
           in if idx < 64
              then put self 776 (le_bytes32 (get_u32 self 776 m + 1)) (put self (264 + 8 * idx) (le_bytes64 item) m)
              else m)"

definition ns_menu_item_count :: "ptr \<Rightarrow> mem \<Rightarrow> i64" where
  "ns_menu_item_count self m = (if self = 0 then 0 else ucast (get_u32 self 776 m))"

text \<open>
  \<open>NSMenuItemData\<close>: title at 0, its length at 256, key equivalent at 264, its length at 280,
  action at 288, target at 296, tag at 304, enabled at 312, submenu at 320, separator at 328.
\<close>

definition ns_menu_item_set_submenu :: "ptr \<Rightarrow> ptr \<Rightarrow> mem \<Rightarrow> mem" where
  "ns_menu_item_set_submenu self submenu m = (if self \<noteq> 0 then put self 320 (le_bytes64 submenu) m else m)"

definition ns_menu_set_submenu :: "ptr \<Rightarrow> ptr \<Rightarrow> mem \<Rightarrow> mem" where
  "ns_menu_set_submenu submenu item m = (if item \<noteq> 0 then put item 320 (le_bytes64 submenu) m else m)"

definition ns_menu_item_init :: "ptr \<Rightarrow> u8 list option \<Rightarrow> ptr \<Rightarrow> u8 list option \<Rightarrow> mem \<Rightarrow> ptr \<times> mem" where
  "ns_menu_item_init self title action key_equiv m =
     (let m = put self 288 (le_bytes64 action) m;
          m = put self 312 (flag_bytes True) m;
          m = put self 328 (flag_bytes False) m;
          m = put_title self 0 256 255 title m
      in (self, put_title self 264 280 15 key_equiv m))"

text \<open>The block of 512 zero bytes is \<open>calloc\<close>'s.\<close>

definition ns_menu_item_separator :: "ptr \<Rightarrow> mem \<Rightarrow> ptr \<times> mem" where
  "ns_menu_item_separator obj m = (obj, put obj 328 (flag_bytes True) (store_bytes m obj (replicate 512 0)))"

definition ns_menu_item_set_target :: "ptr \<Rightarrow> ptr \<Rightarrow> mem \<Rightarrow> mem" where
  "ns_menu_item_set_target self target m = (if self \<noteq> 0 then put self 296 (le_bytes64 target) m else m)"

definition ns_menu_item_set_enabled :: "ptr \<Rightarrow> bool \<Rightarrow> mem \<Rightarrow> mem" where
  "ns_menu_item_set_enabled self flag m = (if self \<noteq> 0 then put self 312 (flag_bytes flag) m else m)"

definition ns_menu_item_set_tag :: "ptr \<Rightarrow> i64 \<Rightarrow> mem \<Rightarrow> mem" where
  "ns_menu_item_set_tag self tag m = (if self \<noteq> 0 then put self 304 (le_bytes64 tag) m else m)"

section \<open>Reading back\<close>

lemma get_put_same: "length bs = n \<Longrightarrow> n < 2 ^ 64 \<Longrightarrow> get p k n (put p k bs m) = bs"
  by (simp add: get_def put_def load_store_same)

lemma get_put_field:
  assumes "i + n \<le> j \<or> j + length bs \<le> i" and "i + n \<le> 4096" and "j + length bs \<le> 4096"
  shows "get p i n (put p j bs m) = get p i n m"
  unfolding get_def put_def fld_def VIEW_DATA_OFFSET_def
  using assms by (intro load_store_apart apart_fields) auto

lemma get_put_other:
  assumes "apart p s q t" and "16 + i + n \<le> s" and "16 + j + length bs \<le> t" and "length bs \<le> 4096"
  shows "get p i n (put q j bs m) = get p i n m"
  unfolding get_def put_def fld_def VIEW_DATA_OFFSET_def
  using assms by (intro load_store_apart apart_sub2 [of p s q t]) auto

lemma length_pair_bytes [simp]: "length (pair_bytes a b) = 16"
  by (simp add: pair_bytes_def)

lemma length_flag_bytes [simp]: "length (flag_bytes b) = 1"
  by (simp add: flag_bytes_def)

lemma length_concat_replicate [simp]: "length (concat (replicate n xs)) = n * length xs"
  by (induction n) simp_all

lemma take_pair [simp]: "u64_from_le (take 8 (pair_bytes a b)) = a" "u64_from_le (drop 8 (pair_bytes a b)) = b"
  by (simp_all add: pair_bytes_def)

lemma flag_read [simp]: "flag_bytes b \<noteq> [0] \<longleftrightarrow> b"
  by (simp add: flag_bytes_def)

lemmas put_defs = put_rect_def put_size_def
lemmas get_defs = get_rect_def get_u64_def get_u32_def get_flag_def

section \<open>A tree of views\<close>

record view =
  vframe :: CGRect
  vbounds :: CGRect
  vsuper :: ptr
  vsubs :: "ptr list"
  vneeds :: bool
  vhidden :: bool

definition view_of :: "mem \<Rightarrow> ptr \<Rightarrow> view" where
  "view_of m p =
     \<lparr>vframe = get_rect p 0 m, vbounds = get_rect p 32 m, vsuper = get_u64 p 64 m,
      vsubs = map (\<lambda>i. get_u64 p (72 + 8 * i) m) [0..<min 64 (unat (get_u32 p 584 m))],
      vneeds = get_flag p 588 m, vhidden = get_flag p 589 m\<rparr>"

datatype view_op =
    Init_frame ptr CGRect | Set_frame ptr CGRect | Add_subview ptr ptr
  | Set_needs_display ptr bool | Set_hidden ptr bool

fun view_step :: "view_op \<Rightarrow> mem \<Rightarrow> mem" where
  "view_step (Init_frame p r) m = snd (ns_view_init_with_frame p r m)"
| "view_step (Set_frame p r) m = ns_view_set_frame p r m"
| "view_step (Add_subview p q) m = ns_view_add_subview p q m"
| "view_step (Set_needs_display p b) m = ns_view_set_needs_display p b m"
| "view_step (Set_hidden p b) m = ns_view_set_hidden p b m"

text \<open>What the methods promise, on views.\<close>

definition tree_add :: "ptr \<Rightarrow> ptr \<Rightarrow> (ptr \<Rightarrow> view) \<Rightarrow> ptr \<Rightarrow> view" where
  "tree_add p q A =
     (if q = 0 \<or> length (vsubs (A p)) = 64 then A
      else let A = A(p := (A p)\<lparr>vsubs := vsubs (A p) @ [q]\<rparr>)
           in A(q := (A q)\<lparr>vsuper := p\<rparr>))"

fun tree_step :: "view_op \<Rightarrow> (ptr \<Rightarrow> view) \<Rightarrow> ptr \<Rightarrow> view" where
  "tree_step (Init_frame p r) A =
     A(p := \<lparr>vframe = r, vbounds = \<lparr>origin = \<lparr>px = 0, py = 0\<rparr>, rsize = rsize r\<rparr>, vsuper = 0, vsubs = [],
             vneeds = True, vhidden = False\<rparr>)"
| "tree_step (Set_frame p r) A =
     A(p := (A p)\<lparr>vframe := r, vbounds := (vbounds (A p))\<lparr>rsize := rsize r\<rparr>, vneeds := True\<rparr>)"
| "tree_step (Add_subview p q) A = tree_add p q A"
| "tree_step (Set_needs_display p b) A = A(p := (A p)\<lparr>vneeds := b\<rparr>)"
| "tree_step (Set_hidden p b) A = A(p := (A p)\<lparr>vhidden := b\<rparr>)"

fun operands :: "view_op \<Rightarrow> ptr set" where
  "operands (Add_subview p q) = insert p (if q = 0 then {} else {q})"
| "operands (Init_frame p r) = {p}"
| "operands (Set_frame p r) = {p}"
| "operands (Set_needs_display p b) = {p}"
| "operands (Set_hidden p b) = {p}"

section \<open>The methods keep the tree\<close>

lemma view_of_cong:
  assumes "\<And>i n. i + n \<le> 632 \<Longrightarrow> get p i n m' = get p i n m"
  shows "view_of m' p = view_of m p"
proof -
  have "get p (72 + 8 * i) 8 m' = get p (72 + 8 * i) 8 m" if "i < 64" for i
    using that by (intro assms) simp
  then show ?thesis
    by (simp add: view_of_def get_defs assms Let_def cong: map_cong)
qed

lemma view_of_other:
  assumes "apart p 648 q 648" and "j + length bs \<le> 632"
  shows "view_of (put q j bs m) p = view_of m p"
  using assms by (intro view_of_cong get_put_other [OF assms(1)]) auto

lemmas same_object = get_put_same get_put_field put_defs get_defs view_of_def

lemma init_view:
  "view_of (snd (ns_view_init_with_frame p r m)) p
    = \<lparr>vframe = r, vbounds = \<lparr>origin = \<lparr>px = 0, py = 0\<rparr>, rsize = rsize r\<rparr>, vsuper = 0, vsubs = [],
       vneeds = True, vhidden = False\<rparr>"
  by (simp add: ns_view_init_with_frame_def same_object Let_def)

lemma set_frame_view:
  "view_of (ns_view_set_frame p r m) p
    = (view_of m p)\<lparr>vframe := r, vbounds := (vbounds (view_of m p))\<lparr>rsize := rsize r\<rparr>, vneeds := True\<rparr>"
  by (simp add: ns_view_set_frame_def same_object Let_def cong: map_cong)

lemma needs_view: "view_of (ns_view_set_needs_display p b m) p = (view_of m p)\<lparr>vneeds := b\<rparr>"
  by (simp add: ns_view_set_needs_display_def same_object Let_def cong: map_cong)

lemma hidden_view: "view_of (ns_view_set_hidden p b m) p = (view_of m p)\<lparr>vhidden := b\<rparr>"
  by (simp add: ns_view_set_hidden_def same_object Let_def cong: map_cong)

lemma super_view: "view_of (put p 64 (le_bytes64 q) m) p = (view_of m p)\<lparr>vsuper := q\<rparr>"
  by (simp add: same_object Let_def cong: map_cong)

definition n_subs :: "mem \<Rightarrow> ptr \<Rightarrow> nat" where
  "n_subs m p = unat (get_u32 p 584 m)"

definition push_sub :: "ptr \<Rightarrow> ptr \<Rightarrow> mem \<Rightarrow> mem" where
  "push_sub p q m =
     put p 584 (le_bytes32 (get_u32 p 584 m + 1)) (put p (72 + 8 * n_subs m p) (le_bytes64 q) m)"

lemma add_subview_push:
  "ns_view_add_subview p q m = (if q = 0 \<or> n_subs m p \<ge> 64 then m else put q 64 (le_bytes64 p) (push_sub p q m))"
proof -
  have "get_u32 p 584 (put p (72 + 8 * n_subs m p) (le_bytes64 q) m) = get_u32 p 584 m" if "n_subs m p < 64"
    using that by (simp add: get_u32_def get_put_field)
  then show ?thesis
    by (simp add: ns_view_add_subview_def push_sub_def Let_def n_subs_def [symmetric] not_less [symmetric])
qed

lemma succ_subs: "n_subs m p < 64 \<Longrightarrow> unat (get_u32 p 584 m + 1) = Suc (n_subs m p)"
  by (simp add: n_subs_def unat_word_ariths)

lemma push_view:
  assumes "n_subs m p < 64"
  shows "view_of (push_sub p q m) p = (view_of m p)\<lparr>vsubs := vsubs (view_of m p) @ [q]\<rparr>"
    and "n_subs (push_sub p q m) p = Suc (n_subs m p)"
proof -
  have 32: "get_u32 p 584 (push_sub p q m) = get_u32 p 584 m + 1"
    by (simp add: push_sub_def get_u32_def get_put_same)
  then show n: "n_subs (push_sub p q m) p = Suc (n_subs m p)"
    using succ_subs [OF assms] by (simp add: n_subs_def)
  have old: "get_u64 p (72 + 8 * i) (push_sub p q m) = get_u64 p (72 + 8 * i) m" if "i < n_subs m p" for i
    using that assms by (simp add: push_sub_def get_u64_def get_put_field)
  have new: "get_u64 p (72 + 8 * n_subs m p) (push_sub p q m) = q"
    using assms by (simp add: push_sub_def get_u64_def get_put_field get_put_same)
  have rest: "get p i n (push_sub p q m) = get p i n m" if "i + n \<le> 72 \<or> 588 \<le> i" "i + n \<le> 632" for i n
    using that assms by (auto simp: push_sub_def get_put_field)
  have "map (\<lambda>i. get_u64 p (72 + 8 * i) (push_sub p q m)) [0..<Suc (n_subs m p)]
      = map (\<lambda>i. get_u64 p (72 + 8 * i) m) [0..<n_subs m p] @ [q]"
    by (simp add: old new)
  moreover have "min 64 (n_subs (push_sub p q m) p) = Suc (n_subs m p)" "min 64 (n_subs m p) = n_subs m p"
    using assms n by simp_all
  moreover have "get_u64 p 64 (push_sub p q m) = get_u64 p 64 m" by (simp add: get_u64_def rest)
  ultimately show "view_of (push_sub p q m) p = (view_of m p)\<lparr>vsubs := vsubs (view_of m p) @ [q]\<rparr>"
    by (simp add: view_of_def n_subs_def [symmetric] get_rect_def get_flag_def rest Let_def)
qed

lemma length_vsubs: "n_subs m p \<le> 64 \<Longrightarrow> length (vsubs (view_of m p)) = n_subs m p"
  by (simp add: view_of_def n_subs_def)

text \<open>Objects that do not meet, and what a step does to the others.\<close>

definition objects_apart :: "ptr set \<Rightarrow> bool" where
  "objects_apart V \<longleftrightarrow> (\<forall>p \<in> V. \<forall>q \<in> V. p \<noteq> q \<longrightarrow> apart p 648 q 648)"

lemma put_other:
  "objects_apart V \<Longrightarrow> p \<in> V \<Longrightarrow> q \<in> V \<Longrightarrow> p \<noteq> q \<Longrightarrow> j + length bs \<le> 632
    \<Longrightarrow> view_of (put q j bs m) p = view_of m p \<and> n_subs (put q j bs m) p = n_subs m p"
  unfolding objects_apart_def n_subs_def get_u32_def
  by (auto simp: view_of_other get_put_other [of p 648 q 648])

lemma put_same_subs: "j + length bs \<le> 584 \<or> 588 \<le> j \<Longrightarrow> j + length bs \<le> 632 \<Longrightarrow> n_subs (put p j bs m) p = n_subs m p"
  using get_put_field [of 584 4 j bs p m] by (auto simp: n_subs_def get_u32_def)

definition tracks :: "ptr set \<Rightarrow> mem \<Rightarrow> (ptr \<Rightarrow> view) \<Rightarrow> bool" where
  "tracks V m A \<longleftrightarrow> (\<forall>p \<in> V. n_subs m p \<le> 64 \<and> view_of m p = A p)"

text \<open>A step that writes one object only.\<close>

lemma tracks_upd:
  assumes "tracks V m A" and "view_of m' p = v" and "n_subs m' p \<le> 64"
    and "\<And>q. q \<in> V \<Longrightarrow> q \<noteq> p \<Longrightarrow> view_of m' q = view_of m q \<and> n_subs m' q = n_subs m q"
  shows "tracks V m' (A(p := v))"
  using assms unfolding tracks_def by (metis fun_upd_apply)

lemma tracks_at: "tracks V m A \<Longrightarrow> p \<in> V \<Longrightarrow> view_of m p = A p \<and> n_subs m p \<le> 64"
  by (simp add: tracks_def)

lemma step_tracks:
  assumes V: "objects_apart V" and A: "tracks V m A" and ops: "operands op \<subseteq> V"
  shows "tracks V (view_step op m) (tree_step op A)"
proof (cases op)
  case (Init_frame p r)
  have p: "p \<in> V" using ops Init_frame by simp
  have "n_subs (view_step op m) p = 0"
    by (simp add: Init_frame ns_view_init_with_frame_def put_defs n_subs_def get_u32_def get_put_same get_put_field Let_def)
  then show ?thesis
    using init_view [of p r m] put_other [OF V _ p]
    unfolding Init_frame view_step.simps tree_step.simps
    by (intro tracks_upd [OF A]) (simp_all add: ns_view_init_with_frame_def put_defs Let_def)
next
  case (Set_frame p r)
  have p: "p \<in> V" using ops Set_frame by simp
  show ?thesis
    using set_frame_view [of p r m] put_other [OF V _ p] tracks_at [OF A p]
    unfolding Set_frame view_step.simps tree_step.simps
    by (intro tracks_upd [OF A]) (simp_all add: ns_view_set_frame_def put_defs put_same_subs Let_def)
next
  case (Set_needs_display p b)
  have p: "p \<in> V" using ops Set_needs_display by simp
  show ?thesis
    using needs_view [of p b m] put_other [OF V _ p] tracks_at [OF A p]
    unfolding Set_needs_display view_step.simps tree_step.simps
    by (intro tracks_upd [OF A]) (simp_all add: ns_view_set_needs_display_def put_same_subs)
next
  case (Set_hidden p b)
  have p: "p \<in> V" using ops Set_hidden by simp
  show ?thesis
    using hidden_view [of p b m] put_other [OF V _ p] tracks_at [OF A p]
    unfolding Set_hidden view_step.simps tree_step.simps
    by (intro tracks_upd [OF A]) (simp_all add: ns_view_set_hidden_def put_same_subs)
next
  case (Add_subview p q)
  have p: "p \<in> V" and q: "q \<noteq> 0 \<Longrightarrow> q \<in> V" using ops Add_subview by (auto split: if_splits)
  have len: "length (vsubs (A p)) = n_subs m p"
    using tracks_at [OF A p] length_vsubs [of m p] by simp
  show ?thesis
  proof (cases "q = 0 \<or> n_subs m p = 64")
    case True
    then show ?thesis using A len by (auto simp: Add_subview add_subview_push tree_add_def)
  next
    case False
    then have n: "n_subs m p < 64" and q: "q \<in> V" using tracks_at [OF A p] q by auto
    let ?m = "push_sub p q m" and ?A = "A(p := (A p)\<lparr>vsubs := vsubs (A p) @ [q]\<rparr>)"
    have 1: "tracks V ?m ?A"
      using push_view [OF n, of q] n put_other [OF V _ p] tracks_at [OF A p]
      by (intro tracks_upd [OF A]) (simp_all add: push_sub_def)
    have "tracks V (put q 64 (le_bytes64 p) ?m) (?A(q := (?A q)\<lparr>vsuper := p\<rparr>))"
      using super_view [of q p ?m] put_other [OF V _ q] tracks_at [OF 1 q]
      by (intro tracks_upd [OF 1]) (simp_all add: put_same_subs)
    then show ?thesis using False n len by (simp add: Add_subview add_subview_push tree_add_def Let_def)
  qed
qed

lemma run_tracks:
  "objects_apart V \<Longrightarrow> tracks V m A \<Longrightarrow> \<forall>op \<in> set ops. operands op \<subseteq> V
    \<Longrightarrow> tracks V (run_ops view_step ops m) (run_ops tree_step ops A)"
  by (induction ops arbitrary: m A) (simp_all add: step_tracks)

text \<open>A view is listed by its superview.\<close>

definition linked :: "ptr set \<Rightarrow> (ptr \<Rightarrow> view) \<Rightarrow> bool" where
  "linked V A \<longleftrightarrow> (\<forall>q \<in> V. vsuper (A q) \<noteq> 0 \<and> vsuper (A q) \<in> V \<longrightarrow> q \<in> set (vsubs (A (vsuper (A q)))))"

fun is_init :: "view_op \<Rightarrow> bool" where
  "is_init (Init_frame p r) = True"
| "is_init op = False"

lemma step_linked: "linked V A \<Longrightarrow> \<not> is_init op \<Longrightarrow> linked V (tree_step op A)"
  by (cases op) (auto simp: linked_def tree_add_def Let_def)

lemma run_linked: "linked V A \<Longrightarrow> \<forall>op \<in> set ops. \<not> is_init op \<Longrightarrow> linked V (run_ops tree_step ops A)"
  by (induction ops arbitrary: A) (simp_all add: step_linked)

text \<open>Nothing but the objects is written.\<close>

lemma put_outside: "j + length bs \<le> 632 \<Longrightarrow> \<not> unat (x - p) < 648 \<Longrightarrow> put p j bs m x = m x"
proof -
  assume j: "j + length bs \<le> 632" and x: "\<not> unat (x - p) < 648"
  have "\<not> unat (x - fld p j) < length bs"
  proof
    assume lt: "unat (x - fld p j) < length bs"
    have "x - p = of_nat (16 + j) + (x - fld p j)" by (simp add: fld_def VIEW_DATA_OFFSET_def)
    also have "\<dots> = of_nat (16 + j + unat (x - fld p j))" by simp
    finally have "unat (x - p) = unat (of_nat (16 + j + unat (x - fld p j)) :: u64)" by (rule arg_cong)
    also have "\<dots> = 16 + j + unat (x - fld p j)" using j lt by (intro unat_of_nat_u64) simp
    finally have "unat (x - p) = 16 + j + unat (x - fld p j)" .
    with j lt x show False by simp
  qed
  then show ?thesis by (simp add: put_def store_bytes_def)
qed

lemma step_outside:
  "\<forall>p \<in> V. n_subs m p \<le> 64 \<Longrightarrow> operands op \<subseteq> V \<Longrightarrow> \<forall>p \<in> V. \<not> unat (x - p) < 648 \<Longrightarrow> view_step op m x = m x"
  by (cases op)
    (auto simp: ns_view_init_with_frame_def ns_view_set_frame_def ns_view_set_needs_display_def ns_view_set_hidden_def
       add_subview_push push_sub_def put_defs put_outside Let_def)

lemma run_outside:
  "objects_apart V \<Longrightarrow> tracks V m A \<Longrightarrow> \<forall>op \<in> set ops. operands op \<subseteq> V
    \<Longrightarrow> \<forall>p \<in> V. \<not> unat (x - p) < 648 \<Longrightarrow> run_ops view_step ops m x = m x"
proof (induction ops arbitrary: m A)
  case (Cons op ops)
  then have "tracks V (view_step op m) (tree_step op A)" by (simp add: step_tracks)
  moreover have "view_step op m x = m x"
    using Cons.prems by (intro step_outside [of V]) (auto simp: tracks_def)
  ultimately show ?case using Cons by (auto simp del: view_step.simps tree_step.simps)
qed simp

text \<open>
  C16. Views in memory refine a tree of views. Whatever sequence of methods a program sends to
  views whose objects do not meet, reading a view off memory afterwards gives what the same
  sequence makes of the tree: frames, bounds, superviews, the subviews in the order they were
  added (up to 64, after which \<open>addSubview:\<close> does nothing), the flags; the accessors answer from
  it; no other memory changes; and as long as no view is initialised again, a view whose
  superview is one of these views stays listed by it.
\<close>

theorem view_tree_refines:
  assumes "objects_apart V" and "\<forall>p \<in> V. n_subs m p \<le> 64" and "\<forall>op \<in> set ops. operands op \<subseteq> V"
    and "m' = run_ops view_step ops m" and "A = run_ops tree_step ops (view_of m)"
  shows "(\<forall>p \<in> V. view_of m' p = A p \<and> ns_view_frame p m' = vframe (A p) \<and> ns_view_bounds p m' = vbounds (A p)
        \<and> ns_view_superview p m' = vsuper (A p) \<and> ns_view_is_hidden p m' = vhidden (A p))
    \<and> (\<forall>x. (\<forall>p \<in> V. \<not> unat (x - p) < 648) \<longrightarrow> m' x = m x)
    \<and> (linked V (view_of m) \<and> (\<forall>op \<in> set ops. \<not> is_init op) \<longrightarrow> linked V (view_of m'))"
proof -
  have start: "tracks V m (view_of m)" using assms(2) by (simp add: tracks_def)
  have run: "view_of m' p = A p" if "p \<in> V" for p
    using run_tracks [OF assms(1) start assms(3)] that by (simp add: tracks_def assms(4,5))
  have "ns_view_frame p m' = vframe (view_of m' p) \<and> ns_view_bounds p m' = vbounds (view_of m' p)
      \<and> ns_view_superview p m' = vsuper (view_of m' p) \<and> ns_view_is_hidden p m' = vhidden (view_of m' p)" for p
    by (simp add: view_of_def ns_view_frame_def ns_view_bounds_def ns_view_superview_def ns_view_is_hidden_def)
  moreover have "m' x = m x" if "\<forall>p \<in> V. \<not> unat (x - p) < 648" for x
    using run_outside [OF assms(1) start assms(3) that] by (simp add: assms(4))
  moreover have "linked V (view_of m')" if "linked V (view_of m)" "\<forall>op \<in> set ops. \<not> is_init op"
    using run_linked [OF that] run by (auto simp: linked_def assms(5))
  ultimately show ?thesis using run by simp
qed

definition demo_frame :: CGRect where
  "demo_frame = \<lparr>origin = \<lparr>px = 0, py = f64_one\<rparr>, rsize = \<lparr>width = f64_two, height = f64_two\<rparr>\<rparr>"

theorem view_tree_refines_witness:
  "view_of (run_ops view_step [Init_frame 0x1000 demo_frame, Init_frame 0x2000 demo_frame, Add_subview 0x1000 0x2000,
      Set_hidden 0x2000 True] (\<lambda>_. 0)) 0x1000
    = \<lparr>vframe = demo_frame, vbounds = \<lparr>origin = \<lparr>px = 0, py = 0\<rparr>, rsize = rsize demo_frame\<rparr>, vsuper = 0,
       vsubs = [0x2000], vneeds = True, vhidden = False\<rparr>"
proof -
  let ?ops = "[Init_frame 0x1000 demo_frame, Init_frame 0x2000 demo_frame, Add_subview 0x1000 0x2000, Set_hidden 0x2000 True]"
  have "apart 0x1000 648 0x2000 648" "apart 0x2000 648 0x1000 648" by (rule apartI_below; simp)+
  then have "objects_apart {0x1000, 0x2000}" by (auto simp: objects_apart_def)
  moreover have "\<forall>p \<in> {0x1000, 0x2000}. n_subs (\<lambda>_. 0) p \<le> 64"
    by (simp add: n_subs_def get_u32_def get_def load_bytes_unfold u32_from_le_def)
  ultimately show ?thesis
    using view_tree_refines [of "{0x1000, 0x2000}" "\<lambda>_. 0" ?ops, OF _ _ _ refl refl]
    by (simp add: tree_add_def del: view_step.simps)
qed

text \<open>
  A view added to a second superview stays in the list of the first, which \<open>addSubview:\<close> never
  looks at.
\<close>

lemma old_superview_keeps:
  assumes "objects_apart V" and "tracks V m A" and "{p, p', q} \<subseteq> V" and "p \<noteq> p'" and "q \<notin> {0, p, p'}"
    and "q \<in> set (vsubs (A p))"
  shows "q \<in> set (vsubs (view_of (ns_view_add_subview p' q m) p))"
proof -
  have "tracks V (view_step (Add_subview p' q) m) (tree_step (Add_subview p' q) A)"
    using assms(1-3,5) by (intro step_tracks) auto
  then show ?thesis using assms(3-6) by (auto simp: tracks_def tree_add_def Let_def split: if_splits)
qed

section \<open>Menus\<close>

definition menu_items :: "mem \<Rightarrow> ptr \<Rightarrow> ptr list" where
  "menu_items m p = map (\<lambda>i. get_u64 p (264 + 8 * i) m) [0..<min 64 (unat (get_u32 p 776 m))]"

text \<open>An item goes to the end of its menu; a full menu drops it.\<close>

lemma menu_add_item:
  assumes "self \<noteq> 0" and "item \<noteq> 0" and "unat (get_u32 self 776 m) = n" and "n \<le> 64"
  shows "menu_items (ns_menu_add_item self item m) self = menu_items m self @ (if n < 64 then [item] else [])"
proof (cases "n < 64")
  case True
  let ?m = "ns_menu_add_item self item m"
  have m: "?m = put self 776 (le_bytes32 (get_u32 self 776 m + 1)) (put self (264 + 8 * n) (le_bytes64 item) m)"
    using assms True by (simp add: ns_menu_add_item_def Let_def)
  have "unat (get_u32 self 776 ?m) = Suc n"
    using assms(3) True unfolding m by (simp add: get_u32_def get_put_same unat_word_ariths)
  moreover have "get_u64 self (264 + 8 * i) ?m = get_u64 self (264 + 8 * i) m" if "i < n" for i
    using that True by (simp add: m get_u64_def get_put_field)
  moreover have "get_u64 self (264 + 8 * n) ?m = item"
    using True by (simp add: m get_u64_def get_put_field get_put_same)
  moreover have "min 64 (Suc n) = Suc n" "min 64 n = n" using True by simp_all
  ultimately show ?thesis using assms(3) True by (simp add: menu_items_def)
qed (use assms in \<open>simp add: ns_menu_add_item_def Let_def\<close>)

end
