(* ===== verification/TextDrawing.thy ===== *)
theory TextDrawing
  imports Drawing
begin

text \<open>
  \<open>crates/grafted-frameworks/src/ct/font.rs\<close>: the fonts of Core Text, whose only face is an
  8 by 16 bitmap, lines of text, and the drawing of text into a bitmap context. The bytes of the
  face (\<open>font_8x16.bin\<close>, sixteen for each character from the space on) are the parameter \<open>font\<close>.
  A font or a line is a value; \<open>None\<close> is a null pointer.
\<close>

record CTFontInner =
  font_base :: cf_obj
  font_size :: f64
  font_name :: string

record CTLineInner =
  line_base :: cf_obj
  line_text :: "u8 list"
  line_font_size :: f64

section \<open>Fonts\<close>

definition CTFontCreateWithName :: "f64 \<Rightarrow> CTFontInner" where
  "CTFontCreateWithName sz =
     \<lparr>font_base = cf_new 40 CFBare, font_size = (if f64_lt 0 sz then sz else f64_of_int 12), font_name = ''Grafted-Mono''\<rparr>"

definition CTFontCreateWithFontDescriptor :: "f64 \<Rightarrow> CTFontInner" where
  "CTFontCreateWithFontDescriptor sz = CTFontCreateWithName sz"

definition CTFontGetSize :: "CTFontInner option \<Rightarrow> f64" where
  "CTFontGetSize font = (case font of None \<Rightarrow> f64_of_int 12 | Some f \<Rightarrow> font_size f)"

text \<open>0.8, 0.2 and 0.6.\<close>

definition CTFontGetAscent :: "CTFontInner option \<Rightarrow> f64" where
  "CTFontGetAscent font = f64_mul (CTFontGetSize font) 0x3FE999999999999A"

definition CTFontGetDescent :: "CTFontInner option \<Rightarrow> f64" where
  "CTFontGetDescent font = f64_mul (CTFontGetSize font) 0x3FC999999999999A"

definition CTFontGetLeading :: f64 where
  "CTFontGetLeading = f64_two"

section \<open>Drawing text\<close>

definition char_bitmap :: "u8 list \<Rightarrow> u8 \<Rightarrow> u8 list" where
  "char_bitmap font ch =
     (if ch < 32 \<or> ch > 126 then take 16 font
      else let idx = unat (ch - 32) * 16
           in if idx + 16 \<le> length font then take 16 (drop idx font) else take 16 font)"

text \<open>\<open>x.ceil() as usize\<close>.\<close>

definition f64_ceil_usize :: "f64 \<Rightarrow> u64" where
  "f64_ceil_usize x =
     (if is_nan x then 0
      else let t = f64_trunc x
           in of_int (max 0 (min (2 ^ 64 - 1) (if f64_lt (f64_of_int t) x then t + 1 else t))))"

text \<open>The pixels of one set bit, of one character and of a text, in the order they are drawn.\<close>

definition bit_pixels :: "u64 \<Rightarrow> u64 \<Rightarrow> f64 \<Rightarrow> nat \<Rightarrow> nat \<Rightarrow> (u64 \<times> u64) list" where
  "bit_pixels cx y scale row col =
     (let px_x = cx + f64_to_usize (f64_mul (f64_of_int (int col)) scale);
          py_base = y + f64_to_usize (f64_mul (f64_of_int (int row)) scale);
          n = unat (f64_ceil_usize scale)
      in concat (map (\<lambda>sy. map (\<lambda>sx. (px_x + of_nat sx, py_base + of_nat sy)) [0..<n]) [0..<n]))"

definition char_pixels :: "u8 list \<Rightarrow> u64 \<Rightarrow> u64 \<Rightarrow> f64 \<Rightarrow> (u64 \<times> u64) list" where
  "char_pixels bitmap cx y scale =
     concat (map (\<lambda>row. concat (map (\<lambda>col.
       if (bitmap ! row) AND drop_bit col 0x80 \<noteq> 0 then bit_pixels cx y scale row col else []) [0..<8])) [0..<16])"

definition text_pixels :: "u8 list \<Rightarrow> u8 list \<Rightarrow> f64 \<Rightarrow> f64 \<Rightarrow> f64 \<Rightarrow> (u64 \<times> u64) list" where
  "text_pixels font text x y scale =
     (let char_w = f64_to_usize (f64_mul (f64_of_int 8) scale)
      in concat (map (\<lambda>ci. char_pixels (char_bitmap font (text ! ci)) (f64_to_usize x + of_nat ci * char_w)
            (f64_to_usize y) scale) [0..<length text]))"

definition draw_text_bitmap :: "u8 list \<Rightarrow> ptr \<Rightarrow> u8 list \<Rightarrow> f64 \<Rightarrow> f64 \<Rightarrow> rgba \<Rightarrow> f64 \<Rightarrow> cg_heap \<Rightarrow> cg_heap option" where
  "draw_text_bitmap font ctx text x y color scale h =
     (if ctx = 0 \<or> text = [] then Some h
      else ctx_map (\<lambda>c. fold (\<lambda>q. set_pixel (fst q) (snd q) (color_bytes color)) (text_pixels font text x y scale) c) ctx h)"

section \<open>Lines\<close>

text \<open>\<open>attr_string\<close>: type and bytes of the object, \<open>None\<close> for a null pointer.\<close>

definition CTLineCreateWithAttributedString :: "(u64 \<times> u8 list) option \<Rightarrow> CTLineInner" where
  "CTLineCreateWithAttributedString attr_string =
     \<lparr>line_base = cf_new 41 CFBare, line_text = (case attr_string of
        None \<Rightarrow> []
      | Some (ty, bytes) \<Rightarrow> if ty = CF_STRING_TYPE_ID then utf8_lossy bytes else []),
      line_font_size = f64_of_int 12\<rparr>"

definition CTLineDraw :: "u8 list \<Rightarrow> CTLineInner option \<Rightarrow> ptr \<Rightarrow> cg_heap \<Rightarrow> cg_heap option" where
  "CTLineDraw font line ctx h =
     (case line of
        None \<Rightarrow> Some h
      | Some l \<Rightarrow> if ctx = 0 then Some h
          else draw_text_bitmap font ctx (line_text l) 0 0 [0, 0, 0, f64_one] f64_one h)"

text \<open>Ascent, descent, leading and width.\<close>

definition CTLineGetTypographicBounds :: "CTLineInner option \<Rightarrow> (f64 \<times> f64 \<times> f64) option \<times> f64" where
  "CTLineGetTypographicBounds line =
     (case line of
        None \<Rightarrow> (None, 0)
      | Some l \<Rightarrow>
          (Some (f64_mul (line_font_size l) 0x3FE999999999999A, f64_mul (line_font_size l) 0x3FC999999999999A, f64_two),
           f64_mul (f64_mul (f64_of_int (int (length (line_text l)))) (line_font_size l)) 0x3FE3333333333333))"

section \<open>Whole numbers\<close>

lemma of_int_parts:
  assumes "n < 2 ^ 53"
  shows "\<not> f64_neg (f64_of_int (int n))" and "f64_mag (f64_abs (f64_of_int (int n))) = n * 2 ^ 1074"
    and "is_finite (f64_of_int (int n))"
proof -
  have r: "f64_mag (round_bits (n * 2 ^ 1074) 1) = n * 2 ^ 1074" "round_bits (n * 2 ^ 1074) 1 < f64_inf"
    using mag_round_grid [OF assms, of 1074] by simp_all
  have b: "round_bits (n * 2 ^ 1074) 1 < 2 ^ 63" using r(2) f64_inf_lt by simp
  have e: "f64_of_int (int n) = f64_of False (round_bits (n * 2 ^ 1074) 1)"
    by (simp add: f64_of_int_def f64_round_def del: power_numeral_even power_numeral_odd)
  show "\<not> f64_neg (f64_of_int (int n))" "is_finite (f64_of_int (int n))"
    unfolding e using b r(2) by (simp_all add: is_finite_def)
  show "f64_mag (f64_abs (f64_of_int (int n))) = n * 2 ^ 1074"
    unfolding e using b r(1) by simp
qed

lemma half_even_scale: "0 < d \<Longrightarrow> half_even (a * d) (d * e) = half_even a e"
proof -
  assume d: "0 < d"
  have m: "a * d mod (d * e) = d * (a mod e)" by (simp only: mult.commute [of a d] mult_mod_right)
  have q: "a * d div (d * e) = a div e" using d by (simp add: mult.commute [of a d])
  have "2 * (d * r) = d * (2 * r)" for r by simp
  then have "d * e < 2 * (d * r) \<longleftrightarrow> e < 2 * r" "2 * (d * r) = d * e \<longleftrightarrow> 2 * r = e" for r
    using d by (simp_all only: mult_less_cancel1 mult_cancel1) simp_all
  then show ?thesis by (simp only: half_even_def Let_def m q)
qed

lemma round_bits_scale: "0 < d \<Longrightarrow> round_bits (a * d) d = round_bits a 1"
  by (simp add: round_bits_def half_even_scale Let_def)

lemma mul_whole:
  assumes "n < 2 ^ 53" and "k < 2 ^ 53"
  shows "f64_mul (f64_of_int (int n)) (f64_of_int (int k)) = f64_of_int (int (n * k))"
proof -
  note x = of_int_parts [OF assms(1)] and y = of_int_parts [OF assms(2)]
  have "round_bits (n * 2 ^ 1074 * (k * 2 ^ 1074)) (2 ^ 1074) = round_bits (n * k * 2 ^ 1074) 1"
    using round_bits_scale [of "2 ^ 1074" "n * k * 2 ^ 1074"] by (simp only: mult.assoc mult.left_commute zero_less_power zero_less_numeral)
  moreover have "f64_mul (f64_of_int (int n)) (f64_of_int (int k))
      = f64_round False (n * 2 ^ 1074 * (k * 2 ^ 1074)) (2 ^ 1074)"
    by (simp only: f64_mul_def Let_def x y finite_not_nan [OF x(3)] finite_not_nan [OF y(3)] if_False simp_thms)
  moreover have "f64_of_int (int (n * k)) = f64_round False (n * k * 2 ^ 1074) 1"
    by (simp only: f64_of_int_def of_nat_less_0_iff abs_of_nat nat_int)
  ultimately show ?thesis by (simp only: f64_round_def)
qed

lemma usize_whole: "n < 2 ^ 53 \<Longrightarrow> f64_to_usize (f64_of_int (int n)) = of_nat n"
proof -
  assume n: "n < 2 ^ 53"
  note x = of_int_parts [OF n]
  have "f64_trunc (f64_of_int (int n)) = int n"
    using x(1,2) by (simp add: f64_trunc_def del: power_numeral_even power_numeral_odd)
  moreover have "min (2 ^ 64 - 1) (int n) = int n" using n by simp
  ultimately show ?thesis using finite_not_nan [OF x(3)] by (simp add: f64_to_usize_def)
qed

lemma one_whole: "f64_one = f64_of_int 1"
proof -
  have "f64_mag (Suc 1022 * 2 ^ 52 + 0) = (2 ^ 52 + 0) * 2 ^ 1022" by (rule f64_mag_split) simp
  then have m: "f64_mag (Suc 1022 * 2 ^ 52) = 2 ^ 1074" by (simp only: add_0_right power_add [symmetric]) simp
  have "round_bits (f64_mag (Suc 1022 * 2 ^ 52)) 1 = Suc 1022 * 2 ^ 52" by (rule round_bits_mag) (simp add: f64_inf_def)
  then have "f64_of_int 1 = f64_of False (Suc 1022 * 2 ^ 52)"
    by (simp only: m f64_of_int_def f64_round_def) simp
  then show ?thesis by (simp add: f64_one_def f64_of_def)
qed

lemma eight: "f64_to_usize (f64_mul (f64_of_int 8) f64_one) = 8"
  using mul_whole [of 8 1] usize_whole [of 8] by (simp add: one_whole)

lemma times_one: "n < 2 ^ 53 \<Longrightarrow> f64_to_usize (f64_mul (f64_of_int (int n)) f64_one) = of_nat n"
  using mul_whole [of n 1] usize_whole [of n] by (simp add: one_whole)

lemma ceil_one: "f64_ceil_usize f64_one = 1"
proof -
  have "f64_trunc f64_one = 1"
    using of_int_parts(1,2) [of 1] unfolding one_whole f64_trunc_def Let_def
    by (simp only: of_nat_1 mult_1 if_False simp_thms) simp
  moreover have "\<not> is_nan f64_one" "\<not> f64_lt f64_one f64_one"
    using of_int_parts(3) [of 1] finite_not_nan by (auto simp: one_whole f64_lt_def)
  ultimately show ?thesis by (simp add: f64_ceil_usize_def one_whole)
qed

section \<open>Which pixels a text changes\<close>

lemma bit_pixels_one:
  "row < 16 \<Longrightarrow> col < 8 \<Longrightarrow> bit_pixels cx y f64_one row col = [(cx + of_nat col, y + of_nat row)]"
  by (simp add: bit_pixels_def times_one ceil_one Let_def)

lemma mask_bit:
  assumes "col < 8"
  shows "(b :: u8) AND drop_bit col 0x80 \<noteq> 0 \<longleftrightarrow> bit b (7 - col)"
proof -
  have "\<forall>k < 8. drop_bit k 0x80 = (push_bit (7 - k) 1 :: u8)" by code_simp
  then have "drop_bit col 0x80 = (push_bit (7 - col) 1 :: u8)" using assms by blast
  then show ?thesis by (simp add: bit_iff_and_push_bit_not_eq_0)
qed

text \<open>The bit of a text at a column and a row, counted from its upper left corner.\<close>

definition text_bit :: "u8 list \<Rightarrow> u8 list \<Rightarrow> nat \<Rightarrow> nat \<Rightarrow> bool" where
  "text_bit font text u v \<longleftrightarrow>
     u < 8 * length text \<and> v < 16 \<and> bit (char_bitmap font (text ! (u div 8)) ! v) (7 - u mod 8)"

lemma in_concat_upt: "q \<in> set (concat (map f [0..<n])) \<longleftrightarrow> (\<exists>i < n. q \<in> set (f i))"
  by auto

lemma set_char_pixels:
  "q \<in> set (char_pixels bitmap cx y f64_one) \<longleftrightarrow>
    (\<exists>row < 16. \<exists>col < 8. bit (bitmap ! row) (7 - col) \<and> q = (cx + of_nat col, y + of_nat row))"
proof -
  have "q \<in> set (if (bitmap ! row) AND drop_bit col 0x80 \<noteq> 0 then bit_pixels cx y f64_one row col else []) \<longleftrightarrow>
      bit (bitmap ! row) (7 - col) \<and> q = (cx + of_nat col, y + of_nat row)" if "row < 16" "col < 8" for row col
    using that by (auto simp: mask_bit bit_pixels_one)
  then show ?thesis unfolding char_pixels_def in_concat_upt by blast
qed

lemma set_text_pixels:
  assumes "x0 + 8 * length text < 2 ^ 53" and "y0 + 16 < 2 ^ 53"
  shows "q \<in> set (text_pixels font text (f64_of_int (int x0)) (f64_of_int (int y0)) f64_one) \<longleftrightarrow>
    x0 \<le> unat (fst q) \<and> y0 \<le> unat (snd q) \<and> text_bit font text (unat (fst q) - x0) (unat (snd q) - y0)"
    (is "?l \<longleftrightarrow> ?r")
proof -
  have l: "?l \<longleftrightarrow> (\<exists>ci < length text. \<exists>row < 16. \<exists>col < 8. bit (char_bitmap font (text ! ci) ! row) (7 - col)
      \<and> q = (of_nat x0 + of_nat ci * 8 + of_nat col, of_nat y0 + of_nat row))"
    using usize_whole [of x0] usize_whole [of y0] assms
    unfolding text_pixels_def Let_def eight in_concat_upt by (simp add: set_char_pixels)
  show ?thesis
  proof
    assume ?l
    then obtain ci row col where ci: "ci < length text" and b: "row < 16" "col < 8"
        "bit (char_bitmap font (text ! ci) ! row) (7 - col)"
      and q: "q = (of_nat x0 + of_nat ci * 8 + of_nat col, of_nat y0 + of_nat row)" using l by blast
    have "q = (of_nat (x0 + (ci * 8 + col)), of_nat (y0 + row))" by (simp add: q)
    moreover have "ci * 8 + col < 8 * length text" using ci b by simp
    ultimately have "unat (fst q) = x0 + (ci * 8 + col)" "unat (snd q) = y0 + row"
      using assms b by (simp_all add: unat_of_nat_u64 del: of_nat_add of_nat_mult)
    then show ?r using ci b by (simp add: text_bit_def)
  next
    assume r: ?r
    define u v where uv: "u = unat (fst q) - x0" "v = unat (snd q) - y0"
    have "q = (of_nat (x0 + u), of_nat (y0 + v))" using r by (cases q) (simp add: uv)
    moreover have "x0 + u = x0 + (u div 8 * 8 + u mod 8)" by simp
    ultimately have "q = (of_nat x0 + of_nat (u div 8) * 8 + of_nat (u mod 8), of_nat y0 + of_nat v)"
      by (metis (no_types, opaque_lifting) add.assoc of_nat_add of_nat_mult of_nat_numeral)
    moreover have "u div 8 < length text" "v < 16" "u mod 8 < 8"
        "bit (char_bitmap font (text ! (u div 8)) ! v) (7 - u mod 8)"
      using r unfolding uv [symmetric] by (auto simp: text_bit_def)
    ultimately show ?l using l by blast
  qed
qed

text \<open>
  C18. Text is drawn bit for bit. At a whole position and scale 1, a pixel of the context gets
  the text's colour exactly when the face has a bit there: its column counted from the text's
  left edge picks the character (a byte of the text; anything that is not printable ASCII is
  drawn as the space) and the bit of its row, most significant first; every other pixel keeps
  its bytes, and what would fall outside the context is dropped.
\<close>

theorem text_exact:
  assumes "contexts h ctx = Some c" and "ctx \<noteq> 0" and "ctx_ok c" and "text \<noteq> []"
    and "x0 + 8 * length text < 2 ^ 53" and "y0 + 16 < 2 ^ 53"
  shows "\<exists>c'. draw_text_bitmap font ctx text (f64_of_int (int x0)) (f64_of_int (int y0)) color f64_one h
        = Some (h\<lparr>contexts := (contexts h)(ctx \<mapsto> c')\<rparr>)
    \<and> ctx_ok c' \<and> draw_state c' = draw_state c \<and> length (pixels c') = length (pixels c)
    \<and> (\<forall>q i. inside c q \<and> i < 4 \<longrightarrow>
        pixels c' ! (offset c q + i) =
          (if x0 \<le> unat (fst q) \<and> y0 \<le> unat (snd q) \<and> text_bit font text (unat (fst q) - x0) (unat (snd q) - y0)
           then color_bytes color ! i else pixels c ! (offset c q + i)))"
proof -
  let ?qs = "text_pixels font text (f64_of_int (int x0)) (f64_of_int (int y0)) f64_one"
  let ?c = "paint (color_bytes color) ?qs c"
  have l: "length (color_bytes color) = 4" by (simp add: color_bytes_def Let_def)
  have "draw_text_bitmap font ctx text (f64_of_int (int x0)) (f64_of_int (int y0)) color f64_one h
      = Some (h\<lparr>contexts := (contexts h)(ctx \<mapsto> ?c)\<rparr>)"
    using assms by (simp add: draw_text_bitmap_def ctx_map_def paint_def)
  then show ?thesis
    using paint_pixel [OF assms(3) l] assms(3) paint_same [of _ ?qs c]
    by (intro exI [of _ ?c]) (simp add: paint_ok set_text_pixels [OF assms(5,6)])
qed

text \<open>A face with every bit set, and a context of two pixels by two.\<close>

theorem text_exact_witness:
  "\<exists>c'. draw_text_bitmap (replicate 1520 0xFF) 0x1000 [0x41] (f64_of_int 0) (f64_of_int 1) [0, 0, 0, f64_one] f64_one demo_context
      = Some (demo_context\<lparr>contexts := (contexts demo_context)(0x1000 \<mapsto> c')\<rparr>)
    \<and> pixels c' ! (offset (new_context None 2 2 8 0) (1, 1) + 3) = color_bytes [0, 0, 0, f64_one] ! 3
    \<and> pixels c' ! (offset (new_context None 2 2 8 0) (1, 0) + 3) = 0"
proof -
  let ?c = "new_context None 2 2 8 0" and ?font = "replicate 1520 0xFF :: u8 list"
  have ins: "inside ?c (1, 1)" "inside ?c (1, 0)" by (simp_all add: inside_def new_context_def Let_def)
  have zero: "pixels ?c ! (offset ?c (1, 0) + 3) = 0" by (simp add: offset_def new_context_def Let_def)
  have b: "text_bit ?font [0x41] 1 0" by (simp add: text_bit_def char_bitmap_def)
  obtain c' where "draw_text_bitmap ?font 0x1000 [0x41] (f64_of_int (int 0)) (f64_of_int (int 1)) [0, 0, 0, f64_one] f64_one demo_context
        = Some (demo_context\<lparr>contexts := (contexts demo_context)(0x1000 \<mapsto> c')\<rparr>)"
      "\<forall>q i. inside ?c q \<and> i < 4 \<longrightarrow>
        pixels c' ! (offset ?c q + i) =
          (if 0 \<le> unat (fst q) \<and> 1 \<le> unat (snd q) \<and> text_bit ?font [0x41] (unat (fst q) - 0) (unat (snd q) - 1)
           then color_bytes [0, 0, 0, f64_one] ! i else pixels ?c ! (offset ?c q + i))"
    using text_exact [OF demo_context_at(1) _ demo_context_at(2), of "[0x41]" 0 1 ?font "[0, 0, 0, f64_one]"] by auto
  with ins b zero show ?thesis by (intro exI [of _ c']) simp
qed

end
