(* ===== verification/Windows.thy ===== *)
theory Windows
  imports WindowServer Views TextDrawing
begin

text \<open>
  \<open>crates/grafted-frameworks/src/appkit/window.rs\<close>: \<open>NSWindow\<close>, which ties together an object in
  memory (\<open>NSWindowData\<close>, \<open>Views\<close>), a bitmap context (\<open>Drawing\<close>) and a window of the window server
  (\<open>WindowServer\<close>). \<open>x11\<close> says whether libX11 is there; the context's address and what the X
  server answers (\<open>xwin\<close>, \<open>gc\<close>) are arguments. A method returns its requests to the server.
\<close>

record gui =
  gmem :: mem
  gheap :: cg_heap
  gdisp :: "DisplayState option"

section \<open>The window server behind its lock\<close>

definition on_display ::
    "bool \<Rightarrow> 'r \<Rightarrow> (DisplayState \<Rightarrow> 'r \<times> DisplayState \<times> x11_request list) \<Rightarrow> gui \<Rightarrow> 'r \<times> gui \<times> x11_request list" where
  "on_display x11 failed f g =
     (if \<not> x11 then (failed, g, [])
      else case gdisp g of
        None \<Rightarrow> (failed, g, [])
      | Some ds \<Rightarrow> (case f ds of (r, ds', reqs) \<Rightarrow> (r, g\<lparr>gdisp := Some ds'\<rparr>, reqs)))"

definition create ::
    "bool \<Rightarrow> x11_window \<Rightarrow> ptr \<Rightarrow> i32 \<Rightarrow> i32 \<Rightarrow> u32 \<Rightarrow> u32 \<Rightarrow> string \<Rightarrow> gui \<Rightarrow> u32 option \<times> gui \<times> x11_request list" where
  "create x11 xwin gc x y w hgt title =
     on_display x11 None (\<lambda>ds. case create_window xwin gc x y w hgt title ds of (i, ds, reqs) \<Rightarrow> (Some i, ds, reqs))"

section \<open>NSWindow\<close>

text \<open>
  \<open>NSWindowData\<close>: the identifier at 0, the frame at 8, the style at 40, the title at 48 with its
  length at 304, the context at 312, the content view at 320.
\<close>

definition ns_window_init ::
    "bool \<Rightarrow> ptr \<Rightarrow> x11_window \<Rightarrow> ptr \<Rightarrow> ptr \<Rightarrow> CGRect \<Rightarrow> u64 \<Rightarrow> gui \<Rightarrow> ptr \<times> gui \<times> x11_request list" where
  "ns_window_init x11 ctx xwin gc self content_rect style_mask g =
     (let m = put_rect self 8 content_rect (gmem g);
          m = put self 40 (le_bytes64 style_mask) m;
          m = put self 320 (le_bytes64 0) m;
          w = f64_to_usize (width (rsize content_rect));
          hgt = f64_to_usize (height (rsize content_rect));
          (c, h) = CGBitmapContextCreate ctx None w hgt 8 (w * 4) (gheap g);
          m = put self 312 (le_bytes64 c) m;
          m = put self 48 (bytes_of_text ''Untitled'') m;
          m = put self 304 (le_bytes64 8) m;
          (made, g, reqs) = create x11 xwin gc (f64_to_i32 (px (origin content_rect))) (f64_to_i32 (py (origin content_rect)))
            (ucast w) (ucast hgt) ''Untitled'' (g\<lparr>gmem := m, gheap := h\<rparr>)
      in (self, (case made of Some i \<Rightarrow> g\<lparr>gmem := put self 0 (le_bytes32 i) (gmem g)\<rparr> | None \<Rightarrow> g), reqs))"

definition ns_window_set_title :: "ptr \<Rightarrow> u8 list option \<Rightarrow> gui \<Rightarrow> gui" where
  "ns_window_set_title self title g = g\<lparr>gmem := put_title self 48 304 255 title (gmem g)\<rparr>"

definition ns_window_make_key_and_order_front :: "bool \<Rightarrow> ptr \<Rightarrow> gui \<Rightarrow> gui \<times> x11_request list" where
  "ns_window_make_key_and_order_front x11 self g =
     snd (on_display x11 False (show_window (get_u32 self 0 (gmem g))) g)"

definition ns_window_order_out :: "bool \<Rightarrow> ptr \<Rightarrow> gui \<Rightarrow> gui \<times> x11_request list" where
  "ns_window_order_out x11 self g = snd (on_display x11 False (hide_window (get_u32 self 0 (gmem g))) g)"

definition ns_window_close :: "bool \<Rightarrow> ptr \<Rightarrow> gui \<Rightarrow> gui \<times> x11_request list" where
  "ns_window_close x11 self g = snd (on_display x11 False (destroy_window (get_u32 self 0 (gmem g))) g)"

text \<open>\<open>None\<close>: a read beyond the bitmap. \<open>data\<close> and \<open>made\<close> as in \<open>flush_window\<close>.\<close>

definition ns_window_display :: "bool \<Rightarrow> ptr \<Rightarrow> bool \<Rightarrow> ptr \<Rightarrow> gui \<Rightarrow> x11_request list option" where
  "ns_window_display x11 data made self g =
     (let ctx = get_u64 self 312 (gmem g)
      in if ctx = 0 \<or> \<not> x11 then Some []
         else case gdisp g of
           None \<Rightarrow> Some []
         | Some ds \<Rightarrow> map_option snd (flush_window data made (get_u32 self 0 (gmem g)) ctx (gheap g) ds))"

definition ns_window_frame :: "ptr \<Rightarrow> gui \<Rightarrow> CGRect" where
  "ns_window_frame self g = get_rect self 8 (gmem g)"

definition ns_window_set_content_view :: "ptr \<Rightarrow> ptr \<Rightarrow> gui \<Rightarrow> gui" where
  "ns_window_set_content_view self v g = g\<lparr>gmem := put self 320 (le_bytes64 v) (gmem g)\<rparr>"

definition ns_window_content_view :: "ptr \<Rightarrow> gui \<Rightarrow> ptr" where
  "ns_window_content_view self g = get_u64 self 320 (gmem g)"

definition ns_window_graphics_context :: "ptr \<Rightarrow> gui \<Rightarrow> ptr" where
  "ns_window_graphics_context self g = get_u64 self 312 (gmem g)"

section \<open>A window shows what was drawn\<close>

text \<open>What a program does with a window it has made, short of closing it.\<close>

datatype win_op =
    Draw gcall | Title "u8 list option" | Content_view ptr | Order_front | Order_out

definition win_step :: "ptr \<Rightarrow> ptr \<Rightarrow> win_op \<Rightarrow> gui \<Rightarrow> gui option" where
  "win_step self ctx op g =
     (case op of
        Draw gc \<Rightarrow> map_option (\<lambda>h. g\<lparr>gheap := h\<rparr>) (gcall_exec ctx gc (gheap g))
      | Title t \<Rightarrow> Some (ns_window_set_title self t g)
      | Content_view v \<Rightarrow> Some (ns_window_set_content_view self v g)
      | Order_front \<Rightarrow> Some (fst (ns_window_make_key_and_order_front True self g))
      | Order_out \<Rightarrow> Some (fst (ns_window_order_out True self g)))"

fun win_run :: "ptr \<Rightarrow> ptr \<Rightarrow> win_op list \<Rightarrow> gui \<Rightarrow> gui option" where
  "win_run self ctx [] g = Some g"
| "win_run self ctx (op # ops) g = Option.bind (win_step self ctx op g) (win_run self ctx ops)"

definition same_bitmap :: "CGContextInner \<Rightarrow> CGContextInner \<Rightarrow> bool" where
  "same_bitmap c c' \<longleftrightarrow> ctx_width c' = ctx_width c \<and> ctx_height c' = ctx_height c
     \<and> length (pixels c') = length (pixels c)"

lemma same_bitmap_trans: "same_bitmap a b \<Longrightarrow> same_bitmap b c \<Longrightarrow> same_bitmap a c"
  by (simp add: same_bitmap_def)

lemma set_pixel_bitmap: "same_bitmap c (set_pixel x y bgra c)"
  by (simp add: same_bitmap_def set_pixel_same)

lemma fold_bitmap: "(\<And>x c. same_bitmap c (f x c)) \<Longrightarrow> same_bitmap c (fold f xs c)"
proof (induction xs arbitrary: c)
  case (Cons x xs)
  then show ?case by (auto intro: same_bitmap_trans)
qed (simp add: same_bitmap_def)

lemma stroke_bitmap: "same_bitmap c (stroke_rect bgra rect c)"
  unfolding stroke_rect_def Let_def
  by (intro same_bitmap_trans [OF fold_bitmap fold_bitmap] same_bitmap_trans [OF set_pixel_bitmap set_pixel_bitmap])

lemma fill_bitmap: "same_bitmap c (fill_rect bgra rect c)"
  by (simp add: fill_rect_def fill_pixels_paint paint_same same_bitmap_def)

lemma gcall_bitmap:
  assumes "ctx \<noteq> 0" "contexts h ctx = Some c"
  shows "\<exists>h' c'. gcall_exec ctx gc h = Some h' \<and> contexts h' ctx = Some c' \<and> same_bitmap c c'"
  using assms stroke_bitmap [of c] fill_bitmap [of c]
  by (cases gc) (simp_all add: ctx_map_def CGContextSetRGBFillColor_def CGContextSetRGBStrokeColor_def
      CGContextSetGrayFillColor_def CGContextTranslateCTM_def CGContextScaleCTM_def CGContextSetLineWidth_def
      CGContextFillRect_def CGContextClearRect_def CGContextStrokeRect_def CGContextSaveGState_def
      CGContextRestoreGState_def save_state_def restore_state_def same_bitmap_def Let_def)

text \<open>The window a program has, whatever it draws and however it names or shows it.\<close>

definition win_ok :: "ptr \<Rightarrow> ptr \<Rightarrow> u32 \<Rightarrow> x11_window \<Rightarrow> ptr \<Rightarrow> CGRect \<Rightarrow> CGContextInner \<Rightarrow> gui \<Rightarrow> bool" where
  "win_ok self ctx i xwin gc rect c g \<longleftrightarrow>
     get_u32 self 0 (gmem g) = i \<and> get_u64 self 312 (gmem g) = ctx \<and> get_rect self 8 (gmem g) = rect
     \<and> (\<exists>ds win. gdisp g = Some ds \<and> windows ds i = Some win \<and> x11_window win = xwin \<and> x11_gc win = gc)
     \<and> (\<exists>c'. contexts (gheap g) ctx = Some c' \<and> same_bitmap c c')"

lemma title_apart:
  assumes "i + n \<le> 48 \<or> 312 \<le> i" and "i + n \<le> 4096"
  shows "get self i n (put_title self 48 304 255 title m) = get self i n m"
proof -
  have "length (take (min (length bs) 255) bs) \<le> 255" for bs :: "u8 list" by simp
  then show ?thesis
    using assms by (auto simp: put_title_def Let_def get_put_field split: option.splits)
qed

lemma step_win_ok:
  assumes "win_ok self ctx i xwin gc rect c g" and "ctx \<noteq> 0"
  shows "\<exists>g'. win_step self ctx op g = Some g' \<and> win_ok self ctx i xwin gc rect c g'"
proof (cases op)
  case (Draw d)
  obtain c' where c': "contexts (gheap g) ctx = Some c'" "same_bitmap c c'"
    using assms(1) by (auto simp: win_ok_def)
  obtain h2 c2 where "gcall_exec ctx d (gheap g) = Some h2" "contexts h2 ctx = Some c2" "same_bitmap c' c2"
    using gcall_bitmap [OF assms(2) c'(1)] by blast
  then show ?thesis
    using assms(1) same_bitmap_trans [OF c'(2)] by (simp add: Draw win_step_def win_ok_def)
next
  case (Title t)
  then show ?thesis
    using assms by (simp add: win_step_def win_ok_def ns_window_set_title_def get_defs title_apart)
next
  case (Content_view v)
  then show ?thesis
    using assms by (simp add: win_step_def win_ok_def ns_window_set_content_view_def get_defs get_put_field)
next
  case Order_front
  then show ?thesis
    using assms
    by (auto simp: win_step_def win_ok_def ns_window_make_key_and_order_front_def on_display_def show_window_def)
next
  case Order_out
  then show ?thesis
    using assms
    by (auto simp: win_step_def win_ok_def ns_window_order_out_def on_display_def hide_window_def)
qed

lemma run_win_ok:
  "win_ok self ctx i xwin gc rect c g \<Longrightarrow> ctx \<noteq> 0
    \<Longrightarrow> \<exists>g'. win_run self ctx ops g = Some g' \<and> win_ok self ctx i xwin gc rect c g'"
proof (induction ops arbitrary: g)
  case (Cons op ops)
  obtain g1 where "win_step self ctx op g = Some g1" "win_ok self ctx i xwin gc rect c g1"
    using step_win_ok [OF Cons.prems] by blast
  then show ?case using Cons.IH [of g1] Cons.prems(2) by simp
qed simp

lemma init_win_ok:
  assumes "ns_window_init True ctx xwin gc self rect style g = (self', g1, reqs)" and "gdisp g = Some ds"
  shows "win_ok self ctx (next_id ds) xwin gc rect
      (new_context None (f64_to_usize (width (rsize rect))) (f64_to_usize (height (rsize rect))) 8
        (f64_to_usize (width (rsize rect)) * 4)) g1"
proof -
  have "g1 = (let (_, g, _) = ns_window_init True ctx xwin gc self rect style g in g)" using assms(1) by simp
  then show ?thesis
    using assms(2)
    by (simp add: win_ok_def ns_window_init_def create_def on_display_def create_window_def CGBitmapContextCreate_def
        put_defs get_defs get_put_same get_put_field same_bitmap_def Let_def)
qed

lemma new_bitmap:
  fixes W H :: nat
  assumes "W < 2 ^ 32" "H < 2 ^ 32" "W * H * 4 < 2 ^ 32"
  shows "length (pixels (new_context None (of_nat W) (of_nat H) 8 (of_nat W * 4))) = W * H * 4"
proof -
  have "(of_nat W * 4 * of_nat H :: u64) = of_nat (W * H * 4)" by simp
  then have "unat (of_nat W * 4 * of_nat H :: u64) = unat (of_nat (W * H * 4) :: u64)" by (rule arg_cong)
  also have "\<dots> = W * H * 4" using assms by (intro unat_of_nat_u64) simp
  finally show ?thesis by (simp add: new_context_def Let_def)
qed

lemma display_ok:
  assumes "win_ok self ctx i xwin gc rect (new_context None (of_nat W) (of_nat H) 8 (of_nat W * 4)) g"
    and "ctx \<noteq> 0" "data \<noteq> 0" and "W < 2 ^ 32" "H < 2 ^ 32" "W * H * 4 < 2 ^ 32"
  shows "\<exists>c. contexts (gheap g) ctx = Some c \<and> length (pixels c) = W * H * 4
    \<and> ns_window_display True data True self g = Some [PutImage xwin gc (pixels c) (of_nat W) (of_nat H), Flush]"
proof -
  obtain ds win c where g: "gdisp g = Some ds" "windows ds i = Some win" "x11_window win = xwin" "x11_gc win = gc"
      "contexts (gheap g) ctx = Some c" "get_u32 self 0 (gmem g) = i" "get_u64 self 312 (gmem g) = ctx"
    and c: "ctx_width c = of_nat W" "ctx_height c = of_nat H" "length (pixels c) = W * H * 4"
    using assms(1) new_bitmap [OF assms(4-6)] by (auto simp: win_ok_def same_bitmap_def new_context_def Let_def)
  have "(of_nat W * of_nat H * 4 :: u32) = of_nat (W * H * 4)" by simp
  then have "unat (of_nat W * of_nat H * 4 :: u32) = unat (of_nat (W * H * 4) :: u32)" by (rule arg_cong)
  also have "\<dots> = W * H * 4" using assms(6) by (intro unat_of_nat_u32)
  finally have "unat (of_nat W * of_nat H * 4 :: u32) = W * H * 4" .
  then show ?thesis
    using g c assms(2,3) by (intro exI [of _ c]) (simp add: ns_window_display_def flush_window_def Let_def)
qed

text \<open>
  C15. A window shows what was drawn in it. After \<open>initWithContentRect:\<close> on an open display,
  whatever the program then draws in the window's context, however often it retitles, shows or
  hides the window or sets its content view, \<open>display\<close> puts exactly the pixels of that context,
  at the window's width and height, into the X11 window made for it; the frame and the context
  are still the window's; and once the window is closed, \<open>display\<close> asks the server for nothing.
  (Widths and heights are those whose bitmap fits 32 bits.)
\<close>

theorem window_shows_drawing:
  fixes W H :: nat
  assumes "ns_window_init True ctx xwin gc self rect style g = (self', g1, reqs)" and "gdisp g = Some ds"
    and "ctx \<noteq> 0" and "data \<noteq> 0"
    and "f64_to_usize (width (rsize rect)) = of_nat W" and "f64_to_usize (height (rsize rect)) = of_nat H"
    and "W < 2 ^ 32" and "H < 2 ^ 32" and "W * H * 4 < 2 ^ 32"
  shows "\<exists>g2 c. win_run self ctx ops g1 = Some g2 \<and> contexts (gheap g2) ctx = Some c \<and> length (pixels c) = W * H * 4
    \<and> ns_window_display True data True self g2 = Some [PutImage xwin gc (pixels c) (of_nat W) (of_nat H), Flush]
    \<and> ns_window_frame self g2 = rect \<and> ns_window_graphics_context self g2 = ctx
    \<and> ns_window_display True data True self (fst (ns_window_close True self g2)) = Some []"
proof -
  let ?c = "new_context None (of_nat W) (of_nat H) 8 (of_nat W * 4)"
  obtain g2 where run: "win_run self ctx ops g1 = Some g2" and ok: "win_ok self ctx (next_id ds) xwin gc rect ?c g2"
    using run_win_ok [OF init_win_ok [OF assms(1,2), unfolded assms(5,6)] assms(3)] by blast
  obtain c where "contexts (gheap g2) ctx = Some c" "length (pixels c) = W * H * 4"
      "ns_window_display True data True self g2 = Some [PutImage xwin gc (pixels c) (of_nat W) (of_nat H), Flush]"
    using display_ok [OF ok assms(3,4,7-9)] by blast
  moreover have "ns_window_display True data True self (fst (ns_window_close True self g2)) = Some []"
    using ok by (auto simp: win_ok_def ns_window_display_def ns_window_close_def on_display_def destroy_window_def
        flush_window_def Let_def)
  ultimately show ?thesis
    using run ok by (auto simp: win_ok_def ns_window_frame_def ns_window_graphics_context_def)
qed

definition demo_gui :: gui where
  "demo_gui = \<lparr>gmem = \<lambda>_. 0, gheap = \<lparr>spaces = Map.empty, colors = Map.empty, contexts = Map.empty\<rparr>,
    gdisp = Some (ws_fresh 7)\<rparr>"

definition demo_content :: CGRect where
  "demo_content = \<lparr>origin = \<lparr>px = 0, py = 0\<rparr>, rsize = \<lparr>width = f64_of_int (int 4), height = f64_of_int (int 3)\<rparr>\<rparr>"

theorem window_shows_drawing_witness:
  "\<exists>g2 (c :: CGContextInner). win_run 0x5000 0x1000 [Draw (Fill demo_content), Title (Some [0x41]), Order_front]
      (fst (snd (ns_window_init True 0x1000 33 44 0x5000 demo_content 15 demo_gui))) = Some g2
    \<and> length (pixels c) = 48
    \<and> ns_window_display True 0x9000 True 0x5000 g2 = Some [PutImage 33 44 (pixels c) 4 3, Flush]"
proof -
  obtain self' g1 reqs where init: "ns_window_init True 0x1000 33 44 0x5000 demo_content 15 demo_gui = (self', g1, reqs)"
    by (cases "ns_window_init True 0x1000 33 44 0x5000 demo_content 15 demo_gui")
  have sz: "f64_to_usize (width (rsize demo_content)) = of_nat 4" "f64_to_usize (height (rsize demo_content)) = of_nat 3"
    unfolding demo_content_def by (simp_all only: CGRect.simps CGSize.simps) (rule usize_whole; simp)+
  have "gdisp demo_gui = Some (ws_fresh 7)" by (simp add: demo_gui_def)
  from window_shows_drawing [OF init this _ _ sz, where data = "0x9000" and ops = "[Draw (Fill demo_content), Title (Some [0x41]), Order_front]"]
  obtain g2 and c :: CGContextInner where "win_run 0x5000 0x1000 [Draw (Fill demo_content), Title (Some [0x41]), Order_front] g1 = Some g2"
      "length (pixels c) = 48" "ns_window_display True 0x9000 True 0x5000 g2 = Some [PutImage 33 44 (pixels c) 4 3, Flush]"
    by auto
  then show ?thesis by (intro exI [of _ g2] exI [of _ c]) (simp add: init del: win_run.simps)
qed

end
