(* ===== verification/Application.thy ===== *)
theory Application
  imports Windows CFRunLoop CrashRecovery SwiftPatches
begin

text \<open>
  \<open>crates/grafted-frameworks/src/appkit/application.rs\<close>: the application object and its event
  loop on top of the window server and the run loop, the window SwiftUI asks for, the search for
  the program's body getter, and the call of \<open>applicationDidFinishLaunching:\<close> with the host's
  Swift runtime patched. The statics of the file are an \<open>app_state\<close>, kept by the run loop's
  world as its application; guest code, the Objective-C calls and blocks of memory are
  parameters. \<open>None\<close> is a read beyond a bitmap or a run loop that is not there.
\<close>

record app_state =
  APP_RUNNING :: bool
  APP_TERMINATED :: bool
  SHARED_APP :: ptr
  cg :: cg_heap
  DISPLAY :: "DisplayState option"
  MAIN_WINDOW_ID :: u32
  MAIN_WINDOW_CTX :: ptr
  SWIFT_CONFORMANCE_ADDR :: u64
  APP_DELEGATE_PTR :: ptr
  APP_DELEGATE_CLS :: ptr
  VIEW_TREE :: "(u8 list \<times> u8 list) list"
  sent :: "x11_request list"

text \<open>
  libX11 (there or not), the atom it interns when a display can be opened, the events queued at
  each poll, and what \<open>malloc\<close> and \<open>XCreateImage\<close> give when a bitmap is copied.
\<close>

record x_env =
  x11 :: bool
  wm_delete_atom :: "u64 option"
  queued :: "nat \<Rightarrow> u8 list list"
  image_block :: ptr
  image_made :: bool

section \<open>Windows\<close>

definition flush :: "x_env \<Rightarrow> u32 \<Rightarrow> ptr \<Rightarrow> app_state \<Rightarrow> app_state option" where
  "flush A i ctx st =
     (case (if x11 A then DISPLAY st else None) of
        None \<Rightarrow> Some st
      | Some ds \<Rightarrow> map_option (\<lambda>(_, reqs). st\<lparr>sent := sent st @ reqs\<rparr>)
          (flush_window (image_block A) (image_made A) i ctx (cg st) ds))"

definition open_display :: "x_env \<Rightarrow> app_state \<Rightarrow> app_state" where
  "open_display A st = st\<lparr>DISPLAY := snd (init_display (x11 A) (wm_delete_atom A) (DISPLAY st))\<rparr>"

definition ns_application_shared :: "x_env \<Rightarrow> ptr \<Rightarrow> app_state \<Rightarrow> ptr \<times> app_state" where
  "ns_application_shared A obj st =
     (if SHARED_APP st \<noteq> 0 then (SHARED_APP st, st)
      else (obj, open_display A (st\<lparr>SHARED_APP := obj\<rparr>)))"

definition grafted_swiftui_create_window ::
    "x_env \<Rightarrow> x11_window \<Rightarrow> ptr \<Rightarrow> ptr \<Rightarrow> u8 list option \<Rightarrow> i32 \<Rightarrow> i32 \<Rightarrow> app_state \<Rightarrow> (i32 \<times> app_state) option" where
  "grafted_swiftui_create_window A xwin gc ctx title w hgt st =
     (let title_str = (case title of None \<Rightarrow> ''App'' | Some bs \<Rightarrow> text_of_bytes (utf8_lossy bs));
          st = open_display A st
      in case (if x11 A then DISPLAY st else None) of
        None \<Rightarrow> Some (- 1, st)
      | Some ds \<Rightarrow>
          (case create_window xwin gc 100 100 w hgt title_str ds of
             (wid, ds, reqs) \<Rightarrow>
               let (ctx, h) = CGBitmapContextCreate ctx None (scast w) (scast hgt) 8 (scast w * 4) (cg st);
                   (_, ds', shown) = (if ctx \<noteq> 0 then show_window wid ds else (False, ds, []));
                   st = st\<lparr>cg := h, DISPLAY := Some ds', sent := sent st @ reqs @ shown\<rparr>
               in map_option (\<lambda>st. (wid, st\<lparr>MAIN_WINDOW_ID := wid, MAIN_WINDOW_CTX := ctx\<rparr>))
                    (if ctx \<noteq> 0 then flush A wid ctx st else Some st)))"

definition grafted_swiftui_save_conformance :: "u64 \<Rightarrow> app_state \<Rightarrow> app_state" where
  "grafted_swiftui_save_conformance metadata st = st\<lparr>SWIFT_CONFORMANCE_ADDR := metadata\<rparr>"

definition grafted_swiftui_log_view :: "u8 list option \<Rightarrow> u8 list option \<Rightarrow> app_state \<Rightarrow> app_state" where
  "grafted_swiftui_log_view vtype detail st =
     st\<lparr>VIEW_TREE := VIEW_TREE st @
          [(case vtype of None \<Rightarrow> bytes_of_text ''?'' | Some bs \<Rightarrow> utf8_lossy bs,
            case detail of None \<Rightarrow> [] | Some bs \<Rightarrow> utf8_lossy bs)]\<rparr>"

text \<open>\<open>closure\<close>: what the program's code does, given its address, the zeroed block and the context.\<close>

definition grafted_call_content_closure ::
    "(u64 \<Rightarrow> ptr \<Rightarrow> u64 \<Rightarrow> app_state \<times> mem \<Rightarrow> app_state \<times> mem) \<Rightarrow> ptr \<Rightarrow> u64 \<Rightarrow> u64 \<Rightarrow> app_state \<times> mem
      \<Rightarrow> i32 \<times> app_state \<times> mem" where
  "grafted_call_content_closure closure ret_buf fn_ptr context s =
     (if fn_ptr < 0x1000 then (0, s)
      else case s of (st, m) \<Rightarrow>
        (1, closure fn_ptr ret_buf context (st\<lparr>VIEW_TREE := []\<rparr>, store_bytes m ret_buf (replicate 4096 0))))"

section \<open>The event loop\<close>

fun handle_event :: "x_env \<Rightarrow> DisplayEvent \<Rightarrow> app_state \<Rightarrow> app_state option" where
  "handle_event A (WindowClose i) st = Some (st\<lparr>APP_TERMINATED := True\<rparr>)"
| "handle_event A (Expose i) st = (if MAIN_WINDOW_CTX st \<noteq> 0 then flush A i (MAIN_WINDOW_CTX st) st else Some st)"
| "handle_event A (KeyDown i keycode) st = Some (if keycode = 9 then st\<lparr>APP_TERMINATED := True\<rparr> else st)"
| "handle_event A ev st = Some st"

fun handle_events :: "x_env \<Rightarrow> DisplayEvent list \<Rightarrow> app_state \<Rightarrow> app_state option" where
  "handle_events A [] st = Some st"
| "handle_events A (ev # evs) st = Option.bind (handle_event A ev st) (handle_events A evs)"

definition polled :: "x_env \<Rightarrow> nat \<Rightarrow> app_state \<Rightarrow> DisplayEvent list" where
  "polled A k st = poll_events (if x11 A then DISPLAY st else None) (queued A k)"

text \<open>One round: the events of the k-th poll, then the run loop for 0.016 seconds.\<close>

definition app_round :: "app_state rl_env \<Rightarrow> x_env \<Rightarrow> nat \<Rightarrow> app_state world \<Rightarrow> app_state world option" where
  "app_round E A k w =
     Option.bind (handle_events A (polled A k (app w)) (app w)) (\<lambda>st.
       map_option snd (CFRunLoopRunInMode E (static_ptr E kCFRunLoopDefaultMode) 0x3F90624DD2F1A9FC 0 (w\<lparr>app := st\<rparr>)))"

partial_function (option) app_loop :: "app_state rl_env \<Rightarrow> x_env \<Rightarrow> nat \<Rightarrow> app_state world \<Rightarrow> app_state world option" where
  "app_loop E A k w =
     (if APP_TERMINATED (app w) then Some w
      else Option.bind (app_round E A k w) (app_loop E A (k + 1)))"

definition ns_application_run :: "app_state rl_env \<Rightarrow> x_env \<Rightarrow> app_state world \<Rightarrow> app_state world option" where
  "ns_application_run E A w =
     map_option (\<lambda>w. w\<lparr>app := (app w)\<lparr>APP_RUNNING := False\<rparr>\<rparr>)
       (app_loop E A 0 (w\<lparr>app := (app w)\<lparr>APP_RUNNING := True\<rparr>\<rparr>))"

definition ns_application_terminate :: "app_state \<Rightarrow> app_state" where
  "ns_application_terminate st = st\<lparr>APP_TERMINATED := True\<rparr>"

definition ns_application_is_running :: "app_state \<Rightarrow> bool" where
  "ns_application_is_running st = APP_RUNNING st"

definition ns_application_activate :: "app_state \<Rightarrow> app_state" where
  "ns_application_activate st = st"

definition ns_application_set_activation_policy :: "i64 \<Rightarrow> bool" where
  "ns_application_set_activation_policy policy = True"

section \<open>The body getter\<close>

definition rel32 :: "mem \<Rightarrow> u64 \<Rightarrow> u64" where
  "rel32 m a = a + scast (load32 m a)"

text \<open>The section of protocol conformances: 378 entries, each relative to itself.\<close>

definition conformance_at :: "mem \<Rightarrow> nat \<Rightarrow> u64" where
  "conformance_at m i = rel32 m (0x1001268e0 + of_nat i * 4)"

definition find_conformance :: "mem \<Rightarrow> u64 \<Rightarrow> u64 option" where
  "find_conformance m type_desc =
     (case find (\<lambda>i. rel32 m (conformance_at m i + 4) = type_desc) [0..<378] of
        None \<Rightarrow> None
      | Some i \<Rightarrow> if conformance_at m i = 0 then None else Some (conformance_at m i))"

definition conformance_of :: "mem \<Rightarrow> u64 \<Rightarrow> u64 option" where
  "conformance_of m search_addr =
     (if search_addr \<ge> 0x100100000 \<and> search_addr < 0x100140000 then Some search_addr
      else let kind = load64 m search_addr;
               type_desc = (if kind = 0x200 then load64 m (search_addr + 8) else load64 m (search_addr + 40))
           in if type_desc < 0x100000000 \<or> type_desc > 0x100200000 then None
              else find_conformance m type_desc)"

definition starts_function :: "mem \<Rightarrow> u64 \<Rightarrow> bool" where
  "starts_function m a \<longleftrightarrow>
     0x100001000 \<le> a \<and> a < 0x100100000 \<and> m a \<in> {0x55, 0x53, 0x48, 0x41, 0x50}"

definition find_body_getter :: "mem \<Rightarrow> u64 \<Rightarrow> u64 option" where
  "find_body_getter m search_addr =
     (if search_addr < 0x1000 then None
      else case conformance_of m search_addr of
        None \<Rightarrow> None
      | Some conf \<Rightarrow>
          (let wt_base = rel32 m (conf + 8)
           in map_option (\<lambda>i. rel32 m (wt_base + of_nat i * 4))
                (find (\<lambda>i. starts_function m (rel32 m (wt_base + of_nat i * 4))) [0..<60])))"

definition grafted_swiftui_call_body ::
    "(u64 \<Rightarrow> ptr \<Rightarrow> app_state \<times> mem \<Rightarrow> app_state \<times> mem) \<Rightarrow> ptr \<Rightarrow> app_state \<times> mem \<Rightarrow> i32 \<times> app_state \<times> mem" where
  "grafted_swiftui_call_body getter instance s =
     (case s of (st, m) \<Rightarrow>
        if SWIFT_CONFORMANCE_ADDR st = 0 then (0, s)
        else case find_body_getter m (SWIFT_CONFORMANCE_ADDR st) of
          None \<Rightarrow> (0, s)
        | Some body_fn \<Rightarrow> (1, getter body_fn instance (st, store_bytes m instance (replicate 512 0))))"

section \<open>Starting a program\<close>

text \<open>
  The delegate: \<open>get_class\<close> is \<open>objc_getClass\<close>, \<open>send\<close> the effect of \<open>objc_msgSend\<close> with one selector,
  \<open>fake\<close> the block used when the class is not there. Its properties become empty strings.
\<close>

definition fill_properties :: "ptr \<Rightarrow> mem \<Rightarrow> mem" where
  "fill_properties app_del m =
     fold (\<lambda>i m. store64 (store64 m (app_del + of_nat (8 * (2 * i))) 0) (app_del + of_nat (8 * (2 * i + 1))) 0xE000000000000000)
       [1..<32] m"

definition delegate_class :: "(string \<Rightarrow> ptr) \<Rightarrow> ptr" where
  "delegate_class get_class =
     (if get_class ''_TtC5Maccy11AppDelegate'' \<noteq> 0 then get_class ''_TtC5Maccy11AppDelegate''
      else get_class ''Maccy.AppDelegate'')"

definition make_delegate ::
    "(string \<Rightarrow> ptr) \<Rightarrow> (ptr \<Rightarrow> string \<Rightarrow> mem \<Rightarrow> ptr \<times> mem) \<Rightarrow> ptr \<Rightarrow> app_state \<times> mem \<Rightarrow> ptr \<times> app_state \<times> mem" where
  "make_delegate get_class send fake s =
     (case s of (st, m) \<Rightarrow>
        let cls = delegate_class get_class
        in if cls = 0
           then (fake, st, store64 (store64 (store_bytes m fake (replicate 64 0)) fake 1) (fake + 8) 0x100000000)
           else let (d, m) = send cls ''alloc'' m;
                    (d, m) = (if d = 0 then (0, m)
                              else case send d ''init'' m of (d, m) \<Rightarrow> (d, fill_properties d m))
                in (d, st\<lparr>APP_DELEGATE_PTR := d, APP_DELEGATE_CLS := cls\<rparr>, m))"

text \<open>The second field of the app is set to true, at the offset its metadata names.\<close>

definition init_fields :: "u64 \<Rightarrow> ptr \<Rightarrow> mem \<Rightarrow> mem" where
  "init_fields meta instance m =
     (let desc_addr = load64 m (meta + 8);
          num_fields = load32 m (desc_addr + 20);
          fov_offset = load32 m (desc_addr + 24)
      in if fov_offset > 0 \<and> fov_offset < 100 \<and> num_fields > 0
         then let fov_base = meta + ucast fov_offset * 8;
                  m = (if load32 m fov_base = 0 \<and> num_fields \<ge> 2
                       then store32 (store32 m fov_base 0) (fov_base + 4) 8 else m);
                  f1_off = load32 m (fov_base + 4)
              in if f1_off > 0 \<and> f1_off < 256 then m(instance + ucast f1_off := 1) else m
         else m(instance + 8 := 1))"

text \<open>The instance handed to the body getter at \<open>body_fn\<close>, with the application's metadata.\<close>

definition prepare_instance ::
    "(string \<Rightarrow> ptr) \<Rightarrow> (ptr \<Rightarrow> string \<Rightarrow> mem \<Rightarrow> ptr \<times> mem) \<Rightarrow> ptr \<Rightarrow> ptr \<Rightarrow> u64 \<Rightarrow> app_state \<times> mem \<Rightarrow> app_state \<times> mem" where
  "prepare_instance get_class send fake instance meta s =
     (case s of (st, m) \<Rightarrow>
        (case make_delegate get_class send fake (st, store_bytes m instance (replicate 512 0)) of
           (app_del, st, m) \<Rightarrow> (st, init_fields meta instance (store64 m instance app_del))))"

text \<open>\<open>getter\<close>: the program's body getter, with its address, the instance, the metadata and a
  zeroed block for a witness table.\<close>

definition NSApplicationMain ::
    "app_state rl_env \<Rightarrow> x_env \<Rightarrow> (string \<Rightarrow> ptr) \<Rightarrow> (ptr \<Rightarrow> string \<Rightarrow> mem \<Rightarrow> ptr \<times> mem) \<Rightarrow> ptr \<Rightarrow> ptr \<Rightarrow> ptr \<Rightarrow> ptr
      \<Rightarrow> (u64 \<Rightarrow> u64 list \<Rightarrow> app_state world \<Rightarrow> app_state world) \<Rightarrow> u64 \<Rightarrow> app_state world \<Rightarrow> (i32 \<times> app_state world) option" where
  "NSApplicationMain E A get_class send fake instance fake_wt obj getter arg0 w =
     (let search_addr = (if SWIFT_CONFORMANCE_ADDR (app w) > 0 then SWIFT_CONFORMANCE_ADDR (app w) else arg0);
          w = (if arg0 > 0x1000
               then case find_body_getter (memory w) search_addr of
                   None \<Rightarrow> w
                 | Some body_fn \<Rightarrow>
                     (case prepare_instance get_class send fake instance arg0 (app w, memory w) of
                        (st, m) \<Rightarrow> getter body_fn [instance, arg0, fake_wt]
                          (w\<lparr>app := st, memory := store_bytes m fake_wt (replicate 256 0)\<rparr>))
               else w)
      in map_option (\<lambda>w. (0, w)) (ns_application_run E A (w\<lparr>app := snd (ns_application_shared A obj (app w))\<rparr>)))"

section \<open>applicationDidFinishLaunching\<close>

text \<open>
  Where the method's code is: an \<open>IMP\<close> outside the program is called as it is and ends the
  function; inside it, the thunk of a Swift method (\<open>lea rcx, [rip + rel]\<close> after four bytes) is
  looked through.
\<close>

datatype did_finish = Call_and_return u64 | Call_objc u64 | Call_swift u64 | No_call

definition did_finish_target :: "mem \<Rightarrow> u64 \<Rightarrow> did_finish" where
  "did_finish_target m imp =
     (if imp < 0x100000000 \<or> imp > 0x200000000 then Call_and_return imp
      else if m (imp + 4) = 0x48 \<and> m (imp + 5) = 0x8d \<and> m (imp + 6) = 0x0d
           then (let real_impl = imp + 11 + scast (load32 m (imp + 7))
                 in if real_impl \<ge> 0x100000000 \<and> real_impl < 0x100200000 then Call_swift real_impl else No_call)
           else Call_objc imp)"

text \<open>
  The call of the program's code with the host's Swift runtime patched: \<open>func\<close> is the code under
  the loader's crash recovery, its second component \<open>LIFECYCLE_PATCHES_ACTIVE\<close>.
\<close>

definition lifecycle_call ::
    "(ptr \<Rightarrow> bool) \<Rightarrow> (u64 \<Rightarrow> bool) \<Rightarrow> patch_site list \<Rightarrow> bool
      \<Rightarrow> (crash_state \<times> bool \<times> 'app world \<Rightarrow> (crash_state \<times> bool \<times> 'app world) call_end)
      \<Rightarrow> crash_state \<times> 'app world \<Rightarrow> bool \<times> crash_state \<times> bool \<times> 'app world" where
  "lifecycle_call writable mp sites legacy func s =
     (case s of (cs, w) \<Rightarrow>
        case grafted_try_call func
            (grafted_set_lifecycle_skip_mode legacy cs, True,
             w\<lparr>memory := apply_lifecycle_patches writable sites (memory w)\<rparr>) of
          (ok, cs, active, w) \<Rightarrow>
            let (cs, w) = (if ok then (cs, w)
                           else case grafted_nop_saved_crash_sites mp (cs, memory w) of
                             (_, cs, m) \<Rightarrow> (cs, w\<lparr>memory := m\<rparr>))
            in (ok, grafted_set_lifecycle_skip_mode False cs, False,
                w\<lparr>memory := restore_lifecycle_patches sites (memory w)\<rparr>))"

text \<open>
  \<open>notify\<close>: making the notification object, \<open>lookup\<close>: what the lookup of the method finds then;
  \<open>objc\<close> and \<open>code\<close>: the program's method, called through its \<open>IMP\<close> and as a Swift function.
\<close>

definition grafted_swiftui_run_loop ::
    "app_state rl_env \<Rightarrow> x_env \<Rightarrow> ptr \<Rightarrow> (ptr \<Rightarrow> bool) \<Rightarrow> (u64 \<Rightarrow> bool) \<Rightarrow> patch_site list \<Rightarrow> bool
      \<Rightarrow> (app_state world \<Rightarrow> app_state world) \<Rightarrow> (app_state world \<Rightarrow> u64 option)
      \<Rightarrow> (u64 \<Rightarrow> app_state world \<Rightarrow> app_state world)
      \<Rightarrow> (u64 \<Rightarrow> crash_state \<times> bool \<times> app_state world \<Rightarrow> (crash_state \<times> bool \<times> app_state world) call_end)
      \<Rightarrow> crash_state \<times> app_state world \<Rightarrow> (crash_state \<times> app_state world) option" where
  "grafted_swiftui_run_loop E A obj writable mp sites legacy notify lookup objc code s =
     (case s of (cs, w) \<Rightarrow>
        Option.bind
          (if MAIN_WINDOW_ID (app w) \<noteq> 0 \<and> MAIN_WINDOW_CTX (app w) \<noteq> 0
           then flush A (MAIN_WINDOW_ID (app w)) (MAIN_WINDOW_CTX (app w)) (app w) else Some (app w)) (\<lambda>st.
          let w = w\<lparr>app := st\<rparr>;
              there = (APP_DELEGATE_PTR st \<noteq> 0 \<and> APP_DELEGATE_CLS st \<noteq> 0);
              w = (if there then notify w else w);
              target = (case (if there then lookup w else None) of
                          Some i \<Rightarrow> did_finish_target (memory w) i | None \<Rightarrow> No_call);
              run = (\<lambda>(cs, w). map_option (Pair cs)
                       (ns_application_run E A (w\<lparr>app := snd (ns_application_shared A obj (app w))\<rparr>)))
          in case target of
               Call_and_return i \<Rightarrow> Some (cs, objc i w)
             | Call_objc i \<Rightarrow> run (cs, objc i w)
             | Call_swift f \<Rightarrow>
                 (case lifecycle_call writable mp sites legacy (code f) (cs, w) of (ok, cs, active, w) \<Rightarrow> run (cs, w))
             | No_call \<Rightarrow> run (cs, w)))"

section \<open>The loop ends when it is told to\<close>

fun app_rounds :: "app_state rl_env \<Rightarrow> x_env \<Rightarrow> nat \<Rightarrow> nat \<Rightarrow> app_state world \<Rightarrow> app_state world option" where
  "app_rounds E A k 0 w = Some w"
| "app_rounds E A k (Suc n) w = Option.bind (app_round E A k w) (app_rounds E A (k + 1) n)"

text \<open>Closing a window, and the Escape key.\<close>

fun stops :: "DisplayEvent \<Rightarrow> bool" where
  "stops (WindowClose i) = True"
| "stops (KeyDown i keycode) = (keycode = 9)"
| "stops ev = False"

text \<open>Guest code never takes the termination back: the flag is the file's own and only ever set.\<close>

definition keeps_terminated :: "app_state rl_env \<Rightarrow> bool" where
  "keeps_terminated E \<longleftrightarrow>
     (\<forall>c w. APP_TERMINATED (app w) \<longrightarrow> APP_TERMINATED (app (guest E c w)))
     \<and> (\<forall>fd ms w. APP_TERMINATED (app w) \<longrightarrow> APP_TERMINATED (app (epoll_wait E fd ms w)))"

lemma update_loop_app: "update_loop rl f w = Some w' \<Longrightarrow> APP_TERMINATED (app w') = APP_TERMINATED (app w)"
  by (auto simp: update_loop_def)

lemma fire_each_keeps:
  "keeps_terminated E \<Longrightarrow> fire_each E act ps w = Some w' \<Longrightarrow> APP_TERMINATED (app w) \<Longrightarrow> APP_TERMINATED (app w')"
  by (induction ps arbitrary: w) (auto simp: keeps_terminated_def split: option.splits if_splits)

lemma fire_keeps:
  "keeps_terminated E \<Longrightarrow> fire_observers E rl mode act w = Some w' \<Longrightarrow> APP_TERMINATED (app w) \<Longrightarrow> APP_TERMINATED (app w')"
  by (auto simp: fire_observers_def dest: fire_each_keeps split: option.splits)

lemma leave_keeps:
  "keeps_terminated E \<Longrightarrow> leave_mode E rl mode w = Some w' \<Longrightarrow> APP_TERMINATED (app w) \<Longrightarrow> APP_TERMINATED (app w')"
  by (auto simp: leave_mode_def update_loop_app dest!: fire_keeps split: Option.bind_splits)

lemma source_pass_keeps:
  "keeps_terminated E \<Longrightarrow> source_pass E early ps w = Some (b, w') \<Longrightarrow> APP_TERMINATED (app w) \<Longrightarrow> APP_TERMINATED (app w')"
  by (induction ps arbitrary: w) (auto simp: keeps_terminated_def Let_def split: option.splits if_splits)

lemma timer_pass_keeps:
  "keeps_terminated E \<Longrightarrow> timer_pass E now early ps w = Some (b, w') \<Longrightarrow> APP_TERMINATED (app w) \<Longrightarrow> APP_TERMINATED (app w')"
proof (induction ps arbitrary: w)
  case (Cons p ps)
  have g: "APP_TERMINATED (app (guest E c w))" for c
    using Cons.prems(1,3) by (simp add: keeps_terminated_def)
  show ?case
    using Cons.prems Cons.IH [OF Cons.prems(1)] g
    by (auto simp: Let_def split: option.splits if_splits)
qed simp

lemma wait_keeps:
  assumes "keeps_terminated E" and "wait_phase E rl mode seconds w = Some (r, w')" and "APP_TERMINATED (app w)"
  shows "APP_TERMINATED (app w')"
  using assms(2,3) fire_keeps [OF assms(1)] leave_keeps [OF assms(1)] assms(1)
  by (auto simp: wait_phase_def keeps_terminated_def update_loop_app split: Option.bind_splits)

lemma timer_phase_keeps:
  assumes "keeps_terminated E" and "timer_phase E rl mode seconds early w = Some (r, w')" and "APP_TERMINATED (app w)"
  shows "APP_TERMINATED (app w')"
  using assms(2,3) fire_keeps [OF assms(1)] leave_keeps [OF assms(1)] timer_pass_keeps [OF assms(1)] wait_keeps [OF assms(1)]
  by (auto simp: timer_phase_def Let_def split: Option.bind_splits if_splits)

lemma source_phase_keeps:
  assumes "keeps_terminated E" and "source_phase E rl mode seconds early w = Some (r, w')" and "APP_TERMINATED (app w)"
  shows "APP_TERMINATED (app w')"
  using assms(2,3) fire_keeps [OF assms(1)] leave_keeps [OF assms(1)] source_pass_keeps [OF assms(1)]
    timer_phase_keeps [OF assms(1)]
  by (auto simp: source_phase_def Let_def split: Option.bind_splits if_splits)

lemma run_keeps_terminated:
  assumes "keeps_terminated E" and "CFRunLoopRunInMode E mode seconds early w = Some (r, w')" and "APP_TERMINATED (app w)"
  shows "APP_TERMINATED (app w')"
proof -
  obtain rl w1 where cur: "get_or_create_runloop E w = (rl, w1)" by (cases "get_or_create_runloop E w")
  then have t1: "APP_TERMINATED (app w1)"
    using assms(3) by (auto simp: get_or_create_runloop_def Let_def split: if_splits)
  obtain w2 l where w2: "update_loop rl (with_entry (mode_name_from_ptr (memory w1) mode) id) w1 = Some w2" "loops w2 rl = Some l"
    using assms(2) by (auto simp: CFRunLoopRunInMode_def cur Let_def split: Option.bind_splits)
  with t1 have t2: "APP_TERMINATED (app w2)" by (simp add: update_loop_app)
  show ?thesis
  proof (cases "stopped l")
    case True
    then have "map_option (Pair K_CF_RUNLOOP_RUN_STOPPED) (update_loop rl (\<lambda>l. l\<lparr>stopped := False\<rparr>) w2) = Some (r, w')"
      using assms(2) by (simp add: CFRunLoopRunInMode_def cur w2 Let_def)
    with t2 show ?thesis by (auto simp: update_loop_app)
  next
    case False
    then obtain w3 w4 where "update_loop rl (\<lambda>l. l\<lparr>mode_stack := mode_stack l @ [mode_name_from_ptr (memory w1) mode]\<rparr>) w2 = Some w3"
        "fire_observers E rl (mode_name_from_ptr (memory w1) mode) K_CF_RUNLOOP_ENTRY w3 = Some w4"
        "source_phase E rl (mode_name_from_ptr (memory w1) mode) seconds (early \<noteq> 0) w4 = Some (r, w')"
      using assms(2) by (auto simp: CFRunLoopRunInMode_def cur w2 Let_def split: Option.bind_splits)
    with t2 show ?thesis
      using fire_keeps [OF assms(1)] source_phase_keeps [OF assms(1)] by (simp add: update_loop_app)
  qed
qed

lemma flush_terminated: "flush A i ctx st = Some st' \<Longrightarrow> APP_TERMINATED st' = APP_TERMINATED st"
  by (auto simp: flush_def split: option.splits if_splits)

lemma handle_event_terminated:
  "handle_event A ev st = Some st' \<Longrightarrow> APP_TERMINATED st' = (APP_TERMINATED st \<or> stops ev)"
  by (cases ev) (auto dest: flush_terminated split: if_splits)

lemma handle_events_terminated:
  "handle_events A evs st = Some st' \<Longrightarrow> APP_TERMINATED st' = (APP_TERMINATED st \<or> (\<exists>ev \<in> set evs. stops ev))"
proof (induction evs arbitrary: st)
  case (Cons ev evs)
  then show ?case by (auto dest!: handle_event_terminated split: Option.bind_splits)
qed simp

lemma round_stops:
  assumes "keeps_terminated E" and "app_round E A k w = Some w'" and "\<exists>ev \<in> set (polled A k (app w)). stops ev"
  shows "APP_TERMINATED (app w')"
proof -
  obtain st r where st: "handle_events A (polled A k (app w)) (app w) = Some st"
    and run: "CFRunLoopRunInMode E (static_ptr E kCFRunLoopDefaultMode) 0x3F90624DD2F1A9FC 0 (w\<lparr>app := st\<rparr>) = Some (r, w')"
    using assms(2) by (auto simp: app_round_def split: Option.bind_splits)
  have "APP_TERMINATED (app (w\<lparr>app := st\<rparr>))" using handle_events_terminated [OF st] assms(3) by simp
  then show ?thesis by (rule run_keeps_terminated [OF assms(1) run])
qed

lemma rounds_Suc: "app_rounds E A k (Suc n) w = Option.bind (app_rounds E A k n w) (app_round E A (k + n))"
proof (induction n arbitrary: k w)
  case 0
  then show ?case by (cases "app_round E A k w") simp_all
next
  case (Suc n)
  have "app_rounds E A (k + 1) (Suc n) = (\<lambda>w. Option.bind (app_rounds E A (k + 1) n w) (app_round E A (k + 1 + n)))"
    by (rule ext) (rule Suc)
  then have "app_rounds E A k (Suc (Suc n)) w
      = Option.bind (app_round E A k w) (\<lambda>w. Option.bind (app_rounds E A (k + 1) n w) (app_round E A (k + 1 + n)))"
    by (simp only: app_rounds.simps(2) [of E A k "Suc n"])
  then show ?case by (cases "app_round E A k w") simp_all
qed

lemma loop_stops:
  "app_rounds E A k n w = Some w' \<Longrightarrow> APP_TERMINATED (app w') \<Longrightarrow>
    \<exists>m \<le> n. \<exists>w1. app_rounds E A k m w = Some w1 \<and> app_loop E A k w = Some w1"
proof (induction n arbitrary: k w)
  case 0
  then show ?case by (intro exI [of _ 0]) (simp add: app_loop.simps)
next
  case (Suc n)
  show ?case
  proof (cases "APP_TERMINATED (app w)")
    case True
    then show ?thesis by (intro exI [of _ 0]) (simp add: app_loop.simps)
  next
    case False
    obtain w1 where w1: "app_round E A k w = Some w1" "app_rounds E A (k + 1) n w1 = Some w'"
      using Suc.prems(1) by (auto split: Option.bind_splits)
    obtain m w2 where "m \<le> n" "app_rounds E A (k + 1) m w1 = Some w2" "app_loop E A (k + 1) w1 = Some w2"
      using Suc.IH [OF w1(2) Suc.prems(2)] by blast
    moreover have "app_loop E A k w = app_loop E A (k + 1) w1" using False w1(1) by (subst app_loop.simps) simp
    ultimately show ?thesis using w1(1) by (intro exI [of _ "Suc m"]) simp
  qed
qed

lemma loop_terminated:
  assumes "app_loop E A k w = Some w'"
  shows "APP_TERMINATED (app w')"
proof (rule app_loop.raw_induct [where P = "\<lambda>E A k w w'. APP_TERMINATED (app w')", OF _ assms])
  fix loop E A k w w'
  assume ih: "\<And>E A k w w'. loop E A k w = Some w' \<Longrightarrow> APP_TERMINATED (app w')"
    and run: "(if APP_TERMINATED (app w) then Some w else Option.bind (app_round E A k w) (loop E A (k + 1))) = Some w'"
  show "APP_TERMINATED (app w')"
  proof (cases "APP_TERMINATED (app w)")
    case True
    with run show ?thesis by simp
  next
    case False
    with run obtain w1 where "loop E A (k + 1) w1 = Some w'" by (cases "app_round E A k w") auto
    then show ?thesis by (rule ih)
  qed
qed


text \<open>An idle program whose window gets the Escape key.\<close>

definition quiet_env :: "app_state rl_env" where
  "quiet_env = \<lparr>guest = \<lambda>c w. w, box_new = \<lambda>w. 0x1000, clock_gettime = \<lambda>w. (0, 0),
     epoll_create1 = \<lambda>w. 3, epoll_wait = \<lambda>fd t w. w, static_ptr = \<lambda>n. 0\<rparr>"

definition escape_env :: x_env where
  "escape_env = \<lparr>x11 = True, wm_delete_atom = Some 9, queued = \<lambda>k. [x_bytes (XKey 70 True 9)],
     image_block = 0x9000, image_made = True\<rparr>"

definition open_window :: DisplayState where
  "open_window = fst (snd (create_window 70 71 0 0 4 4 ''a'' (ws_fresh 9)))"

definition quiet_world :: "app_state world" where
  "quiet_world = \<lparr>app = \<lparr>APP_RUNNING = False, APP_TERMINATED = False, SHARED_APP = 0,
       cg = \<lparr>spaces = Map.empty, colors = Map.empty, contexts = Map.empty\<rparr>, DISPLAY = Some open_window,
       MAIN_WINDOW_ID = 0, MAIN_WINDOW_CTX = 0, SWIFT_CONFORMANCE_ADDR = 0, APP_DELEGATE_PTR = 0,
       APP_DELEGATE_CLS = 0, VIEW_TREE = [], sent = []\<rparr>,
     memory = \<lambda>_. 0, current = 0x1000, loops = [0x1000 \<mapsto> (new_runloop 3)\<lparr>stopped := True\<rparr>],
     srcs = Map.empty, tmrs = Map.empty, obss = Map.empty\<rparr>"


section \<open>What is called is the program's code\<close>

lemma find_first: "find P [0..<n] = Some i \<Longrightarrow> i < n \<and> P i"
  by (auto simp: find_Some_iff)

text \<open>
  The body getter is found inside the program. What \<open>find_body_getter\<close> answers is an address
  of the program's code where a function begins, named relative to itself by one of the first
  sixty entries of the witness table of a conformance, and no earlier entry names one; the
  conformance is the address itself, when that lies among the program's constants, or the
  first in the program's conformance section whose type is the descriptor that the metadata at
  the address names.
\<close>

theorem body_getter_valid:
  assumes "find_body_getter m a = Some f"
  shows "starts_function m f
    \<and> (\<exists>conf. \<exists>i < 60. f = rel32 m (rel32 m (conf + 8) + of_nat i * 4)
        \<and> (\<forall>j < i. \<not> starts_function m (rel32 m (rel32 m (conf + 8) + of_nat j * 4)))
        \<and> (conf = a \<and> a \<in> {0x100100000..<0x100140000}
           \<or> a \<notin> {0x100100000..<0x100140000}
             \<and> (\<exists>k < 378. conf = conformance_at m k \<and> (\<forall>l < k. rel32 m (conformance_at m l + 4) \<noteq> rel32 m (conf + 4))
                  \<and> rel32 m (conf + 4) = load64 m (a + (if load64 m a = 0x200 then 8 else 40)))))"
proof -
  obtain conf where conf: "conformance_of m a = Some conf"
    and f: "map_option (\<lambda>i. rel32 m (rel32 m (conf + 8) + of_nat i * 4))
        (find (\<lambda>i. starts_function m (rel32 m (rel32 m (conf + 8) + of_nat i * 4))) [0..<60]) = Some f"
    using assms by (auto simp: find_body_getter_def Let_def split: if_splits option.splits)
  from f obtain i where i: "find (\<lambda>i. starts_function m (rel32 m (rel32 m (conf + 8) + of_nat i * 4))) [0..<60] = Some i"
      "f = rel32 m (rel32 m (conf + 8) + of_nat i * 4)" by auto
  have c: "conf = a \<and> a \<in> {0x100100000..<0x100140000}
      \<or> a \<notin> {0x100100000..<0x100140000}
        \<and> (\<exists>k < 378. conf = conformance_at m k \<and> (\<forall>l < k. rel32 m (conformance_at m l + 4) \<noteq> rel32 m (conf + 4))
             \<and> rel32 m (conf + 4) = load64 m (a + (if load64 m a = 0x200 then 8 else 40)))"
    using conf
    by (auto simp: conformance_of_def find_conformance_def find_Some_iff Let_def split: if_splits option.splits)
  show ?thesis
    using i c by (intro conjI exI [of _ conf] exI [of _ i]) (auto simp: find_Some_iff)
qed

text \<open>An image of one conformance, whose witness table names one function.\<close>

definition demo_image :: mem where
  "demo_image = (\<lambda>_. 0)(0x100100009 := 0x10, 0x10010000A := 0xF0, 0x10010000B := 0xFF, 0x100001009 := 0x01, 0x100001108 := 0x55)"

lemma demo_image_parts:
  "rel32 demo_image 0x100100008 = 0x100001008" "rel32 demo_image 0x100001008 = 0x100001108"
  by (simp_all add: rel32_def load32_def load_bytes_unfold demo_image_def u32_from_le_def)

theorem body_getter_valid_witness:
  "find_body_getter demo_image 0x100100000 = Some 0x100001108 \<and> starts_function demo_image 0x100001108"
proof -
  have "find (\<lambda>i. starts_function demo_image (rel32 demo_image (0x100001008 + of_nat i * 4))) [0..<60] = Some 0"
    unfolding find_Some_iff
    by (intro exI [of _ 0]) (simp add: demo_image_parts, simp add: starts_function_def demo_image_def)
  then have f: "find_body_getter demo_image 0x100100000 = Some 0x100001108"
    by (simp add: find_body_getter_def conformance_of_def demo_image_parts Let_def del: upt_rec_numeral)
  from f body_getter_valid [OF this] show ?thesis by simp
qed

section \<open>The patched runtime is put back\<close>


text \<open>A host with two of the functions, and start-up code that overwrites memory and crashes.\<close>

definition demo_start :: "crash_state \<times> bool \<times> app_state world \<Rightarrow> (crash_state \<times> bool \<times> app_state world) call_end" where
  "demo_start s = (case s of (cs, active, w) \<Rightarrow> Crashed (cs, active, w\<lparr>memory := \<lambda>_. 7\<rparr>))"

definition start_world :: "app_state world" where
  "start_world = quiet_world\<lparr>memory := \<lambda>_. 0x55\<rparr>"


end
