(* ===== verification/SwiftAbi.thy ===== *)
theory SwiftAbi
  imports CFStrings
begin

text \<open>
  \<open>grafted-frameworks/src/swift_string_abi.rs\<close> and the bridge of \<open>swift_runtime.rs\<close> that uses it: a
  Swift string as the program passes it (two words) becomes one the host's Swift runtime reads.
  Both sides keep up to 15 bytes in the words themselves; a bridged string is a \<open>CFString\<close>
  object. \<open>None\<close> is a pointer that is not a string.
\<close>

record DarwinString =
  dword0 :: u64
  dword1 :: u64

record LinuxString =
  lword0 :: u64
  lword1 :: u64

definition is_small :: "DarwinString \<Rightarrow> bool" where
  "is_small s \<longleftrightarrow> drop_bit 60 (dword1 s) = 0xE"

definition is_bridged :: "DarwinString \<Rightarrow> bool" where
  "is_bridged s \<longleftrightarrow> drop_bit 62 (dword1 s) AND 1 = 1"

text \<open>One of the two packing loops: the bytes with indices from \<open>lo\<close> below \<open>hi\<close>.\<close>

definition pack_word :: "nat \<Rightarrow> nat \<Rightarrow> u8 list \<Rightarrow> nat \<Rightarrow> u64" where
  "pack_word lo hi bytes count =
     fold (\<lambda>i w. if i < count then w OR push_bit ((i - lo) * 8) (ucast (bytes ! i)) else w) [lo..<hi] 0"

definition pack_small :: "u8 list \<Rightarrow> nat \<Rightarrow> LinuxString" where
  "pack_small bytes count =
     \<lparr>lword0 = pack_word 0 8 bytes count,
      lword1 = pack_word 8 15 bytes count OR push_bit 56 (0xE0 OR of_nat count)\<rparr>"

definition to_linux_string :: "cf_heap \<Rightarrow> DarwinString \<Rightarrow> LinuxString option" where
  "to_linux_string h s =
     (if is_small s then
        (let count = unat (drop_bit 56 (dword1 s) AND 0x0F)
         in Some (pack_small (le_bytes64 (dword0 s) @ take 7 (le_bytes64 (dword1 s))) count))
      else if is_bridged s then
        (if dword0 s = 0 then Some (pack_small (replicate 15 0) 0)
         else map_option (\<lambda>bs. let count = min (length bs) 15
                               in pack_small (take count bs @ replicate (15 - count) 0) count)
                (string_of (dword0 s) h))
      else Some \<lparr>lword0 = dword0 s, lword1 = dword1 s\<rparr>)"

text \<open>\<open>real\<close>: the initializer compiled for the host, where it was found.\<close>

definition bridge_SwiftUI_LocalizedStringKey_init ::
    "cf_heap \<Rightarrow> (u64 \<Rightarrow> u64 \<Rightarrow> LinuxString) option \<Rightarrow> u64 \<Rightarrow> u64 \<Rightarrow> u64 \<Rightarrow> mem \<Rightarrow> (128 word \<times> mem) option" where
  "bridge_SwiftUI_LocalizedStringKey_init h real rdi rsi rdx m =
     (let (ds, result_ptr) =
        (if drop_bit 60 rsi = 0xE \<or> (drop_bit 62 rsi AND 1 = 1 \<and> rdi > 0x1000)
         then (\<lparr>dword0 = rdi, dword1 = rsi\<rparr>, None)
         else if drop_bit 60 rdx = 0xE \<or> (drop_bit 62 rdx AND 1 = 1 \<and> rsi > 0x1000)
         then (\<lparr>dword0 = rsi, dword1 = rdx\<rparr>, Some rdi)
         else (\<lparr>dword0 = rdi, dword1 = rsi\<rparr>, None))
      in map_option (\<lambda>ls.
           case real of
             None \<Rightarrow> (ucast rdi, m)
           | Some f \<Rightarrow>
               let res = f (lword0 ls) (lword1 ls)
               in case result_ptr of
                    Some p \<Rightarrow> (ucast p, store64 (store64 m p (lword0 res)) (p + 8) (lword1 res))
                  | None \<Rightarrow> (ucast (lword0 res) OR push_bit 64 (ucast (lword1 res)), m))
           (to_linux_string h ds))"

section \<open>Reading a small string\<close>

text \<open>
  What a Swift runtime reads in two words whose discriminator is E: the low four bits of the top
  byte count the bytes. \<open>small_string\<close> is the encoder this decodes: unused bytes are zero.
\<close>

definition small_text :: "u64 \<Rightarrow> u64 \<Rightarrow> u8 list" where
  "small_text w0 w1 = take (unat (drop_bit 56 w1 AND 0x0F)) (le_bytes64 w0 @ take 7 (le_bytes64 w1))"

definition pad :: "nat \<Rightarrow> u8 list \<Rightarrow> u8 list" where
  "pad n bs = take n bs @ replicate (n - length bs) 0"

definition small_string :: "u8 list \<Rightarrow> LinuxString" where
  "small_string bs =
     \<lparr>lword0 = u64_from_le (pad 8 bs), lword1 = u64_from_le (pad 7 (drop 8 bs) @ [0xE0 OR of_nat (length bs)])\<rparr>"

text \<open>What the program meant, on either side of the string's representation.\<close>

definition darwin_text :: "cf_heap \<Rightarrow> DarwinString \<Rightarrow> u8 list option" where
  "darwin_text h s =
     (if is_small s then Some (small_text (dword0 s) (dword1 s))
      else if \<not> is_bridged s then None
      else if dword0 s = 0 then Some []
      else string_of (dword0 s) h)"

lemma length_pad [simp]: "length (pad n bs) = n"
  by (simp add: pad_def)

lemma nth_pad: "i < n \<Longrightarrow> pad n bs ! i = (if i < length bs then bs ! i else 0)"
  by (simp add: pad_def nth_append)

lemma byte_gap:
  assumes "k \<noteq> n div 8" and "\<not> n < k * 8"
  shows "8 \<le> n - k * (8::nat)"
proof -
  have "k \<le> n div 8" using assms(2) by (simp add: less_eq_div_iff_mult_less_eq)
  then have "k + 1 \<le> n div 8" using assms(1) by linarith
  then have "(k + 1) * 8 \<le> n" by (simp only: less_eq_div_iff_mult_less_eq zero_less_numeral)
  then show ?thesis by (simp add: add_mult_distrib)
qed

lemma bit_pack_fold:
  fixes w :: u64
  assumes "n < 64" and "\<forall>i \<in> set is. lo \<le> i"
  shows "bit (fold (\<lambda>i w. if i < count then w OR push_bit ((i - lo) * 8) (ucast (bytes ! i)) else w) is w) n
    \<longleftrightarrow> bit w n \<or> (lo + n div 8 \<in> set is \<and> lo + n div 8 < count \<and> bit (bytes ! (lo + n div 8) :: u8) (n mod 8))"
  using assms(2)
proof (induction "is" arbitrary: w)
  case Nil
  then show ?case by simp
next
  case (Cons i "is")
  have lo: "lo \<le> i" using Cons.prems by simp
  have here: "bit (push_bit ((i - lo) * 8) (ucast (bytes ! i :: u8)) :: u64) n \<longleftrightarrow> i = lo + n div 8 \<and> bit (bytes ! i) (n mod 8)"
  proof (cases "i = lo + n div 8")
    case True
    then have k: "i - lo = n div 8" by simp
    have "n div 8 * 8 \<le> n" by presburger
    moreover have "n - n div 8 * 8 = n mod 8" by presburger
    moreover have "n mod 8 < LENGTH(64)" by (simp add: less_trans [OF mod_less_divisor])
    ultimately show ?thesis
      using True assms(1) unfolding k bit_push_bit_iff bit_ucast_iff possible_bit_def len_of_numeral_defs
      by (simp only: simp_thms) simp
  next
    case False
    then have ne: "i - lo \<noteq> n div 8" using lo by auto
    have "\<not> bit (push_bit ((i - lo) * 8) (ucast (bytes ! i)) :: u64) n"
    proof (cases "n < (i - lo) * 8")
      case True
      then show ?thesis by (simp add: bit_push_bit_iff)
    next
      case above: False
      have "8 \<le> n - (i - lo) * 8" by (rule byte_gap [OF ne above])
      then have "\<not> bit (bytes ! i) (n - (i - lo) * 8)" using bit_imp_le_length [of "bytes ! i"] by fastforce
      then show ?thesis by (simp only: bit_push_bit_iff bit_ucast_iff simp_thms)
    qed
    with False show ?thesis by blast
  qed
  define w' :: u64 where "w' = (if i < count then w OR push_bit ((i - lo) * 8) (ucast (bytes ! i)) else w)"
  have step: "bit w' n \<longleftrightarrow> bit w n \<or> (i < count \<and> i = lo + n div 8 \<and> bit (bytes ! i) (n mod 8))"
    unfolding w'_def by (cases "i < count") (simp_all only: if_True if_False bit_or_iff here simp_thms)
  have rest: "\<forall>i \<in> set is. lo \<le> i" using Cons.prems by simp
  show ?case
    unfolding fold_simps comp_apply w'_def [symmetric] Cons.IH [OF rest, of w'] step list.set insert_iff
    by (cases "i = lo + n div 8") (simp_all only: simp_thms, blast+)
qed

lemma pack_word_bytes:
  assumes "hi \<le> lo + 8"
  shows "pack_word lo hi bytes count = or_bytes (map (\<lambda>i. if i < count then bytes ! i else 0) [lo..<hi])"
proof (rule bit_word_eqI)
  fix n assume "n < LENGTH(64)"
  then have n: "n < 64" by simp
  show "bit (pack_word lo hi bytes count) n
      \<longleftrightarrow> bit (or_bytes (map (\<lambda>i. if i < count then bytes ! i else 0) [lo..<hi]) :: u64) n"
    unfolding pack_word_def using n
    by (subst bit_pack_fold) (auto simp: bit_or_bytes nth_upt less_diff_conv add.commute split: if_splits)
qed

lemma or_bytes_snoc:
  assumes "length bs = 7"
  shows "or_bytes bs OR push_bit 56 (ucast (d :: u8)) = (or_bytes (bs @ [d]) :: u64)"
proof (rule bit_word_eqI)
  fix n assume "n < LENGTH(64)"
  then have n: "n < 64" by simp
  show "bit (or_bytes bs OR push_bit 56 (ucast d) :: u64) n \<longleftrightarrow> bit (or_bytes (bs @ [d]) :: u64) n"
  proof (cases "n < 56")
    case True
    then have "n div 8 < 7" by simp
    then show ?thesis using True assms n by (simp add: bit_simps bit_or_bytes nth_append)
  next
    case False
    then have "n div 8 = 7" "n mod 8 = n - 56" "n - 56 < 64" using n by presburger+
    then show ?thesis using False assms n by (simp add: bit_simps bit_or_bytes nth_append)
  qed
qed

text \<open>The discriminator and the count share the top byte.\<close>

lemma top_byte:
  assumes "n \<le> 15"
  shows "drop_bit 4 (0xE0 OR of_nat n :: u64) = 0xE" and "unat ((0xE0 OR of_nat n) AND 0x0F :: u64) = n"
    and "(0xE0 OR of_nat n :: u64) = ucast (0xE0 OR of_nat n :: u8)"
proof -
  have "list_all (\<lambda>n. drop_bit 4 (0xE0 OR of_nat n :: u64) = 0xE \<and> unat ((0xE0 OR of_nat n) AND 0x0F :: u64) = n
      \<and> (0xE0 OR of_nat n :: u64) = ucast (0xE0 OR of_nat n :: u8)) [0..<16]"
    by (simp add: upt_rec)
  moreover have "n \<in> set [0..<16]" using assms by simp
  ultimately have "drop_bit 4 (0xE0 OR of_nat n :: u64) = 0xE \<and> unat ((0xE0 OR of_nat n) AND 0x0F :: u64) = n
      \<and> (0xE0 OR of_nat n :: u64) = ucast (0xE0 OR of_nat n :: u8)"
    unfolding list_all_iff by blast
  then show "drop_bit 4 (0xE0 OR of_nat n :: u64) = 0xE" and "unat ((0xE0 OR of_nat n) AND 0x0F :: u64) = n"
    and "(0xE0 OR of_nat n :: u64) = ucast (0xE0 OR of_nat n :: u8)"
    by blast+
qed

text \<open>Both loops together build the encoder's words.\<close>

lemma pack_small_string:
  assumes "length bytes = 15" and "count \<le> 15"
  shows "pack_small bytes count = small_string (take count bytes)"
proof -
  have pad8: "map (\<lambda>i. if i < count then bytes ! i else 0) [0..<8] = pad 8 (take count bytes)"
    using assms by (intro nth_equalityI) (auto simp: nth_pad simp del: upt_rec_numeral)
  have pad7: "map (\<lambda>i. if i < count then bytes ! i else 0) [8..<15] = pad 7 (drop 8 (take count bytes))"
    using assms by (intro nth_equalityI) (auto simp: nth_pad add.commute simp del: upt_rec_numeral)
  show ?thesis
    unfolding pack_small_def small_string_def
    using assms or_bytes_snoc [of "pad 7 (drop 8 (take count bytes))" "0xE0 OR of_nat count"]
    by (simp add: pack_word_bytes pad8 pad7 top_byte(3) u64_from_le_def min_def del: upt_rec_numeral)
qed

lemma small_count: "unat (drop_bit 56 w1 AND 0x0F :: u64) \<le> 15"
proof -
  have "drop_bit 56 w1 AND 0x0F \<le> (0x0F :: u64)" by (rule word_and_le1)
  then show ?thesis by (simp add: word_le_nat_alt)
qed

lemma le_bytes_of_word: "length bs = 8 \<Longrightarrow> le_bytes64 (u64_from_le bs) = bs"
proof (intro nth_equalityI)
  fix i assume l: "length bs = 8" and "i < length (le_bytes64 (u64_from_le bs))"
  then have i: "i < 8" by simp
  show "le_bytes64 (u64_from_le bs) ! i = bs ! i"
  proof (rule bit_word_eqI)
    fix n assume "n < LENGTH(8)"
    then have n: "n < 8" by simp
    then have "(8 * i + n) div 8 = i" "(8 * i + n) mod 8 = n" "8 * i + n < 64" using i by simp_all
    then show "bit (le_bytes64 (u64_from_le bs) ! i) n = bit (bs ! i) n"
      using i n l by (simp add: le_bytes64_def bit_simps u64_from_le_def bit_or_bytes)
  qed
qed simp

lemma small_top:
  assumes "length bs \<le> 15"
  shows "drop_bit 56 (lword1 (small_string bs)) = 0xE0 OR of_nat (length bs)"
proof -
  let ?low = "or_bytes (pad 7 (drop 8 bs)) :: u64"
  have "drop_bit 56 ?low = 0" proof (rule bit_word_eqI)
    fix n :: nat
    have "\<not> (56 + n) div 8 < 7" by simp
    then show "bit (drop_bit 56 ?low) n = bit (0 :: u64) n" by (simp only: bit_simps bit_or_bytes length_pad comp_apply bit_0_eq bot_apply bot_bool_def simp_thms)
  qed
  moreover have "drop_bit 56 (push_bit 56 (ucast b)) = (ucast b :: u64)" for b :: u8
    by (rule bit_word_eqI) (auto simp: bit_simps dest: bit_imp_le_length)
  ultimately show ?thesis
    using top_byte(3) [OF assms] or_bytes_snoc [of "pad 7 (drop 8 bs)" "0xE0 OR of_nat (length bs)", symmetric]
    by (simp add: small_string_def u64_from_le_def drop_bit_or)
qed

lemma small_of_text:
  assumes "length bs \<le> 15"
  shows "drop_bit 60 (lword1 (small_string bs)) = 0xE"
    and "small_text (lword0 (small_string bs)) (lword1 (small_string bs)) = bs"
proof -
  have "drop_bit 60 (lword1 (small_string bs)) = drop_bit 4 (drop_bit 56 (lword1 (small_string bs)))" by simp
  then show "drop_bit 60 (lword1 (small_string bs)) = 0xE"
    using small_top [OF assms] top_byte(1) [OF assms] by simp
  have bytes: "le_bytes64 (lword0 (small_string bs)) = pad 8 bs" "take 7 (le_bytes64 (lword1 (small_string bs))) = pad 7 (drop 8 bs)"
    by (simp_all add: small_string_def le_bytes_of_word)
  have "take (length bs) (pad 8 bs @ pad 7 (drop 8 bs)) = bs"
    using assms by (auto simp: pad_def min_def)
  then show "small_text (lword0 (small_string bs)) (lword1 (small_string bs)) = bs"
    unfolding small_text_def bytes small_top [OF assms] top_byte(2) [OF assms] .
qed

lemma to_linux_encodes:
  assumes "darwin_text h s = Some bs"
  shows "to_linux_string h s = Some (small_string (take 15 bs))"
proof -
  have empty: "pack_small (replicate 15 0) 0 = small_string []"
    using pack_small_string [of "replicate 15 0" 0] by simp
  have bridged: "pack_small (take n xs @ replicate (15 - n) 0) n = small_string (take 15 xs)"
    if "n = min (length xs) 15" for n and xs :: "u8 list"
    using that pack_small_string [of "take n xs @ replicate (15 - n) 0" n] by (simp add: min_def split: if_splits)
  have small: "pack_small (le_bytes64 w0 @ take 7 (le_bytes64 w1)) (unat (drop_bit 56 w1 AND 0x0F)) = small_string (take 15 (small_text w0 w1))"
    for w0 w1
    using small_count [of w1] by (simp add: pack_small_string small_text_def)
  show ?thesis
    using assms small empty bridged
    by (auto simp: darwin_text_def to_linux_string_def Let_def split: if_splits)
qed



end
