(* ===== verification/SwiftSections.thy ===== *)
theory SwiftSections
  imports MachO
begin

text \<open>
  \<open>grafted-frameworks/src/swift_metadata_translate.rs\<close> and \<open>swift_sections.rs\<close>: the class metadata of
  the mapped program is moved from Darwin's layout to the one the host's Swift runtime expects,
  and the program's Swift sections are handed to that runtime. Memory is bytes at addresses; the
  pages were made writable before each copy.
\<close>

section \<open>Class metadata\<close>

text \<open>Nothing of a class descriptor is rewritten; too low an address is no descriptor.\<close>

definition fix_class_descriptor :: "u64 \<Rightarrow> u32 option" where
  "fix_class_descriptor descriptor_addr = (if descriptor_addr < 0x1000 then None else Some 0)"

text \<open>The copy of 40 bytes, 24 bytes down; source and target overlap.\<close>

definition shift_fields :: "u64 \<Rightarrow> mem \<Rightarrow> mem" where
  "shift_fields a m = store_bytes m (a + 16) (load_bytes m (a + 40) 40)"

definition is_swift_class :: "mem \<Rightarrow> u64 \<Rightarrow> bool" where
  "is_swift_class m cls \<longleftrightarrow>
     cls \<ge> 0x1000
     \<and> load64 m (cls + 64) \<ge> 0x100000000 \<and> load64 m (cls + 64) \<le> 0x200000000
     \<and> load32 m (load64 m (cls + 64)) AND 0x1F = 16"

definition has_swift_meta :: "mem \<Rightarrow> u64 \<Rightarrow> bool" where
  "has_swift_meta m isa \<longleftrightarrow>
     isa > 0x100000000 \<and> isa < 0x200000000
     \<and> load64 m (isa + 64) \<ge> 0x100000000 \<and> load64 m (isa + 64) < 0x200000000"

definition fix_objc_class_prefix :: "u64 \<Rightarrow> mem \<Rightarrow> bool \<times> mem" where
  "fix_objc_class_prefix cls m =
     (if \<not> is_swift_class m cls then (False, m)
      else let m = shift_fields cls m; isa = load64 m cls
           in (True, if has_swift_meta m isa then shift_fields isa m else m))"

text \<open>One entry of \<open>__objc_classlist\<close>, with the count of fixed classes.\<close>

definition fix_entry :: "u64 \<Rightarrow> nat \<Rightarrow> u32 \<times> mem \<Rightarrow> u32 \<times> mem" where
  "fix_entry ptrs i s =
     (case s of (fixed, m) \<Rightarrow>
        let cls_addr = load64 m (ptrs + of_nat i * 8)
        in if cls_addr = 0 then s
           else case fix_objc_class_prefix cls_addr m of (ok, m) \<Rightarrow> (if ok then fixed + 1 else fixed, m))"

text \<open>One section; the entries of \<open>__swift5_types\<close> are counted, and their descriptors left alone.\<close>

definition translate_section :: "u64 \<Rightarrow> goblin_section option \<Rightarrow> u64 \<times> u32 \<times> mem \<Rightarrow> u64 \<times> u32 \<times> mem" where
  "translate_section sl sec s =
     (case (sec, s) of
        (None, _) \<Rightarrow> s
      | (Some sec, (types, fixed, m)) \<Rightarrow>
          if sectname sec = ''__swift5_types'' then (types + sect_size sec div 4, fixed, m)
          else if sectname sec = ''__objc_classlist''
          then (types, fold (fix_entry (sect_addr sec + sl)) [0..<unat (sect_size sec div 8)] (fixed, m))
          else s)"

definition translate_swift_metadata :: "(u8 list \<Rightarrow> string + goblin_macho) \<Rightarrow> u8 list \<Rightarrow> u64 \<Rightarrow> mem \<Rightarrow> mem" where
  "translate_swift_metadata gp binary_data sl m =
     (case gp binary_data of
        Inl e \<Rightarrow> m
      | Inr macho \<Rightarrow> snd (snd (fold (translate_section sl) (concat (gm_segments macho)) (0, 0, m))))"

section \<open>The program's sections\<close>

type_synonym SectionRange = "u64 \<times> u64"

record MetadataSections =
  version :: u64
  base_address :: u64
  swift5_protocols :: SectionRange
  swift5_protocol_conformances :: SectionRange
  swift5_type_metadata :: SectionRange
  swift5_typeref :: SectionRange
  swift5_reflstr :: SectionRange
  swift5_fieldmd :: SectionRange
  swift5_assocty :: SectionRange
  swift5_replace :: SectionRange
  swift5_replac2 :: SectionRange
  swift5_builtin :: SectionRange
  swift5_capture :: SectionRange
  swift5_mpenum :: SectionRange
  swift5_accessible :: SectionRange
  swift5_runtime_attributes :: SectionRange

definition no_sections :: "u64 \<Rightarrow> MetadataSections" where
  "no_sections base =
     \<lparr>version = 0, base_address = base, swift5_protocols = (0, 0), swift5_protocol_conformances = (0, 0),
      swift5_type_metadata = (0, 0), swift5_typeref = (0, 0), swift5_reflstr = (0, 0), swift5_fieldmd = (0, 0),
      swift5_assocty = (0, 0), swift5_replace = (0, 0), swift5_replac2 = (0, 0), swift5_builtin = (0, 0),
      swift5_capture = (0, 0), swift5_mpenum = (0, 0), swift5_accessible = (0, 0), swift5_runtime_attributes = (0, 0)\<rparr>"

text \<open>The field a section of this name fills, if any.\<close>

definition fill_section :: "string \<Rightarrow> SectionRange \<Rightarrow> MetadataSections \<Rightarrow> MetadataSections option" where
  "fill_section nm r s =
     (if nm = ''__swift5_protos'' then Some (s\<lparr>swift5_protocols := r\<rparr>)
      else if nm = ''__swift5_proto'' then Some (s\<lparr>swift5_protocol_conformances := r\<rparr>)
      else if nm = ''__swift5_types'' then Some (s\<lparr>swift5_type_metadata := r\<rparr>)
      else if nm = ''__swift5_typeref'' then Some (s\<lparr>swift5_typeref := r\<rparr>)
      else if nm = ''__swift5_reflstr'' then Some (s\<lparr>swift5_reflstr := r\<rparr>)
      else if nm = ''__swift5_fieldmd'' then Some (s\<lparr>swift5_fieldmd := r\<rparr>)
      else if nm = ''__swift5_assocty'' then Some (s\<lparr>swift5_assocty := r\<rparr>)
      else if nm = ''__swift5_builtin'' then Some (s\<lparr>swift5_builtin := r\<rparr>)
      else if nm = ''__swift5_capture'' then Some (s\<lparr>swift5_capture := r\<rparr>)
      else if nm = ''__swift5_mpenum'' then Some (s\<lparr>swift5_mpenum := r\<rparr>)
      else if nm = ''__swift_as_entry'' then Some (s\<lparr>swift5_accessible := r\<rparr>)
      else None)"

definition add_section :: "u64 \<Rightarrow> goblin_section option \<Rightarrow> nat \<times> MetadataSections \<Rightarrow> nat \<times> MetadataSections" where
  "add_section sl sec s =
     (case sec of
        None \<Rightarrow> s
      | Some sec \<Rightarrow>
          (case fill_section (sectname sec) (sect_addr sec + sl, sect_size sec) (snd s) of
             None \<Rightarrow> s
           | Some ms \<Rightarrow> (fst s + 1, ms)))"

text \<open>The address of the image: the first \<open>__TEXT\<close> segment, or 0.\<close>

definition text_base :: "goblin_macho \<Rightarrow> u64" where
  "text_base macho =
     (case find (\<lambda>s. seg_name s = ''__TEXT'') [s. Segment64 s \<leftarrow> gm_commands macho] of
        Some s \<Rightarrow> vmaddr s | None \<Rightarrow> 0)"

text \<open>What \<open>swift_addNewDSOImage\<close> is called with, if it is called; \<open>there\<close>: the runtime has it.\<close>

definition register_swift_sections ::
    "bool \<Rightarrow> (u8 list \<Rightarrow> string + goblin_macho) \<Rightarrow> u8 list \<Rightarrow> u64 \<Rightarrow> MetadataSections option" where
  "register_swift_sections there gp binary_data sl =
     (if \<not> there then None
      else case gp binary_data of
        Inl e \<Rightarrow> None
      | Inr macho \<Rightarrow>
          (case fold (add_section sl) (concat (gm_segments macho)) (0, no_sections (text_base macho + sl)) of
             (found, s) \<Rightarrow> if found = 0 then None else Some s))"

section \<open>Every class is moved, and nothing else\<close>

text \<open>The classes the lists name, in the memory \<open>m\<close>.\<close>

definition list_classes :: "mem \<Rightarrow> u64 \<Rightarrow> goblin_section option \<Rightarrow> u64 list" where
  "list_classes m sl sec =
     (case sec of
        None \<Rightarrow> []
      | Some sec \<Rightarrow>
          if sectname sec = ''__objc_classlist''
          then map (\<lambda>i. load64 m (sect_addr sec + sl + of_nat i * 8)) [0..<unat (sect_size sec div 8)]
          else [])"

text \<open>A class that is moved, with its metaclass where that is moved too.\<close>

definition moved_with :: "mem \<Rightarrow> u64 \<Rightarrow> u64 list" where
  "moved_with m cls =
     (if \<not> is_swift_class m cls then []
      else if has_swift_meta m (load64 m cls) then [cls, load64 m cls] else [cls])"

definition moved_records :: "mem \<Rightarrow> u64 \<Rightarrow> goblin_macho \<Rightarrow> u64 list" where
  "moved_records m sl macho =
     concat (map (moved_with m) (concat (map (list_classes m sl) (concat (gm_segments macho)))))"

lemma zero_not_class [simp]: "moved_with m 0 = []"
  by (simp add: moved_with_def is_swift_class_def)

text \<open>Memory the moves of \<open>rs\<close> do not touch.\<close>

definition untouched :: "u64 list \<Rightarrow> u64 \<Rightarrow> nat \<Rightarrow> bool" where
  "untouched rs a n \<longleftrightarrow> (\<forall>r \<in> set rs. apart a n (r + 16) 40)"

definition move_all :: "u64 list \<Rightarrow> mem \<Rightarrow> mem" where
  "move_all rs m = fold shift_fields rs m"

lemma load_move_all: "untouched rs a n \<Longrightarrow> load_bytes (move_all rs m) a n = load_bytes m a n"
proof (induction rs arbitrary: m)
  case Nil
  then show ?case by (simp add: move_all_def)
next
  case (Cons r rs)
  then have "load_bytes (move_all rs (shift_fields r m)) a n = load_bytes (shift_fields r m) a n"
    by (simp add: untouched_def)
  also have "\<dots> = load_bytes m a n"
    using Cons.prems by (simp add: shift_fields_def untouched_def load_store_apart)
  finally show ?case by (simp add: move_all_def)
qed

lemma move_all_append: "move_all (rs @ rs') m = move_all rs' (move_all rs m)"
  by (simp add: move_all_def)

text \<open>What the code reads to decide about a class, out of reach of the moves.\<close>

definition decided :: "mem \<Rightarrow> u64 list \<Rightarrow> u64 \<Rightarrow> bool" where
  "decided m rs c \<longleftrightarrow> untouched rs c 8 \<and> untouched rs (c + 64) 8 \<and> untouched rs (load64 m (c + 64)) 4
     \<and> untouched rs (load64 m c + 64) 8"

lemma untouched_subset: "untouched rs a n \<Longrightarrow> set ds \<subseteq> set rs \<Longrightarrow> untouched ds a n"
  by (auto simp: untouched_def)

lemma decided_subset: "decided m rs c \<Longrightarrow> set ds \<subseteq> set rs \<Longrightarrow> decided m ds c"
  by (auto simp: decided_def intro: untouched_subset)

lemma load64_move_all: "untouched rs a 8 \<Longrightarrow> load64 (move_all rs m) a = load64 m a"
  by (simp add: load64_def load_move_all)

lemma decided_same:
  assumes "decided m rs c"
  shows "load64 (move_all rs m) c = load64 m c" and "is_swift_class (move_all rs m) c = is_swift_class m c"
    and "has_swift_meta (move_all rs m) (load64 m c) = has_swift_meta m (load64 m c)"
proof -
  have d: "load64 (move_all rs m) (c + 64) = load64 m (c + 64)"
    using assms by (simp add: decided_def load64_move_all)
  have "load32 (move_all rs m) (load64 m (c + 64)) = load32 m (load64 m (c + 64))"
    using assms by (simp add: decided_def load32_def load_move_all)
  then show "is_swift_class (move_all rs m) c = is_swift_class m c" by (simp add: is_swift_class_def d)
  show "load64 (move_all rs m) c = load64 m c"
    and "has_swift_meta (move_all rs m) (load64 m c) = has_swift_meta m (load64 m c)"
    using assms by (simp_all add: decided_def load64_move_all has_swift_meta_def)
qed

lemma move_all_simps: "move_all [] m = m" "move_all (r # rs) m = move_all rs (shift_fields r m)"
  by (simp_all add: move_all_def)

text \<open>One class, after the moves \<open>ds\<close> of the classes before it.\<close>

lemma fix_prefix_moves:
  assumes "decided m rs c" and "set ds \<union> set (moved_with m c) \<subseteq> set rs"
  shows "snd (fix_objc_class_prefix c (move_all ds m)) = move_all (ds @ moved_with m c) m"
proof (cases "is_swift_class m c")
  case False
  have "decided m ds c" using assms by (auto intro: decided_subset)
  with False show ?thesis by (simp add: fix_objc_class_prefix_def moved_with_def decided_same)
next
  case True
  let ?m = "move_all (ds @ [c]) m"
  have ds: "decided m ds c" using assms by (auto intro: decided_subset)
  have dc: "decided m (ds @ [c]) c"
    by (rule decided_subset [OF assms(1)]) (use assms(2) True in \<open>auto simp: moved_with_def split: if_splits\<close>)
  have sh: "shift_fields c (move_all ds m) = ?m" by (simp add: move_all_append move_all_simps)
  have "snd (fix_objc_class_prefix c (move_all ds m))
      = (if has_swift_meta ?m (load64 ?m c) then shift_fields (load64 ?m c) ?m else ?m)"
    using True by (simp add: fix_objc_class_prefix_def decided_same(2) [OF ds] sh Let_def)
  also have "\<dots> = move_all (ds @ moved_with m c) m"
    unfolding decided_same(1) [OF dc] decided_same(3) [OF dc]
    using True by (simp add: moved_with_def move_all_append move_all_simps)
  finally show ?thesis .
qed

lemma fold_entries_moves:
  assumes "\<forall>i \<in> set is. untouched rs (ptrs + of_nat i * 8) 8 \<and> decided m rs (load64 m (ptrs + of_nat i * 8))"
    and "set ds \<union> set (concat (map (\<lambda>i. moved_with m (load64 m (ptrs + of_nat i * 8))) is)) \<subseteq> set rs"
  shows "snd (fold (fix_entry ptrs) is (n, move_all ds m))
    = move_all (ds @ concat (map (\<lambda>i. moved_with m (load64 m (ptrs + of_nat i * 8))) is)) m"
  using assms
proof (induction "is" arbitrary: n ds)
  case Nil
  then show ?case by simp
next
  case (Cons i "is")
  let ?c = "load64 m (ptrs + of_nat i * 8)"
  have c: "load64 (move_all ds m) (ptrs + of_nat i * 8) = ?c"
    using Cons.prems by (auto intro!: load64_move_all intro: untouched_subset)
  have step: "\<exists>n'. fix_entry ptrs i (n, move_all ds m) = (n', move_all (ds @ moved_with m ?c) m)"
  proof (cases "?c = 0")
    case True
    then show ?thesis by (simp add: fix_entry_def c)
  next
    case False
    have "snd (fix_objc_class_prefix ?c (move_all ds m)) = move_all (ds @ moved_with m ?c) m"
      using Cons.prems by (intro fix_prefix_moves [where rs = rs]) auto
    with False show ?thesis by (cases "fix_objc_class_prefix ?c (move_all ds m)") (simp add: fix_entry_def c)
  qed
  then obtain n' where "fix_entry ptrs i (n, move_all ds m) = (n', move_all (ds @ moved_with m ?c) m)" by blast
  then show ?case
    using Cons.IH [of "ds @ moved_with m ?c" n'] Cons.prems by auto
qed

text \<open>The arrays the class lists are kept in.\<close>

definition lists_untouched :: "u64 \<Rightarrow> goblin_macho \<Rightarrow> u64 list \<Rightarrow> bool" where
  "lists_untouched sl macho rs \<longleftrightarrow>
     (\<forall>sec. Some sec \<in> set (concat (gm_segments macho)) \<and> sectname sec = ''__objc_classlist'' \<longrightarrow>
        (\<forall>i < unat (sect_size sec div 8). untouched rs (sect_addr sec + sl + of_nat i * 8) 8))"

lemma fold_sections_moves:
  assumes "\<forall>sec. Some sec \<in> set secs \<and> sectname sec = ''__objc_classlist'' \<longrightarrow>
        (\<forall>i < unat (sect_size sec div 8). untouched rs (sect_addr sec + sl + of_nat i * 8) 8)"
    and "\<forall>c \<in> set (concat (map (list_classes m sl) secs)). decided m rs c"
    and "set ds \<union> set (concat (map (moved_with m) (concat (map (list_classes m sl) secs)))) \<subseteq> set rs"
  shows "snd (snd (fold (translate_section sl) secs (t, n, move_all ds m)))
    = move_all (ds @ concat (map (moved_with m) (concat (map (list_classes m sl) secs)))) m"
  using assms
proof (induction secs arbitrary: t n ds)
  case Nil
  then show ?case by simp
next
  case (Cons sec secs)
  let ?new = "concat (map (moved_with m) (list_classes m sl sec))"
  have "\<exists>t' n'. translate_section sl sec (t, n, move_all ds m) = (t', n', move_all (ds @ ?new) m)"
  proof (cases sec)
    case None
    then show ?thesis by (simp add: translate_section_def list_classes_def)
  next
    case (Some s)
    show ?thesis
    proof (cases "sectname s = ''__objc_classlist''")
      case True
      have "snd (fold (fix_entry (sect_addr s + sl)) [0..<unat (sect_size s div 8)] (n, move_all ds m))
          = move_all (ds @ concat (map (\<lambda>i. moved_with m (load64 m (sect_addr s + sl + of_nat i * 8))) [0..<unat (sect_size s div 8)])) m"
        by (rule fold_entries_moves [where rs = rs])
          (use Cons.prems Some True in \<open>auto simp: list_classes_def comp_def\<close>)
      then show ?thesis
        using Some True
        by (cases "fold (fix_entry (sect_addr s + sl)) [0..<unat (sect_size s div 8)] (n, move_all ds m)")
          (simp add: translate_section_def list_classes_def comp_def)
    next
      case False
      then show ?thesis using Some by (simp add: translate_section_def list_classes_def)
    qed
  qed
  then obtain t' n' where "translate_section sl sec (t, n, move_all ds m) = (t', n', move_all (ds @ ?new) m)" by blast
  then show ?case
    using Cons.IH [of "ds @ ?new" t' n'] Cons.prems by auto
qed

lemma move_all_outside: "\<forall>r \<in> set rs. \<not> unat (x - (r + 16)) < 40 \<Longrightarrow> move_all rs m x = m x"
  by (induction rs arbitrary: m) (simp_all add: move_all_simps shift_fields_def store_bytes_def)

lemma move_all_content:
  assumes "distinct rs" and "\<forall>r \<in> set rs. \<forall>r' \<in> set rs. r \<noteq> r' \<longrightarrow> apart r 80 r' 80" and "r \<in> set rs"
  shows "load_bytes (move_all rs m) (r + 16) 40 = load_bytes m (r + 40) 40"
  using assms
proof (induction rs arbitrary: m)
  case Nil
  then show ?case by simp
next
  case (Cons q rs)
  have ap: "apart (a + 16) 40 (b + 16) 40" "apart (a + 40) 40 (b + 16) 40" if "apart a 80 b 80" for a b
    using apart_sub2 [OF that, of 16 40 16 40] apart_sub2 [OF that, of 40 40 16 40] by simp_all
  show ?case
  proof (cases "r = q")
    case True
    then have "untouched rs (r + 16) 40" using Cons.prems by (auto simp: untouched_def intro!: ap)
    then show ?thesis using True by (simp add: move_all_simps load_move_all shift_fields_def load_store_same)
  next
    case False
    then have "r \<in> set rs" "apart r 80 q 80" using Cons.prems by auto
    then show ?thesis
      using Cons by (simp add: move_all_simps shift_fields_def load_store_apart ap)
  qed
qed

text \<open>
  C21. The program's class metadata ends up where the host's runtime looks. Let the records
  the class lists name, with their Swift metaclasses, be distinct and not overlap, and let the
  lists and what the code reads to recognise a class lie outside the fields it writes. Then the
  translation moves the forty bytes from offset 40 of every Swift class and metaclass to offset
  16, as they were before, and changes no other byte of memory. A program that does not parse
  is left alone.
\<close>

theorem class_metadata_moved:
  assumes "gp data = Inr macho" and "rs = moved_records m sl macho"
    and "distinct rs" and "\<forall>r \<in> set rs. \<forall>r' \<in> set rs. r \<noteq> r' \<longrightarrow> apart r 80 r' 80"
    and "lists_untouched sl macho rs"
    and "\<forall>c \<in> set (concat (map (list_classes m sl) (concat (gm_segments macho)))). decided m rs c"
  shows "(\<forall>r \<in> set rs. load_bytes (translate_swift_metadata gp data sl m) (r + 16) 40 = load_bytes m (r + 40) 40)
    \<and> (\<forall>x. (\<forall>r \<in> set rs. \<not> unat (x - (r + 16)) < 40) \<longrightarrow> translate_swift_metadata gp data sl m x = m x)
    \<and> (gp other = Inl e \<longrightarrow> translate_swift_metadata gp other sl m = m)"
proof -
  have "translate_swift_metadata gp data sl m = move_all rs m"
    using fold_sections_moves [of "concat (gm_segments macho)" rs sl m "[]" 0 0] assms(1,5,6)
    by (simp add: translate_swift_metadata_def assms(2) moved_records_def lists_untouched_def move_all_simps)
  then show ?thesis
    using move_all_content [OF assms(3,4)] move_all_outside [of rs _ m] by (simp add: translate_swift_metadata_def)
qed

text \<open>One class list with one Swift class, whose first moved byte is 7.\<close>

definition demo_classes :: mem where
  "demo_classes = (\<lambda>_. 0)(0x110000001 := 0x10, 0x110000003 := 0x10, 0x110000004 := 1,
     0x110001028 := 7, 0x110001041 := 0x20, 0x110001043 := 0x10, 0x110001044 := 1, 0x110002000 := 0x10)"

definition demo_list :: goblin_section where
  "demo_list = \<lparr>sectname = ''__objc_classlist'', sect_addr = 0x110000000, sect_size = 8, sect_flags = 0\<rparr>"

definition demo_swift :: goblin_macho where
  "demo_swift = \<lparr>gm_filetype = 2, gm_cputype = CPU_TYPE_X86_64, gm_commands = [], gm_name = None, gm_libs = [],
     gm_rpaths = [], gm_segments = [[Some demo_list]], gm_imports = Inr [], gm_exports = Inr [], gm_symbols = []\<rparr>"

lemma demo_loads:
  "load64 demo_classes 0x110000000 = 0x110001000" "load64 demo_classes 0x110001000 = 0"
  "load64 demo_classes 0x110001040 = 0x110002000" "load32 demo_classes 0x110002000 = 0x10" "load64 demo_classes 0x40 = 0"
  by (simp_all add: load64_def load32_def load_bytes_unfold u64_from_le_def u32_from_le_def demo_classes_def)

theorem class_metadata_moved_witness:
  "moved_records demo_classes 0 demo_swift = [0x110001000]
   \<and> translate_swift_metadata (\<lambda>_. Inr demo_swift) [] 0 demo_classes 0x110001010 = 7"
proof -
  let ?c = "0x110001000"
  have secs: "concat (gm_segments demo_swift) = [Some demo_list]" by (simp add: demo_swift_def)
  have cs: "concat (map (list_classes demo_classes 0) (concat (gm_segments demo_swift))) = [?c]"
    by (simp add: secs list_classes_def demo_list_def demo_loads)
  have rs: "moved_records demo_classes 0 demo_swift = [?c]"
    unfolding moved_records_def cs by (simp add: moved_with_def is_swift_class_def has_swift_meta_def demo_loads)
  have ap: "apart a n 0x110001010 40" if "unat a + n \<le> 0x110001010 \<or> 0x110001038 \<le> unat a \<and> unat a + n \<le> 2 ^ 64" for a n
    using that by (elim disjE) (rule apartI_below(1), simp_all, rule apartI_below(2), simp_all)
  have l: "lists_untouched 0 demo_swift [?c]"
    by (auto simp: lists_untouched_def secs demo_list_def untouched_def intro!: ap)
  have d: "decided demo_classes [?c] ?c"
    by (auto simp: decided_def untouched_def demo_loads intro!: ap)
  have "load_bytes (translate_swift_metadata (\<lambda>_. Inr demo_swift) [] 0 demo_classes) (?c + 16) 40 = load_bytes demo_classes (?c + 40) 40"
    using class_metadata_moved [where gp = "\<lambda>_. Inr demo_swift" and data = "[]" and macho = demo_swift and rs = "[?c]"
        and m = demo_classes and sl = 0, OF refl rs [symmetric] _ _ l] d
    unfolding cs by simp
  then have "load_bytes (translate_swift_metadata (\<lambda>_. Inr demo_swift) [] 0 demo_classes) (?c + 16) 40 ! 0 = load_bytes demo_classes (?c + 40) 40 ! 0"
    by (rule arg_cong)
  then show ?thesis using rs by (simp add: load_bytes_def demo_classes_def)
qed

end
