(* ===== verification/SwiftLoader.thy ===== *)
theory SwiftLoader
  imports Frameworks SwiftAbi
begin

text \<open>
  \<open>grafted-frameworks/src/swift_runtime.rs\<close>: loading the host's Swift runtime and the compiled
  replacement of SwiftUI, and the table of the symbols found in them, under the names a Darwin
  program uses. What is asked of the host is a parameter: which files exist, \<open>HOME\<close>, \<open>dlopen\<close> and
  \<open>dlsym\<close> (0 is a failure), and what \<open>nm\<close> prints. The table is filled once; its names have no NUL.
\<close>

section \<open>Names\<close>

definition SWIFT_LIB_PATHS :: "string list" where
  "SWIFT_LIB_PATHS =
    [''swift-runtime/usr/lib/swift/linux'', ''/opt/grafted/swift/usr/lib/swift/linux'',
     ''/usr/lib/swift/linux'', ''/usr/share/swift/usr/lib/swift/linux'',
     ''~/.local/share/swiftly/toolchains/swift-latest/usr/lib/swift/linux'']"

definition SWIFT_LIBS :: "string list" where
  "SWIFT_LIBS =
    [''libswiftCore.so'', ''libswiftSwiftOnoneSupport.so'', ''libswift_Concurrency.so'',
     ''libswiftDispatch.so'', ''libswiftGlibc.so'', ''libFoundation.so'', ''libFoundationNetworking.so'',
     ''libFoundationXML.so'', ''libBlocksRuntime.so'', ''libdispatch.so'', ''libswift_Backtracing.so'',
     ''libswift_StringProcessing.so'', ''libswift_RegexParser.so'', ''libswift_RegexBuilder.so'']"

definition SWIFTUI_SHIM_PATHS :: "string list" where
  "SWIFTUI_SHIM_PATHS =
    [''shims/libSwiftUI.so'', ''/opt/grafted/shims/libSwiftUI.so'']"

definition SWIFT_SYMBOLS :: "string list" where
  "SWIFT_SYMBOLS =
    [''swift_retain'', ''swift_release'', ''swift_retain_n'', ''swift_release_n'', ''swift_allocObject'',
     ''swift_deallocObject'', ''swift_initStackObject'', ''swift_setDeallocating'',
     ''swift_isUniquelyReferenced_nonNull_native'', ''swift_isUniquelyReferenced_native'',
     ''swift_bridgeObjectRetain'', ''swift_bridgeObjectRelease'', ''swift_bridgeObjectRetain_n'',
     ''swift_bridgeObjectRelease_n'', ''swift_unownedRetain'', ''swift_unownedRelease'',
     ''swift_unownedRetainStrong'', ''swift_weakInit'', ''swift_weakDestroy'', ''swift_weakAssign'',
     ''swift_weakLoadStrong'', ''swift_weakTakeInit'', ''swift_weakTakeAssign'', ''swift_weakCopyInit'',
     ''swift_weakCopyAssign'', ''swift_unknownObjectWeakInit'', ''swift_unknownObjectWeakAssign'',
     ''swift_unknownObjectWeakDestroy'', ''swift_unknownObjectWeakLoadStrong'',
     ''swift_getTypeByMangledNameInContext'', ''swift_getTypeByMangledNameInContext2'',
     ''swift_getTypeByMangledNameInContextInMetadataState'',
     ''swift_getTypeByMangledNameInContextInMetadataState2'', ''swift_getSingletonMetadata'',
     ''swift_getGenericMetadata'', ''swift_getForeignTypeMetadata'', ''swift_getObjCClassMetadata'',
     ''swift_getExistentialTypeMetadata'', ''swift_checkMetadataState'', ''swift_initClassMetadata2'',
     ''swift_initStructMetadata'', ''swift_updateClassMetadata2'', ''swift_allocateGenericClassMetadata'',
     ''swift_allocateGenericValueMetadata'', ''swift_getWitnessTable'', ''swift_getAssociatedTypeWitness'',
     ''swift_getAssociatedConformanceWitness'', ''swift_conformsToProtocol'',
     ''swift_getFunctionTypeMetadata'', ''swift_getFunctionTypeMetadata0'',
     ''swift_getFunctionTypeMetadata2'', ''swift_getTupleTypeMetadata'', ''swift_getTupleTypeMetadata2'',
     ''swift_getTupleTypeMetadata3'', ''swift_getMetatypeMetadata'', ''swift_getOpaqueTypeMetadata'',
     ''swift_getOpaqueTypeMetadata2'', ''swift_getOpaqueTypeConformance'',
     ''swift_getOpaqueTypeConformance2'', ''swift_dynamicCast'', ''swift_dynamicCastClass'',
     ''swift_dynamicCastMetatype'', ''swift_dynamicCastObjCClass'',
     ''swift_dynamicCastObjCProtocolConditional'', ''swift_dynamicCastUnknownClass'', ''swift_slowAlloc'',
     ''swift_slowDealloc'', ''swift_allocBox'', ''swift_deallocBox'', ''swift_projectBox'',
     ''swift_makeBoxUnique'', ''swift_allocError'', ''swift_errorRetain'', ''swift_errorRelease'',
     ''swift_getErrorValue'', ''swift_willThrow'', ''swift_unexpectedError'',
     ''swift_getEnumCaseMultiPayload'', ''swift_getEnumTagSinglePayloadGeneric'',
     ''swift_storeEnumTagMultiPayload'', ''swift_storeEnumTagSinglePayloadGeneric'', ''swift_arrayDestroy'',
     ''swift_arrayInitWithCopy'', ''swift_arrayInitWithTakeBackToFront'',
     ''swift_arrayInitWithTakeFrontToBack'', ''swift_getKeyPath'', ''swift_getAtKeyPath'', ''swift_once'',
     ''swift_beginAccess'', ''swift_endAccess'', ''swift_getInitializedObjCClass'',
     ''swift_getObjCClassFromMetadata'', ''swift_unknownObjectRetain'', ''swift_unknownObjectRelease'',
     ''swift_task_create'', ''swift_task_alloc'', ''swift_task_dealloc'', ''swift_task_switch'',
     ''swift_task_enqueue'', ''swift_task_getCurrent'', ''swift_task_getMainExecutor'',
     ''swift_task_isCurrentExecutor'', ''swift_job_run'', ''swift_continuation_init'',
     ''swift_continuation_resume'', ''swift_continuation_throwingResume'',
     ''swift_continuation_throwingResumeWithError'', ''swift_asyncLet_begin'', ''swift_asyncLet_end'',
     ''swift_taskGroup_initialize'', ''swift_taskGroup_destroy'', ''swift_deletedMethodError'',
     ''swift_lookUpClassMethod'', ''swift_isEscapingClosureAtFileLocation'', ''swift_stdlib_random'',
     ''swift_coroFrameAlloc'']"

definition SWIFTUI_SYMBOLS :: "string list" where
  "SWIFTUI_SYMBOLS =
    [''$s7SwiftUI3AppPAAE4mainyyFZ'', ''$s7SwiftUI3AppMp'', ''$s7SwiftUI3AppP4BodyAC_AA5SceneTn'',
     ''$s7SwiftUI3AppTL'', ''$s7SwiftUI5SceneMp'', ''$s7SwiftUI4ViewMp'',
     ''$s7SwiftUI12SceneBuilderV10buildBlockyxxAA0C0RzlFZ'',
     ''$s7SwiftUI12SceneBuilderV10buildBlockyAA05TupleC0Vyxq_Gx_q_tAA0C0RzAaHR_r0_lFZ'',
     ''$s7SwiftUI12SceneBuilderVMa'', ''$s7SwiftUI12SceneBuilderVMn'', ''$s7SwiftUI12SceneBuilderVN'',
     ''$s7SwiftUI11ViewBuilderV10buildBlockyxxAA0C0RzlFZ'',
     ''$s7SwiftUI11ViewBuilderV10buildBlockAA05EmptyC0VyFZ'', ''$s7SwiftUI11ViewBuilderVMa'',
     ''$s7SwiftUI11ViewBuilderVMn'', ''$s7SwiftUI11ViewBuilderVN'',
     ''$s7SwiftUI11WindowGroupV7contentACyxGxyXE_tcfC'',
     ''$s7SwiftUI11WindowGroupV_7contentACyxGSS_xyXEtcfC'', ''$s7SwiftUI11WindowGroupVMa'',
     ''$s7SwiftUI11WindowGroupVMn'', ''$s7SwiftUI11WindowGroupVyxGAA5SceneAAMc'',
     ''$s7SwiftUI11WindowGroupVyxGAA5SceneAAWP'',
     ''$s7SwiftUI12MenuBarExtraV_11systemImage7contentACyxq_GSS_SSq_yXEtcfC'',
     ''$s7SwiftUI12MenuBarExtraV_11systemImage10isInserted7contentACyxq_GSS_SSAA7BindingVySbGq_yXEtcfC'',
     ''$s7SwiftUI12MenuBarExtraV7content5labelACyxq_Gq_yXE_xyXEtcfC'', ''$s7SwiftUI12MenuBarExtraVMa'',
     ''$s7SwiftUI12MenuBarExtraVMn'', ''$s7SwiftUI12MenuBarExtraVyxq_GAA5SceneAAMc'',
     ''$s7SwiftUI12MenuBarExtraVyxq_GAA5SceneAAWP'', ''$s7SwiftUI10ScenePhaseOMa'',
     ''$s7SwiftUI10ScenePhaseOMn'', ''$s7SwiftUI10ScenePhaseON'', ''$s7SwiftUI10ScenePhaseOSHAAMc'',
     ''$s7SwiftUI10ScenePhaseOSQAAMc'', ''$s7SwiftUI10TupleSceneVMa'',
     ''$s7SwiftUI10TupleSceneVyxq_GAA0D0AAMc'', ''$s7SwiftUI10TupleSceneVyxq_GAA0D0AAWP'',
     ''$s7SwiftUI4TextVyACSScfC'', ''$s7SwiftUI4TextVMa'', ''$s7SwiftUI4TextVAA4ViewAAMc'',
     ''$s7SwiftUI4TextVAA4ViewAAWP'', ''$s7SwiftUI18LocalizedStringKeyV13stringLiteralACSS_tcfC'',
     ''$s7SwiftUI18LocalizedStringKeyVMa'', ''$s7SwiftUI18LocalizedStringKeyVMn'',
     ''$s7SwiftUI18LocalizedStringKeyVN'', ''$s7SwiftUI9EmptyViewVACycfC'', ''$s7SwiftUI9EmptyViewVMa'',
     ''$s7SwiftUI9EmptyViewVAA0D0AAMc'', ''$s7SwiftUI5StateVMa'',
     ''$s7SwiftUI5StateV12wrappedValueACyxGx_tcfC'', ''$s7SwiftUI5StateV12wrappedValuexvg'',
     ''$s7SwiftUI5StateV14projectedValueAA7BindingVyxGvg'',
     ''$s7SwiftUI5StateV14projectedValueAA7BindingVyxGvpMV'', ''$s7SwiftUI7BindingVMa'',
     ''$s7SwiftUI7BindingV3get3setACyxGxyc_yxctcfC'', ''$s7SwiftUI11EnvironmentVMa'',
     ''$s7SwiftUI17EnvironmentValuesVMa'', ''$s7SwiftUI17EnvironmentValuesV10scenePhaseAA05SceneF0Ovg'',
     ''$s7SwiftUI28NSApplicationDelegateAdaptorVMa'', ''$s7SwiftUI28NSApplicationDelegateAdaptorVMn'',
     ''$s7SwiftUI28NSApplicationDelegateAdaptorVyACyxGxmcfC'', ''$s7SwiftUI15ModifiedContentVMa'',
     ''$s7SwiftUI15ModifiedContentVyxq_GAA4ViewAAMc'', ''$s7SwiftUI12ViewModifierMp'',
     ''$s7SwiftUI12ViewModifierP4BodyAC_AA0C0Tn'', ''$s7SwiftUI21_ViewModifier_ContentVMa'']"

definition aliases :: "(string \<times> string) list" where
  "aliases =
    [(''10Foundation7CGFloatV'', ''12CoreGraphics7CGFloatV''),
     (''10Foundation7CGFloatV'', ''14CoreFoundation7CGFloatV''),
     (''10Foundation6CGRectV'', ''12CoreGraphics6CGRectV''),
     (''10Foundation7CGPointV'', ''12CoreGraphics7CGPointV''),
     (''10Foundation6CGSizeV'', ''12CoreGraphics6CGSizeV'')]"

section \<open>Text\<close>

fun split_on :: "(char \<Rightarrow> bool) \<Rightarrow> string \<Rightarrow> string list" where
  "split_on p [] = [[]]"
| "split_on p (c # cs) =
     (if p c then [] # split_on p cs
      else case split_on p cs of w # ws \<Rightarrow> (c # w) # ws | [] \<Rightarrow> [[c]])"

definition ascii_space :: "char \<Rightarrow> bool" where
  "ascii_space c \<longleftrightarrow> c \<in> {CHR '' '', CHR 0x09, CHR 0x0A, CHR 0x0B, CHR 0x0C, CHR 0x0D}"

definition text_lines :: "string \<Rightarrow> string list" where
  "text_lines s = (let ls = split_on (\<lambda>c. c = CHR 0x0A) s in if last ls = [] then butlast ls else ls)"

definition text_words :: "string \<Rightarrow> string list" where
  "text_words s = filter (\<lambda>w. w \<noteq> []) (split_on ascii_space s)"

text \<open>\<open>str::replace\<close>: every occurrence, from the left.\<close>

function replace_text :: "string \<Rightarrow> string \<Rightarrow> string \<Rightarrow> string" where
  "replace_text pat new [] = []"
| "replace_text pat new (c # cs) =
     (if pat \<noteq> [] \<and> take (length pat) (c # cs) = pat
      then new @ replace_text pat new (drop (length pat) (c # cs))
      else c # replace_text pat new cs)"
  by pat_completeness auto
termination
  by (relation "measure (\<lambda>(pat, new, s). length s)") (auto simp: neq_Nil_conv)

definition unprefixed :: "string \<Rightarrow> string" where
  "unprefixed n = (case strip_prefix ''_'' n of Some s \<Rightarrow> s | None \<Rightarrow> n)"

section \<open>Loading\<close>

record swift_host =
  file_exists :: "string \<Rightarrow> bool"
  HOME :: "string option"
  dlopen :: "string \<Rightarrow> u64"
  dlsym :: "u64 \<Rightarrow> string \<Rightarrow> u64"
  nm_output :: "string \<Rightarrow> string option"

text \<open>A symbol is entered with and without the underscore of Darwin's names.\<close>

definition insert_both :: "string \<Rightarrow> u64 \<Rightarrow> symbols \<Rightarrow> symbols" where
  "insert_both n a s = alist_insert n a (alist_insert (CHR ''_'' # n) a s)"

definition insert_aliases :: "string \<Rightarrow> u64 \<Rightarrow> symbols \<Rightarrow> symbols" where
  "insert_aliases clean a s =
     fold (\<lambda>(linux, darwin) s.
         if contains_text clean linux then insert_both (replace_text linux darwin clean) a s else s)
       aliases s"

definition scan_line :: "swift_host \<Rightarrow> u64 \<Rightarrow> string \<Rightarrow> symbols \<Rightarrow> symbols" where
  "scan_line H handle line s =
     (let parts = text_words line
      in if length parts < 3 then s
         else let found = parts ! 2
              in if starts_with found ''$s7SwiftUI'' \<or> starts_with found ''_$s7SwiftUI''
                 then let clean = unprefixed found;
                          addr = (if dlsym H handle found \<noteq> 0 then dlsym H handle found else dlsym H handle clean)
                      in if addr = 0 then s else insert_aliases clean addr (insert_both clean addr s)
                 else s)"

definition known_symbol :: "swift_host \<Rightarrow> u64 \<Rightarrow> string \<Rightarrow> symbols \<Rightarrow> symbols" where
  "known_symbol H handle known s =
     (if dlsym H handle known = 0 then s else insert_both known (dlsym H handle known) s)"

definition shim_symbols :: "swift_host \<Rightarrow> u64 \<Rightarrow> string \<Rightarrow> symbols \<Rightarrow> symbols" where
  "shim_symbols H handle shim_path s =
     fold (known_symbol H handle) SWIFTUI_SYMBOLS
       (case nm_output H shim_path of
          None \<Rightarrow> s | Some out \<Rightarrow> fold (scan_line H handle) (text_lines out) s)"

text \<open>The first of the paths that exists and can be opened.\<close>

fun load_shim :: "swift_host \<Rightarrow> string list \<Rightarrow> u64 list \<Rightarrow> u64 list \<times> symbols" where
  "load_shim H [] handles = (handles, [])"
| "load_shim H (p # ps) handles =
     (if \<not> file_exists H p \<or> dlopen H p = 0 then load_shim H ps handles
      else (handles @ [dlopen H p], shim_symbols H (dlopen H p) p []))"

text \<open>The address the first of the libraries that has the name gives it, or 0.\<close>

fun first_address :: "swift_host \<Rightarrow> u64 list \<Rightarrow> string \<Rightarrow> u64" where
  "first_address H [] n = 0"
| "first_address H (h # hs) n = (if dlsym H h n \<noteq> 0 then dlsym H h n else first_address H hs n)"

definition runtime_symbol :: "swift_host \<Rightarrow> u64 list \<Rightarrow> string \<Rightarrow> symbols \<Rightarrow> symbols" where
  "runtime_symbol H handles n s =
     (if first_address H handles n = 0 then s else insert_both n (first_address H handles n) s)"

definition expand_path :: "swift_host \<Rightarrow> string \<Rightarrow> string option" where
  "expand_path H p = (if starts_with p ''~'' then map_option (\<lambda>home. home @ tl p) (HOME H) else Some p)"

definition load_from :: "swift_host \<Rightarrow> string \<Rightarrow> (u64 list \<times> symbols) option" where
  "load_from H base_path =
     (case expand_path H base_path of
        None \<Rightarrow> None
      | Some expanded \<Rightarrow>
          if \<not> file_exists H (expanded @ ''/libswiftCore.so'') then None
          else let handles = filter (\<lambda>h. h \<noteq> 0) (map (\<lambda>l. dlopen H (expanded @ ''/'' @ l)) SWIFT_LIBS)
               in if handles = [] then None
                  else case load_shim H SWIFTUI_SHIM_PATHS handles of
                    (handles, s) \<Rightarrow> Some (handles, fold (runtime_symbol H handles) SWIFT_SYMBOLS s))"

fun load_first :: "swift_host \<Rightarrow> string list \<Rightarrow> (u64 list \<times> symbols) option" where
  "load_first H [] = None"
| "load_first H (p # ps) = (case load_from H p of Some r \<Rightarrow> Some r | None \<Rightarrow> load_first H ps)"

definition load_swift_runtime :: "swift_host \<Rightarrow> (u64 list \<times> symbols) option" where
  "load_swift_runtime H = load_first H SWIFT_LIB_PATHS"

definition swift_symbols :: "swift_host \<Rightarrow> symbols" where
  "swift_symbols H = (case load_swift_runtime H of Some (_, s) \<Rightarrow> s | None \<Rightarrow> [])"

text \<open>The initializer the bridge of \<open>LocalizedStringKey\<close> calls.\<close>

definition key_initializer :: "swift_host \<Rightarrow> u64 option" where
  "key_initializer H =
     (case load_swift_runtime H of
        None \<Rightarrow> None
      | Some (handles, _) \<Rightarrow>
          let a = first_address H handles ''$s7SwiftUI18LocalizedStringKeyV13stringLiteralACSS_tcfC''
          in if a = 0 then None else Some a)"

section \<open>What a program binds to\<close>

definition plain_name :: "string \<Rightarrow> bool" where
  "plain_name n \<longleftrightarrow> n \<noteq> [] \<and> hd n \<noteq> CHR ''_''"

definition paired :: "symbols \<Rightarrow> bool" where
  "paired s \<longleftrightarrow> distinct (map fst s) \<and> (\<forall>n. plain_name n \<longrightarrow> map_of s (CHR ''_'' # n) = map_of s n)"

lemma insert_both_paired: "plain_name n \<Longrightarrow> paired s \<Longrightarrow> paired (insert_both n a s)"
  by (auto simp: paired_def insert_both_def plain_name_def)

lemma insert_both_lookup: "plain_name n \<Longrightarrow> plain_name x \<Longrightarrow> map_of (insert_both n a s) x = (if x = n then Some a else map_of s x)"
  by (auto simp: insert_both_def plain_name_def)

lemma fold_paired: "(\<And>x s. x \<in> set xs \<Longrightarrow> paired s \<Longrightarrow> paired (f x s)) \<Longrightarrow> paired s \<Longrightarrow> paired (fold f xs s)"
  by (induction xs arbitrary: s) simp_all

lemma aliases_paired: "plain_name clean \<Longrightarrow> hd clean = CHR ''$'' \<Longrightarrow> paired s \<Longrightarrow> paired (insert_aliases clean a s)"
  unfolding insert_aliases_def
proof (rule fold_paired)
  fix x s assume c: "plain_name clean" "hd clean = CHR ''$''" and x: "x \<in> set aliases" and s: "paired s"
  obtain linux darwin where l: "x = (linux, darwin)" by (cases x)
  have "linux \<noteq> [] \<and> hd linux = CHR ''1''" using x unfolding l by (auto simp: aliases_def)
  moreover obtain cs where "clean = CHR ''$'' # cs" using c by (cases clean) (auto simp: plain_name_def)
  ultimately have "plain_name (replace_text linux darwin clean)" by (cases linux) (auto simp: plain_name_def)
  then show "paired ((case x of (linux, darwin) \<Rightarrow> \<lambda>s. if contains_text clean linux
      then insert_both (replace_text linux darwin clean) a s else s) s)"
    using s l by (simp add: insert_both_paired)
qed

lemma scan_line_paired: "paired s \<Longrightarrow> paired (scan_line H h line s)"
proof -
  assume s: "paired s"
  have "plain_name (unprefixed n) \<and> hd (unprefixed n) = CHR ''$''"
    if "starts_with n ''$s7SwiftUI'' \<or> starts_with n ''_$s7SwiftUI''" for n
    using that by (auto simp: starts_with_def strip_prefix_iff unprefixed_def plain_name_def)
  then show ?thesis
    using s by (auto simp: scan_line_def Let_def intro!: aliases_paired insert_both_paired)
qed

lemma tables_plain: "\<forall>n \<in> set SWIFT_SYMBOLS. plain_name n" "\<forall>n \<in> set SWIFTUI_SYMBOLS. plain_name n"
  unfolding SWIFT_SYMBOLS_def SWIFTUI_SYMBOLS_def by (simp_all add: plain_name_def)

lemma shim_symbols_paired: "paired s \<Longrightarrow> paired (shim_symbols H h p s)"
  unfolding shim_symbols_def
  by (rule fold_paired)
    (use tables_plain(2) in \<open>auto simp: known_symbol_def insert_both_paired intro!: fold_paired scan_line_paired split: option.split\<close>)

lemma load_shim_paired: "paired (snd (load_shim H ps handles))"
  by (induction ps) (simp_all add: shim_symbols_paired paired_def [of "[]"])

lemma runtime_symbols_paired: "paired s \<Longrightarrow> paired (fold (runtime_symbol H hs) SWIFT_SYMBOLS s)"
  by (rule fold_paired) (use tables_plain(1) in \<open>auto simp: runtime_symbol_def insert_both_paired\<close>)

lemma runtime_symbols_lookup:
  assumes "\<forall>n \<in> set ns. plain_name n" and "plain_name x"
  shows "map_of (fold (runtime_symbol H hs) ns s) x
    = (if x \<in> set ns \<and> first_address H hs x \<noteq> 0 then Some (first_address H hs x) else map_of s x)"
  using assms(1)
  by (induction ns arbitrary: s) (auto simp: runtime_symbol_def insert_both_lookup assms(2))

lemma load_first_paired:
  "load_first H ps = Some (handles, s) \<Longrightarrow>
    \<exists>s0. paired s0 \<and> s = fold (runtime_symbol H handles) SWIFT_SYMBOLS s0"
proof (induction ps)
  case (Cons p ps)
  show ?case
  proof (cases "load_from H p")
    case None
    with Cons show ?thesis by simp
  next
    case (Some r)
    then have "load_from H p = Some (handles, s)" using Cons.prems by simp
    then show ?thesis
      using load_shim_paired [of H SWIFTUI_SHIM_PATHS]
      by (auto simp: load_from_def Let_def split: option.splits if_splits prod.splits) (metis snd_conv)
  qed
qed simp

text \<open>A layer that takes over some of the names of another.\<close>

lemma fold_insert_some:
  assumes "distinct (map fst es)"
  shows "map_of (fold (\<lambda>(k, v) s. if P k then alist_insert k (f k v) s else s) es s) x
    = (if P x then (case map_of es x of Some v \<Rightarrow> Some (f x v) | None \<Rightarrow> map_of s x) else map_of s x)"
  using assms
proof (induction es arbitrary: s)
  case Nil
  then show ?case by simp
next
  case (Cons e es)
  obtain k v where e: "e = (k, v)" by (cases e)
  then have "x = k \<Longrightarrow> map_of es x = None" using Cons.prems by (force simp: map_of_eq_None_iff)
  with Cons e show ?case by (auto split: option.splits)
qed

lemma contains_text_chars: "contains_text s p \<Longrightarrow> set p \<subseteq> set s"
  by (induction s p rule: contains_text.induct) (auto simp: starts_with_def strip_prefix_iff dest!: arg_cong [where f = set])

lemma stub_names_chars: "\<forall>n \<in> set all_stub_names. CHR ''U'' \<notin> set n" "\<forall>n \<in> set kept_stub_names. CHR ''U'' \<notin> set n"
  by (simp_all add: all_stub_names_def kept_stub_names_def)

lemma stub_names_not_swiftui:
  "n \<in> set all_stub_names \<union> set kept_stub_names \<Longrightarrow> \<not> contains_text n ''SwiftUI''"
  using stub_names_chars contains_text_chars [of n "''SwiftUI''"] by auto

lemma swiftui_lookup:
  assumes "distinct (map fst real)" and "contains_text x ''SwiftUI''" and "map_of real x = Some a"
  shows "lookup (framework_registry addr get_class real stubs_set) swiftui_path x
    = Some (if intercepted x then addr (Fn ''bridge_SwiftUI_LocalizedStringKey_init'') else a)"
proof -
  have "real \<noteq> []" using assms(3) by auto
  then have "map_of (swift_table addr real stubs_set) x = Some a"
    using stub_names_not_swiftui [of x] assms
    by (auto simp: swift_table_lookup [OF assms(1)] swift_export_def Let_def)
  moreover have "swiftui_path \<notin> set empty_frameworks" by (simp add: empty_frameworks_def swiftui_path_def)
  ultimately show ?thesis
    using assms(2) by (simp add: lookup_def registry_by_layer swiftui_symbols_def fold_insert_some swift_table_distinct)
qed

text \<open>
  C19. The host's Swift runtime under the program's names. Once it is loaded, the table has each
  name once, and every name with Darwin's underscore stands for the address of the same name
  without it; a runtime function gets the address the first library that has it gives, and a
  program that imports it from any Swift library is bound to that address, unless the name
  keeps its stub. A SwiftUI symbol of the compiled replacement is what a program importing
  SwiftUI gets, but for the string initializer of \<open>LocalizedStringKey\<close>, which gets the bridge.
\<close>

theorem host_symbols_bound:
  assumes "load_swift_runtime H = Some (handles, syms)"
  shows "swift_symbols H = syms \<and> distinct (map fst syms)
    \<and> (\<forall>x. plain_name x \<longrightarrow> map_of syms (CHR ''_'' # x) = map_of syms x)
    \<and> (\<forall>n \<in> set SWIFT_SYMBOLS. first_address H handles n \<noteq> 0 \<longrightarrow>
        map_of syms n = Some (first_address H handles n)
        \<and> (CHR ''_'' # n \<notin> set (if stubs_set then all_stub_names else kept_stub_names) \<longrightarrow>
            (\<forall>p \<in> set swift_libraries. lookup (framework_registry addr get_class (swift_symbols H) stubs_set) p (CHR ''_'' # n)
               = Some (first_address H handles n))))
    \<and> (\<forall>x a. contains_text x ''SwiftUI'' \<and> map_of syms x = Some a \<longrightarrow>
        lookup (framework_registry addr get_class (swift_symbols H) stubs_set) swiftui_path x
          = Some (if intercepted x then addr (Fn ''bridge_SwiftUI_LocalizedStringKey_init'') else a))"
proof -
  obtain s0 where s0: "paired s0" "syms = fold (runtime_symbol H handles) SWIFT_SYMBOLS s0"
    using assms load_first_paired unfolding load_swift_runtime_def by blast
  then have p: "paired syms" using runtime_symbols_paired by simp
  have eq: "swift_symbols H = syms" using assms by (simp add: swift_symbols_def)
  have d: "distinct (map fst syms)" using p by (simp add: paired_def)
  have found: "map_of syms n = Some (first_address H handles n)" "map_of syms (CHR ''_'' # n) = Some (first_address H handles n)"
    if "n \<in> set SWIFT_SYMBOLS" "first_address H handles n \<noteq> 0" for n
  proof -
    have n: "plain_name n" using that(1) tables_plain(1) by blast
    then show 1: "map_of syms n = Some (first_address H handles n)"
      unfolding s0(2) using that tables_plain(1) by (simp add: runtime_symbols_lookup)
    show "map_of syms (CHR ''_'' # n) = Some (first_address H handles n)" using p n 1 by (simp add: paired_def)
  qed
  have "lookup (framework_registry addr get_class syms stubs_set) q (CHR ''_'' # n) = Some (first_address H handles n)"
    if "n \<in> set SWIFT_SYMBOLS" "first_address H handles n \<noteq> 0" "q \<in> set swift_libraries"
      "CHR ''_'' # n \<notin> set (if stubs_set then all_stub_names else kept_stub_names)" for n q
    using found(2) [OF that(1,2)] that(4)
    by (auto simp: swift_library_lookup [OF d that(3)] swift_export_def Let_def)
  then show ?thesis
    using p found swiftui_lookup [OF d] unfolding eq by (auto simp: paired_def)
qed

text \<open>A host with the first of the libraries, which has one of the functions.\<close>

definition demo_host :: swift_host where
  "demo_host = \<lparr>file_exists = \<lambda>_. True, HOME = None,
     dlopen = \<lambda>p. if p = ''swift-runtime/usr/lib/swift/linux/libswiftCore.so'' then 0x7000 else 0,
     dlsym = \<lambda>h n. if h = 0x7000 \<and> n = ''swift_retain'' then 0x9000 else 0, nm_output = \<lambda>_. None\<rparr>"

theorem host_symbols_bound_witness:
  "lookup (framework_registry demo_addr (\<lambda>_. 0) (swift_symbols demo_host) False) ''/usr/lib/swift/libswiftCore.dylib'' ''_swift_retain''
    = Some 0x9000"
proof -
  have "load_from demo_host ''swift-runtime/usr/lib/swift/linux''
      = Some ([0x7000], fold (runtime_symbol demo_host [0x7000]) SWIFT_SYMBOLS [])"
    by (simp add: load_from_def expand_path_def starts_with_def demo_host_def SWIFT_LIBS_def SWIFTUI_SHIM_PATHS_def Let_def)
  then have l: "load_swift_runtime demo_host = Some ([0x7000], fold (runtime_symbol demo_host [0x7000]) SWIFT_SYMBOLS [])"
    by (simp add: load_swift_runtime_def SWIFT_LIB_PATHS_def)
  have a: "first_address demo_host [0x7000] ''swift_retain'' = 0x9000" by (simp add: demo_host_def)
  have n: "''swift_retain'' \<in> set SWIFT_SYMBOLS" by (simp add: SWIFT_SYMBOLS_def)
  have k: "''_swift_retain'' \<notin> set kept_stub_names" by (simp add: kept_stub_names_def)
  have p: "''/usr/lib/swift/libswiftCore.dylib'' \<in> set swift_libraries" by (simp add: swift_libraries_def)
  show ?thesis
    using host_symbols_bound [OF l, of False demo_addr "\<lambda>_. 0", THEN conjunct2, THEN conjunct2, THEN conjunct2, THEN conjunct1,
        THEN bspec, OF n] k p a
    by (simp del: first_address.simps)
qed

end
